(* ===== verification/Prelude.thy ===== *)
theory Prelude
  imports Main "HOL-Library.Sublist"
begin

text \<open>
  Shared vocabulary of the development: the part of Rust's core and standard library that the
  modelled crates use (strings, slices, \<open>Option\<close> and \<open>Result\<close> plumbing), the generic lemmas the
  component theories share, and the collections of facts their proofs name.

  A Rust \<open>char\<close> is a Unicode scalar value. HOL's \<open>char\<close> has 256 values, so a Rust character is
  \<open>Ch c\<close> for the code points 0 to 255 and \<open>Wide n\<close> for the code point \<open>256 + n\<close>: every code point
  has exactly one representation. A Rust \<open>String\<close> or \<open>&str\<close> is the list of its characters.
\<close>

section \<open>Fact collections\<close>

named_theorems rust_defs "definitions of the Rust library layer"
named_theorems scan_defs "definitions of the character scanners"
named_theorems lex_defs "definitions of the lexer steps"
named_theorems risk_defs "definitions of the risk predicates"

section \<open>Characters and strings\<close>

datatype rchar = Ch char | Wide nat

type_synonym rstring = "rchar list"

text \<open>A string literal of the source.\<close>

definition S :: "string \<Rightarrow> rstring" where
  "S s = map Ch s"

lemma S_eq_iff [simp]: "S a = S b \<longleftrightarrow> a = b"
  unfolding S_def by (rule inj_map_eq_map) (simp add: inj_def)

lemma S_Nil [simp]: "S [] = []"
  by (simp add: S_def)

lemma S_eq_Nil [simp]: "S a = [] \<longleftrightarrow> a = []" "[] = S a \<longleftrightarrow> a = []"
  by (simp_all add: S_def)

lemma length_S [simp]: "length (S a) = length a"
  by (simp add: S_def)

lemma S_append [simp]: "S (a @ b) = S a @ S b"
  by (simp add: S_def)

abbreviation NL :: rchar where "NL \<equiv> Ch (CHR 0x0A)"
abbreviation CR :: rchar where "CR \<equiv> Ch (CHR 0x0D)"
abbreviation SQ :: rchar where "SQ \<equiv> Ch (CHR 0x27)"
abbreviation DQ :: rchar where "DQ \<equiv> Ch (CHR 0x22)"
abbreviation BSL :: rchar where "BSL \<equiv> Ch (CHR 0x5C)"
abbreviation TICK :: rchar where "TICK \<equiv> Ch (CHR 0x60)"

text \<open>\<open>matches!(c, 'a' | 'b' | ...)\<close> on characters and \<open>matches!(s, "a" | "b" | ...)\<close> on strings.\<close>

definition among :: "rchar \<Rightarrow> string \<Rightarrow> bool" where
  "among c s \<longleftrightarrow> c \<in> set (S s)"

definition one_of :: "rstring \<Rightarrow> string list \<Rightarrow> bool" where
  "one_of x ss \<longleftrightarrow> x \<in> set (map S ss)"

lemma one_of_S [simp]: "one_of (S a) ss \<longleftrightarrow> a \<in> set ss"
  by (auto simp: one_of_def)

lemma one_of_Nil [simp]: "\<not> one_of x []"
  by (simp add: one_of_def)

lemma one_of_Cons [simp]: "one_of x (s # ss) \<longleftrightarrow> x = S s \<or> one_of x ss"
  by (auto simp: one_of_def)

lemma among_Ch [simp]: "among (Ch c) s \<longleftrightarrow> c \<in> set s"
  by (auto simp: among_def S_def)

lemma among_Wide [simp]: "\<not> among (Wide n) s"
  by (auto simp: among_def S_def)

text \<open>\<open>char::is_whitespace\<close>: the Unicode property White_Space.\<close>

fun is_whitespace :: "rchar \<Rightarrow> bool" where
  "is_whitespace (Ch c) =
     (c \<in> set [CHR 0x09, CHR 0x0A, CHR 0x0B, CHR 0x0C, CHR 0x0D, CHR 0x20, CHR 0x85, CHR 0xA0])"
| "is_whitespace (Wide n) =
     (let p = n + 256 in
      p = 0x1680 \<or> 0x2000 \<le> p \<and> p \<le> 0x200A \<or> p = 0x2028 \<or> p = 0x2029 \<or> p = 0x202F
      \<or> p = 0x205F \<or> p = 0x3000)"

definition ascii_lower_chars :: string where
  "ascii_lower_chars = ''abcdefghijklmnopqrstuvwxyz''"

definition ascii_upper_chars :: string where
  "ascii_upper_chars = ''ABCDEFGHIJKLMNOPQRSTUVWXYZ''"

definition ascii_digit_chars :: string where
  "ascii_digit_chars = ''0123456789''"

definition is_ascii_digit :: "rchar \<Rightarrow> bool" where
  "is_ascii_digit c = among c ascii_digit_chars"

definition is_ascii_alphabetic :: "rchar \<Rightarrow> bool" where
  "is_ascii_alphabetic c = (among c ascii_lower_chars \<or> among c ascii_upper_chars)"

definition is_ascii_alphanumeric :: "rchar \<Rightarrow> bool" where
  "is_ascii_alphanumeric c = (is_ascii_alphabetic c \<or> is_ascii_digit c)"

fun lower_char :: "rchar \<Rightarrow> rchar" where
  "lower_char (Ch c) =
     (case map_of (zip ascii_upper_chars ascii_lower_chars) c of Some d \<Rightarrow> Ch d | None \<Rightarrow> Ch c)"
| "lower_char (Wide n) = Wide n"

definition to_ascii_lowercase :: "rstring \<Rightarrow> rstring" where
  "to_ascii_lowercase s = map lower_char s"

definition eq_ignore_ascii_case :: "rstring \<Rightarrow> rstring \<Rightarrow> bool" where
  "eq_ignore_ascii_case a b = (to_ascii_lowercase a = to_ascii_lowercase b)"

section \<open>String operations\<close>

fun starts_with :: "'a list \<Rightarrow> 'a list \<Rightarrow> bool" where
  "starts_with s [] = True"
| "starts_with [] (p # ps) = False"
| "starts_with (c # s) (p # ps) = (c = p \<and> starts_with s ps)"

fun strip_prefix :: "rstring \<Rightarrow> rstring \<Rightarrow> rstring option" where
  "strip_prefix s [] = Some s"
| "strip_prefix [] (p # ps) = None"
| "strip_prefix (c # s) (p # ps) = (if c = p then strip_prefix s ps else None)"

definition strip_suffix :: "rstring \<Rightarrow> rstring \<Rightarrow> rstring option" where
  "strip_suffix s p = map_option rev (strip_prefix (rev s) (rev p))"

fun contains_str :: "rstring \<Rightarrow> rstring \<Rightarrow> bool" where
  "contains_str [] p = (p = [])"
| "contains_str (c # s) p = (starts_with (c # s) p \<or> contains_str s p)"

definition contains_any :: "rstring \<Rightarrow> string \<Rightarrow> bool" where
  "contains_any s cs = list_ex (\<lambda>c. among c cs) s"

text \<open>\<open>str::split_once\<close> on a character: the text before and after its first occurrence.\<close>

fun split_once :: "rchar \<Rightarrow> rstring \<Rightarrow> (rstring \<times> rstring) option" where
  "split_once d [] = None"
| "split_once d (c # s) =
     (if c = d then Some ([], s) else map_option (\<lambda>(a, b). (c # a, b)) (split_once d s))"

text \<open>\<open>str::split\<close> on a character predicate: always at least one piece.\<close>

fun split_on :: "(rchar \<Rightarrow> bool) \<Rightarrow> rstring \<Rightarrow> rstring list" where
  "split_on p [] = [[]]"
| "split_on p (c # s) =
     (if p c then [] # split_on p s
      else (case split_on p s of [] \<Rightarrow> [[c]] | w # ws \<Rightarrow> (c # w) # ws))"

definition trim_matches :: "string \<Rightarrow> rstring \<Rightarrow> rstring" where
  "trim_matches cs s =
     rev (dropWhile (\<lambda>c. among c cs) (rev (dropWhile (\<lambda>c. among c cs) s)))"

definition quote_chars :: string where
  "quote_chars = [CHR 0x22, CHR 0x27]"

definition str_trim :: "rstring \<Rightarrow> rstring" where
  "str_trim s = rev (dropWhile is_whitespace (rev (dropWhile is_whitespace s)))"

definition replace_char :: "rchar \<Rightarrow> rchar \<Rightarrow> rstring \<Rightarrow> rstring" where
  "replace_char a b s = map (\<lambda>c. if c = a then b else c) s"

lemmas [rust_defs] =
  is_ascii_digit_def is_ascii_alphabetic_def is_ascii_alphanumeric_def ascii_lower_chars_def
  ascii_upper_chars_def ascii_digit_chars_def to_ascii_lowercase_def eq_ignore_ascii_case_def
  strip_suffix_def contains_any_def trim_matches_def quote_chars_def str_trim_def
  replace_char_def

lemma starts_with_iff_prefix: "starts_with s p \<longleftrightarrow> prefix p s"
  by (induction s p rule: starts_with.induct) auto

lemma starts_with_refl [simp]: "starts_with s s"
  by (simp add: starts_with_iff_prefix)

lemma starts_with_S_Cons [simp]: "starts_with (S (c # s)) (S (p # ps)) \<longleftrightarrow> c = p \<and> starts_with (S s) (S ps)"
  by (simp add: S_def)

lemma starts_with_S_Nil [simp]: "\<not> starts_with (S []) (S (p # ps))"
  by (simp add: S_def)

lemma strip_prefix_Some_iff: "strip_prefix s p = Some r \<longleftrightarrow> s = p @ r"
  by (induction s p rule: strip_prefix.induct) auto

lemma length_lowercase [simp]: "length (to_ascii_lowercase s) = length s"
  by (simp add: to_ascii_lowercase_def)

section \<open>Slices\<close>

text \<open>\<open>slice.get(i)\<close>.\<close>

definition lget :: "'a list \<Rightarrow> nat \<Rightarrow> 'a option" where
  "lget xs i = (if i < length xs then Some (xs ! i) else None)"

definition slice :: "'a list \<Rightarrow> nat \<Rightarrow> nat \<Rightarrow> 'a list" where
  "slice xs a b = take (b - a) (drop a xs)"

lemma lget_eq_Some_iff [simp]: "lget xs i = Some x \<longleftrightarrow> i < length xs \<and> xs ! i = x"
  by (auto simp: lget_def)

lemma lget_eq_None_iff [simp]: "lget xs i = None \<longleftrightarrow> length xs \<le> i"
  by (auto simp: lget_def)

lemma lget_code [code]: "lget [] i = None" "lget (x # xs) i = (case i of 0 \<Rightarrow> Some x | Suc j \<Rightarrow> lget xs j)"
  by (auto simp: lget_def split: nat.split)

lemma lget_Some_mem: "lget xs i = Some x \<Longrightarrow> x \<in> set xs"
  by auto

lemma length_takeWhile_drop: "i \<le> length xs \<Longrightarrow> i + length (takeWhile P (drop i xs)) \<le> length xs"
  using length_takeWhile_le [of P "drop i xs"] by simp

lemma drop_eq_ConsD:
  assumes "drop i xs = y # ys"
  shows "i < length xs" "xs ! i = y" "drop (Suc i) xs = ys"
proof -
  from assms show "i < length xs" by (metis drop_all list.distinct(1) not_le)
  then show "xs ! i = y" "drop (Suc i) xs = ys"
    using assms Cons_nth_drop_Suc [of i xs] by auto
qed

section \<open>Results\<close>

text \<open>The operator \<open>?\<close> on \<open>Result\<close>: \<open>Inl\<close> is \<open>Err\<close>, \<open>Inr\<close> is \<open>Ok\<close>.\<close>

definition rbind :: "'e + 'a \<Rightarrow> ('a \<Rightarrow> 'e + 'b) \<Rightarrow> 'e + 'b" where
  "rbind m f = (case m of Inl e \<Rightarrow> Inl e | Inr x \<Rightarrow> f x)"

lemma rbind_simps [simp]: "rbind (Inl e) f = Inl e" "rbind (Inr x) f = f x"
  by (simp_all add: rbind_def)

lemma rbind_eq_Inr_iff [simp]: "rbind m f = Inr y \<longleftrightarrow> (\<exists>x. m = Inr x \<and> f x = Inr y)"
  by (cases m) auto

lemma rbind_eq_Inl_iff: "rbind m f = Inl e \<longleftrightarrow> m = Inl e \<or> (\<exists>x. m = Inr x \<and> f x = Inl e)"
  by (cases m) auto

lemma rbind_cong [fundef_cong]:
  "m = m' \<Longrightarrow> (\<And>x. m' = Inr x \<Longrightarrow> f x = f' x) \<Longrightarrow> rbind m f = rbind m' f'"
  by (cases m') auto

text \<open>Inversion of one early return: the shape of every chain of guards in the source.\<close>

lemma early_returnE:
  assumes "(if b then x else y) = r"
  obtains "b" "x = r" | "\<not> b" "y = r"
  using assms by (cases b) auto

lemma Ok_eqD: "Inr x = Inr y \<Longrightarrow> y = x"
  by simp

lemma Err_not_OkE: "Inl e = Inr y \<Longrightarrow> P"
  by simp

lemma Some_not_NoneI: "x = Some y \<Longrightarrow> x \<noteq> None"
  by simp

text \<open>\<open>opt.ok_or(e)\<close>.\<close>

definition ok_or :: "'a option \<Rightarrow> 'e \<Rightarrow> 'e + 'a" where
  "ok_or x e = (case x of None \<Rightarrow> Inl e | Some y \<Rightarrow> Inr y)"

lemma ok_or_simps [simp]: "ok_or None e = Inl e" "ok_or (Some y) e = Inr y"
  by (simp_all add: ok_or_def)

lemma ok_or_eq_Inr_iff [simp]: "ok_or x e = Inr y \<longleftrightarrow> x = Some y"
  by (cases x) auto

text \<open>\<open>for x in xs { acc = f(acc, x)?; }\<close>.\<close>

fun try_fold :: "('a \<Rightarrow> 'b \<Rightarrow> 'e + 'a) \<Rightarrow> 'a \<Rightarrow> 'b list \<Rightarrow> 'e + 'a" where
  "try_fold f a [] = Inr a"
| "try_fold f a (x # xs) = rbind (f a x) (\<lambda>b. try_fold f b xs)"

text \<open>\<open>opt.is_some_and(p)\<close> and \<open>opt.is_none_or(p)\<close>.\<close>

definition is_some_and :: "'a option \<Rightarrow> ('a \<Rightarrow> bool) \<Rightarrow> bool" where
  "is_some_and x p = (case x of None \<Rightarrow> False | Some y \<Rightarrow> p y)"

definition is_none_or :: "'a option \<Rightarrow> ('a \<Rightarrow> bool) \<Rightarrow> bool" where
  "is_none_or x p = (case x of None \<Rightarrow> True | Some y \<Rightarrow> p y)"

text \<open>\<open>opt.filter(|value| !value.is_empty())\<close>.\<close>

definition nonempty :: "'a list option \<Rightarrow> 'a list option" where
  "nonempty x = (case x of None \<Rightarrow> None | Some v \<Rightarrow> if v = [] then None else Some v)"

lemma nonempty_eq_Some [simp]: "nonempty x = Some v \<longleftrightarrow> x = Some v \<and> v \<noteq> []"
  by (auto simp: nonempty_def split: option.splits)

lemma is_some_and_simps [simp]: "\<not> is_some_and None p" "is_some_and (Some y) p = p y"
  by (simp_all add: is_some_and_def)

lemma is_none_or_simps [simp]: "is_none_or None p" "is_none_or (Some y) p = p y"
  by (simp_all add: is_none_or_def)

lemma is_some_and_iff: "is_some_and x p \<longleftrightarrow> (\<exists>y. x = Some y \<and> p y)"
  by (cases x) auto

end
