(* ===== verification/Unix_Path.thy ===== *)
theory Unix_Path
  imports Prelude
begin

text \<open>
  The part of Rust's \<open>std::path\<close> on Unix that the command policy uses. A \<open>Path\<close> is its string; its
  \<open>components()\<close> skip empty pieces and every \<open>.\<close> that does not begin a relative path. Equality and
  \<open>starts_with\<close> of paths compare components. A \<open>PathBuf\<close> that is built by \<open>push\<close> and \<open>pop\<close> of
  components is kept as the list of the components it holds.
\<close>

section \<open>Components\<close>

datatype path_component = RootDir | CurDir | ParentDir | Normal rstring

abbreviation SLASH :: rchar where "SLASH \<equiv> Ch CHR ''/''"

definition path_pieces :: "rstring \<Rightarrow> rstring list" where
  "path_pieces p = split_on (\<lambda>c. c = SLASH) p"

definition piece_component :: "rstring \<Rightarrow> path_component list" where
  "piece_component w =
     (if w = [] \<or> w = S ''.'' then [] else if w = S ''..'' then [ParentDir] else [Normal w])"

definition path_is_absolute :: "rstring \<Rightarrow> bool" where
  "path_is_absolute p = starts_with p [SLASH]"

definition path_components :: "rstring \<Rightarrow> path_component list" where
  "path_components p =
     (if path_is_absolute p then [RootDir]
      else if hd (path_pieces p) = S ''.'' then [CurDir] else [])
     @ concat (map piece_component (path_pieces p))"

definition path_join :: "rstring \<Rightarrow> rstring \<Rightarrow> rstring" where
  "path_join a b =
     (if path_is_absolute b then b
      else if a = [] \<or> last a = SLASH then a @ b
      else a @ [SLASH] @ b)"

definition path_starts_with :: "rstring \<Rightarrow> rstring \<Rightarrow> bool" where
  "path_starts_with p root = starts_with (path_components p) (path_components root)"

section \<open>Path buffers\<close>

type_synonym path_buf = "path_component list"

definition path_pop :: "path_buf \<Rightarrow> path_buf" where
  "path_pop b = (if b = [] \<or> b = [RootDir] then b else butlast b)"

fun path_push :: "path_buf \<Rightarrow> path_component \<Rightarrow> path_buf" where
  "path_push b RootDir = [RootDir]"
| "path_push b c = b @ [c]"

text \<open>The string of a buffer that holds an optional root followed by names.\<close>

fun join_names :: "path_component list \<Rightarrow> rstring" where
  "join_names [] = []"
| "join_names [Normal w] = w"
| "join_names (Normal w # cs) = w @ SLASH # join_names cs"
| "join_names (c # cs) = join_names cs"

definition path_string :: "path_buf \<Rightarrow> rstring" where
  "path_string b = (case b of RootDir # cs \<Rightarrow> SLASH # join_names cs | cs \<Rightarrow> join_names cs)"

definition normal_names :: "path_component list \<Rightarrow> rstring list" where
  "normal_names cs = concat (map (\<lambda>c. case c of Normal w \<Rightarrow> [w] | _ \<Rightarrow> []) cs)"

lemma split_on_not_Nil [simp]: "split_on p s \<noteq> []"
  by (cases s) (auto split: list.split)

lemma normal_names_simps [simp]:
  "normal_names [] = []" "normal_names (Normal w # cs) = w # normal_names cs"
  "normal_names (RootDir # cs) = normal_names cs" "normal_names (CurDir # cs) = normal_names cs"
  "normal_names (ParentDir # cs) = normal_names cs" "normal_names (a @ b) = normal_names a @ normal_names b"
  by (simp_all add: normal_names_def)

end
