(* ===== verification/Command_Types.thy ===== *)
theory Command_Types
  imports Prelude
begin

text \<open>
  The data of the command policy: the enums and structs of
  \<open>src/crates/core/src/command/types.rs\<close>, of \<open>command/policy.rs\<close> and the risk level of
  \<open>protocol/office_command.rs\<close>.

  Codes are the stable machine-readable identifiers of the source and are kept verbatim. The
  localised diagnostic sentence (\<open>reason\<close>) that the source stores beside every code is display text
  that no decision reads; the model leaves it out.
\<close>

section \<open>Decisions, risks and findings\<close>

datatype command_authorization_source = Automatic | ExplicitUser

datatype command_policy_decision = Allow | RequireExplicitApproval | Deny

datatype command_risk_class =
    ReadOnly
  | SafeWorkspaceWrite
  | DirectWrite
  | Network
  | PackageManagement
  | HighImpact
  | Unknown
  | Catastrophic
  | Unsupported
  | ExternalRead

datatype agent_command_risk_level =
    LevelReadOnly
  | LevelWritesWorkspace
  | LevelNetwork
  | LevelDestructive
  | LevelUnknown

record command_policy_finding =
  fd_segment_index :: nat
  fd_program :: rstring
  fd_risk :: command_risk_class
  fd_code :: string

record command_policy_evaluation =
  ev_decision :: command_policy_decision
  ev_code :: string
  ev_risk_level :: agent_command_risk_level
  ev_findings :: "command_policy_finding list"

text \<open>A syntax error is its code.\<close>

datatype command_syntax_error = CommandSyntaxError (err_code: string)

type_synonym 'a checked = "command_syntax_error + 'a"

abbreviation err :: "string \<Rightarrow> 'a checked" where
  "err c \<equiv> Inl (CommandSyntaxError c)"

text \<open>The one bound on the characters of a command (\<open>MAX_COMMAND_CHARS\<close>) and on the nesting of
  analysed commands (\<open>MAX_POLICY_NESTING\<close>).\<close>

definition MAX_COMMAND_CHARS :: nat where
  "MAX_COMMAND_CHARS = 16000"

definition MAX_POLICY_NESTING :: nat where
  "MAX_POLICY_NESTING = 8"

section \<open>Lexed commands\<close>

text \<open>A \<open>Range<usize>\<close> \<open>a..b\<close> is the pair of its bounds.\<close>

type_synonym range = "nat \<times> nat"

definition range_contains :: "range \<Rightarrow> nat \<Rightarrow> bool" where
  "range_contains r i = (fst r \<le> i \<and> i < snd r)"

record shell_input_redirection =
  redir_target :: rstring
  redir_dynamic :: bool
  redir_target_range :: range
  redir_read_write :: bool

record shell_segment =
  seg_tokens :: "rstring list"
  seg_token_ranges :: "range list"
  seg_has_write_redirection :: bool
  seg_input_redirections :: "shell_input_redirection list"
  seg_has_heredoc :: bool

record lexed_command =
  lexed_segments :: "shell_segment list"
  lexed_embedded_commands :: "rstring list"
  lexed_ignored_policy_ranges :: "range list"

section \<open>Findings\<close>

definition finding :: "nat \<Rightarrow> rstring \<Rightarrow> command_risk_class \<Rightarrow> string \<Rightarrow> command_policy_finding" where
  "finding i p r c = \<lparr>fd_segment_index = i, fd_program = p, fd_risk = r, fd_code = c\<rparr>"

lemma finding_sel [simp]:
  "fd_segment_index (finding i p r c) = i" "fd_program (finding i p r c) = p"
  "fd_risk (finding i p r c) = r" "fd_code (finding i p r c) = c"
  by (simp_all add: finding_def)

text \<open>
  \<open>for finding in &mut nested { finding.segment_index += offset; }\<close>: the findings of a nested
  command are appended with their indices shifted by the number of findings before them.
\<close>

definition shift_findings :: "nat \<Rightarrow> command_policy_finding list \<Rightarrow> command_policy_finding list" where
  "shift_findings offset fs = map (\<lambda>f. f\<lparr>fd_segment_index := fd_segment_index f + offset\<rparr>) fs"

definition extend_nested ::
  "command_policy_finding list \<Rightarrow> command_policy_finding list \<Rightarrow> command_policy_finding list" where
  "extend_nested fs nested = fs @ shift_findings (length fs) nested"

lemma risk_shift_findings [simp]: "map fd_risk (shift_findings n fs) = map fd_risk fs"
  by (simp add: shift_findings_def)

lemma code_shift_findings [simp]: "map fd_code (shift_findings n fs) = map fd_code fs"
  by (simp add: shift_findings_def)

lemma length_shift_findings [simp]: "length (shift_findings n fs) = length fs"
  by (simp add: shift_findings_def)

lemma risk_set_shift_findings [simp]: "fd_risk ` set (shift_findings n fs) = fd_risk ` set fs"
  by (metis risk_shift_findings list.set_map)

lemma risk_set_extend_nested [simp]: "fd_risk ` set (extend_nested fs ns) = fd_risk ` set fs \<union> fd_risk ` set ns"
  by (simp add: extend_nested_def image_Un)

lemma length_extend_nested [simp]: "length (extend_nested fs ns) = length fs + length ns"
  by (simp add: extend_nested_def)

end
