(* ===== verification/Command_Program.thy ===== *)
theory Command_Program
  imports Command_Types
begin

text \<open>
  Program resolution and shell-option helpers of \<open>src/crates/core/src/command/lexer.rs\<close>: which token
  of a segment is the program that will run once leading assignments and the transparent wrappers
  \<open>env\<close>, \<open>busybox\<close>, \<open>command\<close> and \<open>builtin\<close> are removed, and how a shell program's options are read.
  The \<open>env -S\<close> search of \<open>command/segment.rs\<close> follows the same walk and stands here too.
\<close>

section \<open>Program names\<close>

definition has_dash :: "rstring \<Rightarrow> bool" where
  "has_dash t = starts_with t (S ''-'')"

definition has_double_dash :: "rstring \<Rightarrow> bool" where
  "has_double_dash t = starts_with t (S ''--'')"

text \<open>\<open>option.starts_with('-') && !option.starts_with("--") && option.chars().skip(1).any(p)\<close>:
  a cluster of short options with a letter that satisfies \<open>p\<close>.\<close>

definition short_cluster_has :: "(rchar \<Rightarrow> bool) \<Rightarrow> rstring \<Rightarrow> bool" where
  "short_cluster_has p option = (has_dash option \<and> \<not> has_double_dash option \<and> list_ex p (drop 1 option))"

definition is_env_assignment :: "rstring \<Rightarrow> bool" where
  "is_env_assignment token =
     (case split_once (Ch CHR ''='') token of
        None \<Rightarrow> False
      | Some (name, _) \<Rightarrow>
          name \<noteq> [] \<and> list_all (\<lambda>c. c = Ch CHR ''_'' \<or> is_ascii_alphanumeric c) name \<and>
          is_some_and (lget name 0) (\<lambda>c. c = Ch CHR ''_'' \<or> is_ascii_alphabetic c))"

definition program_basename :: "rstring \<Rightarrow> rstring" where
  "program_basename program =
     to_ascii_lowercase (last (split_on (\<lambda>c. c = Ch CHR ''/'' \<or> c = BSL) program))"

definition lower_tokens :: "rstring list \<Rightarrow> rstring list" where
  "lower_tokens tokens = map to_ascii_lowercase tokens"

section \<open>Unwrapping\<close>

record effective_prog =
  ep_index :: nat
  ep_executable_indices :: "nat list"

text \<open>The number of tokens that the option loop after \<open>env\<close> consumes.\<close>

fun env_skip :: "rstring list \<Rightarrow> nat" where
  "env_skip [] = 0"
| "env_skip [t] =
     (if one_of t [''-u'', ''--unset'', ''-C'', ''--chdir''] then 2
      else if has_dash t \<or> is_env_assignment t then 1 else 0)"
| "env_skip (t # u # ts) =
     (if one_of t [''-u'', ''--unset'', ''-C'', ''--chdir''] then 2 + env_skip ts
      else if has_dash t \<or> is_env_assignment t then 1 + env_skip (u # ts) else 0)"

function effective_program_from :: "rstring list \<Rightarrow> nat \<Rightarrow> nat list \<Rightarrow> effective_prog option" where
  "effective_program_from tokens index executable_indices =
     (case lget tokens index of
        None \<Rightarrow> None
      | Some token \<Rightarrow>
          let program = program_basename token;
              indices = executable_indices @ [index];
              here = Some \<lparr>ep_index = index, ep_executable_indices = indices\<rparr> in
          if program = S ''env'' then
            let next = index + 1 + env_skip (drop (index + 1) tokens) in
            if length tokens \<le> next then here else effective_program_from tokens next indices
          else if program = S ''busybox'' then
            (if is_some_and (lget tokens (index + 1)) has_dash then here
             else effective_program_from tokens (index + 1) indices)
          else if one_of program [''command'', ''builtin''] then
            effective_program_from tokens
              (index + 1 + length (takeWhile has_dash (drop (index + 1) tokens))) indices
          else here)"
  by pat_completeness auto
termination
  by (relation "measure (\<lambda>(tokens, index, _). length tokens - index)") (auto simp: less_diff_conv)

declare effective_program_from.simps [simp del]

definition effective_program :: "rstring list \<Rightarrow> effective_prog option" where
  "effective_program tokens =
     effective_program_from tokens (length (takeWhile is_env_assignment tokens)) []"

section \<open>env -S\<close>

text \<open>
  The option loop after \<open>env\<close> either returns from the function (\<open>Inl\<close> of the result) or stops with
  the number of tokens it consumed (\<open>Inr\<close>).
\<close>

fun env_split_options :: "rstring list \<Rightarrow> nat \<Rightarrow> rstring option checked + nat" where
  "env_split_options [] n = Inr n"
| "env_split_options (option # rest) n =
     (if one_of option [''-S'', ''--split-string''] then
        Inl (ok_or (map_option Some (lget rest 0)) (CommandSyntaxError ''command.malformed.env_split_missing''))
      else
        (case nonempty (strip_prefix option (S ''-S'')) of
           Some command \<Rightarrow> Inl (Inr (Some command))
         | None \<Rightarrow>
             (case strip_prefix option (S ''--split-string='') of
                Some command \<Rightarrow>
                  Inl (if str_trim command = [] then err ''command.malformed.env_split_missing''
                       else Inr (Some command))
              | None \<Rightarrow>
                  if one_of option [''-u'', ''--unset'', ''-C'', ''--chdir''] then
                    (case rest of [] \<Rightarrow> Inr (n + 2) | _ # rest' \<Rightarrow> env_split_options rest' (n + 2))
                  else if has_dash option \<or> is_env_assignment option then
                    env_split_options rest (n + 1)
                  else Inr n)))"

lemma env_split_options_ge: "env_split_options ts n = Inr m \<Longrightarrow> n \<le> m"
proof (induction "length ts" arbitrary: ts n rule: less_induct)
  case less
  show ?case
  proof (cases ts)
    case (Cons option rest)
    have skip1: "env_split_options rest (n + 1) = Inr m \<Longrightarrow> n + 1 \<le> m"
      using less.hyps [of rest "n + 1"] Cons by simp
    have skip2: "rest = v # rest' \<Longrightarrow> env_split_options rest' (n + 2) = Inr m \<Longrightarrow> n + 2 \<le> m" for v rest'
      using less.hyps [of rest' "n + 2"] Cons by simp
    from less.prems Cons skip1 skip2 show ?thesis
      by (auto split: if_split_asm option.split_asm list.split_asm)
  qed (use less.prems in simp)
qed

function env_split_from :: "rstring list \<Rightarrow> nat \<Rightarrow> rstring option checked" where
  "env_split_from tokens index =
     (case lget tokens index of
        None \<Rightarrow> err ''command.malformed.missing_program''
      | Some token \<Rightarrow>
          let program = program_basename token in
          if program = S ''env'' then
            (case env_split_options (drop (index + 1) tokens) (index + 1) of
               Inl result \<Rightarrow> result
             | Inr next \<Rightarrow> if length tokens \<le> next then Inr None else env_split_from tokens next)
          else if program = S ''busybox'' then
            (if is_some_and (lget tokens (index + 1)) has_dash then Inr None
             else if length tokens \<le> index + 1 then Inr None
             else env_split_from tokens (index + 1))
          else if one_of program [''command'', ''builtin''] then
            (let next = index + 1 + length (takeWhile has_dash (drop (index + 1) tokens)) in
             if length tokens \<le> next then Inr None else env_split_from tokens next)
          else Inr None)"
  by pat_completeness auto
termination
  by (relation "measure (\<lambda>(tokens, index). length tokens - index)")
    (auto simp: less_diff_conv dest: env_split_options_ge)

declare env_split_from.simps [simp del]

definition env_split_command :: "rstring list \<Rightarrow> rstring option checked" where
  "env_split_command tokens =
     env_split_from tokens (length (takeWhile is_env_assignment tokens))"

section \<open>Shell options\<close>

definition is_shell_program :: "rstring \<Rightarrow> bool" where
  "is_shell_program program =
     one_of program [''sh'', ''bash'', ''zsh'', ''dash'', ''ksh'', ''fish'', ''cmd'', ''cmd.exe'']"

fun find_command_option :: "rstring list \<Rightarrow> nat \<Rightarrow> nat option" where
  "find_command_option [] index = None"
| "find_command_option (token # rest) index =
     (let option = to_ascii_lowercase token in
      if option = S ''/c'' \<or> option = S ''-c'' \<or> short_cluster_has (\<lambda>c. c = Ch CHR ''c'') option
      then Some (index + 1) else find_command_option rest (index + 1))"

definition shell_command_argument_index :: "rstring list \<Rightarrow> nat option" where
  "shell_command_argument_index tokens = find_command_option (drop 1 tokens) 1"

definition shell_option_is_interactive :: "rstring \<Rightarrow> bool" where
  "shell_option_is_interactive option =
     (option = S ''--interactive'' \<or> short_cluster_has (\<lambda>c. c = Ch CHR ''i'') option)"

definition shell_option_takes_value :: "rstring \<Rightarrow> bool" where
  "shell_option_takes_value option =
     one_of option [''-O'', ''+O'', ''-o'', ''+o'', ''--rcfile'', ''--init-file'']"

fun script_argument :: "rstring list \<Rightarrow> rstring option" where
  "script_argument [] = None"
| "script_argument (token # rest) =
     (if token = S ''--'' then lget rest 0
      else if token = S ''-'' \<or> token = S ''/k'' \<or> shell_option_is_interactive token then None
      else if has_dash token \<or> starts_with token (S ''+'') then
        (if shell_option_takes_value token
         then (case rest of [] \<Rightarrow> None | _ # rest' \<Rightarrow> script_argument rest')
         else script_argument rest)
      else Some token)"

definition shell_script_argument :: "rstring list \<Rightarrow> rstring option" where
  "shell_script_argument tokens = script_argument (drop 1 tokens)"

definition shell_loads_startup_code :: "rstring list \<Rightarrow> nat \<Rightarrow> bool" where
  "shell_loads_startup_code tokens command_index =
     list_ex (\<lambda>option.
       one_of option [''-l'', ''--login'', ''--rcfile'', ''--init-file'']
       \<or> starts_with option (S ''--rcfile='') \<or> starts_with option (S ''--init-file='')
       \<or> short_cluster_has (\<lambda>c. c = Ch CHR ''l'') option)
       (drop 1 (take command_index tokens))"

definition shell_command_options_are_closed :: "rstring list \<Rightarrow> nat \<Rightarrow> rstring \<Rightarrow> bool" where
  "shell_command_options_are_closed tokens command_index program =
     list_all (\<lambda>option.
       if program = S ''fish'' \<and> one_of option [''-c'', ''-C''] then True
       else if one_of program [''cmd'', ''cmd.exe''] then eq_ignore_ascii_case option (S ''/c'')
       else if one_of option [''--noprofile'', ''--norc'', ''--posix''] then True
       else has_dash option \<and> \<not> has_double_dash option
            \<and> list_all (\<lambda>c. among c ''ceufnx'') (drop 1 option))
       (drop 1 (take command_index tokens))"

definition is_opaque_shell_script_path :: "rstring \<Rightarrow> bool" where
  "is_opaque_shell_script_path script =
     (starts_with script (S ''~'') \<or> contains_any script (CHR 0x60 # ''$*?[]{}'') \<or> script = S ''-'')"

section \<open>What unwrapping finds\<close>

lemma effective_program_from_bounds:
  "effective_program_from tokens i xs = Some ep \<Longrightarrow> \<forall>x \<in> set xs. x < length tokens \<Longrightarrow>
     ep_index ep < length tokens \<and> i \<le> ep_index ep \<and>
     (\<forall>x \<in> set (ep_executable_indices ep). x < length tokens) \<and>
     ep_index ep \<in> set (ep_executable_indices ep)"
proof (induction tokens i xs rule: effective_program_from.induct)
  case (1 tokens i xs)
  from "1.prems"(1) obtain token where token: "lget tokens i = Some token"
    by (auto simp: effective_program_from.simps [of tokens i xs] split: option.splits)
  let ?next = "\<lambda>k. effective_program_from tokens k (xs @ [i]) = Some ep"
  have ok: "\<forall>x \<in> set (xs @ [i]). x < length tokens" using "1.prems"(2) token by auto
  from "1.prems"(1) token consider
      (here) "ep = \<lparr>ep_index = i, ep_executable_indices = xs @ [i]\<rparr>"
    | (env) "program_basename token = S ''env''"
        "\<not> length tokens \<le> i + 1 + env_skip (drop (i + 1) tokens)"
        "?next (i + 1 + env_skip (drop (i + 1) tokens))"
    | (busybox) "program_basename token \<noteq> S ''env''" "program_basename token = S ''busybox''"
        "\<not> is_some_and (lget tokens (i + 1)) has_dash" "?next (i + 1)"
    | (wrapper) "program_basename token \<noteq> S ''env''" "program_basename token \<noteq> S ''busybox''"
        "one_of (program_basename token) [''command'', ''builtin'']"
        "?next (i + 1 + length (takeWhile has_dash (drop (i + 1) tokens)))"
    by (auto simp: effective_program_from.simps [of tokens i xs] Let_def split: if_splits)
  then show ?case
  proof cases
    case here
    with token ok show ?thesis by auto
  next
    case env
    from "1.IH"(1) [OF token refl refl refl env(1) refl env(2,3) ok] show ?thesis by auto
  next
    case busybox
    from "1.IH"(2) [OF token refl refl refl busybox(1-4) ok] show ?thesis by auto
  next
    case wrapper
    from "1.IH"(3) [OF token refl refl refl wrapper(1-4) ok] show ?thesis by auto
  qed
qed

lemma effective_program_bounds:
  assumes "effective_program tokens = Some ep"
  shows "ep_index ep < length tokens" "x \<in> set (ep_executable_indices ep) \<Longrightarrow> x < length tokens"
    "ep_index ep \<in> set (ep_executable_indices ep)"
  using effective_program_from_bounds [of tokens _ "[]" ep] assms
  by (auto simp: effective_program_def)

end
