(* ===== verification/Command_Targets.thy ===== *)
theory Command_Targets
  imports Unix_Path Command_Program
begin

text \<open>
  The predicates on paths, options and arguments that the classifier combines: target extraction,
  lexical path normalisation and the sensitive-path tables of \<open>src/crates/core/src/command/risk.rs\<close>,
  and the read-scope and dynamic-text checks of \<open>command/segment.rs\<close>.

  The user's home directory comes from the third-party crate \<open>dirs\<close>; it is the parameter
  \<open>home :: rstring option\<close> of the definitions that ask for it.
\<close>

section \<open>Lexical paths\<close>

fun normalize_step :: "path_buf \<Rightarrow> path_component \<Rightarrow> path_buf" where
  "normalize_step b RootDir = path_push b RootDir"
| "normalize_step b CurDir = b"
| "normalize_step b ParentDir = path_pop b"
| "normalize_step b (Normal v) = path_push b (Normal v)"

definition normalize_components :: "path_component list \<Rightarrow> path_buf" where
  "normalize_components cs = foldl normalize_step [] cs"

definition normalize_lexical_path :: "rstring \<Rightarrow> path_buf" where
  "normalize_lexical_path p = normalize_components (path_components p)"

section \<open>Devices and system interfaces\<close>

definition is_harmless_device :: "rstring \<Rightarrow> bool" where
  "is_harmless_device p =
     (one_of p [''/dev/null'', ''/dev/stdout'', ''/dev/stderr'', ''/dev/tty'']
      \<or> starts_with p (S ''/dev/fd/''))"

definition is_raw_device_path :: "rstring \<Rightarrow> bool" where
  "is_raw_device_path target =
     (let lower = to_ascii_lowercase (trim_matches quote_chars target) in
      if starts_with lower ([BSL, BSL, Ch CHR ''.'', BSL] @ S ''physicaldrive'') then True
      else
        let normalized = path_string (normalize_lexical_path lower) in
        if is_harmless_device normalized then False
        else
          starts_with normalized (S ''/dev/disk'') \<or> starts_with normalized (S ''/dev/rdisk'')
          \<or> starts_with normalized (S ''/dev/sd'') \<or> starts_with normalized (S ''/dev/hd'')
          \<or> starts_with normalized (S ''/dev/nvme'') \<or> starts_with normalized (S ''/dev/mmcblk''))"

definition is_catastrophic_write_target :: "rstring \<Rightarrow> bool" where
  "is_catastrophic_write_target target =
     (if is_raw_device_path target then True
      else
        let normalized =
              path_string (normalize_lexical_path (to_ascii_lowercase (trim_matches quote_chars target))) in
        if is_harmless_device normalized then False
        else
          starts_with normalized (S ''/dev/'') \<or> normalized = S ''/proc/sysrq-trigger''
          \<or> starts_with normalized (S ''/proc/sys/'') \<or> normalized = S ''/sys''
          \<or> starts_with normalized (S ''/sys/''))"

section \<open>Option values\<close>

fun sort_output_from :: "rstring list \<Rightarrow> rstring list" where
  "sort_output_from [] = []"
| "sort_output_from (token # rest) =
     (case (if one_of token [''-o'', ''--output''] then lget rest 0
            else
              (case nonempty (strip_prefix token (S ''--output='')) of
                 Some v \<Rightarrow> Some v
               | None \<Rightarrow> nonempty (strip_prefix token (S ''-o'')))) of
        Some v \<Rightarrow> v # sort_output_from rest
      | None \<Rightarrow> sort_output_from rest)"

definition sort_output_targets :: "rstring list \<Rightarrow> rstring list" where
  "sort_output_targets tokens = sort_output_from (drop 1 tokens)"

definition sort_uses_explicit_temp_storage :: "rstring list \<Rightarrow> bool" where
  "sort_uses_explicit_temp_storage tokens =
     list_ex (\<lambda>token.
       one_of token [''-T'', ''--temporary-directory'']
       \<or> starts_with token (S ''-T'') \<and> 2 < length token
       \<or> starts_with token (S ''--temporary-directory='')) (drop 1 tokens)"

fun first_option_value :: "string list \<Rightarrow> rstring \<Rightarrow> rstring option" where
  "first_option_value [] token = None"
| "first_option_value (option # options) token =
     (case nonempty (strip_prefix token (S option @ [Ch CHR ''=''])) of
        Some v \<Rightarrow> Some v
      | None \<Rightarrow> first_option_value options token)"

fun option_value_from :: "rstring list \<Rightarrow> string list \<Rightarrow> rstring list" where
  "option_value_from [] options = []"
| "option_value_from (token # rest) options =
     (case (if one_of token options then lget rest 0 else first_option_value options token) of
        Some v \<Rightarrow> v # option_value_from rest options
      | None \<Rightarrow> option_value_from rest options)"

definition option_value_targets :: "rstring list \<Rightarrow> string list \<Rightarrow> rstring list" where
  "option_value_targets tokens options = option_value_from (drop 1 tokens) options"

definition has_recursive_flag :: "rstring list \<Rightarrow> bool" where
  "has_recursive_flag tokens =
     list_ex (\<lambda>token. token = S ''--recursive'' \<or> short_cluster_has (\<lambda>c. among c ''rR'') token)
       (drop 1 tokens)"

definition command_targets :: "rstring list \<Rightarrow> rstring list" where
  "command_targets tokens = filter (\<lambda>token. \<not> has_dash token \<and> token \<noteq> S ''--'') (drop 1 tokens)"

section \<open>Destructive targets\<close>

definition is_opaque_destructive_target :: "rstring \<Rightarrow> bool" where
  "is_opaque_destructive_target target =
     (contains_any target (CHR 0x60 # ''$*?[]{}'') \<or> starts_with target (S ''~''))"

definition sensitive_roots :: "string list" where
  "sensitive_roots =
     [''system'', ''library'', ''applications'', ''usr'', ''etc'', ''bin'', ''sbin'', ''boot'',
      ''dev'', ''lib'', ''lib32'', ''lib64'', ''opt'', ''proc'', ''root'', ''run'', ''snap'',
      ''srv'', ''sys'']"

definition is_sensitive_absolute_path :: "rstring option \<Rightarrow> path_buf \<Rightarrow> bool" where
  "is_sensitive_absolute_path home path =
     (if path = [RootDir] then True
      else if is_some_and home (\<lambda>h. path = path_components h) then True
      else
        let components = map to_ascii_lowercase (normal_names path) in
        (case components of
           [] \<Rightarrow> True
         | first # _ \<Rightarrow>
             if one_of first sensitive_roots then True
             else if one_of first [''users'', ''home''] then length components \<le> 2
             else if first = S ''volumes'' then length components \<le> 2
             else if first = S ''mnt'' then length components \<le> 2
             else if first = S ''media'' then length components \<le> 3
             else if first = S ''private'' then
               (if length components = 1 \<or> lget components 1 = Some (S ''etc'') then True
                else
                  lget components 1 = Some (S ''var'')
                  \<and> (length components = 2
                     \<or> is_some_and (lget components 2)
                         (\<lambda>v. one_of v [''db'', ''log'', ''run'', ''spool''])))
             else
               first = S ''var''
               \<and> (length components = 1
                  \<or> is_some_and (lget components 1)
                      (\<lambda>v. one_of v [''db'', ''lib'', ''log'', ''run'', ''spool'', ''state'']))))"

definition strip_glob :: "rstring \<Rightarrow> rstring" where
  "strip_glob target =
     (if target = S ''*'' then S ''.''
      else
        (case strip_suffix target (S ''/**'') of
           Some v \<Rightarrow> v
         | None \<Rightarrow> (case strip_suffix target (S ''/*'') of Some v \<Rightarrow> v | None \<Rightarrow> target)))"

definition expand_home :: "rstring option \<Rightarrow> rstring \<Rightarrow> rstring" where
  "expand_home home p =
     (case strip_prefix p (S ''~/'') of
        Some relative \<Rightarrow> (case home of Some h \<Rightarrow> path_join h relative | None \<Rightarrow> p)
      | None \<Rightarrow> p)"

definition is_catastrophic_target :: "rstring option \<Rightarrow> rstring \<Rightarrow> rstring option \<Rightarrow> bool" where
  "is_catastrophic_target home raw_target cwd =
     (let target = trim_matches quote_chars raw_target;
          lower = to_ascii_lowercase target in
      if one_of lower
           [''/'', ''/*'', ''/**'', ''~'', ''~/'', ''~/*'', ''$home'', ''$home/'', ''$home/*'',
            ''${home}'', ''${home}/'', ''${home}/*'']
      then True
      else
        let path = expand_home home (strip_glob target) in
        if path_is_absolute path then
          is_sensitive_absolute_path home (normalize_lexical_path path)
        else
          (case cwd of
             Some d \<Rightarrow> is_sensitive_absolute_path home (normalize_lexical_path (path_join d path))
           | None \<Rightarrow> False))"

section \<open>Read scope and dynamic text\<close>

definition is_obvious_external_path :: "rstring \<Rightarrow> bool" where
  "is_obvious_external_path raw_argument =
     (let argument = trim_matches quote_chars raw_argument;
          lower = to_ascii_lowercase argument in
      if starts_with argument (S ''/'') \<or> starts_with argument [BSL] \<or> starts_with argument (S ''~'')
         \<or> starts_with lower (S ''$home'') \<or> starts_with lower (S ''${home}'')
         \<or> starts_with lower (S ''file:///'')
         \<or> list_ex (\<lambda>alias. lower = S alias \<or> starts_with lower (S alias @ [SLASH]))
             [''@home'', ''@desktop'', ''@documents'', ''@downloads'']
      then True
      else list_ex (\<lambda>c. c = ParentDir) (path_components argument))"

definition read_programs :: "string list" where
  "read_programs =
     [''ls'', ''rg'', ''grep'', ''cat'', ''head'', ''tail'', ''wc'', ''stat'', ''file'', ''du'',
      ''df'', ''sort'', ''cut'', ''jq'', ''find'', ''cargo'', ''npm'', ''pnpm'', ''yarn'', ''bun'',
      ''make'', ''pip'', ''pip3'']"

definition has_obvious_external_read_argument :: "rstring list \<Rightarrow> rstring \<Rightarrow> bool" where
  "has_obvious_external_read_argument tokens program =
     (if \<not> one_of program read_programs then False
      else
        list_ex (\<lambda>argument.
          if one_of program [''rg'', ''grep'']
             \<and> is_some_and (nonempty (strip_prefix argument (S ''-f''))) is_obvious_external_path
          then True
          else
            is_obvious_external_path
              (case strip_prefix argument (S ''-'') of
                 Some option \<Rightarrow>
                   (case split_once (Ch CHR ''='') option of
                      Some (_, v) \<Rightarrow> v
                    | None \<Rightarrow> argument)
               | None \<Rightarrow> argument))
          (drop 1 tokens))"

definition is_network_redirection_target :: "rstring \<Rightarrow> bool" where
  "is_network_redirection_target target =
     (let lower = replace_char BSL SLASH (to_ascii_lowercase (trim_matches quote_chars target)) in
      starts_with lower (S ''/dev/tcp/'') \<or> starts_with lower (S ''/dev/udp/''))"

definition is_explicit_program_path :: "rstring \<Rightarrow> bool" where
  "is_explicit_program_path program =
     (contains_any program [CHR ''/'', CHR 0x5C] \<or> starts_with program (S ''.'')
      \<or> starts_with program (S ''~''))"

definition has_environment_override :: "rstring list \<Rightarrow> nat \<Rightarrow> bool" where
  "has_environment_override tokens program_index =
     list_ex (\<lambda>token. is_env_assignment token \<or> program_basename token = S ''env'')
       (take program_index tokens)"

definition has_dynamic_argument :: "rstring \<Rightarrow> bool" where
  "has_dynamic_argument argument = contains_any argument (CHR 0x60 # ''$'')"

definition has_shell_path_expansion :: "rstring \<Rightarrow> bool" where
  "has_shell_path_expansion argument =
     (starts_with argument (S ''~'') \<or> contains_any argument ''*?[]{}'')"

definition is_dynamic_program_name :: "rstring \<Rightarrow> bool" where
  "is_dynamic_program_name program =
     (contains_any program ''$'' \<or> contains_any program [CHR 0x60]
      \<or> contains_str program (S ''$()'') \<or> contains_str program [TICK, TICK]
      \<or> contains_any program ''*?[{}'')"

definition shell_reserved_words :: "string list" where
  "shell_reserved_words =
     [''!'', ''{'', ''}'', ''if'', ''then'', ''elif'', ''else'', ''fi'', ''for'', ''while'',
      ''until'', ''do'', ''done'', ''case'', ''esac'', ''select'', ''function'', ''coproc'',
      ''[['', '']]'', ''trap'', ''alias'', ''unalias'', ''declare'', ''typeset'', ''local'',
      ''return'', ''break'', ''continue'']"

definition is_shell_reserved_program :: "rstring \<Rightarrow> bool" where
  "is_shell_reserved_program program = one_of program shell_reserved_words"

end
