(* ===== verification/Command_Allowlist.thy ===== *)
theory Command_Allowlist
  imports Command_Targets
begin

text \<open>
  The allow lists of \<open>src/crates/core/src/command/allowlist.rs\<close>: which invocations are known to read
  only, which workspace tasks are trusted, and the closed option grammar both are stated in.
\<close>

section \<open>The closed option grammar\<close>

fun closed_cli ::
  "string list \<Rightarrow> string list \<Rightarrow> string \<Rightarrow> string \<Rightarrow> bool \<Rightarrow> rstring list \<Rightarrow> bool" where
  "closed_cli flag_options value_options short_flags short_value_options options_ended [] = True"
| "closed_cli flag_options value_options short_flags short_value_options options_ended (token # rest) =
     (if options_ended \<or> token = S ''-'' \<or> \<not> has_dash token then
        closed_cli flag_options value_options short_flags short_value_options options_ended rest
      else if token = S ''--'' then
        closed_cli flag_options value_options short_flags short_value_options True rest
      else if has_double_dash token then
        (if one_of token flag_options then
           closed_cli flag_options value_options short_flags short_value_options options_ended rest
         else
           (case split_once (Ch CHR ''='') token of
              Some (name, v) \<Rightarrow>
                one_of name value_options \<and> v \<noteq> []
                \<and> closed_cli flag_options value_options short_flags short_value_options options_ended rest
            | None \<Rightarrow>
                one_of token value_options
                \<and> (case rest of
                     [] \<Rightarrow> False
                   | _ # rest' \<Rightarrow>
                       closed_cli flag_options value_options short_flags short_value_options
                         options_ended rest')))
      else
        (case drop 1 token of
           [] \<Rightarrow> False
         | first # others \<Rightarrow>
             if among first short_value_options then
               (if others = [] then
                  (case rest of
                     [] \<Rightarrow> False
                   | _ # rest' \<Rightarrow>
                       closed_cli flag_options value_options short_flags short_value_options
                         options_ended rest')
                else
                  closed_cli flag_options value_options short_flags short_value_options options_ended rest)
             else
               list_all (\<lambda>c. among c short_flags) (first # others)
               \<and> closed_cli flag_options value_options short_flags short_value_options options_ended rest))"

definition matches_closed_cli_grammar ::
  "rstring list \<Rightarrow> nat \<Rightarrow> string list \<Rightarrow> string list \<Rightarrow> string \<Rightarrow> string \<Rightarrow> bool" where
  "matches_closed_cli_grammar tokens start flag_options value_options short_flags short_value_options =
     closed_cli flag_options value_options short_flags short_value_options False (drop start tokens)"

section \<open>Workspace tasks\<close>

definition lower_arg :: "rstring list \<Rightarrow> nat \<Rightarrow> rstring" where
  "lower_arg tokens i = (case lget tokens i of Some v \<Rightarrow> to_ascii_lowercase v | None \<Rightarrow> [])"

definition script_tasks :: "string list" where
  "script_tasks = [''test'', ''build'', ''lint'', ''typecheck'', ''check'']"

definition is_workspace_task :: "rstring list \<Rightarrow> rstring \<Rightarrow> bool" where
  "is_workspace_task tokens program =
     (let subcommand = lower_arg tokens 1 in
      if program = S ''cargo'' then one_of subcommand [''test'', ''check'', ''build'', ''clippy'']
      else if one_of program [''npm'', ''pnpm'', ''yarn'', ''bun''] then
        one_of subcommand script_tasks
        \<or> subcommand = S ''run''
          \<and> is_some_and (lget tokens 2) (\<lambda>script. one_of (to_ascii_lowercase script) script_tasks)
      else program = S ''make'' \<and> one_of subcommand script_tasks)"

definition has_workspace_task_boundary_override :: "rstring list \<Rightarrow> rstring \<Rightarrow> bool" where
  "has_workspace_task_boundary_override tokens program =
     (if program = S ''cargo'' then
        list_ex is_obvious_external_path (option_value_targets tokens [''--target''])
        \<or> list_ex (\<lambda>token.
            one_of token [''--manifest-path'', ''--config'', ''--target-dir'']
            \<or> starts_with token (S ''--manifest-path='') \<or> starts_with token (S ''--config='')
            \<or> starts_with token (S ''--target-dir='') \<or> token = S ''-Z''
            \<or> starts_with token (S ''-Z'') \<and> 2 < length token) (drop 2 tokens)
      else if one_of program [''npm'', ''pnpm'', ''yarn'', ''bun''] then
        list_ex (\<lambda>token.
          one_of token [''--prefix'', ''--cwd'', ''--dir'', ''--script-shell'', ''-C'']
          \<or> starts_with token (S ''--prefix='') \<or> starts_with token (S ''--cwd='')
          \<or> starts_with token (S ''--dir='') \<or> starts_with token (S ''--script-shell='')
          \<or> starts_with token (S ''-C'') \<and> 2 < length token) (drop 2 tokens)
      else
        program = S ''make''
        \<and> list_ex (\<lambda>token.
            is_env_assignment token
            \<or> one_of token [''-f'', ''--file'', ''--makefile'', ''--eval'', ''-C'', ''--directory'']
            \<or> starts_with token (S ''-f'') \<and> 2 < length token
            \<or> starts_with token (S ''--file='') \<or> starts_with token (S ''--makefile='')
            \<or> starts_with token (S ''--eval='')
            \<or> starts_with token (S ''-C'') \<and> 2 < length token
            \<or> starts_with token (S ''--directory='')) (drop 2 tokens))"

section \<open>Read-only programs\<close>

definition is_read_only_git :: "rstring list \<Rightarrow> bool" where
  "is_read_only_git tokens =
     (case lget tokens 1 of
        None \<Rightarrow> False
      | Some raw_subcommand \<Rightarrow>
          let subcommand = to_ascii_lowercase raw_subcommand in
          if one_of subcommand [''--version'', ''version''] then length tokens = 2
          else if subcommand = S ''remote'' then
            (case lget tokens 2 of
               None \<Rightarrow> True
             | Some a \<Rightarrow>
                 if one_of a [''-v'', ''--verbose''] then length tokens = 3
                 else if a = S ''get-url'' then
                   (let names = filter (\<lambda>token. \<not> one_of token [''--all'', ''--push'']) (drop 3 tokens) in
                    if list_ex has_dash names then False else length names = 1)
                 else False)
          else if subcommand \<noteq> S ''branch'' then False
          else
            (case lget tokens 2 of
               None \<Rightarrow> True
             | Some a \<Rightarrow>
                 if one_of a [''--show-current'', ''-a'', ''--all'', ''-r'', ''--remotes''] then
                   length tokens = 3
                 else if a = S ''--list'' then
                   list_all (\<lambda>token. \<not> has_dash token) (drop 3 tokens)
                 else False))"

definition is_read_only_date :: "rstring list \<Rightarrow> bool" where
  "is_read_only_date tokens =
     (case lget tokens 1 of
        None \<Rightarrow> True
      | Some a \<Rightarrow>
          if one_of a [''-u'', ''--utc'', ''--universal''] then
            length tokens = 2
            \<or> length tokens = 3 \<and> is_some_and (lget tokens 2) (\<lambda>format. starts_with format (S ''+''))
          else length tokens = 2 \<and> starts_with a (S ''+''))"

fun read_only_find_args :: "rstring list \<Rightarrow> bool" where
  "read_only_find_args [] = True"
| "read_only_find_args (token # rest) =
     (if one_of token
           [''-print'', ''-print0'', ''-ls'', ''-empty'', ''-readable'', ''-writable'',
            ''-executable'', ''-true'', ''-false'', ''-prune'', ''-a'', ''-and'', ''-o'', ''-or'',
            ''!'', ''-P'']
      then read_only_find_args rest
      else if one_of token
           [''-maxdepth'', ''-mindepth'', ''-name'', ''-iname'', ''-path'', ''-ipath'', ''-type'',
            ''-size'', ''-mtime'', ''-mmin'', ''-newer'', ''-user'', ''-group'', ''-perm'',
            ''-printf'']
      then (case rest of [] \<Rightarrow> False | _ # rest' \<Rightarrow> read_only_find_args rest')
      else if has_dash token then False
      else read_only_find_args rest)"

definition is_read_only_find :: "rstring list \<Rightarrow> bool" where
  "is_read_only_find tokens = read_only_find_args (drop 1 tokens)"

definition is_read_only_pip :: "rstring list \<Rightarrow> bool" where
  "is_read_only_pip tokens =
     (case lget tokens 1 of
        None \<Rightarrow> False
      | Some a \<Rightarrow>
          if one_of a [''--version'', ''-V''] then length tokens = 2
          else if a = S ''check'' then length tokens = 2
          else if a = S ''show'' then
            matches_closed_cli_grammar tokens 2 [''--files''] [] ''f'' ''''
          else if a = S ''freeze'' then
            matches_closed_cli_grammar tokens 2
              [''--all'', ''--exclude-editable'', ''--local'', ''--user''] [''--exclude''] ''l'' ''''
          else if a = S ''list'' then
            matches_closed_cli_grammar tokens 2
              [''--local'', ''--user'', ''--editable'', ''--exclude-editable'', ''--include-editable'',
               ''--not-required'', ''--disable-pip-version-check'', ''--no-color'']
              [''--format'', ''--path''] ''lue'' ''''
          else False)"

definition is_git_worktree_read :: "rstring list \<Rightarrow> rstring \<Rightarrow> bool" where
  "is_git_worktree_read tokens program =
     (program = S ''git''
      \<and> is_some_and (lget tokens 1)
          (\<lambda>sub. one_of (to_ascii_lowercase sub) [''status'', ''diff'', ''log'', ''show'']))"

definition jq_words :: "rstring \<Rightarrow> rstring list" where
  "jq_words lower = split_on (\<lambda>c. \<not> is_ascii_alphanumeric c \<and> c \<noteq> Ch CHR ''_'') lower"

definition is_jq_environment_read :: "rstring list \<Rightarrow> rstring \<Rightarrow> bool" where
  "is_jq_environment_read tokens program =
     (program = S ''jq''
      \<and> list_ex (\<lambda>token.
          let lower = to_ascii_lowercase token in
          contains_str lower (S ''$env'') \<or> list_ex (\<lambda>w. w = S ''env'') (jq_words lower))
        (drop 1 tokens))"

definition is_jq_module_load :: "rstring list \<Rightarrow> rstring \<Rightarrow> bool" where
  "is_jq_module_load tokens program =
     (program = S ''jq''
      \<and> list_ex (\<lambda>token.
          list_ex (\<lambda>w. one_of w [''include'', ''import'', ''module'']) (jq_words (to_ascii_lowercase token)))
        (drop 1 tokens))"

definition search_read_only :: "rstring list \<Rightarrow> rstring \<Rightarrow> bool" where
  "search_read_only tokens program =
     (if program = S ''rg'' then
        matches_closed_cli_grammar tokens 1
          [''--line-number'', ''--with-filename'', ''--no-filename'', ''--ignore-case'',
           ''--case-sensitive'', ''--smart-case'', ''--word-regexp'', ''--fixed-strings'',
           ''--files-with-matches'', ''--files-without-match'', ''--count'', ''--count-matches'',
           ''--stats'', ''--json'', ''--no-heading'', ''--heading'', ''--hidden'', ''--no-ignore'',
           ''--no-ignore-vcs'', ''--files'', ''--type-list'', ''--version'', ''--help'']
          [''--glob'', ''--type'', ''--type-not'', ''--regexp'', ''--file'', ''--max-count'',
           ''--after-context'', ''--before-context'', ''--context'', ''--max-depth'',
           ''--max-filesize'', ''--sort'', ''--sortr'', ''--replace'', ''--engine'', ''--threads'',
           ''--encoding'']
          ''nHhisSwFclqvU'' ''egtfmABC''
      else
        program = S ''grep''
        \<and> matches_closed_cli_grammar tokens 1
          [''--line-number'', ''--ignore-case'', ''--invert-match'', ''--extended-regexp'',
           ''--fixed-strings'', ''--recursive'', ''--files-with-matches'', ''--files-without-match'',
           ''--count'', ''--quiet'', ''--silent'', ''--word-regexp'', ''--line-regexp'']
          [''--regexp'', ''--file'', ''--max-count'', ''--after-context'', ''--before-context'',
           ''--context'', ''--include'', ''--exclude'', ''--exclude-from'']
          ''nivEFrlcqswx'' ''efmABC'')"

definition is_known_read_only :: "rstring list \<Rightarrow> rstring \<Rightarrow> bool" where
  "is_known_read_only tokens program =
     (if program = S ''pwd'' then matches_closed_cli_grammar tokens 1 [] [] ''LP'' ''''
      else if program = S ''ls'' then
        matches_closed_cli_grammar tokens 1
          [''--all'', ''--almost-all'', ''--directory'', ''--classify'', ''--human-readable'',
           ''--inode'', ''--reverse'', ''--recursive'', ''--size'']
          [''--color'', ''--ignore'', ''--sort'', ''--time''] ''aAldhiF1RrSst'' ''''
      else if one_of program [''rg'', ''grep''] then search_read_only tokens program
      else if program = S ''cat'' then
        matches_closed_cli_grammar tokens 1
          [''--number'', ''--number-nonblank'', ''--squeeze-blank'', ''--show-all'', ''--show-ends'',
           ''--show-tabs'', ''--show-nonprinting''] [] ''nbsAETv'' ''''
      else if one_of program [''head'', ''tail''] then
        matches_closed_cli_grammar tokens 1 [''--quiet'', ''--verbose''] [''--lines'', ''--bytes'']
          ''qv'' ''nc''
      else if program = S ''wc'' then
        matches_closed_cli_grammar tokens 1
          [''--lines'', ''--words'', ''--bytes'', ''--chars'', ''--max-line-length''] [] ''lwcmL'' ''''
      else if one_of program [''stat'', ''file'', ''which'', ''whereis'', ''type''] then
        matches_closed_cli_grammar tokens 1 [] [] '''' ''''
      else if program = S ''du'' then
        matches_closed_cli_grammar tokens 1 [''--human-readable'', ''--summarize'', ''--kilobytes'']
          [''--max-depth''] ''hsk'' ''d''
      else if program = S ''df'' then
        matches_closed_cli_grammar tokens 1 [''--human-readable'', ''--portability'', ''--kilobytes'']
          [] ''hPk'' ''''
      else if program = S ''printf'' then is_none_or (lget tokens 1) (\<lambda>token. token \<noteq> S ''-v'')
      else if program = S ''echo'' then matches_closed_cli_grammar tokens 1 [] [] ''neE'' ''''
      else if one_of program [''true'', ''false''] then length tokens = 1
      else if program = S ''uname'' then matches_closed_cli_grammar tokens 1 [] [] ''asnrvmopi'' ''''
      else if program = S ''date'' then is_read_only_date tokens
      else if program = S ''sort'' then
        matches_closed_cli_grammar tokens 1
          [''--ignore-leading-blanks'', ''--dictionary-order'', ''--ignore-case'',
           ''--general-numeric-sort'', ''--numeric-sort'', ''--reverse'', ''--stable'', ''--unique'']
          [''--key'', ''--field-separator'', ''--buffer-size''] ''bdfgnrsu'' ''ktS''
      else if program = S ''cut'' then
        matches_closed_cli_grammar tokens 1 [''--complement'', ''--only-delimited'', ''--zero-terminated'']
          [''--bytes'', ''--characters'', ''--delimiter'', ''--fields''] ''sz'' ''bcdf''
      else if program = S ''jq'' then
        matches_closed_cli_grammar tokens 1
          [''--raw-output'', ''--compact-output'', ''--exit-status'', ''--slurp'', ''--null-input'',
           ''--sort-keys'', ''--monochrome-output'']
          [''--arg'', ''--argjson'', ''--slurpfile'', ''--rawfile''] ''rcesnSM'' ''''
      else if program = S ''find'' then is_read_only_find tokens
      else if program = S ''git'' then is_read_only_git tokens
      else if one_of program [''pip'', ''pip3''] then is_read_only_pip tokens
      else if program = S ''cargo'' then
        is_some_and (lget tokens 1) (\<lambda>a. one_of a [''--version'', ''-V'', ''version'']) \<and> length tokens = 2
      else False)"

end
