(* ===== verification/Command_Risk.thy ===== *)
theory Command_Risk
  imports Command_Allowlist
begin

text \<open>
  The classifier of \<open>src/crates/core/src/command/risk.rs\<close>: the risk class and the stable code of one
  simple command. \<open>classify_segment\<close> is the source's chain of early returns, cut into three stages:
  the classes that are always denied, the helper-launching reads, and the ordinary classes.
\<close>

section \<open>System control\<close>

definition is_pid_one :: "rstring \<Rightarrow> bool" where
  "is_pid_one token =
     (let digits = (case strip_prefix token (S ''+'') of Some v \<Rightarrow> v | None \<Rightarrow> token) in
      digits \<noteq> [] \<and> list_all is_ascii_digit digits
      \<and> dropWhile (\<lambda>c. c = Ch CHR ''0'') digits = S ''1'')"

definition is_negative_pid_one :: "rstring \<Rightarrow> bool" where
  "is_negative_pid_one token = is_some_and (strip_prefix token (S ''-'')) is_pid_one"

definition is_catastrophic_systemctl :: "rstring list \<Rightarrow> bool" where
  "is_catastrophic_systemctl tokens =
     (let lower = drop 1 (lower_tokens tokens) in
      if list_ex (\<lambda>token. one_of token
           [''reboot'', ''poweroff'', ''halt'', ''kexec'', ''soft-reboot'', ''rescue'', ''emergency'',
            ''isolate'']) lower
      then True
      else
        let direct_activation = list_ex (\<lambda>token. one_of token
              [''start'', ''restart'', ''try-restart'', ''reload-or-restart'',
               ''try-reload-or-restart'', ''reload-or-try-restart'']) lower;
            enables_and_starts =
              list_ex (\<lambda>token. token = S ''--now'') lower
              \<and> list_ex (\<lambda>token. one_of token [''enable'', ''reenable'', ''preset'', ''link'']) lower;
            activates_target = direct_activation \<or> enables_and_starts in
        if activates_target \<and> list_ex (\<lambda>token. contains_any token ''*?['') lower then True
        else
          activates_target
          \<and> list_ex (\<lambda>token. one_of token
              [''reboot.target'', ''poweroff.target'', ''halt.target'', ''kexec.target'',
               ''soft-reboot.target'', ''rescue.target'', ''emergency.target'', ''runlevel0.target'',
               ''runlevel6.target'', ''ctrl-alt-del.target'']) lower)"

definition is_catastrophic_system_control :: "rstring list \<Rightarrow> rstring \<Rightarrow> bool" where
  "is_catastrophic_system_control tokens program =
     (if one_of program [''shutdown'', ''reboot'', ''halt'', ''poweroff''] then True
      else if program = S ''systemctl'' then is_catastrophic_systemctl tokens
      else if one_of program [''init'', ''telinit''] then
        list_ex (\<lambda>token. one_of token [''0'', ''6'']) (drop 1 tokens)
      else if program = S ''launchctl''
              \<and> is_some_and (lget tokens 1) (\<lambda>sub. eq_ignore_ascii_case sub (S ''reboot''))
      then True
      else
        program = S ''kill''
        \<and> (list_ex is_pid_one (drop 1 tokens)
           \<or> 3 \<le> length tokens \<and> list_ex is_negative_pid_one (drop 1 tokens)))"

section \<open>Storage devices and file-system roots\<close>

definition has_disk_mutation :: "rstring list \<Rightarrow> bool" where
  "has_disk_mutation tokens =
     list_ex (\<lambda>token. one_of (to_ascii_lowercase token)
       [''erasedisk'', ''erasevolume'', ''partitiondisk'', ''zerodisk'', ''randomdisk'',
        ''secureerase'', ''deletevolume'', ''deletecontainer'']) (drop 1 tokens)"

definition has_raw_device_output :: "rstring list \<Rightarrow> bool" where
  "has_raw_device_output tokens =
     list_ex (\<lambda>token.
       is_some_and (strip_prefix (to_ascii_lowercase token) (S ''of='')) is_catastrophic_write_target)
       (drop 1 tokens)"

definition writes_raw_device :: "rstring list \<Rightarrow> rstring \<Rightarrow> bool" where
  "writes_raw_device tokens program =
     (if one_of program [''tee'', ''truncate''] then
        list_ex is_catastrophic_write_target (drop 1 tokens)
      else if one_of program [''cp'', ''mv''] then
        tokens \<noteq> [] \<and> is_catastrophic_write_target (last tokens)
      else if program = S ''sort'' then
        list_ex is_catastrophic_write_target (sort_output_targets tokens)
      else if program = S ''find'' then
        list_ex is_catastrophic_write_target
          (option_value_targets tokens [''-fprint'', ''-fprint0'', ''-fprintf'', ''-fls''])
      else False)"

definition is_catastrophic_filesystem_operation ::
  "rstring option \<Rightarrow> rstring list \<Rightarrow> rstring \<Rightarrow> rstring option \<Rightarrow> bool" where
  "is_catastrophic_filesystem_operation home tokens program cwd =
     (let lower = lower_tokens tokens in
      if program = S ''rm'' \<and> has_recursive_flag lower then
        list_ex (\<lambda>target. is_catastrophic_target home target cwd) (command_targets lower)
      else if one_of program [''chmod'', ''chown''] \<and> has_recursive_flag lower then
        list_ex (\<lambda>target. is_catastrophic_target home target cwd) (command_targets lower)
      else if program = S ''find'' \<and> list_ex (\<lambda>token. token = S ''-delete'') lower then
        is_some_and (lget lower 1) (\<lambda>target. is_catastrophic_target home target cwd)
      else False)"

definition has_opaque_recursive_target :: "rstring list \<Rightarrow> rstring \<Rightarrow> bool" where
  "has_opaque_recursive_target tokens program =
     (if one_of program [''rm'', ''chmod'', ''chown''] \<and> has_recursive_flag tokens then
        list_ex is_opaque_destructive_target (command_targets tokens)
      else if program = S ''find'' \<and> list_ex (\<lambda>token. token = S ''-delete'') tokens then
        is_none_or (lget tokens 1) (\<lambda>target. has_dash target \<or> is_opaque_destructive_target target)
      else False)"

definition has_unsafe_recursive_symlink_traversal :: "rstring list \<Rightarrow> rstring \<Rightarrow> bool" where
  "has_unsafe_recursive_symlink_traversal tokens program =
     (one_of program [''chmod'', ''chown''] \<and> has_recursive_flag tokens
      \<and> list_ex (\<lambda>token.
          one_of token [''-H'', ''-L'', ''--dereference''] \<or> short_cluster_has (\<lambda>c. among c ''HL'') token)
        (drop 1 tokens))"

section \<open>Ordinary classes\<close>

definition is_unsupported_interactive :: "rstring list \<Rightarrow> rstring \<Rightarrow> bool" where
  "is_unsupported_interactive tokens program =
     (one_of program
        [''vim'', ''vi'', ''nano'', ''less'', ''more'', ''top'', ''htop'', ''watch'', ''read'',
         ''passwd'']
      \<or> one_of program [''python'', ''python3'', ''node''] \<and> length tokens = 1
      \<or> program = S ''ssh'' \<and> length tokens \<le> 2)"

definition is_package_management :: "rstring list \<Rightarrow> rstring \<Rightarrow> bool" where
  "is_package_management tokens program =
     (let lower = lower_tokens tokens;
          subcommand = (case lget lower 1 of Some v \<Rightarrow> v | None \<Rightarrow> []) in
      if one_of program [''pip'', ''pip3''] then
        one_of subcommand [''install'', ''uninstall'', ''download'', ''wheel'']
      else if one_of program [''python'', ''python3''] then
        lget lower 1 = Some (S ''-m'') \<and> lget lower 2 = Some (S ''pip'')
        \<and> is_some_and (lget lower 3)
            (\<lambda>sub. one_of sub [''install'', ''uninstall'', ''download'', ''wheel''])
      else if one_of program [''npm'', ''pnpm'', ''yarn'', ''bun''] then
        one_of subcommand
          [''install'', ''i'', ''ci'', ''add'', ''remove'', ''uninstall'', ''update'', ''upgrade'']
      else if program = S ''cargo'' then one_of subcommand [''install'', ''add'', ''update'']
      else if program = S ''brew'' then
        one_of subcommand [''install'', ''uninstall'', ''update'', ''upgrade'', ''reinstall'']
      else if program = S ''uv'' then
        list_ex (\<lambda>token. one_of token [''install'', ''uninstall'', ''add'', ''remove'', ''sync'']) lower
      else False)"

definition is_network_command :: "rstring list \<Rightarrow> rstring \<Rightarrow> bool" where
  "is_network_command tokens program =
     (if one_of program [''curl'', ''wget'', ''scp'', ''rsync'', ''ftp'', ''sftp'', ''ping'', ''gh'']
      then True
      else if program = S ''ssh'' then 2 < length tokens
      else if one_of program [''pip'', ''pip3''] then
        is_some_and (lget tokens 1) (\<lambda>sub.
          eq_ignore_ascii_case sub (S ''index'')
          \<or> eq_ignore_ascii_case sub (S ''list'')
            \<and> list_ex (\<lambda>token. one_of token [''--outdated'', ''--uptodate'']) (drop 2 tokens))
      else if program = S ''git'' then
        is_some_and (lget tokens 1) (\<lambda>sub.
          one_of (to_ascii_lowercase sub) [''clone'', ''fetch'', ''pull'', ''push'', ''ls-remote''])
      else False)"

definition is_high_impact_command :: "rstring list \<Rightarrow> rstring \<Rightarrow> bool" where
  "is_high_impact_command tokens program =
     (if one_of program
           [''rm'', ''mv'', ''cp'', ''chmod'', ''chown'', ''ln'', ''truncate'', ''dd'', ''kill'',
            ''pkill'', ''killall'', ''launchctl'']
      then True
      else if program = S ''find''
              \<and> list_ex (\<lambda>token. one_of token [''-delete'', ''-exec'', ''-execdir'']) tokens
      then True
      else if program = S ''git'' then
        is_some_and (lget tokens 1) (\<lambda>sub. one_of (to_ascii_lowercase sub)
          [''reset'', ''clean'', ''checkout'', ''restore'', ''merge'', ''rebase''])
      else if program = S ''diskutil'' then
        \<not> is_some_and (lget tokens 1) (\<lambda>sub. one_of (to_ascii_lowercase sub) [''list'', ''info''])
      else False)"

definition is_direct_write_command :: "rstring list \<Rightarrow> rstring \<Rightarrow> bool" where
  "is_direct_write_command tokens program =
     (one_of program [''touch'', ''mkdir'', ''tee'']
      \<or> program = S ''git'' \<and> \<not> is_read_only_git tokens
      \<or> program = S ''sort'' \<and> sort_output_targets tokens \<noteq> []
      \<or> program = S ''sort'' \<and> sort_uses_explicit_temp_storage tokens
      \<or> program = S ''find''
        \<and> list_ex (\<lambda>token. one_of token [''-fprint'', ''-fprint0'', ''-fprintf'', ''-fls'']) tokens
      \<or> program = S ''sed'' \<and> list_ex (\<lambda>token. token = S ''-i'' \<or> starts_with token (S ''-i'')) tokens
      \<or> program = S ''perl'' \<and> list_ex (\<lambda>token. starts_with token (S ''-pi'')) tokens)"

definition cargo_task_flags :: "string list" where
  "cargo_task_flags =
     [''--all'', ''--workspace'', ''--release'', ''--locked'', ''--offline'', ''--frozen'',
      ''--all-targets'', ''--all-features'', ''--no-default-features'', ''--no-run'',
      ''--no-fail-fast'', ''--doc'', ''--lib'', ''--bins'', ''--tests'', ''--benches'',
      ''--examples'', ''--verbose'', ''--quiet'']"

definition cargo_task_values :: "string list" where
  "cargo_task_values =
     [''--package'', ''--exclude'', ''--features'', ''--target'', ''--jobs'', ''--profile'',
      ''--test'', ''--bin'', ''--bench'', ''--example'', ''--message-format'', ''--color'']"

definition is_safe_workspace_task :: "rstring list \<Rightarrow> rstring \<Rightarrow> bool" where
  "is_safe_workspace_task tokens program =
     (let subcommand = lower_arg tokens 1 in
      if program = S ''cargo'' then
        one_of subcommand [''test'', ''check'', ''build'', ''clippy'']
        \<and> matches_closed_cli_grammar tokens 2 cargo_task_flags cargo_task_values ''qv'' ''pj''
      else if one_of program [''npm'', ''pnpm'', ''yarn'', ''bun''] then
        (if one_of subcommand script_tasks then length tokens = 2
         else
           subcommand = S ''run''
           \<and> is_some_and (lget tokens 2) (\<lambda>script. one_of (to_ascii_lowercase script) script_tasks)
           \<and> length tokens = 3)
      else program = S ''make'' \<and> one_of subcommand script_tasks \<and> length tokens = 2)"

section \<open>The classifier\<close>

type_synonym classification = "command_risk_class \<times> string"

definition spawns_find_exec :: "rstring list \<Rightarrow> rstring \<Rightarrow> bool" where
  "spawns_find_exec tokens program =
     (program = S ''find''
      \<and> list_ex (\<lambda>token. one_of token [''-exec'', ''-execdir'', ''-ok'', ''-okdir'']) tokens)"

definition spawns_rg_helper :: "rstring list \<Rightarrow> rstring \<Rightarrow> bool" where
  "spawns_rg_helper tokens program =
     (program = S ''rg''
      \<and> list_ex (\<lambda>token.
          one_of token [''--pre'', ''--pre-glob'']
          \<or> starts_with token (S ''--pre='') \<or> starts_with token (S ''--pre-glob='')
          \<or> token = S ''--hostname-bin'' \<or> starts_with token (S ''--hostname-bin='')
          \<or> token = S ''--search-zip'' \<or> short_cluster_has (\<lambda>c. c = Ch CHR ''z'') token) tokens)"

definition spawns_sort_compressor :: "rstring list \<Rightarrow> rstring \<Rightarrow> bool" where
  "spawns_sort_compressor tokens program =
     (program = S ''sort''
      \<and> list_ex (\<lambda>token. token = S ''--compress-program'' \<or> starts_with token (S ''--compress-program=''))
          tokens)"

definition classify_denied ::
  "rstring option \<Rightarrow> rstring list \<Rightarrow> rstring \<Rightarrow> rstring option \<Rightarrow> classification option" where
  "classify_denied home tokens program cwd =
     (if one_of program [''sudo'', ''sudoedit'', ''doas'', ''su'', ''pkexec'', ''run0''] then
        Some (Catastrophic, ''command.catastrophic.privilege_escalation'')
      else if is_catastrophic_system_control tokens program then
        Some (Catastrophic, ''command.catastrophic.system_power'')
      else if program = S ''mkfs'' \<or> starts_with program (S ''mkfs.'')
              \<or> program = S ''diskutil'' \<and> has_disk_mutation tokens
              \<or> program = S ''dd'' \<and> has_raw_device_output tokens
              \<or> writes_raw_device tokens program then
        Some (Catastrophic, ''command.catastrophic.storage_device'')
      else if is_catastrophic_filesystem_operation home tokens program cwd then
        Some (Catastrophic, ''command.catastrophic.filesystem_root'')
      else if has_opaque_recursive_target tokens program then
        Some (Unsupported, ''command.unsupported.dynamic_destructive_target'')
      else if has_unsafe_recursive_symlink_traversal tokens program then
        Some (Unsupported, ''command.unsupported.recursive_symlink_traversal'')
      else if is_unsupported_interactive tokens program then
        Some (Unsupported, ''command.unsupported.interactive'')
      else if one_of program [''eval'', ''exec''] then
        Some (Unsupported, ''command.unsupported.dynamic_execution'')
      else if one_of program
                [''.'', ''source'', ''xargs'', ''nohup'', ''time'', ''timeout'', ''nice'', ''setsid'',
                 ''powershell'', ''powershell.exe'', ''pwsh''] then
        Some (Unsupported, ''command.unsupported.opaque_wrapper'')
      else if spawns_find_exec tokens program then
        Some (Unsupported, ''command.unsupported.find_exec'')
      else if spawns_rg_helper tokens program then
        Some (Unsupported, ''command.unsupported.rg_preprocessor'')
      else if spawns_sort_compressor tokens program then
        Some (Unsupported, ''command.unsupported.sort_compress_program'')
      else None)"

definition classify_helper_reads :: "rstring list \<Rightarrow> rstring \<Rightarrow> classification option" where
  "classify_helper_reads tokens program =
     (if program = S ''git''
         \<and> (is_some_and (lget tokens 1)
              (\<lambda>sub. one_of (to_ascii_lowercase sub) [''diff'', ''log'', ''show''])
            \<or> list_ex (\<lambda>token. one_of token [''--ext-diff'', ''--textconv'']) tokens) then
        Some (Unknown, ''command.risk.git_external_diff'')
      else if program = S ''file'' \<and> list_ex (\<lambda>token. one_of token [''-C'', ''--compile'']) tokens then
        Some (DirectWrite, ''command.risk.file_compile'')
      else if program = S ''file''
              \<and> list_ex (\<lambda>token. one_of token [''-S'', ''--no-sandbox'', ''-z'', ''--uncompress'']) tokens
      then Some (Unknown, ''command.risk.file_helper'')
      else if is_git_worktree_read tokens program then
        Some (Unknown, ''command.risk.git_workspace_hook'')
      else if is_jq_environment_read tokens program then
        Some (Unknown, ''command.risk.environment_read'')
      else if is_jq_module_load tokens program then
        Some (Unknown, ''command.risk.jq_module_load'')
      else if is_workspace_task tokens program
              \<and> (has_workspace_task_boundary_override tokens program
                 \<or> \<not> is_safe_workspace_task tokens program) then
        Some (Unknown, ''command.risk.workspace_task_grammar'')
      else None)"

definition classify_ordinary :: "rstring list \<Rightarrow> rstring \<Rightarrow> classification" where
  "classify_ordinary tokens program =
     (if is_package_management tokens program then
        (PackageManagement, ''command.risk.package_management'')
      else if is_network_command tokens program then (Network, ''command.risk.network'')
      else if is_high_impact_command tokens program then (HighImpact, ''command.risk.high_impact'')
      else if is_direct_write_command tokens program then (DirectWrite, ''command.risk.direct_write'')
      else if is_safe_workspace_task tokens program then
        (SafeWorkspaceWrite, ''command.risk.safe_workspace_write'')
      else if is_known_read_only tokens program then (ReadOnly, ''command.risk.read_only'')
      else (Unknown, ''command.risk.unknown''))"

definition classify_segment ::
  "rstring option \<Rightarrow> rstring list \<Rightarrow> rstring \<Rightarrow> rstring option \<Rightarrow> classification" where
  "classify_segment home tokens program cwd =
     (case classify_denied home tokens program cwd of
        Some r \<Rightarrow> r
      | None \<Rightarrow>
          (case classify_helper_reads tokens program of
             Some r \<Rightarrow> r
           | None \<Rightarrow> classify_ordinary tokens program))"

end
