(* ===== verification/Permissions.thy ===== *)
theory Permissions
  imports Prelude
begin

text \<open>
  The permission snapshot of \<open>src/crates/core/src/protocol/session.rs\<close>: six independent enums, the
  record \<open>AgentPermissions\<close>, its default and its meet. Every enum is a chain from the least to the
  most authority; the meet is shown to be the greatest lower bound of the component-wise order.
\<close>

section \<open>The enums\<close>

datatype agent_read_permission = ReadWorkspaceOnly | ReadAll

datatype agent_write_permission = WriteDenied | WriteWorkspaceOnly | WriteAll

datatype agent_command_permission = CommandRequireApproval | CommandAutoApprove

datatype agent_command_safety_policy = Guarded | FullAccess

datatype agent_patch_permission = PatchRequireApproval | PatchAutoApprove

datatype agent_builtin_execution_permission = BuiltinRequireApproval | BuiltinAutoApprove

record agent_permissions =
  pm_read :: agent_read_permission
  pm_write :: agent_write_permission
  pm_command :: agent_command_permission
  pm_command_safety :: agent_command_safety_policy
  pm_patch :: agent_patch_permission
  pm_builtin_execution :: agent_builtin_execution_permission

definition default_permissions :: agent_permissions where
  "default_permissions =
     \<lparr>pm_read = ReadWorkspaceOnly, pm_write = WriteDenied, pm_command = CommandRequireApproval,
      pm_command_safety = Guarded, pm_patch = PatchRequireApproval,
      pm_builtin_execution = BuiltinRequireApproval\<rparr>"

definition meet :: "agent_permissions \<Rightarrow> agent_permissions \<Rightarrow> agent_permissions" where
  "meet self ceiling =
     \<lparr>pm_read =
        (case (pm_read self, pm_read ceiling) of
           (ReadAll, ReadAll) \<Rightarrow> ReadAll
         | _ \<Rightarrow> ReadWorkspaceOnly),
      pm_write =
        (case (pm_write self, pm_write ceiling) of
           (WriteAll, WriteAll) \<Rightarrow> WriteAll
         | (WriteDenied, _) \<Rightarrow> WriteDenied
         | (_, WriteDenied) \<Rightarrow> WriteDenied
         | _ \<Rightarrow> WriteWorkspaceOnly),
      pm_command =
        (case (pm_command self, pm_command ceiling) of
           (CommandAutoApprove, CommandAutoApprove) \<Rightarrow> CommandAutoApprove
         | _ \<Rightarrow> CommandRequireApproval),
      pm_command_safety =
        (case (pm_command_safety self, pm_command_safety ceiling) of
           (FullAccess, FullAccess) \<Rightarrow> FullAccess
         | _ \<Rightarrow> Guarded),
      pm_patch =
        (case (pm_patch self, pm_patch ceiling) of
           (PatchAutoApprove, PatchAutoApprove) \<Rightarrow> PatchAutoApprove
         | _ \<Rightarrow> PatchRequireApproval),
      pm_builtin_execution =
        (case (pm_builtin_execution self, pm_builtin_execution ceiling) of
           (BuiltinAutoApprove, BuiltinAutoApprove) \<Rightarrow> BuiltinAutoApprove
         | _ \<Rightarrow> BuiltinRequireApproval)\<rparr>"

section \<open>Orders of authority\<close>

text \<open>The order of each enum follows the declaration order of its constructors.\<close>

instantiation agent_read_permission :: linorder
begin

definition less_eq_agent_read_permission :: "agent_read_permission \<Rightarrow> agent_read_permission \<Rightarrow> bool" where
  "less_eq_agent_read_permission a b = (a = ReadWorkspaceOnly \<or> b = ReadAll)"

definition less_agent_read_permission :: "agent_read_permission \<Rightarrow> agent_read_permission \<Rightarrow> bool" where
  "less_agent_read_permission a b = (a = ReadWorkspaceOnly \<and> b = ReadAll)"

instance
proof
  fix a b c :: agent_read_permission
  show "a < b \<longleftrightarrow> a \<le> b \<and> \<not> b \<le> a"
    by (cases a; cases b) (simp_all add: less_eq_agent_read_permission_def less_agent_read_permission_def)
  show "a \<le> b \<or> b \<le> a"
    by (cases a) (simp_all add: less_eq_agent_read_permission_def)
  show "a \<le> a"
    by (cases a) (simp_all add: less_eq_agent_read_permission_def)
qed (auto simp: less_eq_agent_read_permission_def)

end

fun write_rank :: "agent_write_permission \<Rightarrow> nat" where
  "write_rank WriteDenied = 0"
| "write_rank WriteWorkspaceOnly = 1"
| "write_rank WriteAll = 2"

instantiation agent_write_permission :: linorder
begin

definition less_eq_agent_write_permission :: "agent_write_permission \<Rightarrow> agent_write_permission \<Rightarrow> bool" where
  "less_eq_agent_write_permission a b = (write_rank a \<le> write_rank b)"

definition less_agent_write_permission :: "agent_write_permission \<Rightarrow> agent_write_permission \<Rightarrow> bool" where
  "less_agent_write_permission a b = (write_rank a < write_rank b)"

instance
proof
  fix a b :: agent_write_permission
  show "a \<le> b \<Longrightarrow> b \<le> a \<Longrightarrow> a = b"
    by (cases a; cases b) (simp_all add: less_eq_agent_write_permission_def)
qed (auto simp: less_eq_agent_write_permission_def less_agent_write_permission_def)

end

text \<open>
  The component-wise order of permission snapshots: every field of \<open>a\<close> grants at most what the
  field of \<open>b\<close> grants.
\<close>

definition perm_le :: "agent_permissions \<Rightarrow> agent_permissions \<Rightarrow> bool" where
  "perm_le a b \<longleftrightarrow>
     pm_read a \<le> pm_read b \<and> pm_write a \<le> pm_write b
     \<and> (pm_command a = CommandAutoApprove \<longrightarrow> pm_command b = CommandAutoApprove)
     \<and> (pm_command_safety a = FullAccess \<longrightarrow> pm_command_safety b = FullAccess)
     \<and> (pm_patch a = PatchAutoApprove \<longrightarrow> pm_patch b = PatchAutoApprove)
     \<and> (pm_builtin_execution a = BuiltinAutoApprove \<longrightarrow> pm_builtin_execution b = BuiltinAutoApprove)"

definition perm_less :: "agent_permissions \<Rightarrow> agent_permissions \<Rightarrow> bool" where
  "perm_less a b \<longleftrightarrow> perm_le a b \<and> a \<noteq> b"

lemma meet_read [simp]: "pm_read (meet a b) = min (pm_read a) (pm_read b)"
  by (cases "pm_read a"; cases "pm_read b")
    (simp_all add: meet_def min_def less_eq_agent_read_permission_def)

lemma meet_write [simp]: "pm_write (meet a b) = min (pm_write a) (pm_write b)"
  by (cases "pm_write a"; cases "pm_write b")
    (simp_all add: meet_def min_def less_eq_agent_write_permission_def)

lemma meet_command [simp]:
  "pm_command (meet a b) = CommandAutoApprove \<longleftrightarrow>
   pm_command a = CommandAutoApprove \<and> pm_command b = CommandAutoApprove"
  by (simp add: meet_def split: agent_command_permission.split)

lemma meet_command_safety [simp]:
  "pm_command_safety (meet a b) = FullAccess \<longleftrightarrow>
   pm_command_safety a = FullAccess \<and> pm_command_safety b = FullAccess"
  by (simp add: meet_def split: agent_command_safety_policy.split)

lemma meet_patch [simp]:
  "pm_patch (meet a b) = PatchAutoApprove \<longleftrightarrow>
   pm_patch a = PatchAutoApprove \<and> pm_patch b = PatchAutoApprove"
  by (simp add: meet_def split: agent_patch_permission.split)

lemma meet_builtin [simp]:
  "pm_builtin_execution (meet a b) = BuiltinAutoApprove \<longleftrightarrow>
   pm_builtin_execution a = BuiltinAutoApprove \<and> pm_builtin_execution b = BuiltinAutoApprove"
  by (simp add: meet_def split: agent_builtin_execution_permission.split)

text \<open>A permission snapshot is its six fields, and the four approval fields are booleans.\<close>

lemma permissions_eqI:
  fixes a b :: agent_permissions
  assumes "pm_read a = pm_read b" "pm_write a = pm_write b"
    and "pm_command a = CommandAutoApprove \<longleftrightarrow> pm_command b = CommandAutoApprove"
    and "pm_command_safety a = FullAccess \<longleftrightarrow> pm_command_safety b = FullAccess"
    and "pm_patch a = PatchAutoApprove \<longleftrightarrow> pm_patch b = PatchAutoApprove"
    and "pm_builtin_execution a = BuiltinAutoApprove \<longleftrightarrow> pm_builtin_execution b = BuiltinAutoApprove"
  shows "a = b"
proof -
  have "pm_command a = pm_command b" using assms(3) by (metis agent_command_permission.exhaust)
  moreover have "pm_command_safety a = pm_command_safety b"
    using assms(4) by (metis agent_command_safety_policy.exhaust)
  moreover have "pm_patch a = pm_patch b" using assms(5) by (metis agent_patch_permission.exhaust)
  moreover have "pm_builtin_execution a = pm_builtin_execution b"
    using assms(6) by (metis agent_builtin_execution_permission.exhaust)
  ultimately show ?thesis using assms(1,2) by (simp add: agent_permissions.equality)
qed

lemma perm_le_iff_meet: "perm_le a b \<longleftrightarrow> a = meet a b"
proof
  assume "perm_le a b"
  then show "a = meet a b"
    by (intro permissions_eqI) (auto simp: perm_le_def min_def)
next
  assume "a = meet a b"
  then have "pm_read a = pm_read (meet a b)" "pm_write a = pm_write (meet a b)"
    "pm_command a = pm_command (meet a b)" "pm_command_safety a = pm_command_safety (meet a b)"
    "pm_patch a = pm_patch (meet a b)" "pm_builtin_execution a = pm_builtin_execution (meet a b)"
    by simp_all
  then show "perm_le a b"
    unfolding perm_le_def
    by (metis meet_read meet_write meet_command meet_command_safety meet_patch meet_builtin min.cobounded2)
qed

text \<open>The library's semilattice laws hold for \<open>meet\<close>, with \<open>perm_le\<close> as their order.\<close>

interpretation perms: semilattice_order meet perm_le perm_less
proof
  fix a b c :: agent_permissions
  show "meet (meet a b) c = meet a (meet b c)"
    by (rule permissions_eqI) (simp_all add: min.assoc)
  show "meet a b = meet b a"
    by (rule permissions_eqI) (auto simp: min.commute)
  show "meet a a = a"
    by (rule permissions_eqI) simp_all
  show "perm_le a b \<longleftrightarrow> a = meet a b"
    by (rule perm_le_iff_meet)
  show "perm_less a b \<longleftrightarrow> a = meet a b \<and> a \<noteq> b"
    by (simp add: perm_less_def perm_le_iff_meet)
qed

lemma default_permissions_least: "perm_le default_permissions p"
  by (simp add: perm_le_def default_permissions_def less_eq_agent_read_permission_def
      less_eq_agent_write_permission_def)

section \<open>Properties\<close>

text \<open>
  The meet of two snapshots is their greatest lower bound: a snapshot lies below the meet
  exactly when it lies below both, so a child, template or policy can keep or remove authority and
  never add any.
\<close>

theorem meet_greatest_lower_bound: "perm_le p (meet a b) \<longleftrightarrow> perm_le p a \<and> perm_le p b"
  by (rule perms.bounded_iff)

text \<open>
  The meet is associative, commutative and idempotent, and the default snapshot, which grants
  nothing, absorbs: the order in which ceilings are applied does not matter.
\<close>

theorem meet_semilattice:
  "meet (meet a b) c = meet a (meet b c) \<and> meet a b = meet b a \<and> meet a a = a
   \<and> meet a default_permissions = default_permissions"
  using perms.assoc perms.commute perms.idem perms.absorb2 [OF default_permissions_least [of a]] by blast

end
