(* ===== verification/Command_Segment.thy ===== *)
theory Command_Segment
  imports Command_Risk Permissions
begin

text \<open>
  The assessment of one segment, \<open>src/crates/core/src/command/segment.rs\<close>. The source recurses into
  \<open>analyze_command\<close> for the text of \<open>sh -c\<close> and of \<open>env -S\<close>; here the nested analysis is the
  argument \<open>analyze\<close> of \<open>assess_segment\<close>, and the policy theory ties the knot with the depth bound.
  A function that pushes onto \<open>&mut findings\<close> takes the findings and returns the extended list.
\<close>

type_synonym analyzer = "rstring \<Rightarrow> command_policy_finding list checked"

section \<open>Redirections\<close>

definition redirection_findings ::
  "nat \<Rightarrow> rstring \<Rightarrow> agent_read_permission \<Rightarrow> shell_input_redirection \<Rightarrow> command_policy_finding list" where
  "redirection_findings segment_index program read_permission redirection =
     (if is_network_redirection_target (redir_target redirection)
      then [finding segment_index program Network ''command.risk.network_redirection''] else [])
     @ (if read_permission = ReadWorkspaceOnly \<and> is_obvious_external_path (redir_target redirection)
        then [finding segment_index program ExternalRead ''command.scope.external_input_redirection'']
        else [])
     @ (if redir_dynamic redirection
        then [finding segment_index program Unknown ''command.risk.dynamic_input_redirection''] else [])"

definition append_redirection_findings ::
  "shell_segment \<Rightarrow> nat \<Rightarrow> rstring \<Rightarrow> agent_read_permission \<Rightarrow> command_policy_finding list
   \<Rightarrow> command_policy_finding list" where
  "append_redirection_findings segment segment_index program read_permission findings =
     findings
     @ (if seg_has_write_redirection segment
        then [finding segment_index program DirectWrite ''command.risk.write_redirection''] else [])
     @ concat (map (redirection_findings segment_index program read_permission)
         (seg_input_redirections segment))"

section \<open>Provenance\<close>

definition append_shell_script_finding ::
  "rstring option \<Rightarrow> nat \<Rightarrow> rstring \<Rightarrow> command_policy_finding list \<Rightarrow> command_policy_finding list" where
  "append_shell_script_finding script segment_index program findings =
     (case script of
        None \<Rightarrow> findings
      | Some s \<Rightarrow>
          findings @
          [if is_opaque_shell_script_path s
           then finding segment_index program Unsupported ''command.unsupported.dynamic_shell_script''
           else finding segment_index program Unknown ''command.risk.shell_script''])"

definition any_executable :: "(rstring \<Rightarrow> bool) \<Rightarrow> shell_segment \<Rightarrow> effective_prog \<Rightarrow> bool" where
  "any_executable p segment ep = list_ex (\<lambda>i. p (seg_tokens segment ! i)) (ep_executable_indices ep)"

definition append_invocation_provenance_findings ::
  "shell_segment \<Rightarrow> nat \<Rightarrow> effective_prog \<Rightarrow> rstring \<Rightarrow> command_policy_finding list
   \<Rightarrow> command_policy_finding list" where
  "append_invocation_provenance_findings segment segment_index ep program findings =
     (let arguments = drop (ep_index ep + 1) (seg_tokens segment) in
      findings
      @ (if any_executable is_explicit_program_path segment ep
         then [finding segment_index program Unknown ''command.risk.explicit_program_path''] else [])
      @ (if has_environment_override (seg_tokens segment) (ep_index ep)
         then [finding segment_index program Unknown ''command.risk.environment_override''] else [])
      @ (if list_ex has_dynamic_argument arguments
         then [finding segment_index program Unknown ''command.risk.dynamic_argument''] else [])
      @ (if list_ex has_shell_path_expansion arguments
         then [finding segment_index program Unknown ''command.risk.shell_path_expansion''] else []))"

section \<open>The segment\<close>

text \<open>
  \<open>assess_segment\<close> is split where its control flow forks: \<open>env -S\<close>, then the program, and within it
  shells with a command string, other shells, and every other program. A shell's command index is at
  least 2, so \<open>command_index.wrapping_sub(1)\<close> never wraps.
\<close>

definition assess_env_split ::
  "analyzer \<Rightarrow> shell_segment \<Rightarrow> nat \<Rightarrow> agent_read_permission \<Rightarrow> rstring
   \<Rightarrow> command_policy_finding list \<Rightarrow> command_policy_finding list checked" where
  "assess_env_split analyze segment segment_index read_permission split_command findings =
     rbind (ok_or (effective_program (seg_tokens segment))
              (CommandSyntaxError ''command.malformed.missing_program'')) (\<lambda>ep.
       if any_executable is_dynamic_program_name segment ep then
         Inr (findings @
           [finding segment_index (S ''env'') Unsupported ''command.unsupported.dynamic_program''])
       else
         let findings =
               findings
               @ (if any_executable is_explicit_program_path segment ep
                  then [finding segment_index (S ''env'') Unknown ''command.risk.explicit_program_path'']
                  else []) in
         rbind (analyze split_command) (\<lambda>nested.
           Inr (append_redirection_findings segment segment_index (S ''env'') read_permission
             (extend_nested findings nested
              @ [finding segment_index (S ''env'') Unknown ''command.risk.environment_override'']))))"

definition shell_option_findings ::
  "rstring list \<Rightarrow> nat \<Rightarrow> nat \<Rightarrow> rstring \<Rightarrow> command_policy_finding list" where
  "shell_option_findings tokens command_index segment_index program =
     (if shell_loads_startup_code tokens command_index
      then [finding segment_index program Unknown ''command.risk.shell_startup_code''] else [])
     @ (if one_of program [''zsh'', ''fish'']
        then [finding segment_index program Unknown ''command.risk.shell_default_startup''] else [])
     @ (if \<not> shell_command_options_are_closed tokens command_index program
        then [finding segment_index program Unknown ''command.risk.shell_option_grammar''] else [])"

definition assess_shell_command ::
  "analyzer \<Rightarrow> shell_segment \<Rightarrow> nat \<Rightarrow> agent_read_permission \<Rightarrow> rstring list \<Rightarrow> rstring \<Rightarrow> nat
   \<Rightarrow> command_policy_finding list \<Rightarrow> command_policy_finding list checked" where
  "assess_shell_command analyze segment segment_index read_permission tokens program command_index
     findings =
     (if list_ex shell_option_is_interactive (drop 1 (take command_index tokens)) then
        Inr (findings @ [finding segment_index program Unsupported ''command.unsupported.interactive''])
      else
        let findings = findings @ shell_option_findings tokens command_index segment_index program in
        rbind (ok_or (lget tokens command_index)
                 (CommandSyntaxError ''command.malformed.shell_command_missing'')) (\<lambda>nested_command.
          rbind (analyze nested_command) (\<lambda>nested.
            let findings = extend_nested findings nested;
                findings =
                  (if program = S ''fish'' \<and> lget tokens (command_index - 1) = Some (S ''-C'')
                   then append_shell_script_finding (lget tokens (command_index + 1)) segment_index
                          program findings
                   else findings) in
            Inr (append_redirection_findings segment segment_index program read_permission findings))))"

definition assess_shell ::
  "analyzer \<Rightarrow> shell_segment \<Rightarrow> nat \<Rightarrow> agent_read_permission \<Rightarrow> rstring list \<Rightarrow> rstring
   \<Rightarrow> command_policy_finding list \<Rightarrow> command_policy_finding list checked" where
  "assess_shell analyze segment segment_index read_permission tokens program findings =
     (case shell_command_argument_index tokens of
        Some command_index \<Rightarrow>
          assess_shell_command analyze segment segment_index read_permission tokens program
            command_index findings
      | None \<Rightarrow>
          (case shell_script_argument tokens of
             Some script \<Rightarrow>
               Inr (append_redirection_findings segment segment_index program read_permission
                 (append_shell_script_finding (Some script) segment_index program findings))
           | None \<Rightarrow>
               Inr (findings @
                 [finding segment_index program Unsupported ''command.unsupported.opaque_shell''])))"

definition assess_simple ::
  "rstring option \<Rightarrow> shell_segment \<Rightarrow> nat \<Rightarrow> agent_read_permission \<Rightarrow> rstring option \<Rightarrow> rstring list
   \<Rightarrow> rstring \<Rightarrow> command_policy_finding list \<Rightarrow> command_policy_finding list" where
  "assess_simple home segment segment_index read_permission cwd tokens program findings =
     (let (risk, code) = classify_segment home tokens program cwd in
      append_redirection_findings segment segment_index program read_permission
        (findings
         @ [finding segment_index program risk code]
         @ (if (risk = ReadOnly \<or> risk = SafeWorkspaceWrite) \<and> read_permission = ReadWorkspaceOnly
               \<and> has_obvious_external_read_argument tokens program
            then [finding segment_index program ExternalRead ''command.scope.external_read''] else [])))"

definition assess_program ::
  "rstring option \<Rightarrow> analyzer \<Rightarrow> shell_segment \<Rightarrow> nat \<Rightarrow> agent_read_permission \<Rightarrow> rstring option
   \<Rightarrow> effective_prog \<Rightarrow> command_policy_finding list \<Rightarrow> command_policy_finding list checked" where
  "assess_program home analyze segment segment_index read_permission cwd ep findings =
     (let tokens = drop (ep_index ep) (seg_tokens segment);
          program = program_basename (tokens ! 0) in
      if seg_has_heredoc segment \<and> is_shell_program program then
        Inr (findings @
          [finding segment_index program Unsupported ''command.unsupported.shell_heredoc''])
      else if seg_has_heredoc segment \<and> one_of program [''python'', ''python3'', ''node''] then
        Inr (append_redirection_findings segment segment_index program read_permission
          (findings @ [finding segment_index program Unknown ''command.risk.heredoc_interpreter'']))
      else if is_shell_reserved_program program then
        Inr (findings @
          [finding segment_index program Unsupported ''command.unsupported.shell_reserved_syntax''])
      else if any_executable is_dynamic_program_name segment ep then
        Inr (findings @
          [finding segment_index program Unsupported ''command.unsupported.dynamic_program''])
      else
        let findings =
              append_invocation_provenance_findings segment segment_index ep program findings in
        if is_shell_program program then
          assess_shell analyze segment segment_index read_permission tokens program findings
        else
          Inr (assess_simple home segment segment_index read_permission cwd tokens program findings))"

definition assess_segment ::
  "rstring option \<Rightarrow> analyzer \<Rightarrow> shell_segment \<Rightarrow> nat \<Rightarrow> agent_read_permission \<Rightarrow> rstring option
   \<Rightarrow> command_policy_finding list \<Rightarrow> command_policy_finding list checked" where
  "assess_segment home analyze segment segment_index read_permission cwd findings =
     rbind (env_split_command (seg_tokens segment)) (\<lambda>split.
       case split of
         Some split_command \<Rightarrow>
           assess_env_split analyze segment segment_index read_permission split_command findings
       | None \<Rightarrow>
           (case effective_program (seg_tokens segment) of
              None \<Rightarrow> err ''command.malformed.missing_program''
            | Some ep \<Rightarrow>
                assess_program home analyze segment segment_index read_permission cwd ep findings))"

section \<open>Aggregation\<close>

fun risk_level_of :: "command_risk_class \<Rightarrow> agent_command_risk_level" where
  "risk_level_of Catastrophic = LevelDestructive"
| "risk_level_of HighImpact = LevelDestructive"
| "risk_level_of PackageManagement = LevelNetwork"
| "risk_level_of Network = LevelNetwork"
| "risk_level_of DirectWrite = LevelWritesWorkspace"
| "risk_level_of SafeWorkspaceWrite = LevelWritesWorkspace"
| "risk_level_of ReadOnly = LevelReadOnly"
| "risk_level_of Unknown = LevelUnknown"
| "risk_level_of Unsupported = LevelUnknown"
| "risk_level_of ExternalRead = LevelUnknown"

fun risk_level_key :: "agent_command_risk_level \<Rightarrow> nat" where
  "risk_level_key LevelReadOnly = 0"
| "risk_level_key LevelWritesWorkspace = 1"
| "risk_level_key LevelUnknown = 2"
| "risk_level_key LevelNetwork = 3"
| "risk_level_key LevelDestructive = 4"

text \<open>\<open>Iterator::max_by_key\<close>: of several maxima the last one.\<close>

fun max_by_key :: "('a \<Rightarrow> nat) \<Rightarrow> 'a list \<Rightarrow> 'a option" where
  "max_by_key key [] = None"
| "max_by_key key (x # xs) =
     Some (foldl (\<lambda>best y. if key best \<le> key y then y else best) x xs)"

definition aggregate_risk_level :: "command_policy_finding list \<Rightarrow> agent_command_risk_level" where
  "aggregate_risk_level findings =
     (case max_by_key risk_level_key (map (\<lambda>f. risk_level_of (fd_risk f)) findings) of
        Some level \<Rightarrow> level
      | None \<Rightarrow> LevelUnknown)"

end
