(* ===== verification/Command_Scanners.thy ===== *)
theory Command_Scanners
  imports Command_Types
begin

text \<open>
  The character scanners that the shell lexer calls: here-document delimiters and bodies, command
  substitutions (\<open>command/lexer.rs\<close>), file-descriptor duplications and redirection targets
  (\<open>command/policy.rs\<close>). Each takes the characters of the command and a start index and returns
  what it read with the index of the first character it did not consume.

  The source walks an index over \<open>chars: &[char]\<close>; the loops below recurse over the remaining
  characters and carry the same index.

  The locale \<open>cursor_scanner\<close> is the contract the lexer relies on, and the last section interprets
  it on every scanner.
\<close>

section \<open>Here-documents\<close>

text \<open>A \<open>PendingHeredoc\<close> is its delimiter.\<close>

type_synonym pending_heredoc = rstring

definition is_word_break :: "rchar \<Rightarrow> bool" where
  "is_word_break c = (is_whitespace c \<or> among c '';|&<>'')"

fun heredoc_word ::
  "rchar list \<Rightarrow> nat \<Rightarrow> rstring \<Rightarrow> rchar option \<Rightarrow> bool \<Rightarrow> bool \<Rightarrow>
     (rstring \<times> rchar option \<times> bool \<times> bool \<times> nat) checked" where
  "heredoc_word [] index delimiter quote quoted escaped =
     Inr (delimiter, quote, quoted, escaped, index)"
| "heredoc_word (c # cs) index delimiter quote quoted escaped =
     (if escaped then
        (if c = NL then err ''command.malformed.heredoc_delimiter''
         else heredoc_word cs (index + 1) (delimiter @ [c]) quote True False)
      else if c = BSL \<and> quote \<noteq> Some SQ then
        heredoc_word cs (index + 1) delimiter quote quoted True
      else
        (case quote of
           Some active_quote \<Rightarrow>
             if c = active_quote then heredoc_word cs (index + 1) delimiter None quoted False
             else heredoc_word cs (index + 1) (delimiter @ [c]) quote quoted False
         | None \<Rightarrow>
             if c = SQ \<or> c = DQ then heredoc_word cs (index + 1) delimiter (Some c) True False
             else if is_word_break c then Inr (delimiter, None, quoted, False, index)
             else heredoc_word cs (index + 1) (delimiter @ [c]) None quoted False))"

definition skip_blanks :: "rchar list \<Rightarrow> nat \<Rightarrow> nat" where
  "skip_blanks chars index =
     index + length (takeWhile (\<lambda>c. among c [CHR 0x20, CHR 0x09]) (drop index chars))"

definition read_heredoc_delimiter :: "rchar list \<Rightarrow> nat \<Rightarrow> (pending_heredoc \<times> nat) checked" where
  "read_heredoc_delimiter chars start =
     (let index = skip_blanks chars start in
      rbind (heredoc_word (drop index chars) index [] None False False)
        (\<lambda>(delimiter, quote, quoted, escaped, next).
           if escaped \<or> quote \<noteq> None \<or> delimiter = [] then
             err ''command.malformed.heredoc_delimiter''
           else if \<not> quoted then err ''command.unsupported.unquoted_heredoc''
           else Inr (delimiter, next)))"

definition line_end_from :: "rchar list \<Rightarrow> nat \<Rightarrow> nat" where
  "line_end_from chars i = i + length (takeWhile (\<lambda>c. c \<noteq> NL) (drop i chars))"

lemma line_end_from_ge: "i \<le> line_end_from chars i"
  by (simp add: line_end_from_def)

function heredoc_lines ::
  "rchar list \<Rightarrow> nat \<Rightarrow> pending_heredoc \<Rightarrow> nat \<Rightarrow> (nat \<times> range) checked" where
  "heredoc_lines chars start delimiter line_start =
     (if line_start \<le> length chars then
        let line_end = line_end_from chars line_start in
        if slice chars line_start line_end = delimiter then
          let next = (if line_end < length chars then line_end + 1 else line_end) in
          Inr (next, (start, next))
        else if line_end = length chars then
          err ''command.malformed.heredoc_terminator_missing''
        else heredoc_lines chars start delimiter (line_end + 1)
      else err ''command.malformed.heredoc_terminator_missing'')"
  by pat_completeness auto
termination
  by (relation "measure (\<lambda>(chars, start, delimiter, line_start). Suc (length chars) - line_start)")
    (auto intro: le_less_trans [OF diff_le_mono2 [OF line_end_from_ge]])

declare heredoc_lines.simps [simp del]

definition consume_heredoc_body ::
  "rchar list \<Rightarrow> nat \<Rightarrow> pending_heredoc \<Rightarrow> (nat \<times> range) checked" where
  "consume_heredoc_body chars start heredoc = heredoc_lines chars start heredoc start"

section \<open>Command substitutions\<close>

fun parenthesized_end :: "rchar list \<Rightarrow> nat \<Rightarrow> nat \<Rightarrow> rchar option \<Rightarrow> bool \<Rightarrow> nat option" where
  "parenthesized_end [] index depth quote escaped = None"
| "parenthesized_end (c # cs) index depth quote escaped =
     (if escaped then parenthesized_end cs (index + 1) depth quote False
      else if c = BSL \<and> quote \<noteq> Some SQ then parenthesized_end cs (index + 1) depth quote True
      else
        (case quote of
           Some active_quote \<Rightarrow>
             parenthesized_end cs (index + 1) depth (if c = active_quote then None else quote) False
         | None \<Rightarrow>
             if c = SQ \<or> c = DQ then parenthesized_end cs (index + 1) depth (Some c) False
             else if c = Ch CHR ''('' then parenthesized_end cs (index + 1) (depth + 1) None False
             else if c = Ch CHR '')'' then
               (if depth - 1 = 0 then Some index
                else parenthesized_end cs (index + 1) (depth - 1) None False)
             else parenthesized_end cs (index + 1) depth None False))"

definition extract_parenthesized_command :: "rchar list \<Rightarrow> nat \<Rightarrow> (rstring \<times> nat) checked" where
  "extract_parenthesized_command chars start =
     (case parenthesized_end (drop start chars) start 1 None False of
        Some index \<Rightarrow> Inr (slice chars start index, index + 1)
      | None \<Rightarrow> err ''command.malformed.unclosed_substitution'')"

fun backtick_end :: "rchar list \<Rightarrow> nat \<Rightarrow> bool \<Rightarrow> nat option" where
  "backtick_end [] index escaped = None"
| "backtick_end (c # cs) index escaped =
     (if escaped then backtick_end cs (index + 1) False
      else if c = BSL then backtick_end cs (index + 1) True
      else if c = TICK then Some index
      else backtick_end cs (index + 1) False)"

definition extract_backtick_command :: "rchar list \<Rightarrow> nat \<Rightarrow> (rstring \<times> nat) checked" where
  "extract_backtick_command chars start =
     (case backtick_end (drop start chars) start False of
        Some index \<Rightarrow> Inr (slice chars start index, index + 1)
      | None \<Rightarrow> err ''command.malformed.unclosed_substitution'')"

section \<open>Redirections\<close>

definition is_shell_boundary :: "rchar option \<Rightarrow> bool" where
  "is_shell_boundary c = is_none_or c (\<lambda>v. is_whitespace v \<or> among v '';|&>'')"

definition consume_fd_duplication :: "rchar list \<Rightarrow> nat \<Rightarrow> nat option" where
  "consume_fd_duplication chars start =
     (if lget chars start = Some (Ch CHR ''-'') \<and> is_shell_boundary (lget chars (start + 1)) then
        Some (start + 1)
      else
        let index = start + length (takeWhile is_ascii_digit (drop start chars)) in
        if start < index \<and> is_shell_boundary (lget chars index) then Some index else None)"

text \<open>The loop of \<open>read_redirection_target\<close>: value, dynamic, open quote and final index.\<close>

fun target_word ::
  "rchar list \<Rightarrow> nat \<Rightarrow> rstring \<Rightarrow> bool \<Rightarrow> rchar option \<Rightarrow> bool \<Rightarrow>
     rstring \<times> bool \<times> rchar option \<times> nat" where
  "target_word [] index value dynamic quote escaped = (value, dynamic, quote, index)"
| "target_word (c # cs) index value dynamic quote escaped =
     (if escaped then target_word cs (index + 1) (value @ [c]) dynamic quote False
      else if c = BSL \<and> quote \<noteq> Some SQ then target_word cs (index + 1) value dynamic quote True
      else
        (case quote of
           Some active_quote \<Rightarrow>
             if c = active_quote then target_word cs (index + 1) value dynamic None False
             else target_word cs (index + 1) (value @ [c])
                    (dynamic \<or> active_quote = DQ \<and> among c (CHR 0x60 # ''$'')) quote False
         | None \<Rightarrow>
             if c = SQ \<or> c = DQ then target_word cs (index + 1) value dynamic (Some c) False
             else if is_word_break c then (value, dynamic, None, index)
             else target_word cs (index + 1) (value @ [c])
                    (dynamic \<or> among c (CHR 0x60 # ''$*?[{}'')
                       \<or> c = Ch CHR ''~'' \<and> value = []) None False))"

definition read_redirection_target :: "rchar list \<Rightarrow> nat \<Rightarrow> ((rstring \<times> bool) \<times> nat) checked" where
  "read_redirection_target chars start =
     (case lget chars start of
        None \<Rightarrow> err ''command.malformed.redirection_target_missing''
      | Some first \<Rightarrow>
          if among first '';|&'' then err ''command.malformed.redirection_target_missing''
          else
            (case target_word (drop start chars) start [] False None False of
               (value, dynamic, quote, index) \<Rightarrow>
                 if quote \<noteq> None \<or> value = [] then
                   err ''command.malformed.redirection_target_missing''
                 else Inr ((value, dynamic), index)))"

lemmas [scan_defs] =
  read_heredoc_delimiter_def consume_heredoc_body_def extract_parenthesized_command_def
  extract_backtick_command_def is_shell_boundary_def consume_fd_duplication_def
  read_redirection_target_def skip_blanks_def is_word_break_def

section \<open>The cursor contract\<close>

text \<open>
  A scanner that succeeds returns a cursor between where it started and the end of the text: it
  neither moves back nor reads past the end. The lexer needs no more than this for its termination
  and for the bounds of its ranges.
\<close>

locale cursor_scanner =
  fixes scan :: "rchar list \<Rightarrow> nat \<Rightarrow> ('v \<times> nat) checked"
  assumes scan_bounds: "start \<le> length chars \<Longrightarrow> scan chars start = Inr (v, next) \<Longrightarrow>
    start \<le> next \<and> next \<le> length chars"
begin

text \<open>What a lexer step that first skips an operator of one or two characters gets.\<close>

lemma scan_after_one:
  assumes "scan chars (Suc index) = Inr (v, next)" and "index < length chars"
  shows "index < next \<and> next \<le> length chars"
  using scan_bounds [OF _ assms(1)] assms(2) by linarith

lemma scan_after_two:
  assumes "scan chars (Suc (Suc index)) = Inr (v, next)" and "Suc index < length chars"
  shows "index < next \<and> next \<le> length chars"
  using scan_bounds [OF _ assms(1)] assms(2) by linarith

end

text \<open>Scanners that consume at least one character.\<close>

locale consuming_scanner = cursor_scanner +
  assumes scan_progress: "start \<le> length chars \<Longrightarrow> scan chars start = Inr (v, next) \<Longrightarrow> start < next"
begin

lemma scan_at_end: "scan chars (length chars) \<noteq> Inr (v, next)"
  using scan_bounds scan_progress by (metis le_refl not_le)

end

lemma heredoc_word_bounds:
  "heredoc_word cs i d q qd e = Inr (d', q', qd', e', n) \<Longrightarrow>
     i \<le> n \<and> n \<le> i + length cs \<and> (length d < length d' \<longrightarrow> i < n)"
proof (induction cs arbitrary: i d q qd e)
  case (Cons c cs)
  from Cons.prems show ?case
    by (auto split: if_splits option.splits dest!: Cons.IH)
qed simp

lemma skip_blanks_bounds: "start \<le> length chars \<Longrightarrow> start \<le> skip_blanks chars start \<and> skip_blanks chars start \<le> length chars"
  by (simp add: skip_blanks_def length_takeWhile_drop)

lemma parenthesized_end_bounds: "parenthesized_end cs i d q e = Some n \<Longrightarrow> i \<le> n \<and> n < i + length cs"
proof (induction cs arbitrary: i d q e)
  case (Cons c cs)
  from Cons.prems show ?case
    by (auto split: if_splits option.splits dest!: Cons.IH)
qed simp

lemma backtick_end_bounds: "backtick_end cs i e = Some n \<Longrightarrow> i \<le> n \<and> n < i + length cs"
  by (induction cs i e rule: backtick_end.induct) (fastforce split: if_splits)+

lemma target_word_bounds:
  "target_word cs i v d q e = (v', d', q', n) \<Longrightarrow>
     i \<le> n \<and> n \<le> i + length cs \<and> (length v < length v' \<longrightarrow> i < n)"
proof (induction cs arbitrary: i v d q e)
  case (Cons c cs)
  from Cons.prems show ?case
    by (auto split: if_splits option.splits dest!: Cons.IH)
qed simp

lemma line_end_from_le: "i \<le> length chars \<Longrightarrow> line_end_from chars i \<le> length chars"
  by (simp add: line_end_from_def length_takeWhile_drop)

lemma heredoc_lines_bounds:
  "heredoc_lines chars start d i = Inr (n, r) \<Longrightarrow> i \<le> n \<and> n \<le> length chars \<and> r = (start, n)"
proof (induction chars start d i rule: heredoc_lines.induct)
  case (1 chars start d i)
  let ?e = "line_end_from chars i"
  from "1.prems" have i: "i \<le> length chars"
    by (simp add: heredoc_lines.simps [of chars start d i] split: if_splits)
  show ?case
  proof (cases "slice chars i ?e = d")
    case True
    with "1.prems" i line_end_from_le [OF i] show ?thesis
      using line_end_from_ge [of i chars]
      by (auto simp: heredoc_lines.simps [of chars start d i] Let_def split: if_splits)
  next
    case False
    with "1.prems" i have "?e \<noteq> length chars"
      and rec: "heredoc_lines chars start d (?e + 1) = Inr (n, r)"
      by (auto simp: heredoc_lines.simps [of chars start d i] Let_def split: if_splits)
    with "1.IH" [OF i refl False] have "?e + 1 \<le> n \<and> n \<le> length chars \<and> r = (start, n)"
      by simp
    with line_end_from_ge [of i chars] show ?thesis by linarith
  qed
qed

lemma consume_heredoc_body_bounds:
  "consume_heredoc_body chars start d = Inr (n, r) \<Longrightarrow> start \<le> n \<and> n \<le> length chars \<and> r = (start, n)"
  unfolding consume_heredoc_body_def by (rule heredoc_lines_bounds)

lemma consume_fd_duplication_bounds:
  "consume_fd_duplication chars start = Some n \<Longrightarrow> start < n \<and> n \<le> length chars"
  using length_takeWhile_drop [of start chars is_ascii_digit]
  by (cases "start \<le> length chars")
    (auto simp: consume_fd_duplication_def Let_def split: if_splits)

interpretation paren: consuming_scanner extract_parenthesized_command
  by unfold_locales
    (auto simp: extract_parenthesized_command_def dest!: parenthesized_end_bounds split: option.splits)

interpretation backtick: consuming_scanner extract_backtick_command
  by unfold_locales
    (auto simp: extract_backtick_command_def dest!: backtick_end_bounds split: option.splits)

interpretation target: consuming_scanner read_redirection_target
  by unfold_locales
    (auto simp: read_redirection_target_def dest!: target_word_bounds split: option.splits if_splits prod.splits)

interpretation heredoc: consuming_scanner read_heredoc_delimiter
proof unfold_locales
  fix start :: nat and chars v "next"
  assume start: "start \<le> length chars" and ok: "read_heredoc_delimiter chars start = Inr (v, next)"
  let ?i = "skip_blanks chars start"
  from ok obtain q qd e where "heredoc_word (drop ?i chars) ?i [] None False False = Inr (v, q, qd, e, next)"
    and "v \<noteq> []"
    by (auto simp: read_heredoc_delimiter_def Let_def split: if_splits)
  from heredoc_word_bounds [OF this(1)] this(2) skip_blanks_bounds [OF start]
  have "start < next" and "next \<le> length chars" by auto
  then show "start \<le> next \<and> next \<le> length chars" and "start < next" by auto
qed

interpretation heredoc_body: cursor_scanner
  "\<lambda>chars start. map_sum id (\<lambda>(next, r). (r, next)) (consume_heredoc_body chars start delimiter)"
  for delimiter
proof unfold_locales
  fix start :: nat and chars v "next"
  assume "map_sum id (\<lambda>(next, r). (r, next)) (consume_heredoc_body chars start delimiter) = Inr (v, next)"
  then have "consume_heredoc_body chars start delimiter = Inr (next, v)"
    by (cases "consume_heredoc_body chars start delimiter") auto
  then show "start \<le> next \<and> next \<le> length chars"
    by (blast dest: consume_heredoc_body_bounds)
qed

end
