(* ===== verification/Command_Lexer.thy ===== *)
theory Command_Lexer
  imports Command_Scanners
begin

text \<open>
  The shell lexer \<open>lex_command\<close> of \<open>src/crates/core/src/command/lexer.rs\<close>. Its local variables are
  the fields of \<open>lex_state\<close>, one pass of its \<open>while\<close> loop is \<open>lex_step\<close>, with one definition per arm,
  and \<open>lex_loop\<close> is the loop. The lemmas show that every step moves the index forward inside the text
  (so the loop ends) and keeps the well-formedness of what was lexed so far.
\<close>

section \<open>State\<close>

datatype lex_quote = QNone | QSingle | QDouble

datatype separator_state = SepNone | SepComplete | SepRequiresCommand

record lex_state =
  lx_segments :: "shell_segment list"
  lx_embedded_commands :: "rstring list"
  lx_tokens :: "rstring list"
  lx_token_ranges :: "range list"
  lx_token :: rstring
  lx_token_start :: "nat option"
  lx_token_has_quoted_or_escaped_content :: bool
  lx_write_redirection :: bool
  lx_input_redirections :: "shell_input_redirection list"
  lx_segment_has_heredoc :: bool
  lx_pending_heredoc :: "pending_heredoc option"
  lx_ignored_policy_ranges :: "range list"
  lx_quote :: lex_quote
  lx_index :: nat
  lx_separator_state :: separator_state

definition lex_init :: lex_state where
  "lex_init =
     \<lparr>lx_segments = [], lx_embedded_commands = [], lx_tokens = [], lx_token_ranges = [],
      lx_token = [], lx_token_start = None, lx_token_has_quoted_or_escaped_content = False,
      lx_write_redirection = False, lx_input_redirections = [], lx_segment_has_heredoc = False,
      lx_pending_heredoc = None, lx_ignored_policy_ranges = [], lx_quote = QNone, lx_index = 0,
      lx_separator_state = SepNone\<rparr>"

section \<open>Token and segment bookkeeping\<close>

definition push_token_with_range :: "nat \<Rightarrow> lex_state \<Rightarrow> lex_state" where
  "push_token_with_range end_index s =
     (if lx_token s \<noteq> [] then
        s\<lparr>lx_tokens := lx_tokens s @ [lx_token s],
          lx_token_ranges := lx_token_ranges s @
            [(case lx_token_start s of Some b \<Rightarrow> b | None \<Rightarrow> end_index, end_index)],
          lx_token := [], lx_token_start := None\<rparr>
      else s\<lparr>lx_token_start := None\<rparr>)"

definition end_word :: "lex_state \<Rightarrow> lex_state" where
  "end_word s =
     (push_token_with_range (lx_index s) s)\<lparr>lx_token_has_quoted_or_escaped_content := False\<rparr>"

text \<open>\<open>token_start.get_or_insert(index)\<close>.\<close>

definition mark_token_start :: "lex_state \<Rightarrow> lex_state" where
  "mark_token_start s =
     s\<lparr>lx_token_start := Some (case lx_token_start s of Some b \<Rightarrow> b | None \<Rightarrow> lx_index s)\<rparr>"

definition current_segment :: "lex_state \<Rightarrow> shell_segment" where
  "current_segment s =
     \<lparr>seg_tokens = lx_tokens s, seg_token_ranges = lx_token_ranges s,
      seg_has_write_redirection = lx_write_redirection s,
      seg_input_redirections = lx_input_redirections s,
      seg_has_heredoc = lx_segment_has_heredoc s\<rparr>"

definition close_segment :: "lex_state \<Rightarrow> lex_state" where
  "close_segment s =
     s\<lparr>lx_segments := lx_segments s @ [current_segment s], lx_tokens := [], lx_token_ranges := [],
       lx_input_redirections := [], lx_write_redirection := False, lx_segment_has_heredoc := False\<rparr>"

text \<open>
  Before a redirection operator an unquoted all-digit word is a file-descriptor number and is
  dropped; any other word is an argument.
\<close>

definition flush_redirection_word :: "lex_state \<Rightarrow> lex_state" where
  "flush_redirection_word s =
     (let s' =
        (if lx_token s = [] \<or> lx_token_has_quoted_or_escaped_content s
            \<or> \<not> list_all is_ascii_digit (lx_token s)
         then push_token_with_range (lx_index s) s
         else s\<lparr>lx_token := [], lx_token_start := None\<rparr>)
      in s'\<lparr>lx_token_has_quoted_or_escaped_content := False\<rparr>)"

section \<open>The arms of the loop\<close>

definition lex_single :: "rchar \<Rightarrow> lex_state \<Rightarrow> lex_state checked" where
  "lex_single c s =
     Inr ((if c = SQ then s\<lparr>lx_quote := QNone\<rparr> else s\<lparr>lx_token := lx_token s @ [c]\<rparr>)
            \<lparr>lx_index := lx_index s + 1\<rparr>)"

definition lex_escape :: "rchar list \<Rightarrow> lex_state \<Rightarrow> lex_state checked" where
  "lex_escape chars s =
     (case lget chars (lx_index s + 1) of
        None \<Rightarrow> err ''command.malformed.trailing_escape''
      | Some nxt \<Rightarrow>
          Inr (s\<lparr>lx_token := (if nxt \<noteq> NL then lx_token s @ [nxt] else lx_token s),
                 lx_index := lx_index s + 2\<rparr>))"

definition lex_dollar_paren :: "rchar list \<Rightarrow> lex_state \<Rightarrow> lex_state checked" where
  "lex_dollar_paren chars s =
     rbind (extract_parenthesized_command chars (lx_index s + 2))
       (\<lambda>(embedded, next).
          Inr (s\<lparr>lx_embedded_commands := lx_embedded_commands s @ [embedded],
                 lx_token := lx_token s @ S ''$()'', lx_index := next\<rparr>))"

definition lex_backtick :: "rchar list \<Rightarrow> lex_state \<Rightarrow> lex_state checked" where
  "lex_backtick chars s =
     rbind (extract_backtick_command chars (lx_index s + 1))
       (\<lambda>(embedded, next).
          Inr (s\<lparr>lx_embedded_commands := lx_embedded_commands s @ [embedded],
                 lx_token := lx_token s @ [TICK, TICK], lx_index := next\<rparr>))"

definition lex_double :: "rchar list \<Rightarrow> rchar \<Rightarrow> lex_state \<Rightarrow> lex_state checked" where
  "lex_double chars c s =
     (if c = DQ then Inr (s\<lparr>lx_quote := QNone, lx_index := lx_index s + 1\<rparr>)
      else if c = BSL then lex_escape chars s
      else if c = Ch CHR ''$'' \<and> lget chars (lx_index s + 1) = Some (Ch CHR ''('') then
        lex_dollar_paren chars s
      else if c = TICK then lex_backtick chars s
      else Inr (s\<lparr>lx_token := lx_token s @ [c], lx_index := lx_index s + 1\<rparr>))"

definition lex_newline :: "rchar list \<Rightarrow> lex_state \<Rightarrow> lex_state checked" where
  "lex_newline chars s =
     (let s1 = end_word s in
      if lx_separator_state s1 = SepRequiresCommand then Inr (s1\<lparr>lx_index := lx_index s1 + 1\<rparr>)
      else
        let s2 = (if lx_tokens s1 \<noteq> [] then close_segment s1 else s1);
            s3 = s2\<lparr>lx_separator_state := SepNone, lx_index := lx_index s2 + 1\<rparr> in
        (case lx_pending_heredoc s3 of
           None \<Rightarrow> Inr s3
         | Some heredoc \<Rightarrow>
             rbind (consume_heredoc_body chars (lx_index s3) heredoc)
               (\<lambda>(next, ignored).
                  Inr (s3\<lparr>lx_pending_heredoc := None,
                          lx_ignored_policy_ranges := lx_ignored_policy_ranges s3 @ [ignored],
                          lx_index := next\<rparr>))))"

definition lex_heredoc_operator :: "rchar list \<Rightarrow> lex_state \<Rightarrow> lex_state checked" where
  "lex_heredoc_operator chars s =
     (if lget chars (lx_index s + 2) = Some (Ch CHR ''<'') then
        err ''command.unsupported.here_string''
      else if lx_pending_heredoc s \<noteq> None then err ''command.unsupported.multiple_heredoc''
      else
        let s1 = flush_redirection_word s in
        rbind (read_heredoc_delimiter chars (lx_index s + 2))
          (\<lambda>(heredoc, next).
             Inr (s1\<lparr>lx_pending_heredoc := Some heredoc, lx_segment_has_heredoc := True,
                     lx_index := next\<rparr>)))"

definition lex_output_redirection :: "rchar list \<Rightarrow> lex_state \<Rightarrow> lex_state checked" where
  "lex_output_redirection chars s =
     (let s1 = flush_redirection_word s;
          i1 = lx_index s + 1;
          i2 = (if lget chars i1 = Some (Ch CHR ''>'') then i1 + 1 else i1) in
      if lget chars i2 = Some (Ch CHR ''&'') then
        (case consume_fd_duplication chars (i2 + 1) of
           Some next \<Rightarrow> Inr (s1\<lparr>lx_index := next\<rparr>)
         | None \<Rightarrow> Inr (s1\<lparr>lx_index := i2 + 1, lx_write_redirection := True\<rparr>))
      else Inr (s1\<lparr>lx_index := i2, lx_write_redirection := True\<rparr>))"

definition skip_whitespace :: "rchar list \<Rightarrow> nat \<Rightarrow> nat" where
  "skip_whitespace chars i = i + length (takeWhile is_whitespace (drop i chars))"

definition lex_input_redirection :: "rchar list \<Rightarrow> lex_state \<Rightarrow> lex_state checked" where
  "lex_input_redirection chars s =
     (let s1 = flush_redirection_word s;
          read_write = (lget chars (lx_index s + 1) = Some (Ch CHR ''>''));
          target_start = skip_whitespace chars (lx_index s + (if read_write then 2 else 1)) in
      if lget chars target_start = Some (Ch CHR ''&'') then
        err ''command.unsupported.input_fd_duplication''
      else
        rbind (read_redirection_target chars target_start)
          (\<lambda>((target, dynamic), next).
             Inr (s1\<lparr>lx_input_redirections := lx_input_redirections s1 @
                       [\<lparr>redir_target = target, redir_dynamic = dynamic,
                         redir_target_range = (target_start, next),
                         redir_read_write = read_write\<rparr>],
                     lx_write_redirection := (lx_write_redirection s1 \<or> read_write),
                     lx_index := next\<rparr>)))"

definition lex_separator :: "rchar list \<Rightarrow> rchar \<Rightarrow> lex_state \<Rightarrow> lex_state checked" where
  "lex_separator chars c s =
     (if c = Ch CHR ''&'' \<and> lget chars (lx_index s + 1) \<noteq> Some (Ch CHR ''&'') then
        err ''command.unsupported.background_execution''
      else
        let s1 = end_word s in
        if lx_tokens s1 = [] then err ''command.malformed.empty_segment''
        else
          let s2 = close_segment s1;
              i1 = lx_index s + 1;
              i2 = (if lget chars i1 = Some c \<and> among c ''|&'' then i1 + 1 else i1) in
          Inr (s2\<lparr>lx_index := i2,
                  lx_separator_state :=
                    (if c = Ch CHR '';'' then SepComplete else SepRequiresCommand)\<rparr>))"

definition lex_unquoted :: "rchar list \<Rightarrow> rchar \<Rightarrow> lex_state \<Rightarrow> lex_state checked" where
  "lex_unquoted chars c s =
     (let following = lget chars (lx_index s + 1) in
      if c = NL then lex_newline chars s
      else if is_whitespace c then Inr ((end_word s)\<lparr>lx_index := lx_index s + 1\<rparr>)
      else if c = Ch CHR ''#'' \<and> lx_token s = [] \<and> \<not> lx_token_has_quoted_or_escaped_content s then
        Inr (s\<lparr>lx_index := line_end_from chars (lx_index s)\<rparr>)
      else if c = SQ \<or> c = DQ then
        Inr ((mark_token_start s)
              \<lparr>lx_token_has_quoted_or_escaped_content := True,
               lx_quote := (if c = SQ then QSingle else QDouble), lx_index := lx_index s + 1\<rparr>)
      else if c = BSL then
        lex_escape chars ((mark_token_start s)\<lparr>lx_token_has_quoted_or_escaped_content := True\<rparr>)
      else if c = Ch CHR ''$'' \<and> following = Some (Ch CHR ''('') then
        lex_dollar_paren chars (mark_token_start s)
      else if c = TICK then lex_backtick chars (mark_token_start s)
      else if among c ''()'' then err ''command.unsupported.shell_group''
      else if c = Ch CHR ''<'' \<and> following = Some (Ch CHR ''<'') then lex_heredoc_operator chars s
      else if among c ''<>'' \<and> following = Some (Ch CHR ''('') then
        err ''command.unsupported.process_substitution''
      else if c = Ch CHR ''>'' \<or> c = Ch CHR ''&'' \<and> following = Some (Ch CHR ''>'') then
        lex_output_redirection chars s
      else if c = Ch CHR ''<'' then lex_input_redirection chars s
      else if among c '';|&'' then lex_separator chars c s
      else
        Inr ((mark_token_start s)
              \<lparr>lx_separator_state := SepNone, lx_token := lx_token s @ [c],
               lx_index := lx_index s + 1\<rparr>))"

definition lex_step :: "rchar list \<Rightarrow> lex_state \<Rightarrow> lex_state checked" where
  "lex_step chars s =
     (let c = chars ! lx_index s in
      case lx_quote s of
        QSingle \<Rightarrow> lex_single c s
      | QDouble \<Rightarrow> lex_double chars c s
      | QNone \<Rightarrow> lex_unquoted chars c s)"

lemmas [lex_defs] =
  push_token_with_range_def end_word_def mark_token_start_def close_segment_def
  flush_redirection_word_def lex_single_def lex_escape_def lex_dollar_paren_def lex_backtick_def
  lex_double_def lex_newline_def lex_heredoc_operator_def lex_output_redirection_def
  lex_input_redirection_def lex_separator_def lex_unquoted_def

section \<open>Progress\<close>

lemma index_bookkeeping [simp]:
  "lx_index (push_token_with_range e s) = lx_index s" "lx_index (end_word s) = lx_index s"
  "lx_index (mark_token_start s) = lx_index s" "lx_index (close_segment s) = lx_index s"
  "lx_index (flush_redirection_word s) = lx_index s"
  by (simp_all add: push_token_with_range_def end_word_def mark_token_start_def close_segment_def
      flush_redirection_word_def Let_def)

text \<open>What a step promises about the index: it moves forward and stays inside the text.\<close>

definition advances :: "rchar list \<Rightarrow> lex_state \<Rightarrow> lex_state \<Rightarrow> bool" where
  "advances chars s t \<longleftrightarrow> lx_index s < lx_index t \<and> lx_index t \<le> length chars"

lemma skip_whitespace_bounds: "i \<le> length chars \<Longrightarrow> i \<le> skip_whitespace chars i \<and> skip_whitespace chars i \<le> length chars"
  by (simp add: skip_whitespace_def length_takeWhile_drop)

lemma line_end_from_progress:
  "i < length chars \<Longrightarrow> chars ! i \<noteq> NL \<Longrightarrow> i < line_end_from chars i \<and> line_end_from chars i \<le> length chars"
  using line_end_from_le [of i chars]
  by (simp add: line_end_from_def takeWhile_eq_Nil_iff hd_drop_conv_nth)

lemma advances_cong:
  "advances chars (mark_token_start s) t = advances chars s t"
  "advances chars (s\<lparr>lx_token_has_quoted_or_escaped_content := b\<rparr>) t = advances chars s t"
  by (simp_all add: advances_def)

lemma advances_escape: "lex_escape chars s = Inr t \<Longrightarrow> advances chars s t"
  by (auto simp: lex_escape_def advances_def split: option.splits)

lemma advances_dollar_paren:
  "lex_dollar_paren chars s = Inr t \<Longrightarrow> lget chars (lx_index s + 1) \<noteq> None \<Longrightarrow> advances chars s t"
  by (auto simp: lex_dollar_paren_def advances_def dest!: paren.scan_after_two)

lemma advances_backtick:
  "lex_backtick chars s = Inr t \<Longrightarrow> lx_index s < length chars \<Longrightarrow> advances chars s t"
  by (auto simp: lex_backtick_def advances_def dest!: backtick.scan_after_one)

lemma advances_newline:
  "lex_newline chars s = Inr t \<Longrightarrow> lx_index s < length chars \<Longrightarrow> advances chars s t"
  by (auto simp: lex_newline_def advances_def Let_def Suc_le_eq less_Suc_eq_le
      dest!: consume_heredoc_body_bounds split: if_splits option.splits)

lemma advances_heredoc_operator:
  "lex_heredoc_operator chars s = Inr t \<Longrightarrow> lget chars (lx_index s + 1) \<noteq> None \<Longrightarrow> advances chars s t"
  by (auto simp: lex_heredoc_operator_def advances_def Let_def
      dest!: heredoc.scan_after_two split: if_splits)

lemma advances_output_redirection:
  "lex_output_redirection chars s = Inr t \<Longrightarrow> lx_index s < length chars \<Longrightarrow> advances chars s t"
  by (auto simp: lex_output_redirection_def advances_def Let_def Suc_le_eq
      dest!: consume_fd_duplication_bounds split: if_splits option.splits)

lemma advances_input_redirection:
  assumes "lex_input_redirection chars s = Inr t" and "lx_index s < length chars"
  shows "advances chars s t"
proof -
  let ?rw = "lget chars (lx_index s + 1) = Some (Ch CHR ''>'')"
  let ?i = "lx_index s + (if ?rw then 2 else 1)"
  let ?j = "skip_whitespace chars ?i"
  from assms(2) have "?i \<le> length chars" by auto
  from skip_whitespace_bounds [OF this] have j: "lx_index s < ?j" "?j \<le> length chars" by auto
  from assms(1) obtain v n where "read_redirection_target chars ?j = Inr (v, n)" "lx_index t = n"
    by (auto simp: lex_input_redirection_def Let_def split: if_splits prod.splits)
  with target.scan_bounds [OF j(2)] j(1) show ?thesis
    by (force simp: advances_def)
qed

lemma advances_separator:
  "lex_separator chars c s = Inr t \<Longrightarrow> lx_index s < length chars \<Longrightarrow> advances chars s t"
  by (auto simp: lex_separator_def advances_def Let_def split: if_splits)

lemma advances_double:
  "lex_double chars c s = Inr t \<Longrightarrow> lx_index s < length chars \<Longrightarrow> advances chars s t"
  by (auto simp: lex_double_def intro: advances_escape advances_backtick
      dest!: advances_dollar_paren split: if_splits) (auto simp: advances_def)

text \<open>The arms of the unquoted state, as a case rule shared by the step proofs.\<close>

lemma lex_unquoted_cases [consumes 1, case_names
    newline blank comment open_quote escape dollar tick heredoc redirect_out redirect_in separator word_char]:
  assumes "lex_unquoted chars c s = Inr t"
  obtains
    "c = NL" "lex_newline chars s = Inr t"
  | "is_whitespace c" "t = (end_word s)\<lparr>lx_index := lx_index s + 1\<rparr>"
  | "c = Ch CHR ''#''" "lx_token s = []" "t = s\<lparr>lx_index := line_end_from chars (lx_index s)\<rparr>"
  | "t = (mark_token_start s)
           \<lparr>lx_token_has_quoted_or_escaped_content := True,
            lx_quote := (if c = SQ then QSingle else QDouble), lx_index := lx_index s + 1\<rparr>"
  | "lex_escape chars ((mark_token_start s)\<lparr>lx_token_has_quoted_or_escaped_content := True\<rparr>) = Inr t"
  | "lget chars (lx_index s + 1) \<noteq> None" "lex_dollar_paren chars (mark_token_start s) = Inr t"
  | "lex_backtick chars (mark_token_start s) = Inr t"
  | "lget chars (lx_index s + 1) = Some (Ch CHR ''<'')" "lex_heredoc_operator chars s = Inr t"
  | "lex_output_redirection chars s = Inr t"
  | "lex_input_redirection chars s = Inr t"
  | "lex_separator chars c s = Inr t"
  | "t = (mark_token_start s)
           \<lparr>lx_separator_state := SepNone, lx_token := lx_token s @ [c], lx_index := lx_index s + 1\<rparr>"
  using assms unfolding lex_unquoted_def Let_def
  apply (elim early_returnE conjE)
  subgoal by (rule that(1))
  subgoal by (erule that(2), erule Ok_eqD)
  subgoal by (erule (1) that(3), erule Ok_eqD)
  subgoal by (rule that(4), erule Ok_eqD)
  subgoal by (rule that(5))
  subgoal by (rule that(6), erule Some_not_NoneI)
  subgoal by (rule that(7))
  subgoal by (erule Err_not_OkE)
  subgoal by (rule that(8))
  subgoal by (erule Err_not_OkE)
  subgoal by (rule that(9))
  subgoal by (rule that(10))
  subgoal by (rule that(11))
  subgoal by (rule that(12), erule Ok_eqD)
  done

lemma advances_unquoted:
  assumes "lex_unquoted chars c s = Inr t" and i: "lx_index s < length chars" and c: "chars ! lx_index s = c"
  shows "advances chars s t"
  using assms(1)
proof (cases rule: lex_unquoted_cases)
  case comment
  with i c line_end_from_progress [OF i] show ?thesis by (simp add: advances_def)
next
  case escape
  with advances_escape show ?thesis by (fastforce simp: advances_cong)
next
  case dollar
  with advances_dollar_paren show ?thesis by (fastforce simp: advances_cong)
next
  case tick
  with i advances_backtick show ?thesis by (fastforce simp: advances_cong)
qed (use i advances_newline advances_heredoc_operator advances_output_redirection
      advances_input_redirection advances_separator in \<open>auto simp: advances_def\<close>)

lemma lex_step_advances:
  assumes "lex_step chars s = Inr t" and "lx_index s < length chars"
  shows "advances chars s t"
proof (cases "lx_quote s")
  case QNone
  with assms show ?thesis
    by (auto simp: lex_step_def Let_def intro: advances_unquoted)
next
  case QSingle
  with assms show ?thesis
    by (auto simp: lex_step_def Let_def lex_single_def advances_def)
next
  case QDouble
  with assms show ?thesis
    by (auto simp: lex_step_def Let_def intro: advances_double)
qed

section \<open>The loop\<close>

function lex_loop :: "rchar list \<Rightarrow> lex_state \<Rightarrow> lex_state checked" where
  "lex_loop chars s =
     (if lx_index s < length chars then rbind (lex_step chars s) (\<lambda>t. lex_loop chars t) else Inr s)"
  by pat_completeness auto
termination
  by (relation "measure (\<lambda>(chars, s). length chars - lx_index s)")
    (auto dest!: lex_step_advances simp: advances_def)

declare lex_loop.simps [simp del]

definition lex_finish :: "rchar list \<Rightarrow> lex_state \<Rightarrow> lexed_command checked" where
  "lex_finish chars s =
     (if lx_pending_heredoc s \<noteq> None then
        err ''command.malformed.heredoc_header_newline_missing''
      else if lx_quote s \<noteq> QNone then err ''command.malformed.unclosed_quote''
      else
        let s1 = push_token_with_range (length chars) s in
        if lx_separator_state s1 \<noteq> SepNone \<and> lx_tokens s1 = [] then
          err ''command.malformed.trailing_operator''
        else
          let segments =
                (if lx_tokens s1 \<noteq> [] then lx_segments s1 @ [current_segment s1]
                 else lx_segments s1) in
          if segments = [] then err ''command.malformed.empty''
          else
            Inr \<lparr>lexed_segments = segments, lexed_embedded_commands = lx_embedded_commands s1,
                 lexed_ignored_policy_ranges = lx_ignored_policy_ranges s1\<rparr>)"

definition lex_command :: "rstring \<Rightarrow> lexed_command checked" where
  "lex_command command = rbind (lex_loop command lex_init) (lex_finish command)"

end
