(* ===== verification/Command_Policy.thy ===== *)
theory Command_Policy
  imports Command_Segment Command_Lexer
begin

text \<open>
  The policy of \<open>src/crates/core/src/command/policy.rs\<close>: canonical command text, the independent scan
  of write-redirection targets, the bounded recursive analysis and the decision. This is the build
  for Unix; the Windows build of \<open>evaluate_command_policy_at\<close> denies every command.
\<close>

section \<open>Canonical text\<close>

text \<open>\<open>replace("\r\n", "\n")\<close>.\<close>

fun replace_crlf :: "rstring \<Rightarrow> rstring" where
  "replace_crlf [] = []"
| "replace_crlf [c] = [c]"
| "replace_crlf (c # d # s) =
     (if c = CR \<and> d = NL then NL # replace_crlf s else c # replace_crlf (d # s))"

definition normalize_command_text :: "rstring \<Rightarrow> rstring checked" where
  "normalize_command_text command =
     (let normalized = replace_char CR NL (replace_crlf command) in
      if str_trim normalized = [] then err ''command.malformed.empty''
      else if MAX_COMMAND_CHARS < length normalized then err ''command.malformed.too_long''
      else if list_ex (\<lambda>c. c = Ch (CHR 0x00)) normalized then err ''command.malformed.nul''
      else Inr normalized)"

section \<open>Write redirections\<close>

definition check_target_at :: "rchar list \<Rightarrow> nat \<Rightarrow> nat checked" where
  "check_target_at chars index =
     rbind (read_redirection_target chars (skip_whitespace chars index)) (\<lambda>((target, dynamic), next).
       if dynamic then err ''command.unsupported.dynamic_redirection_target''
       else if is_catastrophic_write_target target then err ''command.catastrophic.storage_device''
       else Inr next)"

text \<open>The branch for an unquoted \<open>>\<close> at \<open>index\<close>: the index after its target.\<close>

definition check_write_redirection :: "rchar list \<Rightarrow> nat \<Rightarrow> nat checked" where
  "check_write_redirection chars index =
     (let i = (if lget chars (index + 1) = Some (Ch CHR ''>'') then index + 2 else index + 1) in
      if lget chars i = Some (Ch CHR ''&'') then
        (case consume_fd_duplication chars (i + 1) of
           Some next \<Rightarrow> Inr next
         | None \<Rightarrow> check_target_at chars (i + 1))
      else check_target_at chars i)"

lemma check_target_at_advances: "check_target_at chars i = Inr n \<Longrightarrow> i < n \<and> n \<le> length chars"
proof -
  assume "check_target_at chars i = Inr n"
  then obtain v where read: "read_redirection_target chars (skip_whitespace chars i) = Inr (v, n)"
    by (auto simp: check_target_at_def split: if_splits prod.splits)
  then have "skip_whitespace chars i \<le> length chars"
    by (auto simp: read_redirection_target_def split: option.splits)
  with read target.scan_bounds target.scan_progress have
    "skip_whitespace chars i < n \<and> n \<le> length chars" by blast
  then show ?thesis by (auto simp: skip_whitespace_def)
qed

lemma check_write_redirection_advances:
  "check_write_redirection chars i = Inr n \<Longrightarrow> i < n \<and> n \<le> length chars"
  by (auto simp: check_write_redirection_def Let_def split: if_splits option.splits
      dest!: check_target_at_advances consume_fd_duplication_bounds)

definition find_range :: "range list \<Rightarrow> nat \<Rightarrow> range option" where
  "find_range ranges index = find (\<lambda>r. range_contains r index) ranges"

lemma find_range_advances: "find_range ranges i = Some r \<Longrightarrow> i < snd r"
  by (auto simp: find_range_def find_Some_iff range_contains_def)

function validate_from ::
  "rchar list \<Rightarrow> range list \<Rightarrow> rchar option \<Rightarrow> bool \<Rightarrow> nat \<Rightarrow> unit checked" where
  "validate_from chars ignored_ranges quote escaped index =
     (if length chars \<le> index then Inr ()
      else
        (case find_range ignored_ranges index of
           Some r \<Rightarrow> validate_from chars ignored_ranges quote escaped (snd r)
         | None \<Rightarrow>
             let character = chars ! index in
             if escaped then validate_from chars ignored_ranges quote False (index + 1)
             else if character = BSL \<and> quote \<noteq> Some SQ then
               validate_from chars ignored_ranges quote True (index + 1)
             else if quote \<noteq> None then
               validate_from chars ignored_ranges (if quote = Some character then None else quote) False
                 (index + 1)
             else if character = SQ \<or> character = DQ then
               validate_from chars ignored_ranges (Some character) False (index + 1)
             else if character \<noteq> Ch CHR ''>'' then
               validate_from chars ignored_ranges None False (index + 1)
             else
               rbind (check_write_redirection chars index) (\<lambda>next.
                 validate_from chars ignored_ranges None False next)))"
  by pat_completeness auto
termination
  by (relation "measure (\<lambda>(chars, _, _, _, index). length chars - index)")
    (auto dest!: find_range_advances check_write_redirection_advances)

declare validate_from.simps [simp del]

definition validate_write_redirection_targets :: "rstring \<Rightarrow> range list \<Rightarrow> unit checked" where
  "validate_write_redirection_targets command ignored_ranges =
     validate_from command ignored_ranges None False 0"

section \<open>Analysis\<close>

definition assess_segments ::
  "rstring option \<Rightarrow> analyzer \<Rightarrow> agent_read_permission \<Rightarrow> rstring option \<Rightarrow> shell_segment list
   \<Rightarrow> command_policy_finding list checked" where
  "assess_segments home analyze read_permission cwd segments =
     try_fold (\<lambda>findings (segment_index, segment).
       assess_segment home analyze segment segment_index read_permission cwd findings)
       [] (enumerate 0 segments)"

definition analyze_embedded ::
  "analyzer \<Rightarrow> command_policy_finding list \<Rightarrow> rstring list \<Rightarrow> command_policy_finding list checked" where
  "analyze_embedded analyze findings embedded_commands =
     try_fold (\<lambda>findings embedded.
       rbind (analyze embedded) (\<lambda>nested. Inr (extend_nested findings nested)))
       findings embedded_commands"

definition analyze_body ::
  "rstring option \<Rightarrow> analyzer \<Rightarrow> agent_read_permission \<Rightarrow> rstring option \<Rightarrow> analyzer" where
  "analyze_body home analyze read_permission cwd raw_command =
     rbind (normalize_command_text raw_command) (\<lambda>command.
       rbind (lex_command command) (\<lambda>lexed.
         rbind (validate_write_redirection_targets command (lexed_ignored_policy_ranges lexed)) (\<lambda>_.
           rbind (assess_segments home analyze read_permission cwd (lexed_segments lexed)) (\<lambda>findings.
             analyze_embedded analyze findings (lexed_embedded_commands lexed)))))"

function analyze_command ::
  "rstring option \<Rightarrow> rstring \<Rightarrow> agent_read_permission \<Rightarrow> rstring option \<Rightarrow> nat
   \<Rightarrow> command_policy_finding list checked" where
  "analyze_command home command read_permission cwd depth =
     (if MAX_POLICY_NESTING < depth then err ''command.unsupported.nesting_limit''
      else
        analyze_body home (\<lambda>nested. analyze_command home nested read_permission cwd (depth + 1))
          read_permission cwd command)"
  by pat_completeness auto
termination
  by (relation "measure (\<lambda>(_, _, _, _, depth). Suc MAX_POLICY_NESTING - depth)")
    (auto simp: MAX_POLICY_NESTING_def)

declare analyze_command.simps [simp del]

section \<open>Decision\<close>

fun requires_explicit_approval :: "command_risk_class \<Rightarrow> bool" where
  "requires_explicit_approval DirectWrite = True"
| "requires_explicit_approval Network = True"
| "requires_explicit_approval PackageManagement = True"
| "requires_explicit_approval HighImpact = True"
| "requires_explicit_approval Unknown = True"
| "requires_explicit_approval ExternalRead = True"
| "requires_explicit_approval _ = False"

fun always_denied :: "command_risk_class \<Rightarrow> bool" where
  "always_denied Catastrophic = True"
| "always_denied Unsupported = True"
| "always_denied _ = False"

definition denied_syntax :: "command_syntax_error \<Rightarrow> command_policy_evaluation" where
  "denied_syntax e =
     \<lparr>ev_decision = Deny, ev_code = err_code e, ev_risk_level = LevelUnknown,
      ev_findings = [finding 0 [] Unsupported (err_code e)]\<rparr>"

definition scope_findings ::
  "agent_permissions \<Rightarrow> rstring option \<Rightarrow> rstring option \<Rightarrow> command_policy_finding list" where
  "scope_findings permissions workspace_root cwd =
     (if pm_read permissions = ReadWorkspaceOnly
         \<and> is_some_and cwd (\<lambda>d. is_none_or workspace_root (\<lambda>root. \<not> path_starts_with d root))
      then [finding 0 (S ''<cwd>'') ExternalRead ''command.scope.external_cwd''] else [])"

definition decide ::
  "agent_permissions \<Rightarrow> command_authorization_source \<Rightarrow> command_policy_finding list
   \<Rightarrow> command_policy_evaluation" where
  "decide permissions authorization_source findings =
     (let risk_level = aggregate_risk_level findings in
      case find (\<lambda>f. always_denied (fd_risk f)) findings of
        Some f \<Rightarrow>
          \<lparr>ev_decision = Deny, ev_code = fd_code f, ev_risk_level = risk_level, ev_findings = findings\<rparr>
      | None \<Rightarrow>
          if pm_command_safety permissions = Guarded \<and> authorization_source = Automatic
             \<and> filter (\<lambda>f. requires_explicit_approval (fd_risk f)) findings \<noteq> []
          then
            \<lparr>ev_decision = RequireExplicitApproval, ev_code = ''command.explicit_approval_required'',
             ev_risk_level = risk_level, ev_findings = findings\<rparr>
          else
            \<lparr>ev_decision = Allow, ev_code = ''command.allowed'', ev_risk_level = risk_level,
             ev_findings = findings\<rparr>)"

definition evaluate_command_policy_at ::
  "rstring option \<Rightarrow> rstring \<Rightarrow> agent_permissions \<Rightarrow> command_authorization_source \<Rightarrow> rstring option
   \<Rightarrow> rstring option \<Rightarrow> command_policy_evaluation" where
  "evaluate_command_policy_at home command permissions authorization_source workspace_root cwd =
     (case analyze_command home command (pm_read permissions) cwd 0 of
        Inl e \<Rightarrow> denied_syntax e
      | Inr findings \<Rightarrow>
          decide permissions authorization_source
            (findings @ scope_findings permissions workspace_root cwd))"

definition evaluate_command_policy ::
  "rstring option \<Rightarrow> rstring \<Rightarrow> agent_command_safety_policy \<Rightarrow> command_authorization_source
   \<Rightarrow> command_policy_evaluation" where
  "evaluate_command_policy home command safety_policy authorization_source =
     evaluate_command_policy_at home command
       (default_permissions\<lparr>pm_read := ReadAll, pm_command_safety := safety_policy\<rparr>)
       authorization_source None None"

definition evaluate_command_policy_with_permissions ::
  "rstring option \<Rightarrow> rstring \<Rightarrow> agent_permissions \<Rightarrow> command_authorization_source
   \<Rightarrow> command_policy_evaluation" where
  "evaluate_command_policy_with_permissions home command permissions authorization_source =
     evaluate_command_policy_at home command permissions authorization_source None None"

definition evaluate_command_policy_with_context ::
  "rstring option \<Rightarrow> rstring \<Rightarrow> agent_permissions \<Rightarrow> command_authorization_source \<Rightarrow> rstring option
   \<Rightarrow> rstring option \<Rightarrow> command_policy_evaluation" where
  "evaluate_command_policy_with_context home command permissions authorization_source workspace_root
     cwd =
     evaluate_command_policy_at home command permissions authorization_source workspace_root cwd"

definition classify_command_risk :: "rstring option \<Rightarrow> rstring \<Rightarrow> agent_command_risk_level" where
  "classify_command_risk home command =
     ev_risk_level (evaluate_command_policy home command FullAccess Automatic)"

end
