(* ===== verification/Command_Risk_Props.thy ===== *)
theory Command_Risk_Props
  imports Command_Risk
begin

text \<open>
  What a classification means: the stages of \<open>classify_segment\<close> produce disjoint sets of classes, and
  a read-only or safe-workspace class is reached only through the allow lists.
\<close>

section \<open>Stages and classes\<close>

lemma classify_denied_class:
  "classify_denied home tokens program cwd = Some r \<Longrightarrow> fst r = Catastrophic \<or> fst r = Unsupported"
  unfolding classify_denied_def by (elim early_returnE; auto)

lemma classify_helper_reads_class:
  "classify_helper_reads tokens program = Some r \<Longrightarrow> fst r = Unknown \<or> fst r = DirectWrite"
  unfolding classify_helper_reads_def by (elim early_returnE; auto)

lemma classify_ordinary_class:
  "fst (classify_ordinary tokens program) \<in>
     {PackageManagement, Network, HighImpact, DirectWrite, SafeWorkspaceWrite, ReadOnly, Unknown}"
  by (simp add: classify_ordinary_def)

text \<open>The class of the result, by the stage that produced it.\<close>

lemma classify_segment_class:
  shows "classify_denied home tokens program cwd \<noteq> None \<Longrightarrow>
      fst (classify_segment home tokens program cwd) \<in> {Catastrophic, Unsupported}"
    and "classify_denied home tokens program cwd = None \<Longrightarrow>
      fst (classify_segment home tokens program cwd) \<in>
        {PackageManagement, Network, HighImpact, DirectWrite, SafeWorkspaceWrite, ReadOnly, Unknown}"
proof -
  assume "classify_denied home tokens program cwd \<noteq> None"
  then obtain r where "classify_denied home tokens program cwd = Some r" by blast
  with classify_denied_class [OF this] show "fst (classify_segment home tokens program cwd) \<in> {Catastrophic, Unsupported}"
    by (simp add: classify_segment_def)
next
  assume none: "classify_denied home tokens program cwd = None"
  show "fst (classify_segment home tokens program cwd) \<in>
        {PackageManagement, Network, HighImpact, DirectWrite, SafeWorkspaceWrite, ReadOnly, Unknown}"
  proof (cases "classify_helper_reads tokens program")
    case None
    with none classify_ordinary_class [of tokens program] show ?thesis by (simp add: classify_segment_def)
  next
    case (Some r)
    with none classify_helper_reads_class [OF Some] show ?thesis by (auto simp: classify_segment_def)
  qed
qed

lemma classify_segment_not_external: "fst (classify_segment home tokens program cwd) \<noteq> ExternalRead"
  using classify_segment_class [of home tokens program cwd]
  by (cases "classify_denied home tokens program cwd = None") auto

text \<open>A class is denied exactly when the first stage decided.\<close>

lemma classify_segment_denied_iff:
  "fst (classify_segment home tokens program cwd) \<in> {Catastrophic, Unsupported} \<longleftrightarrow>
   classify_denied home tokens program cwd \<noteq> None"
  using classify_segment_class [of home tokens program cwd]
  by (cases "classify_denied home tokens program cwd = None") auto

section \<open>Reaching the allow lists\<close>

lemma classify_ordinary_ReadOnlyD:
  assumes "fst (classify_ordinary tokens program) = ReadOnly"
  shows "is_known_read_only tokens program" "\<not> is_package_management tokens program"
    "\<not> is_network_command tokens program" "\<not> is_high_impact_command tokens program"
    "\<not> is_direct_write_command tokens program" "\<not> is_safe_workspace_task tokens program"
  using assms by (simp_all add: classify_ordinary_def split: if_splits)

lemma classify_ordinary_SafeD:
  assumes "fst (classify_ordinary tokens program) = SafeWorkspaceWrite"
  shows "is_safe_workspace_task tokens program" "\<not> is_package_management tokens program"
    "\<not> is_network_command tokens program" "\<not> is_high_impact_command tokens program"
    "\<not> is_direct_write_command tokens program"
  using assms by (simp_all add: classify_ordinary_def split: if_splits)

lemma classify_automaticD:
  assumes "fst (classify_segment home tokens program cwd) \<in> {ReadOnly, SafeWorkspaceWrite}"
  shows "classify_denied home tokens program cwd = None" "classify_helper_reads tokens program = None"
    "classify_segment home tokens program cwd = classify_ordinary tokens program"
proof -
  show d: "classify_denied home tokens program cwd = None"
    using classify_segment_class(1) [of home tokens program cwd] assms by fastforce
  show h: "classify_helper_reads tokens program = None"
  proof (rule ccontr)
    assume "classify_helper_reads tokens program \<noteq> None"
    then obtain r where r: "classify_helper_reads tokens program = Some r" by blast
    with d assms classify_helper_reads_class [OF r] show False by (auto simp: classify_segment_def)
  qed
  from d h show "classify_segment home tokens program cwd = classify_ordinary tokens program"
    by (simp add: classify_segment_def)
qed

lemma safe_task_is_task: "is_safe_workspace_task tokens program \<Longrightarrow> is_workspace_task tokens program"
  unfolding is_safe_workspace_task_def is_workspace_task_def Let_def
  by (elim early_returnE [of _ _ _ True, simplified]) (auto simp del: one_of_Cons split: if_splits)

lemma helper_reads_none_task:
  assumes "classify_helper_reads tokens program = None" "is_workspace_task tokens program"
  shows "\<not> has_workspace_task_boundary_override tokens program" "is_safe_workspace_task tokens program"
  using assms unfolding classify_helper_reads_def by (auto simp del: one_of_Cons split: if_splits)

text \<open>The names that the two allow lists know.\<close>

definition read_only_programs :: "string list" where
  "read_only_programs =
     [''pwd'', ''ls'', ''rg'', ''grep'', ''cat'', ''head'', ''tail'', ''wc'', ''stat'', ''file'',
      ''which'', ''whereis'', ''type'', ''du'', ''df'', ''printf'', ''echo'', ''true'', ''false'',
      ''uname'', ''date'', ''sort'', ''cut'', ''jq'', ''find'', ''git'', ''pip'', ''pip3'', ''cargo'']"

definition task_programs :: "string list" where
  "task_programs = [''cargo'', ''npm'', ''pnpm'', ''yarn'', ''bun'', ''make'']"

lemma known_read_only_program: "is_known_read_only tokens program \<Longrightarrow> one_of program read_only_programs"
  by (rule ccontr) (simp add: is_known_read_only_def read_only_programs_def)

lemma safe_task_program: "is_safe_workspace_task tokens program \<Longrightarrow> one_of program task_programs"
  unfolding is_safe_workspace_task_def task_programs_def Let_def by (auto split: if_split_asm)

section \<open>The closed option grammar\<close>

text \<open>
  The language that \<open>matches_closed_cli_grammar\<close> accepts, as a grammar: a sequence of operands, known
  long flags, known value options with their value attached or following, clusters of known short
  flags and short value options; after \<open>--\<close> everything is an operand.
\<close>

inductive cli_grammar ::
  "string list \<Rightarrow> string list \<Rightarrow> string \<Rightarrow> string \<Rightarrow> bool \<Rightarrow> rstring list \<Rightarrow> bool"
  for flags vals short short_vals where
  empty: "cli_grammar flags vals short short_vals ended []"
| rest: "cli_grammar flags vals short short_vals True ts \<Longrightarrow>
    cli_grammar flags vals short short_vals True (t # ts)"
| operand: "t = S ''-'' \<or> \<not> has_dash t \<Longrightarrow> cli_grammar flags vals short short_vals False ts \<Longrightarrow>
    cli_grammar flags vals short short_vals False (t # ts)"
| separator: "cli_grammar flags vals short short_vals True ts \<Longrightarrow>
    cli_grammar flags vals short short_vals False (S ''--'' # ts)"
| long_flag: "one_of t flags \<Longrightarrow> has_double_dash t \<Longrightarrow> t \<noteq> S ''--'' \<Longrightarrow>
    cli_grammar flags vals short short_vals False ts \<Longrightarrow>
    cli_grammar flags vals short short_vals False (t # ts)"
| long_attached: "one_of name vals \<Longrightarrow> Ch CHR ''='' \<notin> set name \<Longrightarrow> v \<noteq> [] \<Longrightarrow>
    t = name @ Ch CHR ''='' # v \<Longrightarrow> \<not> one_of t flags \<Longrightarrow> has_double_dash t \<Longrightarrow>
    cli_grammar flags vals short short_vals False ts \<Longrightarrow>
    cli_grammar flags vals short short_vals False (t # ts)"
| long_value: "one_of t vals \<Longrightarrow> \<not> one_of t flags \<Longrightarrow> Ch CHR ''='' \<notin> set t \<Longrightarrow> has_double_dash t \<Longrightarrow>
    t \<noteq> S ''--'' \<Longrightarrow> cli_grammar flags vals short short_vals False ts \<Longrightarrow>
    cli_grammar flags vals short short_vals False (t # v # ts)"
| short_value: "among c short_vals \<Longrightarrow> c \<noteq> Ch CHR ''-'' \<Longrightarrow>
    cli_grammar flags vals short short_vals False ts \<Longrightarrow>
    cli_grammar flags vals short short_vals False ([Ch CHR ''-'', c] # v # ts)"
| short_attached: "among c short_vals \<Longrightarrow> c \<noteq> Ch CHR ''-'' \<Longrightarrow> v \<noteq> [] \<Longrightarrow>
    cli_grammar flags vals short short_vals False ts \<Longrightarrow>
    cli_grammar flags vals short short_vals False ((Ch CHR ''-'' # c # v) # ts)"
| short_cluster: "\<not> among c short_vals \<Longrightarrow> c \<noteq> Ch CHR ''-'' \<Longrightarrow>
    list_all (\<lambda>c. among c short) (c # cs) \<Longrightarrow>
    cli_grammar flags vals short short_vals False ts \<Longrightarrow>
    cli_grammar flags vals short short_vals False ((Ch CHR ''-'' # c # cs) # ts)"

inductive_cases cli_grammar_ConsE: "cli_grammar flags vals short short_vals ended (t # ts)"

lemma split_once_Some_iff: "split_once d s = Some (a, b) \<longleftrightarrow> s = a @ d # b \<and> d \<notin> set a"
proof (induction s arbitrary: a)
  case (Cons c s)
  show ?case by (cases a) (auto simp: Cons.IH)
qed simp

lemma split_once_None_iff: "split_once d s = None \<longleftrightarrow> d \<notin> set s"
  by (induction s) auto

lemma has_dash_Cons: "has_dash t \<longleftrightarrow> (\<exists>u. t = Ch CHR ''-'' # u)"
  by (cases t) (auto simp: has_dash_def S_def)

lemma has_double_dash_Cons: "has_double_dash t \<longleftrightarrow> (\<exists>u. t = Ch CHR ''-'' # Ch CHR ''-'' # u)"
  by (cases t; cases "tl t") (auto simp: has_double_dash_def S_def)

lemma double_dashD: "has_double_dash t \<Longrightarrow> has_dash t \<and> t \<noteq> S ''-''"
  by (auto simp: has_dash_Cons has_double_dash_Cons S_def)

lemma cli_grammar_closed_cli:
  "cli_grammar flags vals short short_vals ended ts \<Longrightarrow> closed_cli flags vals short short_vals ended ts"
proof (induction rule: cli_grammar.induct)
  case (long_attached name v t ts)
  have "split_once (Ch CHR ''='') t = Some (name, v)"
    using long_attached.hyps by (simp add: split_once_Some_iff)
  with long_attached show ?case by (auto simp: S_def)
next
  case (long_value t ts v)
  then have "split_once (Ch CHR ''='') t = None" by (simp add: split_once_None_iff)
  with long_value double_dashD [of t] show ?case by simp
qed (auto simp: has_dash_Cons has_double_dash_Cons S_def)

lemma closed_cli_cli_grammar:
  "closed_cli flags vals short short_vals ended ts \<Longrightarrow> cli_grammar flags vals short short_vals ended ts"
proof (induction "length ts" arbitrary: ts ended rule: less_induct)
  case less
  note accepted = less.prems
  have next1: "cli_grammar flags vals short short_vals e rest"
    if "ts = t # rest" "closed_cli flags vals short short_vals e rest" for t e rest
    using less.hyps [of rest e] that by simp
  have next2: "cli_grammar flags vals short short_vals e rest"
    if "ts = t # v # rest" "closed_cli flags vals short short_vals e rest" for t v e rest
    using less.hyps [of rest e] that by simp
  show ?case
  proof (cases ts)
    case Nil
    then show ?thesis by (simp add: cli_grammar.empty)
  next
    case (Cons t rest)
    consider (ended) "ended" | (operand) "\<not> ended" "t = S ''-'' \<or> \<not> has_dash t"
      | (separator) "\<not> ended" "t = S ''--''"
      | (long) "\<not> ended" "has_double_dash t" "t \<noteq> S ''--''"
      | (short) c cs where "\<not> ended" "t = Ch CHR ''-'' # c # cs" "c \<noteq> Ch CHR ''-''"
      by (cases t; cases "tl t") (auto simp: has_dash_Cons has_double_dash_Cons S_def)
    then show ?thesis
    proof cases
      case ended
      with accepted Cons next1 [OF Cons, of True] show ?thesis by (simp add: cli_grammar.rest)
    next
      case operand
      with accepted Cons next1 [OF Cons, of False] show ?thesis by (auto intro: cli_grammar.operand)
    next
      case separator
      with accepted Cons next1 [OF Cons, of True] show ?thesis
        by (auto simp: has_dash_Cons S_def intro: cli_grammar.separator [unfolded S_def, simplified])
    next
      case long
      then have t: "t \<noteq> S ''-''" "has_dash t" by (auto dest: double_dashD)
      show ?thesis
      proof (cases "one_of t flags")
        case True
        with long t accepted Cons next1 [OF Cons, of False] show ?thesis
          by (auto intro: cli_grammar.long_flag)
      next
        case False
        show ?thesis
        proof (cases "split_once (Ch CHR ''='') t")
          case None
          with long t False accepted Cons obtain v rest' where "rest = v # rest'" "one_of t vals"
            "closed_cli flags vals short short_vals False rest'"
            by (auto split: list.split_asm)
          with long t False None Cons next2 [of t v rest' False] show ?thesis
            by (auto simp: split_once_None_iff intro: cli_grammar.long_value)
        next
          case (Some nv)
          with long t False accepted Cons next1 [OF Cons, of False] show ?thesis
            by (auto simp: split_once_Some_iff split: prod.split_asm intro: cli_grammar.long_attached)
        qed
      qed
    next
      case short
      then have t: "t \<noteq> S ''-''" "has_dash t" "t \<noteq> S ''--''" "\<not> has_double_dash t"
        by (auto simp: has_dash_Cons has_double_dash_Cons S_def)
      show ?thesis
      proof (cases "among c short_vals")
        case True
        with short t accepted Cons next1 [OF Cons, of False] next2 [of t _ _ False] show ?thesis
          by (cases cs; cases rest) (auto intro: cli_grammar.short_value cli_grammar.short_attached)
      next
        case False
        with short t accepted Cons next1 [OF Cons, of False] show ?thesis
          by (auto intro: cli_grammar.short_cluster)
      qed
    qed
  qed
qed

section \<open>Properties\<close>

text \<open>
  The hand-written option loop accepts exactly the closed grammar, for every table of options: no
  token that starts with a dash passes unless the table names it, it is the value of a value option,
  or it follows \<open>--\<close>.
\<close>

theorem closed_cli_grammar_iff:
  "matches_closed_cli_grammar tokens start flags vals short short_vals \<longleftrightarrow>
     cli_grammar flags vals short short_vals False (drop start tokens)"
  unfolding matches_closed_cli_grammar_def
  using cli_grammar_closed_cli closed_cli_cli_grammar by blast

lemma git_read_only_subcommand:
  "is_read_only_git tokens \<Longrightarrow>
     is_some_and (lget tokens 1)
       (\<lambda>sub. one_of (to_ascii_lowercase sub) [''--version'', ''version'', ''remote'', ''branch''])"
  by (auto simp: is_read_only_git_def Let_def simp del: lget_eq_Some_iff split: option.split_asm if_split_asm)

text \<open>
  A segment that is classified read-only runs a program of the allow list and uses none of the
  actions by which those programs write files or start other programs: \<open>find\<close> neither deletes,
  executes nor prints to a file, \<open>git\<close> runs a query subcommand, \<open>sort\<close> names no output file, temporary
  directory or compressor, \<open>rg\<close> starts no preprocessor.
\<close>

theorem read_only_runs_no_writer:
  assumes "fst (classify_segment home tokens program cwd) = ReadOnly"
  shows "one_of program read_only_programs
    \<and> (program = S ''find'' \<longrightarrow> list_all (\<lambda>token. \<not> one_of token
           [''-delete'', ''-exec'', ''-execdir'', ''-ok'', ''-okdir'', ''-fprint'', ''-fprint0'',
            ''-fprintf'', ''-fls'']) tokens)
    \<and> (program = S ''git'' \<longrightarrow> is_some_and (lget tokens 1)
           (\<lambda>sub. one_of (to_ascii_lowercase sub) [''--version'', ''version'', ''remote'', ''branch'']))
    \<and> (program = S ''sort'' \<longrightarrow> sort_output_targets tokens = []
           \<and> \<not> sort_uses_explicit_temp_storage tokens \<and> \<not> spawns_sort_compressor tokens program)
    \<and> (program = S ''rg'' \<longrightarrow> \<not> spawns_rg_helper tokens program)"
proof -
  have auto: "fst (classify_segment home tokens program cwd) \<in> {ReadOnly, SafeWorkspaceWrite}"
    using assms by simp
  note stages = classify_automaticD [OF auto]
  have ordinary: "fst (classify_ordinary tokens program) = ReadOnly" using assms stages(3) by simp
  note facts = classify_ordinary_ReadOnlyD [OF ordinary]
  from stages(1) have none: "\<not> spawns_find_exec tokens program" "\<not> spawns_rg_helper tokens program"
    "\<not> spawns_sort_compressor tokens program"
    unfolding classify_denied_def by (auto simp del: one_of_Cons split: if_splits)
  have find: "list_all (\<lambda>token. \<not> one_of token
           [''-delete'', ''-exec'', ''-execdir'', ''-ok'', ''-okdir'', ''-fprint'', ''-fprint0'',
            ''-fprintf'', ''-fls'']) tokens" if "program = S ''find''"
    using that none(1) facts(4,5)
    by (auto simp: spawns_find_exec_def is_high_impact_command_def is_direct_write_command_def
        list_all_iff list_ex_iff)
  have git: "is_read_only_git tokens" if "program = S ''git''"
    using that facts(5) by (simp add: is_direct_write_command_def)
  have sort: "sort_output_targets tokens = [] \<and> \<not> sort_uses_explicit_temp_storage tokens"
    if "program = S ''sort''"
    using that facts(5) by (simp add: is_direct_write_command_def)
  from known_read_only_program [OF facts(1)] find git_read_only_subcommand [OF git] sort none
  show ?thesis by blast
qed

theorem read_only_runs_no_writer_witness:
  "one_of (S ''find'') read_only_programs \<and>
   list_all (\<lambda>token. \<not> one_of token
      [''-delete'', ''-exec'', ''-execdir'', ''-ok'', ''-okdir'', ''-fprint'', ''-fprint0'',
       ''-fprintf'', ''-fls'']) [S ''find'', S ''src'', S ''-name'', S ''*.rs'']"
proof -
  have "fst (classify_segment None [S ''find'', S ''src'', S ''-name'', S ''*.rs''] (S ''find'') None)
      = ReadOnly" by code_simp
  from read_only_runs_no_writer [OF this] show ?thesis by simp
qed

text \<open>
  A segment that is classified as a safe workspace write runs \<open>cargo\<close>, a JavaScript package
  runner or \<open>make\<close> on a conventional task, and none of its arguments moves the task to another
  manifest, configuration, directory or script shell.
\<close>

theorem safe_workspace_write_is_closed_task:
  assumes "fst (classify_segment home tokens program cwd) = SafeWorkspaceWrite"
  shows "one_of program task_programs \<and> is_workspace_task tokens program
    \<and> \<not> has_workspace_task_boundary_override tokens program
    \<and> (if program = S ''cargo''
       then cli_grammar cargo_task_flags cargo_task_values ''qv'' ''pj'' False (drop 2 tokens)
       else length tokens \<le> 3)"
proof -
  have auto: "fst (classify_segment home tokens program cwd) \<in> {ReadOnly, SafeWorkspaceWrite}"
    using assms by simp
  note stages = classify_automaticD [OF auto]
  have "fst (classify_ordinary tokens program) = SafeWorkspaceWrite" using assms stages(3) by simp
  then have safe: "is_safe_workspace_task tokens program" by (rule classify_ordinary_SafeD)
  from safe_task_is_task [OF safe] have task: "is_workspace_task tokens program" .
  have cargo: "cli_grammar cargo_task_flags cargo_task_values ''qv'' ''pj'' False (drop 2 tokens)"
    if "program = S ''cargo''"
    using that safe
    by (auto simp: is_safe_workspace_task_def matches_closed_cli_grammar_def Let_def
        intro: closed_cli_cli_grammar)
  have scripts: "length tokens \<le> 3" if "program \<noteq> S ''cargo''"
    using that safe by (auto simp: is_safe_workspace_task_def Let_def split: if_split_asm)
  from safe_task_program [OF safe] task helper_reads_none_task(1) [OF stages(2) task] cargo scripts
  show ?thesis by simp
qed

theorem safe_workspace_write_is_closed_task_witness:
  "is_workspace_task [S ''cargo'', S ''test'', S ''--lib''] (S ''cargo'') \<and>
   cli_grammar cargo_task_flags cargo_task_values ''qv'' ''pj'' False [S ''--lib'']"
proof -
  have "fst (classify_segment None [S ''cargo'', S ''test'', S ''--lib''] (S ''cargo'') None)
      = SafeWorkspaceWrite" by code_simp
  from safe_workspace_write_is_closed_task [OF this] show ?thesis by simp
qed

end
