(* ===== verification/Command_Findings.thy ===== *)
theory Command_Findings
  imports Command_Policy Command_Risk_Props
begin

text \<open>
  What the analysis collects, without the bookkeeping of segment indices. A finding's key is its
  program, risk and code; the order of decisions and every decision reads only keys. The locale
  \<open>finding_appender\<close> is the contract of every function of \<open>command/segment.rs\<close> and
  \<open>command/policy.rs\<close> that pushes onto \<open>&mut findings\<close>; its interpretations below show that the whole
  analysis refines the index-free specification \<open>spec_command\<close>.
\<close>

section \<open>Keys\<close>

type_synonym key = "rstring \<times> command_risk_class \<times> string"

definition finding_key :: "command_policy_finding \<Rightarrow> key" where
  "finding_key f = (fd_program f, fd_risk f, fd_code f)"

abbreviation key_risk :: "key \<Rightarrow> command_risk_class" where
  "key_risk k \<equiv> fst (snd k)"

definition keys :: "command_policy_finding list \<Rightarrow> key list" where
  "keys fs = map finding_key fs"

definition keyed :: "command_policy_finding list checked \<Rightarrow> key list checked" where
  "keyed r = map_sum id keys r"

text \<open>Sequential composition of two key results: the first error wins, the keys concatenate.\<close>

definition and_then :: "key list checked \<Rightarrow> key list checked \<Rightarrow> key list checked" where
  "and_then a b = rbind a (\<lambda>x. rbind b (\<lambda>y. Inr (x @ y)))"

fun sequence :: "key list checked list \<Rightarrow> key list checked" where
  "sequence [] = Inr []"
| "sequence (r # rs) = and_then r (sequence rs)"

lemma keys_simps [simp]:
  "keys [] = []" "keys (f # fs) = finding_key f # keys fs" "keys (fs @ gs) = keys fs @ keys gs"
  by (simp_all add: keys_def)

lemma finding_key_finding [simp]: "finding_key (finding i p r c) = (p, r, c)"
  by (simp add: finding_key_def)

lemma keys_shift [simp]: "keys (shift_findings n fs) = keys fs"
  by (simp add: keys_def shift_findings_def finding_key_def)

lemma keys_extend_nested [simp]: "keys (extend_nested fs ns) = keys fs @ keys ns"
  by (simp add: extend_nested_def)

lemma risk_of_keys: "fd_risk ` set fs = key_risk ` set (keys fs)"
  by (force simp: keys_def finding_key_def)

lemma keyed_simps [simp]: "keyed (Inl e) = Inl e" "keyed (Inr fs) = Inr (keys fs)"
  by (simp_all add: keyed_def)

lemma keyed_eq_Inl_iff [simp]: "keyed r = Inl e \<longleftrightarrow> r = Inl e"
  by (cases r) auto

lemma keyed_eq_Inr_iff: "keyed r = Inr ks \<longleftrightarrow> (\<exists>fs. r = Inr fs \<and> keys fs = ks)"
  by (cases r) auto

lemma and_then_simps [simp]:
  "and_then (Inl e) r = Inl e" "and_then (Inr []) r = r" "and_then r (Inr []) = r"
  "and_then (Inr x) (Inr y) = Inr (x @ y)" "and_then (Inr x) (Inl e) = Inl e"
  by (cases r; simp add: and_then_def)+

lemma and_then_assoc: "and_then (and_then a b) c = and_then a (and_then b c)"
  by (cases a; cases b; cases c) (auto simp: and_then_def)

lemma and_then_Inr_Inr: "and_then (Inr x) (and_then (Inr y) r) = and_then (Inr (x @ y)) r"
  by (simp flip: and_then_assoc)

lemma and_then_eq_Inr_iff: "and_then a b = Inr z \<longleftrightarrow> (\<exists>x y. a = Inr x \<and> b = Inr y \<and> z = x @ y)"
  by (auto simp: and_then_def)

lemma sequence_member:
  "sequence rs = Inr ks \<Longrightarrow> r \<in> set rs \<Longrightarrow> \<exists>k. r = Inr k \<and> set k \<subseteq> set ks"
  by (induction rs arbitrary: ks) (fastforce simp: and_then_eq_Inr_iff)+

lemma sequence_set:
  "sequence rs = Inr ks \<Longrightarrow> set ks = (\<Union>r \<in> set rs. case r of Inl _ \<Rightarrow> {} | Inr k \<Rightarrow> set k)"
  by (induction rs arbitrary: ks) (auto simp: and_then_eq_Inr_iff)

section \<open>The contract of a function that pushes findings\<close>

locale finding_appender =
  fixes app :: "'x \<Rightarrow> command_policy_finding list \<Rightarrow> command_policy_finding list checked"
  assumes keyed_app: "keyed (app x fs) = and_then (Inr (keys fs)) (keyed (app x []))"
begin

text \<open>A loop over such a function collects the keys of its iterations in order.\<close>

lemma keyed_loop:
  "keyed (try_fold (\<lambda>fs x. app x fs) fs xs) =
     and_then (Inr (keys fs)) (sequence (map (\<lambda>x. keyed (app x [])) xs))"
proof (induction xs arbitrary: fs)
  case (Cons x xs)
  have step: "keyed (app x fs) = and_then (Inr (keys fs)) (keyed (app x []))" by (rule keyed_app)
  show ?case
  proof (cases "app x fs")
    case (Inl e)
    with step show ?thesis by (cases "app x []") auto
  next
    case (Inr gs)
    with step obtain new where new: "app x [] = Inr new" and gs: "keys gs = keys fs @ keys new"
      by (cases "app x []") auto
    with Inr Cons.IH [of gs] show ?thesis by (simp add: and_then_Inr_Inr)
  qed
qed simp

lemma app_Inl_iff: "app x fs = Inl e \<longleftrightarrow> app x [] = Inl e"
  using keyed_app [of x fs] by (cases "app x fs"; cases "app x []") auto

end

section \<open>The parts that push\<close>

definition redirection_keys ::
  "rstring \<Rightarrow> agent_read_permission \<Rightarrow> shell_segment \<Rightarrow> key list" where
  "redirection_keys program read_permission segment =
     keys (append_redirection_findings segment 0 program read_permission [])"

lemma keys_redirection_findings:
  "keys (redirection_findings i program rp r) = keys (redirection_findings 0 program rp r)"
  by (simp add: redirection_findings_def)

lemma keys_concat_map: "keys (concat (map f xs)) = concat (map (\<lambda>x. keys (f x)) xs)"
  by (induction xs) simp_all

lemma keys_append_redirection [simp]:
  "keys (append_redirection_findings segment i program rp fs) =
     keys fs @ redirection_keys program rp segment"
  by (simp add: append_redirection_findings_def redirection_keys_def keys_concat_map
      keys_redirection_findings [of i])

definition script_keys :: "rstring option \<Rightarrow> rstring \<Rightarrow> key list" where
  "script_keys script program = keys (append_shell_script_finding script 0 program [])"

lemma keys_append_shell_script [simp]:
  "keys (append_shell_script_finding script i program fs) = keys fs @ script_keys script program"
  by (simp add: append_shell_script_finding_def script_keys_def split: option.split)

definition provenance_keys :: "shell_segment \<Rightarrow> effective_prog \<Rightarrow> rstring \<Rightarrow> key list" where
  "provenance_keys segment ep program =
     keys (append_invocation_provenance_findings segment 0 ep program [])"

lemma keys_append_provenance [simp]:
  "keys (append_invocation_provenance_findings segment i ep program fs) =
     keys fs @ provenance_keys segment ep program"
  by (simp add: append_invocation_provenance_findings_def provenance_keys_def Let_def)

definition option_keys :: "rstring list \<Rightarrow> nat \<Rightarrow> rstring \<Rightarrow> key list" where
  "option_keys tokens command_index program =
     keys (shell_option_findings tokens command_index 0 program)"

lemma keys_shell_option [simp]:
  "keys (shell_option_findings tokens ci i program) = option_keys tokens ci program"
  by (simp add: shell_option_findings_def option_keys_def)

definition simple_keys ::
  "rstring option \<Rightarrow> shell_segment \<Rightarrow> agent_read_permission \<Rightarrow> rstring option \<Rightarrow> rstring list
   \<Rightarrow> rstring \<Rightarrow> key list" where
  "simple_keys home segment read_permission cwd tokens program =
     keys (assess_simple home segment 0 read_permission cwd tokens program [])"

lemma keys_assess_simple [simp]:
  "keys (assess_simple home segment i rp cwd tokens program fs) =
     keys fs @ simple_keys home segment rp cwd tokens program"
  by (simp add: assess_simple_def simple_keys_def split: prod.split)

section \<open>The index-free specification\<close>

type_synonym spec_analyzer = "rstring \<Rightarrow> key list checked"

definition spec_env_split ::
  "spec_analyzer \<Rightarrow> shell_segment \<Rightarrow> agent_read_permission \<Rightarrow> rstring \<Rightarrow> key list checked" where
  "spec_env_split analyze segment read_permission split_command =
     rbind (ok_or (effective_program (seg_tokens segment))
              (CommandSyntaxError ''command.malformed.missing_program'')) (\<lambda>ep.
       if any_executable is_dynamic_program_name segment ep then
         Inr [(S ''env'', Unsupported, ''command.unsupported.dynamic_program'')]
       else
         and_then
           (Inr (if any_executable is_explicit_program_path segment ep
                 then [(S ''env'', Unknown, ''command.risk.explicit_program_path'')] else []))
           (and_then (analyze split_command)
             (Inr ((S ''env'', Unknown, ''command.risk.environment_override'')
                   # redirection_keys (S ''env'') read_permission segment))))"

definition spec_shell_command ::
  "spec_analyzer \<Rightarrow> shell_segment \<Rightarrow> agent_read_permission \<Rightarrow> rstring list \<Rightarrow> rstring \<Rightarrow> nat
   \<Rightarrow> key list checked" where
  "spec_shell_command analyze segment read_permission tokens program command_index =
     (if list_ex shell_option_is_interactive (drop 1 (take command_index tokens)) then
        Inr [(program, Unsupported, ''command.unsupported.interactive'')]
      else
        rbind (ok_or (lget tokens command_index)
                 (CommandSyntaxError ''command.malformed.shell_command_missing'')) (\<lambda>nested_command.
          and_then (Inr (option_keys tokens command_index program))
            (and_then (analyze nested_command)
              (Inr ((if program = S ''fish'' \<and> lget tokens (command_index - 1) = Some (S ''-C'')
                     then script_keys (lget tokens (command_index + 1)) program else [])
                    @ redirection_keys program read_permission segment)))))"

definition spec_shell ::
  "spec_analyzer \<Rightarrow> shell_segment \<Rightarrow> agent_read_permission \<Rightarrow> rstring list \<Rightarrow> rstring
   \<Rightarrow> key list checked" where
  "spec_shell analyze segment read_permission tokens program =
     (case shell_command_argument_index tokens of
        Some command_index \<Rightarrow>
          spec_shell_command analyze segment read_permission tokens program command_index
      | None \<Rightarrow>
          (case shell_script_argument tokens of
             Some script \<Rightarrow>
               Inr (script_keys (Some script) program @ redirection_keys program read_permission segment)
           | None \<Rightarrow> Inr [(program, Unsupported, ''command.unsupported.opaque_shell'')]))"

definition spec_program ::
  "rstring option \<Rightarrow> spec_analyzer \<Rightarrow> agent_read_permission \<Rightarrow> rstring option \<Rightarrow> shell_segment
   \<Rightarrow> effective_prog \<Rightarrow> key list checked" where
  "spec_program home analyze read_permission cwd segment ep =
     (let tokens = drop (ep_index ep) (seg_tokens segment);
          program = program_basename (tokens ! 0) in
      if seg_has_heredoc segment \<and> is_shell_program program then
        Inr [(program, Unsupported, ''command.unsupported.shell_heredoc'')]
      else if seg_has_heredoc segment \<and> one_of program [''python'', ''python3'', ''node''] then
        Inr ((program, Unknown, ''command.risk.heredoc_interpreter'')
             # redirection_keys program read_permission segment)
      else if is_shell_reserved_program program then
        Inr [(program, Unsupported, ''command.unsupported.shell_reserved_syntax'')]
      else if any_executable is_dynamic_program_name segment ep then
        Inr [(program, Unsupported, ''command.unsupported.dynamic_program'')]
      else
        and_then (Inr (provenance_keys segment ep program))
          (if is_shell_program program then spec_shell analyze segment read_permission tokens program
           else Inr (simple_keys home segment read_permission cwd tokens program)))"

definition spec_segment ::
  "rstring option \<Rightarrow> spec_analyzer \<Rightarrow> agent_read_permission \<Rightarrow> rstring option \<Rightarrow> shell_segment
   \<Rightarrow> key list checked" where
  "spec_segment home analyze read_permission cwd segment =
     rbind (env_split_command (seg_tokens segment)) (\<lambda>split.
       case split of
         Some split_command \<Rightarrow> spec_env_split analyze segment read_permission split_command
       | None \<Rightarrow>
           (case effective_program (seg_tokens segment) of
              None \<Rightarrow> err ''command.malformed.missing_program''
            | Some ep \<Rightarrow> spec_program home analyze read_permission cwd segment ep))"

definition spec_body ::
  "rstring option \<Rightarrow> spec_analyzer \<Rightarrow> agent_read_permission \<Rightarrow> rstring option \<Rightarrow> spec_analyzer" where
  "spec_body home analyze read_permission cwd raw_command =
     rbind (normalize_command_text raw_command) (\<lambda>command.
       rbind (lex_command command) (\<lambda>lexed.
         rbind (validate_write_redirection_targets command (lexed_ignored_policy_ranges lexed)) (\<lambda>_.
           and_then
             (sequence (map (spec_segment home analyze read_permission cwd) (lexed_segments lexed)))
             (sequence (map analyze (lexed_embedded_commands lexed))))))"

text \<open>\<open>spec_command n\<close> allows \<open>n\<close> levels of nesting.\<close>

fun spec_command ::
  "nat \<Rightarrow> rstring option \<Rightarrow> agent_read_permission \<Rightarrow> rstring option \<Rightarrow> spec_analyzer" where
  "spec_command 0 home read_permission cwd command = err ''command.unsupported.nesting_limit''"
| "spec_command (Suc n) home read_permission cwd command =
     spec_body home (spec_command n home read_permission cwd) read_permission cwd command"

section \<open>Refinement\<close>

lemma keyed_env_split:
  "keyed (assess_env_split analyze segment i rp command fs) =
     and_then (Inr (keys fs)) (spec_env_split (\<lambda>c. keyed (analyze c)) segment rp command)"
  by (cases "effective_program (seg_tokens segment)"; cases "analyze command")
    (simp_all add: assess_env_split_def spec_env_split_def)

lemma keyed_shell_command:
  "keyed (assess_shell_command analyze segment i rp tokens program ci fs) =
     and_then (Inr (keys fs)) (spec_shell_command (\<lambda>c. keyed (analyze c)) segment rp tokens program ci)"
  by (cases "lget tokens ci"; cases "analyze (the (lget tokens ci))")
    (simp_all add: assess_shell_command_def spec_shell_command_def Let_def del: lget_eq_Some_iff lget_eq_None_iff)

lemma keyed_shell:
  "keyed (assess_shell analyze segment i rp tokens program fs) =
     and_then (Inr (keys fs)) (spec_shell (\<lambda>c. keyed (analyze c)) segment rp tokens program)"
  by (simp add: assess_shell_def spec_shell_def keyed_shell_command split: option.split)

lemma keyed_program:
  "keyed (assess_program home analyze segment i rp cwd ep fs) =
     and_then (Inr (keys fs)) (spec_program home (\<lambda>c. keyed (analyze c)) rp cwd segment ep)"
  by (simp add: assess_program_def spec_program_def keyed_shell Let_def and_then_Inr_Inr
      del: one_of_Cons)

lemma keyed_segment:
  "keyed (assess_segment home analyze segment i rp cwd fs) =
     and_then (Inr (keys fs)) (spec_segment home (\<lambda>c. keyed (analyze c)) rp cwd segment)"
  by (cases "env_split_command (seg_tokens segment)")
    (simp_all add: assess_segment_def spec_segment_def keyed_env_split keyed_program split: option.split)

text \<open>The two loops of \<open>analyze_command\<close> satisfy the contract.\<close>

interpretation segment_loop: finding_appender
  "\<lambda>(i, segment). assess_segment home analyze segment i rp cwd" for home analyze rp cwd
  by unfold_locales (simp add: keyed_segment split: prod.split)

interpretation embedded_loop: finding_appender
  "\<lambda>embedded fs. rbind (analyze embedded) (\<lambda>nested. Inr (extend_nested fs nested))" for analyze
proof
  fix x fs
  show "keyed (rbind (analyze x) (\<lambda>nested. Inr (extend_nested fs nested))) =
      and_then (Inr (keys fs)) (keyed (rbind (analyze x) (\<lambda>nested. Inr (extend_nested [] nested))))"
    by (cases "analyze x") simp_all
qed

lemma keyed_assess_segments:
  "keyed (assess_segments home analyze rp cwd segments) =
     sequence (map (spec_segment home (\<lambda>c. keyed (analyze c)) rp cwd) segments)"
proof -
  have "map (\<lambda>x. keyed ((case x of (i, segment) \<Rightarrow> assess_segment home analyze segment i rp cwd) []))
      (enumerate n segments) = map (spec_segment home (\<lambda>c. keyed (analyze c)) rp cwd) segments" for n
    by (induction segments arbitrary: n) (simp_all add: keyed_segment)
  then show ?thesis
    using segment_loop.keyed_loop [of home analyze rp cwd "[]" "enumerate 0 segments"]
    by (simp add: assess_segments_def case_prod_beta')
qed

lemma keyed_analyze_embedded:
  "keyed (analyze_embedded analyze fs es) =
     and_then (Inr (keys fs)) (sequence (map (\<lambda>e. keyed (analyze e)) es))"
proof -
  have "keyed (rbind (analyze e) (\<lambda>nested. Inr (extend_nested [] nested))) = keyed (analyze e)" for e
    by (cases "analyze e") simp_all
  then show ?thesis
    using embedded_loop.keyed_loop [of analyze fs es] by (simp add: analyze_embedded_def)
qed

lemma keyed_analyze_body:
  "keyed (analyze_body home analyze rp cwd command) =
     spec_body home (\<lambda>c. keyed (analyze c)) rp cwd command"
proof (cases "normalize_command_text command")
  case norm: (Inr body)
  show ?thesis
  proof (cases "lex_command body")
    case lexed: (Inr lx)
    show ?thesis
    proof (cases "validate_write_redirection_targets body (lexed_ignored_policy_ranges lx)")
      case (Inr u)
      let ?segments = "assess_segments home analyze rp cwd (lexed_segments lx)"
      have "keyed (rbind ?segments (\<lambda>fs. analyze_embedded analyze fs (lexed_embedded_commands lx))) =
          and_then (keyed ?segments)
            (sequence (map (\<lambda>e. keyed (analyze e)) (lexed_embedded_commands lx)))"
        by (cases ?segments) (simp_all add: keyed_analyze_embedded)
      with norm lexed Inr show ?thesis
        by (simp add: analyze_body_def spec_body_def keyed_assess_segments)
    qed (simp add: analyze_body_def spec_body_def norm lexed)
  qed (simp add: analyze_body_def spec_body_def norm)
qed (simp add: analyze_body_def spec_body_def)

lemma keyed_analyze_command_depth:
  "keyed (analyze_command home command rp cwd depth) =
     spec_command (Suc MAX_POLICY_NESTING - depth) home rp cwd command"
proof (induction "Suc MAX_POLICY_NESTING - depth" arbitrary: depth command)
  case 0
  then show ?case by (simp add: analyze_command.simps [of home command rp cwd depth])
next
  case (Suc n)
  then have "\<not> MAX_POLICY_NESTING < depth" and n: "n = Suc MAX_POLICY_NESTING - (depth + 1)" by auto
  then have "keyed (analyze_command home command rp cwd depth) =
      spec_body home (\<lambda>c. keyed (analyze_command home c rp cwd (depth + 1))) rp cwd command"
    by (simp add: analyze_command.simps [of home command rp cwd depth] keyed_analyze_body)
  also have "\<dots> = spec_command (Suc n) home rp cwd command"
    using Suc.hyps(1) [OF n] n by simp
  finally show ?case using Suc.hyps(2) by simp
qed

end
