(* ===== verification/Command_Decisions.thy ===== *)
theory Command_Decisions
  imports Command_Findings
begin

text \<open>
  Properties of the decision: how it depends on the findings, on the permissions and on the
  authorization source, and what a command that is allowed without a human has been checked for.
\<close>

section \<open>The order of decisions\<close>

text \<open>From the most to the least restrictive outcome.\<close>

fun decision_rank :: "command_policy_decision \<Rightarrow> nat" where
  "decision_rank Deny = 0"
| "decision_rank RequireExplicitApproval = 1"
| "decision_rank Allow = 2"

instantiation command_policy_decision :: linorder
begin

definition less_eq_command_policy_decision :: "command_policy_decision \<Rightarrow> command_policy_decision \<Rightarrow> bool" where
  "less_eq_command_policy_decision a b = (decision_rank a \<le> decision_rank b)"

definition less_command_policy_decision :: "command_policy_decision \<Rightarrow> command_policy_decision \<Rightarrow> bool" where
  "less_command_policy_decision a b = (decision_rank a < decision_rank b)"

instance
proof
  fix a b :: command_policy_decision
  show "a \<le> b \<Longrightarrow> b \<le> a \<Longrightarrow> a = b"
    by (cases a; cases b) (simp_all add: less_eq_command_policy_decision_def)
qed (auto simp: less_eq_command_policy_decision_def less_command_policy_decision_def)

end

lemma Deny_le [simp]: "Deny \<le> d"
  by (simp add: less_eq_command_policy_decision_def)

lemma le_Allow [simp]: "d \<le> Allow"
  by (cases d) (simp_all add: less_eq_command_policy_decision_def)

section \<open>Deciding\<close>

text \<open>The risks of a result decide; \<open>verdict\<close> is the decision as a function of their set.\<close>

definition verdict ::
  "agent_command_safety_policy \<Rightarrow> command_authorization_source \<Rightarrow> command_risk_class set
   \<Rightarrow> command_policy_decision" where
  "verdict safety source risks =
     (if \<exists>r \<in> risks. always_denied r then Deny
      else if safety = Guarded \<and> source = Automatic \<and> (\<exists>r \<in> risks. requires_explicit_approval r)
      then RequireExplicitApproval else Allow)"

lemma ev_decision_decide:
  "ev_decision (decide permissions source fs) =
     verdict (pm_command_safety permissions) source (fd_risk ` set fs)"
proof (cases "find (\<lambda>f. always_denied (fd_risk f)) fs")
  case None
  then have "\<not> (\<exists>r \<in> fd_risk ` set fs. always_denied r)" by (auto simp: find_None_iff)
  with None show ?thesis by (auto simp: decide_def verdict_def Let_def filter_empty_conv)
next
  case (Some f)
  then have "f \<in> set fs \<and> always_denied (fd_risk f)" by (auto simp: find_Some_iff)
  then have "\<exists>r \<in> fd_risk ` set fs. always_denied r" by blast
  with Some show ?thesis by (simp add: decide_def verdict_def Let_def)
qed

lemma ev_findings_decide [simp]: "ev_findings (decide permissions source fs) = fs"
  by (simp add: decide_def Let_def split: option.split)

text \<open>The decision of a whole command, over the index-free specification.\<close>

lemma ev_decision_spec:
  "ev_decision (evaluate_command_policy_at home command permissions source root cwd) =
     (case spec_command (Suc MAX_POLICY_NESTING) home (pm_read permissions) cwd command of
        Inl e \<Rightarrow> Deny
      | Inr ks \<Rightarrow>
          verdict (pm_command_safety permissions) source
            (key_risk ` set ks \<union> fd_risk ` set (scope_findings permissions root cwd)))"
proof (cases "analyze_command home command (pm_read permissions) cwd 0")
  case (Inl e)
  with keyed_analyze_command_depth [of home command "pm_read permissions" cwd 0]
  have "spec_command (Suc MAX_POLICY_NESTING) home (pm_read permissions) cwd command = Inl e"
    by (simp del: spec_command.simps)
  with Inl show ?thesis
    by (simp add: evaluate_command_policy_at_def denied_syntax_def del: spec_command.simps)
next
  case (Inr fs)
  with keyed_analyze_command_depth [of home command "pm_read permissions" cwd 0]
  have "spec_command (Suc MAX_POLICY_NESTING) home (pm_read permissions) cwd command = Inr (keys fs)"
    by (simp del: spec_command.simps)
  with Inr show ?thesis
    by (simp only: evaluate_command_policy_at_def ev_decision_decide sum.case set_append image_Un
        risk_of_keys)
qed

lemma verdict_mono:
  assumes "safety = FullAccess \<longrightarrow> safety' = FullAccess" and "source = ExplicitUser \<longrightarrow> source' = ExplicitUser"
    and "risks' \<subseteq> risks"
  shows "verdict safety source risks \<le> verdict safety' source' risks'"
proof (cases "\<exists>r \<in> risks. always_denied r")
  case False
  with assms(3) have no: "\<not> (\<exists>r \<in> risks'. always_denied r)" by blast
  show ?thesis
  proof (cases "verdict safety' source' risks' = Allow")
    case False
    with no have "safety' = Guarded" "source' = Automatic" "\<exists>r \<in> risks'. requires_explicit_approval r"
      by (auto simp: verdict_def split: if_splits)
    with assms have "verdict safety source risks = verdict safety' source' risks'"
      using no \<open>\<not> (\<exists>r \<in> risks. always_denied r)\<close>
      by (cases safety; cases source) (auto simp: verdict_def)
    then show ?thesis by simp
  qed simp
qed (simp add: verdict_def)

section \<open>The read scope\<close>

text \<open>Widening the read scope removes the external-read findings and changes nothing else.\<close>

definition drop_external :: "key list checked \<Rightarrow> key list checked" where
  "drop_external r = map_sum id (filter (\<lambda>k. key_risk k \<noteq> ExternalRead)) r"

lemma drop_external_simps [simp]:
  "drop_external (Inl e) = Inl e"
  "drop_external (Inr ks) = Inr (filter (\<lambda>k. key_risk k \<noteq> ExternalRead) ks)"
  by (simp_all add: drop_external_def)

lemma drop_external_and_then [simp]:
  "drop_external (and_then a b) = and_then (drop_external a) (drop_external b)"
  by (cases a; cases b) simp_all

lemma drop_external_sequence: "drop_external (sequence rs) = sequence (map drop_external rs)"
  by (induction rs) simp_all

lemma drop_external_rbind: "drop_external (rbind m f) = rbind m (\<lambda>x. drop_external (f x))"
  by (cases m) simp_all

definition internal :: "key list \<Rightarrow> bool" where
  "internal ks = list_all (\<lambda>k. key_risk k \<noteq> ExternalRead) ks"

lemma filter_internal [simp]: "internal ks \<Longrightarrow> filter (\<lambda>k. key_risk k \<noteq> ExternalRead) ks = ks"
  by (simp add: internal_def list_all_iff)

lemma internal_parts [simp]:
  "internal (script_keys script program)" "internal (provenance_keys segment ep program)"
  "internal (option_keys tokens ci program)"
  by (simp_all add: internal_def script_keys_def append_shell_script_finding_def provenance_keys_def
      append_invocation_provenance_findings_def option_keys_def shell_option_findings_def Let_def
      split: option.split)

lemma filter_concat_map: "filter P (concat (map f xs)) = concat (map (\<lambda>x. filter P (f x)) xs)"
  by (induction xs) simp_all

lemma redirection_keys_scope:
  "filter (\<lambda>k. key_risk k \<noteq> ExternalRead) (redirection_keys program ReadWorkspaceOnly segment) =
     redirection_keys program ReadAll segment"
  by (simp add: redirection_keys_def append_redirection_findings_def keys_concat_map
      filter_concat_map redirection_findings_def cong: map_cong)

lemma simple_keys_scope:
  "filter (\<lambda>k. key_risk k \<noteq> ExternalRead) (simple_keys home segment ReadWorkspaceOnly cwd tokens program) =
     simple_keys home segment ReadAll cwd tokens program"
  using classify_segment_not_external [of home tokens program cwd]
  by (auto simp: simple_keys_def assess_simple_def redirection_keys_scope split: prod.split)

text \<open>
  Two analyzers of nested text that differ by the read scope only. The segment assessment and the
  body of the analysis hand the relation on.
\<close>

locale read_scope_projection =
  fixes narrow wide :: spec_analyzer
  assumes drop_external_narrow: "drop_external (narrow c) = wide c"
begin

lemma env_split_scope:
  "drop_external (spec_env_split narrow segment ReadWorkspaceOnly c) = spec_env_split wide segment ReadAll c"
  by (simp add: spec_env_split_def drop_external_rbind drop_external_narrow redirection_keys_scope
      if_distrib [of drop_external] cong: if_cong)

lemma shell_command_scope:
  "drop_external (spec_shell_command narrow segment ReadWorkspaceOnly tokens program ci) =
     spec_shell_command wide segment ReadAll tokens program ci"
  by (simp add: spec_shell_command_def drop_external_rbind drop_external_narrow redirection_keys_scope)

lemma shell_scope:
  "drop_external (spec_shell narrow segment ReadWorkspaceOnly tokens program) =
     spec_shell wide segment ReadAll tokens program"
  by (simp add: spec_shell_def shell_command_scope redirection_keys_scope split: option.split)

lemma program_scope:
  "drop_external (spec_program home narrow ReadWorkspaceOnly cwd segment ep) =
     spec_program home wide ReadAll cwd segment ep"
  by (simp add: spec_program_def Let_def shell_scope redirection_keys_scope simple_keys_scope
      del: one_of_Cons)

lemma segment_scope:
  "drop_external (spec_segment home narrow ReadWorkspaceOnly cwd segment) =
     spec_segment home wide ReadAll cwd segment"
  by (cases "env_split_command (seg_tokens segment)")
    (simp_all add: spec_segment_def env_split_scope program_scope split: option.split)

lemma body_scope:
  "drop_external (spec_body home narrow ReadWorkspaceOnly cwd c) = spec_body home wide ReadAll cwd c"
  by (simp add: spec_body_def drop_external_rbind drop_external_sequence segment_scope
      drop_external_narrow comp_def)

end

lemma spec_command_scope:
  "read_scope_projection (spec_command n home ReadWorkspaceOnly cwd) (spec_command n home ReadAll cwd)"
proof (induction n)
  case 0
  show ?case by unfold_locales simp
next
  case (Suc n)
  then show ?case
    by (intro read_scope_projection.intro) (simp add: read_scope_projection.body_scope)
qed

interpretation scope: read_scope_projection
  "spec_command n home ReadWorkspaceOnly cwd" "spec_command n home ReadAll cwd" for n home cwd
  by (rule spec_command_scope)

lemma scope_findings_risk: "fd_risk ` set (scope_findings permissions root cwd) \<subseteq> {ExternalRead}"
  by (auto simp: scope_findings_def)

lemma scope_findings_read:
  "pm_read p = pm_read q \<Longrightarrow> scope_findings p root cwd = scope_findings q root cwd"
  "pm_read p = ReadAll \<Longrightarrow> scope_findings p root cwd = []"
  by (simp_all add: scope_findings_def)

text \<open>The read permission changes the risks of a command by external reads only.\<close>

definition internal_risks :: "key list checked \<Rightarrow> command_risk_class set checked" where
  "internal_risks r = map_sum id (\<lambda>ks. key_risk ` set ks - {ExternalRead}) r"

lemma internal_risks_simps [simp]:
  "internal_risks (Inl e) = Inl e" "internal_risks (Inr ks) = Inr (key_risk ` set ks - {ExternalRead})"
  by (simp_all add: internal_risks_def)

lemma internal_risks_drop_external [simp]: "internal_risks (drop_external r) = internal_risks r"
  by (cases r) auto

lemma spec_command_read:
  "internal_risks (spec_command n home rp cwd c) = internal_risks (spec_command n home ReadAll cwd c)"
proof (cases rp)
  case ReadWorkspaceOnly
  show ?thesis
    unfolding ReadWorkspaceOnly scope.drop_external_narrow [symmetric] by simp
qed simp

text \<open>A decision is a denial exactly when the analysis fails or finds a risk that is always denied.\<close>

definition denied :: "key list checked \<Rightarrow> bool" where
  "denied r = (case internal_risks r of Inl _ \<Rightarrow> True | Inr risks \<Rightarrow> \<exists>x \<in> risks. always_denied x)"

lemma verdict_Deny_iff: "verdict safety source risks = Deny \<longleftrightarrow> (\<exists>r \<in> risks. always_denied r)"
  by (simp add: verdict_def)

lemma ev_decision_Deny_iff:
  "ev_decision (evaluate_command_policy_at home command permissions source root cwd) = Deny \<longleftrightarrow>
   denied (spec_command (Suc MAX_POLICY_NESTING) home (pm_read permissions) cwd command)"
  using scope_findings_risk [of permissions root cwd]
  by (cases "spec_command (Suc MAX_POLICY_NESTING) home (pm_read permissions) cwd command")
    (fastforce simp: ev_decision_spec denied_def verdict_Deny_iff simp del: spec_command.simps)+

lemma decision_mono:
  assumes "perm_le p q" and "source = ExplicitUser \<longrightarrow> source' = ExplicitUser"
  shows "ev_decision (evaluate_command_policy_at home command p source root cwd) \<le>
         ev_decision (evaluate_command_policy_at home command q source' root cwd)"
proof -
  let ?spec = "\<lambda>rp. spec_command (Suc MAX_POLICY_NESTING) home rp cwd command"
  have safety: "pm_command_safety p = FullAccess \<longrightarrow> pm_command_safety q = FullAccess"
    using assms(1) by (simp add: perm_le_def)
  note mono = verdict_mono [OF safety assms(2)]
  show ?thesis
  proof (cases "pm_read p = pm_read q")
    case True
    with mono scope_findings_read(1) [OF True, of root cwd] show ?thesis
      by (cases "?spec (pm_read q)") (simp_all add: ev_decision_spec del: spec_command.simps)
  next
    case False
    moreover have "pm_read p \<le> pm_read q" using assms(1) by (simp add: perm_le_def)
    ultimately have read: "pm_read p = ReadWorkspaceOnly" "pm_read q = ReadAll"
      by (cases "pm_read p"; cases "pm_read q"; simp add: less_eq_agent_read_permission_def)+
    have wide: "drop_external (?spec ReadWorkspaceOnly) = ?spec ReadAll"
      by (rule scope.drop_external_narrow)
    show ?thesis
    proof (cases "?spec ReadWorkspaceOnly")
      case (Inl e)
      then show ?thesis by (simp add: ev_decision_spec read del: spec_command.simps)
    next
      case (Inr ks)
      with wide have "?spec ReadAll = Inr (filter (\<lambda>k. key_risk k \<noteq> ExternalRead) ks)"
        by (simp del: spec_command.simps)
      with Inr read mono scope_findings_read(2) [OF read(2)] show ?thesis
        by (auto simp: ev_decision_spec simp del: spec_command.simps intro!: mono)
    qed
  qed
qed

section \<open>Properties of every decision\<close>

text \<open>
  C2: whether a command is denied depends on its text and its directory alone: no permission
  snapshot, no command-safety policy, no workspace root and no human approval turns a denial into
  anything else, and none of them causes one.
\<close>

theorem deny_independent_of_authority:
  "ev_decision (evaluate_command_policy_at home command p source root cwd) = Deny \<longleftrightarrow>
   ev_decision (evaluate_command_policy_at home command q source' root' cwd) = Deny"
  unfolding ev_decision_Deny_iff denied_def spec_command_read [of _ _ "pm_read p"]
    spec_command_read [of _ _ "pm_read q"] ..

text \<open>
  C23: more authority never makes a decision more restrictive: enlarging the permission snapshot in
  the component-wise order, or replacing automatic authorization by a human one, keeps the decision
  or moves it towards \<open>Allow\<close>.
\<close>

theorem decision_monotone:
  assumes "perm_le p q" and "source = ExplicitUser \<longrightarrow> source' = ExplicitUser"
  shows "ev_decision (evaluate_command_policy_at home command p source root cwd) \<le>
         ev_decision (evaluate_command_policy_at home command q source' root cwd)"
  using assms by (rule decision_mono)

definition full_permissions :: agent_permissions where
  "full_permissions =
     \<lparr>pm_read = ReadAll, pm_write = WriteAll, pm_command = CommandAutoApprove,
      pm_command_safety = FullAccess, pm_patch = PatchAutoApprove,
      pm_builtin_execution = BuiltinAutoApprove\<rparr>"

theorem decision_monotone_witness:
  "perm_le default_permissions full_permissions \<and>
   ev_decision (evaluate_command_policy_at None (S ''cat /etc/hosts'') default_permissions Automatic None None) \<le>
   ev_decision (evaluate_command_policy_at None (S ''cat /etc/hosts'') full_permissions ExplicitUser None None)"
  using decision_monotone [OF default_permissions_least [of full_permissions], of Automatic ExplicitUser]
    default_permissions_least [of full_permissions] by simp

text \<open>
  A permission ceiling works as a ceiling: under the meet of two snapshots a command gets at
  most the decision that each snapshot alone would give it.
\<close>

theorem meet_never_widens:
  "ev_decision (evaluate_command_policy_at home command (meet p ceiling) source root cwd) \<le>
   min (ev_decision (evaluate_command_policy_at home command p source root cwd))
       (ev_decision (evaluate_command_policy_at home command ceiling source root cwd))"
proof -
  have "perm_le (meet p ceiling) p" "perm_le (meet p ceiling) ceiling"
    by (rule perms.cobounded1, rule perms.cobounded2)
  then show ?thesis by (intro min.boundedI decision_mono) simp_all
qed

section \<open>Commands that run without a human\<close>

text \<open>
  What the guarded policy has checked about a command that it lets run automatically, stated over the
  tokens of the command instead of over findings. \<open>nested_ok\<close> judges nested command text.
\<close>

definition automatic_risk :: "command_risk_class \<Rightarrow> bool" where
  "automatic_risk r = (r = ReadOnly \<or> r = SafeWorkspaceWrite)"

definition safe_redirections :: "agent_read_permission \<Rightarrow> shell_segment \<Rightarrow> bool" where
  "safe_redirections read_permission segment =
     (\<not> seg_has_write_redirection segment
      \<and> list_all (\<lambda>r.
          \<not> is_network_redirection_target (redir_target r) \<and> \<not> redir_dynamic r
          \<and> (read_permission = ReadWorkspaceOnly \<longrightarrow> \<not> is_obvious_external_path (redir_target r)))
        (seg_input_redirections segment))"

definition plain_invocation :: "shell_segment \<Rightarrow> effective_prog \<Rightarrow> bool" where
  "plain_invocation segment ep =
     (\<not> any_executable is_dynamic_program_name segment ep
      \<and> \<not> any_executable is_explicit_program_path segment ep
      \<and> \<not> has_environment_override (seg_tokens segment) (ep_index ep)
      \<and> list_all (\<lambda>t. \<not> has_dynamic_argument t \<and> \<not> has_shell_path_expansion t)
          (drop (ep_index ep + 1) (seg_tokens segment)))"

definition safe_shell :: "(rstring \<Rightarrow> bool) \<Rightarrow> rstring list \<Rightarrow> rstring \<Rightarrow> bool" where
  "safe_shell nested_ok tokens program =
     (case shell_command_argument_index tokens of
        None \<Rightarrow> False
      | Some ci \<Rightarrow>
          \<not> list_ex shell_option_is_interactive (drop 1 (take ci tokens))
          \<and> \<not> shell_loads_startup_code tokens ci \<and> \<not> one_of program [''zsh'', ''fish'']
          \<and> shell_command_options_are_closed tokens ci program
          \<and> (case lget tokens ci of None \<Rightarrow> False | Some c \<Rightarrow> nested_ok c))"

definition safe_program ::
  "rstring option \<Rightarrow> (rstring \<Rightarrow> bool) \<Rightarrow> agent_read_permission \<Rightarrow> rstring option \<Rightarrow> shell_segment
   \<Rightarrow> effective_prog \<Rightarrow> bool" where
  "safe_program home nested_ok read_permission cwd segment ep =
     (let tokens = drop (ep_index ep) (seg_tokens segment);
          program = program_basename (tokens ! 0) in
      \<not> (seg_has_heredoc segment
          \<and> (is_shell_program program \<or> one_of program [''python'', ''python3'', ''node'']))
      \<and> \<not> is_shell_reserved_program program
      \<and> plain_invocation segment ep \<and> safe_redirections read_permission segment
      \<and> (if is_shell_program program then safe_shell nested_ok tokens program
         else
           automatic_risk (fst (classify_segment home tokens program cwd))
           \<and> (read_permission = ReadWorkspaceOnly \<longrightarrow>
              \<not> has_obvious_external_read_argument tokens program)))"

definition safe_segment ::
  "rstring option \<Rightarrow> (rstring \<Rightarrow> bool) \<Rightarrow> agent_read_permission \<Rightarrow> rstring option \<Rightarrow> shell_segment \<Rightarrow> bool" where
  "safe_segment home nested_ok read_permission cwd segment =
     (env_split_command (seg_tokens segment) = Inr None
      \<and> (case effective_program (seg_tokens segment) of
            None \<Rightarrow> False
          | Some ep \<Rightarrow> safe_program home nested_ok read_permission cwd segment ep))"

fun auto_safe ::
  "nat \<Rightarrow> rstring option \<Rightarrow> agent_read_permission \<Rightarrow> rstring option \<Rightarrow> rstring \<Rightarrow> bool" where
  "auto_safe 0 home read_permission cwd raw_command = False"
| "auto_safe (Suc n) home read_permission cwd raw_command =
     (case normalize_command_text raw_command of
        Inl _ \<Rightarrow> False
      | Inr command \<Rightarrow>
          (case lex_command command of
             Inl _ \<Rightarrow> False
           | Inr lexed \<Rightarrow>
               validate_write_redirection_targets command (lexed_ignored_policy_ranges lexed) = Inr ()
               \<and> list_all (safe_segment home (auto_safe n home read_permission cwd) read_permission cwd)
                   (lexed_segments lexed)
               \<and> list_all (auto_safe n home read_permission cwd) (lexed_embedded_commands lexed)))"

definition all_automatic :: "key list checked \<Rightarrow> bool" where
  "all_automatic r = (case r of Inl _ \<Rightarrow> False | Inr ks \<Rightarrow> list_all (\<lambda>k. automatic_risk (key_risk k)) ks)"

lemma automatic_risk_simps [simp]:
  "automatic_risk ReadOnly" "automatic_risk SafeWorkspaceWrite" "\<not> automatic_risk DirectWrite"
  "\<not> automatic_risk Network" "\<not> automatic_risk Unknown" "\<not> automatic_risk Unsupported"
  "\<not> automatic_risk ExternalRead"
  by (simp_all add: automatic_risk_def)

lemma automatic_risk_iff: "automatic_risk r \<longleftrightarrow> \<not> always_denied r \<and> \<not> requires_explicit_approval r"
  by (cases r) (simp_all add: automatic_risk_def)

lemma all_automatic_simps [simp]:
  "\<not> all_automatic (Inl e)"
  "all_automatic (Inr ks) \<longleftrightarrow> list_all (\<lambda>k. automatic_risk (key_risk k)) ks"
  by (simp_all add: all_automatic_def)

lemma all_automatic_and_then [simp]:
  "all_automatic (and_then a b) \<longleftrightarrow> all_automatic a \<and> all_automatic b"
  by (cases a; cases b) auto

lemma all_automatic_sequence [simp]: "all_automatic (sequence rs) \<longleftrightarrow> list_all all_automatic rs"
  by (induction rs) simp_all

lemma redirection_keys_automatic:
  "list_all (\<lambda>k. automatic_risk (key_risk k)) (redirection_keys program rp segment) \<longleftrightarrow>
   safe_redirections rp segment"
  by (auto simp: redirection_keys_def append_redirection_findings_def safe_redirections_def keys_concat_map
      redirection_findings_def list_all_iff)

lemma provenance_keys_automatic:
  "list_all (\<lambda>k. automatic_risk (key_risk k)) (provenance_keys segment ep program) \<and>
     \<not> any_executable is_dynamic_program_name segment ep \<longleftrightarrow>
   plain_invocation segment ep"
  by (auto simp: provenance_keys_def append_invocation_provenance_findings_def plain_invocation_def Let_def
      list_all_iff list_ex_iff)

lemma script_keys_automatic: "\<not> list_all (\<lambda>k. automatic_risk (key_risk k)) (script_keys (Some s) program)"
  by (simp add: script_keys_def append_shell_script_finding_def)

lemma option_keys_automatic:
  "list_all (\<lambda>k. automatic_risk (key_risk k)) (option_keys tokens ci program) \<longleftrightarrow>
   \<not> shell_loads_startup_code tokens ci \<and> \<not> one_of program [''zsh'', ''fish'']
   \<and> shell_command_options_are_closed tokens ci program"
  by (auto simp: option_keys_def shell_option_findings_def)

lemma simple_keys_automatic:
  "list_all (\<lambda>k. automatic_risk (key_risk k)) (simple_keys home segment rp cwd tokens program) \<longleftrightarrow>
   automatic_risk (fst (classify_segment home tokens program cwd))
   \<and> (rp = ReadWorkspaceOnly \<longrightarrow> \<not> has_obvious_external_read_argument tokens program)
   \<and> safe_redirections rp segment"
  by (auto simp: simple_keys_def assess_simple_def redirection_keys_automatic
      simp flip: automatic_risk_def split: prod.split)

lemma shell_automatic:
  "all_automatic (spec_shell analyze segment rp tokens program) \<longleftrightarrow>
   safe_shell (\<lambda>c. all_automatic (analyze c)) tokens program \<and> safe_redirections rp segment"
proof (cases "shell_command_argument_index tokens")
  case None
  then show ?thesis
    by (simp add: spec_shell_def safe_shell_def script_keys_automatic split: option.split)
next
  case (Some ci)
  have fish: "program \<noteq> S ''fish''" if "\<not> one_of program [''zsh'', ''fish'']" using that by simp
  show ?thesis
  proof (cases "lget tokens ci")
    case None
    with Some show ?thesis 
      by (simp add: spec_shell_def spec_shell_command_def safe_shell_def ok_or_def del: lget_eq_None_iff)
  next
    case nested: (Some c)
    with Some fish show ?thesis
      by (auto simp: spec_shell_def spec_shell_command_def safe_shell_def option_keys_automatic
          redirection_keys_automatic ok_or_def simp del: one_of_Cons lget_eq_Some_iff)
  qed
qed

lemma program_automatic:
  "all_automatic (spec_program home analyze rp cwd segment ep) \<longleftrightarrow>
   safe_program home (\<lambda>c. all_automatic (analyze c)) rp cwd segment ep"
  using provenance_keys_automatic [of segment ep "program_basename (drop (ep_index ep) (seg_tokens segment) ! 0)"]
  by (auto simp: spec_program_def safe_program_def Let_def shell_automatic simple_keys_automatic
      redirection_keys_automatic plain_invocation_def simp del: one_of_Cons)

lemma segment_automatic:
  "all_automatic (spec_segment home analyze rp cwd segment) \<longleftrightarrow>
   safe_segment home (\<lambda>c. all_automatic (analyze c)) rp cwd segment"
  by (cases "env_split_command (seg_tokens segment)")
    (auto simp: spec_segment_def safe_segment_def program_automatic spec_env_split_def
      split: option.split)

lemma spec_command_automatic:
  "all_automatic (spec_command n home rp cwd c) \<longleftrightarrow> auto_safe n home rp cwd c"
  by (induction n arbitrary: c)
    (auto simp: spec_body_def segment_automatic list_all_iff rbind_def split: sum.split)

lemma guarded_allow_iff:
  "ev_decision (evaluate_command_policy_at home command (permissions\<lparr>pm_command_safety := Guarded\<rparr>)
       Automatic root cwd) = Allow \<longleftrightarrow>
   auto_safe (Suc MAX_POLICY_NESTING) home (pm_read permissions) cwd command
   \<and> scope_findings permissions root cwd = []"
proof -
  let ?r = "spec_command (Suc MAX_POLICY_NESTING) home (pm_read permissions) cwd command"
  have scope: "scope_findings (permissions\<lparr>pm_command_safety := Guarded\<rparr>) root cwd =
      scope_findings permissions root cwd" by (simp add: scope_findings_def)
  have verdict: "verdict Guarded Automatic risks = Allow \<longleftrightarrow> (\<forall>r \<in> risks. automatic_risk r)" for risks
    by (auto simp: verdict_def automatic_risk_iff)
  have none: "(\<forall>r \<in> fd_risk ` set (scope_findings permissions root cwd). automatic_risk r) \<longleftrightarrow>
      scope_findings permissions root cwd = []"
    by (simp add: scope_findings_def)
  show ?thesis
    using none
    by (cases ?r) (auto simp: ev_decision_spec scope verdict list_all_iff
        simp flip: spec_command_automatic simp del: spec_command.simps)
qed


text \<open>
  Under the guarded policy a command with an output redirection in any top-level segment
  never runs without a human.
\<close>

theorem write_redirection_never_automatic:
  assumes "normalize_command_text command = Inr body" and "lex_command body = Inr lexed"
    and "segment \<in> set (lexed_segments lexed)" and "seg_has_write_redirection segment"
  shows "ev_decision (evaluate_command_policy_at home command
    (permissions\<lparr>pm_command_safety := Guarded\<rparr>) Automatic root cwd) \<noteq> Allow"
proof -
  have "\<not> safe_segment home ok rp cwd segment" for ok rp
    using assms(4)
    by (auto simp: safe_segment_def safe_program_def safe_redirections_def Let_def split: option.split)
  with assms(1-3) have "\<not> auto_safe (Suc n) home rp cwd command" for n rp
    by (auto simp: list_all_iff)
  then show ?thesis by (simp only: guarded_allow_iff simp_thms)
qed

theorem write_redirection_never_automatic_witness:
  "ev_decision (evaluate_command_policy_at None (S ''ls >out'')
    (full_permissions\<lparr>pm_command_safety := Guarded\<rparr>) Automatic None None) \<noteq> Allow"
proof -
  let ?lexed = "case lex_command (S ''ls >out'') of Inr lexed \<Rightarrow> lexed"
  have "normalize_command_text (S ''ls >out'') = Inr (S ''ls >out'')" by code_simp
  moreover have "lex_command (S ''ls >out'') = Inr ?lexed" by code_simp
  moreover have "hd (lexed_segments ?lexed) \<in> set (lexed_segments ?lexed)" by code_simp
  moreover have "seg_has_write_redirection (hd (lexed_segments ?lexed))" by code_simp
  ultimately show ?thesis by (rule write_redirection_never_automatic)
qed

end
