(* ===== verification/Command_Lexer_Props.thy ===== *)
theory Command_Lexer_Props
  imports Command_Lexer
begin

text \<open>
  Properties of the shell lexer: the shape of every successful result (segments, tokens, source
  ranges, redirections, here-document ranges), and the round trip with POSIX single quoting.
\<close>

section \<open>Well-formed lexer states\<close>

fun ordered_ranges :: "nat \<Rightarrow> range list \<Rightarrow> nat \<Rightarrow> bool" where
  "ordered_ranges lo [] hi = (lo \<le> hi)"
| "ordered_ranges lo ((a, b) # rs) hi = (lo \<le> a \<and> a < b \<and> ordered_ranges b rs hi)"

lemma ordered_ranges_snoc [simp]:
  "ordered_ranges lo (rs @ [(a, b)]) hi \<longleftrightarrow> ordered_ranges lo rs a \<and> a < b \<and> b \<le> hi"
  by (induction rs arbitrary: lo) auto

lemma ordered_ranges_mono: "ordered_ranges lo rs hi \<Longrightarrow> hi \<le> hi' \<Longrightarrow> ordered_ranges lo rs hi'"
  by (induction rs arbitrary: lo) auto

lemma ordered_ranges_le: "ordered_ranges lo rs hi \<Longrightarrow> lo \<le> hi"
proof (induction rs arbitrary: lo)
  case (Cons r rs)
  then show ?case by (cases r) fastforce
qed simp

lemma ordered_ranges_bounds:
  "ordered_ranges lo rs hi \<Longrightarrow> (a, b) \<in> set rs \<Longrightarrow> lo \<le> a \<and> a < b \<and> b \<le> hi"
proof (induction rs arbitrary: lo)
  case (Cons r rs)
  then show ?case by (cases r) (fastforce dest: ordered_ranges_le)
qed simp

text \<open>What every consumer of a segment relies on.\<close>

definition redirection_ok :: "nat \<Rightarrow> shell_input_redirection \<Rightarrow> bool" where
  "redirection_ok n r \<longleftrightarrow> redir_target r \<noteq> [] \<and>
     fst (redir_target_range r) < snd (redir_target_range r) \<and> snd (redir_target_range r) \<le> n"

definition segment_ok :: "nat \<Rightarrow> shell_segment \<Rightarrow> bool" where
  "segment_ok n seg \<longleftrightarrow>
     seg_tokens seg \<noteq> [] \<and> [] \<notin> set (seg_tokens seg) \<and>
     length (seg_token_ranges seg) = length (seg_tokens seg) \<and>
     list_all (redirection_ok n) (seg_input_redirections seg)"

definition all_ranges :: "lex_state \<Rightarrow> range list" where
  "all_ranges s = concat (map seg_token_ranges (lx_segments s)) @ lx_token_ranges s"

definition word_start :: "lex_state \<Rightarrow> nat" where
  "word_start s = (case lx_token_start s of Some b \<Rightarrow> b | None \<Rightarrow> lx_index s)"

definition lex_inv :: "lex_state \<Rightarrow> bool" where
  "lex_inv s \<longleftrightarrow>
     list_all (segment_ok (lx_index s)) (lx_segments s) \<and>
     [] \<notin> set (lx_tokens s) \<and> length (lx_token_ranges s) = length (lx_tokens s) \<and>
     list_all (redirection_ok (lx_index s)) (lx_input_redirections s) \<and>
     ordered_ranges 0 (all_ranges s) (word_start s) \<and>
     (\<forall>b. lx_token_start s = Some b \<longrightarrow> b < lx_index s) \<and>
     (lx_token s \<noteq> [] \<or> lx_quote s \<noteq> QNone \<longrightarrow> lx_token_start s \<noteq> None) \<and>
     (\<forall>(a, b) \<in> set (lx_ignored_policy_ranges s). a \<le> b \<and> b \<le> lx_index s)"

lemma segment_ok_mono: "segment_ok n seg \<Longrightarrow> n \<le> m \<Longrightarrow> segment_ok m seg"
  by (auto simp: segment_ok_def redirection_ok_def list_all_iff)

lemma lex_inv_init: "lex_inv lex_init"
  by (simp add: lex_inv_def lex_init_def all_ranges_def word_start_def)

lemma lex_inv_index: "lex_inv s \<Longrightarrow> lx_index s \<le> n \<Longrightarrow> lex_inv (s\<lparr>lx_index := n\<rparr>)"
  by (auto simp: lex_inv_def all_ranges_def word_start_def list_all_iff redirection_ok_def
      intro: segment_ok_mono split: option.splits elim!: ordered_ranges_mono)

lemma lex_inv_flags [simp]:
  "lex_inv (s\<lparr>lx_separator_state := x\<rparr>) = lex_inv s"
  "lex_inv (s\<lparr>lx_write_redirection := b\<rparr>) = lex_inv s"
  "lex_inv (s\<lparr>lx_segment_has_heredoc := b\<rparr>) = lex_inv s"
  "lex_inv (s\<lparr>lx_pending_heredoc := h\<rparr>) = lex_inv s"
  "lex_inv (s\<lparr>lx_token_has_quoted_or_escaped_content := b\<rparr>) = lex_inv s"
  "lex_inv (s\<lparr>lx_embedded_commands := es\<rparr>) = lex_inv s"
  by (simp_all add: lex_inv_def all_ranges_def word_start_def cong: option.case_cong)

lemma lex_inv_push_token:
  assumes "lex_inv s" and "lx_quote s = QNone"
  shows "lex_inv (push_token_with_range (lx_index s) s)"
proof (cases "lx_token s = []")
  case True
  with assms show ?thesis
    by (auto simp: lex_inv_def push_token_with_range_def all_ranges_def word_start_def
        split: option.splits elim: ordered_ranges_mono)
next
  case False
  with assms show ?thesis
    by (auto simp: lex_inv_def push_token_with_range_def all_ranges_def word_start_def
        simp flip: append_assoc split: option.splits)
qed

lemma lex_inv_end_word: "lex_inv s \<Longrightarrow> lx_quote s = QNone \<Longrightarrow> lex_inv (end_word s)"
  by (simp add: end_word_def lex_inv_push_token)

lemma lex_inv_flush: "lex_inv s \<Longrightarrow> lx_quote s = QNone \<Longrightarrow> lex_inv (flush_redirection_word s)"
  by (auto simp: flush_redirection_word_def Let_def lex_inv_push_token)
    (auto simp: lex_inv_def all_ranges_def word_start_def
        split: option.splits elim: ordered_ranges_mono)

lemma lex_inv_close_segment: "lex_inv s \<Longrightarrow> lx_tokens s \<noteq> [] \<Longrightarrow> lex_inv (close_segment s)"
  by (auto simp: lex_inv_def close_segment_def current_segment_def segment_ok_def all_ranges_def
      word_start_def split: option.splits)

text \<open>Opening or continuing a word: the start is set and the index moves past it.\<close>

lemma lex_inv_mark:
  assumes "lex_inv s" and "lx_index s < n"
  shows "lex_inv ((mark_token_start s)\<lparr>lx_token := w, lx_quote := q, lx_index := n\<rparr>)"
proof -
  have *: "lx_index s \<le> n" using assms(2) by simp
  from assms segment_ok_mono [OF _ *] show ?thesis
    by (auto simp: lex_inv_def mark_token_start_def all_ranges_def word_start_def list_all_iff
        redirection_ok_def split: option.splits)
qed

lemma lex_inv_word:
  "lex_inv s \<Longrightarrow> lx_token_start s \<noteq> None \<Longrightarrow> lx_index s \<le> n \<Longrightarrow>
     lex_inv (s\<lparr>lx_token := w, lx_quote := q, lx_index := n\<rparr>)"
  by (drule (1) lex_inv_index) (auto simp: lex_inv_def all_ranges_def word_start_def)


section \<open>Every step keeps the invariant\<close>

text \<open>The invariant reads only part of the state.\<close>

lemma lex_inv_cong:
  assumes "lx_segments t = lx_segments s" "lx_tokens t = lx_tokens s"
    "lx_token_ranges t = lx_token_ranges s" "lx_input_redirections t = lx_input_redirections s"
    "lx_token_start t = lx_token_start s" "lx_index t = lx_index s" "lx_token t = lx_token s"
    "lx_quote t = lx_quote s" "lx_ignored_policy_ranges t = lx_ignored_policy_ranges s"
  shows "lex_inv t = lex_inv s"
  using assms by (simp add: lex_inv_def all_ranges_def word_start_def cong: option.case_cong)

lemma lex_inv_opens_word:
  assumes "lex_inv s" and "lx_index s < lx_index t"
    and "lx_segments t = lx_segments s" "lx_tokens t = lx_tokens s"
    "lx_token_ranges t = lx_token_ranges s" "lx_input_redirections t = lx_input_redirections s"
    "lx_token_start t = lx_token_start (mark_token_start s)"
    "lx_ignored_policy_ranges t = lx_ignored_policy_ranges s"
  shows "lex_inv t"
  using lex_inv_mark [OF assms(1,2), where w = "lx_token t" and q = "lx_quote t"] assms(3-)
  by (subst lex_inv_cong) (simp_all add: mark_token_start_def)

lemma lex_inv_continues_word:
  assumes "lex_inv s" and "lx_token_start s \<noteq> None" and "lx_index s \<le> lx_index t"
    and "lx_segments t = lx_segments s" "lx_tokens t = lx_tokens s"
    "lx_token_ranges t = lx_token_ranges s" "lx_input_redirections t = lx_input_redirections s"
    "lx_token_start t = lx_token_start s"
    "lx_ignored_policy_ranges t = lx_ignored_policy_ranges s"
  shows "lex_inv t"
  using lex_inv_word [OF assms(1-3), where w = "lx_token t" and q = "lx_quote t"] assms(4-)
  by (subst lex_inv_cong) simp_all

lemma quote_bookkeeping [simp]:
  "lx_quote (push_token_with_range e s) = lx_quote s" "lx_quote (end_word s) = lx_quote s"
  "lx_quote (close_segment s) = lx_quote s" "lx_quote (flush_redirection_word s) = lx_quote s"
  by (simp_all add: push_token_with_range_def end_word_def close_segment_def
      flush_redirection_word_def Let_def)

lemma lex_inv_single: "lex_inv s \<Longrightarrow> lx_quote s = QSingle \<Longrightarrow> lex_single c s = Inr t \<Longrightarrow> lex_inv t"
  by (rule lex_inv_continues_word [of s]) (auto simp: lex_single_def lex_inv_def)

lemma lex_inv_double:
  assumes inv: "lex_inv s" and q: "lx_quote s = QDouble" and i: "lx_index s < length chars"
    and ok: "lex_double chars c s = Inr t"
  shows "lex_inv t"
proof -
  from inv q have start: "lx_token_start s \<noteq> None" by (simp add: lex_inv_def)
  from advances_double [OF ok i] have adv: "lx_index s \<le> lx_index t" by (simp add: advances_def)
  from inv start adv show ?thesis
    by (rule lex_inv_continues_word)
      (use ok in \<open>auto simp: lex_double_def lex_escape_def lex_dollar_paren_def lex_backtick_def
        split: if_splits option.splits\<close>)
qed

lemma lex_inv_newline:
  assumes inv: "lex_inv s" and q: "lx_quote s = QNone" and ok: "lex_newline chars s = Inr t"
  shows "lex_inv t"
proof -
  let ?s1 = "end_word s"
  let ?s2 = "if lx_tokens ?s1 \<noteq> [] then close_segment ?s1 else ?s1"
  let ?s3 = "?s2\<lparr>lx_separator_state := SepNone, lx_index := lx_index ?s2 + 1\<rparr>"
  have inv1: "lex_inv ?s1" using inv q by (rule lex_inv_end_word)
  then have "lex_inv ?s2" by (simp add: lex_inv_close_segment)
  then have inv3: "lex_inv ?s3" by (simp add: lex_inv_index)
  show ?thesis
  proof (cases "lx_separator_state ?s1 = SepRequiresCommand")
    case True
    with ok inv1 show ?thesis by (auto simp: lex_newline_def Let_def lex_inv_index)
  next
    case continue: False
    show ?thesis
    proof (cases "lx_pending_heredoc ?s3")
      case None
      with ok continue inv3 show ?thesis by (simp add: lex_newline_def Let_def)
    next
      case (Some h)
      with ok continue obtain n r where body: "consume_heredoc_body chars (lx_index ?s3) h = Inr (n, r)"
        and t: "t = ?s3\<lparr>lx_pending_heredoc := None,
          lx_ignored_policy_ranges := lx_ignored_policy_ranges ?s3 @ [r], lx_index := n\<rparr>"
        by (auto simp: lex_newline_def Let_def)
      from consume_heredoc_body_bounds [OF body] have n: "lx_index ?s3 \<le> n" "r = (lx_index ?s3, n)"
        by auto
      from lex_inv_index [OF inv3 n(1)] n show ?thesis
        unfolding t by (auto simp: lex_inv_def all_ranges_def word_start_def split: option.splits)
    qed
  qed
qed

lemma lex_inv_input_redirection:
  assumes inv: "lex_inv s" and q: "lx_quote s = QNone" and i: "lx_index s < length chars"
    and ok: "lex_input_redirection chars s = Inr t"
  shows "lex_inv t"
proof -
  let ?s1 = "flush_redirection_word s"
  let ?rw = "lget chars (lx_index s + 1) = Some (Ch CHR ''>'')"
  let ?i = "lx_index s + (if ?rw then 2 else 1)"
  let ?j = "skip_whitespace chars ?i"
  from i have "?i \<le> length chars" by auto
  from skip_whitespace_bounds [OF this] have j: "?j \<le> length chars" by simp
  from ok obtain v d n where rd: "read_redirection_target chars ?j = Inr ((v, d), n)"
    and t: "t = ?s1\<lparr>lx_input_redirections := lx_input_redirections ?s1 @
        [\<lparr>redir_target = v, redir_dynamic = d, redir_target_range = (?j, n), redir_read_write = ?rw\<rparr>],
        lx_write_redirection := (lx_write_redirection ?s1 \<or> ?rw), lx_index := n\<rparr>"
    by (auto simp: lex_input_redirection_def Let_def split: if_splits)
  from rd have v: "v \<noteq> []"
    by (auto simp: read_redirection_target_def split: option.splits if_splits prod.splits)
  from advances_input_redirection [OF ok i] t have n: "lx_index ?s1 \<le> n"
    by (simp add: advances_def)
  from target.scan_progress [OF j rd] have "?j < n" .
  with v lex_inv_index [OF lex_inv_flush [OF inv q] n] show ?thesis
    unfolding t by (simp add: lex_inv_def all_ranges_def word_start_def redirection_ok_def cong: option.case_cong)
qed

lemma lex_inv_output_redirection:
  assumes inv: "lex_inv s" and q: "lx_quote s = QNone" and i: "lx_index s < length chars"
    and ok: "lex_output_redirection chars s = Inr t"
  shows "lex_inv t"
proof -
  from advances_output_redirection [OF ok i] have "lx_index (flush_redirection_word s) \<le> lx_index t"
    by (simp add: advances_def)
  from lex_inv_index [OF lex_inv_flush [OF inv q] this] ok show ?thesis
    by (auto simp: lex_output_redirection_def Let_def split: if_splits option.splits
        elim!: lex_inv_cong [THEN iffD1, rotated -1])
qed

lemma lex_inv_heredoc_operator:
  assumes inv: "lex_inv s" and q: "lx_quote s = QNone" and i: "lget chars (lx_index s + 1) \<noteq> None"
    and ok: "lex_heredoc_operator chars s = Inr t"
  shows "lex_inv t"
proof -
  from advances_heredoc_operator [OF ok i] have "lx_index (flush_redirection_word s) \<le> lx_index t"
    by (simp add: advances_def)
  from lex_inv_index [OF lex_inv_flush [OF inv q] this] ok show ?thesis
    by (auto simp: lex_heredoc_operator_def Let_def split: if_splits
        elim!: lex_inv_cong [THEN iffD1, rotated -1])
qed

lemma lex_inv_separator:
  assumes inv: "lex_inv s" and q: "lx_quote s = QNone" and i: "lx_index s < length chars"
    and ok: "lex_separator chars c s = Inr t"
  shows "lex_inv t"
proof -
  from ok have ne: "lx_tokens (end_word s) \<noteq> []"
    by (auto simp: lex_separator_def Let_def split: if_splits)
  from advances_separator [OF ok i] have "lx_index (close_segment (end_word s)) \<le> lx_index t"
    by (simp add: advances_def)
  from lex_inv_index [OF lex_inv_close_segment [OF lex_inv_end_word [OF inv q] ne] this] ok ne
  show ?thesis
    by (auto simp: lex_separator_def Let_def split: if_splits
        elim!: lex_inv_cong [THEN iffD1, rotated -1])
qed

lemma lex_inv_unquoted:
  assumes inv: "lex_inv s" and q: "lx_quote s = QNone" and i: "lx_index s < length chars"
    and c: "chars ! lx_index s = c" and ok: "lex_unquoted chars c s = Inr t"
  shows "lex_inv t"
proof -
  from advances_unquoted [OF ok i c] have adv: "lx_index s < lx_index t" by (simp add: advances_def)
  note opens = lex_inv_opens_word [OF inv adv]
  from ok show ?thesis
  proof (cases rule: lex_unquoted_cases)
    case blank
    with lex_inv_end_word [OF inv q] show ?thesis by (simp add: lex_inv_index)
  next
    case comment
    with inv adv show ?thesis by (simp add: lex_inv_index)
  next
    case escape
    then show ?thesis
      by (intro opens) (auto simp: lex_escape_def mark_token_start_def split: option.splits)
  next
    case dollar
    then show ?thesis by (intro opens) (auto simp: lex_dollar_paren_def mark_token_start_def)
  next
    case tick
    then show ?thesis by (intro opens) (auto simp: lex_backtick_def mark_token_start_def)
  next
    case heredoc
    with inv q Some_not_NoneI show ?thesis by (blast intro: lex_inv_heredoc_operator)
  qed (use inv q i opens in \<open>auto simp: mark_token_start_def intro: lex_inv_newline lex_inv_separator
        lex_inv_heredoc_operator lex_inv_output_redirection lex_inv_input_redirection\<close>)
qed

lemma lex_step_inv:
  assumes "lex_step chars s = Inr t" and "lex_inv s" and "lx_index s < length chars"
  shows "lex_inv t"
  using assms
  by (cases "lx_quote s")
    (auto simp: lex_step_def Let_def intro: lex_inv_unquoted lex_inv_single lex_inv_double)

lemma lex_loop_inv:
  "lex_loop chars s = Inr t \<Longrightarrow> lex_inv s \<Longrightarrow> lx_index s \<le> length chars \<Longrightarrow>
     lex_inv t \<and> lx_index t = length chars"
proof (induction chars s rule: lex_loop.induct)
  case (1 chars s)
  show ?case
  proof (cases "lx_index s < length chars")
    case True
    with "1.prems"(1) obtain u where u: "lex_step chars s = Inr u" "lex_loop chars u = Inr t"
      by (auto simp: lex_loop.simps [of chars s])
    with "1.IH" [OF True u(1)] True "1.prems"(2) lex_step_inv [OF u(1)] lex_step_advances [OF u(1) True]
    show ?thesis by (simp add: advances_def)
  next
    case False
    with "1.prems" show ?thesis by (simp add: lex_loop.simps [of chars s])
  qed
qed

section \<open>Well-formed results\<close>

definition lexed_ok :: "nat \<Rightarrow> lexed_command \<Rightarrow> bool" where
  "lexed_ok n lx \<longleftrightarrow>
     lexed_segments lx \<noteq> [] \<and> list_all (segment_ok n) (lexed_segments lx) \<and>
     ordered_ranges 0 (concat (map seg_token_ranges (lexed_segments lx))) n \<and>
     (\<forall>(a, b) \<in> set (lexed_ignored_policy_ranges lx). a \<le> b \<and> b \<le> n)"

lemma lex_command_inv:
  assumes "lex_command command = Inr lx"
  shows "lexed_ok (length command) lx"
proof -
  from assms obtain s where loop: "lex_loop command lex_init = Inr s" and fin: "lex_finish command s = Inr lx"
    by (auto simp: lex_command_def)
  from lex_loop_inv [OF loop lex_inv_init] have inv: "lex_inv s" and n: "lx_index s = length command"
    by (auto simp: lex_init_def)
  from fin have q: "lx_quote s = QNone"
    by (auto simp: lex_finish_def split: if_splits)
  let ?s1 = "push_token_with_range (length command) s"
  from lex_inv_push_token [OF inv q] n have inv1: "lex_inv ?s1" by simp
  have "lx_token_start ?s1 = None" by (simp add: push_token_with_range_def)
  with inv1 n fin show ?thesis
    by (auto simp: lex_finish_def lexed_ok_def lex_inv_def Let_def all_ranges_def word_start_def
        segment_ok_def current_segment_def split: if_splits)
qed

section \<open>Properties\<close>

text \<open>
  Every step of the lexer loop that does not fail moves the index forward and keeps it inside
  the text, whatever the state: the loop ends after at most as many steps as the text has characters.
\<close>

theorem lexer_step_progress:
  assumes "lx_index s < length chars" and "lex_step chars s = Inr t"
  shows "lx_index s < lx_index t \<and> lx_index t \<le> length chars"
  using lex_step_advances [OF assms(2,1)] by (simp add: advances_def)

theorem lexer_step_progress_witness:
  "lx_index lex_init < lx_index (case lex_step (S ''ls'') lex_init of Inr t \<Rightarrow> t)
   \<and> lx_index (case lex_step (S ''ls'') lex_init of Inr t \<Rightarrow> t) \<le> length (S ''ls'')"
proof -
  have "lx_index lex_init < length (S ''ls'')" by (simp add: lex_init_def)
  moreover have "lex_step (S ''ls'') lex_init = Inr (case lex_step (S ''ls'') lex_init of Inr t \<Rightarrow> t)"
    by code_simp
  ultimately show ?thesis by (rule lexer_step_progress)
qed

text \<open>
  C34: what every consumer of a lexed command relies on: there is a segment; every segment has a
  program token, no empty token and one source range per token; the token ranges of the whole command
  are non-empty, disjoint, in source order and inside the text; redirection targets are non-empty with
  ranges inside the text; and the here-document ranges lie inside the text.
\<close>

theorem lexed_command_wellformed:
  assumes "lex_command command = Inr lexed"
  shows "lexed_ok (length command) lexed"
  using assms by (rule lex_command_inv)

theorem lexed_command_wellformed_witness:
  "lexed_ok (length (S ''ls -l | wc <in'')) (case lex_command (S ''ls -l | wc <in'') of Inr lexed \<Rightarrow> lexed)"
proof -
  have "lex_command (S ''ls -l | wc <in'') = Inr (case lex_command (S ''ls -l | wc <in'') of Inr lexed \<Rightarrow> lexed)"
    by code_simp
  then show ?thesis by (rule lexed_command_wellformed)
qed

section \<open>The loop ends\<close>

text \<open>The loop of \<open>lex_command\<close> as the code runs it, cut off after \<open>fuel\<close> turns.\<close>

fun lex_turns :: "nat \<Rightarrow> rchar list \<Rightarrow> lex_state \<Rightarrow> lex_state checked option" where
  "lex_turns 0 chars s = (if lx_index s < length chars then None else Some (Inr s))"
| "lex_turns (Suc fuel) chars s =
     (if lx_index s < length chars
      then case lex_step chars s of Inl e \<Rightarrow> Some (Inl e) | Inr t \<Rightarrow> lex_turns fuel chars t
      else Some (Inr s))"

lemma lex_turns_enough: "length chars - lx_index s \<le> fuel \<Longrightarrow> lex_turns fuel chars s = Some (lex_loop chars s)"
proof (induction fuel arbitrary: s)
  case 0
  then show ?case by (simp add: lex_loop.simps)
next
  case (Suc fuel)
  show ?case
  proof (cases "lx_index s < length chars")
    case True
    have "lex_turns fuel chars t = Some (lex_loop chars t)" if "lex_step chars s = Inr t" for t
      using Suc lex_step_advances [OF that True] by (auto simp: advances_def)
    with True show ?thesis by (subst lex_loop.simps) (simp split: sum.split)
  next
    case False
    then show ?thesis by (simp add: lex_loop.simps)
  qed
qed

text \<open>
  C35: the lexer ends on every text: its loop takes at most as many turns as the text has characters, and what it
  returns then is the result of the model.
\<close>

theorem lexer_terminates: "lex_turns (length chars) chars lex_init = Some (lex_loop chars lex_init)"
  by (rule lex_turns_enough) simp

end
