(* ===== verification/Command_Nesting.thy ===== *)
theory Command_Nesting
  imports Command_Decisions Command_Lexer_Props
begin

text \<open>
  Nested command text (command substitutions, \<open>sh -c\<close>, \<open>env -S\<close>) and what a whole evaluation reports:
  nesting never widens a decision, every evaluation carries a finding, and the aggregated risk level
  is the maximum over the findings.
\<close>

section \<open>Nesting\<close>

text \<open>
  An analyzer that agrees with another one wherever the other succeeds. More nesting levels extend
  the analysis in this sense.
\<close>

locale analyzer_extension =
  fixes small large :: spec_analyzer
  assumes extends: "small c = Inr ks \<Longrightarrow> large c = Inr ks"
begin

lemma env_split_extends:
  "spec_env_split small segment rp c = Inr ks \<Longrightarrow> spec_env_split large segment rp c = Inr ks"
  by (auto simp: spec_env_split_def and_then_eq_Inr_iff dest: extends split: if_splits)

lemma shell_extends:
  "spec_shell small segment rp tokens program = Inr ks \<Longrightarrow> spec_shell large segment rp tokens program = Inr ks"
  unfolding spec_shell_def spec_shell_command_def
  by (auto simp: and_then_eq_Inr_iff dest: extends split: option.split_asm if_split_asm
      simp del: lget_eq_Some_iff)

lemma program_extends:
  "spec_program home small rp cwd segment ep = Inr ks \<Longrightarrow> spec_program home large rp cwd segment ep = Inr ks"
  unfolding spec_program_def Let_def
  by (elim early_returnE) (auto simp: and_then_eq_Inr_iff simp del: one_of_Cons dest: shell_extends
      split: if_split_asm)

lemma segment_extends:
  "spec_segment home small rp cwd segment = Inr ks \<Longrightarrow> spec_segment home large rp cwd segment = Inr ks"
  by (cases "env_split_command (seg_tokens segment)"; cases "projr (env_split_command (seg_tokens segment))";
      cases "effective_program (seg_tokens segment)")
    (auto simp: spec_segment_def dest: env_split_extends program_extends)

lemma sequence_extends:
  assumes "\<And>x k. f x = Inr k \<Longrightarrow> g x = Inr k" and "sequence (map f xs) = Inr ks"
  shows "sequence (map g xs) = Inr ks"
  using assms(2) by (induction xs arbitrary: ks) (auto simp: and_then_eq_Inr_iff dest: assms(1))

lemma body_extends:
  assumes "spec_body home small rp cwd c = Inr ks"
  shows "spec_body home large rp cwd c = Inr ks"
proof -
  from assms obtain body lx u x y where lexed: "normalize_command_text c = Inr body"
    "lex_command body = Inr lx"
    "validate_write_redirection_targets body (lexed_ignored_policy_ranges lx) = Inr u"
    and x: "sequence (map (spec_segment home small rp cwd) (lexed_segments lx)) = Inr x"
    and y: "sequence (map small (lexed_embedded_commands lx)) = Inr y" and ks: "ks = x @ y"
    by (auto simp: spec_body_def and_then_eq_Inr_iff)
  from x have "sequence (map (spec_segment home large rp cwd) (lexed_segments lx)) = Inr x"
    by (rule sequence_extends [rotated]) (rule segment_extends)
  moreover from y have "sequence (map large (lexed_embedded_commands lx)) = Inr y"
    by (rule sequence_extends [rotated]) (rule extends)
  ultimately show ?thesis using lexed ks by (simp add: spec_body_def)
qed

end

lemma spec_command_extension:
  "analyzer_extension (spec_command n home rp cwd) (spec_command (Suc n) home rp cwd)"
proof (induction n)
  case 0
  show ?case by unfold_locales simp
next
  case (Suc n)
  show ?case
    by (rule analyzer_extension.intro)
      (simp add: spec_command.simps(2) [abs_def] analyzer_extension.body_extends [OF Suc.IH, unfolded spec_command.simps(2) [abs_def]])
qed

interpretation deeper: analyzer_extension
  "spec_command n home rp cwd" "spec_command (Suc n) home rp cwd" for n home rp cwd
  by (rule spec_command_extension)

lemma spec_command_SucE:
  assumes "spec_command (Suc n) home rp cwd c = Inr ks" and "normalize_command_text c = Inr body"
    and "lex_command body = Inr lexed"
  obtains x y where
    "sequence (map (spec_segment home (spec_command n home rp cwd) rp cwd) (lexed_segments lexed)) = Inr x"
    "sequence (map (spec_command n home rp cwd) (lexed_embedded_commands lexed)) = Inr y" "ks = x @ y"
  using assms by (auto simp: spec_body_def and_then_eq_Inr_iff)

lemma spec_command_segment:
  assumes "spec_command (Suc n) home rp cwd c = Inr ks" and "normalize_command_text c = Inr body"
    and "lex_command body = Inr lexed" and "segment \<in> set (lexed_segments lexed)"
  shows "\<exists>k. spec_segment home (spec_command n home rp cwd) rp cwd segment = Inr k \<and> set k \<subseteq> set ks"
  using assms(1-3)
proof (rule spec_command_SucE)
  fix x y
  assume x: "sequence (map (spec_segment home (spec_command n home rp cwd) rp cwd) (lexed_segments lexed)) = Inr x"
    and "ks = x @ y"
  with sequence_member [OF x, of "spec_segment home (spec_command n home rp cwd) rp cwd segment"] assms(4)
  show ?thesis by auto
qed

lemma spec_command_embedded:
  assumes "spec_command (Suc n) home rp cwd c = Inr ks" and "normalize_command_text c = Inr body"
    and "lex_command body = Inr lexed" and "e \<in> set (lexed_embedded_commands lexed)"
  shows "\<exists>k. spec_command n home rp cwd e = Inr k \<and> set k \<subseteq> set ks"
  using assms(1-3)
proof (rule spec_command_SucE)
  fix x y
  assume y: "sequence (map (spec_command n home rp cwd) (lexed_embedded_commands lexed)) = Inr y"
    and "ks = x @ y"
  with sequence_member [OF y, of "spec_command n home rp cwd e"] assms(4) show ?thesis by auto
qed

lemma nested_decision_le:
  assumes "\<And>ks. spec_command (Suc MAX_POLICY_NESTING) home (pm_read p) cwd c = Inr ks \<Longrightarrow>
      (\<exists>k \<in> set ks. always_denied (key_risk k)) \<or>
      (\<exists>ks'. spec_command MAX_POLICY_NESTING home (pm_read p) cwd e = Inr ks' \<and> set ks' \<subseteq> set ks)"
  shows "ev_decision (evaluate_command_policy_at home c p source root cwd) \<le>
         ev_decision (evaluate_command_policy_at home e p source root cwd)"
proof (cases "spec_command (Suc MAX_POLICY_NESTING) home (pm_read p) cwd c")
  case (Inl err)
  then show ?thesis by (simp add: ev_decision_spec del: spec_command.simps)
next
  case (Inr ks)
  from assms [OF Inr] show ?thesis
  proof
    assume "\<exists>k \<in> set ks. always_denied (key_risk k)"
    with Inr have "ev_decision (evaluate_command_policy_at home c p source root cwd) = Deny"
      by (auto simp: ev_decision_spec verdict_Deny_iff simp del: spec_command.simps)
    then show ?thesis by simp
  next
    assume "\<exists>ks'. spec_command MAX_POLICY_NESTING home (pm_read p) cwd e = Inr ks' \<and> set ks' \<subseteq> set ks"
    then obtain ks' where "spec_command (Suc MAX_POLICY_NESTING) home (pm_read p) cwd e = Inr ks'"
      and "set ks' \<subseteq> set ks" by (blast dest: deeper.extends)
    with Inr show ?thesis
      by (auto simp: ev_decision_spec simp del: spec_command.simps intro!: verdict_mono)
  qed
qed

text \<open>
  C29: a command substitution that the lexer finds in a word of the command is judged with its host: a command gets at
  most the decision that any of these embedded commands would get on its own, under the same permissions. Substitutions
  in the target of an input redirection are not among them.
\<close>

theorem embedded_never_widens:
  assumes "normalize_command_text command = Inr body" and "lex_command body = Inr lexed"
    and "embedded \<in> set (lexed_embedded_commands lexed)"
  shows "ev_decision (evaluate_command_policy_at home command permissions source root cwd) \<le>
         ev_decision (evaluate_command_policy_at home embedded permissions source root cwd)"
  using spec_command_embedded [OF _ assms] by (intro nested_decision_le) blast

theorem embedded_never_widens_witness:
  "ev_decision (evaluate_command_policy_at None (S ''ls $(rm x)'') full_permissions Automatic None None) \<le>
   ev_decision (evaluate_command_policy_at None (S ''rm x'') full_permissions Automatic None None)"
proof -
  let ?lexed = "case lex_command (S ''ls $(rm x)'') of Inr lexed \<Rightarrow> lexed"
  have "normalize_command_text (S ''ls $(rm x)'') = Inr (S ''ls $(rm x)'')" by code_simp
  moreover have "lex_command (S ''ls $(rm x)'') = Inr ?lexed" by code_simp
  moreover have "S ''rm x'' \<in> set (lexed_embedded_commands ?lexed)" by code_simp
  ultimately show ?thesis by (rule embedded_never_widens)
qed


lemma spec_program_shell:
  assumes ok: "spec_program home analyze rp cwd segment ep = Inr ks"
    and tokens: "tokens = drop (ep_index ep) (seg_tokens segment)"
    and program: "is_shell_program (program_basename (tokens ! 0))"
    and ci: "shell_command_argument_index tokens = Some ci" and nested: "lget tokens ci = Some nested"
  shows "(\<exists>k \<in> set ks. always_denied (key_risk k)) \<or> (\<exists>ks'. analyze nested = Inr ks' \<and> set ks' \<subseteq> set ks)"
proof -
  have "\<not> one_of (program_basename (tokens ! 0)) [''python'', ''python3'', ''node'']"
    using program by (auto simp: is_shell_program_def)
  with ok program ci nested show ?thesis
    unfolding spec_program_def Let_def tokens [symmetric]
    by (elim early_returnE)
      (auto simp: spec_shell_def spec_shell_command_def and_then_eq_Inr_iff ok_or_def
        simp del: one_of_Cons lget_eq_Some_iff split: if_split_asm)
qed

text \<open>
  Wrapping a command in a shell never helps it: a command with a segment \<open>sh -c nested\<close> gets
  at most the decision that \<open>nested\<close> would get on its own.
\<close>

theorem shell_command_never_widens:
  assumes "normalize_command_text command = Inr body" and "lex_command body = Inr lexed"
    and "segment \<in> set (lexed_segments lexed)"
    and "env_split_command (seg_tokens segment) = Inr None"
    and "effective_program (seg_tokens segment) = Some ep"
    and "is_shell_program (program_basename (drop (ep_index ep) (seg_tokens segment) ! 0))"
    and "shell_command_argument_index (drop (ep_index ep) (seg_tokens segment)) = Some ci"
    and "lget (drop (ep_index ep) (seg_tokens segment)) ci = Some nested"
  shows "ev_decision (evaluate_command_policy_at home command permissions source root cwd) \<le>
         ev_decision (evaluate_command_policy_at home nested permissions source root cwd)"
proof (rule nested_decision_le)
  fix ks
  assume "spec_command (Suc MAX_POLICY_NESTING) home (pm_read permissions) cwd command = Inr ks"
  from spec_command_segment [OF this assms(1-3)] obtain k where
    "spec_program home (spec_command MAX_POLICY_NESTING home (pm_read permissions) cwd)
       (pm_read permissions) cwd segment ep = Inr k" and k: "set k \<subseteq> set ks"
    using assms(4,5) by (auto simp: spec_segment_def)
  from spec_program_shell [OF this(1) refl assms(6-8)] k
  show "(\<exists>k \<in> set ks. always_denied (key_risk k)) \<or>
      (\<exists>ks'. spec_command MAX_POLICY_NESTING home (pm_read permissions) cwd nested = Inr ks' \<and> set ks' \<subseteq> set ks)"
    by blast
qed

definition shell_example :: rstring where
  "shell_example = S ''sh -c '' @ [SQ] @ S ''rm x'' @ [SQ]"

theorem shell_command_never_widens_witness:
  "ev_decision (evaluate_command_policy_at None shell_example full_permissions Automatic None None) \<le>
   ev_decision (evaluate_command_policy_at None (S ''rm x'') full_permissions Automatic None None)"
proof -
  let ?lexed = "case lex_command shell_example of Inr lexed \<Rightarrow> lexed"
  let ?segment = "hd (lexed_segments ?lexed)"
  let ?ep = "the (effective_program (seg_tokens ?segment))"
  have "normalize_command_text shell_example = Inr shell_example" by code_simp
  moreover have "lex_command shell_example = Inr ?lexed" by code_simp
  moreover have "?segment \<in> set (lexed_segments ?lexed)" by code_simp
  moreover have "env_split_command (seg_tokens ?segment) = Inr None" by code_simp
  moreover have "effective_program (seg_tokens ?segment) = Some ?ep" by code_simp
  moreover have "is_shell_program (program_basename (drop (ep_index ?ep) (seg_tokens ?segment) ! 0))"
    by code_simp
  moreover have "shell_command_argument_index (drop (ep_index ?ep) (seg_tokens ?segment)) = Some 2"
    by code_simp
  moreover have "lget (drop (ep_index ?ep) (seg_tokens ?segment)) 2 = Some (S ''rm x'')" by code_simp
  ultimately show ?thesis by (rule shell_command_never_widens)
qed

section \<open>Denied segments\<close>

lemma spec_program_denied:
  assumes ok: "spec_program home analyze rp cwd segment ep = Inr ks"
    and tokens: "tokens = drop (ep_index ep) (seg_tokens segment)"
    and "program = program_basename (tokens ! 0)"
    and "\<not> is_shell_program program" and "\<not> (seg_has_heredoc segment \<and> one_of program [''python'', ''python3'', ''node''])"
    and "fst (classify_segment home tokens program cwd) \<in> {Catastrophic, Unsupported}"
  shows "\<exists>k \<in> set ks. always_denied (key_risk k)"
  using assms(1,3-)
  unfolding spec_program_def Let_def tokens [symmetric]
  by (elim early_returnE)
    (auto simp: simple_keys_def assess_simple_def simp del: one_of_Cons split: if_split_asm prod.split)

text \<open>
  C27: one segment whose program is classified as catastrophic or unsupported denies the whole
  command, whatever the permissions, the policy and the authorization, also when it reads a here-document: in particular
  privilege escalation, power control, storage devices and recursive removal of sensitive roots. Two kinds of programs
  are judged otherwise: a shell by the command it is given, and \<open>python\<close>, \<open>python3\<close> or \<open>node\<close> with a here-document,
  which runs the document, as an unknown interpreter.
\<close>

theorem denied_segment_denies_command:
  assumes "normalize_command_text command = Inr body" and "lex_command body = Inr lexed"
    and "segment \<in> set (lexed_segments lexed)"
    and "env_split_command (seg_tokens segment) = Inr None"
    and "effective_program (seg_tokens segment) = Some ep"
    and "tokens = drop (ep_index ep) (seg_tokens segment)" and "program = program_basename (tokens ! 0)"
    and "\<not> is_shell_program program" and "\<not> (seg_has_heredoc segment \<and> one_of program [''python'', ''python3'', ''node''])"
    and "fst (classify_segment home tokens program cwd) \<in> {Catastrophic, Unsupported}"
  shows "ev_decision (evaluate_command_policy_at home command permissions source root cwd) = Deny"
proof (cases "spec_command (Suc MAX_POLICY_NESTING) home (pm_read permissions) cwd command")
  case (Inl e)
  then show ?thesis by (simp add: ev_decision_spec del: spec_command.simps)
next
  case (Inr ks)
  from spec_command_segment [OF this assms(1-3)] obtain k where
    "spec_program home (spec_command MAX_POLICY_NESTING home (pm_read permissions) cwd)
       (pm_read permissions) cwd segment ep = Inr k" and k: "set k \<subseteq> set ks"
    using assms(4,5) by (auto simp: spec_segment_def)
  from spec_program_denied [OF this(1) assms(6-10)] k Inr show ?thesis
    by (auto simp: ev_decision_spec verdict_Deny_iff simp del: spec_command.simps)
qed

definition sudo_heredoc :: rstring where
  "sudo_heredoc = S ''ls; sudo tee x <<'' @ [SQ] @ S ''E'' @ [SQ, NL] @ S ''a'' @ [NL] @ S ''E''"

theorem denied_segment_denies_command_witness:
  "ev_decision (evaluate_command_policy_at None sudo_heredoc full_permissions ExplicitUser None None) = Deny"
proof -
  let ?lexed = "case lex_command sudo_heredoc of Inr lexed \<Rightarrow> lexed"
  let ?segment = "last (lexed_segments ?lexed)"
  let ?ep = "the (effective_program (seg_tokens ?segment))"
  let ?tokens = "drop (ep_index ?ep) (seg_tokens ?segment)"
  have "normalize_command_text sudo_heredoc = Inr sudo_heredoc" by code_simp
  moreover have "lex_command sudo_heredoc = Inr ?lexed" by code_simp
  moreover have "?segment \<in> set (lexed_segments ?lexed)" by code_simp
  moreover have "env_split_command (seg_tokens ?segment) = Inr None" by code_simp
  moreover have "effective_program (seg_tokens ?segment) = Some ?ep" by code_simp
  moreover have "?tokens = ?tokens" ..
  moreover have "S ''sudo'' = program_basename (?tokens ! 0)" by code_simp
  moreover have "\<not> is_shell_program (S ''sudo'')" by code_simp
  moreover have "\<not> (seg_has_heredoc ?segment \<and> one_of (S ''sudo'') [''python'', ''python3'', ''node''])" by code_simp
  moreover have "fst (classify_segment None ?tokens (S ''sudo'') None) \<in> {Catastrophic, Unsupported}"
    by code_simp
  ultimately show ?thesis by (rule denied_segment_denies_command)
qed

section \<open>What an evaluation reports\<close>

text \<open>
  A denial carries the code of its first finding that is always denied, also when the text
  does not parse.
\<close>

theorem denial_names_first_denied_finding:
  assumes "ev_decision (evaluate_command_policy_at home command permissions source root cwd) = Deny"
  shows "\<exists>pre f post.
    ev_findings (evaluate_command_policy_at home command permissions source root cwd) = pre @ f # post
    \<and> list_all (\<lambda>g. \<not> always_denied (fd_risk g)) pre \<and> always_denied (fd_risk f)
    \<and> ev_code (evaluate_command_policy_at home command permissions source root cwd) = fd_code f"
proof (cases "analyze_command home command (pm_read permissions) cwd 0")
  case (Inl e)
  then have "ev_findings (evaluate_command_policy_at home command permissions source root cwd) =
      [] @ finding 0 [] Unsupported (err_code e) # []"
    and "ev_code (evaluate_command_policy_at home command permissions source root cwd) = err_code e"
    by (simp_all add: evaluate_command_policy_at_def denied_syntax_def)
  then show ?thesis
    by (intro exI [of _ "[]"] exI [of _ "finding 0 [] Unsupported (err_code e)"]) simp
next
  case (Inr fs)
  let ?fs = "fs @ scope_findings permissions root cwd"
  from Inr have ev: "evaluate_command_policy_at home command permissions source root cwd =
      decide permissions source ?fs" by (simp add: evaluate_command_policy_at_def)
  show ?thesis
  proof (cases "find (\<lambda>f. always_denied (fd_risk f)) ?fs")
    case None
    with assms show ?thesis by (auto simp: ev ev_decision_decide verdict_def find_None_iff split: if_splits)
  next
    case (Some f)
    then obtain i where i: "i < length ?fs" "always_denied (fd_risk (?fs ! i))" "f = ?fs ! i"
      "\<forall>j < i. \<not> always_denied (fd_risk (?fs ! j))" by (auto simp: find_Some_iff simp del: length_append)
    have "?fs = take i ?fs @ f # drop (Suc i) ?fs" using i by (metis id_take_nth_drop)
    moreover have "list_all (\<lambda>g. \<not> always_denied (fd_risk g)) (take i ?fs)"
      using i by (auto simp: list_all_length simp del: take_append)
    moreover have "ev_code (decide permissions source ?fs) = fd_code f"
      using Some by (simp add: decide_def Let_def)
    ultimately show ?thesis using i(2,3) unfolding ev ev_findings_decide by blast
  qed
qed

lemma analyze_sudo:
  "analyze_body home analyze rp cwd (S ''sudo ls'') =
     Inr [finding 0 (S ''sudo'') Catastrophic ''command.catastrophic.privilege_escalation'']"
  by code_simp

theorem denial_names_first_denied_finding_witness:
  "\<exists>pre f post.
    ev_findings (evaluate_command_policy_at None (S ''sudo ls'') full_permissions ExplicitUser None None)
      = pre @ f # post
    \<and> list_all (\<lambda>g. \<not> always_denied (fd_risk g)) pre \<and> always_denied (fd_risk f)
    \<and> ev_code (evaluate_command_policy_at None (S ''sudo ls'') full_permissions ExplicitUser None None)
      = fd_code f"
proof (rule denial_names_first_denied_finding)
  show "ev_decision (evaluate_command_policy_at None (S ''sudo ls'') full_permissions ExplicitUser None None) = Deny"
    by (simp add: evaluate_command_policy_at_def analyze_command.simps [of _ _ _ _ 0] MAX_POLICY_NESTING_def
        analyze_sudo ev_decision_decide verdict_def)
qed

text \<open>The analysis of accepted text is never empty.\<close>

lemma spec_program_nonempty:
  assumes "\<And>c ks. analyze c = Inr ks \<Longrightarrow> ks \<noteq> []" and "spec_program home analyze rp cwd segment ep = Inr ks"
  shows "ks \<noteq> []"
  using assms(2) unfolding spec_program_def Let_def
  by (elim early_returnE)
    (auto simp: spec_shell_def spec_shell_command_def and_then_eq_Inr_iff script_keys_def
      append_shell_script_finding_def simple_keys_def assess_simple_def append_redirection_findings_def
      simp del: one_of_Cons lget_eq_Some_iff split: if_split_asm option.split_asm prod.split_asm
      dest: assms(1))

lemma spec_segment_nonempty:
  assumes "\<And>c ks. analyze c = Inr ks \<Longrightarrow> ks \<noteq> []" and "spec_segment home analyze rp cwd segment = Inr ks"
  shows "ks \<noteq> []"
  using assms(2) spec_program_nonempty [OF assms(1)]
  by (cases "env_split_command (seg_tokens segment)"; cases "projr (env_split_command (seg_tokens segment))";
      cases "effective_program (seg_tokens segment)")
    (auto simp: spec_segment_def spec_env_split_def and_then_eq_Inr_iff split: if_split_asm)

lemma spec_command_nonempty: "spec_command n home rp cwd c = Inr ks \<Longrightarrow> ks \<noteq> []"
proof (induction n arbitrary: c ks)
  case (Suc n)
  from Suc.prems obtain body lx where lexed: "normalize_command_text c = Inr body" "lex_command body = Inr lx"
    by (auto simp: spec_body_def)
  from lex_command_inv [OF lexed(2)] have "hd (lexed_segments lx) \<in> set (lexed_segments lx)"
    by (simp add: lexed_ok_def)
  from spec_command_segment [OF Suc.prems lexed this] spec_segment_nonempty [OF Suc.IH]
  show ?case by fastforce
qed simp

text \<open>
  Every evaluation, whatever its decision, explains itself with at least one finding: no
  command is allowed because nothing was looked at.
\<close>

theorem evaluation_has_finding:
  "ev_findings (evaluate_command_policy_at home command permissions source root cwd) \<noteq> []"
proof (cases "analyze_command home command (pm_read permissions) cwd 0")
  case (Inl e)
  then show ?thesis by (simp add: evaluate_command_policy_at_def denied_syntax_def)
next
  case (Inr fs)
  then have "spec_command (Suc MAX_POLICY_NESTING) home (pm_read permissions) cwd command = Inr (keys fs)"
    using keyed_analyze_command_depth [of home command "pm_read permissions" cwd 0]
    by (simp del: spec_command.simps)
  from spec_command_nonempty [OF this] Inr show ?thesis
    by (auto simp: evaluate_command_policy_at_def)
qed

section \<open>The aggregated level\<close>

instantiation agent_command_risk_level :: linorder
begin

definition less_eq_agent_command_risk_level :: "agent_command_risk_level \<Rightarrow> agent_command_risk_level \<Rightarrow> bool" where
  "less_eq_agent_command_risk_level a b = (risk_level_key a \<le> risk_level_key b)"

definition less_agent_command_risk_level :: "agent_command_risk_level \<Rightarrow> agent_command_risk_level \<Rightarrow> bool" where
  "less_agent_command_risk_level a b = (risk_level_key a < risk_level_key b)"

instance
proof
  fix a b :: agent_command_risk_level
  show "a \<le> b \<Longrightarrow> b \<le> a \<Longrightarrow> a = b"
    by (cases a; cases b) (simp_all add: less_eq_agent_command_risk_level_def)
qed (auto simp: less_eq_agent_command_risk_level_def less_agent_command_risk_level_def)

end

lemma foldl_max_level:
  "foldl (\<lambda>best y. if risk_level_key best \<le> risk_level_key y then y else best) x xs = Max (set (x # xs))"
proof (induction xs arbitrary: x)
  case (Cons y ys)
  have "(if risk_level_key x \<le> risk_level_key y then y else x) = max x y"
    by (simp add: max_def less_eq_agent_command_risk_level_def)
  with Cons.IH [of "max x y"] show ?case
    by (cases "ys = []") (simp_all add: max.assoc)
qed simp

text \<open>
  The displayed risk level is the maximum of the levels of the findings in the order read-only,
  workspace write, unknown, network, destructive; in particular it does not depend on the order of
  the findings.
\<close>

theorem aggregate_is_maximum:
  assumes "findings \<noteq> []"
  shows "aggregate_risk_level findings = Max (risk_level_of ` fd_risk ` set findings)"
proof -
  obtain f fs where "findings = f # fs" using assms by (cases findings) auto
  then show ?thesis by (simp add: aggregate_risk_level_def foldl_max_level image_image)
qed

theorem aggregate_is_maximum_witness:
  "aggregate_risk_level [finding 0 (S ''ls'') ReadOnly ''a'', finding 1 (S ''curl'') Network ''b'',
     finding 2 (S ''x'') Unknown ''c''] =
   Max (risk_level_of ` fd_risk ` set [finding 0 (S ''ls'') ReadOnly ''a'',
     finding 1 (S ''curl'') Network ''b'', finding 2 (S ''x'') Unknown ''c''])"
  by (rule aggregate_is_maximum) simp

lemma ev_risk_level_decide [simp]: "ev_risk_level (decide permissions source fs) = aggregate_risk_level fs"
  by (simp add: decide_def Let_def split: option.split)

text \<open>
  The risk label shown with a proposal is the label of the evaluation that authorizes it,
  for every safety policy and authorization source.
\<close>

theorem displayed_risk_is_policy_risk:
  "classify_command_risk home command = ev_risk_level (evaluate_command_policy home command safety source)"
  by (cases "analyze_command home command ReadAll None 0")
    (simp_all add: classify_command_risk_def evaluate_command_policy_def evaluate_command_policy_at_def
      denied_syntax_def scope_findings_def)

section \<open>The nesting limit\<close>

text \<open>
  At the deepest level the analysis accepts no further nesting: a command that still embeds
  another one is an error there, and so the whole command is denied, never analysed partially.
\<close>

theorem nesting_limit_fails_closed:
  assumes "normalize_command_text command = Inr body" and "lex_command body = Inr lexed"
    and "lexed_embedded_commands lexed \<noteq> []"
  shows "\<exists>e. analyze_command home command rp cwd MAX_POLICY_NESTING = Inl e"
proof -
  have "keyed (analyze_command home command rp cwd MAX_POLICY_NESTING) = spec_command (Suc 0) home rp cwd command"
    using keyed_analyze_command_depth [of home command rp cwd MAX_POLICY_NESTING] by (simp del: spec_command.simps)
  moreover have "\<exists>e. spec_command (Suc 0) home rp cwd command = Inl e"
  proof (cases "spec_command (Suc 0) home rp cwd command")
    case (Inr ks)
    have "hd (lexed_embedded_commands lexed) \<in> set (lexed_embedded_commands lexed)" using assms(3) by simp
    from spec_command_embedded [OF Inr assms(1,2) this] show ?thesis by simp
  qed blast
  ultimately show ?thesis by auto
qed

theorem nesting_limit_fails_closed_witness:
  "\<exists>e. analyze_command None (S ''ls $(ls)'') ReadAll None MAX_POLICY_NESTING = Inl e"
proof -
  let ?lexed = "case lex_command (S ''ls $(ls)'') of Inr lexed \<Rightarrow> lexed"
  have "normalize_command_text (S ''ls $(ls)'') = Inr (S ''ls $(ls)'')" by code_simp
  moreover have "lex_command (S ''ls $(ls)'') = Inr ?lexed" by code_simp
  moreover have "lexed_embedded_commands ?lexed \<noteq> []" by code_simp
  ultimately show ?thesis by (rule nesting_limit_fails_closed)
qed

end
