(* ===== verification/Command_Text.thy ===== *)
theory Command_Text
  imports Command_Policy
begin

text \<open>
  The canonical command text (\<open>normalize_command_text\<close> of \<open>command/policy.rs\<close>) that ingestion, policy,
  approval and process launch share.
\<close>

lemma replace_crlf_shorter: "length (replace_crlf s) \<le> length s"
  by (induction s rule: replace_crlf.induct) auto

lemma replace_crlf_fixed: "CR \<notin> set s \<Longrightarrow> replace_crlf s = s"
  by (induction s rule: replace_crlf.induct) auto

lemma replace_char_fixed: "a \<notin> set s \<Longrightarrow> replace_char a b s = s"
  by (induction s) (auto simp: replace_char_def)

lemma replace_char_removes: "a \<noteq> b \<Longrightarrow> a \<notin> set (replace_char a b s)"
  by (auto simp: replace_char_def)

text \<open>The three guards of the canonical form, as one predicate on text.\<close>

definition canonical_text :: "rstring \<Rightarrow> bool" where
  "canonical_text t \<longleftrightarrow>
     CR \<notin> set t \<and> str_trim t \<noteq> [] \<and> length t \<le> MAX_COMMAND_CHARS \<and> Ch (CHR 0x00) \<notin> set t"

lemma normalize_canonical: "normalize_command_text c = Inr t \<Longrightarrow> canonical_text t"
  by (auto simp: normalize_command_text_def canonical_text_def Let_def list_ex_iff replace_char_removes
      split: if_splits)

lemma canonical_fixed: "canonical_text t \<Longrightarrow> normalize_command_text t = Inr t"
  by (auto simp: normalize_command_text_def canonical_text_def Let_def list_ex_iff replace_char_fixed
      replace_crlf_fixed)

text \<open>
  Normalisation accepts exactly the texts it leaves alone, up to line endings: the result of
  a successful normalisation has no carriage return and no NUL, is not blank, stays within the length
  bound, and is its own canonical form.
\<close>

theorem canonical_text_fixpoint:
  "(\<exists>c. normalize_command_text c = Inr t) \<longleftrightarrow> canonical_text t \<and> normalize_command_text t = Inr t"
  using normalize_canonical canonical_fixed by blast

lemma analyze_canonical:
  assumes "normalize_command_text c = Inr t"
  shows "analyze_command home c rp cwd depth = analyze_command home t rp cwd depth"
  using assms canonical_fixed [OF normalize_canonical [OF assms]]
  by (simp add: analyze_command.simps [of home _ rp cwd depth] analyze_body_def)

text \<open>
  The policy judges the canonical text: whichever spelling of line endings the model sent, the
  evaluation is that of the text that is approved, stored and executed.
\<close>

theorem policy_reads_canonical_text:
  assumes "normalize_command_text command = Inr canonical"
  shows "evaluate_command_policy_at home command permissions source root cwd =
         evaluate_command_policy_at home canonical permissions source root cwd"
  using analyze_canonical [OF assms] by (simp add: evaluate_command_policy_at_def)

theorem policy_reads_canonical_text_witness:
  "evaluate_command_policy_at None (S ''ls'' @ [CR, NL] @ S ''pwd'' @ [CR]) default_permissions Automatic None None =
   evaluate_command_policy_at None (S ''ls'' @ [NL] @ S ''pwd'' @ [NL]) default_permissions Automatic None None"
proof -
  have "normalize_command_text (S ''ls'' @ [CR, NL] @ S ''pwd'' @ [CR]) =
      Inr (S ''ls'' @ [NL] @ S ''pwd'' @ [NL])" by code_simp
  then show ?thesis by (rule policy_reads_canonical_text)
qed

end
