(* ===== verification/Command_Redirections.thy ===== *)
theory Command_Redirections
  imports Command_Nesting Command_Text
begin

text \<open>
  The scan of write-redirection targets (\<open>validate_write_redirection_targets\<close> of
  \<open>command/policy.rs\<close>) against the text it protects: in text without quotes, escapes and input
  redirections, an output redirection to a device or a kernel interface denies the command.
\<close>

section \<open>Text without here-documents\<close>

definition no_heredoc :: "lex_state \<Rightarrow> bool" where
  "no_heredoc s \<longleftrightarrow> lx_pending_heredoc s = None \<and> lx_ignored_policy_ranges s = []"

lemma no_heredoc_bookkeeping [simp]:
  "no_heredoc (push_token_with_range e s) = no_heredoc s" "no_heredoc (end_word s) = no_heredoc s"
  "no_heredoc (mark_token_start s) = no_heredoc s" "no_heredoc (close_segment s) = no_heredoc s"
  "no_heredoc (flush_redirection_word s) = no_heredoc s"
  by (simp_all add: no_heredoc_def push_token_with_range_def end_word_def mark_token_start_def
      close_segment_def flush_redirection_word_def Let_def)

lemma no_heredoc_update [simp]:
  "no_heredoc (s\<lparr>lx_index := i\<rparr>) = no_heredoc s" "no_heredoc (s\<lparr>lx_token := w\<rparr>) = no_heredoc s"
  "no_heredoc (s\<lparr>lx_quote := q\<rparr>) = no_heredoc s" "no_heredoc (s\<lparr>lx_separator_state := p\<rparr>) = no_heredoc s"
  "no_heredoc (s\<lparr>lx_embedded_commands := e\<rparr>) = no_heredoc s"
  "no_heredoc (s\<lparr>lx_write_redirection := b\<rparr>) = no_heredoc s"
  "no_heredoc (s\<lparr>lx_input_redirections := r\<rparr>) = no_heredoc s"
  "no_heredoc (s\<lparr>lx_token_has_quoted_or_escaped_content := b\<rparr>) = no_heredoc s"
  by (simp_all add: no_heredoc_def)

lemma no_heredoc_newline: "no_heredoc s \<Longrightarrow> lex_newline chars s = Inr t \<Longrightarrow> no_heredoc t"
proof -
  assume s: "no_heredoc s" and t: "lex_newline chars s = Inr t"
  define s3 where "s3 = (let s1 = end_word s; s2 = (if lx_tokens s1 \<noteq> [] then close_segment s1 else s1) in
    s2\<lparr>lx_separator_state := SepNone, lx_index := lx_index s2 + 1\<rparr>)"
  from s have s3: "no_heredoc s3" by (simp add: s3_def Let_def)
  then have "lx_pending_heredoc s3 = None" by (simp add: no_heredoc_def)
  then have "t = (end_word s)\<lparr>lx_index := lx_index (end_word s) + 1\<rparr> \<or> t = s3"
    using t by (auto simp: lex_newline_def s3_def Let_def split: if_split_asm)
  with s s3 show ?thesis by auto
qed

lemma no_heredoc_step:
  assumes "no_heredoc s" and "lex_step chars s = Inr t" and "Ch CHR ''<'' \<notin> set chars"
  shows "no_heredoc t"
proof (cases "lx_quote s")
  case QNone
  with assms(2) have "lex_unquoted chars (chars ! lx_index s) s = Inr t" by (simp add: lex_step_def Let_def)
  then show ?thesis
  proof (cases rule: lex_unquoted_cases)
    case newline
    with assms(1) show ?thesis by (blast intro: no_heredoc_newline)
  next
    case heredoc
    then have "Ch CHR ''<'' \<in> set chars" by (auto dest: nth_mem)
    with assms(3) show ?thesis by simp
  qed (use assms(1) in \<open>auto simp: lex_escape_def lex_dollar_paren_def lex_backtick_def
      lex_output_redirection_def lex_input_redirection_def lex_separator_def Let_def
      split: option.split_asm if_split_asm\<close>)
next
  case QSingle
  with assms show ?thesis by (auto simp: lex_step_def lex_single_def Let_def)
next
  case QDouble
  with assms(1,2) show ?thesis
    by (auto simp: lex_step_def lex_double_def lex_escape_def lex_dollar_paren_def lex_backtick_def Let_def
        split: option.split_asm if_split_asm)
qed

lemma no_heredoc_loop:
  "lex_loop chars s = Inr t \<Longrightarrow> no_heredoc s \<Longrightarrow> Ch CHR ''<'' \<notin> set chars \<Longrightarrow> no_heredoc t"
proof (induction chars s rule: lex_loop.induct)
  case (1 chars s)
  show ?case
  proof (cases "lx_index s < length chars")
    case True
    with "1.prems"(1) obtain u where u: "lex_step chars s = Inr u" "lex_loop chars u = Inr t"
      by (auto simp: lex_loop.simps [of chars s])
    with "1.IH" [OF True u(1)] no_heredoc_step [OF "1.prems"(2) u(1) "1.prems"(3)] "1.prems"(3)
    show ?thesis by simp
  next
    case False
    with "1.prems" show ?thesis by (simp add: lex_loop.simps [of chars s])
  qed
qed

lemma no_ignored_ranges:
  assumes "lex_command command = Inr lexed" and "Ch CHR ''<'' \<notin> set command"
  shows "lexed_ignored_policy_ranges lexed = []"
proof -
  from assms(1) obtain s where s: "lex_loop command lex_init = Inr s" "lex_finish command s = Inr lexed"
    by (auto simp: lex_command_def)
  have "no_heredoc s"
    using no_heredoc_loop [OF s(1) _ assms(2)] by (simp add: no_heredoc_def lex_init_def)
  then have "no_heredoc (push_token_with_range (length command) s)" by simp
  with s(2) show ?thesis
    by (auto simp: lex_finish_def Let_def no_heredoc_def split: if_split_asm)
qed

section \<open>Scanning plain text\<close>

definition plain_char :: "rchar \<Rightarrow> bool" where
  "plain_char c \<longleftrightarrow> c \<notin> {SQ, DQ, BSL, CR, Ch CHR ''<'', Ch CHR ''>''}"

lemma validate_plain_prefix:
  "list_all plain_char pre \<Longrightarrow> i \<le> length pre \<Longrightarrow>
     validate_from (pre @ rest) [] None False i = validate_from (pre @ rest) [] None False (length pre)"
proof (induction "length pre - i" arbitrary: i)
  case (Suc n)
  then have i: "i < length pre" and n: "n = length pre - (i + 1)" by auto
  then have "plain_char (pre ! i)" using Suc.prems(1) by (simp add: list_all_length)
  then have "validate_from (pre @ rest) [] None False i = validate_from (pre @ rest) [] None False (i + 1)"
    using i by (subst validate_from.simps) (simp add: find_range_def nth_append plain_char_def)
  with Suc.hyps(1) [OF n] Suc.prems(1) i show ?case by simp
qed simp

text \<open>A word that a shell reads literally as a redirection target.\<close>

definition literal_char :: "rchar \<Rightarrow> bool" where
  "literal_char c \<longleftrightarrow>
     \<not> is_word_break c \<and> \<not> among c ([CHR 0x27, CHR 0x22, CHR 0x5C, CHR 0x60] @ ''$*?[{}'')"

lemma literal_charD:
  assumes "literal_char c"
  shows "c \<noteq> SQ" "c \<noteq> DQ" "c \<noteq> BSL" "\<not> is_word_break c" "\<not> among c (CHR 0x60 # ''$*?[{}'')"
    "\<not> is_whitespace c" "\<not> among c '';|&''" "c \<noteq> Ch CHR ''<''" "c \<noteq> Ch CHR ''>''" "c \<noteq> Ch CHR ''&''" "c \<noteq> CR"
  using assms by (cases c; auto simp: literal_char_def is_word_break_def)+

definition literal_target :: "rstring \<Rightarrow> bool" where
  "literal_target t \<longleftrightarrow> t \<noteq> [] \<and> hd t \<noteq> Ch CHR ''~'' \<and> list_all literal_char t"

lemma target_word_literal:
  "list_all literal_char t \<Longrightarrow>
   (v = [] \<longrightarrow> t \<noteq> [] \<longrightarrow> hd t \<noteq> Ch CHR ''~'') \<Longrightarrow>
     target_word t i v False None False = (v @ t, False, None, i + length t)"
proof (induction t arbitrary: v i)
  case (Cons c t)
  then have tilde: "(c = Ch CHR ''~'' \<and> v = []) = False" and c: "literal_char c" by auto
  from literal_charD [OF c] Cons.IH [of "v @ [c]" "i + 1"] Cons.prems show ?case by (simp add: tilde)
qed simp

lemma check_literal_target:
  assumes "literal_target t"
  shows "check_target_at (pre @ t) (length pre) =
    (if is_catastrophic_write_target t then err ''command.catastrophic.storage_device'' else Inr (length pre + length t))"
proof -
  obtain c cs where t: "t = c # cs" using assms by (cases t) (auto simp: literal_target_def)
  with assms have first: "\<not> is_whitespace c" "\<not> among c '';|&''"
    by (auto simp: literal_target_def dest: literal_charD)
  have "skip_whitespace (pre @ t) (length pre) = length pre"
    using first(1) t by (simp add: skip_whitespace_def)
  moreover have "lget (pre @ t) (length pre) = Some c" using t by (simp add: nth_append)
  moreover have "target_word t (length pre) [] False None False = (t, False, None, length pre + length t)"
    using target_word_literal [of t "[]"] assms by (simp add: literal_target_def)
  ultimately have "read_redirection_target (pre @ t) (length pre) = Inr ((t, False), length pre + length t)"
    using first(2) assms by (simp add: read_redirection_target_def literal_target_def
        del: lget_eq_Some_iff target_word.simps)
  then show ?thesis
    using \<open>skip_whitespace (pre @ t) (length pre) = length pre\<close> by (simp add: check_target_at_def)
qed

lemma literal_target_chars:
  assumes "literal_target t"
  shows "Ch CHR ''<'' \<notin> set t" "CR \<notin> set t" "hd t \<noteq> Ch CHR ''>''" "hd t \<noteq> Ch CHR ''&''" "t \<noteq> []"
  using assms
  by (auto simp: literal_target_def list_all_iff neq_Nil_conv dest: literal_charD)

lemma validate_device_target:
  assumes "list_all plain_char pre" and "literal_target t" and "is_catastrophic_write_target t"
  shows "validate_write_redirection_targets (pre @ Ch CHR ''>'' # t) [] =
    err ''command.catastrophic.storage_device''"
proof -
  let ?chars = "pre @ Ch CHR ''>'' # t"
  have next_char: "lget ?chars (length pre + 1) = Some (hd t)"
    using literal_target_chars(5) [OF assms(2)] by (cases t) (auto simp: nth_append)
  have "check_write_redirection ?chars (length pre) = check_target_at ?chars (length pre + 1)"
    using next_char literal_target_chars(3,4) [OF assms(2)]
    by (simp add: check_write_redirection_def del: lget_eq_Some_iff)
  also have "\<dots> = err ''command.catastrophic.storage_device''"
    using check_literal_target [OF assms(2), of "pre @ [Ch CHR ''>'']"] assms(3) by simp
  finally have "validate_from ?chars [] None False (length pre) = err ''command.catastrophic.storage_device''"
    by (subst validate_from.simps) (simp add: find_range_def nth_append)
  then show ?thesis
    using validate_plain_prefix [OF assms(1), of 0 "Ch CHR ''>'' # t"]
    by (simp add: validate_write_redirection_targets_def)
qed

text \<open>
  A command whose text ends in an output redirection to a storage device or a kernel
  interface is denied under every permission and authorization, whatever plain text precedes the
  redirection.
\<close>

theorem device_redirection_denied:
  assumes "list_all plain_char pre" and "literal_target target" and "is_catastrophic_write_target target"
  shows "ev_decision (evaluate_command_policy_at home (pre @ Ch CHR ''>'' # target) permissions source root cwd) = Deny"
proof -
  let ?command = "pre @ Ch CHR ''>'' # target"
  have chars: "CR \<notin> set ?command" "Ch CHR ''<'' \<notin> set ?command"
    using assms(1) literal_target_chars(1,2) [OF assms(2)] by (auto simp: list_all_iff plain_char_def)
  have "\<exists>e. analyze_command home ?command rp cwd 0 = Inl e" for rp
  proof (cases "normalize_command_text ?command")
    case (Inr body)
    have body: "body = ?command"
      using Inr chars(1)
      by (auto simp: normalize_command_text_def Let_def replace_crlf_fixed replace_char_fixed split: if_split_asm)
    show ?thesis
    proof (cases "lex_command ?command")
      case lexed: (Inr lexed)
      from no_ignored_ranges [OF lexed chars(2)] validate_device_target [OF assms] Inr lexed body
      show ?thesis
        by (simp add: analyze_command.simps [of _ _ _ _ 0] analyze_body_def MAX_POLICY_NESTING_def)
    qed (use Inr body in \<open>simp add: analyze_command.simps [of _ _ _ _ 0] analyze_body_def MAX_POLICY_NESTING_def\<close>)
  qed (simp add: analyze_command.simps [of _ _ _ _ 0] analyze_body_def MAX_POLICY_NESTING_def)
  then obtain e where "analyze_command home ?command (pm_read permissions) cwd 0 = Inl e" by blast
  then show ?thesis by (simp add: evaluate_command_policy_at_def denied_syntax_def)
qed

theorem device_redirection_denied_witness:
  "ev_decision (evaluate_command_policy_at None (S ''echo x '' @ Ch CHR ''>'' # S ''/dev/./sda'')
     full_permissions ExplicitUser None None) = Deny"
proof (rule device_redirection_denied)
  show "list_all plain_char (S ''echo x '')" by (simp add: plain_char_def S_def)
  show "literal_target (S ''/dev/./sda'')" by (simp add: literal_target_def literal_char_def S_def is_word_break_def)
  show "is_catastrophic_write_target (S ''/dev/./sda'')" by code_simp
qed

end
