(* ===== verification/Command_Evasions.thy ===== *)
theory Command_Evasions
  imports Command_Nesting
begin

text \<open>
  Concrete commands on which the text that a POSIX shell runs and the text that the policy judges
  differ. Each is evaluated by the kernel on the model of the source.
\<close>

lemma evaluate_from_body:
  assumes "analyze_body home (\<lambda>nested. analyze_command home nested ReadAll None 1) ReadAll None command = Inr fs"
  shows "ev_decision (evaluate_command_policy home command safety source) =
         verdict safety source (fd_risk ` set fs)"
  using assms
  by (simp add: evaluate_command_policy_def evaluate_command_policy_at_def scope_findings_def
      analyze_command.simps [of _ _ _ _ 0] MAX_POLICY_NESTING_def ev_decision_decide default_permissions_def)

section \<open>A quoted program after a pipe\<close>

text \<open>
  \<open>lex_command\<close> clears its pending-operator state when a plain character starts a word, but not when a
  quote, an escape or a substitution does. After \<open>ls | 'cat'\<close> it still believes that an operand is
  missing, so the newline joins the next line to the segment: \<open>rm f\<close> becomes arguments of \<open>cat\<close>.
\<close>

definition quoted_after_pipe :: rstring where
  "quoted_after_pipe = S ''ls | '' @ [SQ] @ S ''cat'' @ [SQ, NL] @ S ''rm f''"

lemma quoted_after_pipe_segments:
  "map_sum id (\<lambda>lx. map seg_tokens (lexed_segments lx)) (lex_command quoted_after_pipe) =
     Inr [[S ''ls''], [S ''cat'', S ''rm'', S ''f'']]"
  by code_simp

lemma quoted_after_pipe_body:
  "analyze_body None analyze ReadAll None quoted_after_pipe =
     Inr [finding 0 (S ''ls'') ReadOnly ''command.risk.read_only'',
          finding 1 (S ''cat'') ReadOnly ''command.risk.read_only'']"
  by code_simp

lemma remove_body:
  "analyze_body None analyze ReadAll None (S ''rm f'') =
     Inr [finding 0 (S ''rm'') HighImpact ''command.risk.high_impact'']"
  by code_simp

lemma quoted_after_pipe_hides_removal:
  "ev_decision (evaluate_command_policy None quoted_after_pipe Guarded Automatic) = Allow"
  "ev_decision (evaluate_command_policy None (S ''rm f'') Guarded Automatic) = RequireExplicitApproval"
  using evaluate_from_body [OF quoted_after_pipe_body] evaluate_from_body [OF remove_body]
  by (simp_all add: verdict_def)

section \<open>A here-document before a pipe\<close>

text \<open>
  A newline after a trailing operator is skipped as a continuation even when a here-document header is
  pending. The lexer then takes the body's first line as the next command and starts skipping data one
  line late, so a line that the shell runs is skipped as data.
\<close>

definition heredoc_before_pipe :: rstring where
  "heredoc_before_pipe =
     S ''cat <<'' @ [SQ] @ S ''true'' @ [SQ] @ S '' |'' @ [NL] @ S ''true'' @ [NL] @ S ''rm f'' @ [NL]
     @ S ''true'' @ [NL]"

lemma heredoc_before_pipe_body:
  "analyze_body None analyze ReadAll None heredoc_before_pipe =
     Inr [finding 0 (S ''cat'') ReadOnly ''command.risk.read_only'',
          finding 1 (S ''true'') ReadOnly ''command.risk.read_only'']"
  by code_simp

lemma heredoc_before_pipe_hides_removal:
  "ev_decision (evaluate_command_policy None heredoc_before_pipe Guarded Automatic) = Allow"
  using evaluate_from_body [OF heredoc_before_pipe_body] by (simp add: verdict_def)

section \<open>An apostrophe in a comment\<close>

text \<open>
  The scan of write-redirection targets does not know comments. An apostrophe in a comment opens a
  quote for the rest of the text, and a redirection to a storage device on the next line is not seen;
  the lexer, which skips the comment, reports an ordinary write.
\<close>

definition comment_apostrophe :: rstring where
  "comment_apostrophe = S ''ls # '' @ [SQ, NL] @ S ''echo x >/dev/sda''"

lemma comment_apostrophe_body:
  "analyze_body None analyze ReadAll None comment_apostrophe =
     Inr [finding 0 (S ''ls'') ReadOnly ''command.risk.read_only'',
          finding 1 (S ''echo'') ReadOnly ''command.risk.read_only'',
          finding 1 (S ''echo'') DirectWrite ''command.risk.write_redirection'']"
  by code_simp

lemma device_write_body:
  "analyze_body None analyze ReadAll None (S ''echo x >/dev/sda'') =
     err ''command.catastrophic.storage_device''"
  by code_simp

lemma comment_apostrophe_hides_device:
  "ev_decision (evaluate_command_policy None comment_apostrophe FullAccess Automatic) = Allow"
  "ev_decision (evaluate_command_policy None (S ''echo x >/dev/sda'') FullAccess Automatic) = Deny"
  using evaluate_from_body [OF comment_apostrophe_body] device_write_body
  by (simp_all add: verdict_def evaluate_command_policy_def evaluate_command_policy_at_def
      analyze_command.simps [of _ _ _ _ 0] MAX_POLICY_NESTING_def denied_syntax_def)

section \<open>A substitution in the target of an input redirection\<close>

text \<open>
  \<open>read_redirection_target\<close> takes the target of an input redirection as text and only notes that it is dynamic. A
  command substitution in it, which the shell runs, is not analysed as an embedded command. A command that is denied under
  every authority is thereby only an unknown risk.
\<close>

definition substituted_input :: rstring where
  "substituted_input = S ''cat <'' @ [DQ] @ S ''$(sudo ls)'' @ [DQ]"

lemma substituted_input_body:
  "analyze_body None analyze ReadAll None substituted_input =
     Inr [finding 0 (S ''cat'') ReadOnly ''command.risk.read_only'',
          finding 0 (S ''cat'') Unknown ''command.risk.dynamic_input_redirection'']"
  by code_simp

lemma sudo_body:
  "analyze_body None analyze ReadAll None (S ''sudo ls'') =
     Inr [finding 0 (S ''sudo'') Catastrophic ''command.catastrophic.privilege_escalation'']"
  by code_simp

lemma substituted_input_hides_sudo:
  "ev_decision (evaluate_command_policy None substituted_input FullAccess Automatic) = Allow"
  "ev_decision (evaluate_command_policy None (S ''sudo ls'') FullAccess Automatic) = Deny"
  using evaluate_from_body [OF substituted_input_body] evaluate_from_body [OF sudo_body]
  by (simp_all add: verdict_def)

end
