(* ===== verification/Lexical_Paths.thy ===== *)
theory Lexical_Paths
  imports Command_Targets
begin

text \<open>
  Lexical normalisation of paths (\<open>normalize_lexical_path\<close> of \<open>command/risk.rs\<close>): its result holds
  names only, normalising twice changes nothing, and a detour \<open>x/..\<close> inside a path is invisible to it
  and to the write-target check built on it.
\<close>

section \<open>Pieces\<close>

lemma split_on_append:
  "p d \<Longrightarrow> split_on p (a @ d # b) = split_on p a @ split_on p b"
  by (induction a) (auto split: list.split)

lemma split_on_no_match: "\<forall>c \<in> set s. \<not> p c \<Longrightarrow> split_on p s = [s]"
  by (induction s) auto

lemma split_on_pieces: "w \<in> set (split_on p s) \<Longrightarrow> \<forall>c \<in> set w. \<not> p c"
proof (induction s arbitrary: w)
  case (Cons c s)
  then show ?case
    by (cases "split_on p s") (fastforce split: if_splits)+
qed simp

lemma path_pieces_append: "path_pieces (a @ SLASH # b) = path_pieces a @ path_pieces b"
  by (simp add: path_pieces_def split_on_append)

text \<open>A name that a path component can carry.\<close>

definition plain_name :: "rstring \<Rightarrow> bool" where
  "plain_name w \<longleftrightarrow> w \<noteq> [] \<and> w \<noteq> S ''.'' \<and> w \<noteq> S ''..'' \<and> SLASH \<notin> set w"

lemma path_pieces_plain: "plain_name w \<Longrightarrow> path_pieces w = [w]"
  unfolding path_pieces_def plain_name_def by (rule split_on_no_match) auto

lemma piece_component_plain: "plain_name w \<Longrightarrow> piece_component w = [Normal w]"
  by (simp add: piece_component_def plain_name_def)

lemma path_components_names: "Normal w \<in> set (path_components p) \<Longrightarrow> plain_name w"
  by (auto simp: path_components_def piece_component_def plain_name_def path_pieces_def
      dest: split_on_pieces split: if_splits)

section \<open>Normal buffers\<close>

text \<open>What \<open>normalize_lexical_path\<close> builds: an optional root followed by names.\<close>

fun names_only :: "path_component list \<Rightarrow> bool" where
  "names_only [] = True"
| "names_only (Normal w # cs) = (plain_name w \<and> names_only cs)"
| "names_only _ = False"

fun normal_buf :: "path_buf \<Rightarrow> bool" where
  "normal_buf (RootDir # cs) = names_only cs"
| "normal_buf cs = names_only cs"

lemma names_only_append [simp]: "names_only (a @ b) \<longleftrightarrow> names_only a \<and> names_only b"
  by (induction a rule: names_only.induct) auto

lemma names_only_butlast: "names_only a \<Longrightarrow> names_only (butlast a)"
  by (induction a rule: names_only.induct) auto

lemma normal_buf_iff:
  "normal_buf b \<longleftrightarrow> names_only b \<or> (\<exists>cs. b = RootDir # cs \<and> names_only cs)"
  by (cases b rule: normal_buf.cases) auto

lemma normal_buf_step:
  "normal_buf b \<Longrightarrow> (\<And>w. c = Normal w \<Longrightarrow> plain_name w) \<Longrightarrow> normal_buf (normalize_step b c)"
  by (cases c) (auto simp: normal_buf_iff path_pop_def names_only_butlast butlast_append)

lemma normal_buf_foldl:
  "normal_buf b \<Longrightarrow> (\<And>w. Normal w \<in> set cs \<Longrightarrow> plain_name w) \<Longrightarrow> normal_buf (foldl normalize_step b cs)"
proof (induction cs arbitrary: b)
  case (Cons c cs)
  then show ?case using normal_buf_step [of b c] by simp
qed simp

lemma normal_buf_normalize: "normal_buf (normalize_lexical_path p)"
  unfolding normalize_lexical_path_def normalize_components_def
  by (rule normal_buf_foldl) (auto dest: path_components_names)

section \<open>Reading a normal buffer back\<close>

lemma join_names_pieces:
  "names_only cs \<Longrightarrow> concat (map piece_component (path_pieces (join_names cs))) = cs"
proof (induction cs rule: join_names.induct)
  case 1
  show ?case by (simp add: path_pieces_def piece_component_def)
qed (auto simp: path_pieces_append path_pieces_plain piece_component_plain)

lemma plain_name_first: "plain_name w \<Longrightarrow> \<not> path_is_absolute (w @ s) \<and> w \<noteq> S ''.''"
  by (cases w) (auto simp: plain_name_def path_is_absolute_def)

lemma join_names_first:
  "names_only cs \<Longrightarrow> hd (path_pieces (join_names cs)) \<noteq> S ''.'' \<and> \<not> path_is_absolute (join_names cs)"
proof (induction cs rule: join_names.induct)
  case 1
  show ?case by (simp add: path_pieces_def path_is_absolute_def)
next
  case (2 w)
  then show ?case using plain_name_first [of w "[]"] by (simp add: path_pieces_plain)
next
  case (3 w v va)
  then show ?case using plain_name_first [of w] by (simp add: path_pieces_append path_pieces_plain)
qed auto

lemma path_components_path_string:
  assumes "normal_buf b"
  shows "path_components (path_string b) = b"
proof (cases "names_only b")
  case True
  then have "path_string b = join_names b"
    by (cases b rule: normal_buf.cases) (auto simp: path_string_def split: list.split path_component.split)
  with True join_names_pieces [OF True] join_names_first [OF True] show ?thesis
    by (simp add: path_components_def)
next
  case False
  with assms obtain cs where b: "b = RootDir # cs" "names_only cs" by (auto simp: normal_buf_iff)
  then have "path_string b = SLASH # join_names cs" by (simp add: path_string_def)
  moreover have "path_pieces (SLASH # join_names cs) = [] # path_pieces (join_names cs)"
    by (simp add: path_pieces_def)
  ultimately show ?thesis
    using b join_names_pieces [OF b(2)]
    by (simp add: path_components_def path_is_absolute_def piece_component_def)
qed

lemma foldl_names: "names_only cs \<Longrightarrow> foldl normalize_step b cs = b @ cs"
  by (induction cs arbitrary: b rule: names_only.induct) auto

lemma normalize_components_normal: "normal_buf b \<Longrightarrow> normalize_components b = b"
  by (auto simp: normalize_components_def normal_buf_iff foldl_names)

section \<open>Properties\<close>

text \<open>
  A normalised path holds no \<open>.\<close>, no \<open>..\<close> and no empty name, and normalising its text
  again yields the same path.
\<close>

theorem normalize_lexical_path_idempotent:
  "normal_buf (normalize_lexical_path p) \<and>
   normalize_lexical_path (path_string (normalize_lexical_path p)) = normalize_lexical_path p"
  using normal_buf_normalize [of p]
  by (simp add: normalize_lexical_path_def [of "path_string _"] path_components_path_string
      normalize_components_normal)

text \<open>A detour through a directory and back is invisible.\<close>

lemma path_is_absolute_append: "path_is_absolute a \<Longrightarrow> path_is_absolute (a @ b)"
  by (cases a) (auto simp: path_is_absolute_def)

lemma path_components_absolute_append:
  assumes "path_is_absolute a"
  shows "path_components (a @ SLASH # b) = path_components a @ concat (map piece_component (path_pieces b))"
  using assms path_is_absolute_append [OF assms] by (simp add: path_components_def path_pieces_append)

lemma normalize_detour:
  assumes "path_is_absolute a" and "plain_name x"
  shows "normalize_lexical_path (a @ SLASH # x @ SLASH # S ''..'' @ SLASH # b) =
         normalize_lexical_path (a @ SLASH # b)"
proof -
  have "path_pieces (x @ SLASH # S ''..'' @ SLASH # b) = x # S ''..'' # path_pieces b"
    using assms(2) by (simp add: path_pieces_append path_pieces_plain)
      (simp add: path_pieces_def split_on_append [of _ _ "S ''..''"] split_on_no_match S_def)
  with assms show ?thesis
    by (simp add: normalize_lexical_path_def normalize_components_def path_components_absolute_append
        piece_component_plain)
      (simp add: piece_component_def path_pop_def S_def)
qed

lemma trim_absolute:
  assumes "path_is_absolute a" and "b \<noteq> []" and "\<not> among (last b) quote_chars"
  shows "trim_matches quote_chars (a @ b) = a @ b"
proof -
  from assms(1) have "dropWhile (\<lambda>c. among c quote_chars) (a @ b) = a @ b"
    by (cases a) (auto simp: path_is_absolute_def quote_chars_def)
  moreover have "dropWhile (\<lambda>c. among c quote_chars) (rev (a @ b)) = rev (a @ b)"
    using assms(2,3) by (cases b rule: rev_cases) auto
  ultimately show ?thesis by (simp add: trim_matches_def)
qed

lemma lower_char_slash [simp]: "lower_char SLASH = SLASH"
  by code_simp

lemma lower_char_dot [simp]: "lower_char (Ch CHR ''.'') = Ch CHR ''.''"
  by code_simp

lemma lower_char_image:
  "lower_char c = SLASH \<longleftrightarrow> c = SLASH" "lower_char c = Ch CHR ''.'' \<longleftrightarrow> c = Ch CHR ''.''"
  by (cases c; auto split: option.split dest!: map_of_SomeD
      simp: ascii_upper_chars_def ascii_lower_chars_def)+

lemmas lower_char_image' = lower_char_image lower_char_image [THEN eq_iff_swap]

declare lower_char.simps [simp del]

lemma lowercase_plain: "plain_name x \<Longrightarrow> plain_name (to_ascii_lowercase x)"
  by (auto simp: plain_name_def to_ascii_lowercase_def S_def lower_char_image' map_eq_Cons_conv)

lemma lowercase_absolute: "path_is_absolute (to_ascii_lowercase a) \<longleftrightarrow> path_is_absolute a"
  by (cases a) (auto simp: path_is_absolute_def to_ascii_lowercase_def lower_char_image)

lemma lowercase_append [simp]:
  "to_ascii_lowercase (a @ b) = to_ascii_lowercase a @ to_ascii_lowercase b"
  "to_ascii_lowercase (SLASH # b) = SLASH # to_ascii_lowercase b"
  "to_ascii_lowercase (S ''..'') = S ''..''"
  by (simp_all add: to_ascii_lowercase_def S_def)

text \<open>
  A detour through a directory and back does not hide a device or a kernel interface from the
  check of write targets: \<open>/dev/x/../sda\<close> is judged as \<open>/dev/sda\<close>.
\<close>

theorem write_target_detour:
  assumes "path_is_absolute a" and "plain_name x" and "b \<noteq> []" and "\<not> among (last b) quote_chars"
  shows "is_catastrophic_write_target (a @ SLASH # x @ SLASH # S ''..'' @ SLASH # b) =
         is_catastrophic_write_target (a @ SLASH # b)"
proof -
  let ?detour = "a @ SLASH # x @ SLASH # S ''..'' @ SLASH # b" and ?direct = "a @ SLASH # b"
  have trim: "trim_matches quote_chars ?detour = ?detour" "trim_matches quote_chars ?direct = ?direct"
    using trim_absolute [OF assms(1), of "SLASH # x @ SLASH # S ''..'' @ SLASH # b"]
      trim_absolute [OF assms(1), of "SLASH # b"] assms(3,4) by simp_all
  have norm: "normalize_lexical_path (to_ascii_lowercase ?detour) =
      normalize_lexical_path (to_ascii_lowercase ?direct)"
    using normalize_detour [of "to_ascii_lowercase a" "to_ascii_lowercase x" "to_ascii_lowercase b"]
      assms(1,2) by (simp add: lowercase_absolute lowercase_plain)
  have drive: "starts_with (to_ascii_lowercase (a @ s)) ([BSL, BSL, Ch CHR ''.'', BSL] @ t) = False" for s t
    using assms(1) by (cases a) (auto simp: path_is_absolute_def to_ascii_lowercase_def)
  have raw: "is_raw_device_path ?detour = is_raw_device_path ?direct"
    by (simp only: is_raw_device_path_def trim norm Let_def drive if_False)
  show ?thesis
    unfolding is_catastrophic_write_target_def trim norm raw Let_def ..
qed

theorem write_target_detour_witness:
  "is_catastrophic_write_target (S ''/dev'' @ SLASH # S ''x'' @ SLASH # S ''..'' @ SLASH # S ''sda'') =
   is_catastrophic_write_target (S ''/dev'' @ SLASH # S ''sda'')
   \<and> is_catastrophic_write_target (S ''/dev'' @ SLASH # S ''sda'')"
proof -
  have "path_is_absolute (S ''/dev'')" "plain_name (S ''x'')" "\<not> among (last (S ''sda'')) quote_chars"
    by (simp_all add: path_is_absolute_def plain_name_def quote_chars_def S_def)
  moreover have "is_catastrophic_write_target (S ''/dev'' @ SLASH # S ''sda'')" by code_simp
  ultimately show ?thesis using write_target_detour [of "S ''/dev''" "S ''x''" "S ''sda''"] by simp
qed

end
