(* ===== verification/Shell_Quoting.thy ===== *)
theory Shell_Quoting
  imports Command_Lexer_Props
begin

text \<open>
  The quoting of \<open>src/crates/core/src/command/managed_pdf_shell.rs\<close>, with which the managed PDF
  shell writes validated operands back into a command, and its round trip through the lexer: a
  command line made of quoted words is one segment whose tokens are exactly those words, whatever
  characters they hold.
\<close>

section \<open>Quoted words lex back to themselves\<close>

text \<open>\<open>value.replace('\'', "'\\''")\<close>.\<close>

definition escape_single_quotes :: "rstring \<Rightarrow> rstring" where
  "escape_single_quotes w = concat (map (\<lambda>c. if c = SQ then [SQ, BSL, SQ, SQ] else [c]) w)"

definition shell_single_quote :: "rstring \<Rightarrow> rstring" where
  "shell_single_quote w = SQ # escape_single_quotes w @ [SQ]"

text \<open>A command line of quoted words, separated by single spaces.\<close>

fun quoted_words :: "rstring list \<Rightarrow> rstring" where
  "quoted_words [] = []"
| "quoted_words [w] = shell_single_quote w"
| "quoted_words (w # ws) = shell_single_quote w @ Ch CHR '' '' # quoted_words ws"

lemma lex_loop_step: "lx_index s < length chars \<Longrightarrow> lex_step chars s = Inr t \<Longrightarrow> lex_loop chars s = lex_loop chars t"
  by (simp add: lex_loop.simps [of chars s])

lemma lex_loop_quote_body:
  assumes "drop (lx_index s) chars = escape_single_quotes w @ SQ # rest"
    and "lx_quote s = QSingle" "lx_token_has_quoted_or_escaped_content s" "lx_token_start s = Some b"
  shows "lex_loop chars s = lex_loop chars
    (s\<lparr>lx_token := lx_token s @ w, lx_quote := QNone,
       lx_index := Suc (lx_index s + length (escape_single_quotes w))\<rparr>)"
  using assms
proof (induction w arbitrary: s)
  case Nil
  then have d: "drop (lx_index s) chars = SQ # rest" by (simp add: escape_single_quotes_def)
  show ?case
    by (rule lex_loop_step)
      (use drop_eq_ConsD [OF d] Nil in \<open>simp_all add: lex_step_def Let_def lex_single_def escape_single_quotes_def\<close>)
next
  case (Cons c w)
  show ?case
  proof (cases "c = SQ")
    case False
    with Cons.prems(1) have d: "drop (lx_index s) chars = c # escape_single_quotes w @ SQ # rest"
      by (simp add: escape_single_quotes_def)
    let ?t = "s\<lparr>lx_token := lx_token s @ [c], lx_index := Suc (lx_index s)\<rparr>"
    have "lex_loop chars s = lex_loop chars ?t"
      by (rule lex_loop_step)
        (use drop_eq_ConsD [OF d] Cons.prems False in \<open>simp_all add: lex_step_def Let_def lex_single_def\<close>)
    also have "\<dots> = lex_loop chars (?t\<lparr>lx_token := lx_token ?t @ w, lx_quote := QNone,
       lx_index := Suc (lx_index ?t + length (escape_single_quotes w))\<rparr>)"
      by (rule Cons.IH) (use drop_eq_ConsD(3) [OF d] Cons.prems in simp_all)
    finally show ?thesis using False by (simp add: escape_single_quotes_def)
  next
    case True
    with Cons.prems(1) have d1: "drop (lx_index s) chars = SQ # BSL # SQ # SQ # escape_single_quotes w @ SQ # rest"
      by (simp add: escape_single_quotes_def)
    note d2 = drop_eq_ConsD(3) [OF d1]
    note d3 = drop_eq_ConsD(3) [OF d2]
    note d4 = drop_eq_ConsD(3) [OF d3]
    let ?a = "s\<lparr>lx_quote := QNone, lx_index := Suc (lx_index s)\<rparr>"
    let ?b = "?a\<lparr>lx_token := lx_token s @ [SQ], lx_index := Suc (Suc (lx_index ?a))\<rparr>"
    let ?c = "?b\<lparr>lx_quote := QSingle, lx_index := Suc (lx_index ?b)\<rparr>"
    have "lex_loop chars s = lex_loop chars ?a"
      by (rule lex_loop_step)
        (use drop_eq_ConsD [OF d1] Cons.prems in \<open>simp_all add: lex_step_def Let_def lex_single_def\<close>)
    also have "\<dots> = lex_loop chars ?b"
      by (rule lex_loop_step)
        (use drop_eq_ConsD [OF d2] drop_eq_ConsD [OF d3] Cons.prems in
          \<open>simp_all add: lex_step_def Let_def lex_unquoted_def lex_escape_def mark_token_start_def lget_def\<close>)
    also have "\<dots> = lex_loop chars ?c"
      by (rule lex_loop_step)
        (use drop_eq_ConsD [OF d4] Cons.prems in
          \<open>simp_all add: lex_step_def Let_def lex_unquoted_def mark_token_start_def\<close>)
    also have "\<dots> = lex_loop chars (?c\<lparr>lx_token := lx_token ?c @ w, lx_quote := QNone,
       lx_index := Suc (lx_index ?c + length (escape_single_quotes w))\<rparr>)"
      by (rule Cons.IH) (use drop_eq_ConsD(3) [OF d4] Cons.prems in simp_all)
    finally show ?thesis using True by (simp add: escape_single_quotes_def)
  qed
qed

lemma lex_loop_quoted_word:
  assumes "drop (lx_index s) chars = shell_single_quote w @ rest" and "lx_quote s = QNone"
  shows "lex_loop chars s = lex_loop chars
    ((mark_token_start s)\<lparr>lx_token_has_quoted_or_escaped_content := True, lx_token := lx_token s @ w,
       lx_quote := QNone, lx_index := lx_index s + length (shell_single_quote w)\<rparr>)"
proof -
  from assms(1) have d: "drop (lx_index s) chars = SQ # escape_single_quotes w @ SQ # rest"
    by (simp add: shell_single_quote_def)
  let ?t = "(mark_token_start s)\<lparr>lx_token_has_quoted_or_escaped_content := True, lx_quote := QSingle,
     lx_index := Suc (lx_index s)\<rparr>"
  have "lex_loop chars s = lex_loop chars ?t"
    by (rule lex_loop_step)
      (use drop_eq_ConsD [OF d] assms(2) in \<open>simp_all add: lex_step_def Let_def lex_unquoted_def\<close>)
  also have "\<dots> = lex_loop chars (?t\<lparr>lx_token := lx_token ?t @ w, lx_quote := QNone,
       lx_index := Suc (lx_index ?t + length (escape_single_quotes w))\<rparr>)"
    by (rule lex_loop_quote_body)
      (use drop_eq_ConsD(3) [OF d] in \<open>simp_all add: mark_token_start_def\<close>)
  finally show ?thesis using assms(2)
    by (simp add: shell_single_quote_def mark_token_start_def)
qed

definition same_frame :: "lex_state \<Rightarrow> lex_state \<Rightarrow> bool" where
  "same_frame s t \<longleftrightarrow>
     lx_segments t = lx_segments s \<and> lx_embedded_commands t = lx_embedded_commands s \<and>
     lx_write_redirection t = lx_write_redirection s \<and>
     lx_input_redirections t = lx_input_redirections s \<and>
     lx_segment_has_heredoc t = lx_segment_has_heredoc s \<and>
     lx_pending_heredoc t = lx_pending_heredoc s \<and>
     lx_ignored_policy_ranges t = lx_ignored_policy_ranges s \<and>
     lx_separator_state t = lx_separator_state s \<and> lx_quote t = lx_quote s"

lemma same_frame_trans: "same_frame s t \<Longrightarrow> same_frame t u \<Longrightarrow> same_frame s u"
  by (simp add: same_frame_def)

lemma lex_loop_quoted_words:
  assumes "drop (lx_index s) chars = quoted_words ws" "ws \<noteq> []" "[] \<notin> set ws"
    and "lx_quote s = QNone" "lx_token s = []"
  shows "\<exists>t. lex_loop chars s = Inr t \<and> lx_tokens t = lx_tokens s @ butlast ws \<and>
    lx_token t = last ws \<and> same_frame s t"
  using assms
proof (induction ws arbitrary: s rule: quoted_words.induct)
  case (2 w)
  from "2.prems"(1) have d: "drop (lx_index s) chars = shell_single_quote w @ []" by simp
  let ?t = "(mark_token_start s)\<lparr>lx_token_has_quoted_or_escaped_content := True,
    lx_token := lx_token s @ w, lx_quote := QNone,
    lx_index := lx_index s + length (shell_single_quote w)\<rparr>"
  from d have "length chars - lx_index s = length (shell_single_quote w)"
    by (metis append_Nil2 length_drop)
  then have "\<not> lx_index ?t < length chars" by simp
  then have "lex_loop chars ?t = Inr ?t"
    by (simp add: lex_loop.simps [of chars ?t])
  with lex_loop_quoted_word [OF d "2.prems"(4)] "2.prems" show ?case
    by (simp add: same_frame_def mark_token_start_def)
next
  case (3 w v vs)
  let ?ws = "v # vs"
  from "3.prems"(1) have d: "drop (lx_index s) chars = shell_single_quote w @ Ch CHR '' '' # quoted_words ?ws"
    by simp
  let ?a = "(mark_token_start s)\<lparr>lx_token_has_quoted_or_escaped_content := True,
    lx_token := lx_token s @ w, lx_quote := QNone,
    lx_index := lx_index s + length (shell_single_quote w)\<rparr>"
  let ?b = "(end_word ?a)\<lparr>lx_index := Suc (lx_index ?a)\<rparr>"
  have da: "drop (lx_index ?a) chars = Ch CHR '' '' # quoted_words ?ws"
    using arg_cong [OF d, of "drop (length (shell_single_quote w))"] by (simp add: add.commute)
  have "lex_loop chars s = lex_loop chars ?a"
    using lex_loop_quoted_word [OF d "3.prems"(4)] .
  also have "\<dots> = lex_loop chars ?b"
    by (rule lex_loop_step)
      (use drop_eq_ConsD [OF da] "3.prems" in
        \<open>simp_all add: lex_step_def Let_def lex_unquoted_def mark_token_start_def\<close>)
  finally have ab: "lex_loop chars s = lex_loop chars ?b" .
  from "3.prems" have b: "lx_tokens ?b = lx_tokens s @ [w]" "same_frame s ?b" "lx_token ?b = []" "lx_quote ?b = QNone"
    by (auto simp: same_frame_def end_word_def push_token_with_range_def mark_token_start_def)
  have "drop (lx_index ?b) chars = quoted_words ?ws"
    using drop_eq_ConsD(3) [OF da] by simp
  from "3.IH" [OF this _ _ b(4,3)] "3.prems" obtain t where t: "lex_loop chars ?b = Inr t"
    "lx_tokens t = lx_tokens ?b @ butlast ?ws" "lx_token t = last ?ws" "same_frame ?b t"
    by auto
  show ?case
    unfolding ab t(1) using t(2-) b(1) same_frame_trans [OF b(2) t(4)] by simp
qed simp

lemma lex_quoted_words:
  assumes "ws \<noteq> []" and "[] \<notin> set ws"
  shows "\<exists>lx. lex_command (quoted_words ws) = Inr lx \<and> map seg_tokens (lexed_segments lx) = [ws] \<and>
     lexed_embedded_commands lx = [] \<and> lexed_ignored_policy_ranges lx = [] \<and>
     list_all (\<lambda>seg. \<not> seg_has_write_redirection seg \<and> seg_input_redirections seg = [] \<and>
       \<not> seg_has_heredoc seg) (lexed_segments lx)"
proof -
  have "drop (lx_index lex_init) (quoted_words ws) = quoted_words ws" by (simp add: lex_init_def)
  from lex_loop_quoted_words [OF this assms] obtain t where
    t: "lex_loop (quoted_words ws) lex_init = Inr t" "lx_tokens t = butlast ws" "lx_token t = last ws"
      "same_frame lex_init t"
    by (auto simp: lex_init_def)
  have "last ws \<noteq> []" using assms by (metis last_in_set)
  with t assms show ?thesis
    by (simp add: lex_command_def lex_finish_def same_frame_def lex_init_def Let_def
        push_token_with_range_def current_segment_def)
qed

section \<open>Properties\<close>

text \<open>
  C37: quoting and lexing are inverse: a command made of one or more single-quoted words, none of them empty, whatever characters
  the words hold (quotes, operators, newlines, substitutions), lexes to one segment with exactly those
  words and to nothing else: no embedded command, no redirection, no here-document. (An empty quoted word is lost.)
\<close>

theorem quoted_words_lex_back:
  assumes "ws \<noteq> []" and "[] \<notin> set ws"
  shows "\<exists>lexed. lex_command (quoted_words ws) = Inr lexed \<and> map seg_tokens (lexed_segments lexed) = [ws]
    \<and> lexed_embedded_commands lexed = [] \<and> lexed_ignored_policy_ranges lexed = []
    \<and> list_all (\<lambda>seg. \<not> seg_has_write_redirection seg \<and> seg_input_redirections seg = []
         \<and> \<not> seg_has_heredoc seg) (lexed_segments lexed)"
  using assms by (rule lex_quoted_words)

theorem quoted_words_lex_back_witness:
  "\<exists>lexed. lex_command (quoted_words [S ''cat'', S ''a'' @ [SQ] @ S ''; rm $(x) >y'']) = Inr lexed
    \<and> map seg_tokens (lexed_segments lexed) = [[S ''cat'', S ''a'' @ [SQ] @ S ''; rm $(x) >y'']]"
  using quoted_words_lex_back [of "[S ''cat'', S ''a'' @ [SQ] @ S ''; rm $(x) >y'']"] by auto

end
