(* ===== verification/Source_Replacements.thy ===== *)
theory Source_Replacements
  imports Command_Lexer_Props Shell_Quoting "HOL-Library.Multiset"
begin

text \<open>
  The compiler of managed shell operands, \<open>compile_source_replacements\<close> of
  \<open>src/crates/core/src/command/managed_pdf_shell.rs\<close>: it splices frozen, quoted paths over the source
  ranges that the lexer recorded, from the last range to the first. Its error text is omitted.
\<close>

type_synonym replacement = "range \<times> rstring"

fun splice_all :: "rstring \<Rightarrow> nat \<Rightarrow> replacement list \<Rightarrow> rstring option" where
  "splice_all chars previous_start [] = Some chars"
| "splice_all chars previous_start (((start, stop), replacement) # replacements) =
     (if stop < start \<or> length chars < stop \<or> previous_start < stop then None
      else splice_all (take start chars @ replacement @ drop stop chars) start replacements)"

text \<open>A stable sort by \<open>Reverse(range.start)\<close>.\<close>

definition compile_source_replacements :: "rstring \<Rightarrow> replacement list \<Rightarrow> rstring option" where
  "compile_source_replacements command replacements =
     splice_all command (length command) (sort_key (\<lambda>r. - int (fst (fst r))) replacements)"

section \<open>Specification\<close>

text \<open>The intended result, read from left to right: the text between the ranges is kept.\<close>

fun substitute :: "rstring \<Rightarrow> nat \<Rightarrow> replacement list \<Rightarrow> rstring" where
  "substitute chars pos [] = drop pos chars"
| "substitute chars pos (((start, stop), replacement) # rs) =
     slice chars pos start @ replacement @ substitute chars stop rs"

lemma slice_splice: "b \<le> a \<Longrightarrow> a \<le> length chars \<Longrightarrow> slice (take a chars @ t) pos b = slice chars pos b"
  by (simp add: slice_def min_def flip: drop_take)

lemma substitute_snoc:
  assumes "ordered_ranges pos (map fst rs) a" and "a \<le> b" and "b \<le> length chars"
  shows "substitute chars pos (rs @ [((a, b), r)]) = substitute (take a chars @ r @ drop b chars) pos rs"
  using assms(1)
proof (induction rs arbitrary: pos)
  case Nil
  then show ?case using assms(2,3) by (simp add: slice_def drop_take min_def)
next
  case (Cons x rs)
  obtain c d t where x: "x = ((c, d), t)" by (metis prod.exhaust)
  with Cons.prems have "ordered_ranges d (map fst rs) a" "c < d" by auto
  with Cons.IH [OF this(1)] x assms ordered_ranges_le [OF this(1)] show ?case by (simp add: slice_splice)
qed

lemma splice_all_ordered:
  "ordered_ranges 0 (map fst rs) previous \<Longrightarrow> previous \<le> length chars \<Longrightarrow>
     splice_all chars previous (rev rs) = Some (substitute chars 0 rs)"
proof (induction rs arbitrary: chars previous rule: rev_induct)
  case (snoc x rs)
  obtain a b r where x: "x = ((a, b), r)" by (metis prod.exhaust)
  with snoc.prems have "ordered_ranges 0 (map fst rs) a" "a < b" "b \<le> previous" by auto
  with snoc.IH [OF this(1), of "take a chars @ r @ drop b chars"] x snoc.prems(2)
    substitute_snoc [OF this(1), of b chars r]
  show ?case by simp
qed simp

lemma ordered_ranges_sorted: "ordered_ranges lo rs hi \<Longrightarrow> sorted_wrt (<) (map fst rs)"
proof (induction rs arbitrary: lo)
  case (Cons r rs)
  then obtain a b where r: "r = (a, b)" "a < b" "ordered_ranges b rs hi" by (cases r) auto
  then show ?case using Cons.IH [OF r(3)] by (fastforce dest: ordered_ranges_bounds)
qed simp

lemma sort_descending:
  assumes "mset replacements = mset rs" and "ordered_ranges 0 (map fst rs) n"
  shows "sort_key (\<lambda>r. - int (fst (fst r))) replacements = rev rs"
proof (rule sort_key_inj_key_eq)
  have sorted: "sorted_wrt (<) (map (fst \<circ> fst) rs)" using ordered_ranges_sorted [OF assms(2)] by simp
  show "mset replacements = mset (rev rs)" using assms(1) by simp
  have "inj_on (fst \<circ> fst) (set rs)"
    using sorted distinct_map strict_sorted_iff by blast
  then show "inj_on (\<lambda>r. - int (fst (fst r))) (set replacements)"
    using assms(1) by (auto simp: inj_on_def dest: mset_eq_setD)
  show "sorted (map (\<lambda>r. - int (fst (fst r))) (rev rs))"
    using sorted by (simp add: sorted_wrt_rev sorted_wrt_map) (auto elim!: sorted_wrt_mono_rel [rotated])
qed

lemma ordered_ranges_weaken: "ordered_ranges lo rs hi \<Longrightarrow> lo' \<le> lo \<Longrightarrow> ordered_ranges lo' rs hi"
proof (cases rs)
  case (Cons r rs')
  then show "ordered_ranges lo rs hi \<Longrightarrow> lo' \<le> lo \<Longrightarrow> ordered_ranges lo' rs hi" by (cases r) auto
qed simp

lemma ordered_ranges_subseq: "subseq xs ys \<Longrightarrow> ordered_ranges lo ys hi \<Longrightarrow> ordered_ranges lo xs hi"
proof (induction arbitrary: lo rule: list_emb.induct)
  case (list_emb_Nil ys)
  then show ?case by (auto dest: ordered_ranges_le)
next
  case (list_emb_Cons xs ys y)
  then obtain a b where y: "y = (a, b)" "lo \<le> b" "ordered_ranges b ys hi" by (cases y) auto
  from ordered_ranges_weaken [OF list_emb_Cons.IH [OF y(3)] y(2)] show ?case .
next
  case (list_emb_Cons2 x y xs ys)
  then show ?case by (cases y) auto
qed

text \<open>
  The source ranges that the lexer records can always be compiled: replacing any choice of a
  lexed command's tokens, given in any order, succeeds, and yields the command with exactly those
  ranges replaced and every other character kept in place.
\<close>

theorem token_replacements_compile:
  assumes "lex_command command = Inr lexed"
    and "subseq (map fst rs) (concat (map seg_token_ranges (lexed_segments lexed)))"
    and "mset replacements = mset rs"
  shows "compile_source_replacements command replacements = Some (substitute command 0 rs)"
proof -
  have "ordered_ranges 0 (map fst rs) (length command)"
    using lex_command_inv [OF assms(1)] ordered_ranges_subseq [OF assms(2)] by (simp add: lexed_ok_def)
  with sort_descending [OF assms(3) this] splice_all_ordered [OF this] show ?thesis
    by (simp add: compile_source_replacements_def)
qed

theorem token_replacements_compile_witness:
  "compile_source_replacements (S ''cat a b'') [((6, 7), shell_single_quote (S ''/y'')), ((4, 5), shell_single_quote (S ''/x''))] =
     Some (substitute (S ''cat a b'') 0 [((4, 5), shell_single_quote (S ''/x'')), ((6, 7), shell_single_quote (S ''/y''))])
   \<and> substitute (S ''cat a b'') 0 [((4, 5), shell_single_quote (S ''/x'')), ((6, 7), shell_single_quote (S ''/y''))] =
     S ''cat '' @ shell_single_quote (S ''/x'') @ S '' '' @ shell_single_quote (S ''/y'')"
proof -
  let ?lexed = "case lex_command (S ''cat a b'') of Inr lexed \<Rightarrow> lexed"
  let ?rs = "[((4, 5), shell_single_quote (S ''/x'')), ((6, 7), shell_single_quote (S ''/y''))] :: replacement list"
  have "lex_command (S ''cat a b'') = Inr ?lexed" by code_simp
  moreover have "subseq (map fst ?rs) (concat (map seg_token_ranges (lexed_segments ?lexed)))" by code_simp
  moreover have "mset [((6, 7), shell_single_quote (S ''/y'')), ((4, 5), shell_single_quote (S ''/x''))] = mset ?rs"
    by simp
  moreover have "substitute (S ''cat a b'') 0 ?rs =
     S ''cat '' @ shell_single_quote (S ''/x'') @ S '' '' @ shell_single_quote (S ''/y'')" by code_simp
  ultimately show ?thesis using token_replacements_compile by blast
qed

end
