(* ===== verification/Command_Transcript.thy ===== *)
theory Command_Transcript
  imports Prelude
begin

text \<open>
  The bounded command output history, \<open>src/crates/core/src/command/transcript.rs\<close>: committed output is
  cut into chunks of at most 1024 bytes at character boundaries, numbered at one sequencing point, and
  kept as a head that is never evicted and a tail that drops its oldest chunks.

  Lengths are UTF-8 byte lengths. A byte offset that is a character boundary is represented by the
  characters before it.
\<close>

section \<open>UTF-8 lengths\<close>

fun utf8_len :: "rchar \<Rightarrow> nat" where
  "utf8_len (Ch c) = (if of_char c < (128 :: nat) then 1 else 2)"
| "utf8_len (Wide n) = (if n + 256 < 2048 then 2 else if n + 256 < 65536 then 3 else 4)"

definition byte_len :: "rstring \<Rightarrow> nat" where
  "byte_len s = sum_list (map utf8_len s)"

lemma utf8_len_bounds: "1 \<le> utf8_len c" "utf8_len c \<le> 4"
  by (cases c; simp)+

lemma byte_len_simps [simp]:
  "byte_len [] = 0" "byte_len (c # s) = utf8_len c + byte_len s" "byte_len (a @ b) = byte_len a + byte_len b"
  by (simp_all add: byte_len_def)

lemma byte_len_eq_0 [simp]: "byte_len s = 0 \<longleftrightarrow> s = []"
proof (cases s)
  case (Cons c cs)
  then show ?thesis using utf8_len_bounds(1) [of c] by simp
qed simp

text \<open>
  \<open>utf8_prefix_len(text, limit)\<close> walks back from \<open>limit\<close> to a character boundary: the result is the
  byte length of the longest prefix of whole characters that fits; \<open>utf8_prefix\<close> is that prefix.
\<close>

fun is_char_boundary :: "rstring \<Rightarrow> nat \<Rightarrow> bool" where
  "is_char_boundary s 0 = True"
| "is_char_boundary [] (Suc i) = False"
| "is_char_boundary (c # s) (Suc i) = (utf8_len c \<le> Suc i \<and> is_char_boundary s (Suc i - utf8_len c))"

fun back_to_boundary :: "rstring \<Rightarrow> nat \<Rightarrow> nat" where
  "back_to_boundary s 0 = 0"
| "back_to_boundary s (Suc i) = (if is_char_boundary s (Suc i) then Suc i else back_to_boundary s i)"

definition utf8_prefix_len :: "rstring \<Rightarrow> nat \<Rightarrow> nat" where
  "utf8_prefix_len s limit = back_to_boundary s (min limit (byte_len s))"

function forward_to_boundary :: "rstring \<Rightarrow> nat \<Rightarrow> nat" where
  "forward_to_boundary s i =
     (if i < byte_len s \<and> \<not> is_char_boundary s i then forward_to_boundary s (i + 1) else i)"
  by pat_completeness auto
termination
  by (relation "measure (\<lambda>(s, i). byte_len s - i)") auto

declare forward_to_boundary.simps [simp del]

definition utf8_suffix_start :: "rstring \<Rightarrow> nat \<Rightarrow> nat" where
  "utf8_suffix_start s keep = forward_to_boundary s (byte_len s - keep)"

text \<open>\<open>split_at\<close>, \<open>split_off\<close> and \<open>drain\<close> at a character boundary.\<close>

fun split_bytes :: "rstring \<Rightarrow> nat \<Rightarrow> rstring \<times> rstring" where
  "split_bytes [] i = ([], [])"
| "split_bytes (c # s) i =
     (if i < utf8_len c then ([], c # s)
      else (case split_bytes s (i - utf8_len c) of (a, b) \<Rightarrow> (c # a, b)))"

section \<open>State\<close>

datatype agent_command_output_stream = Stdout | Stderr

record command_output_chunk =
  ck_sequence :: nat
  ck_stream :: agent_command_output_stream
  ck_text :: rstring

record command_output_batch =
  bt_requested_after_sequence :: nat
  bt_first_available_sequence :: "nat option"
  bt_latest_sequence :: nat
  bt_truncated_before :: bool
  bt_output_capture_truncated :: bool
  bt_chunks :: "command_output_chunk list"

record command_transcript =
  tr_head :: "command_output_chunk list"
  tr_tail :: "command_output_chunk list"
  tr_head_bytes :: nat
  tr_head_sealed :: bool
  tr_tail_bytes :: nat
  tr_head_limit :: nat
  tr_tail_limit :: nat
  tr_latest_sequence :: nat
  tr_truncated :: bool
  tr_capture_truncated :: bool
  tr_closed :: bool

definition MAX_TRANSCRIPT_CHUNK_BYTES :: nat where
  "MAX_TRANSCRIPT_CHUNK_BYTES = 1024"

definition MAX_TRANSCRIPT_CHUNKS :: nat where
  "MAX_TRANSCRIPT_CHUNKS = 2048"

definition MAX_TRANSCRIPT_HEAD_CHUNKS :: nat where
  "MAX_TRANSCRIPT_HEAD_CHUNKS = MAX_TRANSCRIPT_CHUNKS div 4"

definition MAX_TRANSCRIPT_TAIL_CHUNKS :: nat where
  "MAX_TRANSCRIPT_TAIL_CHUNKS = MAX_TRANSCRIPT_CHUNKS - MAX_TRANSCRIPT_HEAD_CHUNKS"

definition u64_max :: nat where
  "u64_max = 2 ^ 64 - 1"

definition saturating_add :: "nat \<Rightarrow> nat \<Rightarrow> nat" where
  "saturating_add a b = min (a + b) u64_max"

text \<open>For evaluation: compare in binary, and only then add.\<close>

lemma saturating_add_code [code]:
  "saturating_add a b = (if int (a + b) \<le> 18446744073709551615 then a + b else u64_max)"
  by (simp add: saturating_add_def u64_max_def min_def flip: of_nat_add)

definition transcript_new :: "nat \<Rightarrow> command_transcript" where
  "transcript_new requested_bytes =
     (let max_bytes = max requested_bytes 2; head_limit = max_bytes div 2 in
      \<lparr>tr_head = [], tr_tail = [], tr_head_bytes = 0, tr_head_sealed = False, tr_tail_bytes = 0,
       tr_head_limit = head_limit, tr_tail_limit = max_bytes - head_limit, tr_latest_sequence = 0,
       tr_truncated = False, tr_capture_truncated = False, tr_closed = False\<rparr>)"

section \<open>Committing\<close>

definition next_chunk ::
  "agent_command_output_stream \<Rightarrow> rstring \<Rightarrow> command_transcript \<Rightarrow> command_output_chunk \<times> command_transcript" where
  "next_chunk stream s t =
     (let n = saturating_add (tr_latest_sequence t) 1 in
      (\<lparr>ck_sequence = n, ck_stream = stream, ck_text = s\<rparr>, t\<lparr>tr_latest_sequence := n\<rparr>))"

text \<open>The eviction loop of \<open>trim_tail\<close>: chunks left, bytes left, and whether something was evicted.\<close>

fun evict :: "nat \<Rightarrow> command_output_chunk list \<Rightarrow> nat \<Rightarrow> bool \<Rightarrow> command_output_chunk list \<times> nat \<times> bool" where
  "evict limit (c # d # cs) bytes truncated =
     (if limit < bytes \<or> MAX_TRANSCRIPT_TAIL_CHUNKS < length (c # d # cs)
      then evict limit (d # cs) (bytes - byte_len (ck_text c)) True
      else (c # d # cs, bytes, truncated))"
| "evict limit cs bytes truncated = (cs, bytes, truncated)"

definition trim_tail :: "command_transcript \<Rightarrow> command_transcript" where
  "trim_tail t =
     (case evict (tr_tail_limit t) (tr_tail t) (tr_tail_bytes t) (tr_truncated t) of
        (tail, bytes, truncated) \<Rightarrow>
          if bytes \<le> tr_tail_limit t then
            t\<lparr>tr_tail := tail, tr_tail_bytes := bytes, tr_truncated := truncated\<rparr>
          else
            (case tail of
               [] \<Rightarrow> t\<lparr>tr_tail := tail, tr_tail_bytes := bytes, tr_truncated := truncated\<rparr>
             | only # rest \<Rightarrow>
                 let keep_from = utf8_suffix_start (ck_text only) (tr_tail_limit t);
                     kept = snd (split_bytes (ck_text only) keep_from) in
                 t\<lparr>tr_tail := (if kept \<noteq> [] then rest @ [only\<lparr>ck_text := kept\<rparr>] else rest),
                   tr_tail_bytes := byte_len kept,
                   tr_truncated := (truncated \<or> 0 < keep_from)\<rparr>))"

definition commit_tail ::
  "agent_command_output_stream \<Rightarrow> rstring \<Rightarrow> command_transcript
   \<Rightarrow> command_output_chunk list \<times> command_transcript" where
  "commit_tail stream s t =
     (if s = [] then ([], t)
      else
        (case next_chunk stream s t of
           (chunk, u) \<Rightarrow>
             ([chunk],
              trim_tail (u\<lparr>tr_tail := tr_tail u @ [chunk],
                           tr_tail_bytes := tr_tail_bytes u + byte_len s\<rparr>))))"

definition push_head ::
  "agent_command_output_stream \<Rightarrow> rstring \<Rightarrow> command_transcript
   \<Rightarrow> command_output_chunk list \<times> command_transcript" where
  "push_head stream s t =
     (case next_chunk stream s t of
        (chunk, u) \<Rightarrow>
          ([chunk], u\<lparr>tr_head := tr_head u @ [chunk], tr_head_bytes := tr_head_bytes u + byte_len s\<rparr>))"

definition seal_head :: "rstring \<Rightarrow> command_transcript \<Rightarrow> command_transcript" where
  "seal_head s t = (if s \<noteq> [] then t\<lparr>tr_head_sealed := True\<rparr> else t)"

definition commit_piece ::
  "agent_command_output_stream \<Rightarrow> rstring \<Rightarrow> command_transcript
   \<Rightarrow> command_output_chunk list \<times> command_transcript" where
  "commit_piece stream s t =
     (if \<not> tr_head_sealed t \<and> tr_head_bytes t < tr_head_limit t
         \<and> length (tr_head t) < MAX_TRANSCRIPT_HEAD_CHUNKS
      then
        let split = utf8_prefix_len s (tr_head_limit t - tr_head_bytes t);
            (front, tail) = (if 0 < split then split_bytes s split else ([], s));
            (committed, u) = (if 0 < split then push_head stream front t else ([], t));
            (later, v) = commit_tail stream tail (seal_head tail u) in
        (committed @ later, v)
      else commit_tail stream s (seal_head s t))"

text \<open>Cutting at a boundary.\<close>

lemma split_bytes_append: "fst (split_bytes s i) @ snd (split_bytes s i) = s"
  by (induction s i rule: split_bytes.induct) (auto split: prod.split)

lemma is_char_boundary_Cons:
  "is_char_boundary (c # s) i \<longleftrightarrow> i = 0 \<or> utf8_len c \<le> i \<and> is_char_boundary s (i - utf8_len c)"
  by (cases i) auto

lemma split_bytes_len: "is_char_boundary s i \<Longrightarrow> byte_len (fst (split_bytes s i)) = i"
proof (induction s arbitrary: i)
  case Nil
  then show ?case by (cases i) auto
next
  case (Cons c s)
  show ?case
  proof (cases "i = 0")
    case True
    then show ?thesis using utf8_len_bounds(1) [of c] by simp
  next
    case False
    with Cons.prems have i: "utf8_len c \<le> i" and b: "is_char_boundary s (i - utf8_len c)"
      by (auto simp: is_char_boundary_Cons)
    from Cons.IH [OF b] i show ?thesis by (simp add: case_prod_beta)
  qed
qed

lemma is_char_boundary_end: "is_char_boundary s (byte_len s)"
  by (induction s) (auto simp: is_char_boundary_Cons)

lemma is_char_boundary_first: "is_char_boundary (c # s) (utf8_len c)"
  by (simp add: is_char_boundary_Cons)

lemma back_to_boundary: "is_char_boundary s (back_to_boundary s i)" "back_to_boundary s i \<le> i"
  by (induction s i rule: back_to_boundary.induct) auto

lemma back_to_boundary_greatest: "is_char_boundary s j \<Longrightarrow> j \<le> i \<Longrightarrow> j \<le> back_to_boundary s i"
  by (induction s i rule: back_to_boundary.induct) (auto simp: le_Suc_eq)

lemma utf8_prefix_len_boundary: "is_char_boundary s (utf8_prefix_len s limit)" "utf8_prefix_len s limit \<le> limit"
  unfolding utf8_prefix_len_def using back_to_boundary(1) back_to_boundary(2) [of s "min limit (byte_len s)"]
  by (auto intro: order_trans)

lemma utf8_prefix_len_pos:
  assumes "s \<noteq> []" and "4 \<le> limit"
  shows "0 < utf8_prefix_len s limit"
proof -
  obtain c cs where s: "s = c # cs" using assms(1) by (cases s) auto
  have "utf8_len c \<le> min limit (byte_len s)" using s assms(2) utf8_len_bounds(2) [of c] by simp
  then have "utf8_len c \<le> utf8_prefix_len s limit"
    unfolding utf8_prefix_len_def s by (intro back_to_boundary_greatest is_char_boundary_first)
  with utf8_len_bounds(1) [of c] show ?thesis by linarith
qed

lemma forward_to_boundary:
  "i \<le> byte_len s \<Longrightarrow>
     is_char_boundary s (forward_to_boundary s i) \<and> i \<le> forward_to_boundary s i
     \<and> forward_to_boundary s i \<le> byte_len s"
proof (induction s i rule: forward_to_boundary.induct)
  case (1 s i)
  show ?case
  proof (cases "i < byte_len s \<and> \<not> is_char_boundary s i")
    case True
    with "1.IH" [OF True] show ?thesis by (auto simp: forward_to_boundary.simps [of s i])
  next
    case False
    with "1.prems" is_char_boundary_end [of s] show ?thesis
      by (auto simp: forward_to_boundary.simps [of s i] le_less)
  qed
qed

lemma utf8_suffix_kept: "byte_len (snd (split_bytes s (utf8_suffix_start s keep))) \<le> keep"
proof -
  let ?i = "utf8_suffix_start s keep"
  have b: "is_char_boundary s ?i" and i: "byte_len s - keep \<le> ?i"
    using forward_to_boundary [of "byte_len s - keep" s] by (auto simp: utf8_suffix_start_def)
  have "byte_len s = byte_len (fst (split_bytes s ?i)) + byte_len (snd (split_bytes s ?i))"
    by (metis split_bytes_append byte_len_simps(3))
  with split_bytes_len [OF b] i show ?thesis by linarith
qed

text \<open>The cut that \<open>commit\<close> makes.\<close>

definition piece_split :: "rstring \<Rightarrow> nat" where
  "piece_split remaining =
     (let split = utf8_prefix_len remaining MAX_TRANSCRIPT_CHUNK_BYTES in
      if split = 0 then byte_len remaining else split)"

lemma piece_split:
  assumes "s \<noteq> []"
  shows "is_char_boundary s (piece_split s)" "0 < piece_split s" "piece_split s \<le> MAX_TRANSCRIPT_CHUNK_BYTES"
  using assms utf8_prefix_len_pos [OF assms, of MAX_TRANSCRIPT_CHUNK_BYTES]
    utf8_prefix_len_boundary [of s MAX_TRANSCRIPT_CHUNK_BYTES]
  by (auto simp: piece_split_def Let_def MAX_TRANSCRIPT_CHUNK_BYTES_def)

lemma split_bytes_shorter:
  assumes "is_char_boundary s i" and "0 < i"
  shows "length (snd (split_bytes s i)) < length s"
proof -
  have "fst (split_bytes s i) \<noteq> []" using split_bytes_len [OF assms(1)] assms(2) by auto
  moreover have "length s = length (fst (split_bytes s i)) + length (snd (split_bytes s i))"
    by (metis split_bytes_append length_append)
  ultimately show ?thesis by (cases "fst (split_bytes s i)") auto
qed

function commit_loop ::
  "agent_command_output_stream \<Rightarrow> rstring \<Rightarrow> command_transcript
   \<Rightarrow> command_output_chunk list \<times> command_transcript" where
  "commit_loop stream remaining t =
     (if remaining = [] then ([], t)
      else
        (case commit_piece stream (fst (split_bytes remaining (piece_split remaining))) t of
           (cs, u) \<Rightarrow>
             (case commit_loop stream (snd (split_bytes remaining (piece_split remaining))) u of
                (ds, v) \<Rightarrow> (cs @ ds, v))))"
  by pat_completeness auto
termination
  by (relation "measure (\<lambda>(_, remaining, _). length remaining)")
    (auto intro!: split_bytes_shorter piece_split)

declare commit_loop.simps [simp del]

definition transcript_commit ::
  "agent_command_output_stream \<Rightarrow> rstring \<Rightarrow> command_transcript
   \<Rightarrow> command_output_chunk list \<times> command_transcript" where
  "transcript_commit stream s t =
     (if tr_closed t \<or> s = [] then ([], t) else commit_loop stream s t)"

definition mark_capture_truncated :: "command_transcript \<Rightarrow> command_transcript" where
  "mark_capture_truncated t = t\<lparr>tr_capture_truncated := True\<rparr>"

definition transcript_close :: "command_transcript \<Rightarrow> command_transcript" where
  "transcript_close t = t\<lparr>tr_closed := True\<rparr>"

definition output_truncated :: "command_transcript \<Rightarrow> bool" where
  "output_truncated t = (tr_truncated t \<or> tr_capture_truncated t)"

section \<open>Reading\<close>

fun read_chunks ::
  "nat \<Rightarrow> nat \<Rightarrow> command_output_chunk list \<Rightarrow> command_output_chunk list \<Rightarrow> nat \<Rightarrow> command_output_chunk list" where
  "read_chunks after max_bytes [] chunks bytes = chunks"
| "read_chunks after max_bytes (c # cs) chunks bytes =
     (if ck_sequence c \<le> after then read_chunks after max_bytes cs chunks bytes
      else if chunks \<noteq> [] \<and> max_bytes < saturating_add bytes (byte_len (ck_text c)) then chunks
      else read_chunks after max_bytes cs (chunks @ [c]) (saturating_add bytes (byte_len (ck_text c))))"

definition transcript_chunks :: "command_transcript \<Rightarrow> command_output_chunk list" where
  "transcript_chunks t = tr_head t @ tr_tail t"

definition read_after :: "command_transcript \<Rightarrow> nat \<Rightarrow> nat \<Rightarrow> command_output_batch" where
  "read_after t after max_bytes =
     \<lparr>bt_requested_after_sequence = after,
      bt_first_available_sequence =
        (case tr_head t of
           c # _ \<Rightarrow> Some (ck_sequence c)
         | [] \<Rightarrow> (case tr_tail t of c # _ \<Rightarrow> Some (ck_sequence c) | [] \<Rightarrow> None)),
      bt_latest_sequence = tr_latest_sequence t,
      bt_truncated_before = (tr_truncated t \<and> after < tr_latest_sequence t),
      bt_output_capture_truncated = tr_capture_truncated t,
      bt_chunks = read_chunks after max_bytes (transcript_chunks t) [] 0\<rparr>"

end
