(* ===== verification/Command_Transcript_Props.thy ===== *)
theory Command_Transcript_Props
  imports Command_Transcript
begin

text \<open>
  The transcript as a state machine. \<open>transcript_run n t log\<close> holds when \<open>t\<close> is reached from a new
  transcript of \<open>n\<close> bytes and \<open>log\<close> is everything that its commits returned, in order. The invariants
  bound the memory, tie the retained chunks to the log, and number the log without gaps.
\<close>

section \<open>Retention\<close>

definition chunk_bytes :: "command_output_chunk list \<Rightarrow> nat" where
  "chunk_bytes cs = sum_list (map (\<lambda>c. byte_len (ck_text c)) cs)"

lemma chunk_bytes_simps [simp]:
  "chunk_bytes [] = 0" "chunk_bytes (c # cs) = byte_len (ck_text c) + chunk_bytes cs"
  "chunk_bytes (a @ b) = chunk_bytes a + chunk_bytes b"
  by (simp_all add: chunk_bytes_def)

text \<open>A retained chunk keeps number and stream of the committed one, and the end of its text.\<close>

definition trimmed :: "command_output_chunk \<Rightarrow> command_output_chunk \<Rightarrow> bool" where
  "trimmed c d \<longleftrightarrow> ck_sequence c = ck_sequence d \<and> ck_stream c = ck_stream d
     \<and> suffix (ck_text c) (ck_text d) \<and> ck_text c \<noteq> []"

definition retains :: "command_output_chunk list \<Rightarrow> command_output_chunk list \<Rightarrow> bool" where
  "retains cs ds \<longleftrightarrow> length cs \<le> length ds \<and> list_all2 trimmed cs (drop (length ds - length cs) ds)"

lemma trimmed_refl: "ck_text c \<noteq> [] \<Longrightarrow> trimmed c c"
  by (simp add: trimmed_def)

lemma retains_refl: "list_all (\<lambda>c. ck_text c \<noteq> []) cs \<Longrightarrow> retains cs cs"
  by (auto simp: retains_def list_all2_conv_all_nth list_all_length trimmed_refl)

lemma retains_trans:
  assumes "retains a b" and "retains b c"
  shows "retains a c"
proof -
  let ?i = "length b - length a" and ?j = "length c - length b"
  have ab: "list_all2 trimmed a (drop ?i b)" and bc: "list_all2 trimmed b (drop ?j c)"
    and le: "length a \<le> length b" "length b \<le> length c" using assms by (auto simp: retains_def)
  have "list_all2 trimmed (drop ?i b) (drop ?i (drop ?j c))" using bc by (rule list_all2_dropI)
  with ab have "list_all2 trimmed a (drop ?i (drop ?j c))"
    by (rule list_all2_trans [rotated]) (auto simp: trimmed_def)
  moreover have "?i + ?j = length c - length a" using le by simp
  ultimately show ?thesis using le by (simp add: retains_def add.commute)
qed

lemma retains_snoc:
  assumes "retains a b" and "ck_text c \<noteq> []"
  shows "retains (a @ [c]) (b @ [c])"
  using assms by (auto simp: retains_def trimmed_refl intro!: list_all2_appendI)

lemma retains_drop: "list_all (\<lambda>c. ck_text c \<noteq> []) cs \<Longrightarrow> retains (drop k cs) cs"
  by (auto simp: retains_def list_all2_conv_all_nth list_all_length trimmed_refl)

lemma evict_spec:
  assumes "evict limit cs bytes truncated = (cs', bytes', truncated')" and "bytes = chunk_bytes cs"
  shows "\<exists>k. cs' = drop k cs \<and> bytes' = chunk_bytes cs' \<and> (cs \<noteq> [] \<longrightarrow> cs' \<noteq> [])
    \<and> (length cs' \<le> 1 \<or> bytes' \<le> limit \<and> length cs' \<le> MAX_TRANSCRIPT_TAIL_CHUNKS)
    \<and> (\<not> truncated' \<longrightarrow> cs' = cs \<and> \<not> truncated)"
  using assms
proof (induction limit cs bytes truncated rule: evict.induct)
  case (1 limit c d cs bytes truncated)
  show ?case
  proof (cases "limit < bytes \<or> MAX_TRANSCRIPT_TAIL_CHUNKS < length (c # d # cs)")
    case True
    with "1.prems" have "evict limit (d # cs) (bytes - byte_len (ck_text c)) True = (cs', bytes', truncated')"
      by simp
    from "1.IH" [OF True this] "1.prems"(2) obtain k where "cs' = drop k (d # cs)"
      "bytes' = chunk_bytes cs'" "cs' \<noteq> []" "truncated'"
      "length cs' \<le> 1 \<or> bytes' \<le> limit \<and> length cs' \<le> MAX_TRANSCRIPT_TAIL_CHUNKS"
      by auto
    then show ?thesis by (intro exI [of _ "Suc k"]) simp
  next
    case False
    with "1.prems" show ?thesis by (intro exI [of _ 0]) auto
  qed
qed (auto intro: exI [of _ 0])

text \<open>What \<open>trim_tail\<close> leaves: a bounded tail that retains the end of what it was given.\<close>

definition nonempty_texts :: "command_output_chunk list \<Rightarrow> bool" where
  "nonempty_texts cs = list_all (\<lambda>c. ck_text c \<noteq> []) cs"

lemma retains_nonempty: "retains cs ds \<Longrightarrow> nonempty_texts cs"
  by (auto simp: retains_def nonempty_texts_def list_all2_conv_all_nth list_all_length trimmed_def)

definition tail_ok :: "command_transcript \<Rightarrow> bool" where
  "tail_ok t \<longleftrightarrow> tr_tail_bytes t = chunk_bytes (tr_tail t) \<and> tr_tail_bytes t \<le> tr_tail_limit t
     \<and> length (tr_tail t) \<le> MAX_TRANSCRIPT_TAIL_CHUNKS"

lemma trim_single:
  assumes "ck_text only \<noteq> []" and "limit < byte_len (ck_text only)"
    and "kept = snd (split_bytes (ck_text only) (utf8_suffix_start (ck_text only) limit))"
  shows "byte_len kept \<le> limit" "suffix kept (ck_text only)" "0 < utf8_suffix_start (ck_text only) limit"
proof -
  show "byte_len kept \<le> limit" unfolding assms(3) by (rule utf8_suffix_kept)
  show "suffix kept (ck_text only)" unfolding assms(3) by (metis split_bytes_append suffixI)
  show "0 < utf8_suffix_start (ck_text only) limit"
    using forward_to_boundary [of "byte_len (ck_text only) - limit" "ck_text only"] assms(2)
    by (auto simp: utf8_suffix_start_def)
qed

lemma trim_tail_spec:
  assumes "tr_tail_bytes t = chunk_bytes (tr_tail t)" and "nonempty_texts (tr_tail t)" and "tr_tail t \<noteq> []"
  shows "tail_ok (trim_tail t) \<and> retains (tr_tail (trim_tail t)) (tr_tail t)
    \<and> (\<not> tr_truncated (trim_tail t) \<longrightarrow> tr_tail (trim_tail t) = tr_tail t \<and> \<not> tr_truncated t)"
proof -
  obtain tail bytes truncated where
    ev: "evict (tr_tail_limit t) (tr_tail t) (tr_tail_bytes t) (tr_truncated t) = (tail, bytes, truncated)"
    by (metis prod_cases3)
  from evict_spec [OF this assms(1)] assms(3) obtain k where tail: "tail = drop k (tr_tail t)"
    "bytes = chunk_bytes tail" "tail \<noteq> []" "\<not> truncated \<longrightarrow> tail = tr_tail t \<and> \<not> tr_truncated t"
    "length tail \<le> 1 \<or> bytes \<le> tr_tail_limit t \<and> length tail \<le> MAX_TRANSCRIPT_TAIL_CHUNKS"
    by blast
  have keep: "retains tail (tr_tail t)"
    using assms(2) retains_drop unfolding tail(1) nonempty_texts_def by blast
  have one: "1 \<le> MAX_TRANSCRIPT_TAIL_CHUNKS"
    by (simp add: MAX_TRANSCRIPT_TAIL_CHUNKS_def MAX_TRANSCRIPT_HEAD_CHUNKS_def MAX_TRANSCRIPT_CHUNKS_def)
  show ?thesis
  proof (cases "bytes \<le> tr_tail_limit t")
    case True
    with ev tail keep one show ?thesis by (auto simp: trim_tail_def tail_ok_def)
  next
    case False
    with tail(3,5) have "length tail = Suc 0" by (cases "length tail") auto
    then obtain only where only: "tail = [only]" unfolding length_Suc_conv by blast
    let ?kept = "snd (split_bytes (ck_text only) (utf8_suffix_start (ck_text only) (tr_tail_limit t)))"
    have ne: "ck_text only \<noteq> []" using retains_nonempty [OF keep] only by (simp add: nonempty_texts_def)
    have "tr_tail_limit t < byte_len (ck_text only)" using False tail(2) only by simp
    note kept = trim_single [OF ne this refl]
    have trimmed: "trim_tail t = t\<lparr>tr_tail := (if ?kept \<noteq> [] then [only\<lparr>ck_text := ?kept\<rparr>] else []),
        tr_tail_bytes := byte_len ?kept, tr_truncated := True\<rparr>"
      using False ev only kept(3) by (simp add: trim_tail_def Let_def)
    have "retains (if ?kept \<noteq> [] then [only\<lparr>ck_text := ?kept\<rparr>] else []) [only]"
      using kept(2) by (simp add: retains_def trimmed_def)
    with keep only have "retains (tr_tail (trim_tail t)) (tr_tail t)"
      unfolding trimmed by (auto dest: retains_trans)
    with kept(1) one show ?thesis unfolding trimmed by (auto simp: tail_ok_def)
  qed
qed

lemma trim_tail_other:
  "tr_head (trim_tail t) = tr_head t" "tr_head_bytes (trim_tail t) = tr_head_bytes t"
  "tr_head_sealed (trim_tail t) = tr_head_sealed t" "tr_head_limit (trim_tail t) = tr_head_limit t"
  "tr_tail_limit (trim_tail t) = tr_tail_limit t" "tr_latest_sequence (trim_tail t) = tr_latest_sequence t"
  "tr_closed (trim_tail t) = tr_closed t" "tr_capture_truncated (trim_tail t) = tr_capture_truncated t"
  by (simp_all add: trim_tail_def Let_def split: prod.split list.split)

section \<open>The invariant\<close>

definition numbered :: "command_output_chunk list \<Rightarrow> bool" where
  "numbered log \<longleftrightarrow> (\<forall>i < length log. ck_sequence (log ! i) = min (i + 1) u64_max)"

definition head_ok :: "command_transcript \<Rightarrow> bool" where
  "head_ok t \<longleftrightarrow> tr_head_bytes t = chunk_bytes (tr_head t) \<and> tr_head_bytes t \<le> tr_head_limit t
     \<and> length (tr_head t) \<le> MAX_TRANSCRIPT_HEAD_CHUNKS"

definition transcript_inv :: "command_transcript \<Rightarrow> command_output_chunk list \<Rightarrow> bool" where
  "transcript_inv t log \<longleftrightarrow>
     head_ok t \<and> tail_ok t \<and> numbered log \<and> nonempty_texts log
     \<and> tr_latest_sequence t = min (length log) u64_max
     \<and> (\<exists>rest. log = tr_head t @ rest \<and> retains (tr_tail t) rest
          \<and> (\<not> tr_head_sealed t \<longrightarrow> rest = [])
          \<and> (\<not> tr_truncated t \<longrightarrow> tr_tail t = rest))"

lemma numbered_snoc:
  "numbered log \<Longrightarrow> ck_sequence c = min (length log + 1) u64_max \<Longrightarrow> numbered (log @ [c])"
  by (auto simp: numbered_def nth_append less_Suc_eq)

lemma next_sequence: "saturating_add (min n u64_max) (Suc 0) = min (Suc n) u64_max"
  by (simp add: saturating_add_def min_def)

lemma inv_push_head:
  assumes "transcript_inv t log" and "push_head stream s t = (cs, u)" and "s \<noteq> []"
    and "\<not> tr_head_sealed t" and "tr_head_bytes t + byte_len s \<le> tr_head_limit t"
    and "length (tr_head t) < MAX_TRANSCRIPT_HEAD_CHUNKS"
  shows "transcript_inv u (log @ cs)" "concat (map ck_text cs) = s" "tr_closed u = tr_closed t"
    "\<not> tr_head_sealed u" "tr_tail_limit u = tr_tail_limit t" "tr_head_limit u = tr_head_limit t"
  using assms unfolding transcript_inv_def push_head_def next_chunk_def Let_def
  by (auto simp: head_ok_def tail_ok_def nonempty_texts_def next_sequence intro!: numbered_snoc)

lemma inv_seal: "transcript_inv t log \<Longrightarrow> transcript_inv (seal_head s t) log"
  by (auto simp: seal_head_def transcript_inv_def head_ok_def tail_ok_def)

lemma seal_head_other [simp]:
  "tr_closed (seal_head s t) = tr_closed t" "tr_tail_limit (seal_head s t) = tr_tail_limit t"
  "tr_head_limit (seal_head s t) = tr_head_limit t" "s \<noteq> [] \<Longrightarrow> tr_head_sealed (seal_head s t)"
  by (simp_all add: seal_head_def)

lemma inv_commit_tail:
  assumes "transcript_inv t log" and "commit_tail stream s t = (cs, u)" and "s \<noteq> [] \<longrightarrow> tr_head_sealed t"
  shows "transcript_inv u (log @ cs) \<and> concat (map ck_text cs) = s \<and> tr_closed u = tr_closed t
    \<and> tr_tail_limit u = tr_tail_limit t \<and> tr_head_limit u = tr_head_limit t"
proof (cases "s = []")
  case True
  with assms show ?thesis by (simp add: commit_tail_def)
next
  case False
  define chunk where "chunk = \<lparr>ck_sequence = saturating_add (tr_latest_sequence t) 1, ck_stream = stream, ck_text = s\<rparr>"
  define p where "p = t\<lparr>tr_latest_sequence := saturating_add (tr_latest_sequence t) 1,
      tr_tail := tr_tail t @ [chunk], tr_tail_bytes := tr_tail_bytes t + byte_len s\<rparr>"
  from assms(2) False have u: "cs = [chunk]" "u = trim_tail p"
    by (auto simp: commit_tail_def next_chunk_def Let_def chunk_def p_def)
  from assms(1) obtain rest where rest: "log = tr_head t @ rest" "retains (tr_tail t) rest"
    "\<not> tr_truncated t \<longrightarrow> tr_tail t = rest" and inv: "head_ok t" "tail_ok t" "numbered log" "nonempty_texts log"
    "tr_latest_sequence t = min (length log) u64_max"
    by (auto simp: transcript_inv_def)
  have chunk: "ck_text chunk \<noteq> []" "ck_sequence chunk = min (length log + 1) u64_max"
    using False inv(5) by (simp_all add: chunk_def next_sequence)
  have p: "tr_tail_bytes p = chunk_bytes (tr_tail p)" "nonempty_texts (tr_tail p)" "tr_tail p \<noteq> []"
    "retains (tr_tail p) (rest @ [chunk])"
    using inv(2) retains_nonempty [OF rest(2)] chunk(1) retains_snoc [OF rest(2) chunk(1)]
    by (auto simp: p_def tail_ok_def nonempty_texts_def chunk_def)
  note trim = trim_tail_spec [OF p(1-3)]
  have "retains (tr_tail u) (rest @ [chunk])" using trim retains_trans p(4) u(2) by blast
  moreover have "\<not> tr_truncated u \<longrightarrow> tr_tail u = rest @ [chunk]"
    using trim rest(3) u(2) by (auto simp: p_def)
  moreover have "head_ok u" "tr_latest_sequence u = min (length (log @ cs)) u64_max" "tr_head u = tr_head t"
    "tr_head_sealed u" "tr_closed u = tr_closed t" "tr_tail_limit u = tr_tail_limit t" "tr_head_limit u = tr_head_limit t"
    using inv(1,5) assms(3) False u
    by (auto simp: trim_tail_other p_def head_ok_def next_sequence)
  moreover have "numbered (log @ cs)" "nonempty_texts (log @ cs)"
    using inv(3,4) chunk u(1) by (auto simp: numbered_snoc nonempty_texts_def)
  moreover have "concat (map ck_text cs) = s" using u(1) by (simp add: chunk_def)
  ultimately show ?thesis using trim u rest(1) by (auto simp: transcript_inv_def)
qed

lemma inv_commit_piece:
  assumes inv: "transcript_inv t log" and commit: "commit_piece stream s t = (cs, u)" and s: "s \<noteq> []"
  shows "transcript_inv u (log @ cs) \<and> concat (map ck_text cs) = s \<and> tr_closed u = tr_closed t
    \<and> tr_tail_limit u = tr_tail_limit t \<and> tr_head_limit u = tr_head_limit t"
proof (cases "\<not> tr_head_sealed t \<and> tr_head_bytes t < tr_head_limit t
    \<and> length (tr_head t) < MAX_TRANSCRIPT_HEAD_CHUNKS")
  case False
  with commit have "commit_tail stream s (seal_head s t) = (cs, u)" by (auto simp: commit_piece_def)
  from inv_commit_tail [OF inv_seal [OF inv] this] s show ?thesis by simp
next
  case True
  let ?split = "utf8_prefix_len s (tr_head_limit t - tr_head_bytes t)"
  show ?thesis
  proof (cases "?split = 0")
    case zero: True
    with True commit have "commit_tail stream s (seal_head s t) = (cs, u)"
      by (auto simp: commit_piece_def Let_def split: prod.splits)
    from inv_commit_tail [OF inv_seal [OF inv] this] s show ?thesis by simp
  next
    case False
    define front tail where "front = fst (split_bytes s ?split)" and "tail = snd (split_bytes s ?split)"
    obtain cs1 v where push: "push_head stream front t = (cs1, v)" by (metis prod.exhaust)
    obtain cs2 w where later: "commit_tail stream tail (seal_head tail v) = (cs2, w)" by (metis prod.exhaust)
    from commit True False push later have u: "cs = cs1 @ cs2" "u = w"
      by (auto simp: commit_piece_def Let_def front_def tail_def split: prod.splits)
    have len: "byte_len front = ?split" and le: "?split \<le> tr_head_limit t - tr_head_bytes t"
      unfolding front_def using split_bytes_len utf8_prefix_len_boundary by blast+
    with False have "front \<noteq> []" by auto
    from inv_push_head [OF inv push this] len le True
    have head: "transcript_inv v (log @ cs1)" "concat (map ck_text cs1) = front" "tr_closed v = tr_closed t"
      "tr_tail_limit v = tr_tail_limit t" "tr_head_limit v = tr_head_limit t" by auto
    have "s = front @ tail" by (simp add: front_def tail_def split_bytes_append)
    with inv_commit_tail [OF inv_seal [OF head(1)] later] head u show ?thesis by simp
  qed
qed

lemma byte_len_concat_member: "w \<in> set ws \<Longrightarrow> byte_len w \<le> byte_len (concat ws)"
  by (induction ws) (auto intro: le_add1 trans_le_add2)

lemma inv_commit_loop:
  "transcript_inv t log \<Longrightarrow> commit_loop stream s t = (cs, u) \<Longrightarrow>
     transcript_inv u (log @ cs) \<and> concat (map ck_text cs) = s \<and> tr_closed u = tr_closed t
     \<and> tr_tail_limit u = tr_tail_limit t \<and> tr_head_limit u = tr_head_limit t
     \<and> (\<forall>c \<in> set cs. byte_len (ck_text c) \<le> MAX_TRANSCRIPT_CHUNK_BYTES)"
proof (induction stream s t arbitrary: log cs u rule: commit_loop.induct)
  case (1 stream s t)
  show ?case
  proof (cases "s = []")
    case True
    with "1.prems" show ?thesis by (simp add: commit_loop.simps [of stream "[]" t])
  next
    case False
    define front tail where "front = fst (split_bytes s (piece_split s))" and "tail = snd (split_bytes s (piece_split s))"
    obtain cs1 v where piece: "commit_piece stream front t = (cs1, v)" by (metis prod.exhaust)
    obtain cs2 w where later: "commit_loop stream tail v = (cs2, w)" by (metis prod.exhaust)
    from "1.prems"(2) False piece later have u: "cs = cs1 @ cs2" "u = w"
      by (auto simp: commit_loop.simps [of stream s t] front_def tail_def)
    have len: "byte_len front = piece_split s"
      unfolding front_def using split_bytes_len piece_split(1) [OF False] by blast
    with piece_split(2) [OF False] have "front \<noteq> []" by auto
    note head = inv_commit_piece [OF "1.prems"(1) piece this]
    then have "\<forall>c \<in> set cs1. byte_len (ck_text c) \<le> MAX_TRANSCRIPT_CHUNK_BYTES"
      using byte_len_concat_member [of _ "map ck_text cs1"] len piece_split(3) [OF False] by fastforce
    moreover from "1.IH" [OF False piece [unfolded front_def, symmetric]] head later [unfolded tail_def]
    have "transcript_inv w ((log @ cs1) @ cs2) \<and> concat (map ck_text cs2) = tail \<and> tr_closed w = tr_closed v
        \<and> tr_tail_limit w = tr_tail_limit v \<and> tr_head_limit w = tr_head_limit v
        \<and> (\<forall>c \<in> set cs2. byte_len (ck_text c) \<le> MAX_TRANSCRIPT_CHUNK_BYTES)"
      unfolding tail_def by blast
    moreover have "s = front @ tail" by (simp add: front_def tail_def split_bytes_append)
    ultimately show ?thesis using head u by auto
  qed
qed

section \<open>Runs\<close>

inductive transcript_run :: "nat \<Rightarrow> command_transcript \<Rightarrow> command_output_chunk list \<Rightarrow> bool" for n where
  new: "transcript_run n (transcript_new n) []"
| commit: "transcript_run n t log \<Longrightarrow> transcript_commit stream s t = (cs, u) \<Longrightarrow> transcript_run n u (log @ cs)"
| mark: "transcript_run n t log \<Longrightarrow> transcript_run n (mark_capture_truncated t) log"
| close: "transcript_run n t log \<Longrightarrow> transcript_run n (transcript_close t) log"

lemma inv_new: "transcript_inv (transcript_new n) []"
  by (simp add: transcript_new_def transcript_inv_def head_ok_def tail_ok_def numbered_def nonempty_texts_def
      retains_def Let_def)

lemma transcript_run_inv:
  "transcript_run n t log \<Longrightarrow>
     transcript_inv t log \<and> tr_head_limit t + tr_tail_limit t = max n 2"
proof (induction rule: transcript_run.induct)
  case new
  show ?case using inv_new by (simp add: transcript_new_def Let_def)
next
  case (commit t log stream s cs u)
  then show ?case
    using inv_commit_loop [of t log stream s cs u]
    by (cases "tr_closed t \<or> s = []") (auto simp: transcript_commit_def)
qed (auto simp: mark_capture_truncated_def transcript_close_def transcript_inv_def head_ok_def tail_ok_def)

section \<open>Properties\<close>

text \<open>
  The history never grows past its budget: whatever is committed, the retained chunks hold at
  most the requested number of bytes (at least 2) and at most 2048 chunks.
\<close>

theorem transcript_bounded:
  assumes "transcript_run n t log"
  shows "chunk_bytes (transcript_chunks t) \<le> max n 2 \<and> length (transcript_chunks t) \<le> MAX_TRANSCRIPT_CHUNKS"
  using transcript_run_inv [OF assms]
  by (auto simp: transcript_inv_def head_ok_def tail_ok_def transcript_chunks_def
      MAX_TRANSCRIPT_HEAD_CHUNKS_def MAX_TRANSCRIPT_TAIL_CHUNKS_def MAX_TRANSCRIPT_CHUNKS_def)

subsection \<open>The head is kept\<close>

inductive transcript_step :: "command_transcript \<Rightarrow> command_transcript \<Rightarrow> bool" where
  commit: "transcript_commit stream s t = (cs, u) \<Longrightarrow> transcript_step t u"
| mark: "transcript_step t (mark_capture_truncated t)"
| close: "transcript_step t (transcript_close t)"

lemma head_commit_tail: "commit_tail stream s t = (cs, u) \<Longrightarrow> tr_head u = tr_head t"
  by (auto simp: commit_tail_def next_chunk_def Let_def trim_tail_other split: if_splits)

lemma head_commit_piece:
  assumes "commit_piece stream s t = (cs, u)"
  shows "prefix (tr_head t) (tr_head u)"
proof -
  have seal: "tr_head (seal_head r v) = tr_head v" for r v by (simp add: seal_head_def)
  have push: "prefix (tr_head v) (tr_head w)" if "push_head stream r v = (ds, w)" for r v ds w
    using that by (auto simp: push_head_def next_chunk_def Let_def)
  show ?thesis
    using assms push head_commit_tail seal unfolding commit_piece_def Let_def
    by (fastforce split: if_splits prod.splits)
qed

lemma head_commit_loop: "commit_loop stream s t = (cs, u) \<Longrightarrow> prefix (tr_head t) (tr_head u)"
proof (induction stream s t arbitrary: cs u rule: commit_loop.induct)
  case (1 stream remaining t)
  show ?case
  proof (cases "remaining = []")
    case True
    with 1(2) show ?thesis by (simp add: commit_loop.simps)
  next
    case False
    let ?piece = "fst (split_bytes remaining (piece_split remaining))" and ?rest = "snd (split_bytes remaining (piece_split remaining))"
    obtain cs1 v where piece: "commit_piece stream ?piece t = (cs1, v)" by fastforce
    obtain cs2 w where rest: "commit_loop stream ?rest v = (cs2, w)" by fastforce
    have "u = w" using 1(2) False piece rest by (subst (asm) commit_loop.simps) simp
    with head_commit_piece [OF piece] 1(1) [OF False piece [symmetric] rest] show ?thesis by auto
  qed
qed

lemma head_step: "transcript_step t u \<Longrightarrow> prefix (tr_head t) (tr_head u)"
  by (induction rule: transcript_step.induct)
    (auto simp: transcript_commit_def mark_capture_truncated_def transcript_close_def split: if_splits dest: head_commit_loop)

text \<open>
  C38: commits are numbered 1, 2, 3, ... without gaps (up to saturation at the largest \<open>u64\<close>); the
  head is the beginning of everything committed, and whatever is committed, marked or closed later, all its chunks stay
  at the beginning of the head; every chunk of the tail is the
  end of the committed chunk with its number; and as long as the truncation flag is not set, the
  history is exactly what was committed.
\<close>

theorem transcript_retains_log:
  assumes "transcript_run n t log" and "transcript_step\<^sup>*\<^sup>* t u"
  shows "(\<forall>i < length log. ck_sequence (log ! i) = min (i + 1) u64_max)
    \<and> tr_latest_sequence t = min (length log) u64_max
    \<and> (\<exists>rest. log = tr_head t @ rest \<and> retains (tr_tail t) rest)
    \<and> (\<not> tr_truncated t \<longrightarrow> transcript_chunks t = log)
    \<and> prefix (tr_head t) (tr_head u)"
proof -
  from assms(2) have "prefix (tr_head t) (tr_head u)"
    by (induction rule: rtranclp_induct) (auto dest: head_step intro: prefix_order.trans)
  with transcript_run_inv [OF assms(1)] show ?thesis
    by (auto simp: transcript_inv_def numbered_def transcript_chunks_def)
qed

text \<open>
  A commit loses nothing of its input: the chunks it returns, each at most 1024 bytes, join to
  the committed text; a closed transcript accepts nothing.
\<close>

theorem commit_returns_text:
  assumes "transcript_run n t log" and "transcript_commit stream s t = (cs, u)"
  shows "concat (map ck_text cs) = (if tr_closed t then [] else s)
    \<and> list_all (\<lambda>c. byte_len (ck_text c) \<le> MAX_TRANSCRIPT_CHUNK_BYTES) cs"
proof (cases "tr_closed t \<or> s = []")
  case True
  with assms(2) show ?thesis by (auto simp: transcript_commit_def)
next
  case False
  with assms(2) have loop: "commit_loop stream s t = (cs, u)" by (simp add: transcript_commit_def)
  have inv: "transcript_inv t log" using transcript_run_inv [OF assms(1)] by blast
  from inv_commit_loop [OF inv loop] False
  show ?thesis by (auto simp: list_all_iff)
qed

section \<open>Reading\<close>

definition fresh_chunks :: "command_transcript \<Rightarrow> nat \<Rightarrow> command_output_chunk list" where
  "fresh_chunks t after = filter (\<lambda>c. after < ck_sequence c) (transcript_chunks t)"

lemma read_chunks_prefix:
  "\<exists>k. read_chunks after m cs acc bytes = acc @ take k (filter (\<lambda>c. after < ck_sequence c) cs)
     \<and> (acc = [] \<and> filter (\<lambda>c. after < ck_sequence c) cs \<noteq> [] \<longrightarrow> 0 < k)"
proof (induction cs arbitrary: acc bytes)
  case (Cons c cs)
  consider (old) "ck_sequence c \<le> after"
    | (full) "after < ck_sequence c" "acc \<noteq> []" "m < saturating_add bytes (byte_len (ck_text c))"
    | (take) "after < ck_sequence c" "acc = [] \<or> saturating_add bytes (byte_len (ck_text c)) \<le> m"
    by (meson not_le)
  then show ?case
  proof cases
    case old
    with Cons.IH [of acc bytes] show ?thesis by simp
  next
    case full
    then show ?thesis by (intro exI [of _ 0]) simp
  next
    case take
    from Cons.IH [of "acc @ [c]" "saturating_add bytes (byte_len (ck_text c))"] obtain k where
      "read_chunks after m cs (acc @ [c]) (saturating_add bytes (byte_len (ck_text c))) =
        (acc @ [c]) @ take k (filter (\<lambda>c. after < ck_sequence c) cs)" by blast
    with take show ?thesis by (intro exI [of _ "Suc k"]) auto
  qed
qed simp

lemma read_chunks_bytes:
  assumes "m < u64_max" and "chunk_bytes acc \<le> m \<or> length acc \<le> 1" and "bytes = min (chunk_bytes acc) u64_max"
  shows "chunk_bytes (read_chunks after m cs acc bytes) \<le> m \<or> length (read_chunks after m cs acc bytes) \<le> 1"
  using assms(2,3)
proof (induction cs arbitrary: acc bytes)
  case (Cons c cs)
  let ?b = "saturating_add bytes (byte_len (ck_text c))"
  have b: "?b = min (chunk_bytes (acc @ [c])) u64_max"
    using Cons.prems(2) by (auto simp: saturating_add_def min_def)
  show ?case
  proof (cases "ck_sequence c \<le> after \<or> acc \<noteq> [] \<and> m < ?b")
    case True
    with Cons show ?thesis by auto
  next
    case False
    then have "chunk_bytes (acc @ [c]) \<le> m \<or> length (acc @ [c]) \<le> 1"
      using b assms(1) by (auto simp: min_def split: if_splits)
    from Cons.IH [OF this b] False show ?thesis by (auto simp: not_le)
  qed
qed simp

text \<open>
  A read returns the beginning of the retained chunks after its cursor, at least one if there
  is one, and within the byte budget unless a single chunk alone exceeds it.
\<close>

theorem read_after_is_bounded_prefix:
  assumes "max_bytes < u64_max"
  shows "prefix (bt_chunks (read_after t after max_bytes)) (fresh_chunks t after)
    \<and> (bt_chunks (read_after t after max_bytes) = [] \<longleftrightarrow> fresh_chunks t after = [])
    \<and> (chunk_bytes (bt_chunks (read_after t after max_bytes)) \<le> max_bytes
       \<or> length (bt_chunks (read_after t after max_bytes)) \<le> 1)"
proof -
  obtain k where k: "bt_chunks (read_after t after max_bytes) = take k (fresh_chunks t after)"
    "fresh_chunks t after \<noteq> [] \<longrightarrow> 0 < k"
    using read_chunks_prefix [of after max_bytes "transcript_chunks t" "[]" 0]
    by (auto simp: read_after_def fresh_chunks_def)
  moreover have "chunk_bytes (bt_chunks (read_after t after max_bytes)) \<le> max_bytes
      \<or> length (bt_chunks (read_after t after max_bytes)) \<le> 1"
    using read_chunks_bytes [OF assms, of "[]" 0 after "transcript_chunks t"] by (simp add: read_after_def)
  ultimately show ?thesis by (auto simp: take_is_prefix)
qed

lemma run_sorted:
  assumes "transcript_run n t log" and "length log < u64_max"
  shows "sorted_wrt (<) (map ck_sequence (transcript_chunks t))"
proof -
  from transcript_run_inv [OF assms(1)] obtain rest where num: "numbered log"
    and rest: "log = tr_head t @ rest" "retains (tr_tail t) rest"
    by (auto simp: transcript_inv_def)
  have "map ck_sequence log = [1..<Suc (length log)]"
    using num assms(2) by (intro nth_equalityI) (auto simp: numbered_def simp del: upt_Suc)
  then have log: "sorted_wrt (<) (map ck_sequence (tr_head t @ rest))"
    using rest(1) by (metis sorted_wrt_upt)
  let ?j = "length rest - length (tr_tail t)"
  have "map ck_sequence (tr_tail t) = map ck_sequence (drop ?j rest)"
    using rest(2) by (intro nth_equalityI) (auto simp: retains_def list_all2_conv_all_nth trimmed_def)
  then have "map ck_sequence (transcript_chunks t) = map ck_sequence (tr_head t) @ drop ?j (map ck_sequence rest)"
    by (simp add: transcript_chunks_def drop_map)
  moreover have "set (drop ?j (map ck_sequence rest)) \<subseteq> ck_sequence ` set rest"
    using set_drop_subset [of ?j "map ck_sequence rest"] by simp
  ultimately show ?thesis
    using log by (auto simp: sorted_wrt_append sorted_wrt_drop)
qed

lemma filter_after_prefix:
  assumes "sorted_wrt (<) (map ck_sequence cs)" and "filter (\<lambda>c. after < ck_sequence c) cs = r @ q" and "r \<noteq> []"
  shows "filter (\<lambda>c. ck_sequence (last r) < ck_sequence c) cs = q"
proof -
  have sorted: "sorted_wrt (<) (map ck_sequence (r @ q))"
    using sorted_wrt_filter [of "\<lambda>c d. ck_sequence c < ck_sequence d" cs] assms(1,2) by (metis sorted_wrt_map)
  have "last r \<in> set (filter (\<lambda>c. after < ck_sequence c) cs)"
    unfolding assms(2) using assms(3) by simp
  then have "after < ck_sequence (last r)" by simp
  then have "filter (\<lambda>c. ck_sequence (last r) < ck_sequence c) cs =
      filter (\<lambda>c. ck_sequence (last r) < ck_sequence c) (r @ q)"
    unfolding assms(2) [symmetric] filter_filter by (intro filter_cong) auto
  also have "\<dots> = q"
    using sorted assms(3)
    by (cases r rule: rev_cases) (auto simp: sorted_wrt_append filter_empty_conv filter_id_conv)
  finally show ?thesis .
qed

text \<open>
  Paging through the history loses nothing and repeats nothing: what a reader that continues
  from the last number it received can still get is exactly what the previous read left over.
\<close>

theorem reads_resume_without_loss:
  assumes "transcript_run n t log" and "length log < u64_max"
    and "bt_chunks (read_after t after max_bytes) = chunks" and "chunks \<noteq> []"
  shows "fresh_chunks t after = chunks @ fresh_chunks t (ck_sequence (last chunks))"
proof -
  obtain k where k: "chunks = take k (fresh_chunks t after)"
    using read_chunks_prefix [of after max_bytes "transcript_chunks t" "[]" 0] assms(3)
    by (auto simp: read_after_def fresh_chunks_def)
  then have split: "fresh_chunks t after = chunks @ drop k (fresh_chunks t after)" by simp
  from filter_after_prefix [OF run_sorted [OF assms(1,2)] split [unfolded fresh_chunks_def [of t after]] assms(4)]
  have "fresh_chunks t (ck_sequence (last chunks)) = drop k (fresh_chunks t after)"
    by (simp add: fresh_chunks_def)
  with split show ?thesis by simp
qed

section \<open>Witnesses\<close>

text \<open>A transcript of four bytes after two commits: the head is full and the tail has been cut.\<close>

definition example_run :: command_transcript where
  "example_run = snd (transcript_commit Stderr (S ''defg'') (snd (transcript_commit Stdout (S ''abc'') (transcript_new 4))))"

definition example_log :: "command_output_chunk list" where
  "example_log =
     fst (transcript_commit Stdout (S ''abc'') (transcript_new 4))
     @ fst (transcript_commit Stderr (S ''defg'') (snd (transcript_commit Stdout (S ''abc'') (transcript_new 4))))"

lemma example_run: "transcript_run 4 example_run example_log"
proof -
  let ?t = "transcript_commit Stdout (S ''abc'') (transcript_new 4)"
  have "transcript_run 4 (snd ?t) ([] @ fst ?t)"
    by (rule transcript_run.commit [OF transcript_run.new]) simp
  then show ?thesis
    unfolding example_run_def example_log_def
    by (simp add: transcript_run.commit)
qed

theorem transcript_bounded_witness:
  "chunk_bytes (transcript_chunks example_run) \<le> max 4 2
   \<and> length (transcript_chunks example_run) \<le> MAX_TRANSCRIPT_CHUNKS"
  by (rule transcript_bounded [OF example_run])

theorem transcript_retains_log_witness:
  "ck_sequence (example_log ! 2) = 3
   \<and> (\<exists>rest. example_log = tr_head example_run @ rest \<and> retains (tr_tail example_run) rest)
   \<and> prefix (tr_head example_run) (tr_head (transcript_close example_run))"
proof -
  have "length example_log = 3" by code_simp
  moreover have "transcript_step\<^sup>*\<^sup>* example_run (transcript_close example_run)" by (blast intro: transcript_step.close)
  ultimately show ?thesis using transcript_retains_log [OF example_run] by (simp add: u64_max_def)
qed

theorem commit_returns_text_witness:
  "concat (map ck_text (fst (transcript_commit Stdout (S ''hij'') example_run))) = S ''hij''"
proof -
  have "\<not> tr_closed example_run" by code_simp
  with commit_returns_text [OF example_run, of Stdout "S ''hij''"] show ?thesis
    by (metis prod.collapse)
qed

theorem read_after_is_bounded_prefix_witness:
  "prefix (bt_chunks (read_after example_run 1 2)) (fresh_chunks example_run 1)"
proof -
  have "(2 :: nat) < u64_max" by (simp add: u64_max_def)
  from read_after_is_bounded_prefix [OF this] show ?thesis by blast
qed

theorem reads_resume_without_loss_witness:
  "fresh_chunks example_run 0 =
     bt_chunks (read_after example_run 0 2)
     @ fresh_chunks example_run (ck_sequence (last (bt_chunks (read_after example_run 0 2))))"
proof -
  have "length example_log = 3" by code_simp
  then have "length example_log < u64_max" by (simp add: u64_max_def)
  moreover have "bt_chunks (read_after example_run 0 2) \<noteq> []" by code_simp
  ultimately show ?thesis by (intro reads_resume_without_loss [OF example_run _ refl])
qed

end
