(* ===== verification/Command_Registry.thy ===== *)
theory Command_Registry
  imports Prelude "HOL-Library.AList"
begin

text \<open>
  The registry of running commands, \<open>CommandRunState\<close> and \<open>CommandRunGuard\<close> of
  \<open>src/crates/core/src/command/types.rs\<close>. A cancel flag is an \<open>Arc<AtomicBool>\<close> that the registry
  entry and the guard share, so it lives in a store and both hold its address; the map is an
  association list with one entry per key. Every operation takes the registry lock, so the steps
  below are atomic.
\<close>

section \<open>State and operations\<close>

record running_command =
  rc_run_id :: rstring
  rc_cancel_flag :: nat

record run_state =
  rs_running :: "(rstring \<times> running_command) list"
  rs_flags :: "nat \<Rightarrow> bool"
  rs_next_flag :: nat

record run_guard =
  gd_action_id :: rstring
  gd_cancel_flag :: nat

definition registry_empty :: run_state where
  "registry_empty = \<lparr>rs_running = [], rs_flags = (\<lambda>_. False), rs_next_flag = 0\<rparr>"

definition registry_register :: "rstring \<Rightarrow> rstring \<Rightarrow> run_state \<Rightarrow> run_guard \<times> run_state" where
  "registry_register action_id run_id s =
     (let flag = rs_next_flag s in
      (\<lparr>gd_action_id = action_id, gd_cancel_flag = flag\<rparr>,
       s\<lparr>rs_running := AList.update action_id \<lparr>rc_run_id = run_id, rc_cancel_flag = flag\<rparr> (rs_running s),
         rs_flags := (rs_flags s)(flag := False),
         rs_next_flag := flag + 1\<rparr>))"

definition registry_cancel :: "rstring \<Rightarrow> run_state \<Rightarrow> bool \<times> run_state" where
  "registry_cancel action_id s =
     (case map_of (rs_running s) action_id of
        None \<Rightarrow> (False, s)
      | Some command \<Rightarrow> (True, s\<lparr>rs_flags := (rs_flags s)(rc_cancel_flag command := True)\<rparr>))"

definition commands_of_run :: "rstring \<Rightarrow> run_state \<Rightarrow> running_command list" where
  "commands_of_run run_id s = filter (\<lambda>command. rc_run_id command = run_id) (map snd (rs_running s))"

definition registry_cancel_run :: "rstring \<Rightarrow> run_state \<Rightarrow> nat \<times> run_state" where
  "registry_cancel_run run_id s =
     foldl (\<lambda>(cancelled, s) command.
         (cancelled + 1, s\<lparr>rs_flags := (rs_flags s)(rc_cancel_flag command := True)\<rparr>))
       (0, s) (commands_of_run run_id s)"

definition has_active_run :: "rstring \<Rightarrow> run_state \<Rightarrow> bool" where
  "has_active_run run_id s = list_ex (\<lambda>command. rc_run_id command = run_id) (map snd (rs_running s))"

definition registry_unregister :: "rstring \<Rightarrow> run_state \<Rightarrow> run_state" where
  "registry_unregister action_id s = s\<lparr>rs_running := AList.delete action_id (rs_running s)\<rparr>"

definition guard_drop :: "run_guard \<Rightarrow> run_state \<Rightarrow> run_state" where
  "guard_drop guard s = registry_unregister (gd_action_id guard) s"

definition guard_cancelled :: "run_guard \<Rightarrow> run_state \<Rightarrow> bool" where
  "guard_cancelled guard s = rs_flags s (gd_cancel_flag guard)"

section \<open>Guards and entries\<close>

text \<open>
  The contract that the executor relies on, for registrations whose action id is not in use: the
  registry holds exactly one entry per live guard, and the entry shares the guard's flag.
  \<open>registry_run s guards\<close> is reached by such histories; \<open>guards\<close> pairs each live guard with its run.
\<close>

inductive registry_run :: "run_state \<Rightarrow> (run_guard \<times> rstring) list \<Rightarrow> bool" where
  start: "registry_run registry_empty []"
| register: "registry_run s guards \<Longrightarrow> action_id \<notin> gd_action_id ` fst ` set guards \<Longrightarrow>
    registry_register action_id run_id s = (guard, u) \<Longrightarrow> registry_run u ((guard, run_id) # guards)"
| cancel: "registry_run s guards \<Longrightarrow> registry_run (snd (registry_cancel action_id s)) guards"
| cancel_run: "registry_run s guards \<Longrightarrow> registry_run (snd (registry_cancel_run run_id s)) guards"
| drop: "registry_run s (a @ (guard, run_id) # b) \<Longrightarrow> registry_run (guard_drop guard s) (a @ b)"

definition entry_of :: "run_guard \<times> rstring \<Rightarrow> rstring \<times> running_command" where
  "entry_of g = (gd_action_id (fst g), \<lparr>rc_run_id = snd g, rc_cancel_flag = gd_cancel_flag (fst g)\<rparr>)"

lemma fst_entry_of [simp]: "fst (entry_of g) = gd_action_id (fst g)"
  by (simp add: entry_of_def)

definition registry_inv :: "run_state \<Rightarrow> (run_guard \<times> rstring) list \<Rightarrow> bool" where
  "registry_inv s guards \<longleftrightarrow>
     set (rs_running s) = entry_of ` set guards \<and> distinct (map fst (rs_running s))
     \<and> distinct (map (gd_action_id \<circ> fst) guards) \<and> distinct (map (gd_cancel_flag \<circ> fst) guards)
     \<and> (\<forall>g \<in> set guards. gd_cancel_flag (fst g) < rs_next_flag s)"

lemma foldl_cancel:
  "foldl (\<lambda>(n, s) command. (n + 1, s\<lparr>rs_flags := (rs_flags s)(rc_cancel_flag command := True)\<rparr>)) (n, s) cs =
     (n + length cs, s\<lparr>rs_flags := (\<lambda>f. f \<in> rc_cancel_flag ` set cs \<or> rs_flags s f)\<rparr>)"
proof (induction cs arbitrary: n s)
  case Nil
  show ?case by simp
next
  case (Cons c cs)
  have "(\<lambda>f. f \<in> rc_cancel_flag ` set cs \<or> ((rs_flags s)(rc_cancel_flag c := True)) f) =
      (\<lambda>f. f \<in> rc_cancel_flag ` set (c # cs) \<or> rs_flags s f)" by auto
  with Cons.IH show ?case by simp
qed

lemma registry_cancel_run_eq:
  "registry_cancel_run run_id s =
     (length (commands_of_run run_id s),
      s\<lparr>rs_flags := (\<lambda>f. f \<in> rc_cancel_flag ` set (commands_of_run run_id s) \<or> rs_flags s f)\<rparr>)"
  unfolding registry_cancel_run_def foldl_cancel by simp

lemma registry_inv_flags: "registry_inv (s\<lparr>rs_flags := f\<rparr>) guards \<longleftrightarrow> registry_inv s guards"
  by (simp add: registry_inv_def)

lemma registry_inv_register:
  assumes "registry_inv s guards" and "action_id \<notin> gd_action_id ` fst ` set guards"
    and "registry_register action_id run_id s = (guard, u)"
  shows "registry_inv u ((guard, run_id) # guards)"
proof -
  have new: "action_id \<notin> fst ` set (rs_running s)"
    using assms(1,2) by (force simp: registry_inv_def entry_of_def)
  have guard: "guard = \<lparr>gd_action_id = action_id, gd_cancel_flag = rs_next_flag s\<rparr>"
    and u: "rs_running u = AList.update action_id \<lparr>rc_run_id = run_id, rc_cancel_flag = rs_next_flag s\<rparr> (rs_running s)"
      "rs_next_flag u = rs_next_flag s + 1"
    using assms(3) by (auto simp: registry_register_def Let_def)
  have "AList.update action_id c al = al @ [(action_id, c)]" if "action_id \<notin> fst ` set al" for c al
    using that by (induction al) auto
  with new u have running: "rs_running u =
      rs_running s @ [(action_id, \<lparr>rc_run_id = run_id, rc_cancel_flag = rs_next_flag s\<rparr>)]" by simp
  with assms(1,2) new u(2) show ?thesis
    unfolding registry_inv_def guard
    by (auto simp: entry_of_def image_iff less_Suc_eq)
qed

lemma registry_inv_drop:
  assumes "registry_inv s (a @ (guard, run_id) # b)"
  shows "registry_inv (guard_drop guard s) (a @ b)"
proof -
  let ?k = "gd_action_id guard"
  have run: "set (rs_running s) = entry_of ` set (a @ (guard, run_id) # b)"
    and k: "?k \<notin> (\<lambda>g. gd_action_id (fst g)) ` set (a @ b)"
    using assms by (simp_all add: registry_inv_def image_Un)
  have "set (AList.delete ?k (rs_running s)) = {e \<in> set (rs_running s). fst e \<noteq> ?k}"
    by (auto simp: AList.delete_eq)
  also have "\<dots> = entry_of ` {g \<in> set (a @ (guard, run_id) # b). gd_action_id (fst g) \<noteq> ?k}"
    unfolding run by (auto simp del: set_append)
  also have "{g \<in> set (a @ (guard, run_id) # b). gd_action_id (fst g) \<noteq> ?k} = set (a @ b)"
    using k by force
  finally show ?thesis
    using assms by (auto simp: registry_inv_def guard_drop_def registry_unregister_def distinct_delete)
qed

lemma registry_run_inv: "registry_run s guards \<Longrightarrow> registry_inv s guards"
proof (induction rule: registry_run.induct)
  case start
  show ?case by (simp add: registry_inv_def registry_empty_def)
next
  case (cancel s guards action_id)
  then show ?case by (simp add: registry_cancel_def registry_inv_flags split: option.split)
qed (auto simp: registry_cancel_run_eq registry_inv_flags intro: registry_inv_register registry_inv_drop)

lemma live_entry:
  assumes "registry_inv s guards" and "(guard, run_id) \<in> set guards"
  shows "map_of (rs_running s) (gd_action_id guard) =
    Some \<lparr>rc_run_id = run_id, rc_cancel_flag = gd_cancel_flag guard\<rparr>"
proof -
  have "entry_of (guard, run_id) \<in> set (rs_running s)" using assms by (auto simp: registry_inv_def)
  then show ?thesis using assms(1) by (intro map_of_is_SomeI) (auto simp: registry_inv_def entry_of_def)
qed

lemma live_flag_eq:
  assumes "registry_inv s guards" and "g \<in> set guards" and "h \<in> set guards"
    and "gd_cancel_flag (fst g) = gd_cancel_flag (fst h)"
  shows "g = h"
proof -
  have "inj_on (gd_cancel_flag \<circ> fst) (set guards)"
    using assms(1) by (simp add: registry_inv_def distinct_map)
  from inj_onD [OF this, of g h] assms(2-4) show ?thesis by simp
qed

lemma mem_commands_of_run:
  assumes "registry_inv s guards"
  shows "rc_cancel_flag ` set (commands_of_run r s) = (\<lambda>g. gd_cancel_flag (fst g)) ` {g \<in> set guards. snd g = r}"
proof -
  have run: "set (rs_running s) = entry_of ` set guards" using assms by (simp add: registry_inv_def)
  have "set (commands_of_run r s) = (\<lambda>g. snd (entry_of g)) ` {g \<in> set guards. snd g = r}"
    unfolding commands_of_run_def set_filter set_map run image_image by (auto simp: entry_of_def)
  then show ?thesis by (simp add: image_image entry_of_def)
qed

section \<open>Properties\<close>

text \<open>
  Cancelling a registered action raises the flag of its own guard and of no other live
  guard.
\<close>

theorem cancel_reaches_exactly_its_guard:
  assumes "registry_run s guards" and "(guard, run_id) \<in> set guards"
  shows "fst (registry_cancel (gd_action_id guard) s)
    \<and> (\<forall>g \<in> set guards. guard_cancelled (fst g) (snd (registry_cancel (gd_action_id guard) s)) \<longleftrightarrow>
         g = (guard, run_id) \<or> guard_cancelled (fst g) s)"
proof -
  have inv: "registry_inv s guards" using assms(1) by (rule registry_run_inv)
  have same: "gd_cancel_flag (fst g) = gd_cancel_flag guard \<longleftrightarrow> g = (guard, run_id)" if "g \<in> set guards" for g
    using live_flag_eq [OF inv that assms(2)] by auto
  have "registry_cancel (gd_action_id guard) s =
      (True, s\<lparr>rs_flags := (rs_flags s)(gd_cancel_flag guard := True)\<rparr>)"
    using live_entry [OF inv assms(2)] by (simp add: registry_cancel_def)
  then show ?thesis by (simp add: guard_cancelled_def same)
qed

text \<open>
  Cancelling a run raises the flags of exactly the live guards of that run.
\<close>

theorem cancel_run_reaches_exactly_its_run:
  assumes "registry_run s guards"
  shows "\<forall>g \<in> set guards. guard_cancelled (fst g) (snd (registry_cancel_run run_id s)) \<longleftrightarrow>
    snd g = run_id \<or> guard_cancelled (fst g) s"
proof
  fix g
  assume g: "g \<in> set guards"
  have inv: "registry_inv s guards" using assms by (rule registry_run_inv)
  have "gd_cancel_flag (fst g) \<in> rc_cancel_flag ` set (commands_of_run run_id s) \<longleftrightarrow> snd g = run_id"
    unfolding mem_commands_of_run [OF inv] using g live_flag_eq [OF inv g] by auto
  then show "guard_cancelled (fst g) (snd (registry_cancel_run run_id s)) \<longleftrightarrow>
      snd g = run_id \<or> guard_cancelled (fst g) s"
    by (simp add: registry_cancel_run_eq guard_cancelled_def)
qed

text \<open>
  A run counts as active exactly while one of its guards is alive: from registration, before
  any worker starts, until the guard is dropped.
\<close>

theorem active_run_iff_live_guard:
  assumes "registry_run s guards"
  shows "has_active_run run_id s \<longleftrightarrow> run_id \<in> snd ` set guards"
proof -
  have "set (rs_running s) = entry_of ` set guards"
    using registry_run_inv [OF assms] by (simp add: registry_inv_def)
  then show ?thesis by (force simp: has_active_run_def list_ex_iff entry_of_def)
qed

section \<open>Witnesses\<close>

definition two_guards :: "(run_guard \<times> rstring) list" where
  "two_guards =
     [(\<lparr>gd_action_id = S ''b'', gd_cancel_flag = 1\<rparr>, S ''r2''), (\<lparr>gd_action_id = S ''a'', gd_cancel_flag = 0\<rparr>, S ''r1'')]"

definition two_running :: run_state where
  "two_running = snd (registry_register (S ''b'') (S ''r2'') (snd (registry_register (S ''a'') (S ''r1'') registry_empty)))"

lemma two_running: "registry_run two_running two_guards"
  unfolding two_running_def two_guards_def
proof (rule registry_run.register [where action_id = "S ''b''"])
  show "registry_run (snd (registry_register (S ''a'') (S ''r1'') registry_empty))
      [(\<lparr>gd_action_id = S ''a'', gd_cancel_flag = 0\<rparr>, S ''r1'')]"
    by (rule registry_run.register [OF registry_run.start, of "S ''a''"])
      (auto simp: registry_register_def registry_empty_def Let_def)
qed (auto simp: registry_register_def registry_empty_def Let_def)

definition guard_a :: run_guard where
  "guard_a = \<lparr>gd_action_id = S ''a'', gd_cancel_flag = 0\<rparr>"

definition guard_b :: run_guard where
  "guard_b = \<lparr>gd_action_id = S ''b'', gd_cancel_flag = 1\<rparr>"

lemma two_guards_members: "(guard_a, S ''r1'') \<in> set two_guards" "(guard_b, S ''r2'') \<in> set two_guards"
  by (simp_all add: two_guards_def guard_a_def guard_b_def)

lemma two_running_flags: "\<not> guard_cancelled guard_a two_running" "\<not> guard_cancelled guard_b two_running"
  by code_simp+

theorem cancel_reaches_exactly_its_guard_witness:
  "guard_cancelled guard_a (snd (registry_cancel (S ''a'') two_running))
   \<and> \<not> guard_cancelled guard_b (snd (registry_cancel (S ''a'') two_running))"
proof -
  have "gd_action_id guard_a = S ''a''" "guard_a \<noteq> guard_b" by (simp_all add: guard_a_def guard_b_def)
  with cancel_reaches_exactly_its_guard [OF two_running two_guards_members(1)] two_guards_members two_running_flags
  show ?thesis by force
qed

theorem cancel_run_reaches_exactly_its_run_witness:
  "guard_cancelled guard_b (snd (registry_cancel_run (S ''r2'') two_running))
   \<and> \<not> guard_cancelled guard_a (snd (registry_cancel_run (S ''r2'') two_running))"
  using cancel_run_reaches_exactly_its_run [OF two_running, of "S ''r2''"] two_guards_members two_running_flags
  by force

theorem active_run_iff_live_guard_witness:
  "has_active_run (S ''r1'') two_running \<longleftrightarrow> S ''r1'' \<in> snd ` set two_guards"
  by (rule active_run_iff_live_guard [OF two_running])

section \<open>Reused action ids\<close>

text \<open>
  Nothing in \<open>register\<close> rejects an id that is in use: it replaces the entry, and dropping the older
  guard then removes the entry of the newer one, which can no longer be cancelled or seen as active.
\<close>

definition reused_state :: run_state where
  "reused_state =
     (let (older, s) = registry_register (S ''a'') (S ''r'') registry_empty;
          (newer, s) = registry_register (S ''a'') (S ''r'') s in
      guard_drop older s)"

lemma older_guard_unregisters_newer:
  "\<not> has_active_run (S ''r'') reused_state" "\<not> fst (registry_cancel (S ''a'') reused_state)"
  by code_simp+

end
