(* ===== verification/Contracts.thy ===== *)
theory Contracts
  imports Prelude
begin

text \<open>
  Contracts that several components share, as locales: an invariant of a step relation, a condition
  that is final once reached, and a byte filter that works on a stream in arbitrary pieces. Each is
  interpreted in the theory of the component that meets it.
\<close>

section \<open>Step relations\<close>

locale step_invariant =
  fixes step :: "'s \<Rightarrow> 's \<Rightarrow> bool" and inv :: "'s \<Rightarrow> bool"
  assumes inv_step: "step s t \<Longrightarrow> inv s \<Longrightarrow> inv t"
begin

lemma inv_steps: "step\<^sup>*\<^sup>* s t \<Longrightarrow> inv s \<Longrightarrow> inv t"
  by (induction rule: rtranclp_induct) (auto intro: inv_step)

end

text \<open>Once \<open>settled\<close> holds it stays, and the view of the state can only shrink in the order \<open>le\<close>.\<close>

locale step_settles = step_invariant step inv
  for step :: "'s \<Rightarrow> 's \<Rightarrow> bool" and inv :: "'s \<Rightarrow> bool" +
  fixes settled :: "'s \<Rightarrow> bool" and view :: "'s \<Rightarrow> 'v" and le :: "'v \<Rightarrow> 'v \<Rightarrow> bool"
  assumes le_refl: "le v v"
    and le_trans: "le u v \<Longrightarrow> le v w \<Longrightarrow> le u w"
    and settled_step: "step s t \<Longrightarrow> inv s \<Longrightarrow> settled s \<Longrightarrow> settled t \<and> le (view t) (view s)"
begin

lemma settled_steps: "step\<^sup>*\<^sup>* s t \<Longrightarrow> inv s \<Longrightarrow> settled s \<Longrightarrow> settled t \<and> le (view t) (view s)"
proof (induction rule: rtranclp_induct)
  case base
  then show ?case by (simp add: le_refl)
next
  case (step t u)
  then have "inv t" by (blast intro: inv_steps)
  with step settled_step [of t u] show ?case by (blast intro: le_trans)
qed

end

section \<open>Filters on a stream of pieces\<close>

text \<open>
  A filter keeps a pending state between pieces. What it has yet to say about the bytes that are still
  to come is \<open>whole\<close>; one push says the first part of it, and the end of the stream says the rest.
\<close>

locale chunked_stream =
  fixes push :: "'s \<Rightarrow> 'a list \<Rightarrow> bool \<Rightarrow> 'o list \<times> 's"
    and stream :: "'s \<Rightarrow> 'a list list \<Rightarrow> 'o list"
    and view :: "'o list \<Rightarrow> 'b list"
    and whole :: "'s \<Rightarrow> 'a list \<Rightarrow> 'b list"
  assumes stream_Nil: "stream s [] = fst (push s [] True)"
    and stream_Cons: "push s piece False = (out, s') \<Longrightarrow> stream s (piece # pieces) = out @ stream s' pieces"
    and view_append: "view (xs @ ys) = view xs @ view ys"
    and push_piece: "push s piece False = (out, s') \<Longrightarrow> view out @ whole s' later = whole s (piece @ later)"
    and push_end: "push s [] True = (out, s') \<Longrightarrow> view out = whole s []"
begin

lemma view_stream: "view (stream s pieces) = whole s (concat pieces)"
proof (induction pieces arbitrary: s)
  case Nil
  obtain out s' where "push s [] True = (out, s')" by fastforce
  with push_end show ?case by (simp add: stream_Nil)
next
  case (Cons piece pieces)
  obtain out s' where push: "push s piece False = (out, s')" by fastforce
  with push_piece [OF push, of "concat pieces"] Cons.IH show ?case by (simp add: stream_Cons view_append)
qed

lemma cuts_irrelevant: "concat pieces = concat pieces' \<Longrightarrow> view (stream s pieces) = view (stream s pieces')"
  by (simp add: view_stream)

end

end
