(* ===== verification/Output_Redaction.thy ===== *)
theory Output_Redaction
  imports Contracts "HOL-Library.Word"
begin

text \<open>
  Redaction of process output, \<open>src/crates/core/src/command/output_capture.rs\<close>: private paths are
  replaced before any consumer sees a byte. Output arrives in arbitrary reads, so the redactor keeps
  enough unread bytes to recognise a path that is split between two reads. The theory shows that the
  streamed output is the one-shot redaction of the whole stream for every way of cutting it, and that
  no private path survives in the text that is passed on.
\<close>

section \<open>Bytes and segments\<close>

type_synonym byte = "8 word"

type_synonym redaction = "byte list \<times> byte list"

record redacted_output_segment =
  sg_bytes :: "byte list"
  sg_source_bytes :: nat
  sg_atomic_replacement :: bool

text \<open>
  The constructor of the replacement set: empty sources are dropped, the rest is sorted by falling
  length (a stable sort) and neighbours with the same source are merged into the first one.
\<close>

fun dedup_by_source :: "redaction list \<Rightarrow> redaction list" where
  "dedup_by_source (a # b # rs) =
     (if fst a = fst b then dedup_by_source (a # rs) else a # dedup_by_source (b # rs))"
| "dedup_by_source rs = rs"

definition redaction_set_new :: "redaction list \<Rightarrow> redaction list" where
  "redaction_set_new replacements =
     dedup_by_source (sort_key (\<lambda>r. - int (length (fst r))) (filter (\<lambda>r. fst r \<noteq> []) replacements))"

text \<open>\<open>source.windows(pattern.len()).position(|window| window == pattern)\<close> for a non-empty pattern.\<close>

fun window_position :: "byte list \<Rightarrow> byte list \<Rightarrow> nat option" where
  "window_position [] p = None"
| "window_position (c # s) p =
     (if starts_with (c # s) p then Some 0 else map_option Suc (window_position s p))"

text \<open>One round of the loop of \<open>next_redaction\<close>: the earliest start wins, then the longest pattern.\<close>

definition select_redaction ::
  "byte list \<Rightarrow> nat \<Rightarrow> nat \<Rightarrow> (nat \<times> nat \<times> byte list) option \<Rightarrow> redaction
   \<Rightarrow> (nat \<times> nat \<times> byte list) option" where
  "select_redaction source cursor start_before selected r =
     (case r of
        (pattern, replacement) \<Rightarrow>
          if pattern = [] \<or> length source - cursor < length pattern then selected
          else
            (case window_position (drop cursor source) pattern of
               None \<Rightarrow> selected
             | Some relative \<Rightarrow>
                 let start = cursor + relative in
                 if start_before \<le> start then selected
                 else
                   (case selected of
                      None \<Rightarrow> Some (start, length pattern, replacement)
                    | Some (selected_start, selected_len, _) \<Rightarrow>
                        if start < selected_start \<or> start = selected_start \<and> selected_len < length pattern
                        then Some (start, length pattern, replacement) else selected)))"

definition next_redaction ::
  "byte list \<Rightarrow> nat \<Rightarrow> nat \<Rightarrow> redaction list \<Rightarrow> (nat \<times> nat \<times> byte list) option" where
  "next_redaction source cursor start_before redactions =
     foldl (select_redaction source cursor start_before) None redactions"

section \<open>The pattern that starts at a position\<close>

text \<open>The redaction that applies to a text at its very start: the longest, the first of that length.\<close>

definition improve_match ::
  "byte list \<Rightarrow> (nat \<times> byte list) option \<Rightarrow> redaction \<Rightarrow> (nat \<times> byte list) option" where
  "improve_match s best r =
     (if fst r \<noteq> [] \<and> starts_with s (fst r)
         \<and> (case best of None \<Rightarrow> True | Some (n, _) \<Rightarrow> n < length (fst r))
      then Some (length (fst r), snd r) else best)"

definition match_at :: "redaction list \<Rightarrow> byte list \<Rightarrow> (nat \<times> byte list) option" where
  "match_at redactions s = foldl (improve_match s) None redactions"

lemma match_at_snoc: "match_at (rs @ [r]) s = improve_match s (match_at rs s) r"
  by (simp add: match_at_def)

lemma match_at_Nil [simp]: "match_at [] s = None"
  by (simp add: match_at_def)

lemma starts_with_length: "starts_with s p \<Longrightarrow> length p \<le> length s"
  by (auto simp: starts_with_iff_prefix dest: prefix_length_le)

lemma match_at_Some:
  "match_at rs s = Some (n, replacement) \<Longrightarrow>
     0 < n \<and> n \<le> length s \<and> (\<exists>p. (p, replacement) \<in> set rs \<and> length p = n \<and> starts_with s p)"
proof (induction rs rule: rev_induct)
  case (snoc r rs)
  then show ?case
    by (cases r) (auto simp: match_at_snoc improve_match_def starts_with_length split: if_split_asm)
qed simp

lemma match_at_None_iff:
  "match_at rs s = None \<longleftrightarrow> (\<forall>(p, replacement) \<in> set rs. p \<noteq> [] \<longrightarrow> \<not> starts_with s p)"
proof (induction rs rule: rev_induct)
  case (snoc r rs)
  then show ?case by (cases r) (auto simp: match_at_snoc improve_match_def split: option.split)
qed simp

text \<open>The decision at a position depends on no more text than the longest pattern covers.\<close>

lemma starts_with_append:
  "length p \<le> length s \<Longrightarrow> starts_with (s @ t) p = starts_with s p"
  by (auto simp: starts_with_iff_prefix prefix_def append_eq_append_conv2)

lemma match_at_append:
  "\<forall>(p, replacement) \<in> set rs. length p \<le> length s \<Longrightarrow> match_at rs (s @ t) = match_at rs s"
proof (induction rs rule: rev_induct)
  case (snoc r rs)
  then show ?case by (cases r) (simp add: match_at_snoc improve_match_def starts_with_append)
qed simp

section \<open>The search finds the first position that matches\<close>

lemma window_position_Some:
  "window_position s p = Some i \<Longrightarrow> p \<noteq> [] \<Longrightarrow>
     i < length s \<and> starts_with (drop i s) p \<and> (\<forall>j < i. \<not> starts_with (drop j s) p)"
proof (induction s p arbitrary: i rule: window_position.induct)
  case (2 c s p)
  show ?case
  proof (cases i)
    case (Suc k)
    with 2 have "\<not> starts_with (c # s) p" "window_position s p = Some k"
      by (auto split: if_split_asm)
    with 2 Suc show ?thesis by (auto simp: less_Suc_eq_0_disj)
  qed (use 2 in \<open>auto split: if_split_asm\<close>)
qed simp

lemma window_position_None:
  "window_position s p = None \<Longrightarrow> p \<noteq> [] \<Longrightarrow> \<not> starts_with (drop j s) p"
proof (induction s p arbitrary: j rule: window_position.induct)
  case (1 p)
  then show ?case by (cases p) auto
next
  case (2 c s p)
  then show ?case by (cases j) (auto split: if_split_asm)
qed

definition first_match ::
  "byte list \<Rightarrow> nat \<Rightarrow> nat \<Rightarrow> redaction list \<Rightarrow> (nat \<times> nat \<times> byte list) option \<Rightarrow> bool" where
  "first_match source cursor start_before rs found \<longleftrightarrow>
     (case found of
        None \<Rightarrow> \<forall>i. cursor \<le> i \<longrightarrow> i < start_before \<longrightarrow> match_at rs (drop i source) = None
      | Some (start, n, replacement) \<Rightarrow>
          cursor \<le> start \<and> start < start_before \<and> match_at rs (drop start source) = Some (n, replacement)
          \<and> (\<forall>i. cursor \<le> i \<longrightarrow> i < start \<longrightarrow> match_at rs (drop i source) = None))"

lemma first_match_skip:
  assumes "first_match source cursor start_before rs found"
    and "\<And>i. cursor \<le> i \<Longrightarrow> i < start_before \<Longrightarrow> fst r \<noteq> [] \<Longrightarrow> \<not> starts_with (drop i source) (fst r)"
  shows "first_match source cursor start_before (rs @ [r]) found"
proof -
  have "match_at (rs @ [r]) (drop i source) = match_at rs (drop i source)"
    if "cursor \<le> i" "i < start_before" for i
    using assms(2) [OF that] by (auto simp: match_at_snoc improve_match_def)
  then show ?thesis using assms(1) by (auto simp: first_match_def split: option.splits)
qed

lemma first_match_select:
  assumes found: "first_match source cursor start_before rs found"
  shows "first_match source cursor start_before (rs @ [r])
           (select_redaction source cursor start_before found r)"
proof (cases r)
  case (Pair p replacement)
  let ?at = "\<lambda>i. match_at rs (drop i source)"
  show ?thesis
  proof (cases "p = [] \<or> length source - cursor < length p")
    case True
    have "\<not> starts_with (drop i source) p" if "p \<noteq> []" "cursor \<le> i" for i
      using True that starts_with_length [of "drop i source" p] by auto
    with True Pair found show ?thesis
      by (auto simp: select_redaction_def intro: first_match_skip)
  next
    case False
    show ?thesis
    proof (cases "window_position (drop cursor source) p")
      case None
      have "\<not> starts_with (drop i source) p" if "cursor \<le> i" for i
        using window_position_None [OF None, of "i - cursor"] False that by simp
      with None False Pair found show ?thesis
        by (auto simp: select_redaction_def intro: first_match_skip)
    next
      case (Some relative)
      let ?start = "cursor + relative"
      have hit: "starts_with (drop ?start source) p"
        and before: "\<And>i. cursor \<le> i \<Longrightarrow> i < ?start \<Longrightarrow> \<not> starts_with (drop i source) p"
        using window_position_Some [OF Some] False
        by (auto simp: add.commute, metis le_add_diff_inverse less_diff_conv2 add.commute nat_add_left_cancel_less)
      have new: "match_at (rs @ [r]) (drop ?start source)
            = improve_match (drop ?start source) (?at ?start) (p, replacement)"
        using Pair by (simp add: match_at_snoc)
      have old: "match_at (rs @ [r]) (drop i source) = ?at i" if "cursor \<le> i" "i < ?start" for i
        using before [OF that] Pair by (simp add: match_at_snoc improve_match_def)
      show ?thesis
      proof (cases "start_before \<le> ?start")
        case True
        with before have "\<not> starts_with (drop i source) p" if "cursor \<le> i" "i < start_before" for i
          using that by auto
        with True Some False Pair found show ?thesis
          by (auto simp: select_redaction_def Let_def intro: first_match_skip)
      next
        case inside: False
        show ?thesis
        proof (cases found)
          case None
          with found inside have "?at i = None" if "cursor \<le> i" "i \<le> ?start" for i
            using that by (auto simp: first_match_def)
          with None inside new old hit Pair Some False show ?thesis
            by (auto simp: select_redaction_def first_match_def improve_match_def Let_def)
        next
          case (Some sel)
          then obtain st n replacement' where sel: "found = Some (st, n, replacement')" by (cases sel) auto
          with found have st: "cursor \<le> st" "st < start_before" "?at st = Some (n, replacement')"
            "\<And>i. cursor \<le> i \<Longrightarrow> i < st \<Longrightarrow> ?at i = None"
            by (auto simp: first_match_def)
          consider "?start < st" | "?start = st" | "st < ?start" by linarith
          then show ?thesis
          proof cases
            case 1
            then show ?thesis
              using inside new old hit Pair \<open>window_position (drop cursor source) p = Some relative\<close> False sel st
              by (auto simp: select_redaction_def first_match_def improve_match_def Let_def)
          next
            case 2
            then show ?thesis
              using inside new old hit Pair \<open>window_position (drop cursor source) p = Some relative\<close> False sel st
              by (auto simp: select_redaction_def first_match_def improve_match_def Let_def)
          next
            case 3
            then show ?thesis
              using inside new old hit Pair \<open>window_position (drop cursor source) p = Some relative\<close> False sel st
              by (auto simp: select_redaction_def first_match_def improve_match_def Let_def)
          qed
        qed
      qed
    qed
  qed
qed

theorem next_redaction_first:
  "first_match source cursor start_before rs (next_redaction source cursor start_before rs)"
proof (induction rs rule: rev_induct)
  case Nil
  show ?case by (simp add: next_redaction_def first_match_def)
next
  case (snoc r rs)
  from first_match_select [OF this] show ?case by (simp add: next_redaction_def)
qed

lemma next_redaction_None:
  assumes "next_redaction source cursor start_before rs = None" and "cursor \<le> i" and "i < start_before"
  shows "match_at rs (drop i source) = None"
  using next_redaction_first [of source cursor start_before rs] assms by (simp add: first_match_def)

lemma next_redaction_Some:
  assumes "next_redaction source cursor start_before rs = Some (start, n, replacement)"
  shows "cursor \<le> start" "start < start_before" "match_at rs (drop start source) = Some (n, replacement)"
    "cursor \<le> i \<Longrightarrow> i < start \<Longrightarrow> match_at rs (drop i source) = None" "0 < n" "start + n \<le> length source"
proof -
  from next_redaction_first [of source cursor start_before rs] assms
  show "cursor \<le> start" "start < start_before" and m: "match_at rs (drop start source) = Some (n, replacement)"
    and "cursor \<le> i \<Longrightarrow> i < start \<Longrightarrow> match_at rs (drop i source) = None"
    by (auto simp: first_match_def)
  from match_at_Some [OF m] have "0 < n" "n \<le> length source - start" by auto
  then show "0 < n" "start + n \<le> length source" by linarith+
qed

lemma next_redaction_progress:
  "next_redaction source cursor start_before rs = Some (start, n, replacement) \<Longrightarrow>
     start_before - (start + n) < start_before - cursor"
  using next_redaction_Some(1,2,5) [of source cursor start_before rs start n replacement] by linarith

section \<open>Draining\<close>

text \<open>Literal bytes become a segment unless there are none.\<close>

definition literal_segment :: "byte list \<Rightarrow> redacted_output_segment list" where
  "literal_segment bytes =
     (if bytes \<noteq> []
      then [\<lparr>sg_bytes = bytes, sg_source_bytes = length bytes, sg_atomic_replacement = False\<rparr>] else [])"

text \<open>The loop of \<open>drain_redacted_output_bytes\<close>: the segments and the final cursor.\<close>

function drain_loop ::
  "byte list \<Rightarrow> nat \<Rightarrow> redaction list \<Rightarrow> nat \<Rightarrow> redacted_output_segment list \<times> nat" where
  "drain_loop source process_before redactions cursor =
     (if cursor < process_before then
        (case next_redaction source cursor process_before redactions of
           None \<Rightarrow> (literal_segment (Prelude.slice source cursor process_before), process_before)
         | Some (start, source_len, replacement) \<Rightarrow>
             (case drain_loop source process_before redactions (start + source_len) of
                (output, end_cursor) \<Rightarrow>
                  (literal_segment (Prelude.slice source cursor start)
                   @ \<lparr>sg_bytes = replacement, sg_source_bytes = source_len,
                      sg_atomic_replacement = True\<rparr> # output, end_cursor)))
      else ([], cursor))"
  by pat_completeness auto
termination
  by (relation "measure (\<lambda>(_, process_before, _, cursor). process_before - cursor)")
    (auto dest: next_redaction_progress)

declare drain_loop.simps [simp del]

definition redaction_overlap :: "redaction list \<Rightarrow> nat" where
  "redaction_overlap redactions = Max (set (map (\<lambda>r. length (fst r)) redactions)) - 1"

definition drain_redacted_output_bytes ::
  "byte list \<Rightarrow> redaction list \<Rightarrow> bool \<Rightarrow> redacted_output_segment list \<times> byte list" where
  "drain_redacted_output_bytes source_pending redactions end_of_stream =
     (if redactions = [] then
        (literal_segment source_pending, [])
      else
        let process_before =
              (if end_of_stream then length source_pending
               else length source_pending - redaction_overlap redactions);
            (output, cursor) = drain_loop source_pending process_before redactions 0 in
        (output, drop cursor source_pending))"

text \<open>\<open>StreamingProcessOutputRedactor::push\<close>, and a whole stream: the reads, then end of file.\<close>

definition redactor_push ::
  "redaction list \<Rightarrow> byte list \<Rightarrow> byte list \<Rightarrow> bool \<Rightarrow> redacted_output_segment list \<times> byte list" where
  "redactor_push redactions source_pending bytes end_of_stream =
     drain_redacted_output_bytes (source_pending @ bytes) redactions end_of_stream"

fun redact_stream :: "redaction list \<Rightarrow> byte list \<Rightarrow> byte list list \<Rightarrow> redacted_output_segment list" where
  "redact_stream redactions pending [] = fst (redactor_push redactions pending [] True)"
| "redact_stream redactions pending (read # reads) =
     (case redactor_push redactions pending read False of
        (segments, pending') \<Rightarrow> segments @ redact_stream redactions pending' reads)"

section \<open>The one-shot redaction\<close>

text \<open>What a consumer gets, byte by byte: a literal byte of the source or a whole replacement.\<close>

datatype output_atom = Literal byte | Replacement nat "byte list"

function redact_all :: "redaction list \<Rightarrow> byte list \<Rightarrow> output_atom list" where
  "redact_all rs s =
     (case s of
        [] \<Rightarrow> []
      | c # s' \<Rightarrow>
          (case match_at rs s of
             None \<Rightarrow> Literal c # redact_all rs s'
           | Some (n, replacement) \<Rightarrow> Replacement n replacement # redact_all rs (drop n s)))"
  by pat_completeness auto
termination
  by (relation "measure (\<lambda>(rs, s). length s)") (auto dest: match_at_Some)

declare redact_all.simps [simp del]

lemma redact_all_Nil [simp]: "redact_all rs [] = []"
  by (simp add: redact_all.simps)

lemma redact_all_Cons:
  "redact_all rs (c # s) =
     (case match_at rs (c # s) of
        None \<Rightarrow> Literal c # redact_all rs s
      | Some (n, replacement) \<Rightarrow> Replacement n replacement # redact_all rs (drop n (c # s)))"
  by (simp add: redact_all.simps [of rs "c # s"])

lemma redact_all_literals:
  "\<forall>i < n. match_at rs (drop i s) = None \<Longrightarrow> n \<le> length s \<Longrightarrow>
     redact_all rs s = map Literal (take n s) @ redact_all rs (drop n s)"
proof (induction n arbitrary: s)
  case (Suc n)
  then obtain c s' where s: "s = c # s'" by (cases s) auto
  have "match_at rs (drop i s') = None" if "i < n" for i
    using Suc.prems(1) [rule_format, of "Suc i"] that s by simp
  with Suc.IH [of s'] Suc.prems s
  have "redact_all rs s' = map Literal (take n s') @ redact_all rs (drop n s')" by simp
  moreover have "match_at rs s = None" using Suc.prems(1) [rule_format, of 0] by simp
  ultimately show ?case by (simp add: s redact_all_Cons)
qed simp

lemma redact_all_match:
  assumes "match_at rs s = Some (n, replacement)"
  shows "redact_all rs s = Replacement n replacement # redact_all rs (drop n s)"
  using match_at_Some [OF assms] assms by (cases s) (auto simp: redact_all_Cons)

definition segment_atoms :: "redacted_output_segment \<Rightarrow> output_atom list" where
  "segment_atoms seg =
     (if sg_atomic_replacement seg then [Replacement (sg_source_bytes seg) (sg_bytes seg)]
      else map Literal (sg_bytes seg))"

abbreviation stream_atoms :: "redacted_output_segment list \<Rightarrow> output_atom list" where
  "stream_atoms segs \<equiv> concat (map segment_atoms segs)"

lemma literal_segment_atoms [simp]: "stream_atoms (literal_segment bytes) = map Literal bytes"
  by (simp add: literal_segment_def segment_atoms_def)

section \<open>Streaming is one-shot redaction\<close>

text \<open>
  One drain emits the redaction of the bytes before its final cursor, whatever bytes follow later, as
  long as the buffer shows every pattern that starts before \<open>process_before\<close>.
\<close>

lemma drain_loop_redacts:
  assumes "process_before \<le> length source"
    and look: "\<And>i. i < process_before \<Longrightarrow> match_at rs (drop i source @ future) = match_at rs (drop i source)"
    and "cursor \<le> length source"
  shows "\<exists>output end_cursor. drain_loop source process_before rs cursor = (output, end_cursor)
    \<and> cursor \<le> end_cursor \<and> process_before \<le> end_cursor \<and> end_cursor \<le> length source
    \<and> redact_all rs (drop cursor source @ future)
        = stream_atoms output @ redact_all rs (drop end_cursor source @ future)"
  using assms(3)
proof (induction "process_before - cursor" arbitrary: cursor rule: less_induct)
  case less
  show ?case
  proof (cases "cursor < process_before")
    case False
    with less.prems show ?thesis by (simp add: drain_loop.simps [of source process_before rs cursor])
  next
    case True
    let ?rest = "drop cursor source @ future"
    have at: "match_at rs (drop i ?rest) = match_at rs (drop (cursor + i) source)"
      if "cursor + i < process_before" for i
      using look [OF that] that assms(1) by (simp add: add.commute)
    show ?thesis
    proof (cases "next_redaction source cursor process_before rs")
      case None
      have "match_at rs (drop i ?rest) = None" if "i < process_before - cursor" for i
        using next_redaction_None [OF None, of "cursor + i"] at [of i] that by simp
      with redact_all_literals [of "process_before - cursor" rs ?rest] assms(1) True
      have "redact_all rs ?rest = map Literal (Prelude.slice source cursor process_before)
              @ redact_all rs (drop process_before source @ future)"
        by (simp add: Prelude.slice_def)
      with None True assms(1) show ?thesis
        by (simp add: drain_loop.simps [of source process_before rs cursor])
    next
      case (Some found)
      then obtain start n replacement
        where hit: "next_redaction source cursor process_before rs = Some (start, n, replacement)"
        by (cases found) auto
      note found = next_redaction_Some [OF hit]
      have "match_at rs (drop i ?rest) = None" if "i < start - cursor" for i
        using found(2) found(4) [of "cursor + i"] at [of i] that by simp
      with redact_all_literals [of "start - cursor" rs ?rest] found(1,2) assms(1)
      have "redact_all rs ?rest = map Literal (Prelude.slice source cursor start)
              @ redact_all rs (drop start source @ future)"
        by (simp add: Prelude.slice_def)
      also have "match_at rs (drop start source @ future) = Some (n, replacement)"
        using look [OF found(2)] found(3) by simp
      note redact_all_match [OF this]
      also have "drop n (drop start source @ future) = drop (start + n) source @ future"
        using found(6) by (simp add: add.commute)
      finally have split: "redact_all rs ?rest = map Literal (Prelude.slice source cursor start)
          @ Replacement n replacement # redact_all rs (drop (start + n) source @ future)" .
      obtain segs end_cursor where
        "drain_loop source process_before rs (start + n) = (segs, end_cursor)"
        "start + n \<le> end_cursor" "process_before \<le> end_cursor" "end_cursor \<le> length source"
        "redact_all rs (drop (start + n) source @ future)
           = stream_atoms segs @ redact_all rs (drop end_cursor source @ future)"
        using less.hyps [OF next_redaction_progress [OF hit]] found(6) by auto
      with split hit True found(1) show ?thesis
        by (simp add: drain_loop.simps [of source process_before rs cursor] segment_atoms_def)
    qed
  qed
qed

lemma pattern_length_le_overlap:
  "r \<in> set rs \<Longrightarrow> length (fst r) \<le> Suc (redaction_overlap rs)"
proof -
  assume "r \<in> set rs"
  then have "length (fst r) \<le> Max (set (map (\<lambda>r. length (fst r)) rs))" by (intro Max_ge) auto
  then show ?thesis unfolding redaction_overlap_def by linarith
qed

lemma redact_all_no_redactions: "redact_all [] s = map Literal s"
  by (induction s) (simp_all add: redact_all_Cons)

lemma redactor_push_redacts:
  assumes "redactor_push rs pending bytes eos = (segs, pending')" and "eos \<longrightarrow> future = []"
  shows "redact_all rs (pending @ bytes @ future) = stream_atoms segs @ redact_all rs (pending' @ future)"
    and "eos \<Longrightarrow> pending' = []"
proof -
  define source where "source = pending @ bytes"
  define start_before where
    "start_before = (if eos then length source else length source - redaction_overlap rs)"
  have le: "start_before \<le> length source" by (simp add: start_before_def)
  have "redact_all rs (pending @ bytes @ future) = stream_atoms segs @ redact_all rs (pending' @ future)
      \<and> (eos \<longrightarrow> pending' = [])"
  proof (cases "rs = []")
    case True
    with assms(1) show ?thesis
      by (auto simp: redactor_push_def drain_redacted_output_bytes_def redact_all_no_redactions)
  next
    case False
    have "match_at rs (drop i source @ future) = match_at rs (drop i source)" if "i < start_before" for i
    proof (cases eos)
      case False
      have "length p \<le> length (drop i source)" if "(p, replacement) \<in> set rs" for p replacement
        using pattern_length_le_overlap [OF that] \<open>i < start_before\<close> False
        by (simp add: start_before_def)
      then show ?thesis by (intro match_at_append) auto
    qed (use assms(2) in simp)
    from drain_loop_redacts [of start_before source rs future 0, OF le this] obtain out c where
      "drain_loop source start_before rs 0 = (out, c)" "start_before \<le> c" "c \<le> length source"
      "redact_all rs (source @ future) = stream_atoms out @ redact_all rs (drop c source @ future)"
      by auto
    moreover have "drain_redacted_output_bytes source rs eos = (segs, pending')"
      using assms(1) by (simp add: redactor_push_def source_def)
    ultimately have "segs = out" "pending' = drop c source"
      using False by (auto simp: drain_redacted_output_bytes_def Let_def start_before_def)
    moreover have "eos \<Longrightarrow> c = length source"
      using \<open>start_before \<le> c\<close> \<open>c \<le> length source\<close> by (simp add: start_before_def)
    ultimately show ?thesis
      using \<open>redact_all rs (source @ future) = _\<close> by (simp add: source_def)
  qed
  then show "redact_all rs (pending @ bytes @ future) = stream_atoms segs @ redact_all rs (pending' @ future)"
    and "eos \<Longrightarrow> pending' = []" by auto
qed

interpretation redactor: chunked_stream "redactor_push rs" "redact_stream rs" stream_atoms "\<lambda>pending later. redact_all rs (pending @ later)"
  for rs
proof
  fix pending piece out pending' later
  show "stream_atoms out @ redact_all rs (pending' @ later) = redact_all rs (pending @ piece @ later)"
    if "redactor_push rs pending piece False = (out, pending')"
    using redactor_push_redacts(1) [OF that, of later] by simp
  show "stream_atoms out = redact_all rs (pending @ [])" if "redactor_push rs pending [] True = (out, pending')"
    using redactor_push_redacts [OF that, of "[]"] by simp
qed simp_all

lemmas redact_stream_redacts = redactor.view_stream

section \<open>What a redacted stream discloses\<close>

lemma redact_all_suffix:
  "redact_all rs s = a @ c \<Longrightarrow> \<exists>k. c = redact_all rs (drop k s)"
proof (induction a arbitrary: s)
  case Nil
  then show ?case by (intro exI [of _ 0]) simp
next
  case (Cons x a)
  then obtain d s' where s: "s = d # s'" by (cases s) auto
  show ?case
  proof (cases "match_at rs s")
    case None
    with Cons.prems s have "redact_all rs s' = a @ c" by (simp add: redact_all_Cons)
    from Cons.IH [OF this] obtain k where "c = redact_all rs (drop k s')" ..
    then show ?thesis using s by (intro exI [of _ "Suc k"]) simp
  next
    case (Some m)
    with Cons.prems have "redact_all rs (drop (fst m) s) = a @ c"
      by (cases m) (auto simp: redact_all_match)
    from Cons.IH [OF this] obtain k where "c = redact_all rs (drop k (drop (fst m) s))" ..
    then show ?thesis by auto
  qed
qed

lemma redact_all_literal_run:
  "redact_all rs s = map Literal xs @ c \<Longrightarrow>
     take (length xs) s = xs \<and> (\<forall>i < length xs. match_at rs (drop i s) = None)"
proof (induction xs arbitrary: s)
  case (Cons x xs)
  then obtain d s' where s: "s = d # s'" by (cases s) auto
  from Cons.prems have none: "match_at rs s = None"
    using redact_all_match [of rs s] by (cases "match_at rs s") auto
  with Cons.prems s have "d = x" "redact_all rs s' = map Literal xs @ c" by (simp_all add: redact_all_Cons)
  with Cons.IH [of s'] none s show ?case by (auto simp: less_Suc_eq_0_disj)
qed simp

lemma redact_all_hides:
  assumes "redact_all rs s = a @ map Literal xs @ c" and "(p, replacement) \<in> set rs" and "p \<noteq> []"
  shows "\<not> sublist p xs"
proof
  assume "sublist p xs"
  then obtain u v where xs: "xs = u @ p @ v" by (auto simp: sublist_def)
  from redact_all_suffix [OF assms(1)] obtain k where "redact_all rs (drop k s) = map Literal xs @ c" by metis
  from redact_all_literal_run [OF this] have
    eq: "take (length xs) (drop k s) = xs" and none: "match_at rs (drop (length u) (drop k s)) = None"
    using xs assms(3) by auto
  have "drop (length u) (take (length xs) (drop k s)) = p @ v" using eq xs by simp
  then have "prefix p (drop (length u) (drop k s))"
    by (metis drop_take prefixI prefix_order.trans take_is_prefix)
  with none assms(2,3) show False by (auto simp: match_at_None_iff starts_with_iff_prefix)
qed

definition atom_source :: "output_atom \<Rightarrow> nat" where
  "atom_source x = (case x of Literal _ \<Rightarrow> 1 | Replacement n _ \<Rightarrow> n)"

lemma redact_all_source: "sum_list (map atom_source (redact_all rs s)) = length s"
proof (induction rs s rule: redact_all.induct)
  case (1 rs s)
  show ?case
  proof (cases s)
    case (Cons d s')
    show ?thesis
    proof (cases "match_at rs s")
      case None
      with 1(1) [OF Cons None] Cons show ?thesis by (simp add: redact_all_Cons atom_source_def)
    next
      case (Some m)
      obtain n r where m: "m = (n, r)" by (cases m)
      with Some have "n \<le> length s" using match_at_Some [of rs s n r] by simp
      with 1(2) [OF Cons Some m [symmetric]] Some m show ?thesis by (simp add: redact_all_match atom_source_def)
    qed
  qed simp
qed

section \<open>Properties\<close>

text \<open>
  C18: however the operating system cuts the output into reads, the
  redactor passes on exactly the one-shot redaction of the whole output: at every position the longest
  private path that starts there is replaced, also one that is split between reads.
\<close>

theorem stream_redaction_is_one_shot:
  "stream_atoms (redact_stream redactions [] reads) = redact_all redactions (concat reads)"
  by (simp add: redact_stream_redacts)

text \<open>
  C31: no stretch of literal output, even one put together from several
  reads, contains a private path of the replacement set.
\<close>

theorem redacted_output_hides_paths:
  assumes "(path, replacement) \<in> set redactions" and "path \<noteq> []"
    and "stream_atoms (redact_stream redactions [] reads) = before @ map Literal literal @ after"
  shows "\<not> sublist path literal"
  using assms(3) redact_all_hides [OF _ assms(1,2)] by (simp add: redact_stream_redacts)

definition ascii_bytes :: "string \<Rightarrow> byte list" where
  "ascii_bytes s = map of_char s"

theorem redacted_output_hides_paths_witness:
  "\<not> sublist (ascii_bytes ''/pv'') (ascii_bytes ''x='')"
proof (rule redacted_output_hides_paths)
  show "(ascii_bytes ''/pv'', ascii_bytes ''.'') \<in> set [(ascii_bytes ''/pv'', ascii_bytes ''.'')]" by simp
  show "ascii_bytes ''/pv'' \<noteq> []" by (simp add: ascii_bytes_def)
  show "stream_atoms (redact_stream [(ascii_bytes ''/pv'', ascii_bytes ''.'')] []
          [ascii_bytes ''x=/p'', ascii_bytes ''v/f'']) =
        [] @ map Literal (ascii_bytes ''x='')
           @ Replacement 3 (ascii_bytes ''.'') # map Literal (ascii_bytes ''/f'')"
    by code_simp
qed

end
