(* ===== verification/Utf8_Stream.thy ===== *)
theory Utf8_Stream
  imports Output_Redaction
begin

text \<open>
  UTF-8 in process output: the part of \<open>std::str::from_utf8\<close> and \<open>String::from_utf8_lossy\<close> that
  \<open>src/crates/core/src/command/output_capture.rs\<close> uses, and its incremental decoder
  \<open>emit_complete_utf8_chunks\<close>, which puts characters together that a pipe read has split.
\<close>

section \<open>Scalar values\<close>

definition code_point :: "rchar \<Rightarrow> nat" where
  "code_point c = (case c of Ch d \<Rightarrow> of_char d | Wide n \<Rightarrow> n + 256)"

definition scalar :: "nat \<Rightarrow> rchar" where
  "scalar n = (if n < 256 then Ch (char_of n) else Wide (n - 256))"

definition replacement_char :: rchar where
  "replacement_char = scalar 0xFFFD"

text \<open>The values of Rust's \<open>char\<close>: code points below 0x110000 that are not surrogates.\<close>

definition is_scalar_value :: "rchar \<Rightarrow> bool" where
  "is_scalar_value c \<longleftrightarrow>
     code_point c < 0xD800 \<or> 0xE000 \<le> code_point c \<and> code_point c < 0x110000"

lemma scalar_code_point [simp]: "scalar (code_point c) = c"
  by (cases c) (auto simp: scalar_def code_point_def)

section \<open>Decoding one character\<close>

datatype utf8_step = Decoded rchar nat | Malformed nat | Incomplete

definition continuation :: "byte \<Rightarrow> bool" where
  "continuation b \<longleftrightarrow> 0x80 \<le> unat b \<and> unat b < 0xC0"

text \<open>The second byte of a three- or four-byte character, which rules out overlong forms and surrogates.\<close>

definition second_byte :: "nat \<Rightarrow> nat \<Rightarrow> bool" where
  "second_byte f s \<longleftrightarrow>
     (if f = 0xE0 then 0xA0 \<le> s \<and> s < 0xC0
      else if f = 0xED then 0x80 \<le> s \<and> s < 0xA0
      else if f = 0xF0 then 0x90 \<le> s \<and> s < 0xC0
      else if f = 0xF4 then 0x80 \<le> s \<and> s < 0x90
      else 0x80 \<le> s \<and> s < 0xC0)"

definition payload :: "byte \<Rightarrow> nat" where
  "payload b = unat b - 0x80"

definition decode_two :: "nat \<Rightarrow> byte list \<Rightarrow> utf8_step" where
  "decode_two f bs =
     (case bs of
        [] \<Rightarrow> Incomplete
      | b1 # _ \<Rightarrow> if continuation b1 then Decoded (scalar ((f - 0xC0) * 64 + payload b1)) 2 else Malformed 1)"

definition decode_three :: "nat \<Rightarrow> byte list \<Rightarrow> utf8_step" where
  "decode_three f bs =
     (case bs of
        [] \<Rightarrow> Incomplete
      | b1 # bs' \<Rightarrow>
          if \<not> second_byte f (unat b1) then Malformed 1
          else
            (case bs' of
               [] \<Rightarrow> Incomplete
             | b2 # _ \<Rightarrow>
                 if continuation b2
                 then Decoded (scalar ((f - 0xE0) * 4096 + payload b1 * 64 + payload b2)) 3
                 else Malformed 2))"

definition decode_four :: "nat \<Rightarrow> byte list \<Rightarrow> utf8_step" where
  "decode_four f bs =
     (case bs of
        [] \<Rightarrow> Incomplete
      | b1 # bs' \<Rightarrow>
          if \<not> second_byte f (unat b1) then Malformed 1
          else
            (case bs' of
               [] \<Rightarrow> Incomplete
             | b2 # bs'' \<Rightarrow>
                 if \<not> continuation b2 then Malformed 2
                 else
                   (case bs'' of
                      [] \<Rightarrow> Incomplete
                    | b3 # _ \<Rightarrow>
                        if continuation b3
                        then Decoded (scalar ((f - 0xF0) * 262144 + payload b1 * 4096
                                              + payload b2 * 64 + payload b3)) 4
                        else Malformed 3)))"

definition utf8_step :: "byte \<Rightarrow> byte list \<Rightarrow> utf8_step" where
  "utf8_step b bs =
     (let f = unat b in
      if f < 0x80 then Decoded (scalar f) 1
      else if 0xC2 \<le> f \<and> f \<le> 0xDF then decode_two f bs
      else if 0xE0 \<le> f \<and> f \<le> 0xEF then decode_three f bs
      else if 0xF0 \<le> f \<and> f \<le> 0xF4 then decode_four f bs
      else Malformed 1)"

lemmas utf8_step_defs = utf8_step_def decode_two_def decode_three_def decode_four_def

lemma utf8_step_size:
  "utf8_step b bs = Decoded c n \<Longrightarrow> 0 < n \<and> n \<le> Suc (length bs)"
  "utf8_step b bs = Malformed n \<Longrightarrow> 0 < n \<and> n \<le> Suc (length bs)"
  by (auto simp: utf8_step_defs Let_def split: if_split_asm list.split_asm)

text \<open>More input changes nothing but an incomplete character.\<close>

lemma utf8_step_append:
  "utf8_step b bs \<noteq> Incomplete \<Longrightarrow> utf8_step b (bs @ later) = utf8_step b bs"
  by (auto simp: utf8_step_defs Let_def split: list.splits if_splits)

section \<open>\<open>from_utf8\<close> and \<open>from_utf8_lossy\<close>\<close>

text \<open>\<open>Err\<close> carries \<open>valid_up_to\<close> and \<open>error_len\<close>.\<close>

function from_utf8 :: "byte list \<Rightarrow> nat \<times> nat option + rstring" where
  "from_utf8 [] = Inr []"
| "from_utf8 (b # bs) =
     (case utf8_step b bs of
        Decoded c n \<Rightarrow>
          (case from_utf8 (drop n (b # bs)) of
             Inr t \<Rightarrow> Inr (c # t)
           | Inl (valid_up_to, error_len) \<Rightarrow> Inl (n + valid_up_to, error_len))
      | Malformed n \<Rightarrow> Inl (0, Some n)
      | Incomplete \<Rightarrow> Inl (0, None))"
  by pat_completeness auto
termination
  by (relation "measure length") (auto dest: utf8_step_size)

declare from_utf8.simps(2) [simp del]

function from_utf8_lossy :: "byte list \<Rightarrow> rstring" where
  "from_utf8_lossy [] = []"
| "from_utf8_lossy (b # bs) =
     (case utf8_step b bs of
        Decoded c n \<Rightarrow> c # from_utf8_lossy (drop n (b # bs))
      | Malformed n \<Rightarrow> replacement_char # from_utf8_lossy (drop n (b # bs))
      | Incomplete \<Rightarrow> [replacement_char])"
  by pat_completeness auto
termination
  by (relation "measure length") (auto dest: utf8_step_size)

declare from_utf8_lossy.simps(2) [simp del]

lemma from_utf8_Inl:
  "from_utf8 bs = Inl (v, e) \<Longrightarrow>
     v < length bs \<and> (\<forall>k. e = Some k \<longrightarrow> 0 < k \<and> v + k \<le> length bs)"
proof (induction bs arbitrary: v rule: from_utf8.induct)
  case (2 b bs)
  show ?case
  proof (cases "utf8_step b bs")
    case (Decoded c n)
    with "2.prems" obtain w where "from_utf8 (drop n (b # bs)) = Inl (w, e)" "v = n + w"
      by (auto simp: from_utf8.simps(2) split: sum.split_asm)
    with "2.IH" [OF Decoded] utf8_step_size(1) [OF Decoded] show ?thesis by auto
  qed (use "2.prems" utf8_step_size(2) [of b bs] in \<open>auto simp: from_utf8.simps(2)\<close>)
qed simp

section \<open>The incremental decoder\<close>

text \<open>The texts passed to the observer and the bytes kept for the next call.\<close>

function emit_complete_utf8_chunks :: "byte list \<Rightarrow> bool \<Rightarrow> rstring list \<times> byte list" where
  "emit_complete_utf8_chunks pending flush =
     (case from_utf8 pending of
        Inr t \<Rightarrow> (if t \<noteq> [] then [t] else [], [])
      | Inl (valid_up_to, error_len) \<Rightarrow>
          if 0 < valid_up_to then
            (let t = from_utf8_lossy (take valid_up_to pending) in
             case emit_complete_utf8_chunks (drop valid_up_to pending) flush of
               (texts, rest) \<Rightarrow> (if t \<noteq> [] then t # texts else texts, rest))
          else
            (case error_len of
               Some invalid_bytes \<Rightarrow>
                 (case emit_complete_utf8_chunks (drop (min invalid_bytes (length pending)) pending) flush of
                    (texts, rest) \<Rightarrow> ([replacement_char] # texts, rest))
             | None \<Rightarrow> if flush then ([], []) else ([], pending)))"
  by pat_completeness auto
termination
proof (relation "measure (\<lambda>(pending, flush). length pending)", goal_cases)
  case (2 pending flush err v e)
  then show ?case using from_utf8_Inl [of pending v e] by auto
next
  case (3 pending flush err v e k)
  then show ?case using from_utf8_Inl [of pending v e] by auto
qed simp

declare emit_complete_utf8_chunks.simps [simp del]

text \<open>Decoding by characters: the text so far and the incomplete character at the end.\<close>

function decode :: "byte list \<Rightarrow> rstring \<times> byte list" where
  "decode [] = ([], [])"
| "decode (b # bs) =
     (case utf8_step b bs of
        Decoded c n \<Rightarrow> (case decode (drop n (b # bs)) of (t, rest) \<Rightarrow> (c # t, rest))
      | Malformed n \<Rightarrow> (case decode (drop n (b # bs)) of (t, rest) \<Rightarrow> (replacement_char # t, rest))
      | Incomplete \<Rightarrow> ([], b # bs))"
  by pat_completeness auto
termination
  by (relation "measure length") (auto dest: utf8_step_size)

declare decode.simps(2) [simp del]

lemma decode_append:
  "decode (a @ later) =
     (case decode a of (t, rest) \<Rightarrow> case decode (rest @ later) of (t', rest') \<Rightarrow> (t @ t', rest'))"
proof (induction a rule: decode.induct)
  case 1
  show ?case by simp
next
  case (2 b bs)
  show ?case
  proof (cases "utf8_step b bs")
    case (Decoded c n)
    then obtain k where n: "n = Suc k" "k \<le> length bs" and step: "utf8_step b (bs @ later) = Decoded c n"
      using utf8_step_append [of b bs later] utf8_step_size(1) [OF Decoded] by (cases n) auto
    then have "decode ((b # bs) @ later) =
        (case decode (drop n (b # bs) @ later) of (t, rest) \<Rightarrow> (c # t, rest))"
      by (simp add: decode.simps(2) [of b "bs @ later"])
    with "2.IH"(1) [OF Decoded] Decoded show ?thesis
      by (simp add: decode.simps(2) [of b bs] split: prod.split)
  next
    case (Malformed n)
    then obtain k where n: "n = Suc k" "k \<le> length bs" and step: "utf8_step b (bs @ later) = Malformed n"
      using utf8_step_append [of b bs later] utf8_step_size(2) [OF Malformed] by (cases n) auto
    then have "decode ((b # bs) @ later) =
        (case decode (drop n (b # bs) @ later) of (t, rest) \<Rightarrow> (replacement_char # t, rest))"
      by (simp add: decode.simps(2) [of b "bs @ later"])
    with "2.IH"(2) [OF Malformed] Malformed show ?thesis
      by (simp add: decode.simps(2) [of b bs] split: prod.split)
  next
    case Incomplete
    then show ?thesis by (simp add: decode.simps(2) [of b bs] split: prod.split)
  qed
qed

lemma decode_rest: "decode (snd (decode bs)) = ([], snd (decode bs))"
proof -
  obtain t r where tr: "decode bs = (t, r)" by fastforce
  obtain t' r' where r: "decode r = (t', r')" by fastforce
  from decode_append [of bs "[]"] tr r have "t = t @ t'" "r = r'" by simp_all
  with r tr show ?thesis by simp
qed

text \<open>The decision on a character reads no byte after it.\<close>

lemma utf8_step_take:
  "utf8_step b bs = Decoded c n \<Longrightarrow> n \<le> Suc m \<Longrightarrow> utf8_step b (take m bs) = Decoded c n"
proof -
  assume step: "utf8_step b bs = Decoded c n" and m: "n \<le> Suc m"
  have "utf8_step b (take m bs) \<noteq> Incomplete"
    using step m
    by (auto simp: utf8_step_defs Let_def take_Cons split: if_split_asm list.split_asm nat.split_asm)
  from utf8_step_append [OF this, of "drop m bs"] step show ?thesis by simp
qed

lemma from_utf8_Inr: "from_utf8 bs = Inr t \<Longrightarrow> from_utf8_lossy bs = t \<and> decode bs = (t, [])"
proof (induction bs arbitrary: t rule: from_utf8.induct)
  case (2 b bs)
  show ?case
  proof (cases "utf8_step b bs")
    case (Decoded c n)
    with "2.prems" obtain u where "from_utf8 (drop n (b # bs)) = Inr u" "t = c # u"
      by (auto simp: from_utf8.simps(2) split: sum.split_asm prod.split_asm)
    with "2.IH" [OF Decoded] Decoded show ?thesis
      by (simp add: decode.simps(2) from_utf8_lossy.simps(2))
  qed (use "2.prems" in \<open>simp_all add: from_utf8.simps(2)\<close>)
qed simp

lemma from_utf8_valid_part:
  "from_utf8 bs = Inl (v, e) \<Longrightarrow> (\<exists>t. from_utf8 (take v bs) = Inr t) \<and> from_utf8 (drop v bs) = Inl (0, e)"
proof (induction bs arbitrary: v rule: from_utf8.induct)
  case (2 b bs)
  show ?case
  proof (cases "utf8_step b bs")
    case (Decoded c n)
    with "2.prems" obtain w where w: "from_utf8 (drop n (b # bs)) = Inl (w, e)" "v = n + w"
      by (auto simp: from_utf8.simps(2) split: sum.split_asm)
    obtain k where n: "n = Suc k" using utf8_step_size(1) [OF Decoded] by (cases n) auto
    from "2.IH" [OF Decoded w(1)] obtain t where
      t: "from_utf8 (take w (drop k bs)) = Inr t" and rest: "from_utf8 (drop w (drop k bs)) = Inl (0, e)"
      by (auto simp: n)
    have "utf8_step b (take (k + w) bs) = Decoded c n" using utf8_step_take [OF Decoded] n by simp
    moreover have "drop k (take (k + w) bs) = take w (drop k bs)" by (simp add: drop_take)
    ultimately have "from_utf8 (take v (b # bs)) = Inr (c # t)"
      using t by (simp add: w n from_utf8.simps(2))
    moreover have "drop v (b # bs) = drop w (drop k bs)" by (simp add: w n add.commute)
    ultimately show ?thesis using rest by auto
  qed (use "2.prems" in \<open>auto simp: from_utf8.simps(2)\<close>)
qed simp

lemma from_utf8_Inl_decode:
  assumes "from_utf8 bs = Inl (v, e)"
  shows "decode bs = (case decode (drop v bs) of (t, rest) \<Rightarrow> (from_utf8_lossy (take v bs) @ t, rest))"
    and "e = Some k \<Longrightarrow> decode (drop v bs)
           = (case decode (drop (v + k) bs) of (t, rest) \<Rightarrow> (replacement_char # t, rest))"
    and "e = None \<Longrightarrow> decode (drop v bs) = ([], drop v bs)"
proof -
  from from_utf8_valid_part [OF assms] obtain t where
    t: "from_utf8 (take v bs) = Inr t" and rest: "from_utf8 (drop v bs) = Inl (0, e)" by auto
  from decode_append [of "take v bs" "drop v bs"] from_utf8_Inr [OF t]
  show "decode bs = (case decode (drop v bs) of (t, rest) \<Rightarrow> (from_utf8_lossy (take v bs) @ t, rest))"
    by simp
  obtain b cs where cs: "drop v bs = b # cs" using rest by (cases "drop v bs") auto
  have step: "utf8_step b cs = (case e of None \<Rightarrow> Incomplete | Some k \<Rightarrow> Malformed k)"
    using rest unfolding cs
    by (cases "utf8_step b cs") (auto simp: from_utf8.simps(2) dest: utf8_step_size split: sum.split_asm)
  show "e = Some k \<Longrightarrow> decode (drop v bs)
      = (case decode (drop (v + k) bs) of (t, rest) \<Rightarrow> (replacement_char # t, rest))"
  proof -
    assume "e = Some k"
    then have "decode (drop v bs) = (case decode (drop k (b # cs)) of (t, rest) \<Rightarrow> (replacement_char # t, rest))"
      using step cs by (simp add: decode.simps(2) [of b cs])
    also have "drop k (b # cs) = drop (v + k) bs" by (metis cs add.commute drop_drop)
    finally show ?thesis .
  qed
  show "e = None \<Longrightarrow> decode (drop v bs) = ([], drop v bs)"
    using step cs by (simp add: decode.simps(2) [of b cs])
qed

lemma emit_complete_utf8_chunks_decode:
  "emit_complete_utf8_chunks pending flush = (texts, rest) \<Longrightarrow>
     concat texts = fst (decode pending) \<and> rest = (if flush then [] else snd (decode pending))"
proof (induction pending flush arbitrary: texts rest rule: emit_complete_utf8_chunks.induct)
  case (1 pending flush)
  show ?case
  proof (cases "from_utf8 pending")
    case (Inr t)
    with "1.prems" from_utf8_Inr [OF Inr] show ?thesis
      by (auto simp: emit_complete_utf8_chunks.simps [of pending] split: if_split_asm)
  next
    case (Inl err)
    obtain v e where err: "err = (v, e)" by (cases err)
    note parts = from_utf8_Inl_decode [OF Inl [unfolded err]]
    show ?thesis
    proof (cases "0 < v")
      case True
      obtain ts r where rec: "emit_complete_utf8_chunks (drop v pending) flush = (ts, r)" by fastforce
      from "1.IH"(1) [OF Inl err [symmetric] True refl rec] parts(1) "1.prems" rec Inl err True
      show ?thesis
        by (auto simp: emit_complete_utf8_chunks.simps [of pending] Let_def split: if_split_asm prod.split)
    next
      case False
      then have v: "v = 0" by simp
      show ?thesis
      proof (cases e)
        case None
        with parts(3) "1.prems" Inl err v show ?thesis
          by (auto simp: emit_complete_utf8_chunks.simps [of pending] split: if_split_asm)
      next
        case (Some k)
        have k: "min k (length pending) = k" using from_utf8_Inl [OF Inl [unfolded err]] Some v by simp
        obtain ts r where rec: "emit_complete_utf8_chunks (drop k pending) flush = (ts, r)" by fastforce
        from "1.IH"(2) [OF Inl err [symmetric] False Some, unfolded k, OF rec] parts(2) [OF Some] "1.prems" rec Inl err v Some k
        show ?thesis
          by (auto simp: emit_complete_utf8_chunks.simps [of pending] split: prod.split)
      qed
    qed
  qed
qed

section \<open>Encoding\<close>

definition encode_utf8 :: "rchar \<Rightarrow> byte list" where
  "encode_utf8 c =
     (let n = code_point c in
      if n < 0x80 then [of_nat n]
      else if n < 0x800 then [of_nat (0xC0 + n div 64), of_nat (0x80 + n mod 64)]
      else if n < 0x10000 then
        [of_nat (0xE0 + n div 4096), of_nat (0x80 + n div 64 mod 64), of_nat (0x80 + n mod 64)]
      else
        [of_nat (0xF0 + n div 262144), of_nat (0x80 + n div 4096 mod 64),
         of_nat (0x80 + n div 64 mod 64), of_nat (0x80 + n mod 64)])"

definition utf8_bytes :: "rstring \<Rightarrow> byte list" where
  "utf8_bytes s = concat (map encode_utf8 s)"

lemma unat_byte: "n < 256 \<Longrightarrow> unat (of_nat n :: byte) = n"
  by (simp add: unat_of_nat)

lemma encoded_byte: "n < 64 \<Longrightarrow> unat (of_nat (128 + n) :: byte) = 128 + n"
  by (rule unat_byte) simp

lemma split_base_64:
  fixes n :: nat
  shows "n = 4096 * (n div 4096) + 64 * (n div 64 mod 64) + n mod 64"
    and "n = 262144 * (n div 262144) + 4096 * (n div 4096 mod 64) + 64 * (n div 64 mod 64) + n mod 64"
proof -
  have a: "n = 64 * (n div 64) + n mod 64" by simp
  have b: "n div 64 = 64 * (n div 4096) + n div 64 mod 64"
    using div_mult_mod_eq [of "n div 64" 64] by (simp add: div_mult2_eq [symmetric])
  have c: "n div 4096 = 64 * (n div 262144) + n div 4096 mod 64"
    using div_mult_mod_eq [of "n div 4096" 64] by (simp add: div_mult2_eq [symmetric])
  from a b show "n = 4096 * (n div 4096) + 64 * (n div 64 mod 64) + n mod 64" by linarith
  with c show "n = 262144 * (n div 262144) + 4096 * (n div 4096 mod 64) + 64 * (n div 64 mod 64) + n mod 64"
    by linarith
qed

lemma encode_utf8_steps:
  assumes "is_scalar_value c"
  shows "\<exists>b bs. encode_utf8 c = b # bs \<and> utf8_step b (bs @ later) = Decoded c (Suc (length bs))"
proof -
  define n where "n = code_point c"
  have c: "c = scalar n" by (simp add: n_def)
  have range: "n < 0xD800 \<or> 0xE000 \<le> n \<and> n < 0x110000" using assms by (simp add: is_scalar_value_def n_def)
  consider "n < 0x80" | "0x80 \<le> n" "n < 0x800" | "0x800 \<le> n" "n < 0x10000" | "0x10000 \<le> n" by linarith
  then show ?thesis
  proof cases
    case 1
    then show ?thesis
      unfolding encode_utf8_def n_def [symmetric] using unat_byte [of n] c
      by (simp add: Let_def utf8_step_def)
  next
    case 2
    define q r where "q = n div 64" and "r = n mod 64"
    have qr: "n = 64 * q + r" "r < 64" by (simp_all add: q_def r_def)
    with 2 have q: "2 \<le> q" "q < 32" by linarith+
    then have "unat (of_nat (192 + q) :: byte) = 192 + q" by (intro unat_byte) simp
    then show ?thesis
      unfolding encode_utf8_def n_def [symmetric] using 2 encoded_byte [OF qr(2)] q qr c
      by (simp add: Let_def utf8_step_def decode_two_def continuation_def payload_def mult.commute
          flip: q_def r_def del: of_nat_add)
  next
    case 3
    define p q r where "p = n div 4096" and "q = n div 64 mod 64" and "r = n mod 64"
    have qr: "n = 4096 * p + 64 * q + r" "q < 64" "r < 64"
      using split_base_64(1) [of n] by (simp_all add: p_def q_def r_def)
    with 3 have p: "p < 16" by linarith
    then have "unat (of_nat (224 + p) :: byte) = 224 + p" by (intro unat_byte) simp
    moreover have "second_byte (224 + p) (128 + q)"
      using 3 range qr by (auto simp: second_byte_def)
    ultimately have "utf8_step (of_nat (224 + p)) ([of_nat (128 + q), of_nat (128 + r)] @ later)
        = Decoded (scalar (p * 4096 + q * 64 + r)) 3"
      using encoded_byte [OF qr(2)] encoded_byte [OF qr(3)] p qr(2,3)
      by (simp add: Let_def utf8_step_def decode_three_def continuation_def payload_def del: of_nat_add)
    moreover have "encode_utf8 c = [of_nat (224 + p), of_nat (128 + q), of_nat (128 + r)]"
      using 3 by (simp add: encode_utf8_def Let_def p_def q_def r_def flip: n_def)
    moreover have "c = scalar (p * 4096 + q * 64 + r)" using c qr(1) by (simp add: mult.commute)
    ultimately show ?thesis by (simp del: of_nat_add)
  next
    case 4
    define m p q r where "m = n div 262144" and "p = n div 4096 mod 64" and "q = n div 64 mod 64" and "r = n mod 64"
    have qr: "n = 262144 * m + 4096 * p + 64 * q + r" "p < 64" "q < 64" "r < 64"
      using split_base_64(2) [of n] by (simp_all add: m_def p_def q_def r_def)
    with 4 range have m: "m < 5" by linarith
    then have "unat (of_nat (240 + m) :: byte) = 240 + m" by (intro unat_byte) simp
    moreover have "second_byte (240 + m) (128 + p)"
      using 4 range qr m by (auto simp: second_byte_def)
    ultimately have "utf8_step (of_nat (240 + m)) ([of_nat (128 + p), of_nat (128 + q), of_nat (128 + r)] @ later)
        = Decoded (scalar (m * 262144 + p * 4096 + q * 64 + r)) 4"
      using encoded_byte [OF qr(2)] encoded_byte [OF qr(3)] encoded_byte [OF qr(4)] m qr(2-4)
      by (simp add: Let_def utf8_step_def decode_four_def continuation_def payload_def del: of_nat_add)
    moreover have "encode_utf8 c = [of_nat (240 + m), of_nat (128 + p), of_nat (128 + q), of_nat (128 + r)]"
      using 4 by (simp add: encode_utf8_def Let_def m_def p_def q_def r_def flip: n_def)
    moreover have "c = scalar (m * 262144 + p * 4096 + q * 64 + r)" using c qr(1) by (simp add: mult.commute)
    ultimately show ?thesis by (simp del: of_nat_add)
  qed
qed

lemma decode_utf8_bytes: "list_all is_scalar_value s \<Longrightarrow> decode (utf8_bytes s @ later) =
    (case decode later of (t, rest) \<Rightarrow> (s @ t, rest))"
proof (induction s)
  case (Cons c s)
  then obtain b bs where "encode_utf8 c = b # bs"
    "utf8_step b (bs @ utf8_bytes s @ later) = Decoded c (Suc (length bs))"
    using encode_utf8_steps [of c "utf8_bytes s @ later"] by auto
  with Cons show ?case
    by (simp add: utf8_bytes_def decode.simps(2) [of b] split: prod.split)
qed (simp add: utf8_bytes_def)

section \<open>A whole stream\<close>

text \<open>The decoder of a reader thread: one call for each segment, and a last one that flushes.\<close>

fun emit_stream :: "byte list \<Rightarrow> byte list list \<Rightarrow> rstring list" where
  "emit_stream pending [] = fst (emit_complete_utf8_chunks pending True)"
| "emit_stream pending (bytes # segments) =
     (case emit_complete_utf8_chunks (pending @ bytes) False of
        (texts, pending') \<Rightarrow> texts @ emit_stream pending' segments)"

interpretation decoder: chunked_stream "\<lambda>pending bytes. emit_complete_utf8_chunks (pending @ bytes)" emit_stream concat
  "\<lambda>pending later. fst (decode (pending @ later))"
proof
  fix pending piece out pending' later
  show "concat out @ fst (decode (pending' @ later)) = fst (decode (pending @ piece @ later))"
    if "emit_complete_utf8_chunks (pending @ piece) False = (out, pending')"
    using that emit_complete_utf8_chunks_decode [OF that] decode_append [of "pending @ piece" later]
    by (simp add: case_prod_beta)
  show "concat out = fst (decode (pending @ []))" if "emit_complete_utf8_chunks (pending @ []) True = (out, pending')"
    using emit_complete_utf8_chunks_decode [OF that] by simp
qed simp_all

lemmas emit_stream_decode = decoder.view_stream

text \<open>Whatever the bytes are, the decoded characters are values of Rust's \<open>char\<close>.\<close>

lemma code_point_scalar [simp]: "code_point (scalar n) = n"
  by (simp add: scalar_def code_point_def)

lemma payload_bound: "continuation b \<Longrightarrow> payload b < 64"
  unfolding continuation_def payload_def by linarith

lemma three_bytes_scalar:
  assumes "0xE0 \<le> f" "f \<le> 0xEF" "second_byte f (unat b1)" "continuation b2"
  shows "is_scalar_value (scalar ((f - 0xE0) * 4096 + payload b1 * 64 + payload b2))"
proof (cases "f \<le> 0xEC")
  case True
  then have "f - 0xE0 \<le> 12" by simp
  moreover have "payload b1 < 64" using assms(3) by (auto simp: second_byte_def payload_def split: if_splits)
  ultimately have "(f - 0xE0) * 4096 + payload b1 * 64 + payload b2 < 0xD800"
    using payload_bound [OF assms(4)] by linarith
  then show ?thesis by (simp add: is_scalar_value_def)
next
  case False
  then consider "f = 0xED" | "f = 0xEE" | "f = 0xEF" using assms(2) by linarith
  then show ?thesis
    using assms(3) payload_bound [OF assms(4)]
    by cases (auto simp: second_byte_def payload_def [of b1] is_scalar_value_def)
qed

lemma four_bytes_scalar:
  assumes "0xF0 \<le> f" "f \<le> 0xF4" "second_byte f (unat b1)" "continuation b2" "continuation b3"
  shows "is_scalar_value (scalar ((f - 0xF0) * 262144 + payload b1 * 4096 + payload b2 * 64 + payload b3))"
proof -
  consider "f = 0xF0" | "f = 0xF1" | "f = 0xF2" | "f = 0xF3" | "f = 0xF4" using assms(1,2) by linarith
  then show ?thesis
    using assms(3) payload_bound [OF assms(4)] payload_bound [OF assms(5)]
    by cases (auto simp: second_byte_def payload_def [of b1] is_scalar_value_def)
qed

lemma two_bytes_scalar:
  assumes "f \<le> 0xDF" "continuation b1"
  shows "is_scalar_value (scalar ((f - 0xC0) * 64 + payload b1))"
proof -
  have "f - 0xC0 < 32" using assms(1) by simp
  with payload_bound [OF assms(2)] have "(f - 0xC0) * 64 + payload b1 < 0xD800" by linarith
  then show ?thesis by (simp add: is_scalar_value_def)
qed

lemma utf8_step_scalar: "utf8_step b bs = Decoded c n \<Longrightarrow> is_scalar_value c"
  by (auto simp: utf8_step_defs Let_def split: if_split_asm list.split_asm
      intro: two_bytes_scalar three_bytes_scalar four_bytes_scalar)
    (simp add: is_scalar_value_def)

lemma replacement_char_scalar: "is_scalar_value replacement_char"
  by (simp add: replacement_char_def is_scalar_value_def)

lemma decode_scalar: "list_all is_scalar_value (fst (decode bytes))"
proof (induction bytes rule: decode.induct)
  case (2 b bs)
  then show ?case
    by (auto simp: decode.simps(2) [of b bs] case_prod_beta replacement_char_scalar
        dest: utf8_step_scalar split: utf8_step.split)
qed simp

text \<open>
  Every text handed to the transcript consists of Unicode scalar values, as the type \<open>String\<close> requires.
\<close>

theorem decoded_text_is_unicode: "list_all is_scalar_value (concat (emit_stream pending segments))"
  by (simp add: emit_stream_decode decode_scalar)

lemma from_utf8_lossy_decode:
  "from_utf8_lossy bs = fst (decode bs) @ (if snd (decode bs) = [] then [] else [replacement_char])"
proof (induction bs rule: from_utf8_lossy.induct)
  case (2 b bs)
  show ?case
  proof (cases "utf8_step b bs")
    case (Decoded c n)
    with "2.IH"(1) [OF Decoded] show ?thesis
      by (simp add: from_utf8_lossy.simps(2) [of b bs] decode.simps(2) [of b bs] case_prod_beta)
  next
    case (Malformed n)
    with "2.IH"(2) [OF Malformed] show ?thesis
      by (simp add: from_utf8_lossy.simps(2) [of b bs] decode.simps(2) [of b bs] case_prod_beta)
  next
    case Incomplete
    then show ?thesis by (simp add: from_utf8_lossy.simps(2) [of b bs] decode.simps(2) [of b bs])
  qed
qed simp



end
