(* ===== verification/Output_Capture.thy ===== *)
theory Output_Capture
  imports Utf8_Stream Command_Transcript
begin

text \<open>
  Capture of process output, \<open>src/crates/core/src/command/output_capture.rs\<close>: a reader thread for each
  stream redacts what it reads, passes every byte to the session's transcript, keeps a bounded prefix
  in a spool file and a shorter one as preview. Both readers take the spooled bytes out of one shared
  budget. The spool is later written into an archive as a JSON string.

  Observers are represented by the list of texts they are called with. Counters are \<open>u64\<close> with the
  saturating additions of the source; \<open>usize\<close> is 64 bits wide.
\<close>

section \<open>Budget and retained bytes\<close>

record capture_policy =
  cp_preview_bytes :: nat
  cp_max_capture_bytes :: nat

definition MAX_OUTPUT_BYTES :: nat where
  "MAX_OUTPUT_BYTES = 128 * 1024"

definition EXACT_TEXT_CAPTURE_MAX_BYTES :: nat where
  "EXACT_TEXT_CAPTURE_MAX_BYTES = 64 * 1024 * 1024"

definition process_default :: capture_policy where
  "process_default =
     \<lparr>cp_preview_bytes = MAX_OUTPUT_BYTES, cp_max_capture_bytes = EXACT_TEXT_CAPTURE_MAX_BYTES\<rparr>"

text \<open>The compare-and-exchange loop of \<open>reserve\<close> as the atomic step it implements.\<close>

definition budget_reserve :: "nat \<Rightarrow> nat \<Rightarrow> nat \<times> nat" where
  "budget_reserve requested remaining =
     (let granted = min remaining requested in (granted, remaining - granted))"

definition retained_segment_bytes :: "redacted_output_segment \<Rightarrow> nat \<Rightarrow> byte list" where
  "retained_segment_bytes segment retained_source =
     (if retained_source = 0 then []
      else if sg_atomic_replacement segment then sg_bytes segment
      else take retained_source (sg_bytes segment))"

section \<open>One reader\<close>

record capture_state =
  ct_spool :: "byte list"
  ct_preview :: "byte list"
  ct_pending_live_utf8 :: "byte list"
  ct_pending_transcript_utf8 :: "byte list"
  ct_original_bytes :: nat
  ct_captured_bytes :: nat
  ct_preview_source_bytes :: nat
  ct_live_texts :: "rstring list"
  ct_transcript_texts :: "rstring list"

definition capture_start :: capture_state where
  "capture_start =
     \<lparr>ct_spool = [], ct_preview = [], ct_pending_live_utf8 = [], ct_pending_transcript_utf8 = [],
      ct_original_bytes = 0, ct_captured_bytes = 0, ct_preview_source_bytes = 0, ct_live_texts = [],
      ct_transcript_texts = []\<rparr>"

definition observe_transcript :: "bool \<Rightarrow> byte list \<Rightarrow> bool \<Rightarrow> capture_state \<Rightarrow> capture_state" where
  "observe_transcript observed bytes flush s =
     (if observed then
        (case emit_complete_utf8_chunks (ct_pending_transcript_utf8 s @ bytes) flush of
           (texts, pending) \<Rightarrow>
             s\<lparr>ct_pending_transcript_utf8 := pending, ct_transcript_texts := ct_transcript_texts s @ texts\<rparr>)
      else s)"

definition observe_live :: "bool \<Rightarrow> byte list \<Rightarrow> bool \<Rightarrow> capture_state \<Rightarrow> capture_state" where
  "observe_live observed bytes flush s =
     (if observed then
        (case emit_complete_utf8_chunks (ct_pending_live_utf8 s @ bytes) flush of
           (texts, pending) \<Rightarrow>
             s\<lparr>ct_pending_live_utf8 := pending, ct_live_texts := ct_live_texts s @ texts\<rparr>)
      else s)"

text \<open>
  The closure \<open>consume_segments\<close> for one segment. The flags say whether the preview observer and the
  transcript observer are present; the shared budget goes in and comes out.
\<close>

definition consume_segment ::
  "capture_policy \<Rightarrow> bool \<Rightarrow> bool \<Rightarrow> redacted_output_segment \<Rightarrow> nat \<times> capture_state \<Rightarrow> nat \<times> capture_state" where
  "consume_segment policy preview_observer transcript_observer segment st =
     (case st of
        (budget, s0) \<Rightarrow>
          let s = observe_transcript transcript_observer (sg_bytes segment) False s0;
              (retained, budget') = budget_reserve (sg_source_bytes segment) budget in
          if retained = 0 then (budget', s)
          else
            let s = s\<lparr>ct_spool := ct_spool s @ retained_segment_bytes segment retained,
                      ct_captured_bytes := saturating_add (ct_captured_bytes s) retained\<rparr>;
                preview_remaining = cp_preview_bytes policy - ct_preview_source_bytes s;
                preview_retained = min preview_remaining retained in
            if preview_retained = 0 then (budget', s)
            else
              let preview_bytes = retained_segment_bytes segment preview_retained;
                  s = s\<lparr>ct_preview_source_bytes := saturating_add (ct_preview_source_bytes s) preview_retained,
                        ct_preview := ct_preview s @ preview_bytes\<rparr> in
              (budget', observe_live preview_observer preview_bytes False s))"

definition consume_segments ::
  "capture_policy \<Rightarrow> bool \<Rightarrow> bool \<Rightarrow> redacted_output_segment list \<Rightarrow> nat \<times> capture_state \<Rightarrow> nat \<times> capture_state" where
  "consume_segments policy preview_observer transcript_observer segments st =
     fold (consume_segment policy preview_observer transcript_observer) segments st"

text \<open>The read loop, for the non-empty reads up to end of file, and the closing steps of the thread.\<close>

fun capture_reads ::
  "capture_policy \<Rightarrow> bool \<Rightarrow> bool \<Rightarrow> redaction list \<Rightarrow> byte list \<Rightarrow> byte list list
   \<Rightarrow> nat \<times> capture_state \<Rightarrow> nat \<times> capture_state" where
  "capture_reads policy live transcript redactions pending [] (budget, s) =
     (case consume_segments policy live transcript
             (fst (redactor_push redactions pending [] True)) (budget, s) of
        (budget', s') \<Rightarrow> (budget', observe_transcript transcript [] True (observe_live live [] True s')))"
| "capture_reads policy live transcript redactions pending (read # reads) (budget, s) =
     (case redactor_push redactions pending read False of
        (segments, pending') \<Rightarrow>
          capture_reads policy live transcript redactions pending' reads
            (consume_segments policy live transcript segments
               (budget, s\<lparr>ct_original_bytes := saturating_add (ct_original_bytes s) (length read)\<rparr>)))"

record captured_process_output =
  co_preview :: rstring
  co_original_bytes :: nat
  co_captured_bytes :: nat
  co_omitted_bytes :: nat
  co_preview_truncated :: bool
  co_spool :: "byte list"

definition utf8_boundary_safe_lossy_preview :: "byte list \<Rightarrow> rstring" where
  "utf8_boundary_safe_lossy_preview bytes =
     (case from_utf8 bytes of
        Inr t \<Rightarrow> t
      | Inl (valid_up_to, None) \<Rightarrow> from_utf8_lossy (take valid_up_to bytes)
      | Inl (_, Some _) \<Rightarrow> from_utf8_lossy bytes)"

definition capture_finish :: "capture_state \<Rightarrow> captured_process_output" where
  "capture_finish s =
     \<lparr>co_preview = utf8_boundary_safe_lossy_preview (ct_preview s),
      co_original_bytes = ct_original_bytes s,
      co_captured_bytes = ct_captured_bytes s,
      co_omitted_bytes = ct_original_bytes s - ct_captured_bytes s,
      co_preview_truncated = (ct_preview_source_bytes s < ct_original_bytes s),
      co_spool = ct_spool s\<rparr>"

definition truncated_at_source :: "captured_process_output \<Rightarrow> bool" where
  "truncated_at_source c = (0 < co_omitted_bytes c)"

definition stop_reason :: "captured_process_output \<Rightarrow> string option" where
  "stop_reason c = (if truncated_at_source c then Some ''exact_text_capture_safety_limit'' else None)"

section \<open>The receipt of both streams\<close>

record capture_metadata =
  md_original_bytes :: nat
  md_captured_bytes :: nat
  md_omitted_bytes :: nat
  md_truncated_at_source :: bool
  md_stop_reason :: "string option"
  md_stdout_original_bytes :: nat
  md_stdout_captured_bytes :: nat
  md_stdout_omitted_bytes :: nat
  md_stdout_preview_truncated :: bool
  md_stdout_stop_reason :: "string option"
  md_stderr_original_bytes :: nat
  md_stderr_captured_bytes :: nat
  md_stderr_omitted_bytes :: nat
  md_stderr_preview_truncated :: bool
  md_stderr_stop_reason :: "string option"

definition from_streams :: "captured_process_output \<Rightarrow> captured_process_output \<Rightarrow> capture_metadata" where
  "from_streams stdout stderr =
     (let omitted_bytes = saturating_add (co_omitted_bytes stdout) (co_omitted_bytes stderr);
          truncated = (0 < omitted_bytes) in
      \<lparr>md_original_bytes = saturating_add (co_original_bytes stdout) (co_original_bytes stderr),
       md_captured_bytes = saturating_add (co_captured_bytes stdout) (co_captured_bytes stderr),
       md_omitted_bytes = omitted_bytes,
       md_truncated_at_source = truncated,
       md_stop_reason = (if truncated then Some ''exact_text_capture_safety_limit'' else None),
       md_stdout_original_bytes = co_original_bytes stdout,
       md_stdout_captured_bytes = co_captured_bytes stdout,
       md_stdout_omitted_bytes = co_omitted_bytes stdout,
       md_stdout_preview_truncated = co_preview_truncated stdout,
       md_stdout_stop_reason = stop_reason stdout,
       md_stderr_original_bytes = co_original_bytes stderr,
       md_stderr_captured_bytes = co_captured_bytes stderr,
       md_stderr_omitted_bytes = co_omitted_bytes stderr,
       md_stderr_preview_truncated = co_preview_truncated stderr,
       md_stderr_stop_reason = stop_reason stderr\<rparr>)"

definition map_or :: "'b \<Rightarrow> ('a \<Rightarrow> 'b) \<Rightarrow> 'a option \<Rightarrow> 'b" where
  "map_or d f x = (case x of None \<Rightarrow> d | Some y \<Rightarrow> f y)"

definition from_optional_streams ::
  "captured_process_output option \<Rightarrow> captured_process_output option \<Rightarrow> bool \<Rightarrow> capture_metadata" where
  "from_optional_streams stdout stderr incomplete =
     (let metadata =
        (case (stdout, stderr) of
           (Some out, Some er) \<Rightarrow> from_streams out er
         | _ \<Rightarrow>
             \<lparr>md_original_bytes =
                saturating_add (map_or 0 co_original_bytes stdout) (map_or 0 co_original_bytes stderr),
              md_captured_bytes =
                saturating_add (map_or 0 co_captured_bytes stdout) (map_or 0 co_captured_bytes stderr),
              md_omitted_bytes =
                saturating_add (map_or 0 co_omitted_bytes stdout) (map_or 0 co_omitted_bytes stderr),
              md_truncated_at_source = False,
              md_stop_reason = None,
              md_stdout_original_bytes = map_or 0 co_original_bytes stdout,
              md_stdout_captured_bytes = map_or 0 co_captured_bytes stdout,
              md_stdout_omitted_bytes = map_or 0 co_omitted_bytes stdout,
              md_stdout_preview_truncated = is_none_or stdout co_preview_truncated,
              md_stdout_stop_reason = Option.bind stdout stop_reason,
              md_stderr_original_bytes = map_or 0 co_original_bytes stderr,
              md_stderr_captured_bytes = map_or 0 co_captured_bytes stderr,
              md_stderr_omitted_bytes = map_or 0 co_omitted_bytes stderr,
              md_stderr_preview_truncated = is_none_or stderr co_preview_truncated,
              md_stderr_stop_reason = Option.bind stderr stop_reason\<rparr>) in
      if incomplete
      then metadata\<lparr>md_truncated_at_source := True,
                    md_stop_reason := Some ''process_output_drain_incomplete''\<rparr>
      else metadata)"

section \<open>Both readers share the budget\<close>

text \<open>
  The two reader threads meet only in the budget: an execution is a sequence of segments, each
  consumed by one of the readers.
\<close>

fun consume_shared ::
  "capture_policy \<Rightarrow> bool \<Rightarrow> bool \<Rightarrow> agent_command_output_stream \<times> redacted_output_segment
   \<Rightarrow> nat \<times> capture_state \<times> capture_state \<Rightarrow> nat \<times> capture_state \<times> capture_state" where
  "consume_shared policy live transcript (Stdout, segment) (budget, out, err) =
     (case consume_segment policy live transcript segment (budget, out) of (budget', out') \<Rightarrow> (budget', out', err))"
| "consume_shared policy live transcript (Stderr, segment) (budget, out, err) =
     (case consume_segment policy live transcript segment (budget, err) of (budget', err') \<Rightarrow> (budget', out, err'))"

definition consume_interleaved ::
  "capture_policy \<Rightarrow> bool \<Rightarrow> bool \<Rightarrow> (agent_command_output_stream \<times> redacted_output_segment) list
   \<Rightarrow> nat \<times> capture_state \<times> capture_state" where
  "consume_interleaved policy live transcript events =
     fold (consume_shared policy live transcript) events
       (cp_max_capture_bytes policy, capture_start, capture_start)"

definition segments_of ::
  "agent_command_output_stream \<Rightarrow> (agent_command_output_stream \<times> redacted_output_segment) list
   \<Rightarrow> redacted_output_segment list" where
  "segments_of stream events = map snd (filter (\<lambda>e. fst e = stream) events)"

lemma segments_of_simps [simp]:
  "segments_of stream [] = []"
  "segments_of stream (events @ [(stream', seg)]) =
     (if stream' = stream then segments_of stream events @ [seg] else segments_of stream events)"
  by (simp_all add: segments_of_def)

lemma consume_interleaved_snoc:
  "consume_interleaved policy live transcript (events @ [e]) =
     consume_shared policy live transcript e (consume_interleaved policy live transcript events)"
  by (simp add: consume_interleaved_def)

text \<open>What one segment does to the spool, the counter and the budget.\<close>

lemma observe_transcript_fields [simp]:
  "ct_spool (observe_transcript b bs fl s) = ct_spool s"
  "ct_captured_bytes (observe_transcript b bs fl s) = ct_captured_bytes s"
  "ct_preview (observe_transcript b bs fl s) = ct_preview s"
  "ct_preview_source_bytes (observe_transcript b bs fl s) = ct_preview_source_bytes s"
  "ct_original_bytes (observe_transcript b bs fl s) = ct_original_bytes s"
  by (simp_all add: observe_transcript_def split: prod.split)

lemma observe_live_fields [simp]:
  "ct_spool (observe_live b bs fl s) = ct_spool s"
  "ct_captured_bytes (observe_live b bs fl s) = ct_captured_bytes s"
  "ct_preview (observe_live b bs fl s) = ct_preview s"
  "ct_preview_source_bytes (observe_live b bs fl s) = ct_preview_source_bytes s"
  "ct_original_bytes (observe_live b bs fl s) = ct_original_bytes s"
  "ct_pending_transcript_utf8 (observe_live b bs fl s) = ct_pending_transcript_utf8 s"
  "ct_transcript_texts (observe_live b bs fl s) = ct_transcript_texts s"
  by (simp_all add: observe_live_def split: prod.split)

lemma saturating_add_0 [simp]: "n \<le> u64_max \<Longrightarrow> saturating_add n 0 = n"
  by (simp add: saturating_add_def)

lemma consume_segment_effect:
  assumes "consume_segment policy live transcript segment (budget, s) = (budget', s')"
    and "ct_captured_bytes s \<le> u64_max"
  defines "granted \<equiv> min budget (sg_source_bytes segment)"
  shows "budget' = budget - granted" "ct_captured_bytes s' = saturating_add (ct_captured_bytes s) granted"
    "ct_spool s' = ct_spool s @ retained_segment_bytes segment granted"
    "ct_original_bytes s' = ct_original_bytes s"
  using assms(1,2) unfolding granted_def
  by (auto simp: consume_segment_def budget_reserve_def retained_segment_bytes_def Let_def split: if_split_asm)

definition well_formed_segment :: "redacted_output_segment \<Rightarrow> bool" where
  "well_formed_segment segment \<longleftrightarrow>
     (if sg_atomic_replacement segment then 0 < sg_source_bytes segment
      else sg_source_bytes segment = length (sg_bytes segment))"

definition atom_bytes :: "output_atom list \<Rightarrow> byte list" where
  "atom_bytes xs = concat (map (\<lambda>x. case x of Literal b \<Rightarrow> [b] | Replacement _ r \<Rightarrow> r) xs)"

lemma atom_bytes_simps [simp]:
  "atom_bytes [] = []" "atom_bytes (xs @ ys) = atom_bytes xs @ atom_bytes ys"
  "atom_bytes (map Literal bs) = bs"
  by (simp_all add: atom_bytes_def comp_def)

lemma segment_atom_bytes: "atom_bytes (segment_atoms segment) = sg_bytes segment"
  by (simp add: segment_atoms_def) (simp add: atom_bytes_def)

text \<open>A retained segment is a prefix of its atoms: never a part of a replacement.\<close>

lemma retained_segment_prefix:
  assumes "well_formed_segment segment"
  shows "\<exists>k. retained_segment_bytes segment n = atom_bytes (take k (segment_atoms segment))"
    and "sg_source_bytes segment \<le> n \<Longrightarrow> retained_segment_bytes segment n = sg_bytes segment"
proof -
  show "\<exists>k. retained_segment_bytes segment n = atom_bytes (take k (segment_atoms segment))"
  proof (cases "n = 0")
    case True
    then show ?thesis by (intro exI [of _ 0]) (simp add: retained_segment_bytes_def)
  next
    case False
    then show ?thesis
      by (intro exI [of _ n])
        (cases n, auto simp: retained_segment_bytes_def segment_atoms_def take_map atom_bytes_def comp_def)
  qed
  show "sg_source_bytes segment \<le> n \<Longrightarrow> retained_segment_bytes segment n = sg_bytes segment"
    using assms by (auto simp: retained_segment_bytes_def well_formed_segment_def split: if_split_asm)
qed

text \<open>A spool holds all of its segments, or a prefix of their atoms once the budget was too small.\<close>

definition spooled :: "bool \<Rightarrow> redacted_output_segment list \<Rightarrow> byte list \<Rightarrow> bool" where
  "spooled short segs spool \<longleftrightarrow>
     spool = atom_bytes (stream_atoms segs)
     \<or> short \<and> (\<exists>k. spool = atom_bytes (take k (stream_atoms segs)))"

lemma spooled_cut: "spooled True segs spool \<Longrightarrow> spooled True (segs @ [segment]) spool"
proof -
  assume "spooled True segs spool"
  then obtain k where "spool = atom_bytes (take k (stream_atoms segs))"
    unfolding spooled_def by (metis take_all order_refl)
  moreover have "take k (stream_atoms segs)
      = take (min k (length (stream_atoms segs))) (stream_atoms (segs @ [segment]))"
    by (cases "k \<le> length (stream_atoms segs)") simp_all
  ultimately show ?thesis unfolding spooled_def by metis
qed

lemma spooled_snoc:
  assumes "spooled short segs spool" and "well_formed_segment segment" and "short \<Longrightarrow> budget = 0"
  defines "granted \<equiv> min budget (sg_source_bytes segment)"
  shows "spooled (short \<or> budget < sg_source_bytes segment) (segs @ [segment])
           (spool @ retained_segment_bytes segment granted)"
proof (cases short)
  case True
  with assms(1,3) show ?thesis by (simp add: granted_def retained_segment_bytes_def spooled_cut)
next
  case False
  with assms(1) have spool: "spool = atom_bytes (stream_atoms segs)" by (simp add: spooled_def)
  show ?thesis
  proof (cases "sg_source_bytes segment \<le> budget")
    case True
    with retained_segment_prefix(2) [OF assms(2), of granted] spool show ?thesis
      by (simp add: spooled_def segment_atom_bytes granted_def)
  next
    case False
    obtain j where "retained_segment_bytes segment granted = atom_bytes (take j (segment_atoms segment))"
      using retained_segment_prefix(1) [OF assms(2)] by blast
    with spool have "spool @ retained_segment_bytes segment granted
        = atom_bytes (take (length (stream_atoms segs) + j) (stream_atoms (segs @ [segment])))" by simp
    with False show ?thesis unfolding spooled_def by (metis not_le)
  qed
qed

abbreviation source_total :: "(agent_command_output_stream \<times> redacted_output_segment) list \<Rightarrow> nat" where
  "source_total events \<equiv> sum_list (map (\<lambda>e. sg_source_bytes (snd e)) events)"

lemma consume_interleaved_inv:
  assumes "cp_max_capture_bytes policy \<le> u64_max" and "list_all (\<lambda>e. well_formed_segment (snd e)) events"
  shows "\<exists>budget out err. consume_interleaved policy live transcript events = (budget, out, err)
    \<and> ct_captured_bytes out + ct_captured_bytes err = min (source_total events) (cp_max_capture_bytes policy)
    \<and> budget = cp_max_capture_bytes policy - source_total events
    \<and> spooled (cp_max_capture_bytes policy < source_total events) (segments_of Stdout events) (ct_spool out)
    \<and> spooled (cp_max_capture_bytes policy < source_total events) (segments_of Stderr events) (ct_spool err)"
  using assms(2)
proof (induction events rule: rev_induct)
  case Nil
  show ?case by (simp add: consume_interleaved_def capture_start_def spooled_def)
next
  case (snoc e events)
  let ?max = "cp_max_capture_bytes policy" and ?total = "source_total events"
  from snoc obtain budget out err where
    before: "consume_interleaved policy live transcript events = (budget, out, err)"
    and captured: "ct_captured_bytes out + ct_captured_bytes err = min ?total ?max"
    and budget: "budget = ?max - ?total"
    and spools: "spooled (?max < ?total) (segments_of Stdout events) (ct_spool out)"
      "spooled (?max < ?total) (segments_of Stderr events) (ct_spool err)"
    by auto
  obtain stream seg where e: "e = (stream, seg)" by (cases e)
  from snoc.prems e have wf: "well_formed_segment seg" by simp
  let ?granted = "min budget (sg_source_bytes seg)"
  have bound: "ct_captured_bytes out + ct_captured_bytes err + ?granted \<le> u64_max"
    using captured budget assms(1) by linarith
  have step: "ct_captured_bytes out + ct_captured_bytes err + ?granted
      = min (?total + sg_source_bytes seg) ?max" "budget - ?granted = ?max - (?total + sg_source_bytes seg)"
    using captured budget by linarith+
  have empty: "?max < ?total \<Longrightarrow> budget = 0" using budget by simp
  have over: "(?max < ?total \<or> budget < sg_source_bytes seg) = (?max < ?total + sg_source_bytes seg)"
    using budget by linarith
  have other: "spooled (?max < ?total + sg_source_bytes seg) segs spool"
    if "spooled (?max < ?total) segs spool" for segs spool
    using that by (auto simp: spooled_def)
  have own: "spooled (?max < ?total + sg_source_bytes seg) (segs @ [seg]) (spool @ retained_segment_bytes seg ?granted)"
    if "spooled (?max < ?total) segs spool" for segs spool
    using spooled_snoc [OF that wf empty] by (simp only: over)
  show ?case
  proof (cases stream)
    case Stdout
    obtain budget' out' where eff: "consume_segment policy live transcript seg (budget, out) = (budget', out')"
      by fastforce
    note effect = consume_segment_effect [OF eff]
    have "ct_captured_bytes out \<le> u64_max" using bound by simp
    note effect = effect [OF this]
    show ?thesis
      using before eff e Stdout effect step bound own [OF spools(1)] other [OF spools(2)]
      by (auto simp: consume_interleaved_snoc saturating_add_def)
  next
    case Stderr
    obtain budget' err' where eff: "consume_segment policy live transcript seg (budget, err) = (budget', err')"
      by fastforce
    note effect = consume_segment_effect [OF eff]
    have "ct_captured_bytes err \<le> u64_max" using bound by simp
    note effect = effect [OF this]
    show ?thesis
      using before eff e Stderr effect step bound own [OF spools(2)] other [OF spools(1)]
      by (auto simp: consume_interleaved_snoc saturating_add_def)
  qed
qed

text \<open>The redactor makes well-formed segments only.\<close>

lemma literal_segment_wf: "list_all well_formed_segment (literal_segment bytes)"
  by (simp add: literal_segment_def well_formed_segment_def)

lemma drain_loop_wf: "list_all well_formed_segment (fst (drain_loop source process_before rs cursor))"
proof (induction source process_before rs cursor rule: drain_loop.induct)
  case (1 source process_before rs cursor)
  show ?case
  proof (cases "cursor < process_before")
    case True
    show ?thesis
    proof (cases "next_redaction source cursor process_before rs")
      case None
      with True show ?thesis
        by (simp add: drain_loop.simps [of source process_before rs cursor] literal_segment_wf)
    next
      case (Some found)
      then obtain start n r where hit: "next_redaction source cursor process_before rs = Some (start, n, r)"
        by (cases found) auto
      have "well_formed_segment \<lparr>sg_bytes = r, sg_source_bytes = n, sg_atomic_replacement = True\<rparr>"
        using next_redaction_Some(5) [OF hit] by (simp add: well_formed_segment_def)
      with 1 [OF True hit refl refl] True hit show ?thesis
        by (simp add: drain_loop.simps [of source process_before rs cursor] literal_segment_wf case_prod_beta)
    qed
  qed (simp add: drain_loop.simps [of source process_before rs cursor])
qed

lemma redactor_push_wf: "list_all well_formed_segment (fst (redactor_push rs pending bytes eos))"
  using drain_loop_wf
  by (simp add: redactor_push_def drain_redacted_output_bytes_def literal_segment_wf Let_def case_prod_beta)

lemma redact_stream_wf: "list_all well_formed_segment (redact_stream rs pending reads)"
proof (induction reads arbitrary: pending)
  case (Cons read reads)
  then show ?case using redactor_push_wf [of rs pending read False] by (simp add: case_prod_beta)
qed (simp add: redactor_push_wf)

lemma events_wf:
  assumes "list_all well_formed_segment (segments_of Stdout events)"
    and "list_all well_formed_segment (segments_of Stderr events)"
  shows "list_all (\<lambda>e. well_formed_segment (snd e)) events"
proof -
  have "well_formed_segment (snd e)" if "e \<in> set events" for e
  proof (cases "fst e")
    case Stdout
    then have "snd e \<in> set (segments_of Stdout events)" using that by (auto simp: segments_of_def)
    with assms(1) show ?thesis by (auto simp: list_all_iff)
  next
    case Stderr
    then have "snd e \<in> set (segments_of Stderr events)" using that by (auto simp: segments_of_def)
    with assms(2) show ?thesis by (auto simp: list_all_iff)
  qed
  then show ?thesis by (simp add: list_all_iff)
qed

lemma source_total_segments:
  "source_total events = sum_list (map sg_source_bytes (segments_of Stdout events))
     + sum_list (map sg_source_bytes (segments_of Stderr events))"
proof (induction events)
  case (Cons e events)
  then show ?case by (cases "fst e") (simp_all add: segments_of_def)
qed simp

lemma segment_source:
  "well_formed_segment segment \<Longrightarrow> sum_list (map atom_source (segment_atoms segment)) = sg_source_bytes segment"
  by (simp add: segment_atoms_def well_formed_segment_def atom_source_def comp_def sum_list_triv split: if_split_asm)

lemma stream_source:
  "list_all well_formed_segment segs \<Longrightarrow>
     sum_list (map atom_source (stream_atoms segs)) = sum_list (map sg_source_bytes segs)"
  by (induction segs) (simp_all add: segment_source)

lemma redact_stream_source: "sum_list (map sg_source_bytes (redact_stream rs [] reads)) = length (concat reads)"
  using stream_source [OF redact_stream_wf, of rs "[]" reads] redact_all_source [of rs "concat reads"]
  by (simp add: redact_stream_redacts)

section \<open>Every byte reaches the transcript\<close>

definition transcript_view :: "capture_state \<Rightarrow> byte list \<Rightarrow> bool" where
  "transcript_view s bytes \<longleftrightarrow>
     decode bytes = (concat (ct_transcript_texts s), ct_pending_transcript_utf8 s)"

lemma observe_transcript_view:
  assumes "transcript_view s seen"
  shows "transcript_view (observe_transcript True bytes False s) (seen @ bytes)"
proof -
  obtain texts rest where
    e: "emit_complete_utf8_chunks (ct_pending_transcript_utf8 s @ bytes) False = (texts, rest)" by fastforce
  from emit_complete_utf8_chunks_decode [OF e] assms decode_append [of seen bytes] e show ?thesis
    by (cases "decode (ct_pending_transcript_utf8 s @ bytes)")
      (simp add: transcript_view_def observe_transcript_def)
qed

lemma consume_segment_view:
  assumes "consume_segment policy live True segment (b, s) = (b', s')" and "transcript_view s seen"
  shows "transcript_view s' (seen @ sg_bytes segment)"
proof -
  have "transcript_view s' bytes = transcript_view (observe_transcript True (sg_bytes segment) False s) bytes" for bytes
    using assms(1)
    by (auto simp: consume_segment_def transcript_view_def Let_def split: if_split_asm prod.split_asm)
  with observe_transcript_view [OF assms(2)] show ?thesis by simp
qed

lemma consume_segments_view:
  "transcript_view s seen \<Longrightarrow> consume_segments policy live True segs (b, s) = (b', s') \<Longrightarrow>
     transcript_view s' (seen @ concat (map sg_bytes segs))"
proof (induction segs arbitrary: b s seen)
  case (Cons seg segs)
  obtain c t where step: "consume_segment policy live True seg (b, s) = (c, t)" by fastforce
  with Cons.prems(2) have "consume_segments policy live True segs (c, t) = (b', s')"
    by (simp add: consume_segments_def)
  from Cons.IH [OF consume_segment_view [OF step Cons.prems(1)] this] show ?case by simp
qed (simp add: consume_segments_def)

lemma capture_reads_view:
  "transcript_view s seen \<Longrightarrow>
     capture_reads policy live True rs pending reads (b, s) = (b', s') \<Longrightarrow>
     concat (ct_transcript_texts s') = fst (decode (seen @ concat (map sg_bytes (redact_stream rs pending reads))))"
proof (induction reads arbitrary: pending b s seen)
  case Nil
  let ?segs = "fst (redactor_push rs pending [] True)"
  obtain c t where step: "consume_segments policy live True ?segs (b, s) = (c, t)" by fastforce
  with Nil.prems(2) have s': "s' = observe_transcript True [] True (observe_live live [] True t)" by simp
  have view: "transcript_view t (seen @ concat (map sg_bytes ?segs))"
    by (rule consume_segments_view [OF Nil.prems(1) step])
  obtain texts rest where
    e: "emit_complete_utf8_chunks (ct_pending_transcript_utf8 t) True = (texts, rest)" by fastforce
  have "snd (decode (ct_pending_transcript_utf8 t)) = ct_pending_transcript_utf8 t
      \<and> fst (decode (ct_pending_transcript_utf8 t)) = []"
    using view decode_rest [of "seen @ concat (map sg_bytes ?segs)"] by (simp add: transcript_view_def)
  with emit_complete_utf8_chunks_decode [OF e] e view show ?case
    by (simp add: s' observe_transcript_def transcript_view_def)
next
  case (Cons read reads)
  obtain segs pending' where push: "redactor_push rs pending read False = (segs, pending')" by fastforce
  let ?s = "s\<lparr>ct_original_bytes := saturating_add (ct_original_bytes s) (length read)\<rparr>"
  obtain c t where step: "consume_segments policy live True segs (b, ?s) = (c, t)" by fastforce
  have "transcript_view ?s seen" using Cons.prems(1) by (simp add: transcript_view_def)
  from consume_segments_view [OF this step]
  have "transcript_view t (seen @ concat (map sg_bytes segs))" .
  moreover have "capture_reads policy live True rs pending' reads (c, t) = (b', s')"
    using Cons.prems(2) push step by simp
  ultimately show ?case using Cons.IH push by fastforce
qed

lemma stream_bytes: "concat (map sg_bytes segs) = atom_bytes (stream_atoms segs)"
  by (induction segs) (simp_all add: segment_atom_bytes)

section \<open>Properties\<close>

text \<open>
  However the two readers interleave, together they keep exactly as many
  source bytes as fit the shared budget, and each spool holds a prefix of the redacted output that is
  cut between bytes and never inside a replacement; it is the whole output when everything fits.
\<close>

theorem shared_capture_budget:
  assumes "cp_max_capture_bytes policy \<le> u64_max"
    and "segments_of Stdout events = redact_stream redactions [] out_reads"
    and "segments_of Stderr events = redact_stream redactions [] err_reads"
    and "consume_interleaved policy live transcript events = (budget, out, err)"
  shows "ct_captured_bytes out + ct_captured_bytes err
      = min (length (concat out_reads) + length (concat err_reads)) (cp_max_capture_bytes policy)
    \<and> (\<exists>k. ct_spool out = atom_bytes (take k (redact_all redactions (concat out_reads))))
    \<and> (\<exists>k. ct_spool err = atom_bytes (take k (redact_all redactions (concat err_reads))))
    \<and> (length (concat out_reads) + length (concat err_reads) \<le> cp_max_capture_bytes policy \<longrightarrow>
        ct_spool out = atom_bytes (redact_all redactions (concat out_reads))
        \<and> ct_spool err = atom_bytes (redact_all redactions (concat err_reads)))"
proof -
  have wf: "list_all (\<lambda>e. well_formed_segment (snd e)) events"
    using assms(2,3) redact_stream_wf by (intro events_wf) simp_all
  have total: "source_total events = length (concat out_reads) + length (concat err_reads)"
    using redact_stream_source by (simp add: source_total_segments assms(2,3))
  note inv = consume_interleaved_inv [OF assms(1) wf, of live transcript, unfolded assms(4) total]
  let ?over = "cp_max_capture_bytes policy < length (concat out_reads) + length (concat err_reads)"
  have spools: "spooled ?over (redact_stream redactions [] out_reads) (ct_spool out)"
    "spooled ?over (redact_stream redactions [] err_reads) (ct_spool err)"
    using inv unfolding assms(2,3) by auto
  have "\<exists>k. spool = atom_bytes (take k (redact_all redactions (concat reads)))"
    "\<not> ?over \<Longrightarrow> spool = atom_bytes (redact_all redactions (concat reads))"
    if "spooled ?over (redact_stream redactions [] reads) spool" for spool reads
    using that unfolding spooled_def redact_stream_redacts append_Nil by (metis take_all order_refl)+
  from this [OF spools(1)] this [OF spools(2)] inv show ?thesis by auto
qed

definition example_events :: "(agent_command_output_stream \<times> redacted_output_segment) list" where
  "example_events =
     map (Pair Stdout) (redact_stream [(ascii_bytes ''/pv'', ascii_bytes ''.'')] [] [ascii_bytes ''ab/p'', ascii_bytes ''v''])
     @ map (Pair Stderr) (redact_stream [(ascii_bytes ''/pv'', ascii_bytes ''.'')] [] [ascii_bytes ''xyz''])"

theorem shared_capture_budget_witness:
  "(case consume_interleaved \<lparr>cp_preview_bytes = 4, cp_max_capture_bytes = 6\<rparr> True True example_events of
      (budget, out, err) \<Rightarrow> ct_captured_bytes out + ct_captured_bytes err = 6)"
proof -
  let ?policy = "\<lparr>cp_preview_bytes = 4, cp_max_capture_bytes = 6\<rparr>"
  obtain budget out err where run: "consume_interleaved ?policy True True example_events = (budget, out, err)"
    by (rule prod_cases3)
  have "segments_of Stdout example_events
      = redact_stream [(ascii_bytes ''/pv'', ascii_bytes ''.'')] [] [ascii_bytes ''ab/p'', ascii_bytes ''v'']"
    "segments_of Stderr example_events
      = redact_stream [(ascii_bytes ''/pv'', ascii_bytes ''.'')] [] [ascii_bytes ''xyz'']"
    by (simp_all only: example_events_def segments_of_def) (simp_all add: comp_def)
  from shared_capture_budget [OF _ this run]
  have "ct_captured_bytes out + ct_captured_bytes err = min (5 + 3) 6"
    by (simp add: u64_max_def ascii_bytes_def)
  with run show ?thesis by simp
qed

text \<open>
  The transcript gets the decoded, redacted text of the whole output,
  also after the capture budget is exhausted.
\<close>

theorem transcript_sees_whole_output:
  assumes "capture_reads policy live True redactions [] reads (budget, capture_start) = (budget', s)"
  shows "concat (ct_transcript_texts s) = fst (decode (atom_bytes (redact_all redactions (concat reads))))"
proof -
  have "transcript_view capture_start []" by (simp add: transcript_view_def capture_start_def)
  from capture_reads_view [OF this assms] show ?thesis by (simp add: stream_bytes redact_stream_redacts)
qed

theorem transcript_sees_whole_output_witness:
  "concat (ct_transcript_texts (snd (capture_reads \<lparr>cp_preview_bytes = 1, cp_max_capture_bytes = 2\<rparr> True True
      [(ascii_bytes ''/pv'', ascii_bytes ''.'')] [] [ascii_bytes ''ab/p'', ascii_bytes ''v''] (2, capture_start))))
   = S ''ab.''"
proof -
  let ?run = "capture_reads \<lparr>cp_preview_bytes = 1, cp_max_capture_bytes = 2\<rparr> True True
      [(ascii_bytes ''/pv'', ascii_bytes ''.'')] [] [ascii_bytes ''ab/p'', ascii_bytes ''v''] (2, capture_start)"
  have "?run = (fst ?run, snd ?run)" by simp
  from transcript_sees_whole_output [OF this]
  have "concat (ct_transcript_texts (snd ?run))
      = fst (decode (atom_bytes (redact_all [(ascii_bytes ''/pv'', ascii_bytes ''.'')]
          (concat [ascii_bytes ''ab/p'', ascii_bytes ''v'']))))" .
  also have "\<dots> = S ''ab.''" by code_simp
  finally show ?thesis .
qed

end
