(* ===== verification/Output_Archive.thy ===== *)
theory Output_Archive
  imports Output_Capture
begin

text \<open>
  The archive form of captured output, \<open>src/crates/core/src/command/output_capture.rs\<close>: a spool is
  redacted once more with the archive's own replacements, decoded, escaped and written as one JSON
  string, in blocks of the size the file system returns.
\<close>

section \<open>Escaping\<close>

definition hex_digit :: "nat \<Rightarrow> rchar" where
  "hex_digit n = S ''0123456789abcdef'' ! n"

definition json_escape :: "rchar \<Rightarrow> rstring" where
  "json_escape c =
     (let n = code_point c in
      if c = DQ then [BSL, DQ]
      else if c = BSL then [BSL, BSL]
      else if n = 0x08 then BSL # S ''b''
      else if n = 0x0C then BSL # S ''f''
      else if n = 0x0A then BSL # S ''n''
      else if n = 0x0D then BSL # S ''r''
      else if n = 0x09 then BSL # S ''t''
      else if n \<le> 0x1F then BSL # S ''u00'' @ [hex_digit (n div 16), hex_digit (n mod 16)]
      else [c])"

definition escape_text :: "rstring \<Rightarrow> rstring" where
  "escape_text t = concat (map json_escape t)"

definition write_json_string_contents :: "rstring \<Rightarrow> byte list" where
  "write_json_string_contents t = utf8_bytes (escape_text t)"

lemma write_json_string_contents_append [simp]:
  "write_json_string_contents [] = []"
  "write_json_string_contents (a @ b) = write_json_string_contents a @ write_json_string_contents b"
  "write_json_string_contents (c # a) = utf8_bytes (json_escape c) @ write_json_string_contents a"
  by (simp_all add: write_json_string_contents_def escape_text_def utf8_bytes_def)

section \<open>Decoding and redacting in blocks\<close>

text \<open>The bytes written and the bytes kept.\<close>

function write_decoded_json_string_bytes :: "byte list \<Rightarrow> bool \<Rightarrow> byte list \<times> byte list" where
  "write_decoded_json_string_bytes pending end_of_stream =
     (case from_utf8 pending of
        Inr t \<Rightarrow> (write_json_string_contents t, [])
      | Inl (valid_up_to, error_len) \<Rightarrow>
          (let valid = write_json_string_contents (from_utf8_lossy (take valid_up_to pending)) in
           case error_len of
             Some invalid_bytes \<Rightarrow>
               (case write_decoded_json_string_bytes (drop (valid_up_to + invalid_bytes) pending) end_of_stream of
                  (bytes, rest) \<Rightarrow> (valid @ write_json_string_contents [replacement_char] @ bytes, rest))
           | None \<Rightarrow>
               if end_of_stream then (valid @ write_json_string_contents [replacement_char], [])
               else (valid, drop valid_up_to pending)))"
  by pat_completeness auto
termination
proof (relation "measure (\<lambda>(pending, _). length pending)", goal_cases)
  case (2 pending eos err v e valid k)
  then show ?case using from_utf8_Inl [of pending v e] by auto
qed simp

declare write_decoded_json_string_bytes.simps [simp del]

text \<open>The loop of \<open>write_redacted_json_string_bytes\<close>: the bytes to decode and the final cursor.\<close>

function redact_into ::
  "byte list \<Rightarrow> nat \<Rightarrow> redaction list \<Rightarrow> nat \<Rightarrow> byte list \<Rightarrow> byte list \<times> nat" where
  "redact_into source process_before redactions cursor utf8_pending =
     (if cursor < process_before then
        (case next_redaction source cursor process_before redactions of
           None \<Rightarrow> (utf8_pending @ Prelude.slice source cursor process_before, process_before)
         | Some (start, source_len, replacement) \<Rightarrow>
             redact_into source process_before redactions (start + source_len)
               (utf8_pending @ Prelude.slice source cursor start @ replacement))
      else (utf8_pending, cursor))"
  by pat_completeness auto
termination
  by (relation "measure (\<lambda>(_, process_before, _, cursor, _). process_before - cursor)")
    (auto dest: next_redaction_progress)

declare redact_into.simps [simp del]

definition write_redacted_json_string_bytes ::
  "redaction list \<Rightarrow> byte list \<Rightarrow> byte list \<Rightarrow> bool \<Rightarrow> byte list \<times> byte list \<times> byte list" where
  "write_redacted_json_string_bytes redactions source_pending utf8_pending end_of_stream =
     (if redactions = [] then
        (case write_decoded_json_string_bytes (utf8_pending @ source_pending) end_of_stream of
           (bytes, utf8_pending') \<Rightarrow> (bytes, [], utf8_pending'))
      else
        let process_before =
              (if end_of_stream then length source_pending
               else length source_pending - redaction_overlap redactions);
            (utf8, cursor) = redact_into source_pending process_before redactions 0 utf8_pending in
        (case write_decoded_json_string_bytes utf8 False of
           (bytes, utf8_pending') \<Rightarrow> (bytes, drop cursor source_pending, utf8_pending')))"

text \<open>The body of the string, for the blocks the reader returns, and the whole string.\<close>

fun write_spool_blocks :: "redaction list \<Rightarrow> byte list \<Rightarrow> byte list \<Rightarrow> byte list list \<Rightarrow> byte list" where
  "write_spool_blocks redactions source_pending utf8_pending [] =
     (case write_redacted_json_string_bytes redactions source_pending utf8_pending True of
        (bytes, _, utf8_pending') \<Rightarrow> bytes @ fst (write_decoded_json_string_bytes utf8_pending' True))"
| "write_spool_blocks redactions source_pending utf8_pending (block # blocks) =
     (case write_redacted_json_string_bytes redactions (source_pending @ block) utf8_pending False of
        (bytes, source_pending', utf8_pending') \<Rightarrow>
          bytes @ write_spool_blocks redactions source_pending' utf8_pending' blocks)"

definition write_json_string_from_spool :: "redaction list \<Rightarrow> byte list list \<Rightarrow> byte list" where
  "write_json_string_from_spool redactions blocks =
     utf8_bytes [DQ] @ write_spool_blocks redactions [] [] blocks @ utf8_bytes [DQ]"

section \<open>The blocks do not matter\<close>

lemma write_decoded_decode:
  "write_decoded_json_string_bytes pending eos =
     (if eos then (write_json_string_contents (from_utf8_lossy pending), [])
      else (write_json_string_contents (fst (decode pending)), snd (decode pending)))"
proof (induction pending eos rule: write_decoded_json_string_bytes.induct)
  case (1 pending eos)
  show ?case
  proof (cases "from_utf8 pending")
    case (Inr t)
    then show ?thesis
      using from_utf8_Inr [OF Inr] by (simp add: write_decoded_json_string_bytes.simps [of pending])
  next
    case (Inl err)
    obtain v e where err: "err = (v, e)" by (cases err)
    note parts = from_utf8_Inl_decode [OF Inl [unfolded err]]
    show ?thesis
    proof (cases e)
      case None
      have "drop v pending \<noteq> []" using from_utf8_Inl [OF Inl [unfolded err]] by simp
      with None parts(1,3) Inl err show ?thesis
        by (simp add: write_decoded_json_string_bytes.simps [of pending] from_utf8_lossy_decode [of pending])
    next
      case (Some k)
      have "write_decoded_json_string_bytes (drop (v + k) pending) eos =
          (if eos then (write_json_string_contents (from_utf8_lossy (drop (v + k) pending)), [])
           else (write_json_string_contents (fst (decode (drop (v + k) pending))),
                 snd (decode (drop (v + k) pending))))"
        by (rule "1.IH" [OF Inl err [symmetric] refl Some])
      moreover have "decode pending = (from_utf8_lossy (take v pending) @ [replacement_char]
          @ fst (decode (drop (v + k) pending)), snd (decode (drop (v + k) pending)))"
        using parts(1) parts(2) [OF Some] by (simp add: case_prod_beta)
      ultimately show ?thesis
        using Inl err Some
        by (simp add: write_decoded_json_string_bytes.simps [of pending] from_utf8_lossy_decode [of pending]
            from_utf8_lossy_decode [of "drop (v + k) pending"])
    qed
  qed
qed

lemma redact_into_drain:
  "redact_into source process_before rs cursor utf8 =
     (utf8 @ concat (map sg_bytes (fst (drain_loop source process_before rs cursor))),
      snd (drain_loop source process_before rs cursor))"
proof (induction source process_before rs cursor utf8 rule: redact_into.induct)
  case (1 source process_before rs cursor utf8)
  have lit: "concat (map sg_bytes (literal_segment bytes)) = bytes" for bytes
    by (simp add: literal_segment_def)
  show ?case
  proof (cases "cursor < process_before")
    case True
    show ?thesis
    proof (cases "next_redaction source cursor process_before rs")
      case None
      with True show ?thesis
        by (simp add: redact_into.simps [of source process_before rs cursor]
            drain_loop.simps [of source process_before rs cursor] lit)
    next
      case (Some found)
      then obtain start n r where hit: "next_redaction source cursor process_before rs = Some (start, n, r)"
        by (cases found) auto
      with 1 [OF True hit refl refl] True show ?thesis
        by (simp add: redact_into.simps [of source process_before rs cursor]
            drain_loop.simps [of source process_before rs cursor] lit case_prod_beta)
    qed
  qed (simp add: redact_into.simps [of source process_before rs cursor]
      drain_loop.simps [of source process_before rs cursor])
qed

lemma write_redacted_push:
  assumes "redactor_push rs source_pending block eos = (segs, source_pending')"
  shows "write_redacted_json_string_bytes rs (source_pending @ block) utf8 eos =
    (case write_decoded_json_string_bytes (utf8 @ concat (map sg_bytes segs)) (eos \<and> rs = []) of
       (bytes, utf8') \<Rightarrow> (bytes, source_pending', utf8'))"
proof (cases "rs = []")
  case True
  then show ?thesis
    using assms by (auto simp: write_redacted_json_string_bytes_def redactor_push_def
        drain_redacted_output_bytes_def literal_segment_def)
next
  case False
  then show ?thesis
    using assms by (auto simp: write_redacted_json_string_bytes_def redactor_push_def
        drain_redacted_output_bytes_def redact_into_drain Let_def case_prod_beta)
qed

lemma write_spool_blocks_lossy:
  "decode seen = (t, utf8) \<Longrightarrow>
     write_json_string_contents t @ write_spool_blocks rs source_pending utf8 blocks =
     write_json_string_contents
       (from_utf8_lossy (seen @ concat (map sg_bytes (redact_stream rs source_pending blocks))))"
proof (induction blocks arbitrary: source_pending utf8 seen t)
  case Nil
  obtain segs rest where push: "redactor_push rs source_pending [] True = (segs, rest)" by fastforce
  let ?new = "concat (map sg_bytes segs)"
  have "decode (seen @ ?new) = (t @ fst (decode (utf8 @ ?new)), snd (decode (utf8 @ ?new)))"
    using decode_append [of seen ?new] Nil by (simp add: case_prod_beta)
  then have "from_utf8_lossy (seen @ ?new) = t @ from_utf8_lossy (utf8 @ ?new)"
    by (simp add: from_utf8_lossy_decode)
  moreover have "from_utf8_lossy (utf8 @ ?new)
      = fst (decode (utf8 @ ?new)) @ from_utf8_lossy (snd (decode (utf8 @ ?new)))"
    by (simp add: from_utf8_lossy_decode decode_rest)
  ultimately show ?case
    using write_redacted_push [OF push, of utf8] push by (simp add: write_decoded_decode)
next
  case (Cons block blocks)
  obtain segs rest where push: "redactor_push rs source_pending block False = (segs, rest)" by fastforce
  let ?new = "concat (map sg_bytes segs)"
  have "decode (seen @ ?new) = (t @ fst (decode (utf8 @ ?new)), snd (decode (utf8 @ ?new)))"
    using decode_append [of seen ?new] Cons.prems by (simp add: case_prod_beta)
  from Cons.IH [OF this, of rest] show ?case
    using write_redacted_push [OF push, of utf8] push by (simp add: write_decoded_decode)
qed

section \<open>Reading the string back\<close>

text \<open>A JSON string parser: the text up to the closing quote, if the string is well formed.\<close>

definition hex_value :: "rchar \<Rightarrow> nat option" where
  "hex_value c = find (\<lambda>n. hex_digit n = c) [0..<16]"

fun unescape :: "rstring \<Rightarrow> (rchar \<times> rstring) option" where
  "unescape [] = None"
| "unescape (c # cs) =
     (if among c [CHR 0x22, CHR 0x5C, CHR 0x2F] then Some (c, cs)
      else if c = Ch CHR ''b'' then Some (scalar 0x08, cs)
      else if c = Ch CHR ''f'' then Some (scalar 0x0C, cs)
      else if c = Ch CHR ''n'' then Some (scalar 0x0A, cs)
      else if c = Ch CHR ''r'' then Some (scalar 0x0D, cs)
      else if c = Ch CHR ''t'' then Some (scalar 0x09, cs)
      else if c = Ch CHR ''u'' then
        (case map hex_value (take 4 cs) of
           [Some a, Some b, Some d, Some e] \<Rightarrow>
             Some (scalar (a * 4096 + b * 256 + d * 16 + e), drop 4 cs)
         | _ \<Rightarrow> None)
      else None)"

lemma unescape_shorter: "unescape cs = Some (c, rest) \<Longrightarrow> length rest < length cs"
  by (cases cs) (auto split: if_split_asm list.split_asm option.split_asm)

function json_body :: "rstring \<Rightarrow> (rstring \<times> rstring) option" where
  "json_body [] = None"
| "json_body (c # cs) =
     (if c = DQ then Some ([], cs)
      else if c = BSL then
        (case unescape cs of
           None \<Rightarrow> None
         | Some (d, rest) \<Rightarrow> map_option (\<lambda>(t, rest'). (d # t, rest')) (json_body rest))
      else if code_point c < 0x20 then None
      else map_option (\<lambda>(t, rest'). (c # t, rest')) (json_body cs))"
  by pat_completeness auto
termination
  by (relation "measure length") (auto dest: unescape_shorter)

definition parse_json_string :: "rstring \<Rightarrow> rstring option" where
  "parse_json_string s =
     (case s of
        c # cs \<Rightarrow> if c = DQ then (case json_body cs of Some (t, []) \<Rightarrow> Some t | _ \<Rightarrow> None) else None
      | [] \<Rightarrow> None)"

lemma hex_value_digit: "n < 16 \<Longrightarrow> hex_value (hex_digit n) = Some n"
proof -
  have "\<forall>n \<in> set [0..<16]. hex_value (hex_digit n) = Some n" by code_simp
  then show "n < 16 \<Longrightarrow> ?thesis" by simp
qed

lemma unescape_append: "unescape e = Some (c, []) \<Longrightarrow> unescape (e @ rest) = Some (c, rest)"
proof (cases e)
  case (Cons d ds)
  assume e: "unescape e = Some (c, [])"
  show ?thesis
  proof (cases "d = Ch CHR ''u''")
    case True
    with e Cons have "length (take 4 ds) = 4" "drop 4 ds = []"
      by (auto simp: length_Suc_conv map_eq_Cons_conv split: list.split_asm option.split_asm)
    then have "take 4 (ds @ rest) = take 4 ds" "drop 4 (ds @ rest) = rest" by simp_all
    with e Cons True show ?thesis by (auto split: list.split_asm option.split_asm)
  qed (use e Cons in \<open>auto split: if_split_asm\<close>)
qed simp

lemma json_escape_control_values:
  "\<forall>n \<in> set [0..<32]. json_escape (scalar n) = BSL # tl (json_escape (scalar n))
     \<and> unescape (tl (json_escape (scalar n))) = Some (scalar n, [])"
  by code_simp

lemma json_escape_control:
  assumes "code_point c \<le> 0x1F"
  shows "\<exists>e. json_escape c = BSL # e \<and> unescape (e @ rest) = Some (c, rest)"
proof -
  have "code_point c \<in> set [0..<32]" using assms by simp
  from json_escape_control_values [rule_format, OF this] show ?thesis
    unfolding scalar_code_point by (blast intro: unescape_append)
qed

lemma json_body_escape:
  "json_body (json_escape c @ rest) = map_option (\<lambda>(t, rest'). (c # t, rest')) (json_body rest)"
proof (cases "code_point c \<le> 0x1F")
  case True
  from json_escape_control [OF True, of rest] show ?thesis by auto
next
  case False
  then show ?thesis by (auto simp: json_escape_def Let_def)
qed

lemma json_body_escape_text: "json_body (escape_text t @ DQ # rest) = Some (t, rest)"
  by (induction t) (simp_all add: escape_text_def json_body_escape)

text \<open>
  C39: whatever blocks the spool is read in, the archive holds a
  well-formed JSON string that reads back as the lossy decoding of the redacted spool.
\<close>

theorem archived_output_is_json_string:
  "\<exists>text. write_json_string_from_spool redactions blocks = utf8_bytes text
     \<and> parse_json_string text = Some (from_utf8_lossy (atom_bytes (redact_all redactions (concat blocks))))"
proof -
  let ?t = "from_utf8_lossy (atom_bytes (redact_all redactions (concat blocks)))"
  have "write_spool_blocks redactions [] [] blocks = write_json_string_contents ?t"
    using write_spool_blocks_lossy [of "[]" "[]" "[]" redactions "[]" blocks]
    by (simp add: stream_bytes redact_stream_redacts)
  then have "write_json_string_from_spool redactions blocks = utf8_bytes (DQ # escape_text ?t @ [DQ])"
    by (simp add: write_json_string_from_spool_def write_json_string_contents_def utf8_bytes_def)
  moreover have "parse_json_string (DQ # escape_text ?t @ [DQ]) = Some ?t"
    by (simp add: parse_json_string_def json_body_escape_text)
  ultimately show ?thesis by blast
qed

end
