(* ===== verification/Transcript_Cursor.thy ===== *)
theory Transcript_Cursor
  imports Command_Transcript_Props
begin

text \<open>
  What a reader with a cursor may rely on when it reads the command transcript in batches
  (\<open>CommandTranscript::read_after\<close> behind the poll of a session): the locale \<open>cursor_log\<close>, the lemma of
  its client, and its interpretation on the transcript of \<open>transcript.rs\<close>.
\<close>

section \<open>The contract\<close>

text \<open>
  What a reader has been handed so far: strictly increasing numbers up to its cursor, and the whole of
  the log up to the cursor unless the log lost something.
\<close>

definition delivered :: "('c \<Rightarrow> nat) \<Rightarrow> 'c list \<Rightarrow> nat \<Rightarrow> 'c list \<Rightarrow> bool \<Rightarrow> bool" where
  "delivered number polled cursor log lost \<longleftrightarrow>
     sorted_wrt (<) (map number polled) \<and> (\<forall>c \<in> set polled. number c \<le> cursor) \<and> cursor \<le> length log
     \<and> (\<not> lost \<longrightarrow> polled = take cursor log)"

lemma delivered_start: "delivered number [] 0 log lost"
  by (simp add: delivered_def)

lemma delivered_grows:
  "delivered number polled cursor log lost \<Longrightarrow> (lost \<Longrightarrow> lost') \<Longrightarrow> delivered number polled cursor (log @ new) lost'"
  by (auto simp: delivered_def)

locale cursor_log =
  fixes holds :: "'t \<Rightarrow> 'c list \<Rightarrow> bool"
    and read :: "'t \<Rightarrow> nat \<Rightarrow> nat \<Rightarrow> 'c list"
    and number :: "'c \<Rightarrow> nat"
    and latest :: "'t \<Rightarrow> nat"
    and lost :: "'t \<Rightarrow> bool"
  assumes latest: "holds t log \<Longrightarrow> latest t = length log"
    and numbered: "holds t log \<Longrightarrow> i < length log \<Longrightarrow> number (log ! i) = Suc i"
    and increasing: "holds t log \<Longrightarrow> sorted_wrt (<) (map number (read t cursor m))"
    and window: "holds t log \<Longrightarrow> c \<in> set (read t cursor m) \<Longrightarrow> cursor < number c \<and> number c \<le> length log"
    and nothing_skipped: "holds t log \<Longrightarrow> \<not> lost t \<Longrightarrow>
      \<exists>k. read t cursor m = take k (drop cursor log) \<and> (cursor < length log \<longrightarrow> 0 < k)"
begin

lemma read_some:
  assumes "holds t log" and "\<not> lost t" and "read t cursor m \<noteq> []" and "cursor \<le> length log"
  shows "take cursor log @ read t cursor m = take (number (last (read t cursor m))) log"
proof -
  obtain k where k: "read t cursor m = take k (drop cursor log)" using nothing_skipped [OF assms(1,2)] by blast
  define n where "n = min k (length log - cursor)"
  have n: "read t cursor m = take n (drop cursor log)" "length (read t cursor m) = n"
    unfolding k n_def by (auto simp: min_def)
  have pos: "0 < n" using assms(3) n(2) by (cases n) auto
  have le: "cursor + n \<le> length log" using assms(4) by (simp add: n_def)
  have "last (read t cursor m) = take n (drop cursor log) ! (n - 1)"
    using last_conv_nth [OF assms(3)] unfolding n(2) n(1) [symmetric] .
  also have "\<dots> = log ! (cursor + n - 1)" using pos le by simp
  finally have "number (last (read t cursor m)) = cursor + n"
    using numbered [OF assms(1), of "cursor + n - 1"] pos le by simp
  with n(1) show ?thesis by (simp add: take_add)
qed

lemma last_is_greatest:
  assumes "holds t log" and "c \<in> set (read t cursor m)"
  shows "number c \<le> number (last (read t cursor m))"
  using assms(2) increasing [OF assms(1), of cursor m]
  by (cases "read t cursor m" rule: rev_cases) (auto simp: sorted_wrt_append less_imp_le)

lemma delivered_read:
  assumes "holds t log" and "delivered number polled cursor log (lost t)"
    and "cursor' = (if read t cursor m \<noteq> [] then number (last (read t cursor m))
                    else if cursor < latest t \<and> lost t then latest t else cursor)"
  shows "delivered number (polled @ read t cursor m) cursor' log (lost t)"
proof (cases "read t cursor m = []")
  case True
  with assms latest [OF assms(1)] show ?thesis by (auto simp: delivered_def)
next
  case False
  let ?new = "read t cursor m"
  have last: "last ?new \<in> set ?new" using False by simp
  have "sorted_wrt (<) (map number (polled @ ?new))"
    using assms(2) increasing [OF assms(1)] window [OF assms(1)]
    by (fastforce simp: delivered_def sorted_wrt_append)
  moreover have "\<forall>c \<in> set (polled @ ?new). number c \<le> number (last ?new)"
    using assms(2) window [OF assms(1) last] last_is_greatest [OF assms(1)] by (fastforce simp: delivered_def)
  moreover have "\<not> lost t \<longrightarrow> polled @ ?new = take (number (last ?new)) log"
    using assms(2) read_some [OF assms(1) _ False] by (auto simp: delivered_def)
  ultimately show ?thesis
    using window [OF assms(1) last] assms(3) False by (simp add: delivered_def)
qed

end

section \<open>The transcript meets it\<close>

text \<open>Truncation is permanent.\<close>

lemma evict_truncated: "snd (snd (evict limit cs bytes True))"
  by (induction limit cs bytes True rule: evict.induct) auto

lemma trim_tail_truncated: "tr_truncated t \<Longrightarrow> tr_truncated (trim_tail t)"
  using evict_truncated [of "tr_tail_limit t" "tr_tail t" "tr_tail_bytes t"]
  by (auto simp: trim_tail_def Let_def split: prod.split list.split)

lemma commit_piece_truncated:
  "tr_truncated t \<Longrightarrow> tr_truncated (snd (commit_piece stream s t))"
  by (auto simp: commit_piece_def commit_tail_def push_head_def seal_head_def next_chunk_def Let_def
      intro!: trim_tail_truncated split: prod.split)

lemma commit_loop_truncated: "tr_truncated t \<Longrightarrow> tr_truncated (snd (commit_loop stream s t))"
proof (induction stream s t rule: commit_loop.induct)
  case (1 stream s t)
  then show ?case
    using commit_piece_truncated [of t stream "fst (split_bytes s (piece_split s))"]
    by (auto simp: commit_loop.simps [of stream s t] split: prod.split)
qed

lemma commit_truncated: "transcript_commit stream s t = (cs, u) \<Longrightarrow> tr_truncated t \<Longrightarrow> tr_truncated u"
  using commit_loop_truncated [of t stream s] by (auto simp: transcript_commit_def split: if_splits)

definition transcript_holds :: "command_transcript \<Rightarrow> command_output_chunk list \<Rightarrow> bool" where
  "transcript_holds t log \<longleftrightarrow> (\<exists>n. transcript_run n t log) \<and> length log < u64_max"

lemma transcript_holds_inv: "transcript_holds t log \<Longrightarrow> transcript_inv t log \<and> length log < u64_max"
  using transcript_run_inv by (auto simp: transcript_holds_def)

lemma retained_sequence:
  assumes "transcript_holds t log" and "c \<in> set (transcript_chunks t)"
  shows "ck_sequence c \<le> length log"
proof -
  from transcript_holds_inv [OF assms(1)] obtain rest where num: "numbered log"
    and rest: "log = tr_head t @ rest" "retains (tr_tail t) rest"
    by (auto simp: transcript_inv_def)
  have "\<forall>c \<in> set a. \<exists>d \<in> set b. ck_sequence c = ck_sequence d" if "list_all2 trimmed a b" for a b
    using that by (induction rule: list_all2_induct) (auto simp: trimmed_def)
  with assms(2) rest have "\<exists>d \<in> set log. ck_sequence c = ck_sequence d"
    by (auto simp: transcript_chunks_def retains_def dest!: in_set_dropD) (metis in_set_dropD UnI2)
  then obtain i where "i < length log" "ck_sequence c = ck_sequence (log ! i)" by (metis in_set_conv_nth)
  with num show ?thesis by (simp add: numbered_def min_def)
qed

lemma numbered_fresh:
  assumes "numbered log" and "length log < u64_max"
  shows "filter (\<lambda>c. k < ck_sequence c) log = drop k log"
proof -
  have "filter (\<lambda>c. k < ck_sequence c) (take k log) = []"
    using assms by (auto simp: filter_empty_conv in_set_conv_nth numbered_def)
  moreover have "filter (\<lambda>c. k < ck_sequence c) (drop k log) = drop k log"
    using assms by (auto simp: filter_id_conv in_set_conv_nth numbered_def)
  ultimately show ?thesis by (metis append_take_drop_id filter_append append_Nil)
qed

lemma batch_prefix:
  obtains k where "bt_chunks (read_after t cursor m) = take k (fresh_chunks t cursor)"
    and "fresh_chunks t cursor \<noteq> [] \<Longrightarrow> 0 < k"
  using read_chunks_prefix [of cursor m "transcript_chunks t" "[]" 0]
  by (auto simp: read_after_def fresh_chunks_def)

interpretation cursor: cursor_log transcript_holds "\<lambda>t cursor m. bt_chunks (read_after t cursor m)"
  ck_sequence tr_latest_sequence tr_truncated
proof
  fix t log assume holds: "transcript_holds t log"
  note inv = transcript_holds_inv [OF holds]
  show "tr_latest_sequence t = length log" using inv by (simp add: transcript_inv_def)
  show "ck_sequence (log ! i) = Suc i" if "i < length log" for i
    using inv that by (simp add: transcript_inv_def numbered_def)
  fix cursor m
  obtain k where k: "bt_chunks (read_after t cursor m) = take k (fresh_chunks t cursor)"
    "fresh_chunks t cursor \<noteq> [] \<Longrightarrow> 0 < k" using batch_prefix by metis
  have "sorted_wrt (\<lambda>c d. ck_sequence c < ck_sequence d) (fresh_chunks t cursor)"
    unfolding fresh_chunks_def using run_sorted holds by (intro sorted_wrt_filter) (auto simp: sorted_wrt_map transcript_holds_def)
  then show "sorted_wrt (<) (map ck_sequence (bt_chunks (read_after t cursor m)))"
    by (simp add: k(1) sorted_wrt_map sorted_wrt_take)
  show "cursor < ck_sequence c \<and> ck_sequence c \<le> length log" if "c \<in> set (bt_chunks (read_after t cursor m))" for c
    using in_set_takeD [OF that [unfolded k(1)]] retained_sequence [OF holds] by (simp add: fresh_chunks_def)
  show "\<exists>k. bt_chunks (read_after t cursor m) = take k (drop cursor log) \<and> (cursor < length log \<longrightarrow> 0 < k)"
    if "\<not> tr_truncated t"
  proof -
    have "fresh_chunks t cursor = drop cursor log"
      using inv that numbered_fresh [of log] by (auto simp: transcript_inv_def transcript_chunks_def fresh_chunks_def)
    with k show ?thesis by (intro exI [of _ k]) auto
  qed
qed

end
