(* ===== verification/Command_Session.thy ===== *)
theory Command_Session
  imports Output_Capture Transcript_Cursor
begin

text \<open>
  One managed command session, \<open>src/crates/core/src/command/session.rs\<close>: identifiers, the observable
  state with its transcript, the lifecycle notifications and the operations of the model and the host.

  The source protects the observed state by one lock and serialises the operations that notify the
  host by a second one, which completion holds over four steps while readers may look in between. An
  operation that runs under both locks is a function here; completion is also given as its four steps,
  and a step relation interleaves everything the threads of the program do. The locks are the guards
  of that relation. Lifecycle notifications are the events an operation returns; they are empty when
  no observer is registered. A wait on the condition variable ends in some later state: the result of
  a waiting operation is given as a function of the state in which its wait ends.
\<close>

section \<open>Identifiers\<close>

datatype command_session_error =
    InvalidSessionId
  | InvalidScope
  | NotFound
  | GlobalLimitReached
  | ScopeLimitReached
  | InvalidConfiguration
  | ManagerShuttingDown
  | ControlChannelClosed
  | SpawnFailed rstring

definition is_ascii_hexdigit :: "rchar \<Rightarrow> bool" where
  "is_ascii_hexdigit c = among c ''0123456789abcdefABCDEF''"

definition session_id_parse :: "rstring \<Rightarrow> command_session_error + rstring" where
  "session_id_parse value =
     (case strip_prefix value (S ''cmd_'') of
        None \<Rightarrow> Inl InvalidSessionId
      | Some value_hex \<Rightarrow>
          if byte_len value_hex \<noteq> 32 \<or> \<not> list_all is_ascii_hexdigit value_hex then Inl InvalidSessionId
          else Inr (to_ascii_lowercase value))"

definition scope_id_new :: "rstring \<Rightarrow> command_session_error + rstring" where
  "scope_id_new value =
     (if str_trim value = [] \<or> 256 < byte_len value then Inl InvalidScope else Inr value)"

section \<open>State\<close>

datatype command_session_state =
    Starting
  | Running
  | Exited "int option"
  | Interrupted
  | TimedOut
  | Failed

definition is_terminal :: "command_session_state \<Rightarrow> bool" where
  "is_terminal st = (case st of Starting \<Rightarrow> False | Running \<Rightarrow> False | _ \<Rightarrow> True)"

record session_projection =
  pj_command :: rstring
  pj_cwd :: rstring

record session_snapshot =
  sn_session_id :: rstring
  sn_scope_id :: rstring
  sn_state :: command_session_state
  sn_started_at :: nat
  sn_ended_at :: "nat option"
  sn_exit_code :: "int option"
  sn_latest_output_sequence :: nat
  sn_output_truncated :: bool
  sn_projection :: session_projection
  sn_error :: "rstring option"

text \<open>
  The result of a command, with the fields the session reads or sets. The other fields of the source
  (published outputs, policy evaluation, artifact observation, archive references) start out empty and
  are filled by the completion hook and the host.
\<close>

record execution_result =
  rs_command :: rstring
  rs_cwd :: rstring
  rs_exit_code :: "int option"
  rs_stdout :: rstring
  rs_stderr :: rstring
  rs_timed_out :: bool
  rs_cancelled :: bool
  rs_duration_ms :: nat
  rs_stdout_truncated :: bool
  rs_stderr_truncated :: bool
  rs_output_capture :: capture_metadata
  rs_error :: "rstring option"

datatype lifecycle_event =
    EvStarted session_snapshot
  | EvOutput rstring command_output_chunk nat bool
  | EvTerminal session_snapshot execution_result

datatype process_control = Interrupt | ForceTerminate

text \<open>The live preview: a bounded channel to its own thread, with the bytes sent so far.\<close>

record live_output_state =
  lo_channel :: "(agent_command_output_stream \<times> rstring) list"
  lo_stdout_bytes :: nat
  lo_stderr_bytes :: nat

record observed_session_state =
  ob_state :: command_session_state
  ob_ended_at :: "nat option"
  ob_error :: "rstring option"
  ob_transcript :: command_transcript
  ob_live_output :: "live_output_state option"
  ob_terminal_result :: "execution_result option"
  ob_terminal_lifecycle_delivered :: bool

record managed_command_session =
  se_id :: rstring
  se_scope_id :: rstring
  se_projection :: session_projection
  se_started_at :: nat
  se_observed :: observed_session_state
  se_output_cursor :: nat
  se_interrupt_requested :: bool
  se_completion_cancel_requested :: bool
  se_control :: "process_control list"
  se_control_open :: bool
  se_lifecycle_observer :: bool

definition session_new ::
  "rstring \<Rightarrow> rstring \<Rightarrow> session_projection \<Rightarrow> nat \<Rightarrow> nat \<Rightarrow> bool \<Rightarrow> bool \<Rightarrow> managed_command_session" where
  "session_new session_id scope_id projection started_at transcript_bytes output_observer lifecycle_observer =
     \<lparr>se_id = session_id, se_scope_id = scope_id, se_projection = projection, se_started_at = started_at,
      se_observed =
        \<lparr>ob_state = Starting, ob_ended_at = None, ob_error = None,
         ob_transcript = transcript_new transcript_bytes,
         ob_live_output =
           (if output_observer then Some \<lparr>lo_channel = [], lo_stdout_bytes = 0, lo_stderr_bytes = 0\<rparr> else None),
         ob_terminal_result = None, ob_terminal_lifecycle_delivered = False\<rparr>,
      se_output_cursor = 0, se_interrupt_requested = False, se_completion_cancel_requested = False,
      se_control = [], se_control_open = True, se_lifecycle_observer = lifecycle_observer\<rparr>"

section \<open>Snapshots\<close>

definition authoritative_snapshot_from :: "managed_command_session \<Rightarrow> session_snapshot" where
  "authoritative_snapshot_from s =
     (let observed = se_observed s in
      \<lparr>sn_session_id = se_id s, sn_scope_id = se_scope_id s, sn_state = ob_state observed,
       sn_started_at = se_started_at s, sn_ended_at = ob_ended_at observed,
       sn_exit_code =
         (case ob_state observed of
            Exited exit_code \<Rightarrow> exit_code
          | _ \<Rightarrow> Option.bind (ob_terminal_result observed) rs_exit_code),
       sn_latest_output_sequence = tr_latest_sequence (ob_transcript observed),
       sn_output_truncated = output_truncated (ob_transcript observed),
       sn_projection = se_projection s, sn_error = ob_error observed\<rparr>)"

definition snapshot_from :: "managed_command_session \<Rightarrow> session_snapshot" where
  "snapshot_from s =
     (let snapshot = authoritative_snapshot_from s in
      if is_terminal (sn_state snapshot) \<and> \<not> ob_terminal_lifecycle_delivered (se_observed s)
      then snapshot\<lparr>sn_state := Running, sn_ended_at := None, sn_exit_code := None, sn_error := None\<rparr>
      else snapshot)"

definition notify_lifecycle :: "lifecycle_event \<Rightarrow> managed_command_session \<Rightarrow> lifecycle_event list" where
  "notify_lifecycle event s = (if se_lifecycle_observer s then [event] else [])"

section \<open>Operations of the process owner\<close>

definition mark_running :: "managed_command_session \<Rightarrow> lifecycle_event list \<times> managed_command_session" where
  "mark_running s =
     (if ob_state (se_observed s) \<noteq> Starting then ([], s)
      else
        let t = s\<lparr>se_observed := (se_observed s)\<lparr>ob_state := Running\<rparr>\<rparr> in
        (notify_lifecycle (EvStarted (snapshot_from t)) t, t))"

text \<open>\<open>utf8_prefix\<close> and \<open>LiveOutputState::emit\<close>: \<open>try_send\<close> drops the text when the channel is full.\<close>

definition live_emit ::
  "agent_command_output_stream \<Rightarrow> rstring \<Rightarrow> live_output_state \<Rightarrow> live_output_state" where
  "live_emit stream txt live =
     (let emitted = (case stream of Stdout \<Rightarrow> lo_stdout_bytes live | Stderr \<Rightarrow> lo_stderr_bytes live);
          remaining = MAX_OUTPUT_BYTES - emitted;
          preview = fst (split_bytes txt (utf8_prefix_len txt remaining)) in
      if preview = [] then live
      else
        let emitted' = saturating_add emitted (byte_len preview);
            live = (case stream of
                      Stdout \<Rightarrow> live\<lparr>lo_stdout_bytes := emitted'\<rparr>
                    | Stderr \<Rightarrow> live\<lparr>lo_stderr_bytes := emitted'\<rparr>) in
        if length (lo_channel live) < 64 then live\<lparr>lo_channel := lo_channel live @ [(stream, preview)]\<rparr>
        else live)"

text \<open>The thread of \<open>start_live_output_dispatcher\<close> takes one text from the channel and passes it to the observer.\<close>

definition live_dispatch :: "managed_command_session \<Rightarrow> ((agent_command_output_stream \<times> rstring) \<times> managed_command_session) option" where
  "live_dispatch s =
     (case ob_live_output (se_observed s) of
        None \<Rightarrow> None
      | Some live \<Rightarrow>
          (case lo_channel live of
             [] \<Rightarrow> None
           | message # rest \<Rightarrow>
               Some (message, s\<lparr>se_observed := (se_observed s)\<lparr>ob_live_output := Some (live\<lparr>lo_channel := rest\<rparr>)\<rparr>\<rparr>)))"

definition commit_output ::
  "agent_command_output_stream \<Rightarrow> rstring \<Rightarrow> managed_command_session
   \<Rightarrow> command_output_chunk list \<times> lifecycle_event list \<times> managed_command_session" where
  "commit_output stream txt s =
     (let observed = se_observed s;
          live = map_option (live_emit stream txt) (ob_live_output observed);
          (committed, transcript) = transcript_commit stream txt (ob_transcript observed);
          t = s\<lparr>se_observed := observed\<lparr>ob_live_output := live, ob_transcript := transcript\<rparr>\<rparr> in
      (committed,
       concat (map (\<lambda>chunk.
         notify_lifecycle (EvOutput (se_id s) chunk (ck_sequence chunk) (output_truncated transcript)) t) committed),
       t))"

text \<open>The four steps of \<open>complete\<close>; the first one is refused when the session is terminal already.\<close>

definition complete_close ::
  "execution_result \<Rightarrow> bool \<Rightarrow> managed_command_session \<Rightarrow> managed_command_session option" where
  "complete_close result output_capture_incomplete s =
     (let observed = se_observed s in
      if is_terminal (ob_state observed) then None
      else
        let transcript =
              (if output_capture_incomplete \<or> md_truncated_at_source (rs_output_capture result)
               then mark_capture_truncated (ob_transcript observed) else ob_transcript observed) in
        Some (s\<lparr>se_observed := observed\<lparr>ob_transcript := transcript_close transcript, ob_live_output := None\<rparr>\<rparr>))"

definition complete_commit ::
  "command_session_state \<Rightarrow> execution_result \<Rightarrow> rstring option \<Rightarrow> nat \<Rightarrow> managed_command_session
   \<Rightarrow> managed_command_session" where
  "complete_commit state result error now s =
     s\<lparr>se_observed := (se_observed s)
         \<lparr>ob_state := state, ob_ended_at := Some now, ob_error := error, ob_terminal_result := Some result\<rparr>\<rparr>"

definition complete_notify :: "execution_result \<Rightarrow> managed_command_session \<Rightarrow> lifecycle_event list" where
  "complete_notify result s = notify_lifecycle (EvTerminal (authoritative_snapshot_from s) result) s"

definition complete_deliver :: "managed_command_session \<Rightarrow> managed_command_session" where
  "complete_deliver s = s\<lparr>se_observed := (se_observed s)\<lparr>ob_terminal_lifecycle_delivered := True\<rparr>\<rparr>"

definition complete ::
  "command_session_state \<Rightarrow> execution_result \<Rightarrow> rstring option \<Rightarrow> bool \<Rightarrow> nat \<Rightarrow> managed_command_session
   \<Rightarrow> bool \<times> lifecycle_event list \<times> managed_command_session" where
  "complete state result error output_capture_incomplete now s =
     (case complete_close result output_capture_incomplete s of
        None \<Rightarrow> (False, [], s)
      | Some t \<Rightarrow>
          let u = complete_commit state result error now t in
          (True, complete_notify result u, complete_deliver u))"

definition no_capture :: capture_metadata where
  "no_capture =
     \<lparr>md_original_bytes = 0, md_captured_bytes = 0, md_omitted_bytes = 0, md_truncated_at_source = False,
      md_stop_reason = None, md_stdout_original_bytes = 0, md_stdout_captured_bytes = 0,
      md_stdout_omitted_bytes = 0, md_stdout_preview_truncated = False, md_stdout_stop_reason = None,
      md_stderr_original_bytes = 0, md_stderr_captured_bytes = 0, md_stderr_omitted_bytes = 0,
      md_stderr_preview_truncated = False, md_stderr_stop_reason = None\<rparr>"

definition complete_before_running ::
  "command_session_state \<Rightarrow> bool \<Rightarrow> rstring option \<Rightarrow> nat \<Rightarrow> managed_command_session
   \<Rightarrow> bool \<times> lifecycle_event list \<times> managed_command_session" where
  "complete_before_running state cancelled error now s =
     complete state
       \<lparr>rs_command = pj_command (se_projection s), rs_cwd = pj_cwd (se_projection s), rs_exit_code = None,
        rs_stdout = [], rs_stderr = [], rs_timed_out = False, rs_cancelled = cancelled, rs_duration_ms = 0,
        rs_stdout_truncated = False, rs_stderr_truncated = False, rs_output_capture = no_capture,
        rs_error = error\<rparr>
       error False now s"

definition fail_before_running where
  "fail_before_running error = complete_before_running Failed False (Some error)"

definition cancel_before_running where
  "cancel_before_running = complete_before_running Interrupted True None"

section \<open>Operations of the model and the host\<close>

datatype start_outcome = OutcomeExited session_snapshot execution_result | OutcomeRunning session_snapshot

text \<open>The condition on which the waits for the terminal result sleep, and their results.\<close>

definition waits_for_terminal :: "managed_command_session \<Rightarrow> bool" where
  "waits_for_terminal s = (\<not> ob_terminal_lifecycle_delivered (se_observed s))"

definition wait_start_outcome :: "managed_command_session \<Rightarrow> start_outcome" where
  "wait_start_outcome s =
     (let observed = se_observed s;
          published = (if ob_terminal_lifecycle_delivered observed then ob_terminal_result observed else None) in
      case published of
        Some execution \<Rightarrow> OutcomeExited (snapshot_from s) execution
      | None \<Rightarrow> OutcomeRunning (snapshot_from s))"

definition terminal_result :: "managed_command_session \<Rightarrow> (session_snapshot \<times> execution_result) option" where
  "terminal_result s =
     (if \<not> ob_terminal_lifecycle_delivered (se_observed s) then None
      else map_option (\<lambda>execution. (snapshot_from s, execution)) (ob_terminal_result (se_observed s)))"

text \<open>The condition on which \<open>poll\<close> and \<open>read_output\<close> sleep.\<close>

definition waits_for_output :: "nat \<Rightarrow> managed_command_session \<Rightarrow> bool" where
  "waits_for_output cursor s =
     (\<not> ob_terminal_lifecycle_delivered (se_observed s)
      \<and> tr_latest_sequence (ob_transcript (se_observed s)) \<le> cursor)"

definition session_poll ::
  "nat \<Rightarrow> managed_command_session \<Rightarrow> (session_snapshot \<times> command_output_batch) \<times> managed_command_session" where
  "session_poll max_bytes s =
     (let cursor = se_output_cursor s;
          batch = read_after (ob_transcript (se_observed s)) cursor max_bytes;
          cursor' =
            (if bt_chunks batch \<noteq> [] then ck_sequence (last (bt_chunks batch))
             else if cursor < bt_latest_sequence batch \<and> bt_truncated_before batch
             then bt_latest_sequence batch else cursor) in
      ((snapshot_from s, batch), s\<lparr>se_output_cursor := cursor'\<rparr>))"

definition session_read_output ::
  "nat \<Rightarrow> nat \<Rightarrow> managed_command_session \<Rightarrow> session_snapshot \<times> command_output_batch" where
  "session_read_output after max_bytes s =
     (snapshot_from s, read_after (ob_transcript (se_observed s)) after max_bytes)"

text \<open>
  \<open>control\<close> up to its wait: what was sent, and an error when the watcher is gone. The channel holds
  four messages; \<open>control_blocks\<close> is the state in which a send waits for the watcher.
\<close>

definition should_send :: "process_control \<Rightarrow> managed_command_session \<Rightarrow> bool" where
  "should_send c s = (case c of Interrupt \<Rightarrow> \<not> se_interrupt_requested s | ForceTerminate \<Rightarrow> True)"

definition control_blocks :: "process_control \<Rightarrow> managed_command_session \<Rightarrow> bool" where
  "control_blocks c s =
     (\<not> is_terminal (ob_state (se_observed s)) \<and> should_send c s \<and> se_control_open s \<and> 4 \<le> length (se_control s))"

definition session_control ::
  "process_control \<Rightarrow> managed_command_session
   \<Rightarrow> (command_session_error + process_control list) \<times> managed_command_session" where
  "session_control c s =
     (if is_terminal (ob_state (se_observed s)) then (Inr [], s)
      else
        let send = should_send c s;
            s = (case c of Interrupt \<Rightarrow> s\<lparr>se_interrupt_requested := True\<rparr> | ForceTerminate \<Rightarrow> s);
            s = s\<lparr>se_completion_cancel_requested := True\<rparr> in
        if \<not> send then (Inr [], s)
        else if se_control_open s then (Inr [c], s\<lparr>se_control := se_control s @ [c]\<rparr>)
        else
          (Inl ControlChannelClosed,
           case c of Interrupt \<Rightarrow> s\<lparr>se_interrupt_requested := False\<rparr> | ForceTerminate \<Rightarrow> s))"

definition force_for_shutdown :: "managed_command_session \<Rightarrow> process_control list \<times> managed_command_session" where
  "force_for_shutdown s =
     (if is_terminal (ob_state (se_observed s)) then ([], s)
      else
        let s = s\<lparr>se_completion_cancel_requested := True\<rparr> in
        if se_control_open s \<and> length (se_control s) < 4
        then ([ForceTerminate], s\<lparr>se_control := se_control s @ [ForceTerminate]\<rparr>) else ([], s))"

section \<open>Threads\<close>

text \<open>
  Where the thread that completes the session stands; while it is not \<open>Idle\<close> it holds the lock that
  serialises lifecycle notifications.
\<close>

datatype completing =
    Idle
  | Closing command_session_state execution_result "rstring option"
  | Publishing execution_result
  | Published

text \<open>
  The session with everything it has done so far: the events sent to the host, the chunks committed,
  the control messages sent to the watcher and the chunks handed to the model. The readers start after
  \<open>mark_running\<close> has returned.
\<close>

record session_world =
  wd_session :: managed_command_session
  wd_completing :: completing
  wd_readers :: bool
  wd_events :: "lifecycle_event list"
  wd_log :: "command_output_chunk list"
  wd_sent :: "process_control list"
  wd_polled :: "command_output_chunk list"

abbreviation wd_observed :: "session_world \<Rightarrow> observed_session_state" where
  "wd_observed w \<equiv> se_observed (wd_session w)"

definition initial_world ::
  "rstring \<Rightarrow> rstring \<Rightarrow> session_projection \<Rightarrow> nat \<Rightarrow> nat \<Rightarrow> bool \<Rightarrow> bool \<Rightarrow> session_world" where
  "initial_world session_id scope_id projection started_at transcript_bytes output_observer lifecycle_observer =
     \<lparr>wd_session = session_new session_id scope_id projection started_at transcript_bytes output_observer
                    lifecycle_observer,
      wd_completing = Idle, wd_readers = False, wd_events = [], wd_log = [], wd_sent = [], wd_polled = []\<rparr>"

inductive session_step :: "session_world \<Rightarrow> session_world \<Rightarrow> bool" where
  running:
    "wd_completing w = Idle \<Longrightarrow> \<not> wd_readers w \<Longrightarrow> mark_running (wd_session w) = (events, s) \<Longrightarrow>
     session_step w (w\<lparr>wd_session := s, wd_events := wd_events w @ events\<rparr>)"
| readers:
    "wd_completing w = Idle \<Longrightarrow> ob_state (wd_observed w) = Running \<Longrightarrow> session_step w (w\<lparr>wd_readers := True\<rparr>)"
| commit:
    "wd_completing w = Idle \<Longrightarrow> wd_readers w \<Longrightarrow>
     commit_output stream txt (wd_session w) = (committed, events, s) \<Longrightarrow>
     session_step w (w\<lparr>wd_session := s, wd_events := wd_events w @ events, wd_log := wd_log w @ committed\<rparr>)"
| dispatch:
    "live_dispatch (wd_session w) = Some (message, s) \<Longrightarrow> session_step w (w\<lparr>wd_session := s\<rparr>)"
| close:
    "wd_completing w = Idle \<Longrightarrow> is_terminal state \<Longrightarrow>
     complete_close result incomplete (wd_session w) = Some s \<Longrightarrow>
     session_step w (w\<lparr>wd_session := s, wd_completing := Closing state result error\<rparr>)"
| store:
    "wd_completing w = Closing state result error \<Longrightarrow>
     session_step w (w\<lparr>wd_session := complete_commit state result error now (wd_session w),
                       wd_completing := Publishing result\<rparr>)"
| notify:
    "wd_completing w = Publishing result \<Longrightarrow>
     session_step w (w\<lparr>wd_events := wd_events w @ complete_notify result (wd_session w),
                       wd_completing := Published\<rparr>)"
| deliver:
    "wd_completing w = Published \<Longrightarrow>
     session_step w (w\<lparr>wd_session := complete_deliver (wd_session w), wd_completing := Idle\<rparr>)"
| poll:
    "session_poll max_bytes (wd_session w) = ((snapshot, batch), s) \<Longrightarrow>
     session_step w (w\<lparr>wd_session := s, wd_polled := wd_polled w @ bt_chunks batch\<rparr>)"
| control:
    "\<not> control_blocks c (wd_session w) \<Longrightarrow> session_control c (wd_session w) = (answer, s) \<Longrightarrow>
     session_step w (w\<lparr>wd_session := s, wd_sent := wd_sent w @ (case answer of Inr cs \<Rightarrow> cs | Inl _ \<Rightarrow> [])\<rparr>)"
| shutdown:
    "force_for_shutdown (wd_session w) = (cs, s) \<Longrightarrow>
     session_step w (w\<lparr>wd_session := s, wd_sent := wd_sent w @ cs\<rparr>)"
| receive:
    "se_control (wd_session w) = c # cs \<Longrightarrow>
     session_step w (w\<lparr>wd_session := (wd_session w)\<lparr>se_control := cs\<rparr>\<rparr>)"
| watcher_exit:
    "session_step w (w\<lparr>wd_session := (wd_session w)\<lparr>se_control_open := False\<rparr>\<rparr>)"

inductive reachable_session :: "nat \<Rightarrow> session_world \<Rightarrow> bool" for transcript_bytes where
  start: "reachable_session transcript_bytes
            (initial_world session_id scope_id projection started_at transcript_bytes output_observer lifecycle_observer)"
| step: "reachable_session transcript_bytes w \<Longrightarrow> session_step w w' \<Longrightarrow> reachable_session transcript_bytes w'"

end
