(* ===== verification/Session_Lifecycle.thy ===== *)
theory Session_Lifecycle
  imports Command_Session
begin

text \<open>
  What holds in every state a command session can reach while its threads interleave: the order of
  the lifecycle events, the publication of the end, its finality, the requests sent to the process and
  the output handed to the model. Each part is an invariant of the step relation, proved by rule
  induction.
\<close>

section \<open>What the steps keep\<close>

lemmas session_op_defs =
  mark_running_def commit_output_def complete_close_def complete_commit_def complete_deliver_def
  session_poll_def session_control_def force_for_shutdown_def should_send_def Let_def

definition output_events :: "rstring \<Rightarrow> lifecycle_event list \<Rightarrow> command_output_chunk list \<Rightarrow> bool" where
  "output_events session_id events log \<longleftrightarrow>
     list_all2 (\<lambda>event chunk. \<exists>truncated. event = EvOutput session_id chunk (ck_sequence chunk) truncated) events log"

definition sealed :: "observed_session_state \<Rightarrow> bool" where
  "sealed ob \<longleftrightarrow> tr_closed (ob_transcript ob) \<and> ob_live_output ob = None"

definition stage_ok :: "session_world \<Rightarrow> bool" where
  "stage_ok w \<longleftrightarrow>
     (let ob = wd_observed w in
      case wd_completing w of
        Idle \<Rightarrow>
          (is_terminal (ob_state ob) \<longleftrightarrow> ob_terminal_lifecycle_delivered ob)
          \<and> (is_terminal (ob_state ob) \<longrightarrow> ob_terminal_result ob \<noteq> None \<and> sealed ob)
      | Closing state result error \<Rightarrow>
          \<not> is_terminal (ob_state ob) \<and> \<not> ob_terminal_lifecycle_delivered ob \<and> is_terminal state
          \<and> sealed ob
      | Publishing result \<Rightarrow>
          is_terminal (ob_state ob) \<and> \<not> ob_terminal_lifecycle_delivered ob
          \<and> ob_terminal_result ob = Some result \<and> sealed ob
      | Published \<Rightarrow>
          is_terminal (ob_state ob) \<and> \<not> ob_terminal_lifecycle_delivered ob
          \<and> ob_terminal_result ob \<noteq> None \<and> sealed ob)"

definition told_terminal :: "session_world \<Rightarrow> bool" where
  "told_terminal w \<longleftrightarrow> wd_completing w = Published \<or> ob_terminal_lifecycle_delivered (wd_observed w)"

definition started_events :: "session_world \<Rightarrow> lifecycle_event list \<Rightarrow> bool" where
  "started_events w front \<longleftrightarrow>
     (front = [] \<and> wd_log w = [] \<and> \<not> wd_readers w \<or> (\<exists>snapshot. front = [EvStarted snapshot]))
     \<and> (ob_state (wd_observed w) = Starting \<longrightarrow> front = [])
     \<and> (ob_state (wd_observed w) = Running \<longrightarrow> front \<noteq> [])"

definition terminal_events :: "session_world \<Rightarrow> lifecycle_event list" where
  "terminal_events w =
     (if told_terminal w
      then [EvTerminal (authoritative_snapshot_from (wd_session w)) (the (ob_terminal_result (wd_observed w)))]
      else [])"

definition events_ok :: "session_world \<Rightarrow> bool" where
  "events_ok w \<longleftrightarrow>
     (if se_lifecycle_observer (wd_session w) then
        (\<exists>front middle. wd_events w = front @ middle @ terminal_events w
           \<and> started_events w front \<and> output_events (se_id (wd_session w)) middle (wd_log w))
      else wd_events w = [])"

lemma is_terminal_simps [simp]:
  "\<not> is_terminal Starting" "\<not> is_terminal Running" "is_terminal (Exited c)" "is_terminal Interrupted"
  "is_terminal TimedOut" "is_terminal Failed"
  by (simp_all add: is_terminal_def)

lemma closed_commit [simp]: "tr_closed t \<Longrightarrow> transcript_commit stream txt t = ([], t)"
  by (simp add: transcript_commit_def)

lemma closed_transcript [simp]: "tr_closed (transcript_close t)"
  by (simp add: transcript_close_def)

lemma dispatch_keeps:
  assumes "live_dispatch s = Some (message, t)"
  shows "ob_live_output (se_observed s) \<noteq> None" "se_lifecycle_observer t = se_lifecycle_observer s" "se_id t = se_id s"
    "ob_state (se_observed t) = ob_state (se_observed s)" "ob_transcript (se_observed t) = ob_transcript (se_observed s)"
    "ob_terminal_lifecycle_delivered (se_observed t) = ob_terminal_lifecycle_delivered (se_observed s)"
    "ob_terminal_result (se_observed t) = ob_terminal_result (se_observed s)"
    "se_output_cursor t = se_output_cursor s" "se_interrupt_requested t = se_interrupt_requested s"
    "se_control_open t = se_control_open s" "authoritative_snapshot_from t = authoritative_snapshot_from s"
  using assms
  by (auto simp: live_dispatch_def authoritative_snapshot_from_def Let_def split: option.splits list.splits command_session_state.split)

lemma stage_ok_step: "session_step w w' \<Longrightarrow> stage_ok w \<Longrightarrow> stage_ok w'"
proof (induction rule: session_step.induct)
  case (commit w stream piece committed events s)
  then show ?case
    by (cases "is_terminal (ob_state (wd_observed w))") (auto simp: stage_ok_def sealed_def session_op_defs split: prod.splits)
next
  case (dispatch w message s)
  with dispatch_keeps [OF dispatch(1)] show ?case
    by (auto simp: stage_ok_def sealed_def Let_def split: completing.splits)
next
  case (control c w answer s)
  then show ?case
    by (auto simp: stage_ok_def sealed_def session_op_defs split: completing.splits if_splits process_control.splits)
qed (auto simp: stage_ok_def sealed_def session_op_defs split: completing.splits if_splits)


lemma reachable_stage_ok: "reachable_session n w \<Longrightarrow> stage_ok w"
proof (induction rule: reachable_session.induct)
  case start
  show ?case by (simp add: stage_ok_def initial_world_def session_new_def)
qed (rule stage_ok_step)

text \<open>Only the steps of the process owner touch the observed state and the identity never changes.\<close>

lemma snapshot_eqI:
  assumes "se_observed t = se_observed s" "se_id t = se_id s" "se_scope_id t = se_scope_id s"
    "se_started_at t = se_started_at s" "se_projection t = se_projection s"
  shows "authoritative_snapshot_from t = authoritative_snapshot_from s" "snapshot_from t = snapshot_from s"
  using assms by (simp_all add: authoritative_snapshot_from_def snapshot_from_def)

lemma poll_keeps:
  assumes "session_poll m s = (answer, t)"
  shows "se_observed t = se_observed s" "se_id t = se_id s" "se_lifecycle_observer t = se_lifecycle_observer s"
    "authoritative_snapshot_from t = authoritative_snapshot_from s" "snapshot_from t = snapshot_from s"
  using assms by (auto simp: session_poll_def Let_def intro!: snapshot_eqI)

lemma control_keeps:
  assumes "session_control c s = (answer, t)"
  shows "se_observed t = se_observed s" "se_id t = se_id s" "se_lifecycle_observer t = se_lifecycle_observer s"
    "authoritative_snapshot_from t = authoritative_snapshot_from s" "snapshot_from t = snapshot_from s"
    "se_output_cursor t = se_output_cursor s"
  using assms
  by (auto simp: session_control_def Let_def split: if_splits process_control.splits intro!: snapshot_eqI)

lemma shutdown_keeps:
  assumes "force_for_shutdown s = (cs, t)"
  shows "se_observed t = se_observed s" "se_id t = se_id s" "se_lifecycle_observer t = se_lifecycle_observer s"
    "authoritative_snapshot_from t = authoritative_snapshot_from s" "snapshot_from t = snapshot_from s"
    "se_output_cursor t = se_output_cursor s"
  using assms
  by (auto simp: force_for_shutdown_def Let_def split: if_splits intro!: snapshot_eqI)

lemma channel_keeps [simp]:
  "authoritative_snapshot_from (s\<lparr>se_control := cs\<rparr>) = authoritative_snapshot_from s"
  "authoritative_snapshot_from (s\<lparr>se_control_open := b\<rparr>) = authoritative_snapshot_from s"
  "snapshot_from (s\<lparr>se_control := cs\<rparr>) = snapshot_from s"
  "snapshot_from (s\<lparr>se_control_open := b\<rparr>) = snapshot_from s"
  by (rule snapshot_eqI; simp)+

lemma reachable_transcript_run:
  "reachable_session n w \<Longrightarrow> transcript_run n (ob_transcript (wd_observed w)) (wd_log w)"
proof (induction rule: reachable_session.induct)
  case start
  show ?case by (simp add: initial_world_def session_new_def transcript_run.new)
next
  case (step w w')
  from step(2,1,3) show ?case
  proof (induction rule: session_step.induct)
    case (commit w stream piece committed events s)
    then show ?case by (auto simp: commit_output_def Let_def split: prod.splits intro: transcript_run.commit)
  next
    case (close w state result incomplete s error)
    then show ?case
      by (auto simp: complete_close_def Let_def split: if_splits intro!: transcript_run.close transcript_run.mark)
  qed (auto simp: mark_running_def complete_commit_def complete_deliver_def Let_def poll_keeps control_keeps
      shutdown_keeps dispatch_keeps split: if_splits)
qed


lemma events_ok_frame:
  assumes "events_ok w" and "wd_events w' = wd_events w" and "wd_log w' = wd_log w"
    and "se_lifecycle_observer (wd_session w') = se_lifecycle_observer (wd_session w)"
    and "se_id (wd_session w') = se_id (wd_session w)" and "terminal_events w' = terminal_events w"
    and "\<And>front. started_events w front \<Longrightarrow> started_events w' front"
  shows "events_ok w'"
  using assms unfolding events_ok_def by (simp split: if_splits) blast

lemma events_ok_extend:
  assumes "events_ok w" and "terminal_events w = []"
    and "wd_events w' = wd_events w @ (if se_lifecycle_observer (wd_session w) then outs @ terminal_events w' else [])"
    and "wd_log w' = wd_log w @ committed"
    and "se_lifecycle_observer (wd_session w') = se_lifecycle_observer (wd_session w)"
    and "se_id (wd_session w') = se_id (wd_session w)"
    and "se_lifecycle_observer (wd_session w) \<Longrightarrow> output_events (se_id (wd_session w)) outs committed"
    and "\<And>front. started_events w front \<Longrightarrow> started_events w' front"
  shows "events_ok w'"
proof (cases "se_lifecycle_observer (wd_session w)")
  case True
  with assms(1,2) obtain front middle where f: "wd_events w = front @ middle" "started_events w front"
    "output_events (se_id (wd_session w)) middle (wd_log w)"
    by (auto simp: events_ok_def)
  from f(3) assms(7) [OF True] have "output_events (se_id (wd_session w)) (middle @ outs) (wd_log w @ committed)"
    by (simp add: output_events_def list_all2_appendI)
  with True assms(3-6) f assms(8) show ?thesis
    unfolding events_ok_def by (intro if_P [THEN iffD2] exI [of _ front] exI [of _ "middle @ outs"]) auto
next
  case False
  with assms show ?thesis by (simp add: events_ok_def)
qed

lemma committed_events:
  assumes "commit_output stream piece s = (committed, events, t)"
  shows "se_lifecycle_observer t = se_lifecycle_observer s" "se_id t = se_id s"
    "ob_state (se_observed t) = ob_state (se_observed s)"
    "ob_terminal_lifecycle_delivered (se_observed t) = ob_terminal_lifecycle_delivered (se_observed s)"
    "se_lifecycle_observer s \<Longrightarrow> output_events (se_id s) events committed"
    "\<not> se_lifecycle_observer s \<Longrightarrow> events = []"
    "tr_closed (ob_transcript (se_observed s)) \<Longrightarrow> committed = [] \<and> events = []"
proof -
  have "output_events i (concat (map (\<lambda>chunk. [EvOutput i chunk (ck_sequence chunk) b]) cs)) cs" for i b cs
    by (induction cs) (auto simp: output_events_def)
  with assms show "se_lifecycle_observer s \<Longrightarrow> output_events (se_id s) events committed"
    by (auto simp: commit_output_def notify_lifecycle_def Let_def split: prod.splits)
qed (use assms in \<open>auto simp: commit_output_def notify_lifecycle_def Let_def split: prod.splits\<close>)

lemma commit_closed:
  assumes "commit_output stream piece s = (committed, events, t)" and "tr_closed (ob_transcript (se_observed s))"
    and "ob_live_output (se_observed s) = None"
  shows "t = s"
  using assms by (auto simp: commit_output_def Let_def)

lemma events_ok_step: "session_step w w' \<Longrightarrow> stage_ok w \<Longrightarrow> events_ok w \<Longrightarrow> events_ok w'"
proof (induction rule: session_step.induct)
  case (running w events s)
  show ?case
  proof (cases "ob_state (wd_observed w) = Starting")
    case True
    with running show ?thesis
      by (auto simp: events_ok_def started_events_def terminal_events_def told_terminal_def mark_running_def
          notify_lifecycle_def output_events_def stage_ok_def Let_def)
  next
    case False
    with running have "s = wd_session w" "events = []" by (simp_all add: mark_running_def)
    with running(5) show ?thesis by simp
  qed
next
  case (readers w)
  then show ?case
    by (elim events_ok_frame) (auto simp: terminal_events_def told_terminal_def started_events_def)
next
  case (commit w stream piece committed events s)
  show ?case
  proof (cases "is_terminal (ob_state (wd_observed w))")
    case True
    with commit(1,4) have "sealed (wd_observed w)" by (simp add: stage_ok_def Let_def)
    with commit(3) have "s = wd_session w" "committed = []" "events = []"
      using commit_closed committed_events(7) by (auto simp: sealed_def)
    with commit(5) show ?thesis by simp
  next
    case False
    with commit(1,4) have quiet: "terminal_events w = []" "\<not> ob_terminal_lifecycle_delivered (wd_observed w)"
      by (simp_all add: stage_ok_def terminal_events_def told_terminal_def Let_def)
    note keeps = committed_events [OF commit(3)]
    show ?thesis
      by (rule events_ok_extend [OF commit(5), of _ events committed])
        (use quiet keeps commit(1,2) in \<open>auto simp: terminal_events_def told_terminal_def started_events_def\<close>)
  qed
next
  case (dispatch w message s)
  with dispatch_keeps [OF dispatch(1)] show ?case
    by (elim events_ok_frame) (auto simp: terminal_events_def told_terminal_def started_events_def)
next
  case (close w state result incomplete s error)
  then show ?case
    by (elim events_ok_frame)
      (auto simp: terminal_events_def told_terminal_def started_events_def complete_close_def stage_ok_def sealed_def Let_def
        split: if_splits)
next
  case (store w state result error now)
  then show ?case
    by (elim events_ok_frame)
      (auto simp: terminal_events_def told_terminal_def started_events_def complete_commit_def stage_ok_def)
next
  case (notify w result)
  let ?w = "w\<lparr>wd_events := wd_events w @ complete_notify result (wd_session w), wd_completing := Published\<rparr>"
  have "terminal_events w = []" "ob_terminal_result (wd_observed w) = Some result"
    using notify(1,2) by (simp_all add: stage_ok_def terminal_events_def told_terminal_def Let_def)
  then show ?case
    by (intro events_ok_extend [OF notify(3), of ?w "[]" "[]"])
      (auto simp: terminal_events_def told_terminal_def started_events_def complete_notify_def
        notify_lifecycle_def output_events_def)
next
  case (deliver w)
  have "authoritative_snapshot_from (complete_deliver s) = authoritative_snapshot_from s" for s
    by (simp add: authoritative_snapshot_from_def complete_deliver_def Let_def split: command_session_state.split)
  with deliver show ?case
    by (elim events_ok_frame)
      (auto simp: terminal_events_def told_terminal_def started_events_def complete_deliver_def stage_ok_def)
next
  case (poll max_bytes w snapshot batch s)
  then show ?case
    by (elim events_ok_frame) (auto simp: terminal_events_def told_terminal_def started_events_def poll_keeps)
next
  case (control c w answer s)
  then show ?case
    by (elim events_ok_frame) (auto simp: terminal_events_def told_terminal_def started_events_def control_keeps)
next
  case (shutdown w cs s)
  then show ?case
    by (elim events_ok_frame) (auto simp: terminal_events_def told_terminal_def started_events_def shutdown_keeps)
next
  case (receive w c cs)
  then show ?case
    by (elim events_ok_frame) (auto simp: terminal_events_def told_terminal_def started_events_def)
next
  case (watcher_exit w)
  then show ?case
    by (elim events_ok_frame) (auto simp: terminal_events_def told_terminal_def started_events_def)
qed


lemma reachable_events_ok: "reachable_session n w \<Longrightarrow> events_ok w"
proof (induction rule: reachable_session.induct)
  case start
  show ?case
    by (simp add: events_ok_def initial_world_def session_new_def started_events_def terminal_events_def
        told_terminal_def output_events_def)
next
  case (step w w')
  then show ?case using events_ok_step reachable_stage_ok by blast
qed

section \<open>Properties\<close>

text \<open>
  C8: whatever the threads of the program do, the host sees the lifecycle of a
  session in order: at most one start, then every committed chunk exactly once in commit order under
  its own sequence number, then at most one end, which carries the final state and result; nothing
  follows it, and only a session that ends before its process runs has no start.
\<close>

theorem session_lifecycle_order:
  assumes "reachable_session n w" and "se_lifecycle_observer (wd_session w)"
  shows "\<exists>started outputs ended. wd_events w = started @ outputs @ ended
    \<and> (started = [] \<and> wd_log w = [] \<or> (\<exists>snapshot. started = [EvStarted snapshot]))
    \<and> (ob_state (wd_observed w) = Running \<longrightarrow> started \<noteq> [])
    \<and> output_events (se_id (wd_session w)) outputs (wd_log w)
    \<and> ended = (if wd_completing w = Published \<or> ob_terminal_lifecycle_delivered (wd_observed w)
               then [EvTerminal (authoritative_snapshot_from (wd_session w))
                       (the (ob_terminal_result (wd_observed w)))] else [])"
  using reachable_events_ok [OF assms(1)] assms(2)
  by (simp only: events_ok_def if_True terminal_events_def told_terminal_def started_events_def) blast

text \<open>
  C30: a reader sees a terminal state exactly when the end has been delivered to
  the host; from then on the state is terminal, the transcript is closed, the result is there, and the
  snapshot and the result it returns are those of the last event; before, both waits report a running
  session.
\<close>

theorem terminal_publication:
  assumes "reachable_session n w"
  shows "is_terminal (sn_state (snapshot_from (wd_session w))) = ob_terminal_lifecycle_delivered (wd_observed w)
    \<and> wait_start_outcome (wd_session w) =
        (if ob_terminal_lifecycle_delivered (wd_observed w)
         then OutcomeExited (authoritative_snapshot_from (wd_session w)) (the (ob_terminal_result (wd_observed w)))
         else OutcomeRunning (snapshot_from (wd_session w)))
    \<and> (ob_terminal_lifecycle_delivered (wd_observed w) \<and> se_lifecycle_observer (wd_session w) \<longrightarrow>
         (\<exists>snapshot result. suffix [EvTerminal snapshot result] (wd_events w)
            \<and> terminal_result (wd_session w) = Some (snapshot, result)))"
proof -
  let ?d = "ob_terminal_lifecycle_delivered (wd_observed w)"
  have st: "stage_ok w" using assms by (rule reachable_stage_ok)
  have "is_terminal (sn_state (snapshot_from (wd_session w))) = ?d"
    using st by (auto simp: stage_ok_def snapshot_from_def authoritative_snapshot_from_def Let_def
      split: completing.splits)
  moreover have pub: "ob_terminal_result (wd_observed w) \<noteq> None
      \<and> snapshot_from (wd_session w) = authoritative_snapshot_from (wd_session w)" if ?d
    using st that by (auto simp: stage_ok_def snapshot_from_def Let_def split: completing.splits)
  moreover from pub have "wait_start_outcome (wd_session w) =
      (if ?d then OutcomeExited (authoritative_snapshot_from (wd_session w)) (the (ob_terminal_result (wd_observed w)))
       else OutcomeRunning (snapshot_from (wd_session w)))"
    by (auto simp: wait_start_outcome_def Let_def)
  moreover have "?d \<and> se_lifecycle_observer (wd_session w) \<longrightarrow>
      (\<exists>snapshot result. suffix [EvTerminal snapshot result] (wd_events w)
         \<and> terminal_result (wd_session w) = Some (snapshot, result))"
    using reachable_events_ok [OF assms] pub
    by (auto simp: events_ok_def terminal_events_def told_terminal_def terminal_result_def suffix_def)
  ultimately show ?thesis by blast
qed

lemma delivered_step:
  assumes "session_step w w'" and "stage_ok w" and "ob_terminal_lifecycle_delivered (wd_observed w)"
  shows "wd_observed w' = wd_observed w \<and> wd_events w' = wd_events w \<and> wd_log w' = wd_log w
    \<and> snapshot_from (wd_session w') = snapshot_from (wd_session w)"
proof -
  have idle: "wd_completing w = Idle" "is_terminal (ob_state (wd_observed w))" "sealed (wd_observed w)"
    using assms(2,3) by (auto simp: stage_ok_def Let_def split: completing.splits)
  show ?thesis
    using assms(1)
  proof cases
    case (commit stream piece committed events s)
    with idle(3) have "s = wd_session w" "committed = []" "events = []"
      using commit_closed committed_events(7) by (auto simp: sealed_def)
    with commit show ?thesis by simp
  next
    case (dispatch message s)
    with dispatch_keeps(1) [OF dispatch(2)] idle(3) show ?thesis by (simp add: sealed_def)
  qed (use idle in \<open>auto simp: mark_running_def complete_close_def poll_keeps control_keeps shutdown_keeps Let_def
         split: if_splits\<close>)
qed

interpretation stage: step_settles session_step stage_ok "\<lambda>w. ob_terminal_lifecycle_delivered (wd_observed w)"
  "\<lambda>w. (wd_observed w, wd_events w, wd_log w, snapshot_from (wd_session w))" "(=)"
proof
  fix w w' assume step: "session_step w w'" "stage_ok w"
  then show "stage_ok w'" by (rule stage_ok_step)
  show "ob_terminal_lifecycle_delivered (wd_observed w') \<and>
      (wd_observed w', wd_events w', wd_log w', snapshot_from (wd_session w')) =
      (wd_observed w, wd_events w, wd_log w, snapshot_from (wd_session w))"
    if "ob_terminal_lifecycle_delivered (wd_observed w)"
    using delivered_step [OF step that] that by simp
qed simp_all

text \<open>
  Once the end of a session is delivered, no step changes what is observed
  of it: state, result, error, transcript, the events sent to the host and the snapshot stay as they are.
\<close>

theorem terminal_state_is_final:
  assumes "reachable_session n w" and "ob_terminal_lifecycle_delivered (wd_observed w)" and "session_step\<^sup>*\<^sup>* w w'"
  shows "wd_observed w' = wd_observed w \<and> wd_events w' = wd_events w \<and> wd_log w' = wd_log w
    \<and> snapshot_from (wd_session w') = snapshot_from (wd_session w)"
  using stage.settled_steps [OF assms(3) reachable_stage_ok [OF assms(1)] assms(2)] by simp

text \<open>
  However often the model and the host ask, the process is interrupted at most once,
  and exactly once when an interrupt was requested and the watcher still listens; a forced termination
  is always passed on.
\<close>

lemma interrupts_counted:
  "reachable_session n w \<Longrightarrow>
     count_list (wd_sent w) Interrupt \<le> (if se_interrupt_requested (wd_session w) then 1 else 0)
     \<and> (se_control_open (wd_session w) \<and> se_interrupt_requested (wd_session w) \<longrightarrow>
          count_list (wd_sent w) Interrupt = 1)"
proof (induction rule: reachable_session.induct)
  case start
  show ?case by (simp add: initial_world_def session_new_def)
next
  case (step w w')
  from step(2,3) show ?case
  proof (induction rule: session_step.induct)
    case (control c w answer s)
    then show ?case
      by (cases c) (auto simp: session_control_def should_send_def Let_def split: if_splits)
  next
    case (shutdown w cs s)
    then show ?case by (auto simp: force_for_shutdown_def Let_def split: if_splits)
  qed (auto simp: dispatch_keeps session_op_defs split: if_splits prod.splits)
qed

theorem one_interrupt:
  assumes "reachable_session n w"
  shows "count_list (wd_sent w) Interrupt \<le> 1
    \<and> (se_control_open (wd_session w) \<and> se_interrupt_requested (wd_session w) \<longrightarrow>
         count_list (wd_sent w) Interrupt = 1)
    \<and> (\<not> is_terminal (ob_state (wd_observed w)) \<and> se_control_open (wd_session w) \<longrightarrow>
         fst (session_control ForceTerminate (wd_session w)) = Inr [ForceTerminate])"
  using interrupts_counted [OF assms]
  by (auto simp: session_control_def should_send_def Let_def split: if_splits)

section \<open>Polling\<close>

definition polled_ok :: "session_world \<Rightarrow> bool" where
  "polled_ok w \<longleftrightarrow> delivered ck_sequence (wd_polled w) (se_output_cursor (wd_session w)) (wd_log w)
     (tr_truncated (ob_transcript (wd_observed w)))"

lemma polled_ok_poll:
  assumes "polled_ok w" and "transcript_holds (ob_transcript (wd_observed w)) (wd_log w)"
    and "session_poll m (wd_session w) = ((snapshot, batch), s)"
  shows "polled_ok (w\<lparr>wd_session := s, wd_polled := wd_polled w @ bt_chunks batch\<rparr>)"
proof -
  let ?t = "ob_transcript (wd_observed w)" and ?cursor = "se_output_cursor (wd_session w)"
  have batch: "batch = read_after ?t ?cursor m" and truncated: "bt_truncated_before batch = (tr_truncated ?t \<and> ?cursor < bt_latest_sequence batch)"
    and latest: "bt_latest_sequence batch = tr_latest_sequence ?t"
    using assms(3) by (auto simp: session_poll_def Let_def read_after_def)
  have "se_output_cursor s = (if bt_chunks (read_after ?t ?cursor m) \<noteq> [] then ck_sequence (last (bt_chunks (read_after ?t ?cursor m)))
      else if ?cursor < tr_latest_sequence ?t \<and> tr_truncated ?t then tr_latest_sequence ?t else ?cursor)"
    using assms(3) truncated latest unfolding batch by (auto simp: session_poll_def Let_def)
  from cursor.delivered_read [OF assms(2,1) [unfolded polled_ok_def] this] show ?thesis
    using poll_keeps(1) [OF assms(3)] by (simp add: polled_ok_def batch)
qed

lemma step_log_grows: "session_step w w' \<Longrightarrow> length (wd_log w) \<le> length (wd_log w')"
  by (induction rule: session_step.induct) auto

lemma polled_ok_frame:
  assumes "polled_ok w" and "wd_polled w' = wd_polled w" and "se_output_cursor (wd_session w') = se_output_cursor (wd_session w)"
    and "wd_log w' = wd_log w @ committed"
    and "tr_truncated (ob_transcript (wd_observed w)) \<Longrightarrow> tr_truncated (ob_transcript (wd_observed w'))"
  shows "polled_ok w'"
  using assms delivered_grows by (fastforce simp: polled_ok_def)

lemma reachable_polled_ok: "reachable_session n w \<Longrightarrow> length (wd_log w) < u64_max \<Longrightarrow> polled_ok w"
proof (induction rule: reachable_session.induct)
  case start
  show ?case by (simp add: polled_ok_def initial_world_def session_new_def delivered_start)
next
  case (step w w')
  have ok: "length (wd_log w) < u64_max" "polled_ok w"
    using step step_log_grows [OF step(2)] by auto
  from step(2) show ?case
  proof cases
    case (poll m snapshot batch s)
    have "transcript_holds (ob_transcript (wd_observed w)) (wd_log w)"
      using reachable_transcript_run [OF step(1)] ok(1) by (auto simp: transcript_holds_def)
    with poll show ?thesis using polled_ok_poll [OF ok(2)] by simp
  next
    case (commit stream piece committed events s)
    then show ?thesis
      by (intro polled_ok_frame [OF ok(2), of _ committed])
        (auto simp: commit_output_def Let_def commit_truncated split: prod.splits)
  qed (rule polled_ok_frame [OF ok(2), of _ "[]"];
       auto simp: mark_running_def complete_close_def complete_commit_def complete_deliver_def control_keeps
         shutdown_keeps dispatch_keeps mark_capture_truncated_def transcript_close_def Let_def split: if_splits)+
qed

text \<open>
  The polls of the model together never repeat a chunk and never go back; as long
  as the transcript has lost nothing, what they have handed out is exactly the output committed up to
  the cursor.
\<close>

theorem polls_deliver_once:
  assumes "reachable_session n w" and "length (wd_log w) < u64_max"
  shows "sorted_wrt (<) (map ck_sequence (wd_polled w))
    \<and> (\<not> tr_truncated (ob_transcript (wd_observed w)) \<longrightarrow>
         wd_polled w = take (se_output_cursor (wd_session w)) (wd_log w))"
  using reachable_polled_ok [OF assms] by (simp add: polled_ok_def delivered_def)

section \<open>Witnesses\<close>

text \<open>
  A session that starts, commits output around a poll, is interrupted and ends, and is polled again.
\<close>

definition example_projection :: session_projection where
  "example_projection = \<lparr>pj_command = S ''make'', pj_cwd = S ''/w''\<rparr>"

definition example_result :: execution_result where
  "example_result =
     \<lparr>rs_command = S ''make'', rs_cwd = S ''/w'', rs_exit_code = Some 0, rs_stdout = S ''ab'', rs_stderr = [],
      rs_timed_out = False, rs_cancelled = False, rs_duration_ms = 5, rs_stdout_truncated = False,
      rs_stderr_truncated = False, rs_output_capture = no_capture, rs_error = None\<rparr>"

text \<open>The moves of the example as functions of the state they start in.\<close>

definition do_running :: "session_world \<Rightarrow> session_world" where
  "do_running w = w\<lparr>wd_session := snd (mark_running (wd_session w)),
     wd_events := wd_events w @ fst (mark_running (wd_session w))\<rparr>"

definition do_commit :: "rstring \<Rightarrow> session_world \<Rightarrow> session_world" where
  "do_commit piece w =
     (case commit_output Stdout piece (wd_session w) of
        (committed, events, s) \<Rightarrow>
          w\<lparr>wd_session := s, wd_events := wd_events w @ events, wd_log := wd_log w @ committed\<rparr>)"

definition do_poll :: "session_world \<Rightarrow> session_world" where
  "do_poll w =
     (case session_poll 100 (wd_session w) of
        ((_, batch), s) \<Rightarrow> w\<lparr>wd_session := s, wd_polled := wd_polled w @ bt_chunks batch\<rparr>)"

definition do_control :: "session_world \<Rightarrow> session_world" where
  "do_control w =
     (case session_control Interrupt (wd_session w) of
        (answer, s) \<Rightarrow>
          w\<lparr>wd_session := s, wd_sent := wd_sent w @ (case answer of Inr cs \<Rightarrow> cs | Inl _ \<Rightarrow> [])\<rparr>)"

definition do_complete :: "session_world \<Rightarrow> session_world" where
  "do_complete w =
     (let w6 = w\<lparr>wd_session := the (complete_close example_result False (wd_session w)),
                  wd_completing := Closing Interrupted example_result None\<rparr>;
          w7 = w6\<lparr>wd_session := complete_commit Interrupted example_result None 9 (wd_session w6),
                  wd_completing := Publishing example_result\<rparr>;
          w8 = w7\<lparr>wd_events := wd_events w7 @ complete_notify example_result (wd_session w7),
                  wd_completing := Published\<rparr> in
      w8\<lparr>wd_session := complete_deliver (wd_session w8), wd_completing := Idle\<rparr>)"

lemma do_running_step:
  "wd_completing w = Idle \<Longrightarrow> \<not> wd_readers w \<Longrightarrow> reachable_session n w \<Longrightarrow> reachable_session n (do_running w)"
  unfolding do_running_def by (erule reachable_session.step) (rule session_step.running; simp)

lemma do_commit_step:
  assumes "wd_completing w = Idle" and "wd_readers w" and "reachable_session n w"
  shows "reachable_session n (do_commit piece w)"
  using reachable_session.step [OF assms(3) session_step.commit [OF assms(1,2)]]
  by (auto simp: do_commit_def split: prod.split)

lemma do_poll_step: "reachable_session n w \<Longrightarrow> reachable_session n (do_poll w)"
  by (auto simp: do_poll_def split: prod.split intro: reachable_session.step session_step.poll)

lemma do_control_step:
  assumes "\<not> control_blocks Interrupt (wd_session w)" and "reachable_session n w"
  shows "reachable_session n (do_control w)"
  using reachable_session.step [OF assms(2) session_step.control [OF assms(1)]]
  by (auto simp: do_control_def split: prod.split)

lemma do_complete_steps:
  assumes "wd_completing w = Idle" and "\<not> is_terminal (ob_state (wd_observed w))" and "reachable_session n w"
  shows "reachable_session n (do_complete w)"
proof -
  let ?w6 = "w\<lparr>wd_session := the (complete_close example_result False (wd_session w)),
                  wd_completing := Closing Interrupted example_result None\<rparr>"
  have "session_step w ?w6"
    using assms(1,2) by (intro session_step.close) (auto simp: complete_close_def Let_def)
  from reachable_session.step [OF assms(3) this]
  have "reachable_session n ?w6" .
  note w7 = reachable_session.step [OF this session_step.store [of ?w6 Interrupted example_result None 9]]
  note w8 = reachable_session.step [OF w7 session_step.notify [of _ example_result]]
  note w9 = reachable_session.step [OF w8 session_step.deliver]
  show ?thesis using w9 by (simp add: do_complete_def Let_def)
qed

definition ex_started :: session_world where
  "ex_started =
     (do_running (initial_world (S ''cmd_1'') (S ''scope'') example_projection 0 64 False True))\<lparr>wd_readers := True\<rparr>"

definition ex_polled :: session_world where
  "ex_polled = do_poll (do_commit (S ''a'') ex_started)"

definition ex_interrupted :: session_world where
  "ex_interrupted = do_control ex_polled"

definition ex_ended :: session_world where
  "ex_ended = do_complete ex_interrupted"

lemma ex_started_reachable: "reachable_session 64 ex_started"
proof -
  let ?w = "initial_world (S ''cmd_1'') (S ''scope'') example_projection 0 64 False True"
  have "reachable_session 64 (do_running ?w)"
    by (rule do_running_step [OF _ _ reachable_session.start]) (simp_all add: initial_world_def)
  moreover have "session_step (do_running ?w) ((do_running ?w)\<lparr>wd_readers := True\<rparr>)"
    by (rule session_step.readers) (simp_all add: do_running_def initial_world_def session_new_def mark_running_def Let_def)
  ultimately show ?thesis unfolding ex_started_def by (rule reachable_session.step)
qed

lemma ex_polled_reachable: "reachable_session 64 ex_polled"
proof -
  have "reachable_session 64 (do_commit (S ''a'') ex_started)"
    by (rule do_commit_step [OF _ _ ex_started_reachable]; code_simp)
  then show ?thesis unfolding ex_polled_def by (rule do_poll_step)
qed

definition ex_chunk :: command_output_chunk where
  "ex_chunk = \<lparr>ck_sequence = 1, ck_stream = Stdout, ck_text = S ''a''\<rparr>"

definition ex_transcript :: command_transcript where
  "ex_transcript = (transcript_new 64)\<lparr>tr_head := [ex_chunk], tr_head_bytes := 1, tr_latest_sequence := 1\<rparr>"

lemma ex_commit: "transcript_commit Stdout (S ''a'') (transcript_new 64) = ([ex_chunk], ex_transcript)"
  by code_simp

lemma ex_transcript_facts:
  "transcript_chunks ex_transcript = [ex_chunk]" "tr_latest_sequence ex_transcript = 1" "\<not> tr_truncated ex_transcript"
  by (simp_all add: ex_transcript_def transcript_chunks_def transcript_new_def Let_def)

lemma ex_polled_facts:
  "wd_completing ex_polled = Idle" "ob_state (wd_observed ex_polled) = Running" "wd_log ex_polled = [ex_chunk]"
  "\<not> tr_truncated (ob_transcript (wd_observed ex_polled))" "se_output_cursor (wd_session ex_polled) = 1"
  "\<not> se_interrupt_requested (wd_session ex_polled)" "se_control_open (wd_session ex_polled)"
  "se_control (wd_session ex_polled) = []" "se_lifecycle_observer (wd_session ex_polled)"
  "se_id (wd_session ex_polled) = S ''cmd_1''"
  by (simp_all add: ex_polled_def do_poll_def do_commit_def ex_started_def do_running_def initial_world_def
      session_new_def mark_running_def commit_output_def ex_commit session_poll_def read_after_def
      ex_transcript_facts ex_chunk_def Let_def)

lemma ex_interrupted_facts:
  "wd_completing ex_interrupted = Idle" "wd_observed ex_interrupted = wd_observed ex_polled"
  "wd_log ex_interrupted = wd_log ex_polled" "se_id (wd_session ex_interrupted) = S ''cmd_1''"
  "se_interrupt_requested (wd_session ex_interrupted)" "se_control_open (wd_session ex_interrupted)"
  "se_lifecycle_observer (wd_session ex_interrupted)"
  using ex_polled_facts
  by (simp_all add: ex_interrupted_def do_control_def session_control_def should_send_def Let_def)

lemma ex_interrupted_reachable: "reachable_session 64 ex_interrupted"
  unfolding ex_interrupted_def
  by (rule do_control_step [OF _ ex_polled_reachable]) (simp add: control_blocks_def ex_polled_facts)

lemma ex_ended_reachable: "reachable_session 64 ex_ended"
  unfolding ex_ended_def
  by (rule do_complete_steps [OF _ _ ex_interrupted_reachable])
    (simp_all add: ex_interrupted_facts ex_polled_facts)

lemma ex_ended_facts:
  "wd_completing ex_ended = Idle" "ob_terminal_lifecycle_delivered (wd_observed ex_ended)"
  "ob_terminal_result (wd_observed ex_ended) = Some example_result" "ob_state (wd_observed ex_ended) = Interrupted"
  "wd_log ex_ended = wd_log ex_polled" "se_lifecycle_observer (wd_session ex_ended)"
  "se_id (wd_session ex_ended) = S ''cmd_1''"
  using ex_interrupted_facts ex_polled_facts
  by (simp_all add: ex_ended_def do_complete_def complete_close_def complete_commit_def complete_deliver_def Let_def)

theorem session_lifecycle_order_witness:
  "\<exists>started outputs ended. wd_events ex_ended = started @ outputs @ ended
    \<and> started \<noteq> [] \<and> output_events (S ''cmd_1'') outputs (wd_log ex_ended) \<and> length (wd_log ex_ended) = 1
    \<and> length ended = 1"
proof -
  from session_lifecycle_order [OF ex_ended_reachable ex_ended_facts(6)] obtain started outputs ended where
    events: "wd_events ex_ended = started @ outputs @ ended"
    "started = [] \<and> wd_log ex_ended = [] \<or> (\<exists>snapshot. started = [EvStarted snapshot])"
    "output_events (se_id (wd_session ex_ended)) outputs (wd_log ex_ended)"
    "ended = (if wd_completing ex_ended = Published \<or> ob_terminal_lifecycle_delivered (wd_observed ex_ended)
              then [EvTerminal (authoritative_snapshot_from (wd_session ex_ended))
                      (the (ob_terminal_result (wd_observed ex_ended)))] else [])"
    by blast
  have len: "length (wd_log ex_ended) = 1" using ex_ended_facts(5) ex_polled_facts(3) by simp
  then have "started \<noteq> []" using events(2) by auto
  moreover have "length ended = 1" unfolding events(4) by (simp add: ex_ended_facts(2))
  ultimately show ?thesis using events(1,3) len ex_ended_facts(7)
    by (intro exI [of _ started] exI [of _ outputs] exI [of _ ended]) simp
qed

theorem terminal_publication_witness:
  "wait_start_outcome (wd_session ex_ended) =
     OutcomeExited (authoritative_snapshot_from (wd_session ex_ended)) example_result
   \<and> \<not> is_terminal (sn_state (snapshot_from (wd_session ex_interrupted)))"
  using terminal_publication [OF ex_ended_reachable] ex_ended_facts ex_interrupted_facts ex_polled_facts
  by (simp add: snapshot_from_def authoritative_snapshot_from_def Let_def)

theorem terminal_state_is_final_witness:
  "wd_observed (do_poll ex_ended) = wd_observed ex_ended \<and> wd_events (do_poll ex_ended) = wd_events ex_ended"
proof -
  have "session_step ex_ended (do_poll ex_ended)"
    unfolding do_poll_def by (auto split: prod.split intro: session_step.poll)
  with terminal_state_is_final [OF ex_ended_reachable] ex_ended_facts(2) show ?thesis by blast
qed

theorem one_interrupt_witness: "count_list (wd_sent ex_interrupted) Interrupt = 1"
  using one_interrupt [OF ex_interrupted_reachable] ex_interrupted_facts by simp

theorem polls_deliver_once_witness:
  "wd_polled ex_polled = take 1 (wd_log ex_polled) \<and> length (wd_polled ex_polled) = 1"
proof -
  have "length (wd_log ex_polled) < u64_max" by (simp add: u64_max_def ex_polled_facts)
  with polls_deliver_once [OF ex_polled_reachable] ex_polled_facts show ?thesis by simp
qed

end
