(* ===== verification/Session_Watcher.thy ===== *)
theory Session_Watcher
  imports Command_Session
begin

text \<open>
  The thread that owns the process of a command session: \<open>run_session_watcher\<close> and
  \<open>receive_capture\<close> of \<open>src/crates/core/src/command/session.rs\<close> with the signals of
  \<open>process_control.rs\<close>. The operating system, the clock and the channels are inputs: a tick is what
  one turn of the loop observes (the answer of the non-blocking wait, the clock at each place that
  reads it, the control message, and the answer of the blocking wait should the turn kill the
  process). The loop is a function of the list of ticks; it returns \<open>None\<close> when it is still running
  after all of them, and the theorems state when it must have ended.
\<close>

section \<open>Messages\<close>

definition from_code_points :: "nat list \<Rightarrow> rstring" where
  "from_code_points ns = map (\<lambda>n. if n < 256 then Ch (char_of n) else Wide (n - 256)) ns"

definition msg_wait :: rstring where
  "msg_wait = from_code_points [31561, 24453, 21629, 20196, 22833, 36133, 65306]"

definition msg_wait_timed_out :: rstring where
  "msg_wait_timed_out = from_code_points [31561, 24453, 36229, 26102, 21629, 20196, 22833, 36133, 65306]"

definition msg_wait_interrupted :: rstring where
  "msg_wait_interrupted = from_code_points [31561, 24453, 24050, 20013, 26029, 21629, 20196, 22833, 36133, 65306]"

definition msg_wait_terminated :: rstring where
  "msg_wait_terminated = from_code_points [31561, 24453, 24050, 32456, 27490, 21629, 20196, 22833, 36133, 65306]"

definition msg_read_prefix :: rstring where
  "msg_read_prefix = from_code_points [35835, 21462, 21629, 20196, 32]"

definition msg_drain_deadline :: rstring where
  "msg_drain_deadline = from_code_points [32, 36229, 36807, 26377, 38480, 25490, 31354, 26399, 38480, 12290]"

definition msg_reader_gone :: rstring where
  "msg_reader_gone = from_code_points [32, 30340, 32447, 31243, 24322, 24120, 36864, 20986, 12290]"

definition msg_hook_panicked :: rstring where
  "msg_hook_panicked = from_code_points [21629, 20196, 32456, 24577, 32467, 31639, 22238, 35843, 24322, 24120, 36864, 20986, 12290]"

section \<open>The loop\<close>

datatype termination_intent = IntentInterrupted | IntentTimedOut | IntentFailed

datatype received = ReceivedControl process_control | RecvTimeout | RecvDisconnected

datatype group_signal = SigInt | SigKill

text \<open>An exit status is the exit code, absent for a process ended by a signal. Times are milliseconds
  since the start of the process.\<close>

record watcher_tick =
  tk_try_wait :: "rstring + int option option"
  tk_elapsed :: nat
  tk_now :: nat
  tk_received :: received
  tk_received_at :: nat
  tk_wait :: "rstring + int option"

record watcher_exit =
  we_intent :: "termination_intent option"
  we_error :: "rstring option"
  we_status :: "int option option"
  we_signals :: "group_signal list"

definition get_or_insert :: "'a option \<Rightarrow> 'a \<Rightarrow> 'a option" where
  "get_or_insert x a = (case x of None \<Rightarrow> Some a | Some _ \<Rightarrow> x)"

text \<open>\<open>option.is_some_and(|at| now >= at)\<close>\<close>

definition due :: "nat option \<Rightarrow> nat \<Rightarrow> bool" where
  "due at now = (case at of None \<Rightarrow> False | Some t \<Rightarrow> t \<le> now)"

text \<open>Kill the group, wait for the leader; \<open>on_error\<close> is the prefix of the message for a failed wait.\<close>

definition kill_and_wait ::
  "termination_intent option \<Rightarrow> rstring option \<Rightarrow> watcher_tick \<Rightarrow> group_signal list \<Rightarrow> watcher_exit" where
  "kill_and_wait intent on_error tick signals =
     \<lparr>we_intent = intent,
      we_error = (case (tk_wait tick, on_error) of (Inl error, Some message) \<Rightarrow> Some (message @ error) | _ \<Rightarrow> None),
      we_status = (case tk_wait tick of Inr status \<Rightarrow> Some status | Inl _ \<Rightarrow> None),
      we_signals = signals @ [SigKill]\<rparr>"

fun watcher_loop ::
  "nat option \<Rightarrow> nat \<Rightarrow> termination_intent option \<Rightarrow> nat option \<Rightarrow> group_signal list \<Rightarrow> watcher_tick list
   \<Rightarrow> watcher_exit option" where
  "watcher_loop hard_timeout interrupt_grace intent deadline signals [] = None"
| "watcher_loop hard_timeout interrupt_grace intent deadline signals (tick # ticks) =
     (case tk_try_wait tick of
        Inr (Some status) \<Rightarrow>
          Some \<lparr>we_intent = intent, we_error = None, we_status = Some status, we_signals = signals @ [SigKill]\<rparr>
      | Inl error \<Rightarrow>
          Some ((kill_and_wait (get_or_insert intent IntentFailed) None tick signals)\<lparr>we_error := Some (msg_wait @ error)\<rparr>)
      | Inr None \<Rightarrow>
          if intent = None \<and> due hard_timeout (tk_elapsed tick) then
            Some (kill_and_wait (Some IntentTimedOut) (Some msg_wait_timed_out) tick signals)
          else if due deadline (tk_now tick) then
            Some (kill_and_wait intent (Some msg_wait_interrupted) tick signals)
          else
            (case tk_received tick of
               ReceivedControl Interrupt \<Rightarrow>
                 if intent = None then
                   watcher_loop hard_timeout interrupt_grace (Some IntentInterrupted)
                     (Some (tk_received_at tick + interrupt_grace)) (signals @ [SigInt]) ticks
                 else watcher_loop hard_timeout interrupt_grace intent deadline signals ticks
             | ReceivedControl ForceTerminate \<Rightarrow>
                 Some (kill_and_wait (get_or_insert intent IntentInterrupted) (Some msg_wait_terminated) tick signals)
             | RecvTimeout \<Rightarrow> watcher_loop hard_timeout interrupt_grace intent deadline signals ticks
             | RecvDisconnected \<Rightarrow>
                 Some (kill_and_wait (get_or_insert intent IntentInterrupted) None tick signals)))"

section \<open>Settlement\<close>

datatype capture_message =
    CaptureReady captured_process_output
  | CaptureFailed rstring
  | CaptureTimeout
  | CaptureDisconnected

definition receive_capture ::
  "rstring \<Rightarrow> capture_message \<Rightarrow> captured_process_output option \<times> rstring option" where
  "receive_capture stream message =
     (case message of
        CaptureReady capture \<Rightarrow> (Some capture, None)
      | CaptureFailed error \<Rightarrow> (None, Some error)
      | CaptureTimeout \<Rightarrow> (None, Some (msg_read_prefix @ stream @ msg_drain_deadline))
      | CaptureDisconnected \<Rightarrow> (None, Some (msg_read_prefix @ stream @ msg_reader_gone)))"

fun join_spaces :: "rstring list \<Rightarrow> rstring" where
  "join_spaces [] = []"
| "join_spaces [s] = s"
| "join_spaces (s # t # ts) = s @ S '' '' @ join_spaces (t # ts)"

definition opt_list :: "'a option \<Rightarrow> 'a list" where
  "opt_list x = (case x of None \<Rightarrow> [] | Some a \<Rightarrow> [a])"

definition watcher_result ::
  "managed_command_session \<Rightarrow> watcher_exit \<Rightarrow> nat \<Rightarrow> capture_message \<Rightarrow> capture_message \<Rightarrow> execution_result \<times> bool" where
  "watcher_result s out elapsed stdout_message stderr_message =
     (let (stdout_capture, stdout_error) = receive_capture (S ''stdout'') stdout_message;
          (stderr_capture, stderr_error) = receive_capture (S ''stderr'') stderr_message;
          incomplete = (stdout_capture = None \<or> stderr_capture = None);
          errors = opt_list (we_error out) @ opt_list stdout_error @ opt_list stderr_error in
      (\<lparr>rs_command = pj_command (se_projection s), rs_cwd = pj_cwd (se_projection s),
        rs_exit_code = Option.bind (we_status out) (\<lambda>status. status),
        rs_stdout = map_or [] co_preview stdout_capture, rs_stderr = map_or [] co_preview stderr_capture,
        rs_timed_out = (we_intent out = Some IntentTimedOut),
        rs_cancelled = (we_intent out = Some IntentInterrupted), rs_duration_ms = elapsed,
        rs_stdout_truncated = is_none_or stdout_capture co_preview_truncated,
        rs_stderr_truncated = is_none_or stderr_capture co_preview_truncated,
        rs_output_capture = from_optional_streams stdout_capture stderr_capture incomplete,
        rs_error = (if errors = [] then None else Some (join_spaces errors))\<rparr>,
       incomplete))"

text \<open>
  A completion hook may change the result and may panic; the result keeps the changes made before a
  panic.
\<close>

type_synonym completion_hook = "execution_result \<Rightarrow> execution_result \<times> bool"

definition apply_hook :: "completion_hook option \<Rightarrow> execution_result \<Rightarrow> execution_result" where
  "apply_hook hook result =
     (case hook of
        None \<Rightarrow> result
      | Some h \<Rightarrow>
          (case h result of
             (result, panicked) \<Rightarrow> if panicked then result\<lparr>rs_error := Some msg_hook_panicked\<rparr> else result))"

definition derive_state :: "termination_intent option \<Rightarrow> execution_result \<Rightarrow> command_session_state" where
  "derive_state intent result =
     (case intent of
        Some IntentInterrupted \<Rightarrow> Interrupted
      | Some IntentTimedOut \<Rightarrow> TimedOut
      | Some IntentFailed \<Rightarrow> Failed
      | None \<Rightarrow>
          if rs_cancelled result then Interrupted
          else if rs_timed_out result then TimedOut
          else if rs_error result \<noteq> None then Failed
          else Exited (rs_exit_code result))"

text \<open>The clock readings of the settlement: before and after the hook, and at the end.\<close>

record settle_clock =
  sc_elapsed :: nat
  sc_settled :: nat
  sc_wall :: nat

definition watcher_settle ::
  "watcher_exit \<Rightarrow> settle_clock \<Rightarrow> capture_message \<Rightarrow> capture_message \<Rightarrow> completion_hook option
   \<Rightarrow> managed_command_session \<Rightarrow> lifecycle_event list \<times> managed_command_session" where
  "watcher_settle out clock stdout_message stderr_message hook s =
     (let (result, incomplete) = watcher_result s out (sc_elapsed clock) stdout_message stderr_message;
          result = (apply_hook hook result)\<lparr>rs_duration_ms := sc_settled clock\<rparr> in
      snd (complete (derive_state (we_intent out) result) result (rs_error result) incomplete (sc_wall clock) s))"

definition run_session_watcher ::
  "nat option \<Rightarrow> nat \<Rightarrow> watcher_tick list \<Rightarrow> settle_clock \<Rightarrow> capture_message \<Rightarrow> capture_message
   \<Rightarrow> completion_hook option \<Rightarrow> managed_command_session
   \<Rightarrow> (lifecycle_event list \<times> managed_command_session) option" where
  "run_session_watcher hard_timeout interrupt_grace ticks clock stdout_message stderr_message hook s =
     map_option (\<lambda>out. watcher_settle out clock stdout_message stderr_message hook s)
       (watcher_loop hard_timeout interrupt_grace None None [] ticks)"


section \<open>The loop ends\<close>

lemma due_simps [simp]: "\<not> due None now" "due (Some t) now = (t \<le> now)"
  by (simp_all add: due_def)

lemma loop_ends_after_interrupt:
  assumes "tick \<in> set ticks" and "at \<le> tk_now tick" and "intent \<noteq> None"
  shows "watcher_loop hard_timeout grace intent (Some at) signals ticks \<noteq> None"
  using assms
proof (induction ticks arbitrary: signals)
  case (Cons first ticks)
  then show ?case
    by (cases "tick = first") (auto split: sum.split option.split received.split process_control.split)
qed simp

lemma loop_ends_after_timeout:
  assumes "\<And>tick. tick \<in> set ticks \<Longrightarrow> tk_elapsed tick \<le> tk_now tick \<and> tk_received_at tick \<le> tk_elapsed tick + slack"
    and "tick \<in> set ticks" and "timeout + slack + grace \<le> tk_elapsed tick"
  shows "watcher_loop (Some timeout) grace None None signals ticks \<noteq> None"
  using assms
proof (induction ticks arbitrary: signals)
  case (Cons first ticks)
  show ?case
  proof (cases "timeout \<le> tk_elapsed first")
    case True
    then show ?thesis by (auto split: sum.split option.split)
  next
    case False
    with Cons.prems(2,3) have later: "tick \<in> set ticks" by auto
    have "tk_received_at first + grace \<le> tk_now tick"
      using False Cons.prems(1) [of first] Cons.prems(1) [OF Cons.prems(2)] Cons.prems(3) by auto
    from loop_ends_after_interrupt [OF later this] Cons.IH [OF Cons.prems(1) later Cons.prems(3)] False
    show ?thesis by (auto split: sum.split option.split received.split process_control.split)
  qed
qed simp

lemma loop_ends_after_force:
  assumes "tick \<in> set ticks" and "tk_received tick \<in> {ReceivedControl ForceTerminate, RecvDisconnected}"
  shows "watcher_loop hard_timeout grace intent deadline signals ticks \<noteq> None"
  using assms
proof (induction ticks arbitrary: intent deadline signals)
  case (Cons first ticks)
  then show ?case
    by (cases "tick = first") (auto split: sum.split option.split received.split process_control.split)
qed simp

lemma loop_ends_after_received_interrupt:
  assumes "tk_received tick = ReceivedControl Interrupt" and "\<forall>t \<in> set before. tk_received_at t \<le> tk_received_at tick"
    and "later \<in> set after" and "tk_received_at tick + grace \<le> tk_now later"
  shows "watcher_loop hard_timeout grace None None signals (before @ tick # after) \<noteq> None"
  using assms(2)
proof (induction before arbitrary: signals)
  case Nil
  show ?case
    using loop_ends_after_interrupt [OF assms(3,4)] assms(1) by (auto split: sum.split option.split)
next
  case (Cons first before)
  have "later \<in> set (before @ tick # after)" using assms(3) by simp
  moreover have "tk_received_at first + grace \<le> tk_now later" using Cons.prems assms(4) by simp
  ultimately show ?case
    using loop_ends_after_interrupt Cons by (auto split: sum.split option.split received.split process_control.split)
qed

text \<open>A session is interrupted, and a later turn reads a clock that is past the grace.\<close>

definition interrupt_expires :: "nat \<Rightarrow> watcher_tick list \<Rightarrow> bool" where
  "interrupt_expires grace ticks \<longleftrightarrow>
     (\<exists>before tick after. ticks = before @ tick # after \<and> tk_received tick = ReceivedControl Interrupt
        \<and> (\<forall>t \<in> set before. tk_received_at t \<le> tk_received_at tick)
        \<and> (\<exists>later \<in> set after. tk_received_at tick + grace \<le> tk_now later))"

text \<open>
  C26: the thread that owns the process comes to an end, and its session is settled, in each of three cases. With a hard
  timeout it has ended by the first turn that starts after the timeout plus the grace for an interrupt plus the time one
  turn may wait for a message. After it received an interrupt, with or without a timeout, it has ended by the first later
  turn that reads a clock past the grace. And it has ended by the first turn that receives a forced termination or finds
  its session gone.
\<close>

theorem watcher_meets_deadlines:
  assumes "\<And>tick. tick \<in> set ticks \<Longrightarrow> tk_elapsed tick \<le> tk_now tick \<and> tk_received_at tick \<le> tk_elapsed tick + slack"
    and "(\<exists>timeout. hard_timeout = Some timeout \<and> (\<exists>tick \<in> set ticks. timeout + slack + interrupt_grace \<le> tk_elapsed tick))
      \<or> interrupt_expires interrupt_grace ticks
      \<or> (\<exists>tick \<in> set ticks. tk_received tick \<in> {ReceivedControl ForceTerminate, RecvDisconnected})"
  shows "\<exists>events t. run_session_watcher hard_timeout interrupt_grace ticks clock out_message err_message hook s
    = Some (events, t)"
proof -
  from assms(2) have "watcher_loop hard_timeout interrupt_grace None None [] ticks \<noteq> None"
  proof (elim disjE)
    assume "interrupt_expires interrupt_grace ticks"
    then show ?thesis unfolding interrupt_expires_def using loop_ends_after_received_interrupt by blast
  qed (use loop_ends_after_timeout [OF assms(1)] loop_ends_after_force in blast)+
  then show ?thesis by (auto simp: run_session_watcher_def)
qed

section \<open>What the loop reports\<close>

lemma loop_interrupted:
  assumes "watcher_loop hard_timeout grace (Some IntentInterrupted) deadline signals ticks = Some out"
  shows "we_intent out = Some IntentInterrupted \<and> we_signals out = signals @ [SigKill]"
  using assms
proof (induction ticks arbitrary: deadline)
  case (Cons first ticks)
  then show ?case
    by (auto simp: kill_and_wait_def get_or_insert_def
        split: sum.splits option.splits received.splits process_control.splits if_splits)
qed simp

definition explains :: "nat option \<Rightarrow> watcher_tick list \<Rightarrow> watcher_exit \<Rightarrow> bool" where
  "explains hard_timeout ticks out \<longleftrightarrow>
     (case we_intent out of
        None \<Rightarrow> we_error out = None \<and> we_status out \<noteq> None \<and> (\<exists>tick \<in> set ticks. tk_try_wait tick = Inr (we_status out))
      | Some IntentTimedOut \<Rightarrow> (\<exists>tick \<in> set ticks. due hard_timeout (tk_elapsed tick))
      | Some IntentInterrupted \<Rightarrow> (\<exists>tick \<in> set ticks. tk_received tick \<noteq> RecvTimeout)
      | Some IntentFailed \<Rightarrow> (\<exists>tick \<in> set ticks. \<exists>error. tk_try_wait tick = Inl error))"

lemma explains_Cons: "explains hard_timeout ticks out \<Longrightarrow> explains hard_timeout (tick # ticks) out"
  by (auto simp: explains_def split: option.splits termination_intent.splits)

lemma loop_explains:
  assumes "watcher_loop hard_timeout grace None None signals ticks = Some out"
  shows "explains hard_timeout ticks out
    \<and> (we_signals out = signals @ [SigKill]
       \<or> we_signals out = signals @ [SigInt, SigKill] \<and> we_intent out = Some IntentInterrupted)"
  using assms
proof (induction ticks)
  case (Cons first ticks)
  consider (quiet) "watcher_loop hard_timeout grace None None signals ticks = Some out"
    | (interrupt) "tk_received first = ReceivedControl Interrupt"
        "watcher_loop hard_timeout grace (Some IntentInterrupted) (Some (tk_received_at first + grace))
           (signals @ [SigInt]) ticks = Some out"
    | (exit) "explains hard_timeout (first # ticks) out" "we_signals out = signals @ [SigKill]"
    using Cons.prems
    by (auto simp: explains_def kill_and_wait_def get_or_insert_def
        split: sum.splits option.splits received.splits process_control.splits if_splits)
  then show ?case
  proof cases
    case quiet
    then show ?thesis using Cons.IH explains_Cons by blast
  next
    case interrupt
    then show ?thesis using loop_interrupted [OF interrupt(2)] by (auto simp: explains_def)
  qed simp
qed simp

text \<open>
  What the thread reports matches what it observed. The process group is
  killed exactly once, at the end, after at most one interrupt signal; a command is reported as ended on
  its own only with the status the operating system gave and no error; as timed out only after its hard
  timeout; as interrupted only after a request or the loss of its session; as failed only after a failed
  wait.
\<close>

theorem watcher_reports_why:
  assumes "watcher_loop hard_timeout interrupt_grace None None [] ticks = Some out"
  shows "explains hard_timeout ticks out
    \<and> (we_signals out = [SigKill]
       \<or> we_signals out = [SigInt, SigKill] \<and> we_intent out = Some IntentInterrupted)"
  using loop_explains [OF assms] by simp

section \<open>Settlement\<close>

lemma derive_state_terminal: "is_terminal (derive_state intent result)"
  by (auto simp: derive_state_def is_terminal_def split: option.split termination_intent.split)

text \<open>
  Settling publishes one result on which all views agree: the session is
  terminal and delivered, its error is the error of the result, the host gets exactly one end with that
  result, and an ordinary exit is reported only for a result without error, cancellation and timeout and
  with its exit code, even when the hook changed the result or panicked.
\<close>

theorem settled_state_agrees:
  assumes "run_session_watcher hard_timeout interrupt_grace ticks clock out_message err_message hook s = Some (events, t)"
    and "\<not> is_terminal (ob_state (se_observed s))"
  shows "\<exists>result. terminal_result t = Some (authoritative_snapshot_from t, result)
    \<and> is_terminal (ob_state (se_observed t)) \<and> ob_error (se_observed t) = rs_error result
    \<and> events = notify_lifecycle (EvTerminal (authoritative_snapshot_from t) result) s
    \<and> (\<forall>code. ob_state (se_observed t) = Exited code \<longrightarrow>
         code = rs_exit_code result \<and> rs_error result = None \<and> \<not> rs_cancelled result \<and> \<not> rs_timed_out result)
    \<and> (hook = None \<longrightarrow>
         rs_timed_out result = (ob_state (se_observed t) = TimedOut)
         \<and> rs_cancelled result = (ob_state (se_observed t) = Interrupted))"
proof -
  obtain out where out: "watcher_loop hard_timeout interrupt_grace None None [] ticks = Some out"
    and settle: "(events, t) = watcher_settle out clock out_message err_message hook s"
    using assms(1) by (auto simp: run_session_watcher_def)
  obtain result0 incomplete where r0: "watcher_result s out (sc_elapsed clock) out_message err_message = (result0, incomplete)"
    by (metis prod.exhaust)
  define result where "result = (apply_hook hook result0)\<lparr>rs_duration_ms := sc_settled clock\<rparr>"
  define state where "state = derive_state (we_intent out) result"
  from settle r0 have fin: "complete state result (rs_error result) incomplete (sc_wall clock) s = (True, events, t)"
    using assms(2) by (auto simp: watcher_settle_def result_def state_def complete_def complete_close_def Let_def)
  have "authoritative_snapshot_from (complete_deliver u) = authoritative_snapshot_from u" for u
    by (simp add: authoritative_snapshot_from_def complete_deliver_def Let_def split: command_session_state.split)
  with fin assms(2) have t: "ob_state (se_observed t) = state" "ob_error (se_observed t) = rs_error result"
    "terminal_result t = Some (authoritative_snapshot_from t, result)"
    "events = notify_lifecycle (EvTerminal (authoritative_snapshot_from t) result) s"
    using derive_state_terminal [of "we_intent out" result]
    by (auto simp: complete_def complete_close_def complete_commit_def complete_notify_def complete_deliver_def
        terminal_result_def snapshot_from_def notify_lifecycle_def authoritative_snapshot_from_def state_def Let_def
        split: command_session_state.splits)
  have "hook = None \<longrightarrow> rs_timed_out result = (state = TimedOut) \<and> rs_cancelled result = (state = Interrupted)"
    using r0 by (auto simp: result_def state_def apply_hook_def watcher_result_def derive_state_def Let_def
        split: option.splits termination_intent.splits prod.splits)
  moreover have "state = Exited code \<longrightarrow>
      code = rs_exit_code result \<and> rs_error result = None \<and> \<not> rs_cancelled result \<and> \<not> rs_timed_out result" for code
    by (auto simp: state_def derive_state_def split: option.splits termination_intent.splits if_splits)
  ultimately show ?thesis using t derive_state_terminal by (auto simp: state_def)
qed


section \<open>Witnesses\<close>

text \<open>A process that ignores an interrupt and is killed when the grace has passed.\<close>

definition example_tick :: "nat \<Rightarrow> received \<Rightarrow> watcher_tick" where
  "example_tick at message =
     \<lparr>tk_try_wait = Inr None, tk_elapsed = at, tk_now = at, tk_received = message, tk_received_at = at + 2,
      tk_wait = Inr None\<rparr>"

definition example_ticks :: "watcher_tick list" where
  "example_ticks =
     [example_tick 0 RecvTimeout, example_tick 4 (ReceivedControl Interrupt), example_tick 8 RecvTimeout,
      example_tick 40 RecvTimeout]"

definition example_clock :: settle_clock where
  "example_clock = \<lparr>sc_elapsed = 41, sc_settled = 42, sc_wall = 1042\<rparr>"

definition watched_session :: managed_command_session where
  "watched_session =
     snd (mark_running (session_new (S ''cmd_1'') (S ''scope'') \<lparr>pj_command = S ''sleep'', pj_cwd = S ''/w''\<rparr> 0 64 False True))"

theorem watcher_meets_deadlines_witness:
  "\<exists>events t. run_session_watcher (Some 10) 5 example_ticks example_clock CaptureTimeout CaptureTimeout None watched_session
     = Some (events, t)"
proof (rule watcher_meets_deadlines [where slack = 2])
  show "(\<exists>timeout. Some 10 = Some timeout \<and> (\<exists>tick \<in> set example_ticks. timeout + 2 + 5 \<le> tk_elapsed tick))
      \<or> interrupt_expires 5 example_ticks
      \<or> (\<exists>tick \<in> set example_ticks. tk_received tick \<in> {ReceivedControl ForceTerminate, RecvDisconnected})"
    by (simp add: example_ticks_def example_tick_def)
qed (auto simp: example_ticks_def example_tick_def)

lemma example_loop:
  "watcher_loop (Some 10) 5 None None [] example_ticks =
     Some \<lparr>we_intent = Some IntentInterrupted, we_error = None, we_status = Some None, we_signals = [SigInt, SigKill]\<rparr>"
  by (simp add: example_ticks_def example_tick_def kill_and_wait_def)

theorem watcher_reports_why_witness:
  "explains (Some 10) example_ticks
     \<lparr>we_intent = Some IntentInterrupted, we_error = None, we_status = Some None, we_signals = [SigInt, SigKill]\<rparr>"
  using watcher_reports_why [OF example_loop] by blast

theorem settled_state_agrees_witness:
  "\<exists>events t result. run_session_watcher (Some 10) 5 example_ticks example_clock CaptureTimeout CaptureTimeout None
       watched_session = Some (events, t)
     \<and> terminal_result t = Some (authoritative_snapshot_from t, result) \<and> ob_error (se_observed t) = rs_error result"
proof -
  have run: "run_session_watcher (Some 10) 5 example_ticks example_clock CaptureTimeout CaptureTimeout None
       watched_session =
     Some (watcher_settle
       \<lparr>we_intent = Some IntentInterrupted, we_error = None, we_status = Some None, we_signals = [SigInt, SigKill]\<rparr>
       example_clock CaptureTimeout CaptureTimeout None watched_session)" (is "_ = Some ?r")
    by (simp add: run_session_watcher_def example_loop)
  have "\<not> is_terminal (ob_state (se_observed watched_session))"
    by (simp add: watched_session_def mark_running_def session_new_def is_terminal_def Let_def)
  from settled_state_agrees [OF _ this, of "Some 10" 5 example_ticks example_clock CaptureTimeout CaptureTimeout None
      "fst ?r" "snd ?r"] run
  show ?thesis by (metis prod.collapse)
qed

end
