(* ===== verification/Session_Manager.thy ===== *)
theory Session_Manager
  imports Session_Watcher "HOL-Library.Multiset"
begin

text \<open>
  The registry of command sessions, \<open>src/crates/core/src/command/session_manager.rs\<close>: its
  configuration, the quotas on active sessions, the retention of ended ones, starting a command and
  shutting down. The registry is one value behind a lock, so every operation is a function of the
  manager's state; a step relation runs them in any order, together with whatever the sessions do on
  their own. The source keeps the sessions in a hash map, whose iteration order is unspecified: the
  model keeps the pairs in iteration order and a step may permute them at any time.
\<close>

section \<open>Configuration\<close>

definition DEFAULT_INITIAL_YIELD_MS :: nat where "DEFAULT_INITIAL_YIELD_MS = 10000"
definition MIN_INITIAL_YIELD_MS :: nat where "MIN_INITIAL_YIELD_MS = 10"
definition MAX_INITIAL_YIELD_MS :: nat where "MAX_INITIAL_YIELD_MS = 30000"
definition DEFAULT_COMMAND_TRANSCRIPT_BYTES :: nat where "DEFAULT_COMMAND_TRANSCRIPT_BYTES = 256 * 1024"
definition DEFAULT_COMMAND_POLL_BYTES :: nat where "DEFAULT_COMMAND_POLL_BYTES = 256 * 1024"
definition MIN_COMMAND_POLL_BYTES :: nat where "MIN_COMMAND_POLL_BYTES = 1024"

record manager_config =
  mc_max_active_sessions :: nat
  mc_max_active_sessions_per_scope :: nat
  mc_max_retained_terminal_sessions :: nat
  mc_transcript_bytes :: nat
  mc_poll_bytes :: nat
  mc_drain_grace :: nat
  mc_interrupt_grace :: nat
  mc_shutdown_grace :: nat

definition config_default :: manager_config where
  "config_default =
     \<lparr>mc_max_active_sessions = 32, mc_max_active_sessions_per_scope = 8, mc_max_retained_terminal_sessions = 256,
      mc_transcript_bytes = DEFAULT_COMMAND_TRANSCRIPT_BYTES, mc_poll_bytes = DEFAULT_COMMAND_POLL_BYTES,
      mc_drain_grace = 1000, mc_interrupt_grace = 500, mc_shutdown_grace = 3000\<rparr>"

definition config_validate :: "manager_config \<Rightarrow> command_session_error + unit" where
  "config_validate c =
     (if mc_max_active_sessions c = 0 \<or> mc_max_active_sessions_per_scope c = 0
         \<or> mc_max_active_sessions c < mc_max_active_sessions_per_scope c
         \<or> mc_max_retained_terminal_sessions c = 0 \<or> mc_transcript_bytes c < 2
         \<or> mc_poll_bytes c < MIN_COMMAND_POLL_BYTES \<or> mc_drain_grace c = 0 \<or> mc_interrupt_grace c = 0
         \<or> mc_shutdown_grace c = 0
      then Inl InvalidConfiguration else Inr ())"

definition normalized_yield :: "nat \<Rightarrow> nat" where
  "normalized_yield initial_yield = min (max initial_yield MIN_INITIAL_YIELD_MS) MAX_INITIAL_YIELD_MS"

section \<open>State\<close>

record registry_entry =
  en_session :: managed_command_session
  en_active :: bool

type_synonym session_table = "(rstring \<times> registry_entry) list"

record manager_state =
  mg_config :: manager_config
  mg_accepting_starts :: bool
  mg_sessions :: session_table
  mg_active_sessions :: nat
  mg_active_by_scope :: "rstring \<Rightarrow> nat option"

definition manager_new :: "manager_config \<Rightarrow> command_session_error + manager_state" where
  "manager_new c =
     (case config_validate c of
        Inl e \<Rightarrow> Inl e
      | Inr _ \<Rightarrow>
          Inr \<lparr>mg_config = c, mg_accepting_starts = True, mg_sessions = [], mg_active_sessions = 0,
               mg_active_by_scope = Map.empty\<rparr>)"

text \<open>\<open>HashMap::insert\<close>, \<open>get_mut\<close> and \<open>remove\<close>.\<close>

definition table_insert :: "rstring \<Rightarrow> registry_entry \<Rightarrow> session_table \<Rightarrow> session_table" where
  "table_insert i e t = filter (\<lambda>(j, _). j \<noteq> i) t @ [(i, e)]"

definition table_update :: "rstring \<Rightarrow> (registry_entry \<Rightarrow> registry_entry) \<Rightarrow> session_table \<Rightarrow> session_table" where
  "table_update i f t = map (\<lambda>(j, e). if j = i then (j, f e) else (j, e)) t"

definition table_remove :: "rstring \<Rightarrow> session_table \<Rightarrow> session_table" where
  "table_remove i t = filter (\<lambda>(j, _). j \<noteq> i) t"

section \<open>Operations\<close>

definition ended_key :: "registry_entry \<Rightarrow> nat" where
  "ended_key e = (case sn_ended_at (snapshot_from (en_session e)) of None \<Rightarrow> 0 | Some at \<Rightarrow> at)"

definition prune_terminal :: "nat \<Rightarrow> session_table \<Rightarrow> session_table" where
  "prune_terminal max_retained t =
     (let terminal_count = length (filter (\<lambda>(_, e). \<not> en_active e) t);
          remove = terminal_count - (max_retained - 1) in
      if remove = 0 then t
      else
        let terminal = map (\<lambda>(i, e). (ended_key e, i)) (filter (\<lambda>(_, e). \<not> en_active e) t);
            terminal = sort_key fst terminal in
        fold (\<lambda>(_, i) t. table_remove i t) (take remove terminal) t)"

definition reserve ::
  "managed_command_session \<Rightarrow> manager_state \<Rightarrow> (command_session_error + unit) \<times> manager_state" where
  "reserve s m =
     (if \<not> mg_accepting_starts m then (Inl ManagerShuttingDown, m)
      else
        let m = m\<lparr>mg_sessions := prune_terminal (mc_max_retained_terminal_sessions (mg_config m)) (mg_sessions m)\<rparr>;
            scope_active = (case mg_active_by_scope m (se_scope_id s) of None \<Rightarrow> 0 | Some n \<Rightarrow> n) in
        if mc_max_active_sessions (mg_config m) \<le> mg_active_sessions m then (Inl GlobalLimitReached, m)
        else if mc_max_active_sessions_per_scope (mg_config m) \<le> scope_active then (Inl ScopeLimitReached, m)
        else
          (Inr (),
           m\<lparr>mg_active_sessions := mg_active_sessions m + 1,
             mg_active_by_scope := (mg_active_by_scope m)(se_scope_id s \<mapsto> scope_active + 1),
             mg_sessions := table_insert (se_id s) \<lparr>en_session = s, en_active = True\<rparr> (mg_sessions m)\<rparr>))"

definition mark_terminal :: "rstring \<Rightarrow> manager_state \<Rightarrow> manager_state" where
  "mark_terminal i m =
     (case map_of (mg_sessions m) i of
        None \<Rightarrow> m
      | Some e \<Rightarrow>
          if \<not> en_active e then m
          else
            let scope_id = se_scope_id (en_session e);
                by_scope = mg_active_by_scope m in
            m\<lparr>mg_sessions := table_update i (\<lambda>e. e\<lparr>en_active := False\<rparr>) (mg_sessions m),
              mg_active_sessions := mg_active_sessions m - 1,
              mg_active_by_scope :=
                (case by_scope scope_id of
                   None \<Rightarrow> by_scope
                 | Some active \<Rightarrow> if active - 1 = 0 then by_scope(scope_id := None) else by_scope(scope_id \<mapsto> active - 1))\<rparr>)"

definition remove_terminal :: "rstring \<Rightarrow> manager_state \<Rightarrow> (command_session_error + bool) \<times> manager_state" where
  "remove_terminal i m =
     (case map_of (mg_sessions m) i of
        None \<Rightarrow> (Inl NotFound, m)
      | Some e \<Rightarrow>
          if en_active e then (Inr False, m)
          else (Inr True, m\<lparr>mg_sessions := table_remove i (mg_sessions m)\<rparr>))"

definition lookup :: "rstring \<Rightarrow> manager_state \<Rightarrow> command_session_error + managed_command_session" where
  "lookup i m = (case map_of (mg_sessions m) i of None \<Rightarrow> Inl NotFound | Some e \<Rightarrow> Inr (en_session e))"

text \<open>The session behind an entry is shared: an operation on it is seen through the registry.\<close>

definition with_session ::
  "rstring \<Rightarrow> (managed_command_session \<Rightarrow> 'a \<times> managed_command_session) \<Rightarrow> manager_state
   \<Rightarrow> (command_session_error + 'a) \<times> manager_state" where
  "with_session i f m =
     (case lookup i m of
        Inl e \<Rightarrow> (Inl e, m)
      | Inr s \<Rightarrow>
          (case f s of
             (a, t) \<Rightarrow> (Inr a, m\<lparr>mg_sessions := table_update i (\<lambda>e. e\<lparr>en_session := t\<rparr>) (mg_sessions m)\<rparr>)))"

definition manager_poll ::
  "rstring \<Rightarrow> manager_state \<Rightarrow> (command_session_error + (session_snapshot \<times> command_output_batch)) \<times> manager_state" where
  "manager_poll i m = with_session i (session_poll (mc_poll_bytes (mg_config m))) m"

definition manager_read_output ::
  "rstring \<Rightarrow> nat \<Rightarrow> manager_state \<Rightarrow> command_session_error + (session_snapshot \<times> command_output_batch)" where
  "manager_read_output i after_sequence m =
     (case lookup i m of
        Inl e \<Rightarrow> Inl e
      | Inr s \<Rightarrow> Inr (session_read_output after_sequence (mc_poll_bytes (mg_config m)) s))"

definition manager_snapshot :: "rstring \<Rightarrow> manager_state \<Rightarrow> command_session_error + session_snapshot" where
  "manager_snapshot i m = (case lookup i m of Inl e \<Rightarrow> Inl e | Inr s \<Rightarrow> Inr (snapshot_from s))"

definition manager_terminal_result ::
  "rstring \<Rightarrow> manager_state \<Rightarrow> command_session_error + (session_snapshot \<times> execution_result) option" where
  "manager_terminal_result i m = (case lookup i m of Inl e \<Rightarrow> Inl e | Inr s \<Rightarrow> Inr (terminal_result s))"

definition manager_control ::
  "process_control \<Rightarrow> rstring \<Rightarrow> manager_state
   \<Rightarrow> (command_session_error + (command_session_error + process_control list)) \<times> manager_state" where
  "manager_control c i m = with_session i (session_control c) m"

definition manager_list :: "rstring option \<Rightarrow> manager_state \<Rightarrow> session_snapshot list" where
  "manager_list scope m =
     (let sessions = map (\<lambda>(_, e). en_session e)
            (filter (\<lambda>(_, e). is_none_or scope (\<lambda>scope. se_scope_id (en_session e) = scope)) (mg_sessions m)) in
      sort_key sn_started_at (map snapshot_from sessions))"

text \<open>
  \<open>terminate_all\<close>: the sessions it asks to stop, with the request delivered to them; and the report,
  from the states in which its waits end.
\<close>

definition active_ids :: "manager_state \<Rightarrow> rstring list" where
  "active_ids m = map fst (filter (\<lambda>(_, e). en_active e) (mg_sessions m))"

definition terminate_all :: "manager_state \<Rightarrow> rstring list \<times> manager_state" where
  "terminate_all m =
     (active_ids m,
      m\<lparr>mg_sessions := map (\<lambda>(i, e).
           if en_active e then (i, e\<lparr>en_session := snd (force_for_shutdown (en_session e))\<rparr>) else (i, e)) (mg_sessions m)\<rparr>)"

record termination_report =
  rp_requested :: nat
  rp_terminated :: nat
  rp_still_running :: "rstring list"

definition termination_report_of :: "rstring list \<Rightarrow> (rstring \<Rightarrow> managed_command_session) \<Rightarrow> termination_report" where
  "termination_report_of ids later =
     \<lparr>rp_requested = length ids,
      rp_terminated = length (filter (\<lambda>i. terminal_result (later i) \<noteq> None) ids),
      rp_still_running = filter (\<lambda>i. terminal_result (later i) = None) ids\<rparr>"

definition stop_accepting :: "manager_state \<Rightarrow> manager_state" where
  "stop_accepting m = m\<lparr>mg_accepting_starts := False\<rparr>"

definition manager_shutdown :: "manager_state \<Rightarrow> rstring list \<times> manager_state" where
  "manager_shutdown m = terminate_all (stop_accepting m)"

definition immediate_terminal_outcome :: "rstring \<Rightarrow> rstring \<Rightarrow> nat \<Rightarrow> execution_result \<Rightarrow> start_outcome" where
  "immediate_terminal_outcome session_id scope_id timestamp execution =
     (let state = (if rs_cancelled execution then Interrupted
                   else if rs_timed_out execution then TimedOut
                   else if rs_error execution \<noteq> None then Failed
                   else Exited (rs_exit_code execution)) in
      OutcomeExited
        \<lparr>sn_session_id = session_id, sn_scope_id = scope_id, sn_state = state, sn_started_at = timestamp,
         sn_ended_at = Some timestamp, sn_exit_code = rs_exit_code execution, sn_latest_output_sequence = 0,
         sn_output_truncated = md_truncated_at_source (rs_output_capture execution),
         sn_projection = \<lparr>pj_command = rs_command execution, pj_cwd = rs_cwd execution\<rparr>,
         sn_error = rs_error execution\<rparr>
        execution)"

section \<open>Starting a command\<close>

text \<open>
  \<open>start_plan_with_observers\<close> up to the wait for its first output. What the operating system answers
  is an input: the spawn fails, the child lacks a pipe, or it runs; and the watcher thread may fail to
  start. \<open>StartedRunning\<close> is the state in which the wait for the start outcome begins.
\<close>

definition msg_spawn_failed :: rstring where
  "msg_spawn_failed = from_code_points [21551, 21160, 21629, 20196, 22833, 36133, 65306]"

definition msg_no_stdout :: rstring where
  "msg_no_stdout = from_code_points [26080, 27861, 35835, 21462, 21629, 20196, 32] @ S ''stdout'' @ from_code_points [12290]"

definition msg_no_stderr :: rstring where
  "msg_no_stderr = from_code_points [26080, 27861, 35835, 21462, 21629, 20196, 32] @ S ''stderr'' @ from_code_points [12290]"

definition msg_watcher_failed :: rstring where
  "msg_watcher_failed = from_code_points [21551, 21160, 21629, 20196] @ S '' watcher '' @ from_code_points [22833, 36133, 65306]"

datatype spawn_answer = SpawnError rstring | NoStdout | NoStderr | Spawned "rstring option"

datatype start_answer =
    StartFailed command_session_error
  | StartExited session_snapshot execution_result
  | StartedRunning
  | StartPanicked

definition update_session ::
  "rstring \<Rightarrow> (managed_command_session \<Rightarrow> managed_command_session) \<Rightarrow> manager_state \<Rightarrow> manager_state" where
  "update_session i f m =
     m\<lparr>mg_sessions := table_update i (\<lambda>e. e\<lparr>en_session := f (en_session e)\<rparr>) (mg_sessions m)\<rparr>"

definition settle_start ::
  "rstring \<Rightarrow> (managed_command_session \<Rightarrow> bool \<times> lifecycle_event list \<times> managed_command_session)
   \<Rightarrow> managed_command_session \<Rightarrow> manager_state \<Rightarrow> lifecycle_event list \<times> managed_command_session \<times> manager_state" where
  "settle_start i f s m =
     (let (_, events, t) = f s in (events, t, mark_terminal i (update_session i (\<lambda>_. t) m)))"

definition exited_answer :: "managed_command_session \<Rightarrow> start_answer" where
  "exited_answer t =
     (case terminal_result t of
        Some (snapshot, execution) \<Rightarrow> StartExited snapshot execution
      | None \<Rightarrow> StartPanicked)"

definition start_plan ::
  "rstring \<Rightarrow> rstring \<Rightarrow> session_projection \<Rightarrow> nat \<Rightarrow> bool \<Rightarrow> bool \<Rightarrow> bool \<Rightarrow> spawn_answer \<Rightarrow> nat \<Rightarrow> manager_state
   \<Rightarrow> start_answer \<times> lifecycle_event list \<times> manager_state" where
  "start_plan session_id scope_id projection started_at output_observer lifecycle_observer cancelled answer now m =
     (if \<not> mg_accepting_starts m then (StartFailed ManagerShuttingDown, [], m)
      else
        let s = session_new session_id scope_id projection started_at (mc_transcript_bytes (mg_config m))
                  output_observer lifecycle_observer in
        case reserve s m of
          (Inl e, m) \<Rightarrow> (StartFailed e, [], m)
        | (Inr _, m) \<Rightarrow>
            if cancelled then
              let (events, t, m) = settle_start session_id (cancel_before_running now) s m in
              (exited_answer t, events, m)
            else
              let failed = (\<lambda>message.
                    let (events, _, m) = settle_start session_id (fail_before_running message now) s m in
                    (StartFailed (SpawnFailed message), events, m)) in
              (case answer of
                 SpawnError error \<Rightarrow> failed (msg_spawn_failed @ error)
               | NoStdout \<Rightarrow> failed msg_no_stdout
               | NoStderr \<Rightarrow> failed msg_no_stderr
               | Spawned watcher_error \<Rightarrow>
                   let (started, s) = mark_running s;
                       m = update_session session_id (\<lambda>_. s) m in
                   (case watcher_error of
                      None \<Rightarrow> (StartedRunning, started, m)
                    | Some error \<Rightarrow>
                        let (events, t, m) =
                              settle_start session_id (fail_before_running (msg_watcher_failed @ error) now) s m in
                        (exited_answer t, started @ events, m))))"


section \<open>Pruning\<close>

definition tally :: "(registry_entry \<Rightarrow> bool) \<Rightarrow> session_table \<Rightarrow> nat" where
  "tally P t = length (filter (\<lambda>(_, e). P e) t)"

lemma tally_simps [simp]:
  "tally P [] = 0" "tally P ((i, e) # t) = (if P e then 1 else 0) + tally P t" "tally P (t @ u) = tally P t + tally P u"
  by (simp_all add: tally_def)

lemma tally_split: "length t = tally en_active t + tally (\<lambda>e. \<not> en_active e) t"
  by (induction t) auto

abbreviation table_ids :: "session_table \<Rightarrow> rstring list" where
  "table_ids t \<equiv> map fst t"

lemma fold_table_remove: "fold (\<lambda>(_, i) t. table_remove i t) xs t = filter (\<lambda>(j, _). j \<notin> snd ` set xs) t"
proof (induction xs arbitrary: t)
  case (Cons x xs)
  have "filter (\<lambda>(j, _). j \<notin> snd ` set xs) (table_remove (snd x) t) = filter (\<lambda>(j, _). j \<notin> snd ` set (x # xs)) t"
    unfolding table_remove_def filter_filter by (rule filter_cong) auto
  with Cons.IH show ?case by (cases x) simp
qed simp

definition doomed :: "nat \<Rightarrow> session_table \<Rightarrow> (nat \<times> rstring) list" where
  "doomed max_retained t =
     take (tally (\<lambda>e. \<not> en_active e) t - (max_retained - 1))
       (sort_key fst (map (\<lambda>(i, e). (ended_key e, i)) (filter (\<lambda>(_, e). \<not> en_active e) t)))"

lemma prune_terminal_filter: "prune_terminal k t = filter (\<lambda>(j, _). j \<notin> snd ` set (doomed k t)) t"
  by (simp add: prune_terminal_def doomed_def tally_def fold_table_remove Let_def)

lemma doomed_inactive:
  assumes "(at, i) \<in> set (doomed k t)"
  shows "\<exists>e. (i, e) \<in> set t \<and> \<not> en_active e \<and> at = ended_key e"
  using in_set_takeD [OF assms [unfolded doomed_def]] by auto

lemma prune_keeps_active:
  assumes "distinct (table_ids t)" and "(i, e) \<in> set t" and "en_active e"
  shows "(i, e) \<in> set (prune_terminal k t)"
proof -
  have "i \<notin> snd ` set (doomed k t)"
  proof
    assume "i \<in> snd ` set (doomed k t)"
    then obtain f where "(i, f) \<in> set t" "\<not> en_active f" using doomed_inactive by fastforce
    with eq_key_imp_eq_value [OF assms(1,2)] assms(3) show False by blast
  qed
  with assms(2) show ?thesis by (simp add: prune_terminal_filter)
qed

lemma tally_prune:
  assumes "distinct (table_ids t)" and "\<And>e. P e \<Longrightarrow> en_active e"
  shows "tally P (prune_terminal k t) = tally P t"
proof -
  have "filter (\<lambda>(_, e). P e) (prune_terminal k t) = filter (\<lambda>(_, e). P e) t"
    unfolding prune_terminal_filter filter_filter
    using prune_keeps_active [OF assms(1)] assms(2) by (intro filter_cong) (auto simp: prune_terminal_filter)
  then show ?thesis by (simp add: tally_def)
qed

lemma retained_count:
  assumes "distinct (table_ids t)"
  shows "tally (\<lambda>e. \<not> en_active e) (prune_terminal k t) = min (tally (\<lambda>e. \<not> en_active e) t) (k - 1)"
proof -
  let ?dead = "filter (\<lambda>(_, e). \<not> en_active e) t" and ?n = "tally (\<lambda>e. \<not> en_active e) t"
  let ?gone = "snd ` set (doomed k t)"
  have ids: "distinct (table_ids ?dead)" using assms by (simp add: distinct_map_filter)
  let ?sorted = "sort_key fst (map (\<lambda>(i, e). (ended_key e, i)) ?dead)"
  have "mset (map snd ?sorted) = mset (table_ids ?dead)"
    by (simp add: mset_map image_mset.compositionality comp_def case_prod_beta)
  then have "distinct (map snd ?sorted)" using ids by (metis mset_eq_imp_distinct_iff)
  then have "distinct (map snd (doomed k t))" by (simp add: doomed_def distinct_take flip: take_map)
  then have "card ?gone = length (doomed k t)" by (metis distinct_card length_map list.set_map)
  also have "\<dots> = min (?n - (k - 1)) ?n" by (simp add: doomed_def tally_def)
  finally have card_gone: "card ?gone = ?n - (k - 1)" by simp
  have sub: "?gone \<subseteq> set (table_ids ?dead)" using doomed_inactive by (force simp: image_iff)
  have "tally (\<lambda>e. \<not> en_active e) (prune_terminal k t) = length (filter (\<lambda>i. i \<notin> ?gone) (table_ids ?dead))"
    unfolding tally_def prune_terminal_filter filter_map filter_filter length_map
    by (intro arg_cong [of _ _ length] filter_cong) (simp_all add: case_prod_beta conj_commute)
  also have "\<dots> = card (set (table_ids ?dead) - ?gone)"
  proof -
    have "set (filter (\<lambda>i. i \<notin> ?gone) (table_ids ?dead)) = set (table_ids ?dead) - ?gone" by auto
    moreover have "distinct (filter (\<lambda>i. i \<notin> ?gone) (table_ids ?dead))" using ids by (rule distinct_filter)
    ultimately show ?thesis using distinct_card by metis
  qed
  also have "\<dots> = ?n - (?n - (k - 1))"
    using sub card_gone ids by (simp add: card_Diff_subset distinct_card tally_def del: set_map)
  finally show ?thesis by simp
qed

lemma pruned_oldest:
  assumes "distinct (table_ids t)" and "(i, e) \<in> set t" and "(i, e) \<notin> set (prune_terminal k t)"
    and "(j, f) \<in> set (prune_terminal k t)" and "\<not> en_active f"
  shows "ended_key e \<le> ended_key f"
proof -
  let ?sorted = "sort_key fst (map (\<lambda>(i, e). (ended_key e, i)) (filter (\<lambda>(_, e). \<not> en_active e) t))"
  let ?n = "tally (\<lambda>e. \<not> en_active e) t - (k - 1)"
  have j: "j \<notin> snd ` set (doomed k t)" "(j, f) \<in> set t" using assms(4) by (auto simp: prune_terminal_filter)
  then have "(ended_key f, j) \<in> set ?sorted" "(ended_key f, j) \<notin> set (take ?n ?sorted)"
    using assms(5) by (force simp: doomed_def)+
  then have later: "(ended_key f, j) \<in> set (drop ?n ?sorted)"
    by (metis Un_iff append_take_drop_id set_append)
  have "i \<in> snd ` set (doomed k t)" using assms(2,3) by (auto simp: prune_terminal_filter)
  then obtain at where at: "(at, i) \<in> set (doomed k t)" by auto
  with doomed_inactive eq_key_imp_eq_value [OF assms(1,2)] have "at = ended_key e" by blast
  with at have "(ended_key e, i) \<in> set (take ?n ?sorted)" by (simp add: doomed_def)
  moreover have "sorted (map fst (take ?n ?sorted @ drop ?n ?sorted))" by simp
  ultimately show ?thesis using later by (fastforce simp: sorted_append simp del: append_take_drop_id)
qed


section \<open>Accounting\<close>

definition in_scope :: "rstring \<Rightarrow> registry_entry \<Rightarrow> bool" where
  "in_scope scope e = (en_active e \<and> se_scope_id (en_session e) = scope)"

lemma in_scope_active: "in_scope scope e \<Longrightarrow> en_active e"
  by (simp add: in_scope_def)

definition manager_inv :: "manager_state \<Rightarrow> bool" where
  "manager_inv m \<longleftrightarrow>
     (let c = mg_config m; t = mg_sessions m in
      config_validate c = Inr () \<and> distinct (table_ids t)
      \<and> mg_active_sessions m = tally en_active t \<and> tally en_active t \<le> mc_max_active_sessions c
      \<and> (\<forall>scope. mg_active_by_scope m scope = (if tally (in_scope scope) t = 0 then None else Some (tally (in_scope scope) t)))
      \<and> (\<forall>scope. tally (in_scope scope) t \<le> mc_max_active_sessions_per_scope c)
      \<and> length t \<le> mc_max_retained_terminal_sessions c - 1 + mc_max_active_sessions c)"

lemma manager_invI:
  assumes "manager_inv m" and "mg_config m' = mg_config m" and "distinct (table_ids (mg_sessions m'))"
    and "mg_active_sessions m' = mg_active_sessions m" and "mg_active_by_scope m' = mg_active_by_scope m"
    and "tally en_active (mg_sessions m') = tally en_active (mg_sessions m)"
    and "\<And>scope. tally (in_scope scope) (mg_sessions m') = tally (in_scope scope) (mg_sessions m)"
    and "length (mg_sessions m') \<le> length (mg_sessions m)"
  shows "manager_inv m'"
  using assms by (auto simp: manager_inv_def Let_def)

lemma manager_inv_new: "manager_new c = Inr m \<Longrightarrow> manager_inv m"
  by (auto simp: manager_new_def manager_inv_def split: sum.splits)

lemma prune_distinct: "distinct (table_ids t) \<Longrightarrow> distinct (table_ids (prune_terminal k t))"
  by (simp add: prune_terminal_filter distinct_map_filter)

lemma prune_length: "length (prune_terminal k t) \<le> length t"
  by (simp add: prune_terminal_filter)

lemma manager_inv_prune:
  assumes "manager_inv m"
  shows "manager_inv (m\<lparr>mg_sessions := prune_terminal k (mg_sessions m)\<rparr>)"
proof -
  have d: "distinct (table_ids (mg_sessions m))" using assms by (simp add: manager_inv_def Let_def)
  show ?thesis
    by (rule manager_invI [OF assms])
      (simp_all add: tally_prune [OF d] tally_prune [OF d in_scope_active] prune_distinct [OF d] prune_length)
qed

lemma table_insert_fresh: "i \<notin> set (table_ids t) \<Longrightarrow> table_insert i e t = t @ [(i, e)]"
  by (force simp: table_insert_def filter_id_conv)

definition scope_count :: "rstring \<Rightarrow> manager_state \<Rightarrow> nat" where
  "scope_count scope m = (case mg_active_by_scope m scope of None \<Rightarrow> 0 | Some n \<Rightarrow> n)"

lemma scope_count_tally: "manager_inv m \<Longrightarrow> scope_count scope m = tally (in_scope scope) (mg_sessions m)"
  by (simp add: manager_inv_def scope_count_def Let_def)

definition admitted :: "managed_command_session \<Rightarrow> manager_state \<Rightarrow> manager_state" where
  "admitted s m =
     m\<lparr>mg_active_sessions := mg_active_sessions m + 1,
       mg_active_by_scope := (mg_active_by_scope m)(se_scope_id s \<mapsto> scope_count (se_scope_id s) m + 1),
       mg_sessions := table_insert (se_id s) \<lparr>en_session = s, en_active = True\<rparr> (mg_sessions m)\<rparr>"

lemma manager_inv_admitted:
  assumes "manager_inv m" and "se_id s \<notin> set (table_ids (mg_sessions m))"
    and "mg_active_sessions m < mc_max_active_sessions (mg_config m)"
    and "scope_count (se_scope_id s) m < mc_max_active_sessions_per_scope (mg_config m)"
    and "tally (\<lambda>e. \<not> en_active e) (mg_sessions m) \<le> mc_max_retained_terminal_sessions (mg_config m) - 1"
  shows "manager_inv (admitted s m)"
proof -
  let ?t = "mg_sessions m" and ?u = "mg_sessions (admitted s m)"
  have u: "?u = ?t @ [(se_id s, \<lparr>en_session = s, en_active = True\<rparr>)]"
    using assms(2) by (simp add: admitted_def table_insert_fresh)
  have scopes: "tally (in_scope c) ?u = (if c = se_scope_id s then scope_count c m + 1 else scope_count c m)" for c
    using scope_count_tally [OF assms(1)] by (simp add: u in_scope_def)
  have "length ?u \<le> mc_max_retained_terminal_sessions (mg_config m) - 1 + mc_max_active_sessions (mg_config m)"
    using assms(1,3,5) tally_split [of ?t] by (simp add: u manager_inv_def Let_def)
  moreover have "mg_active_by_scope (admitted s m) c = (if tally (in_scope c) ?u = 0 then None else Some (tally (in_scope c) ?u))" for c
    using assms(1) scopes [of c] scope_count_tally [OF assms(1), of c] by (simp add: admitted_def manager_inv_def Let_def)
  moreover have "tally (in_scope c) ?u \<le> mc_max_active_sessions_per_scope (mg_config m)" for c
    using assms(1,4) scopes [of c] scope_count_tally [OF assms(1), of c] by (simp add: manager_inv_def Let_def)
  moreover have "distinct (table_ids ?u)" "tally en_active ?u = mg_active_sessions m + 1"
    using assms(1,2) by (simp_all add: u manager_inv_def Let_def)
  moreover have "mg_active_sessions (admitted s m) = mg_active_sessions m + 1" "mg_config (admitted s m) = mg_config m"
    by (simp_all add: admitted_def)
  ultimately show ?thesis using assms(1,3) by (simp add: manager_inv_def Let_def)
qed

definition pruned :: "manager_state \<Rightarrow> manager_state" where
  "pruned m = m\<lparr>mg_sessions := prune_terminal (mc_max_retained_terminal_sessions (mg_config m)) (mg_sessions m)\<rparr>"

lemma reserve_cases:
  "reserve s m =
     (if \<not> mg_accepting_starts m then (Inl ManagerShuttingDown, m)
      else if mc_max_active_sessions (mg_config m) \<le> mg_active_sessions m then (Inl GlobalLimitReached, pruned m)
      else if mc_max_active_sessions_per_scope (mg_config m) \<le> scope_count (se_scope_id s) m
      then (Inl ScopeLimitReached, pruned m)
      else (Inr (), admitted s (pruned m)))"
  by (simp add: reserve_def pruned_def admitted_def scope_count_def Let_def)

lemma manager_inv_reserve:
  assumes "manager_inv m" and "se_id s \<notin> set (table_ids (mg_sessions m))" and "reserve s m = (answer, m')"
  shows "manager_inv m'"
proof -
  have d: "distinct (table_ids (mg_sessions m))" using assms(1) by (simp add: manager_inv_def Let_def)
  have pruned: "manager_inv (pruned m)" unfolding pruned_def by (rule manager_inv_prune [OF assms(1)])
  have "se_id s \<notin> set (table_ids (mg_sessions (pruned m)))"
    using assms(2) by (auto simp: pruned_def prune_terminal_filter)
  moreover have "scope_count c (pruned m) = scope_count c m" "mg_active_sessions (pruned m) = mg_active_sessions m"
    "mg_config (pruned m) = mg_config m" for c
    by (simp_all add: pruned_def scope_count_def)
  moreover have "tally (\<lambda>e. \<not> en_active e) (mg_sessions (pruned m)) \<le> mc_max_retained_terminal_sessions (mg_config m) - 1"
    by (simp add: pruned_def retained_count [OF d])
  ultimately show ?thesis
    using assms(1,3) pruned manager_inv_admitted [OF pruned, of s] by (auto simp: reserve_cases not_le split: if_splits)
qed

lemma tally_update:
  assumes "distinct (table_ids t)" and "map_of t i = Some e"
  shows "tally P (table_update i f t) + (if P e then 1 else 0) = tally P t + (if P (f e) then 1 else 0)"
  using assms
proof (induction t)
  case (Cons x t)
  have "table_update i f t = t" if "i \<notin> set (table_ids t)"
    using that by (force simp: table_update_def intro: map_idI)
  with Cons show ?case by (cases x) (auto simp: table_update_def split: if_splits)
qed simp

lemma table_update_ids [simp]: "table_ids (table_update i f t) = table_ids t" "length (table_update i f t) = length t"
  by (simp_all add: table_update_def case_prod_beta comp_def if_distrib cong: if_cong)

lemma manager_inv_mark_terminal:
  assumes "manager_inv m"
  shows "manager_inv (mark_terminal i m)"
proof (cases "\<exists>e. map_of (mg_sessions m) i = Some e \<and> en_active e")
  case True
  then obtain e where e: "map_of (mg_sessions m) i = Some e" "en_active e" by blast
  let ?m = "mark_terminal i m" and ?t = "mg_sessions m" and ?scope = "se_scope_id (en_session e)"
  have d: "distinct (table_ids ?t)" using assms by (simp add: manager_inv_def Let_def)
  have u: "mg_sessions ?m = table_update i (\<lambda>e. e\<lparr>en_active := False\<rparr>) ?t"
    using e by (simp add: mark_terminal_def Let_def)
  note tally = tally_update [OF d e(1), of _ "\<lambda>e. e\<lparr>en_active := False\<rparr>"]
  have active: "tally en_active (mg_sessions ?m) + 1 = tally en_active ?t" using tally [of en_active] e(2) by (simp add: u)
  have scope: "tally (in_scope c) (mg_sessions ?m) + (if c = ?scope then 1 else 0) = tally (in_scope c) ?t" for c
    using tally [of "in_scope c"] e(2) by (simp add: u in_scope_def eq_commute)
  have "mg_active_by_scope ?m c =
      (if tally (in_scope c) (mg_sessions ?m) = 0 then None else Some (tally (in_scope c) (mg_sessions ?m)))" for c
    using assms e scope [of c] by (auto simp: mark_terminal_def manager_inv_def Let_def split: if_splits)
  moreover have "mg_config ?m = mg_config m" "mg_active_sessions ?m = mg_active_sessions m - 1"
    using e by (simp_all add: mark_terminal_def Let_def)
  moreover have "tally (in_scope c) (mg_sessions ?m) \<le> mc_max_active_sessions_per_scope (mg_config m)" for c
    using assms scope [of c] by (simp add: manager_inv_def Let_def) (metis add_leD1)
  ultimately show ?thesis using assms active by (simp add: manager_inv_def Let_def u)
next
  case False
  then show ?thesis using assms by (auto simp: mark_terminal_def split: option.split)
qed


section \<open>All operations in any order\<close>

text \<open>
  \<open>progress\<close> is anything a session does on its own, or that is done to it through the registry: its
  identity and scope never change. A new session has an identifier that is not in the registry.
\<close>

inductive manager_step :: "manager_state \<Rightarrow> manager_state \<Rightarrow> bool" where
  reserve: "se_id s \<notin> set (table_ids (mg_sessions m)) \<Longrightarrow> reserve s m = (answer, m') \<Longrightarrow> manager_step m m'"
| mark_terminal: "manager_step m (mark_terminal i m)"
| remove_terminal: "remove_terminal i m = (answer, m') \<Longrightarrow> manager_step m m'"
| progress: "(\<And>s. se_scope_id (f s) = se_scope_id s) \<Longrightarrow> manager_step m (update_session i f m)"
| terminate: "terminate_all m = (ids, m') \<Longrightarrow> manager_step m m'"
| stop_accepting: "manager_step m (stop_accepting m)"
| permute: "mset t = mset (mg_sessions m) \<Longrightarrow> manager_step m (m\<lparr>mg_sessions := t\<rparr>)"

lemma tally_map:
  assumes "\<And>i e. P (snd (f (i, e))) = P e"
  shows "tally P (map f t) = tally P t"
  using assms by (induction t) (auto simp: tally_def case_prod_beta)

lemma tally_mset: "mset t = mset u \<Longrightarrow> tally P t = tally P u"
  unfolding tally_def by (metis mset_filter size_mset)

lemma force_for_shutdown_scope [simp]: "se_scope_id (snd (force_for_shutdown s)) = se_scope_id s"
  by (simp add: force_for_shutdown_def Let_def)

lemma manager_inv_remove:
  assumes "manager_inv m" and "remove_terminal i m = (answer, m')"
  shows "manager_inv m'"
proof (cases "\<exists>e. map_of (mg_sessions m) i = Some e \<and> \<not> en_active e")
  case True
  then obtain e where e: "map_of (mg_sessions m) i = Some e" "\<not> en_active e" by blast
  have d: "distinct (table_ids (mg_sessions m))" using assms(1) by (simp add: manager_inv_def Let_def)
  have "tally P (table_remove i (mg_sessions m)) = tally P (mg_sessions m)" if "\<And>e. P e \<Longrightarrow> en_active e" for P
    unfolding tally_def table_remove_def filter_filter
    using e that d by (intro arg_cong [of _ _ length] filter_cong) (auto dest: map_of_is_SomeI [OF d])
  note tally = this [of en_active] this [OF in_scope_active]
  from assms(2) e have "m' = m\<lparr>mg_sessions := table_remove i (mg_sessions m)\<rparr>" by (simp add: remove_terminal_def)
  then show ?thesis
    using d by (intro manager_invI [OF assms(1)])
      (simp_all add: tally, simp_all add: table_remove_def distinct_map_filter)
next
  case False
  with assms show ?thesis by (auto simp: remove_terminal_def split: option.splits)
qed

lemma manager_inv_same_sessions:
  assumes "manager_inv m" and "\<And>i e. fst (f (i, e)) = i \<and> en_active (snd (f (i, e))) = en_active e
      \<and> se_scope_id (en_session (snd (f (i, e)))) = se_scope_id (en_session e)"
  shows "manager_inv (m\<lparr>mg_sessions := map f (mg_sessions m)\<rparr>)"
proof -
  have "table_ids (map f (mg_sessions m)) = table_ids (mg_sessions m)"
    using assms(2) by (auto simp: comp_def)
  moreover have "distinct (table_ids (mg_sessions m))" using assms(1) by (simp add: manager_inv_def Let_def)
  ultimately have "distinct (table_ids (map f (mg_sessions m)))" by metis
  then show ?thesis
    using assms(2) by (intro manager_invI [OF assms(1)]) (simp_all add: tally_map in_scope_def)
qed

lemma manager_inv_step: "manager_step m m' \<Longrightarrow> manager_inv m \<Longrightarrow> manager_inv m'"
proof (induction rule: manager_step.induct)
  case (reserve s m answer m')
  then show ?case using manager_inv_reserve by blast
next
  case (mark_terminal m i)
  then show ?case by (rule manager_inv_mark_terminal)
next
  case (remove_terminal i m answer m')
  then show ?case using manager_inv_remove by blast
next
  case (progress f m i)
  then show ?case
    unfolding update_session_def table_update_def by (intro manager_inv_same_sessions) auto
next
  case (terminate m ids m')
  then have m': "m' = m\<lparr>mg_sessions := map (\<lambda>(i, e).
      if en_active e then (i, e\<lparr>en_session := snd (force_for_shutdown (en_session e))\<rparr>) else (i, e)) (mg_sessions m)\<rparr>"
    by (simp add: terminate_all_def)
  show ?case unfolding m' by (rule manager_inv_same_sessions [OF terminate(2)]) simp
next
  case (stop_accepting m)
  then show ?case by (simp add: stop_accepting_def manager_inv_def)
next
  case (permute t m)
  then have "distinct (table_ids t)"
    by (metis manager_inv_def mset_eq_imp_distinct_iff mset_map)
  with permute show ?case
    using mset_eq_length [OF permute(1)] tally_mset [OF permute(1)]
    by (intro manager_invI [OF permute(2)]) simp_all
qed

interpretation quotas: step_invariant manager_step manager_inv
  by unfold_locales (rule manager_inv_step)


section \<open>Properties\<close>

text \<open>
  C19: in every state a validly configured manager can reach, its counters are exact (the
  number of active sessions, in total and for every scope, with no entry for a scope without one), no
  quota is exceeded, and the number of sessions it holds at all is bounded by the configuration.
\<close>

theorem session_quotas:
  assumes "manager_new c = Inr m0" and "manager_step\<^sup>*\<^sup>* m0 m"
  shows "mg_active_sessions m = tally en_active (mg_sessions m)
    \<and> mg_active_sessions m \<le> mc_max_active_sessions (mg_config m)
    \<and> (\<forall>scope. mg_active_by_scope m scope =
         (if tally (in_scope scope) (mg_sessions m) = 0 then None else Some (tally (in_scope scope) (mg_sessions m))))
    \<and> (\<forall>scope. tally (in_scope scope) (mg_sessions m) \<le> mc_max_active_sessions_per_scope (mg_config m))
    \<and> length (mg_sessions m) < mc_max_retained_terminal_sessions (mg_config m) + mc_max_active_sessions (mg_config m)"
  using quotas.inv_steps [OF assms(2) manager_inv_new [OF assms(1)]]
  by (auto simp: manager_inv_def Let_def config_validate_def split: if_splits)

text \<open>
  A start is refused exactly when the manager is shutting down or a quota is used up,
  in that order; otherwise the session is registered as active. Ended sessions are pruned unless the
  manager is shutting down, active ones are never touched, at most one less than the configured number
  of ended ones is kept, and every one dropped ended no later than every one kept.
\<close>

theorem reserve_decides:
  assumes "manager_inv m" and "se_id s \<notin> set (table_ids (mg_sessions m))" and "reserve s m = (answer, m')"
  shows "answer =
      (if \<not> mg_accepting_starts m then Inl ManagerShuttingDown
       else if tally en_active (mg_sessions m) = mc_max_active_sessions (mg_config m) then Inl GlobalLimitReached
       else if tally (in_scope (se_scope_id s)) (mg_sessions m) = mc_max_active_sessions_per_scope (mg_config m)
       then Inl ScopeLimitReached else Inr ())
    \<and> (answer = Inr () \<longrightarrow> map_of (mg_sessions m') (se_id s) = Some \<lparr>en_session = s, en_active = True\<rparr>)
    \<and> (\<forall>(i, e) \<in> set (mg_sessions m). en_active e \<longrightarrow> (i, e) \<in> set (mg_sessions m'))
    \<and> (mg_accepting_starts m \<longrightarrow>
         tally (\<lambda>e. \<not> en_active e) (mg_sessions m') < mc_max_retained_terminal_sessions (mg_config m)
         \<and> (\<forall>(i, e) \<in> set (mg_sessions m) - set (mg_sessions m'). \<forall>(j, f) \<in> set (mg_sessions m').
              \<not> en_active f \<longrightarrow> ended_key e \<le> ended_key f))"
proof -
  let ?k = "mc_max_retained_terminal_sessions (mg_config m)"
  have d: "distinct (table_ids (mg_sessions m))" and k: "0 < ?k"
    and inv: "mg_active_sessions m = tally en_active (mg_sessions m)"
      "tally en_active (mg_sessions m) \<le> mc_max_active_sessions (mg_config m)"
      "tally (in_scope (se_scope_id s)) (mg_sessions m) \<le> mc_max_active_sessions_per_scope (mg_config m)"
    using assms(1) by (auto simp: manager_inv_def Let_def config_validate_def split: if_splits)
  have fresh: "se_id s \<notin> set (table_ids (prune_terminal ?k (mg_sessions m)))"
    using assms(2) by (auto simp: prune_terminal_filter)
  have sub: "set (mg_sessions (pruned m)) \<subseteq> set (mg_sessions m)" by (auto simp: pruned_def prune_terminal_filter)
  have table: "mg_sessions m' =
      (if \<not> mg_accepting_starts m then mg_sessions m
       else mg_sessions (pruned m) @ (if answer = Inr () then [(se_id s, \<lparr>en_session = s, en_active = True\<rparr>)] else []))"
    using assms(3) table_insert_fresh [OF fresh]
    by (auto simp: reserve_cases admitted_def pruned_def split: if_splits)
  have "map_of (mg_sessions (pruned m)) (se_id s) = None"
    using fresh by (simp add: map_of_eq_None_iff pruned_def)
  then have found: "answer = Inr () \<longrightarrow> map_of (mg_sessions m') (se_id s) = Some \<lparr>en_session = s, en_active = True\<rparr>"
    using assms(3) by (cases "mg_accepting_starts m") (simp_all add: table map_add_def, auto simp: reserve_cases)
  have answer: "answer =
      (if \<not> mg_accepting_starts m then Inl ManagerShuttingDown
       else if tally en_active (mg_sessions m) = mc_max_active_sessions (mg_config m) then Inl GlobalLimitReached
       else if tally (in_scope (se_scope_id s)) (mg_sessions m) = mc_max_active_sessions_per_scope (mg_config m)
       then Inl ScopeLimitReached else Inr ())"
    using assms(3) inv scope_count_tally [OF assms(1)] by (auto simp: reserve_cases split: if_splits)
  have keep: "\<forall>(i, e) \<in> set (mg_sessions m). en_active e \<longrightarrow> (i, e) \<in> set (mg_sessions m')"
    using prune_keeps_active [OF d] by (auto simp: table pruned_def)
  have few: "mg_accepting_starts m \<longrightarrow> tally (\<lambda>e. \<not> en_active e) (mg_sessions m') < ?k"
    using retained_count [OF d, of ?k] k by (auto simp: table pruned_def)
  have old: "ended_key e \<le> ended_key f"
    if "mg_accepting_starts m" "(i, e) \<in> set (mg_sessions m) - set (mg_sessions m')" "(j, f) \<in> set (mg_sessions m')"
      "\<not> en_active f" for i e j f
    using that pruned_oldest [OF d, of i e ?k j f] by (auto simp: table pruned_def split: if_splits)
  from old have "mg_accepting_starts m \<longrightarrow> (\<forall>(i, e) \<in> set (mg_sessions m) - set (mg_sessions m').
      \<forall>(j, f) \<in> set (mg_sessions m'). \<not> en_active f \<longrightarrow> ended_key e \<le> ended_key f)" by blast
  with answer found keep few show ?thesis by blast
qed

abbreviation active_table :: "session_table \<Rightarrow> rstring list" where
  "active_table t \<equiv> map fst (filter (\<lambda>(_, e). en_active e) t)"

lemma active_table_map:
  assumes "\<And>i e. fst (f (i, e)) = i \<and> (en_active (snd (f (i, e))) \<longrightarrow> en_active e)"
  shows "set (active_table (map f t)) \<subseteq> set (active_table t)"
proof (induction t)
  case (Cons x t)
  then show ?case using assms [of "fst x" "snd x"] by (auto simp: case_prod_beta)
qed simp

lemma active_ids_step:
  assumes "manager_step m m'" and "\<not> mg_accepting_starts m"
  shows "\<not> mg_accepting_starts m' \<and> set (active_ids m') \<subseteq> set (active_ids m)"
  using assms
proof (induction rule: manager_step.induct)
  case (mark_terminal m i)
  have "set (active_table (table_update i (\<lambda>e. e\<lparr>en_active := False\<rparr>) t)) \<subseteq> set (active_table t)" for t
    unfolding table_update_def by (rule active_table_map) simp
  with mark_terminal show ?case
    by (simp add: mark_terminal_def active_ids_def Let_def split: option.split)
next
  case (remove_terminal i m answer m')
  have "set (active_table (table_remove i t)) \<subseteq> set (active_table t)" for t
    by (induction t) (auto simp: table_remove_def)
  moreover have "m' = m \<or> m' = m\<lparr>mg_sessions := table_remove i (mg_sessions m)\<rparr>"
    using remove_terminal(1) by (auto simp: remove_terminal_def split: option.splits if_splits)
  ultimately show ?case using remove_terminal(2) by (elim disjE) (simp_all add: active_ids_def)
next
  case (progress f m i)
  have "set (active_table (table_update i (\<lambda>e. e\<lparr>en_session := f (en_session e)\<rparr>) t)) \<subseteq> set (active_table t)" for t
    unfolding table_update_def by (rule active_table_map) simp
  with progress show ?case by (simp add: update_session_def active_ids_def)
next
  case (terminate m ids m')
  have "set (active_table (map (\<lambda>(i, e).
      if en_active e then (i, e\<lparr>en_session := snd (force_for_shutdown (en_session e))\<rparr>) else (i, e)) t))
      \<subseteq> set (active_table t)" for t
    by (rule active_table_map) simp
  moreover have "m' = snd (terminate_all m)" using terminate(1) by simp
  ultimately show ?case using terminate(2) by (simp only: terminate_all_def active_ids_def) simp
next
  case (permute t m)
  then show ?case using mset_eq_setD [OF permute(1)] by (simp add: active_ids_def)
qed (simp_all add: reserve_def stop_accepting_def active_ids_def)

interpretation closing: step_settles manager_step "\<lambda>_. True" "\<lambda>m. \<not> mg_accepting_starts m" "\<lambda>m. set (active_ids m)" "(\<subseteq>)"
  by unfold_locales (use active_ids_step in \<open>auto 0 3\<close>)

text \<open>
  Once the manager stops accepting starts, no later step makes a session active
  that was not active when the sessions to terminate were collected, and every start is refused; the
  report accounts for each of them exactly once.
\<close>

theorem shutdown_is_final:
  assumes "manager_shutdown m = (ids, m1)" and "manager_step\<^sup>*\<^sup>* m1 m2"
  shows "set (active_ids m2) \<subseteq> set ids \<and> fst (reserve s m2) = Inl ManagerShuttingDown
    \<and> rp_requested (termination_report_of ids later)
        = rp_terminated (termination_report_of ids later) + length (rp_still_running (termination_report_of ids later))"
proof -
  have start: "\<not> mg_accepting_starts m1" "set (active_ids m1) \<subseteq> set ids"
    using assms(1) active_ids_step [OF manager_step.terminate [of "stop_accepting m"]]
    by (auto simp: manager_shutdown_def terminate_all_def stop_accepting_def)
  have "\<not> mg_accepting_starts m2 \<and> set (active_ids m2) \<subseteq> set (active_ids m1)"
    using closing.settled_steps [OF assms(2) TrueI start(1)] .
  moreover have "length ids = length (filter (\<lambda>i. terminal_result (later i) \<noteq> None) ids)
      + length (filter (\<lambda>i. terminal_result (later i) = None) ids)"
    using sum_length_filter_compl [of "\<lambda>i. terminal_result (later i) = None" ids] by (simp add: add.commute)
  ultimately show ?thesis
    using start(2) by (auto simp: reserve_def termination_report_of_def)
qed


section \<open>Starting\<close>

lemma map_of_table_update: "map_of (table_update i f t) i = map_option f (map_of t i)"
  by (induction t) (auto simp: table_update_def)

lemma update_session_at:
  assumes "manager_inv m" and "map_of (mg_sessions m) i = Some e" and "se_scope_id t = se_scope_id (en_session e)"
  shows "manager_inv (update_session i (\<lambda>_. t) m)"
proof -
  let ?f = "\<lambda>s. if s = en_session e then t else s"
  have d: "distinct (table_ids (mg_sessions m))" using assms(1) by (simp add: manager_inv_def Let_def)
  have "update_session i (\<lambda>_. t) m = update_session i ?f m"
    unfolding update_session_def table_update_def
    using map_of_is_SomeI [OF d] assms(2) by (auto intro!: arg_cong [of _ _ "\<lambda>t. m\<lparr>mg_sessions := t\<rparr>"] map_cong)
  with manager_inv_step [OF manager_step.progress [of ?f m i] assms(1)] assms(3) show ?thesis by simp
qed

lemma complete_before_running_after:
  assumes "complete_before_running state cancelled error now s = (done_now, events, t)"
    and "\<not> is_terminal (ob_state (se_observed s))"
  shows "terminal_result t \<noteq> None" "se_scope_id t = se_scope_id s"
  using assms
  by (auto simp: complete_before_running_def complete_def complete_close_def complete_commit_def complete_deliver_def
      terminal_result_def Let_def)

lemma settle_start_after:
  assumes "manager_inv m" and "map_of (mg_sessions m) i = Some \<lparr>en_session = s0, en_active = True\<rparr>"
    and "se_scope_id s0 = se_scope_id s" and "\<not> is_terminal (ob_state (se_observed s))"
    and "settle_start i (complete_before_running state cancelled error now) s m = (events, t, m')"
  shows "manager_inv m'" "mg_active_sessions m' = mg_active_sessions m - 1" "exited_answer t \<noteq> StartPanicked"
    "exited_answer t \<noteq> StartedRunning"
proof -
  from assms(5) obtain done_now where
    t: "complete_before_running state cancelled error now s = (done_now, events, t)"
    and m': "m' = mark_terminal i (update_session i (\<lambda>_. t) m)"
    by (auto simp: settle_start_def split: prod.splits)
  note after = complete_before_running_after [OF t assms(4)]
  show "manager_inv m'"
    unfolding m' using update_session_at [OF assms(1,2)] after(2) assms(3) by (intro manager_inv_mark_terminal) simp
  have "map_of (mg_sessions (update_session i (\<lambda>_. t) m)) i = Some \<lparr>en_session = t, en_active = True\<rparr>"
    using assms(2) by (simp add: update_session_def map_of_table_update)
  then show "mg_active_sessions m' = mg_active_sessions m - 1"
    unfolding m' by (simp add: mark_terminal_def Let_def) (simp add: update_session_def)
  show "exited_answer t \<noteq> StartPanicked" "exited_answer t \<noteq> StartedRunning"
    using after(1) by (auto simp: exited_answer_def split: option.split)
qed

text \<open>
  Starting a command never panics and never leaks a slot. A start that
  does not leave a running process (refused, cancelled, spawn failed, pipe missing, watcher not started)
  leaves the number of active sessions as it was; a start that runs adds exactly one active session,
  in state running, and has told the host so before any output.
\<close>

theorem start_accounts_for_session:
  assumes "manager_inv m" and "session_id \<notin> set (table_ids (mg_sessions m))"
    and "start_plan session_id scope_id projection started_at output_observer lifecycle_observer cancelled spawn now m
         = (answer, events, m')"
  shows "answer \<noteq> StartPanicked \<and> manager_inv m'
    \<and> mg_active_sessions m' = mg_active_sessions m + (if answer = StartedRunning then 1 else 0)
    \<and> (answer = StartedRunning \<longrightarrow>
         (\<exists>s. map_of (mg_sessions m') session_id = Some \<lparr>en_session = s, en_active = True\<rparr>
            \<and> ob_state (se_observed s) = Running
            \<and> events = (if lifecycle_observer then [EvStarted (snapshot_from s)] else [])))"
proof -
  let ?s = "session_new session_id scope_id projection started_at (mc_transcript_bytes (mg_config m))
              output_observer lifecycle_observer"
  obtain result m1 where reserved: "reserve ?s m = (result, m1)" by (metis prod.exhaust)
  have s: "se_id ?s = session_id" "\<not> is_terminal (ob_state (se_observed ?s))" "se_lifecycle_observer ?s = lifecycle_observer"
    by (simp_all add: session_new_def is_terminal_def)
  have fresh: "se_id ?s \<notin> set (table_ids (mg_sessions m))" using assms(2) s(1) by simp
  have inv: "manager_inv m1" by (rule manager_inv_reserve [OF assms(1) fresh reserved])
  show ?thesis
  proof (cases "mg_accepting_starts m \<and> result = Inr ()")
    case False
    with assms(1,3) reserved inv show ?thesis
      by (cases result) (auto simp: start_plan_def reserve_cases pruned_def split: if_splits)
  next
    case True
    with reserved have m1: "m1 = admitted ?s (pruned m)" by (auto simp: reserve_cases split: if_splits)
    then have active: "mg_active_sessions m1 = mg_active_sessions m + 1" by (simp add: admitted_def pruned_def)
    have "session_id \<notin> set (table_ids (mg_sessions (pruned m)))"
      using assms(2) by (auto simp: pruned_def prune_terminal_filter)
    then have "map_of (mg_sessions (pruned m)) session_id = None" by (simp add: map_of_eq_None_iff)
    moreover have "mg_sessions m1 = mg_sessions (pruned m) @ [(session_id, \<lparr>en_session = ?s, en_active = True\<rparr>)]"
      unfolding m1 admitted_def using \<open>session_id \<notin> set (table_ids (mg_sessions (pruned m)))\<close> s(1)
      by (simp add: table_insert_fresh)
    ultimately have entry: "map_of (mg_sessions m1) session_id = Some \<lparr>en_session = ?s, en_active = True\<rparr>"
      by (simp add: map_add_def)
    define r where "r = ?s\<lparr>se_observed := (se_observed ?s)\<lparr>ob_state := Running\<rparr>\<rparr>"
    have r: "mark_running ?s = (notify_lifecycle (EvStarted (snapshot_from r)) r, r)"
      by (simp add: mark_running_def r_def session_new_def Let_def)
    have rs: "\<not> is_terminal (ob_state (se_observed r))" "se_scope_id r = se_scope_id ?s"
      "ob_state (se_observed r) = Running" "se_lifecycle_observer r = lifecycle_observer"
      using s(3) by (simp_all add: r_def is_terminal_def)
    define m2 where "m2 = update_session session_id (\<lambda>_. r) m1"
    have entry2: "map_of (mg_sessions m2) session_id = Some \<lparr>en_session = r, en_active = True\<rparr>"
      using entry by (simp add: m2_def update_session_def map_of_table_update)
    have inv2: "manager_inv m2" unfolding m2_def using update_session_at [OF inv entry] rs(2) by simp
    have active2: "mg_active_sessions m2 = mg_active_sessions m1" by (simp add: m2_def update_session_def)
    note early = settle_start_after [OF inv entry _ s(2)] and late = settle_start_after [OF inv2 entry2 _ rs(1)]
    show ?thesis
    proof (cases cancelled)
      case True
      with assms(3) reserved \<open>mg_accepting_starts m \<and> result = Inr ()\<close> show ?thesis
        using early active by (auto simp: start_plan_def cancel_before_running_def split: prod.splits)
    next
      case False
      note plan = assms(3) [unfolded start_plan_def, simplified reserved Let_def]
      show ?thesis
      proof (cases spawn)
        case (Spawned watcher_error)
        then show ?thesis
          using plan False \<open>mg_accepting_starts m \<and> result = Inr ()\<close> late active active2 inv2 entry2 rs(3,4)
          by (cases watcher_error)
            (auto simp: r m2_def [symmetric] fail_before_running_def notify_lifecycle_def split: prod.splits)
      qed (use plan False \<open>mg_accepting_starts m \<and> result = Inr ()\<close> early active in
           \<open>auto simp: fail_before_running_def split: prod.splits\<close>)
    qed
  qed
qed


section \<open>Witnesses\<close>

definition idle_manager :: manager_state where
  "idle_manager =
     \<lparr>mg_config = config_default, mg_accepting_starts = True, mg_sessions = [], mg_active_sessions = 0,
      mg_active_by_scope = Map.empty\<rparr>"

definition first_session :: managed_command_session where
  "first_session = session_new (S ''cmd_1'') (S ''scope'') \<lparr>pj_command = S ''make'', pj_cwd = S ''/w''\<rparr> 0 64 False True"

lemma idle_manager_new: "manager_new config_default = Inr idle_manager"
  by (simp add: manager_new_def idle_manager_def config_validate_def config_default_def
      DEFAULT_COMMAND_TRANSCRIPT_BYTES_def DEFAULT_COMMAND_POLL_BYTES_def MIN_COMMAND_POLL_BYTES_def)

lemma first_ids: "se_id first_session = S ''cmd_1''" "se_scope_id first_session = S ''scope''"
  by (simp_all add: first_session_def session_new_def)

lemma first_reserved:
  "reserve first_session idle_manager = (Inr (), admitted first_session idle_manager)"
  by (simp add: reserve_cases idle_manager_def config_default_def scope_count_def pruned_def prune_terminal_def)

lemma first_entry:
  "mg_sessions (admitted first_session idle_manager) = [(S ''cmd_1'', \<lparr>en_session = first_session, en_active = True\<rparr>)]"
  by (simp add: admitted_def idle_manager_def table_insert_def first_session_def session_new_def)

lemma first_step: "manager_step idle_manager (admitted first_session idle_manager)"
  by (rule manager_step.reserve [OF _ first_reserved]) (simp add: idle_manager_def)

theorem session_quotas_witness:
  "mg_active_sessions (admitted first_session idle_manager) = 1
   \<and> mg_active_by_scope (admitted first_session idle_manager) (S ''scope'') = Some 1"
  using session_quotas [OF idle_manager_new r_into_rtranclp [of manager_step, OF first_step]]
  by (simp add: first_entry in_scope_def first_ids)

theorem reserve_decides_witness:
  "map_of (mg_sessions (admitted first_session idle_manager)) (S ''cmd_1'') = Some \<lparr>en_session = first_session, en_active = True\<rparr>"
  using reserve_decides [OF manager_inv_new [OF idle_manager_new] _ first_reserved]
  by (simp add: first_ids) (simp add: idle_manager_def)

theorem shutdown_is_final_witness:
  "set (active_ids (snd (manager_shutdown idle_manager))) = {}
   \<and> fst (reserve first_session (snd (manager_shutdown idle_manager))) = Inl ManagerShuttingDown"
proof -
  have "fst (manager_shutdown idle_manager) = []"
    by (simp add: manager_shutdown_def terminate_all_def active_ids_def idle_manager_def stop_accepting_def)
  with shutdown_is_final [OF prod.collapse [symmetric] rtranclp.rtrancl_refl, of idle_manager first_session]
  show ?thesis by simp
qed

theorem start_accounts_for_session_witness:
  "fst (start_plan (S ''cmd_1'') (S ''scope'') \<lparr>pj_command = S ''make'', pj_cwd = S ''/w''\<rparr> 0 False True False (Spawned None) 1
        idle_manager) = StartedRunning
   \<and> mg_active_sessions (snd (snd (start_plan (S ''cmd_1'') (S ''scope'') \<lparr>pj_command = S ''make'', pj_cwd = S ''/w''\<rparr> 0
        False True False (Spawned None) 1 idle_manager))) = 1"
    (is "fst ?p = _ \<and> _")
proof -
  have run: "fst ?p = StartedRunning"
    by (simp add: start_plan_def idle_manager_def reserve_cases config_default_def scope_count_def mark_running_def
        session_new_def Let_def)
  have "?p = (fst ?p, fst (snd ?p), snd (snd ?p))" by simp
  from start_accounts_for_session [OF manager_inv_new [OF idle_manager_new] _ this] run
  show ?thesis by (simp add: idle_manager_def)
qed

end
