(* ===== verification/Call_Fingerprint.thy ===== *)
theory Call_Fingerprint
  imports Utf8_Stream Command_Transcript "HOL-Library.List_Lexorder" "HOL-Library.Multiset"
begin

text \<open>
  The identity of a tool call, \<open>semantic_tool_call_fingerprint\<close> of
  \<open>src/crates/core/src/runtime/tool_failure_guard.rs\<close>: the JSON arguments of the call are written to a
  hash as a byte string. The hash function is a parameter of the model; the byte string is exact. A
  JSON object is the association list of its members, whose keys are distinct; a number is its text,
  as the source hashes it.
\<close>

section \<open>JSON values\<close>

datatype json =
    JNull
  | JBool bool
  | JNumber rstring
  | JString rstring
  | JArray "json list"
  | JObject "(rstring \<times> json) list"

fun as_object :: "json \<Rightarrow> (rstring \<times> json) list option" where
  "as_object (JObject members) = Some members"
| "as_object _ = None"

fun as_str :: "json \<Rightarrow> rstring option" where
  "as_str (JString s) = Some s"
| "as_str _ = None"

definition json_get :: "json \<Rightarrow> string \<Rightarrow> json option" where
  "json_get v key = Option.bind (as_object v) (\<lambda>members. map_of members (S key))"

definition object_insert :: "rstring \<Rightarrow> json \<Rightarrow> (rstring \<times> json) list \<Rightarrow> (rstring \<times> json) list" where
  "object_insert key v members =
     (if key \<in> fst ` set members then map (\<lambda>(k, w). if k = key then (k, v) else (k, w)) members
      else members @ [(key, v)])"

text \<open>Strings are ordered by their bytes, which is the order of their code points.\<close>

definition key_order :: "rstring \<Rightarrow> nat list" where
  "key_order s = map code_point s"

definition sort_members :: "(rstring \<times> 'a) list \<Rightarrow> (rstring \<times> 'a) list" where
  "sort_members members = sort_key (\<lambda>m. key_order (fst m)) members"

section \<open>The byte string\<close>

definition ascii :: "string \<Rightarrow> byte list" where
  "ascii s = map of_char s"

definition to_be_bytes :: "nat \<Rightarrow> byte list" where
  "to_be_bytes n = map (\<lambda>i. of_nat (n div 256 ^ i)) [7, 6, 5, 4, 3, 2, 1, 0]"

definition len_bytes :: "nat \<Rightarrow> byte list" where
  "len_bytes n = to_be_bytes (min n u64_max)"

definition hash_component :: "string \<Rightarrow> byte list \<Rightarrow> byte list" where
  "hash_component tag bytes = ascii tag @ len_bytes (length bytes) @ bytes"

definition semantic_members :: "bool \<Rightarrow> (rstring \<times> 'a) list \<Rightarrow> (rstring \<times> 'a) list" where
  "semantic_members root members =
     filter (\<lambda>m. \<not> (root \<and> fst m = S ''reason'')) (sort_members members)"

lemma semantic_members_subset: "set (semantic_members root members) \<subseteq> set members"
  by (auto simp: semantic_members_def sort_members_def)

lemma size_member: "m \<in> set members \<Longrightarrow> size (snd m) < size (JObject members)"
  by (induction members) (auto simp: size_prod_simp)

lemma size_element: "v \<in> set vs \<Longrightarrow> size v < size (JArray vs)"
  by (induction vs) auto

function hash_json_value :: "json \<Rightarrow> bool \<Rightarrow> byte list" where
  "hash_json_value JNull root = ascii ''n''"
| "hash_json_value (JBool b) root = (if b then ascii ''b1'' else ascii ''b0'')"
| "hash_json_value (JNumber t) root = hash_component ''d'' (utf8_bytes t)"
| "hash_json_value (JString t) root = hash_component ''s'' (utf8_bytes t)"
| "hash_json_value (JArray vs) root =
     ascii ''a'' @ len_bytes (length vs) @ concat (map (\<lambda>v. hash_json_value v False) vs)"
| "hash_json_value (JObject members) root =
     ascii ''o'' @ len_bytes (length (semantic_members root members))
     @ concat (map (\<lambda>m. hash_component ''k'' (utf8_bytes (fst m)) @ hash_json_value (snd m) False)
         (semantic_members root members))"
  by pat_completeness auto

termination
proof (relation "measure (\<lambda>(v, _). size v)")
  show "((x, False), JArray vs, root) \<in> measure (\<lambda>(v, _). size v)" if "x \<in> set vs" for vs root x
    using size_element [OF that] by simp
  show "((snd x, False), JObject members, root) \<in> measure (\<lambda>(v, _). size v)"
    if "x \<in> set (semantic_members root members)" for members root x
    using size_member semantic_members_subset that by fastforce
qed simp

section \<open>Aliases\<close>

text \<open>The aliases of an operation of the office tools, in the order of the source.\<close>

definition office_aliases :: "(string \<times> string) list" where
  "office_aliases =
     [(''add_text'', ''addText''), (''insert_image'', ''insertImage''), (''addImage'', ''insertImage''),
      (''add_image'', ''insertImage''), (''add_table'', ''addTable''), (''add_header'', ''addHeader''),
      (''add_footer'', ''addFooter''), (''replace_text'', ''replaceText''), (''format_text'', ''formatText''),
      (''remove_block'', ''removeBlock''), (''move_block'', ''moveBlock''), (''add_sheet'', ''addSheet''),
      (''write_cell'', ''writeCell''), (''set_formula'', ''setFormula''), (''format_range'', ''formatRange''),
      (''freeze_panes'', ''freezePanes''), (''add_conditional_format'', ''addConditionalFormat''),
      (''add_chart'', ''addChart''), (''remove_sheet'', ''removeSheet''), (''move_sheet'', ''moveSheet''),
      (''add_slide'', ''addSlide''), (''add_shape'', ''addShape''), (''remove_slide'', ''removeSlide''),
      (''move_slide'', ''moveSlide'')]"

definition canonical_office_operation :: "rstring \<Rightarrow> rstring" where
  "canonical_office_operation operation =
     (case map_of (map (\<lambda>(alias, canonical). (S alias, S canonical)) office_aliases) operation of
        Some canonical \<Rightarrow> canonical
      | None \<Rightarrow> operation)"

definition canonicalize_office_operation_alias :: "rstring \<Rightarrow> json \<Rightarrow> json option" where
  "canonicalize_office_operation_alias tool args =
     (if \<not> one_of tool [''office_document'', ''office_spreadsheet'', ''office_presentation''] then None
      else
        case (as_object args, Option.bind (json_get args ''operation'') as_str) of
          (Some members, Some operation) \<Rightarrow>
            let canonical = canonical_office_operation operation in
            if canonical = operation then None
            else Some (JObject (object_insert (S ''operation'') (JString canonical) members))
        | _ \<Rightarrow> None)"

definition canonical_args :: "rstring \<Rightarrow> json \<Rightarrow> json" where
  "canonical_args tool args =
     (case canonicalize_office_operation_alias tool args of Some v \<Rightarrow> v | None \<Rightarrow> args)"

section \<open>Fingerprints\<close>

definition fingerprint_bytes :: "rstring \<Rightarrow> json \<Rightarrow> byte list" where
  "fingerprint_bytes tool args =
     hash_component ''tool'' (utf8_bytes tool) @ ascii ''args'' @ hash_json_value (canonical_args tool args) True"

definition lower_hex_digit :: "nat \<Rightarrow> rchar" where
  "lower_hex_digit n = Ch (''0123456789abcdef'' ! n)"

definition lower_hex :: "byte list \<Rightarrow> rstring" where
  "lower_hex bytes = concat (map (\<lambda>b. [lower_hex_digit (unat b div 16), lower_hex_digit (unat b mod 16)]) bytes)"

definition semantic_tool_call_fingerprint :: "(byte list \<Rightarrow> byte list) \<Rightarrow> rstring \<Rightarrow> json \<Rightarrow> rstring" where
  "semantic_tool_call_fingerprint sha256 tool args =
     S ''tool-call-sha256-v1:'' @ lower_hex (sha256 (fingerprint_bytes tool args))"

section \<open>Two calls with one byte string\<close>

text \<open>
  The meaning of a value: members in key order, without \<open>reason\<close> at the root. Two values have the same
  meaning exactly when one is the other up to the order of members and that member.
\<close>

function meaning :: "json \<Rightarrow> bool \<Rightarrow> json" where
  "meaning JNull root = JNull"
| "meaning (JBool b) root = JBool b"
| "meaning (JNumber t) root = JNumber t"
| "meaning (JString t) root = JString t"
| "meaning (JArray vs) root = JArray (map (\<lambda>v. meaning v False) vs)"
| "meaning (JObject members) root =
     JObject (map (\<lambda>m. (fst m, meaning (snd m) False)) (semantic_members root members))"
  by pat_completeness auto

termination
proof (relation "measure (\<lambda>(v, _). size v)")
  show "((x, False), JArray vs, root) \<in> measure (\<lambda>(v, _). size v)" if "x \<in> set vs" for vs root x
    using size_element [OF that] by simp
  show "((snd x, False), JObject members, root) \<in> measure (\<lambda>(v, _). size v)"
    if "x \<in> set (semantic_members root members)" for members root x
    using size_member semantic_members_subset that by fastforce
qed simp

text \<open>Values a program can hold: text is Unicode, and no length exceeds a 64-bit count.\<close>

definition text_ok :: "rstring \<Rightarrow> bool" where
  "text_ok t \<longleftrightarrow> list_all is_scalar_value t \<and> length (utf8_bytes t) \<le> u64_max"

fun json_ok :: "json \<Rightarrow> bool" where
  "json_ok JNull = True"
| "json_ok (JBool b) = True"
| "json_ok (JNumber t) = text_ok t"
| "json_ok (JString t) = text_ok t"
| "json_ok (JArray vs) = (length vs \<le> u64_max \<and> list_all json_ok vs)"
| "json_ok (JObject members) =
     (length members \<le> u64_max \<and> list_all (\<lambda>m. text_ok (fst m) \<and> json_ok (snd m)) members)"

lemma utf8_bytes_inj: "utf8_bytes s = utf8_bytes t \<Longrightarrow> list_all is_scalar_value s \<Longrightarrow> list_all is_scalar_value t \<Longrightarrow> s = t"
  using decode_utf8_bytes [of s "[]"] decode_utf8_bytes [of t "[]"] by simp

lemma digits_determine:
  assumes "\<And>i. i < k \<Longrightarrow> m div 256 ^ i mod 256 = n div 256 ^ i mod (256 :: nat)"
  shows "m mod 256 ^ k = n mod 256 ^ k"
  using assms
proof (induction k)
  case (Suc k)
  have "x mod 256 ^ Suc k = 256 ^ k * (x div 256 ^ k mod 256) + x mod 256 ^ k" for x :: nat
    using mod_mult2_eq [of x "256 ^ k" 256] by (simp add: mult.commute)
  with Suc show ?case by simp
qed simp

lemma to_be_bytes_inj:
  assumes "to_be_bytes m = to_be_bytes n" and "m \<le> u64_max" and "n \<le> u64_max"
  shows "m = n"
proof -
  have digit: "m div 256 ^ i mod 256 = n div 256 ^ i mod 256" if "i < 8" for i :: nat
  proof -
    have "of_nat (m div 256 ^ i) = (of_nat (n div 256 ^ i) :: byte)"
    proof -
      have "i \<in> set [7, 6, 5, 4, 3, 2, 1, 0]" using that by auto
      then show ?thesis using assms(1) unfolding to_be_bytes_def by (rule map_eq_conv [THEN iffD1, rule_format, rotated])
    qed
    then show ?thesis by (simp add: word_of_nat_eq_iff take_bit_eq_mod)
  qed
  have "m mod 256 ^ 8 = n mod 256 ^ 8" using digits_determine digit by blast
  then show ?thesis using assms(2,3) by (simp add: u64_max_def)
qed

lemma len_bytes_inj: "len_bytes m = len_bytes n \<Longrightarrow> m \<le> u64_max \<Longrightarrow> n \<le> u64_max \<Longrightarrow> m = n"
  using to_be_bytes_inj [of m n] by (simp add: len_bytes_def)

lemma length_len_bytes [simp]: "length (len_bytes n) = 8"
  by (simp add: len_bytes_def to_be_bytes_def)

lemma hash_component_prefix_free:
  assumes "hash_component tag (utf8_bytes s) @ r = hash_component tag (utf8_bytes t) @ q" and "text_ok s" and "text_ok t"
  shows "s = t \<and> r = q"
proof -
  from assms(1) have "len_bytes (length (utf8_bytes s)) = len_bytes (length (utf8_bytes t))"
    and rest: "utf8_bytes s @ r = utf8_bytes t @ q"
    by (simp_all add: hash_component_def append_eq_append_conv)
  then have "length (utf8_bytes s) = length (utf8_bytes t)"
    using len_bytes_inj assms(2,3) by (simp add: text_ok_def)
  with rest have "utf8_bytes s = utf8_bytes t \<and> r = q" by (simp add: append_eq_append_conv)
  then show ?thesis using utf8_bytes_inj assms(2,3) by (simp add: text_ok_def)
qed

lemma concat_prefix_free:
  assumes "concat (map e xs) @ r = concat (map e ys) @ q" and "length xs = length ys"
    and "\<And>x y r q. x \<in> set xs \<Longrightarrow> y \<in> set ys \<Longrightarrow> e x @ r = e y @ q \<Longrightarrow> n x = n y \<and> r = q"
  shows "map n xs = map n ys \<and> r = q"
  using assms
proof (induction xs arbitrary: ys)
  case (Cons x xs)
  then obtain y zs where ys: "ys = y # zs" by (cases ys) auto
  have "e x @ (concat (map e xs) @ r) = e y @ (concat (map e zs) @ q)" using Cons.prems(1) ys by simp
  from Cons.prems(3) [OF _ _ this] ys have head: "n x = n y" "concat (map e xs) @ r = concat (map e zs) @ q" by auto
  from Cons.IH [OF head(2)] Cons.prems(2,3) ys head(1) show ?case by auto
qed simp

lemma tag_simps [simp]: "ascii (c # s) = of_char c # ascii s" "ascii [] = []"
  by (simp_all add: ascii_def)

lemma counted_prefix_free:
  assumes "len_bytes (length xs) @ concat (map e xs) @ r = len_bytes (length ys) @ concat (map e ys) @ q"
    and "length xs \<le> u64_max" and "length ys \<le> u64_max"
    and "\<And>x y r q. x \<in> set xs \<Longrightarrow> y \<in> set ys \<Longrightarrow> e x @ r = e y @ q \<Longrightarrow> n x = n y \<and> r = q"
  shows "map n xs = map n ys \<and> r = q"
proof -
  from assms(1) have len: "len_bytes (length xs) = len_bytes (length ys)"
    and rest: "concat (map e xs) @ r = concat (map e ys) @ q"
    by (simp_all add: append_eq_append_conv)
  show ?thesis by (rule concat_prefix_free [OF rest len_bytes_inj [OF len assms(2,3)] assms(4)])
qed

lemma tag_distinct:
  "(of_char (CHR ''n'') :: byte) = 110" "(of_char (CHR ''b'') :: byte) = 98" "(of_char (CHR ''d'') :: byte) = 100"
  "(of_char (CHR ''s'') :: byte) = 115" "(of_char (CHR ''a'') :: byte) = 97" "(of_char (CHR ''o'') :: byte) = 111"
  "(of_char (CHR ''k'') :: byte) = 107" "(of_char (CHR ''0'') :: byte) = 48" "(of_char (CHR ''1'') :: byte) = 49"
  by (simp_all add: of_char_def horner_sum_simps)

lemma semantic_members_length: "length (semantic_members root members) \<le> length members"
  using length_filter_le [of "\<lambda>m. \<not> (root \<and> fst m = S ''reason'')" "sort_members members"]
  by (simp add: semantic_members_def sort_members_def)

lemma hash_json_value_prefix_free:
  assumes "hash_json_value v root @ r = hash_json_value w root @ q" and "json_ok v" and "json_ok w"
  shows "meaning v root = meaning w root \<and> r = q"
  using assms
proof (induction v root arbitrary: w r q rule: hash_json_value.induct)
  case (1 root)
  then show ?case by (cases w) (simp_all add: hash_component_def tag_distinct split: if_splits)
next
  case (2 b root)
  then show ?case by (cases w) (simp_all add: hash_component_def tag_distinct split: if_splits)
next
  case (3 t root)
  then show ?case
  proof (cases w)
    case (JNumber u)
    with 3 show ?thesis using hash_component_prefix_free [of "''d''" t r u q] by simp
  qed (simp_all add: hash_component_def tag_distinct split: if_splits)
next
  case (4 t root)
  then show ?case
  proof (cases w)
    case (JString u)
    with 4 show ?thesis using hash_component_prefix_free [of "''s''" t r u q] by simp
  qed (simp_all add: hash_component_def tag_distinct split: if_splits)
next
  case (5 vs root)
  then show ?case
  proof (cases w)
    case (JArray us)
    have "map (\<lambda>v. meaning v False) vs = map (\<lambda>v. meaning v False) us \<and> r = q"
    proof (rule counted_prefix_free)
      show "len_bytes (length vs) @ concat (map (\<lambda>v. hash_json_value v False) vs) @ r =
          len_bytes (length us) @ concat (map (\<lambda>v. hash_json_value v False) us) @ q"
        using "5.prems"(1) JArray by simp
      show "length vs \<le> u64_max" "length us \<le> u64_max" using "5.prems"(2,3) JArray by simp_all
      show "meaning x False = meaning y False \<and> r' = q'"
        if "x \<in> set vs" "y \<in> set us" "hash_json_value x False @ r' = hash_json_value y False @ q'" for x y r' q'
        using "5.IH" [OF that(1,3)] "5.prems"(2,3) JArray that(1,2) by (simp add: list_all_iff)
    qed
    with JArray show ?thesis by simp
  qed (simp_all add: hash_component_def tag_distinct split: if_splits)
next
  case (6 members root)
  then show ?case
  proof (cases w)
    case (JObject others)
    let ?e = "\<lambda>m. hash_component ''k'' (utf8_bytes (fst m)) @ hash_json_value (snd m) False"
    let ?n = "\<lambda>m. (fst m, meaning (snd m) False)"
    note sub = semantic_members_subset [of root members] semantic_members_subset [of root others]
    have "map ?n (semantic_members root members) = map ?n (semantic_members root others) \<and> r = q"
    proof (rule counted_prefix_free)
      show "len_bytes (length (semantic_members root members)) @ concat (map ?e (semantic_members root members)) @ r =
          len_bytes (length (semantic_members root others)) @ concat (map ?e (semantic_members root others)) @ q"
        using "6.prems"(1) JObject by simp
      show "length (semantic_members root members) \<le> u64_max" "length (semantic_members root others) \<le> u64_max"
        using "6.prems"(2,3) JObject semantic_members_length [of root members] semantic_members_length [of root others]
        by simp_all
      show "?n x = ?n y \<and> r' = q'"
        if "x \<in> set (semantic_members root members)" "y \<in> set (semantic_members root others)" "?e x @ r' = ?e y @ q'"
        for x y r' q'
      proof -
        have ok: "text_ok (fst x)" "text_ok (fst y)" "json_ok (snd x)" "json_ok (snd y)"
          using that(1,2) sub "6.prems"(2,3) JObject by (auto simp: list_all_iff)
        from that(3) have "hash_component ''k'' (utf8_bytes (fst x)) @ (hash_json_value (snd x) False @ r') =
            hash_component ''k'' (utf8_bytes (fst y)) @ (hash_json_value (snd y) False @ q')" by simp
        from hash_component_prefix_free [OF this ok(1,2)] "6.IH" [OF that(1) _ ok(3,4)] show ?thesis by auto
      qed
    qed
    with JObject show ?thesis by simp
  qed (simp_all add: hash_component_def tag_distinct split: if_splits)
qed


text \<open>Conversely the byte string is a function of the meaning.\<close>

fun plain_bytes :: "json \<Rightarrow> byte list" where
  "plain_bytes JNull = ascii ''n''"
| "plain_bytes (JBool b) = (if b then ascii ''b1'' else ascii ''b0'')"
| "plain_bytes (JNumber t) = hash_component ''d'' (utf8_bytes t)"
| "plain_bytes (JString t) = hash_component ''s'' (utf8_bytes t)"
| "plain_bytes (JArray vs) = ascii ''a'' @ len_bytes (length vs) @ concat (map plain_bytes vs)"
| "plain_bytes (JObject members) =
     ascii ''o'' @ len_bytes (length members)
     @ concat (map (\<lambda>m. hash_component ''k'' (utf8_bytes (fst m)) @ plain_bytes (snd m)) members)"

lemma hash_json_value_meaning: "hash_json_value v root = plain_bytes (meaning v root)"
proof (induction v root rule: hash_json_value.induct)
  case (5 vs root)
  then show ?case by (simp add: comp_def cong: map_cong)
next
  case (6 members root)
  then show ?case by (simp add: comp_def cong: map_cong)
qed simp_all

lemma text_ok_S:
  assumes "length s \<le> 64"
  shows "text_ok (S s)"
proof -
  have "length (utf8_bytes (S t)) \<le> 2 * length t" for t
  proof (induction t)
    case (Cons c t)
    then show ?case
      using less_trans [OF nat_of_char_less_256 [of c], of 2048]
      by (simp add: utf8_bytes_def S_def encode_utf8_def code_point_def Let_def)
  qed (simp add: utf8_bytes_def)
  moreover have "list_all is_scalar_value (S s)"
    using less_trans [OF nat_of_char_less_256, of 55296]
    by (simp add: S_def list_all_iff is_scalar_value_def code_point_def)
  moreover have "2 * length s \<le> u64_max" using assms by (simp add: u64_max_def)
  ultimately show ?thesis using order_trans unfolding text_ok_def by blast
qed

lemma canonical_text_ok: "text_ok operation \<Longrightarrow> text_ok (canonical_office_operation operation)"
proof -
  assume ok: "text_ok operation"
  have "\<forall>(alias, canonical) \<in> set office_aliases. length canonical \<le> 64" by (simp add: office_aliases_def)
  then have "text_ok canonical"
    if "map_of (map (\<lambda>(alias, canonical). (S alias, S canonical)) office_aliases) operation = Some canonical" for canonical
    using map_of_SomeD [OF that] text_ok_S by (auto simp: case_prod_beta)
  with ok show ?thesis by (simp add: canonical_office_operation_def split: option.split)
qed

definition replace_operation :: "rstring \<Rightarrow> (rstring \<times> json) list \<Rightarrow> (rstring \<times> json) list" where
  "replace_operation c = map (\<lambda>(k, w). if k = S ''operation'' then (k, JString c) else (k, w))"

lemma canonical_args_object:
  "canonical_args tool (JObject members) =
     (case Option.bind (map_of members (S ''operation'')) as_str of
        None \<Rightarrow> JObject members
      | Some operation \<Rightarrow>
          if one_of tool [''office_document'', ''office_spreadsheet'', ''office_presentation'']
             \<and> canonical_office_operation operation \<noteq> operation
          then JObject (replace_operation (canonical_office_operation operation) members) else JObject members)"
proof (cases "Option.bind (map_of members (S ''operation'')) as_str")
  case (Some operation)
  then have "S ''operation'' \<in> fst ` set members"
    by (auto simp: bind_eq_Some_conv dest!: map_of_SomeD intro: rev_image_eqI)
  with Some show ?thesis
    by (simp add: canonical_args_def canonicalize_office_operation_alias_def json_get_def object_insert_def
        replace_operation_def Let_def)
qed (simp add: canonical_args_def canonicalize_office_operation_alias_def json_get_def)

lemma canonical_args_other: "as_object args = None \<Longrightarrow> canonical_args tool args = args"
  by (simp add: canonical_args_def canonicalize_office_operation_alias_def)

lemma as_str_ok: "as_str v = Some t \<Longrightarrow> json_ok v \<Longrightarrow> text_ok t"
  by (cases v) auto

lemma canonical_args_ok:
  assumes "json_ok args"
  shows "json_ok (canonical_args tool args)"
proof (cases args)
  case (JObject members)
  have ok: "text_ok operation" if "Option.bind (map_of members (S ''operation'')) as_str = Some operation" for operation
    using that assms JObject by (fastforce simp: bind_eq_Some_conv list_all_iff dest!: map_of_SomeD intro: as_str_ok)
  have "json_ok (JObject (replace_operation c members))" if "text_ok c" for c
    using that assms JObject by (auto simp: replace_operation_def list_all_iff)
  then show ?thesis
    using assms JObject canonical_text_ok [OF ok] by (simp add: canonical_args_object split: option.split)
qed (use assms in \<open>simp_all add: canonical_args_other\<close>)

lemma lower_hex_inj: "lower_hex a = lower_hex b \<Longrightarrow> a = b"
proof (induction a arbitrary: b)
  case Nil
  then show ?case by (cases b) (simp_all add: lower_hex_def)
next
  case (Cons x a)
  have digit: "m = n" if "lower_hex_digit m = lower_hex_digit n" "m < 16" "n < 16" for m n
  proof -
    have "distinct ''0123456789abcdef''" by simp
    with that show ?thesis by (simp add: lower_hex_digit_def nth_eq_iff_index_eq del: distinct.simps)
  qed
  from Cons.prems obtain y c where b: "b = y # c" by (cases b) (auto simp: lower_hex_def)
  with Cons.prems have eq: "lower_hex_digit (unat x div 16) = lower_hex_digit (unat y div 16)"
    "lower_hex_digit (unat x mod 16) = lower_hex_digit (unat y mod 16)" "lower_hex a = lower_hex c"
    by (simp_all add: lower_hex_def)
  have "unat x < 256" "unat y < 256" using unsigned_less [of x] unsigned_less [of y] by simp_all
  then have "unat x div 16 < 16" "unat y div 16 < 16" by simp_all
  with eq digit have "unat x div 16 = unat y div 16" "unat x mod 16 = unat y mod 16" by simp_all
  then have "unat x = unat y" by (metis mult_div_mod_eq)
  then have "x = y" by (rule unsigned_word_eqI)
  with Cons.IH [OF eq(3)] b show ?case by simp
qed


section \<open>Properties\<close>

lemma fingerprint_bytes_iff:
  assumes "text_ok tool" and "text_ok tool'" and "json_ok args" and "json_ok args'"
  shows "fingerprint_bytes tool args = fingerprint_bytes tool' args' \<longleftrightarrow>
    tool = tool' \<and> meaning (canonical_args tool args) True = meaning (canonical_args tool' args') True"
proof
  assume eq: "fingerprint_bytes tool args = fingerprint_bytes tool' args'"
  have "tool = tool' \<and> ascii ''args'' @ hash_json_value (canonical_args tool args) True =
      ascii ''args'' @ hash_json_value (canonical_args tool' args') True"
    by (rule hash_component_prefix_free [OF eq [unfolded fingerprint_bytes_def] assms(1,2)])
  then show "tool = tool' \<and> meaning (canonical_args tool args) True = meaning (canonical_args tool' args') True"
    using hash_json_value_prefix_free [of "canonical_args tool args" True "[]" "canonical_args tool' args'" "[]"]
      canonical_args_ok [OF assms(3)] canonical_args_ok [OF assms(4)] by auto
qed (auto simp: fingerprint_bytes_def hash_json_value_meaning)

text \<open>
  Unless the hash itself collides on them, two calls have the same fingerprint
  exactly when they name the same tool and their arguments mean the same: equal up to the order of object
  members, the member \<open>reason\<close> at the root, and the aliases of office operations. Nothing else is
  confused, whatever text the arguments contain.
\<close>

theorem fingerprint_identity:
  assumes "text_ok tool" and "text_ok tool'" and "json_ok args" and "json_ok args'"
    and "sha256 (fingerprint_bytes tool args) = sha256 (fingerprint_bytes tool' args') \<Longrightarrow>
      fingerprint_bytes tool args = fingerprint_bytes tool' args'"
  shows "semantic_tool_call_fingerprint sha256 tool args = semantic_tool_call_fingerprint sha256 tool' args' \<longleftrightarrow>
    tool = tool' \<and> meaning (canonical_args tool args) True = meaning (canonical_args tool' args') True"
proof -
  have "semantic_tool_call_fingerprint sha256 tool args = semantic_tool_call_fingerprint sha256 tool' args' \<longleftrightarrow>
      fingerprint_bytes tool args = fingerprint_bytes tool' args'"
    using lower_hex_inj assms(5) by (auto simp: semantic_tool_call_fingerprint_def)
  with fingerprint_bytes_iff [OF assms(1-4)] show ?thesis by simp
qed

lemma key_order_inj: "key_order s = key_order t \<Longrightarrow> s = t"
  unfolding key_order_def by (metis map_map map_idI comp_apply scalar_code_point)

lemma sort_members_cong:
  assumes "mset m = mset m'" and "distinct (map fst m)"
  shows "sort_members m = sort_members m'"
  unfolding sort_members_def
proof (rule sort_key_eq_sort_key [OF assms(1)])
  show "inj_on (\<lambda>x. key_order (fst x)) (set m)"
    using assms(2) key_order_inj unfolding inj_on_def distinct_map by blast
qed

abbreviation without_reason :: "(rstring \<times> 'a) list \<Rightarrow> (rstring \<times> 'a) list" where
  "without_reason m \<equiv> filter (\<lambda>x. fst x \<noteq> S ''reason'') m"

lemma semantic_members_root: "semantic_members True m = sort_members (without_reason m)"
  by (simp add: semantic_members_def sort_members_def filter_sort)

lemma hash_without_reason:
  assumes "mset (without_reason m) = mset (without_reason m')" and "distinct (map fst m)"
  shows "hash_json_value (JObject m) True = hash_json_value (JObject m') True"
proof -
  have "distinct (map fst (without_reason m))" using assms(2) by (rule distinct_map_filter)
  from sort_members_cong [OF assms(1) this] show ?thesis by (simp add: semantic_members_root)
qed

lemma without_reason_map_of:
  assumes "mset (without_reason m) = mset (without_reason m')" and "distinct (map fst m)" and "distinct (map fst m')"
    and "k \<noteq> S ''reason''"
  shows "map_of m k = map_of m' k"
proof -
  have "(k, v) \<in> set m \<longleftrightarrow> (k, v) \<in> set m'" for v
    using mset_eq_setD [OF assms(1)] assms(4) by (auto simp: set_eq_iff)
  then have "map_of m k = Some v \<longleftrightarrow> map_of m' k = Some v" for v
    using assms(2,3) by (simp add: map_of_eq_Some_iff)
  then show ?thesis by (metis not_None_eq)
qed

text \<open>
  Writing the members of the arguments in another order, or
  giving another reason or none, does not change the fingerprint of a call.
\<close>

theorem fingerprint_ignores_order_and_reason:
  assumes "mset (without_reason m) = mset (without_reason m')" and "distinct (map fst m)" and "distinct (map fst m')"
  shows "semantic_tool_call_fingerprint sha256 tool (JObject m) = semantic_tool_call_fingerprint sha256 tool (JObject m')"
proof -
  have keys: "map fst (replace_operation c n) = map fst n" for c n
    by (simp add: replace_operation_def comp_def case_prod_beta if_distrib cong: if_cong)
  have drop: "without_reason (replace_operation c n) = replace_operation c (without_reason n)" for c n
    unfolding replace_operation_def filter_map
    by (auto intro!: arg_cong [of _ _ "map _"] filter_cong)
  have op: "map_of m (S ''operation'') = map_of m' (S ''operation'')"
    by (rule without_reason_map_of [OF assms]) simp
  have same: "hash_json_value (JObject m) True = hash_json_value (JObject m') True"
    by (rule hash_without_reason [OF assms(1,2)])
  have "mset (without_reason (replace_operation c m)) = mset (without_reason (replace_operation c m'))" for c
    unfolding drop unfolding replace_operation_def mset_map assms(1) ..
  from hash_without_reason [OF this] keys assms(2)
  have replaced: "hash_json_value (JObject (replace_operation c m)) True = hash_json_value (JObject (replace_operation c m')) True" for c
    by simp
  have "hash_json_value (canonical_args tool (JObject m)) True = hash_json_value (canonical_args tool (JObject m')) True"
    unfolding canonical_args_object op using same replaced
    by (simp del: hash_json_value.simps split: option.split)
  then show ?thesis by (simp add: semantic_tool_call_fingerprint_def fingerprint_bytes_def del: hash_json_value.simps)
qed


section \<open>Witnesses\<close>

text \<open>
  The identity in place of the hash satisfies the hypothesis of \<open>fingerprint_identity\<close>: two spellings of
  one call with different reasons.
\<close>

definition example_call :: json where
  "example_call = JObject [(S ''operation'', JString (S ''add_image'')), (S ''reason'', JString (S ''first''))]"

definition example_spelling :: json where
  "example_spelling = JObject [(S ''reason'', JNull), (S ''operation'', JString (S ''insertImage''))]"

lemma example_ok: "json_ok example_call" "json_ok example_spelling" "text_ok (S ''office_document'')"
  by (simp_all add: example_call_def example_spelling_def text_ok_S u64_max_def)

theorem fingerprint_identity_witness:
  "semantic_tool_call_fingerprint (\<lambda>b. b) (S ''office_document'') example_call =
   semantic_tool_call_fingerprint (\<lambda>b. b) (S ''office_document'') example_spelling \<longleftrightarrow>
     meaning (canonical_args (S ''office_document'') example_call) True =
     meaning (canonical_args (S ''office_document'') example_spelling) True"
  using fingerprint_identity [OF example_ok(3,3,1,2), of "\<lambda>b. b"] by blast

theorem fingerprint_ignores_order_and_reason_witness:
  "semantic_tool_call_fingerprint (\<lambda>b. b) (S ''read_file'')
     (JObject [(S ''path'', JString (S ''a'')), (S ''reason'', JNull), (S ''limit'', JNumber (S ''1''))]) =
   semantic_tool_call_fingerprint (\<lambda>b. b) (S ''read_file'')
     (JObject [(S ''limit'', JNumber (S ''1'')), (S ''path'', JString (S ''a''))])"
  by (rule fingerprint_ignores_order_and_reason) simp_all

end
