(* ===== verification/Tool_Failure_Guard.thy ===== *)
theory Tool_Failure_Guard
  imports Call_Fingerprint
begin

text \<open>
  The guard against repeated failures, \<open>src/crates/core/src/runtime/tool_failure_guard.rs\<close>: two real
  failures of a call are allowed, further attempts are answered locally, and the second local answer
  ends the run. The state is a map from fingerprints to counters; it is rebuilt from the recorded trace
  when a run resumes. The hash function is a parameter.
\<close>

section \<open>State\<close>

definition MAX_EXECUTED_FAILURES :: nat where "MAX_EXECUTED_FAILURES = 2"
definition MAX_LOCAL_BLOCKS_BEFORE_TERMINATION :: nat where "MAX_LOCAL_BLOCKS_BEFORE_TERMINATION = 2"
definition REPEATED_CALL_ERROR_CODE :: rstring where "REPEATED_CALL_ERROR_CODE = S ''agent.repeated_tool_call_blocked''"
definition DUPLICATE_IN_BATCH_ERROR_CODE :: rstring where
  "DUPLICATE_IN_BATCH_ERROR_CODE = S ''agent.duplicate_tool_call_in_batch''"

definition FILE_OBSERVATION_REUSED_CODE :: rstring where
  "FILE_OBSERVATION_REUSED_CODE = S ''agent.file_observation_reused_in_batch''"

definition u32_max :: nat where "u32_max = 2 ^ 32 - 1"

definition saturating_add32 :: "nat \<Rightarrow> nat \<Rightarrow> nat" where
  "saturating_add32 a b = min (a + b) u32_max"

record failure_record =
  fr_executed_failures :: nat
  fr_local_blocks :: nat

definition no_failures :: failure_record where
  "no_failures = \<lparr>fr_executed_failures = 0, fr_local_blocks = 0\<rparr>"

type_synonym failure_guard = "rstring \<Rightarrow> failure_record option"

text \<open>The fields of a call and of a result that the guard reads or writes.\<close>

record tool_call =
  tc_id :: rstring
  tc_tool :: rstring
  tc_args :: json

record tool_result =
  tr_call_id :: rstring
  tr_tool :: rstring
  tr_ok :: bool
  tr_result :: "json option"
  tr_error :: "rstring option"

record guard_block =
  gb_result :: tool_result
  gb_terminate_after_result :: bool

section \<open>Operations\<close>

definition bypass_cross_response_failure_guard :: "rstring \<Rightarrow> bool" where
  "bypass_cross_response_failure_guard tool = (tool = S ''run_command'')"

definition observation_error_code :: "json \<Rightarrow> rstring option" where
  "observation_error_code observation =
     (case Option.bind (json_get observation ''errorCode'') as_str of
        Some code \<Rightarrow> Some code
      | None \<Rightarrow> Option.bind (json_get observation ''code'') as_str)"

definition entry_or_default :: "failure_guard \<Rightarrow> rstring \<Rightarrow> failure_record" where
  "entry_or_default g fingerprint = (case g fingerprint of Some r \<Rightarrow> r | None \<Rightarrow> no_failures)"

definition count_executed :: "rstring \<Rightarrow> failure_guard \<Rightarrow> failure_guard" where
  "count_executed fingerprint g =
     (let r = entry_or_default g fingerprint in
      g(fingerprint \<mapsto> r\<lparr>fr_executed_failures := saturating_add32 (fr_executed_failures r) 1\<rparr>))"

definition count_blocked :: "rstring \<Rightarrow> failure_guard \<Rightarrow> failure_guard" where
  "count_blocked fingerprint g =
     (let r = entry_or_default g fingerprint in
      g(fingerprint \<mapsto> r\<lparr>fr_local_blocks := saturating_add32 (fr_local_blocks r) 1\<rparr>))"

text \<open>The text of a decimal number.\<close>

function decimal :: "nat \<Rightarrow> rstring" where
  "decimal n = (if n < 10 then [Ch (''0123456789'' ! n)] else decimal (n div 10) @ [Ch (''0123456789'' ! (n mod 10))])"
  by pat_completeness auto
termination by (relation "measure id") auto

declare decimal.simps [simp del]

definition block_message :: "bool \<Rightarrow> rstring \<Rightarrow> rstring" where
  "block_message terminal tool =
     (if terminal
      then S ''Tool `'' @ tool @ S ''` repeated the same failed semantic call after the runtime correction. The run is stopping to prevent a loop.''
      else S ''Tool `'' @ tool @ S ''` already failed twice with the same semantic arguments. This duplicate attempt was not executed. Change the arguments or use another capability.'')"

definition block_result :: "rstring \<Rightarrow> failure_record \<Rightarrow> bool \<Rightarrow> tool_call \<Rightarrow> tool_result" where
  "block_result fingerprint r terminal call =
     \<lparr>tr_call_id = tc_id call, tr_tool = tc_tool call, tr_ok = False,
      tr_result = Some (JObject
        [(S ''type'', JString (S ''runtime_guard'')),
         (S ''code'', JString (S ''repeatedToolCallBlocked'')),
         (S ''errorCode'', JString REPEATED_CALL_ERROR_CODE),
         (S ''recovery'', JString (S ''changeArgumentsOrUseDifferentCapability'')),
         (S ''tool'', JString (tc_tool call)),
         (S ''semanticFingerprint'', JString fingerprint),
         (S ''executedFailureCount'', JNumber (decimal (fr_executed_failures r))),
         (S ''blockedAttemptCount'', JNumber (decimal (fr_local_blocks r))),
         (S ''terminal'', JBool terminal),
         (S ''message'', JString (block_message terminal (tc_tool call)))]),
      tr_error = Some (block_message terminal (tc_tool call))\<rparr>"

definition before_call ::
  "(byte list \<Rightarrow> byte list) \<Rightarrow> tool_call \<Rightarrow> failure_guard \<Rightarrow> guard_block option \<times> failure_guard" where
  "before_call sha256 call g =
     (if bypass_cross_response_failure_guard (tc_tool call) then (None, g)
      else
        let fingerprint = semantic_tool_call_fingerprint sha256 (tc_tool call) (tc_args call) in
        case g fingerprint of
          None \<Rightarrow> (None, g)
        | Some r \<Rightarrow>
            if fr_executed_failures r < MAX_EXECUTED_FAILURES then (None, g)
            else
              let r = r\<lparr>fr_local_blocks := saturating_add32 (fr_local_blocks r) 1\<rparr>;
                  terminal = (MAX_LOCAL_BLOCKS_BEFORE_TERMINATION \<le> fr_local_blocks r) in
              (Some \<lparr>gb_result = block_result fingerprint r terminal call, gb_terminate_after_result = terminal\<rparr>,
               g(fingerprint \<mapsto> r)))"

definition observe :: "(byte list \<Rightarrow> byte list) \<Rightarrow> tool_call \<Rightarrow> tool_result \<Rightarrow> failure_guard \<Rightarrow> failure_guard" where
  "observe sha256 call result g =
     (if bypass_cross_response_failure_guard (tc_tool call) then g
      else
        let fingerprint = semantic_tool_call_fingerprint sha256 (tc_tool call) (tc_args call) in
        if tr_ok result then g(fingerprint := None)
        else
          let error_code = Option.bind (tr_result result) observation_error_code in
          if error_code = Some REPEATED_CALL_ERROR_CODE \<or> error_code = Some DUPLICATE_IN_BATCH_ERROR_CODE then g
          else count_executed fingerprint g)"

section \<open>The trace\<close>

datatype trace_status = Succeeded | OtherStatus

datatype trace_item =
    TraceToolCall rstring rstring json
  | TraceToolResult rstring rstring trace_status bool json
  | TraceOther

definition replay_result ::
  "(byte list \<Rightarrow> byte list) \<Rightarrow> rstring \<Rightarrow> json \<Rightarrow> trace_status \<Rightarrow> bool \<Rightarrow> json \<Rightarrow> failure_guard \<Rightarrow> failure_guard" where
  "replay_result sha256 tool operation status success observation g =
     (if bypass_cross_response_failure_guard tool then g
      else
        let fingerprint = semantic_tool_call_fingerprint sha256 tool operation;
            error_code = observation_error_code observation in
        if success \<or> status = Succeeded then g(fingerprint := None)
        else if error_code = Some REPEATED_CALL_ERROR_CODE then count_blocked fingerprint g
        else if error_code = Some DUPLICATE_IN_BATCH_ERROR_CODE then g
        else count_executed fingerprint g)"

fun replay_items ::
  "(byte list \<Rightarrow> byte list) \<Rightarrow> trace_item list \<Rightarrow> (rstring \<times> rstring \<times> json) option \<Rightarrow> failure_guard \<Rightarrow> failure_guard" where
  "replay_items sha256 [] pending g = g"
| "replay_items sha256 (TraceToolCall call_id tool operation # items) pending g =
     replay_items sha256 items (Some (call_id, tool, operation)) g"
| "replay_items sha256 (TraceToolResult call_id tool status success observation # items) pending g =
     (case pending of
        None \<Rightarrow> replay_items sha256 items None g
      | Some (pending_id, pending_tool, operation) \<Rightarrow>
          if pending_id \<noteq> call_id \<or> pending_tool \<noteq> tool then replay_items sha256 items None g
          else replay_items sha256 items None (replay_result sha256 tool operation status success observation g))"
| "replay_items sha256 (TraceOther # items) pending g = replay_items sha256 items pending g"

text \<open>
  \<open>ConversationTraceSnapshot::committed_prefix\<close>: everything before the last call that has no result after it.
\<close>

definition is_result_of :: "rstring \<Rightarrow> trace_item \<Rightarrow> bool" where
  "is_result_of call_id item = (case item of TraceToolResult result_id _ _ _ _ \<Rightarrow> result_id = call_id | _ \<Rightarrow> False)"

fun last_unresolved :: "trace_item list \<Rightarrow> nat option" where
  "last_unresolved [] = None"
| "last_unresolved (item # items) =
     (case last_unresolved items of
        Some index \<Rightarrow> Some (Suc index)
      | None \<Rightarrow>
          (case item of
             TraceToolCall call_id _ _ \<Rightarrow> if list_ex (is_result_of call_id) items then None else Some 0
           | _ \<Rightarrow> None))"

definition committed_prefix :: "trace_item list \<Rightarrow> trace_item list" where
  "committed_prefix items = (case last_unresolved items of None \<Rightarrow> items | Some index \<Rightarrow> take index items)"

definition from_trace :: "(byte list \<Rightarrow> byte list) \<Rightarrow> trace_item list \<Rightarrow> failure_guard" where
  "from_trace sha256 items = replay_items sha256 (committed_prefix items) None Map.empty"


section \<open>Runs\<close>

text \<open>
  How the runtime settles a call (\<open>tool_preflight.rs\<close>, \<open>driver.rs\<close>): an attempt asks the guard and is
  executed unless the guard answers; a call refused by an earlier check is answered with its failure; a
  duplicate within one response, and a call that reuses a file observation of an earlier call of its
  response, is answered without asking or telling the guard. What the recorder writes into the trace of
  a run is not modelled; \<open>from_trace\<close> is a function of the items it finds there.
\<close>

datatype settlement =
    Attempt tool_call tool_result
  | Refused tool_call tool_result
  | Duplicate tool_call tool_result
  | Reused tool_call tool_result

datatype settled_outcome = Executed bool | Blocked bool | Answered | AnsweredReused | Unguarded

fun settled_call :: "settlement \<Rightarrow> tool_call" where
  "settled_call (Attempt call result) = call"
| "settled_call (Refused call result) = call"
| "settled_call (Duplicate call result) = call"
| "settled_call (Reused call result) = call"

fun settle :: "(byte list \<Rightarrow> byte list) \<Rightarrow> settlement \<Rightarrow> failure_guard \<Rightarrow> settled_outcome \<times> failure_guard" where
  "settle sha256 (Attempt call result) g =
     (case before_call sha256 call g of
        (Some block, g) \<Rightarrow> (Blocked (gb_terminate_after_result block), observe sha256 call (gb_result block) g)
      | (None, g) \<Rightarrow>
          (if bypass_cross_response_failure_guard (tc_tool call) then Unguarded else Executed (tr_ok result),
           observe sha256 call result g))"
| "settle sha256 (Refused call result) g = (Answered, observe sha256 call result g)"
| "settle sha256 (Duplicate call result) g = (Answered, g)"
| "settle sha256 (Reused call result) g = (AnsweredReused, g)"

definition result_code :: "tool_result \<Rightarrow> rstring option" where
  "result_code result = Option.bind (tr_result result) observation_error_code"

text \<open>The codes of the guard and of the duplicate check belong to them alone.\<close>

fun settlement_ok :: "settlement \<Rightarrow> bool" where
  "settlement_ok (Attempt call result) =
     (result_code result \<noteq> Some REPEATED_CALL_ERROR_CODE \<and> result_code result \<noteq> Some DUPLICATE_IN_BATCH_ERROR_CODE)"
| "settlement_ok (Refused call result) =
     (\<not> tr_ok result \<and> result_code result \<noteq> Some REPEATED_CALL_ERROR_CODE
      \<and> result_code result \<noteq> Some DUPLICATE_IN_BATCH_ERROR_CODE)"
| "settlement_ok (Duplicate call result) = (\<not> tr_ok result \<and> result_code result = Some DUPLICATE_IN_BATCH_ERROR_CODE)"
| "settlement_ok (Reused call result) = (\<not> tr_ok result \<and> result_code result = Some FILE_OBSERVATION_REUSED_CODE)"

abbreviation call_fingerprint :: "(byte list \<Rightarrow> byte list) \<Rightarrow> tool_call \<Rightarrow> rstring" where
  "call_fingerprint sha256 call \<equiv> semantic_tool_call_fingerprint sha256 (tc_tool call) (tc_args call)"

inductive guarded_run ::
  "(byte list \<Rightarrow> byte list) \<Rightarrow> failure_guard \<Rightarrow> (rstring \<times> settled_outcome) list \<Rightarrow> bool"
  for sha256 where
  start: "guarded_run sha256 Map.empty []"
| step: "guarded_run sha256 g log \<Longrightarrow> settlement_ok s \<Longrightarrow> settle sha256 s g = (outcome, g') \<Longrightarrow>
     guarded_run sha256 g' ((call_fingerprint sha256 (settled_call s), outcome) # log)"

text \<open>Failed executions and blocks of a call since it last succeeded; the log is newest first.\<close>

fun failures_since :: "rstring \<Rightarrow> (rstring \<times> settled_outcome) list \<Rightarrow> nat" where
  "failures_since fp [] = 0"
| "failures_since fp ((f, outcome) # log) =
     (if f = fp \<and> outcome = Executed True then 0
      else (if f = fp \<and> outcome = Executed False then 1 else 0) + failures_since fp log)"

fun blocks_since :: "rstring \<Rightarrow> (rstring \<times> settled_outcome) list \<Rightarrow> nat" where
  "blocks_since fp [] = 0"
| "blocks_since fp ((f, outcome) # log) =
     (if f = fp \<and> outcome = Executed True then 0
      else (if f = fp \<and> (\<exists>t. outcome = Blocked t) then 1 else 0) + blocks_since fp log)"

section \<open>What the guard keeps\<close>

definition guard_ok :: "failure_guard \<Rightarrow> (rstring \<times> settled_outcome) list \<Rightarrow> bool" where
  "guard_ok g log \<longleftrightarrow>
     (\<forall>fp. failures_since fp log \<le> fr_executed_failures (entry_or_default g fp)
        \<and> failures_since fp log \<le> MAX_EXECUTED_FAILURES
        \<and> fr_local_blocks (entry_or_default g fp) = min (blocks_since fp log) u32_max)"

lemma entry_update [simp]:
  "entry_or_default (g(f \<mapsto> r)) fp = (if fp = f then r else entry_or_default g fp)"
  "entry_or_default (g(f := None)) fp = (if fp = f then no_failures else entry_or_default g fp)"
  by (simp_all add: entry_or_default_def)

lemma saturating_add32_one:
  "saturating_add32 (min n u32_max) 1 = min (Suc n) u32_max" "saturating_add32 (min n u32_max) (Suc 0) = min (Suc n) u32_max"
  by (simp_all add: saturating_add32_def min_def)

lemma block_code: "result_code (block_result fp r terminal call) = Some REPEATED_CALL_ERROR_CODE"
  by (simp add: result_code_def block_result_def observation_error_code_def json_get_def)

lemma block_not_ok: "\<not> tr_ok (block_result fp r terminal call)"
  by (simp add: block_result_def)

lemma before_call_blocked:
  assumes "before_call sha256 call g = (Some block, g')"
  shows "g' = count_blocked (call_fingerprint sha256 call) g"
    and "result_code (gb_result block) = Some REPEATED_CALL_ERROR_CODE" and "\<not> tr_ok (gb_result block)"
    and "\<not> bypass_cross_response_failure_guard (tc_tool call)"
    and "MAX_EXECUTED_FAILURES \<le> fr_executed_failures (entry_or_default g (call_fingerprint sha256 call))"
    and "gb_terminate_after_result block \<longleftrightarrow> MAX_LOCAL_BLOCKS_BEFORE_TERMINATION \<le>
      saturating_add32 (fr_local_blocks (entry_or_default g (call_fingerprint sha256 call))) 1"
  using assms
  by (auto simp: before_call_def count_blocked_def entry_or_default_def Let_def block_code block_not_ok
      split: if_splits option.splits)

lemma before_call_passes:
  assumes "before_call sha256 call g = (None, g')"
  shows "g' = g" and "\<not> bypass_cross_response_failure_guard (tc_tool call) \<Longrightarrow>
    fr_executed_failures (entry_or_default g (call_fingerprint sha256 call)) < MAX_EXECUTED_FAILURES"
  using assms
  by (auto simp: before_call_def entry_or_default_def no_failures_def MAX_EXECUTED_FAILURES_def Let_def
      split: if_splits option.splits)

lemma observe_cases:
  "observe sha256 call result g =
     (if bypass_cross_response_failure_guard (tc_tool call) then g
      else if tr_ok result then g(call_fingerprint sha256 call := None)
      else if result_code result = Some REPEATED_CALL_ERROR_CODE \<or> result_code result = Some DUPLICATE_IN_BATCH_ERROR_CODE
      then g else count_executed (call_fingerprint sha256 call) g)"
  by (simp add: observe_def result_code_def Let_def)

lemma executed_counts:
  assumes "n \<le> e" and "n \<le> MAX_EXECUTED_FAILURES"
  shows "n \<le> saturating_add32 e 1" and "e < MAX_EXECUTED_FAILURES \<Longrightarrow> Suc n \<le> saturating_add32 e 1"
    and "e < MAX_EXECUTED_FAILURES \<Longrightarrow> Suc n \<le> MAX_EXECUTED_FAILURES"
  using assms by (simp_all add: saturating_add32_def u32_max_def MAX_EXECUTED_FAILURES_def)

lemma guard_ok_settle:
  assumes "guard_ok g log" and "settlement_ok s" and "settle sha256 s g = (outcome, g')"
  shows "guard_ok g' ((call_fingerprint sha256 (settled_call s), outcome) # log)"
proof (cases s)
  case (Attempt call result)
  show ?thesis
  proof (cases "fst (before_call sha256 call g)")
    case None
    then obtain g1 where pass: "before_call sha256 call g = (None, g1)" by (metis prod.collapse)
    note passes = before_call_passes [OF pass]
    let ?fp = "call_fingerprint sha256 call"
    have ok: "failures_since fp log \<le> fr_executed_failures (entry_or_default g fp)"
      "failures_since fp log \<le> MAX_EXECUTED_FAILURES"
      "fr_local_blocks (entry_or_default g fp) = min (blocks_since fp log) u32_max" for fp
      using assms(1) by (simp_all add: guard_ok_def)
    show ?thesis
      using assms(2,3) Attempt pass passes ok executed_counts(2,3) [OF ok(1,2), of ?fp]
      by (auto simp: guard_ok_def observe_cases count_executed_def no_failures_def Let_def split: if_splits)
  next
    case (Some block)
    then obtain g1 where blocked: "before_call sha256 call g = (Some block, g1)" by (metis prod.collapse)
    note blocks = before_call_blocked [OF blocked]
    show ?thesis
      using assms Attempt blocked blocks
      by (auto simp: guard_ok_def observe_cases count_blocked_def saturating_add32_one Let_def)
  qed
next
  case (Refused call result)
  have ok: "failures_since fp log \<le> fr_executed_failures (entry_or_default g fp)"
      "failures_since fp log \<le> MAX_EXECUTED_FAILURES" for fp
    using assms(1) by (simp_all add: guard_ok_def)
  show ?thesis
    using assms Refused executed_counts(1) [OF ok]
    by (auto simp: guard_ok_def observe_cases count_executed_def Let_def split: if_splits)
next
  case (Duplicate call result)
  with assms show ?thesis by (auto simp: guard_ok_def)
next
  case (Reused call result)
  with assms show ?thesis by (auto simp: guard_ok_def)
qed

lemma run_guard_ok: "guarded_run sha256 g log \<Longrightarrow> guard_ok g log"
proof (induction rule: guarded_run.induct)
  case start
  show ?case by (simp add: guard_ok_def entry_or_default_def no_failures_def)
next
  case (step g log s outcome g')
  then show ?case using guard_ok_settle by blast
qed

text \<open>Replaying a trace piece by piece.\<close>

lemma replay_items_call:
  "replay_items sha256 (trace @ TraceToolCall c t a # items) pending g =
     replay_items sha256 (TraceToolCall c t a # items) None (replay_items sha256 trace pending g)"
proof (induction trace arbitrary: pending g)
  case (Cons item trace)
  then show ?case by (cases item) (simp_all split: option.split prod.split)
qed simp

lemma last_unresolved_append:
  "last_unresolved (items @ [TraceToolCall call_id tool operation]) = Some (length items)"
  by (induction items) simp_all

section \<open>Properties\<close>

text \<open>
  C14: in every run, a call other than \<open>run_command\<close> is executed without success at
  most twice since it last succeeded, however it is spelled and whatever happens in between; after two
  failures the next attempt is answered locally, and the run is told to stop exactly from the second such
  answer on.
\<close>

theorem guard_stops_repetition:
  assumes "guarded_run sha256 g log"
  shows "failures_since fp log \<le> 2
    \<and> (\<not> bypass_cross_response_failure_guard (tc_tool call) \<and> failures_since (call_fingerprint sha256 call) log = 2
       \<longrightarrow> fst (settle sha256 (Attempt call result) g) = Blocked (1 \<le> blocks_since (call_fingerprint sha256 call) log))"
proof -
  have ok: "failures_since f log \<le> fr_executed_failures (entry_or_default g f)" "failures_since f log \<le> 2"
    "fr_local_blocks (entry_or_default g f) = min (blocks_since f log) u32_max" for f
    using run_guard_ok [OF assms] by (simp_all add: guard_ok_def MAX_EXECUTED_FAILURES_def)
  have "fst (settle sha256 (Attempt call result) g) = Blocked (1 \<le> blocks_since (call_fingerprint sha256 call) log)"
    if "\<not> bypass_cross_response_failure_guard (tc_tool call)" "failures_since (call_fingerprint sha256 call) log = 2"
  proof (cases "fst (before_call sha256 call g)")
    case None
    then obtain g1 where pass: "before_call sha256 call g = (None, g1)" by (metis prod.collapse)
    with before_call_passes(2) [OF pass that(1)] ok(1) [of "call_fingerprint sha256 call"] that(2)
    show ?thesis by (simp add: MAX_EXECUTED_FAILURES_def)
  next
    case (Some block)
    then obtain g1 where blocked: "before_call sha256 call g = (Some block, g1)" by (metis prod.collapse)
    show ?thesis
      using blocked before_call_blocked(6) [OF blocked] ok(3) [of "call_fingerprint sha256 call"]
        saturating_add32_one(1) [of "blocks_since (call_fingerprint sha256 call) log"]
      by (simp add: MAX_LOCAL_BLOCKS_BEFORE_TERMINATION_def u32_max_def min_def)
  qed
  with ok(2) show ?thesis by blast
qed

text \<open>A call that still waits for its result, such as one that was paused for approval, leaves no mark on the rebuilt guard.\<close>

theorem pending_call_leaves_no_mark:
  "from_trace sha256 (items @ [TraceToolCall call_id tool operation]) = replay_items sha256 items None Map.empty"
  by (simp add: from_trace_def committed_prefix_def last_unresolved_append)

text \<open>
  Two ways in which the counters depart from what actually ran. A call that was answered because it
  reused a file observation is not counted by the running guard, but its result in a trace is counted as an executed
  failure by the guard that is rebuilt from the trace.
\<close>

theorem reused_observation_counts_on_replay:
  assumes "observation_error_code observation = Some FILE_OBSERVATION_REUSED_CODE"
    and "\<not> bypass_cross_response_failure_guard tool" and "status \<noteq> Succeeded"
  shows "settle sha256 (Reused call result) g = (AnsweredReused, g)"
    and "replay_items sha256 (items @ [TraceToolCall call_id tool operation, TraceToolResult call_id tool status False observation]) None g
      = count_executed (semantic_tool_call_fingerprint sha256 tool operation) (replay_items sha256 items None g)"
proof -
  have "FILE_OBSERVATION_REUSED_CODE \<noteq> REPEATED_CALL_ERROR_CODE"
    "FILE_OBSERVATION_REUSED_CODE \<noteq> DUPLICATE_IN_BATCH_ERROR_CODE"
    by (simp_all add: FILE_OBSERVATION_REUSED_CODE_def REPEATED_CALL_ERROR_CODE_def DUPLICATE_IN_BATCH_ERROR_CODE_def)
  then show "replay_items sha256 (items @ [TraceToolCall call_id tool operation, TraceToolResult call_id tool status False observation]) None g
      = count_executed (semantic_tool_call_fingerprint sha256 tool operation) (replay_items sha256 items None g)"
    using assms by (simp add: replay_items_call replay_result_def Let_def)
qed simp

text \<open>Two refusals by an earlier check use up both attempts of a call that never ran.\<close>

theorem refusals_use_up_attempts:
  assumes "settlement_ok (Refused call result)" and "\<not> bypass_cross_response_failure_guard (tc_tool call)"
    and "settle sha256 (Refused call result) Map.empty = (o1, g1)" and "settle sha256 (Refused call result) g1 = (o2, g2)"
  shows "fst (settle sha256 (Attempt call outcome) g2) = Blocked False"
  using assms
  by (auto simp: observe_cases count_executed_def before_call_def entry_or_default_def no_failures_def saturating_add32_def
      u32_max_def MAX_EXECUTED_FAILURES_def MAX_LOCAL_BLOCKS_BEFORE_TERMINATION_def Let_def split: if_splits)

section \<open>Witnesses\<close>

definition example_tool_call :: tool_call where
  "example_tool_call = \<lparr>tc_id = S ''1'', tc_tool = S ''read_file'', tc_args = JObject [(S ''path'', JString (S ''a''))]\<rparr>"

definition example_failure :: tool_result where
  "example_failure = \<lparr>tr_call_id = S ''1'', tr_tool = S ''read_file'', tr_ok = False, tr_result = None, tr_error = Some (S ''missing'')\<rparr>"

lemma example_run_two_failures:
  "\<exists>g. guarded_run (\<lambda>b. b) g
     [(call_fingerprint (\<lambda>b. b) example_tool_call, Executed False),
      (call_fingerprint (\<lambda>b. b) example_tool_call, Executed False)]"
proof -
  let ?sha = "\<lambda>b. b" and ?s = "Attempt example_tool_call example_failure" and ?f = "call_fingerprint (\<lambda>b. b) example_tool_call"
  have guarded: "\<not> bypass_cross_response_failure_guard (tc_tool example_tool_call)"
    by (simp add: bypass_cross_response_failure_guard_def example_tool_call_def)
  have ok: "settlement_ok ?s" by (simp add: result_code_def example_failure_def)
  have fails: "fst (settle ?sha ?s g) = Executed False
      \<and> fr_executed_failures (entry_or_default (snd (settle ?sha ?s g)) ?f)
        = saturating_add32 (fr_executed_failures (entry_or_default g ?f)) 1"
    if "fr_executed_failures (entry_or_default g ?f) < 2" for g
    using that guarded
    by (auto simp: before_call_def observe_cases count_executed_def result_code_def example_failure_def
        MAX_EXECUTED_FAILURES_def entry_or_default_def no_failures_def Let_def split: option.split)
  obtain o1 g1 where one: "settle ?sha ?s Map.empty = (o1, g1)" by fastforce
  obtain o2 g2 where two: "settle ?sha ?s g1 = (o2, g2)" by fastforce
  have first: "o1 = Executed False" "fr_executed_failures (entry_or_default g1 ?f) = 1"
    using fails [of Map.empty] one
    by (simp_all add: entry_or_default_def no_failures_def saturating_add32_def u32_max_def)
  have second: "o2 = Executed False" using fails [of g1] first(2) two by simp
  have "guarded_run ?sha g1 [(?f, o1)]"
    using guarded_run.step [OF guarded_run.start ok one] by simp
  from guarded_run.step [OF this ok two] first(1) second show ?thesis by auto
qed


theorem guard_stops_repetition_witness:
  "\<exists>g log. guarded_run (\<lambda>b. b) g log
     \<and> fst (settle (\<lambda>b. b) (Attempt example_tool_call example_failure) g) = Blocked False"
proof -
  obtain g where run: "guarded_run (\<lambda>b. b) g
     [(call_fingerprint (\<lambda>b. b) example_tool_call, Executed False),
      (call_fingerprint (\<lambda>b. b) example_tool_call, Executed False)]"
    using example_run_two_failures by blast
  have "\<not> bypass_cross_response_failure_guard (tc_tool example_tool_call)"
    by (simp add: bypass_cross_response_failure_guard_def example_tool_call_def)
  with guard_stops_repetition [OF run, of _ example_tool_call example_failure]
  have "fst (settle (\<lambda>b. b) (Attempt example_tool_call example_failure) g) = Blocked False"
    by (simp del: settle.simps)
  with run show ?thesis by blast
qed

end
