(* ===== verification/Content_Revision.thy ===== *)
theory Content_Revision
  imports Call_Fingerprint
begin

text \<open>
  The revision of a file's content, \<open>src/crates/core/src/revision.rs\<close>, and the digests of
  \<open>src/crates/core/src/file_change/digest.rs\<close>. A revision is what the planner compares to detect that a
  file was changed since it was read. It is computed on 64-bit words with wrap-around, as in the source;
  the cryptographic hash of the digests is a parameter.
\<close>

unbundle bit_operations_syntax

section \<open>The hasher\<close>

definition FNV_OFFSET_BASIS :: "64 word" where "FNV_OFFSET_BASIS = 0xcbf29ce484222325"
definition FNV_PRIME :: "64 word" where "FNV_PRIME = 0x100000001b3"

definition update_byte :: "byte \<Rightarrow> 64 word \<Rightarrow> 64 word" where
  "update_byte b state = (state XOR ucast b) * FNV_PRIME"

definition hasher_update :: "byte list \<Rightarrow> 64 word \<Rightarrow> 64 word" where
  "hasher_update content state = fold update_byte content state"

definition hasher_update_reversed :: "byte list \<Rightarrow> 64 word \<Rightarrow> 64 word" where
  "hasher_update_reversed content state = fold update_byte (rev content) state"

text \<open>The formats \<open>{:x}\<close> and \<open>{:016x}\<close>.\<close>

function hex_nat :: "nat \<Rightarrow> rstring" where
  "hex_nat n = (if n < 16 then [lower_hex_digit n] else hex_nat (n div 16) @ [lower_hex_digit (n mod 16)])"
  by pat_completeness auto
termination by (relation "measure id") auto

declare hex_nat.simps [simp del]

definition hex16 :: "64 word \<Rightarrow> rstring" where
  "hex16 w = map (\<lambda>i. lower_hex_digit (unat w div 16 ^ i mod 16)) (rev [0..<16])"

definition compose_content_revision :: "nat \<Rightarrow> 64 word \<Rightarrow> 64 word \<Rightarrow> rstring" where
  "compose_content_revision len forward reverse = S ''v1-'' @ hex_nat len @ S ''-'' @ hex16 forward @ hex16 reverse"

definition content_revision :: "byte list \<Rightarrow> rstring" where
  "content_revision content =
     compose_content_revision (min (length content) u64_max)
       (hasher_update content FNV_OFFSET_BASIS) (hasher_update_reversed content FNV_OFFSET_BASIS)"

section \<open>Digests\<close>

definition DIGEST_PREFIX :: rstring where "DIGEST_PREFIX = S ''file-change-sha256-v1:''"
definition CONTENT_DOMAIN :: "byte list" where "CONTENT_DOMAIN = ascii ''mycopilot.file-change.content'' @ [0]"
definition DIFF_DOMAIN :: "byte list" where "DIFF_DOMAIN = ascii ''mycopilot.file-change.diff'' @ [0]"
definition PROPOSAL_DOMAIN :: "byte list" where "PROPOSAL_DOMAIN = ascii ''mycopilot.file-change.proposal'' @ [0]"

definition digest_message :: "byte list \<Rightarrow> byte list \<Rightarrow> byte list" where
  "digest_message domain bytes = domain @ to_be_bytes (length bytes) @ bytes"

definition digest_bytes :: "(byte list \<Rightarrow> byte list) \<Rightarrow> byte list \<Rightarrow> byte list \<Rightarrow> rstring" where
  "digest_bytes sha256 domain bytes = DIGEST_PREFIX @ lower_hex (sha256 (digest_message domain bytes))"

definition content_digest :: "(byte list \<Rightarrow> byte list) \<Rightarrow> byte list \<Rightarrow> rstring" where
  "content_digest sha256 content = digest_bytes sha256 CONTENT_DOMAIN content"

definition diff_digest :: "(byte list \<Rightarrow> byte list) \<Rightarrow> rstring \<Rightarrow> rstring" where
  "diff_digest sha256 diff = digest_bytes sha256 DIFF_DOMAIN (utf8_bytes diff)"

definition valid_digest :: "rstring \<Rightarrow> bool" where
  "valid_digest value =
     (case strip_prefix value DIGEST_PREFIX of
        None \<Rightarrow> False
      | Some digest \<Rightarrow> byte_len digest = 64 \<and> list_all (\<lambda>c. among c ''0123456789abcdef'') digest)"

section \<open>Single changes are seen\<close>

lemma prime_cancel: "a * FNV_PRIME = b * FNV_PRIME \<Longrightarrow> a = b"
proof -
  assume "a * FNV_PRIME = b * FNV_PRIME"
  then have "a * (FNV_PRIME * 14886173955864302971) = b * (FNV_PRIME * 14886173955864302971)"
    by (simp add: mult.assoc [symmetric])
  moreover have "FNV_PRIME * 14886173955864302971 = 1" by (simp add: FNV_PRIME_def)
  ultimately show ?thesis by simp
qed


lemma update_byte_inj_state: "update_byte b s = update_byte b t \<Longrightarrow> s = t"
proof -
  assume "update_byte b s = update_byte b t"
  then have "s XOR ucast b = t XOR ucast b" unfolding update_byte_def by (rule prime_cancel)
  then have "(s XOR ucast b) XOR ucast b = (t XOR ucast b) XOR ucast b" by simp
  then show "s = t" by (simp add: xor.assoc)
qed

lemma update_byte_inj_byte: "update_byte b s = update_byte c s \<Longrightarrow> b = c"
proof -
  assume "update_byte b s = update_byte c s"
  then have "s XOR ucast b = s XOR ucast c" unfolding update_byte_def by (rule prime_cancel)
  then have "s XOR (s XOR ucast b) = s XOR (s XOR ucast c)" by simp
  then have "(ucast b :: 64 word) = ucast c" by (simp add: xor.assoc [symmetric])
  then have "unat (ucast b :: 64 word) = unat (ucast c :: 64 word)" by simp
  then have "unat b = unat c"
    using unsigned_less [of b, where 'a = nat] unsigned_less [of c, where 'a = nat]
    by (simp add: unsigned_ucast_eq take_bit_eq_mod)
  then show "b = c" by (rule unsigned_word_eqI)
qed

lemma hasher_update_inj: "hasher_update content s = hasher_update content t \<Longrightarrow> s = t"
  unfolding hasher_update_def by (induction content arbitrary: s t) (auto dest: update_byte_inj_state)

lemma lower_hex_digit_inj:
  assumes "lower_hex_digit m = lower_hex_digit n" and "m < 16" and "n < 16"
  shows "m = n"
proof -
  have "distinct ''0123456789abcdef''" by simp
  with assms show ?thesis by (simp add: lower_hex_digit_def nth_eq_iff_index_eq del: distinct.simps)
qed

lemma length_hex16 [simp]: "length (hex16 w) = 16"
  by (simp add: hex16_def)

lemma hex16_inj:
  assumes "hex16 v = hex16 w"
  shows "v = w"
proof -
  have digit: "unat v div 16 ^ i mod 16 = unat w div 16 ^ i mod 16" if "i < 16" for i
  proof -
    have "lower_hex_digit (unat v div 16 ^ i mod 16) = lower_hex_digit (unat w div 16 ^ i mod 16)"
      using assms that unfolding hex16_def map_eq_conv by simp
    then show ?thesis by (rule lower_hex_digit_inj) simp_all
  qed
  have "unat v mod 16 ^ k = unat w mod 16 ^ k" if "k \<le> 16" for k
    using that
  proof (induction k)
    case (Suc k)
    have "x mod 16 ^ Suc k = 16 ^ k * (x div 16 ^ k mod 16) + x mod 16 ^ k" for x :: nat
      using mod_mult2_eq [of x "16 ^ k" 16] by (simp add: mult.commute)
    with Suc digit [of k] show ?case by simp
  qed simp
  from this [of 16] have "unat v mod 16 ^ 16 = unat w mod 16 ^ 16" by simp
  moreover have "unat x mod 16 ^ 16 = unat x" for x :: "64 word"
    using unsigned_less [of x, where 'a = nat] by simp
  ultimately have "unat v = unat w" by metis
  then show ?thesis by (rule unsigned_word_eqI)
qed

lemma hex_nat_inj: "hex_nat m = hex_nat n \<Longrightarrow> m = n"
proof (induction m arbitrary: n rule: hex_nat.induct)
  case (1 m)
  have long: "\<exists>c cs. hex_nat k = c # cs" for k
    by (cases "hex_nat k") (auto simp: hex_nat.simps [of k] split: if_splits)
  show ?case
  proof (cases "m < 16")
    case True
    with "1.prems" long [of "n div 16"] have "n < 16 \<and> lower_hex_digit m = lower_hex_digit n"
      by (auto simp: hex_nat.simps [of m] hex_nat.simps [of n] split: if_splits)
    with True lower_hex_digit_inj show ?thesis by blast
  next
    case False
    with "1.prems" long [of "m div 16"] have n: "\<not> n < 16" "hex_nat (m div 16) = hex_nat (n div 16)"
      "lower_hex_digit (m mod 16) = lower_hex_digit (n mod 16)"
      by (auto simp: hex_nat.simps [of m] hex_nat.simps [of n] split: if_splits)
    from "1.IH" [OF False n(2)] lower_hex_digit_inj [OF n(3)] show ?thesis
      by (metis div_mult_mod_eq mod_less_divisor zero_less_numeral)
  qed
qed

lemma hex_nat_digits: "Ch (CHR ''-'') \<notin> set (hex_nat n)"
proof (induction n rule: hex_nat.induct)
  case (1 n)
  have "lower_hex_digit k \<noteq> Ch (CHR ''-'')" if "k < 16" for k
  proof -
    have "''0123456789abcdef'' ! k \<in> set ''0123456789abcdef''" using that by (intro nth_mem) simp
    then show ?thesis by (auto simp: lower_hex_digit_def simp del: nth_Cons)
  qed
  then show ?case using "1.IH" by (subst hex_nat.simps) (auto simp: eq_commute)
qed

lemma compose_inj:
  assumes "compose_content_revision l f r = compose_content_revision l' f' r'"
  shows "l = l' \<and> f = f' \<and> r = r'"
proof -
  let ?t = "takeWhile (\<lambda>c. c \<noteq> Ch (CHR ''-''))"
  from assms have eq: "hex_nat l @ S ''-'' @ hex16 f @ hex16 r = hex_nat l' @ S ''-'' @ hex16 f' @ hex16 r'"
    by (simp add: compose_content_revision_def)
  have "?t (hex_nat n @ S ''-'' @ more) = hex_nat n" for n more
    using hex_nat_digits [of n] by (subst takeWhile_append2) (auto simp: S_def)
  with eq have "hex_nat l = hex_nat l'" by metis
  with eq show ?thesis using hex_nat_inj hex16_inj by auto
qed

section \<open>Properties\<close>

text \<open>
  Two contents whose lengths differ, or that differ in exactly one byte,
  never have the same revision, wherever the byte is: the multiplications wrap around but lose nothing.
\<close>

theorem revision_detects_edit:
  assumes "length xs \<noteq> length ys \<and> length xs \<le> u64_max \<and> length ys \<le> u64_max
    \<or> (\<exists>front x y rest. xs = front @ x # rest \<and> ys = front @ y # rest \<and> x \<noteq> y)"
  shows "content_revision xs \<noteq> content_revision ys"
proof
  assume "content_revision xs = content_revision ys"
  then have eq: "min (length xs) u64_max = min (length ys) u64_max"
    "hasher_update xs FNV_OFFSET_BASIS = hasher_update ys FNV_OFFSET_BASIS"
    unfolding content_revision_def using compose_inj by blast+
  from assms show False
  proof (elim disjE exE conjE)
    assume "length xs \<noteq> length ys" "length xs \<le> u64_max" "length ys \<le> u64_max"
    with eq(1) show False by simp
  next
    fix front x y rest
    assume split: "xs = front @ x # rest" "ys = front @ y # rest" "x \<noteq> y"
    let ?s = "fold update_byte front FNV_OFFSET_BASIS"
    from eq(2) split have "hasher_update rest (update_byte x ?s) = hasher_update rest (update_byte y ?s)"
      by (simp add: hasher_update_def)
    with hasher_update_inj update_byte_inj_byte split(3) show False by blast
  qed
qed

text \<open>
  Hashing a content in pieces, forwards from the first piece and backwards
  from the last, gives the revision of the whole.
\<close>

theorem revision_is_incremental:
  "compose_content_revision (min (length (concat pieces)) u64_max)
     (fold hasher_update pieces FNV_OFFSET_BASIS)
     (fold hasher_update_reversed (rev pieces) FNV_OFFSET_BASIS)
   = content_revision (concat pieces)"
proof -
  have "fold hasher_update pieces s = hasher_update (concat pieces) s" for s
    by (induction pieces arbitrary: s) (simp_all add: hasher_update_def)
  moreover have "fold hasher_update_reversed (rev pieces) s = hasher_update_reversed (concat pieces) s" for s
    by (induction pieces arbitrary: s) (simp_all add: hasher_update_reversed_def)
  ultimately show ?thesis by (simp add: content_revision_def)
qed

theorem revision_detects_edit_witness:
  "content_revision [104, 105] \<noteq> content_revision [104, 106]"
proof (rule revision_detects_edit)
  have "[104, 105] = [104] @ (105 :: byte) # [] \<and> [104, 106] = [104] @ (106 :: byte) # [] \<and> (105 :: byte) \<noteq> 106" by simp
  then show "length [104, 105 :: byte] \<noteq> length [104, 106 :: byte] \<and> length [104, 105 :: byte] \<le> u64_max
      \<and> length [104, 106 :: byte] \<le> u64_max
    \<or> (\<exists>front x y rest. [104, 105 :: byte] = front @ x # rest \<and> [104, 106] = front @ y # rest \<and> x \<noteq> y)"
    by blast
qed

end
