(* ===== verification/File_Change_Plan.thy ===== *)
theory File_Change_Plan
  imports Content_Revision
begin

text \<open>
  Planning a file change, \<open>src/crates/core/src/file_change/planner.rs\<close> with the data of \<open>model.rs\<close> and
  the error codes of \<open>error.rs\<close>: the edits of a text, the plan with its digests, and the validation that
  is repeated before a plan is executed. The line diff, the JSON encoding and the hash come from other
  crates and are parameters, collected in the record \<open>plan_env\<close>.
\<close>

section \<open>Data\<close>

datatype file_change_operation = Create | Update | Delete

datatype file_change_edit =
    Replace rstring rstring bool
  | InsertBefore rstring rstring
  | InsertAfter rstring rstring
  | Append rstring
  | Prepend rstring

datatype file_change_content_state = Missing | Present rstring rstring nat

text \<open>
  An error is its code. The last three share their names with values of other enumerations and carry
  the prefix \<open>Err\<close>.
\<close>

datatype file_change_error_code =
    InvalidArguments | UnknownField | IllegalFieldCombination | ContentTooLarge | WorkspaceRequired
  | PermissionDenied | ParentMissing | SymlinkForbidden | UnsupportedFileType | NotRegularFile
  | HardLinkForbidden | FileExists | FileMissing | RevisionConflict | MatchNotFound | AmbiguousMatch
  | NoChange | ObservationRequired | ObservationExpired | ObservationOwnerMismatch
  | ObservationPathMismatch | ObservationStale | TransactionNotFound | TransactionOwnerMismatch
  | TransactionExpired | TransactionSettled | DraftRevisionConflict | MutationOutOfOrder
  | ReplayMismatch | ErrFailed | ErrConflict | ErrOutcomeUnknown

datatype file_change_base = BaseMissing | BaseExisting rstring rstring

datatype file_change_mutation = Complete rstring | Edits "file_change_edit list" | DeleteFile

record plan_request =
  rq_operation :: file_change_operation
  rq_file_path :: rstring
  rq_base :: file_change_base
  rq_mutation :: file_change_mutation

record file_change_plan =
  fp_operation :: file_change_operation
  fp_file_path :: rstring
  fp_base :: file_change_content_state
  fp_target :: file_change_content_state
  fp_base_content :: "rstring option"
  fp_target_content :: "rstring option"
  fp_diff :: rstring
  fp_diff_digest :: rstring
  fp_proposal_digest :: rstring
  fp_additions :: nat
  fp_deletions :: nat

record proposal_material =
  pm_operation :: file_change_operation
  pm_file_path :: rstring
  pm_base :: file_change_content_state
  pm_target :: file_change_content_state
  pm_diff_digest :: rstring
  pm_additions :: nat
  pm_deletions :: nat

datatype change_tag = TagInsert | TagDelete | TagEqual

text \<open>
  The other crates: \<open>sha2\<close>, \<open>serde_json::to_vec\<close> on the proposal material, the unified diff of two texts
  under two headers and the tags of its changes.
\<close>

record plan_env =
  pe_sha256 :: "byte list \<Rightarrow> byte list"
  pe_encode :: "proposal_material \<Rightarrow> rstring + byte list"
  pe_unified_diff :: "rstring \<Rightarrow> rstring \<Rightarrow> rstring \<Rightarrow> rstring \<Rightarrow> rstring"
  pe_changes :: "rstring \<Rightarrow> rstring \<Rightarrow> change_tag list"

definition MAX_PLANNED_CONTENT_BYTES :: nat where "MAX_PLANNED_CONTENT_BYTES = 4 * 1024 * 1024"
definition MAX_EDITS :: nat where "MAX_EDITS = 128"

section \<open>Searching and replacing in a string\<close>

text \<open>
  \<open>match_indices\<close>, \<open>replace\<close> and \<open>replacen(.., 1)\<close> of the standard library: matches are searched from the
  left and do not overlap.
\<close>

fun split_first :: "rstring \<Rightarrow> rstring \<Rightarrow> (rstring \<times> rstring) option" where
  "split_first pat [] = (if pat = [] then Some ([], []) else None)"
| "split_first pat (c # s) =
     (if prefix pat (c # s) then Some ([], drop (length pat) (c # s))
      else map_option (\<lambda>(front, back). (c # front, back)) (split_first pat s))"

lemma split_first_append: "split_first pat s = Some (front, rest) \<Longrightarrow> s = front @ pat @ rest"
  by (induction s arbitrary: front) (auto simp: prefix_def split: if_splits)

function match_count :: "rstring \<Rightarrow> rstring \<Rightarrow> nat" where
  "match_count pat s =
     (if pat = [] then Suc (length s)
      else case split_first pat s of None \<Rightarrow> 0 | Some (_, rest) \<Rightarrow> Suc (match_count pat rest))"
  by pat_completeness auto
termination
  by (relation "measure (\<lambda>(_, s). length s)") (auto dest!: split_first_append)

function replace_str :: "rstring \<Rightarrow> rstring \<Rightarrow> rstring \<Rightarrow> rstring" where
  "replace_str pat new s =
     (if pat = [] then new @ concat (map (\<lambda>c. c # new) s)
      else case split_first pat s of None \<Rightarrow> s | Some (front, rest) \<Rightarrow> front @ new @ replace_str pat new rest)"
  by pat_completeness auto
termination
  by (relation "measure (\<lambda>(_, _, s). length s)") (auto dest!: split_first_append)

declare match_count.simps [simp del] replace_str.simps [simp del]

definition replacen_one :: "rstring \<Rightarrow> rstring \<Rightarrow> rstring \<Rightarrow> rstring" where
  "replacen_one pat new s =
     (case split_first pat s of None \<Rightarrow> s | Some (front, rest) \<Rightarrow> front @ new @ rest)"

section \<open>Edits\<close>

fun apply_edit :: "file_change_edit \<Rightarrow> rstring \<Rightarrow> file_change_error_code + rstring" where
  "apply_edit (Replace old_text new_text replace_all) updated =
     (if old_text = [] then Inl InvalidArguments
      else
        let matches = match_count old_text updated in
        if matches = 0 then Inl MatchNotFound
        else if replace_all then Inr (replace_str old_text new_text updated)
        else if matches = 1 then Inr (replacen_one old_text new_text updated)
        else Inl AmbiguousMatch)"
| "apply_edit (InsertBefore anchor inserted) updated =
     (if anchor = [] then Inl InvalidArguments
      else
        let matches = match_count anchor updated in
        if matches = 0 then Inl MatchNotFound
        else if 1 < matches then Inl AmbiguousMatch
        else Inr (replacen_one anchor (inserted @ anchor) updated))"
| "apply_edit (InsertAfter anchor inserted) updated =
     (if anchor = [] then Inl InvalidArguments
      else
        let matches = match_count anchor updated in
        if matches = 0 then Inl MatchNotFound
        else if 1 < matches then Inl AmbiguousMatch
        else Inr (replacen_one anchor (anchor @ inserted) updated))"
| "apply_edit (Append inserted) updated = Inr (updated @ inserted)"
| "apply_edit (Prepend inserted) updated = Inr (inserted @ updated)"

fun apply_edits :: "rstring \<Rightarrow> file_change_edit list \<Rightarrow> file_change_error_code + rstring" where
  "apply_edits updated [] = Inr updated"
| "apply_edits updated (edit # edits) =
     (case apply_edit edit updated of Inl e \<Rightarrow> Inl e | Inr updated \<Rightarrow> apply_edits updated edits)"

section \<open>The plan\<close>

definition has_nul :: "rstring \<Rightarrow> bool" where
  "has_nul content = (Ch (CHR 0x00) \<in> set content)"

definition reject_nul :: "rstring \<Rightarrow> file_change_error_code + unit" where
  "reject_nul content = (if has_nul content then Inl InvalidArguments else Inr ())"

definition state_for_content :: "plan_env \<Rightarrow> rstring \<Rightarrow> file_change_content_state" where
  "state_for_content env content =
     Present (content_revision (utf8_bytes content)) (content_digest (pe_sha256 env) (utf8_bytes content)) (byte_len content)"

definition content_matches_state :: "plan_env \<Rightarrow> file_change_content_state \<Rightarrow> rstring option \<Rightarrow> bool" where
  "content_matches_state env state content =
     (case (state, content) of
        (Missing, None) \<Rightarrow> True
      | (Present _ _ _, Some content) \<Rightarrow> state = state_for_content env content
      | _ \<Rightarrow> False)"

definition operation_states_match ::
  "file_change_operation \<Rightarrow> file_change_content_state \<Rightarrow> file_change_content_state \<Rightarrow> bool" where
  "operation_states_match operation base target =
     (case (operation, base, target) of
        (Create, Missing, Present _ _ _) \<Rightarrow> True
      | (Update, Present _ _ _, Present _ _ _) \<Rightarrow> True
      | (Delete, Present _ _ _, Missing) \<Rightarrow> True
      | _ \<Rightarrow> False)"

definition validate_base ::
  "plan_env \<Rightarrow> file_change_operation \<Rightarrow> file_change_base
   \<Rightarrow> file_change_error_code + (file_change_content_state \<times> rstring option)" where
  "validate_base env operation base =
     (case (operation, base) of
        (Create, BaseMissing) \<Rightarrow> Inr (Missing, None)
      | (Create, BaseExisting _ _) \<Rightarrow> Inl FileExists
      | (_, BaseExisting content revision) \<Rightarrow>
          if content_revision (utf8_bytes content) \<noteq> revision then Inl RevisionConflict
          else Inr (state_for_content env content, Some content)
      | (_, BaseMissing) \<Rightarrow> Inl FileMissing)"

definition target_content ::
  "file_change_operation \<Rightarrow> rstring option \<Rightarrow> file_change_mutation \<Rightarrow> file_change_error_code + rstring option" where
  "target_content operation base mutation =
     (case mutation of
        Complete content \<Rightarrow>
          if operation = Delete then Inl IllegalFieldCombination
          else (case reject_nul content of Inl e \<Rightarrow> Inl e | Inr _ \<Rightarrow> Inr (Some content))
      | Edits edits \<Rightarrow>
          if operation \<noteq> Update then Inl IllegalFieldCombination
          else if edits = [] \<or> MAX_EDITS < length edits then Inl InvalidArguments
          else
            (case base of
               None \<Rightarrow> Inl IllegalFieldCombination
             | Some current \<Rightarrow>
                 (case apply_edits current edits of
                    Inl e \<Rightarrow> Inl e
                  | Inr updated \<Rightarrow>
                      (case reject_nul updated of Inl e \<Rightarrow> Inl e | Inr _ \<Rightarrow> Inr (Some updated))))
      | DeleteFile \<Rightarrow> if operation = Delete then Inr None else Inl IllegalFieldCombination)"

definition build_diff :: "plan_env \<Rightarrow> rstring \<Rightarrow> file_change_operation \<Rightarrow> rstring \<Rightarrow> rstring \<Rightarrow> rstring" where
  "build_diff env path operation old new =
     pe_unified_diff env old new
       (if operation = Create then S ''/dev/null'' else S ''a/'' @ path)
       (if operation = Delete then S ''/dev/null'' else S ''b/'' @ path)"

definition diff_counts :: "plan_env \<Rightarrow> rstring \<Rightarrow> rstring \<Rightarrow> nat \<times> nat" where
  "diff_counts env old new =
     fold (\<lambda>tag (additions, deletions).
         case tag of
           TagInsert \<Rightarrow> (saturating_add additions 1, deletions)
         | TagDelete \<Rightarrow> (additions, saturating_add deletions 1)
         | TagEqual \<Rightarrow> (additions, deletions))
       (pe_changes env old new) (0, 0)"

definition text_or_empty :: "rstring option \<Rightarrow> rstring" where
  "text_or_empty content = (case content of Some t \<Rightarrow> t | None \<Rightarrow> [])"

definition proposal_digest :: "plan_env \<Rightarrow> proposal_material \<Rightarrow> file_change_error_code + rstring" where
  "proposal_digest env material =
     (case pe_encode env material of
        Inl _ \<Rightarrow> Inl ErrFailed
      | Inr bytes \<Rightarrow> Inr (digest_bytes (pe_sha256 env) PROPOSAL_DOMAIN bytes))"

definition material_of :: "file_change_plan \<Rightarrow> proposal_material" where
  "material_of p =
     \<lparr>pm_operation = fp_operation p, pm_file_path = fp_file_path p, pm_base = fp_base p, pm_target = fp_target p,
      pm_diff_digest = fp_diff_digest p, pm_additions = fp_additions p, pm_deletions = fp_deletions p\<rparr>"

definition plan_validate :: "plan_env \<Rightarrow> file_change_plan \<Rightarrow> file_change_error_code + unit" where
  "plan_validate env p =
     (if str_trim (fp_file_path p) = []
         \<or> is_some_and (fp_base_content p) has_nul
         \<or> is_some_and (fp_target_content p) (\<lambda>content. has_nul content \<or> MAX_PLANNED_CONTENT_BYTES < byte_len content)
         \<or> \<not> content_matches_state env (fp_base p) (fp_base_content p)
         \<or> \<not> content_matches_state env (fp_target p) (fp_target_content p)
         \<or> \<not> operation_states_match (fp_operation p) (fp_base p) (fp_target p)
      then Inl InvalidArguments
      else if fp_operation p = Update \<and> fp_base_content p = fp_target_content p then Inl NoChange
      else
        let old = text_or_empty (fp_base_content p);
            new = text_or_empty (fp_target_content p);
            expected_diff = build_diff env (fp_file_path p) (fp_operation p) old new in
        if fp_diff p \<noteq> expected_diff \<or> fp_diff_digest p \<noteq> diff_digest (pe_sha256 env) expected_diff
           \<or> (fp_additions p, fp_deletions p) \<noteq> diff_counts env old new
        then Inl InvalidArguments
        else
          (case proposal_digest env (material_of p) of
             Inl e \<Rightarrow> Inl e
           | Inr expected_proposal \<Rightarrow>
               if fp_proposal_digest p = expected_proposal then Inr () else Inl InvalidArguments))"

text \<open>\<open>FileChangePlanner::plan\<close>; the first part decides the change, the second seals it.\<close>

definition decide_change ::
  "plan_env \<Rightarrow> plan_request \<Rightarrow> file_change_error_code + (file_change_content_state \<times> rstring option \<times> rstring option)" where
  "decide_change env request =
     (if str_trim (rq_file_path request) = [] then Inl InvalidArguments
      else
        case validate_base env (rq_operation request) (rq_base request) of
          Inl e \<Rightarrow> Inl e
        | Inr (base_state, base_content) \<Rightarrow>
            (case target_content (rq_operation request) base_content (rq_mutation request) of
               Inl e \<Rightarrow> Inl e
             | Inr target \<Rightarrow>
                 if is_some_and target (\<lambda>content. MAX_PLANNED_CONTENT_BYTES < byte_len content) then Inl ContentTooLarge
                 else if rq_operation request = Update \<and> target = base_content then Inl NoChange
                 else Inr (base_state, base_content, target)))"

definition seal_plan ::
  "plan_env \<Rightarrow> plan_request \<Rightarrow> file_change_content_state \<times> rstring option \<times> rstring option
   \<Rightarrow> file_change_error_code + file_change_plan" where
  "seal_plan env request change =
     (let (base_state, base_content, target) = change;
          path = str_trim (rq_file_path request);
          target_state = (case target of Some content \<Rightarrow> state_for_content env content | None \<Rightarrow> Missing);
          old = text_or_empty base_content;
          new = text_or_empty target;
          diff = build_diff env path (rq_operation request) old new;
          (additions, deletions) = diff_counts env old new;
          plan = \<lparr>fp_operation = rq_operation request, fp_file_path = path, fp_base = base_state,
                  fp_target = target_state, fp_base_content = base_content, fp_target_content = target,
                  fp_diff = diff, fp_diff_digest = diff_digest (pe_sha256 env) diff, fp_proposal_digest = [],
                  fp_additions = additions, fp_deletions = deletions\<rparr> in
      case proposal_digest env (material_of plan) of
        Inl e \<Rightarrow> Inl e
      | Inr digest \<Rightarrow>
          let plan = plan\<lparr>fp_proposal_digest := digest\<rparr> in
          (case plan_validate env plan of Inl e \<Rightarrow> Inl e | Inr _ \<Rightarrow> Inr plan))"

definition make_plan :: "plan_env \<Rightarrow> plan_request \<Rightarrow> file_change_error_code + file_change_plan" where
  "make_plan env request =
     (case decide_change env request of Inl e \<Rightarrow> Inl e | Inr change \<Rightarrow> seal_plan env request change)"


section \<open>Where a pattern occurs\<close>

lemma split_first_None: "split_first pat s = None \<longleftrightarrow> \<not> (\<exists>a b. s = a @ pat @ b)"
proof (induction s)
  case (Cons c s)
  have "(\<exists>a b. c # s = a @ pat @ b) \<longleftrightarrow> prefix pat (c # s) \<or> (\<exists>a b. s = a @ pat @ b)"
    by (auto simp: prefix_def Cons_eq_append_conv)
  with Cons show ?case by auto
qed auto

lemma split_first_leftmost:
  "split_first pat s = Some (front, rest) \<Longrightarrow> s = a @ pat @ b \<Longrightarrow> length front \<le> length a"
proof (induction s arbitrary: front a)
  case (Cons c s)
  show ?case
  proof (cases "prefix pat (c # s)")
    case True
    with Cons.prems(1) have "front = []" by simp
    then show ?thesis by simp
  next
    case False
    with Cons.prems(1) obtain f where f: "front = c # f" "split_first pat s = Some (f, rest)" by auto
    from False Cons.prems(2) obtain a' where "a = c # a'" "s = a' @ pat @ b" by (cases a) (auto simp: prefix_def)
    with Cons.IH [OF f(2)] f(1) show ?thesis by auto
  qed
qed auto

lemma match_count_zero: "pat \<noteq> [] \<Longrightarrow> match_count pat s = 0 \<longleftrightarrow> \<not> (\<exists>a b. s = a @ pat @ b)"
  using split_first_None [of pat s] by (auto simp: match_count.simps [of pat s] split: option.split)

lemma second_match:
  assumes "split_first pat s = Some (front, rest)"
  shows "(\<exists>a b. rest = a @ pat @ b) \<longleftrightarrow> (\<exists>a m b. s = a @ pat @ m @ pat @ b)"
proof
  assume "\<exists>a b. rest = a @ pat @ b"
  with split_first_append [OF assms] show "\<exists>a m b. s = a @ pat @ m @ pat @ b" by blast
next
  assume "\<exists>a m b. s = a @ pat @ m @ pat @ b"
  then obtain a m b where two: "s = a @ pat @ m @ pat @ b" by blast
  from split_first_leftmost [OF assms two] have "length (front @ pat) \<le> length (a @ pat)" by simp
  moreover have "(front @ pat) @ rest = (a @ pat) @ m @ pat @ b" using split_first_append [OF assms] two by simp
  ultimately have "rest = drop (length (front @ pat)) (a @ pat) @ m @ pat @ b"
    by (metis append_eq_conv_conj drop_append diff_is_0_eq drop_0)
  then obtain k where "rest = k @ m @ pat @ b" by blast
  then show "\<exists>a b. rest = a @ pat @ b" by (intro exI [of _ "k @ m"] exI [of _ b]) simp
qed

lemma match_count_many:
  assumes "pat \<noteq> []"
  shows "2 \<le> match_count pat s \<longleftrightarrow> (\<exists>a m b. s = a @ pat @ m @ pat @ b)"
proof (cases "split_first pat s")
  case None
  then show ?thesis using assms split_first_None [of pat s] by (auto simp: match_count.simps [of pat s])
next
  case (Some x)
  then obtain front rest where split: "split_first pat s = Some (front, rest)" by (cases x) auto
  have "2 \<le> match_count pat s \<longleftrightarrow> match_count pat rest \<noteq> 0"
    using assms split by (subst match_count.simps) (simp add: Suc_le_eq)
  also have "\<dots> \<longleftrightarrow> (\<exists>a b. rest = a @ pat @ b)" using match_count_zero [OF assms, of rest] by simp
  also have "\<dots> \<longleftrightarrow> (\<exists>a m b. s = a @ pat @ m @ pat @ b)" by (rule second_match [OF split])
  finally show ?thesis .
qed

section \<open>Properties\<close>

text \<open>The edits that must find their place: pattern and replacement.\<close>

fun placed_edit :: "file_change_edit \<Rightarrow> (rstring \<times> rstring) option" where
  "placed_edit (Replace old_text new_text replace_all) = (if replace_all then None else Some (old_text, new_text))"
| "placed_edit (InsertBefore anchor inserted) = Some (anchor, inserted @ anchor)"
| "placed_edit (InsertAfter anchor inserted) = Some (anchor, anchor @ inserted)"
| "placed_edit _ = None"

lemma apply_placed_edit:
  "placed_edit e = Some (pat, new) \<Longrightarrow> pat \<noteq> [] \<Longrightarrow>
     apply_edit e s =
       (if match_count pat s = 0 then Inl MatchNotFound
        else if 2 \<le> match_count pat s then Inl AmbiguousMatch
        else Inr (replacen_one pat new s))"
  by (cases e) (auto simp: Let_def split: if_splits)

text \<open>
  An edit with a pattern is refused exactly when the pattern does not occur, or
  when it occurs at two places that do not overlap; otherwise it changes one place only, the leftmost
  occurrence, and leaves the text before and after it as it was.
\<close>

theorem placed_edit_decides:
  assumes "placed_edit e = Some (pat, new)" and "pat \<noteq> []"
  shows "(apply_edit e s = Inl MatchNotFound \<longleftrightarrow> \<not> (\<exists>a b. s = a @ pat @ b))
    \<and> (apply_edit e s = Inl AmbiguousMatch \<longleftrightarrow> (\<exists>a m b. s = a @ pat @ m @ pat @ b))
    \<and> ((\<exists>a b. s = a @ pat @ b) \<and> \<not> (\<exists>a m b. s = a @ pat @ m @ pat @ b) \<longrightarrow>
         (\<exists>a b. s = a @ pat @ b \<and> apply_edit e s = Inr (a @ new @ b) \<and> (\<forall>a' b'. s = a' @ pat @ b' \<longrightarrow> length a \<le> length a')))"
proof -
  note ap = apply_placed_edit [OF assms, of s] and zero = match_count_zero [OF assms(2), of s]
    and many = match_count_many [OF assms(2), of s]
  have once: "\<exists>a b. s = a @ pat @ b \<and> apply_edit e s = Inr (a @ new @ b) \<and> (\<forall>a' b'. s = a' @ pat @ b' \<longrightarrow> length a \<le> length a')"
    if one: "\<exists>a b. s = a @ pat @ b" "\<not> (\<exists>a m b. s = a @ pat @ m @ pat @ b)"
  proof -
    from one(1) have "split_first pat s \<noteq> None" by (simp add: split_first_None)
    then obtain front rest where split: "split_first pat s = Some (front, rest)" by auto
    have "apply_edit e s = Inr (front @ new @ rest)"
      using ap zero many one split by (simp add: replacen_one_def)
    then show ?thesis using split_first_append [OF split] split_first_leftmost [OF split] by blast
  qed
  have codes: "apply_edit e s = Inl MatchNotFound \<longleftrightarrow> match_count pat s = 0"
    "apply_edit e s = Inl AmbiguousMatch \<longleftrightarrow> 2 \<le> match_count pat s" using ap by auto
  show ?thesis
  proof (intro conjI impI)
    show "apply_edit e s = Inl MatchNotFound \<longleftrightarrow> \<not> (\<exists>a b. s = a @ pat @ b)" unfolding codes(1) by (rule zero)
    show "apply_edit e s = Inl AmbiguousMatch \<longleftrightarrow> (\<exists>a m b. s = a @ pat @ m @ pat @ b)" unfolding codes(2) by (rule many)
  qed (use once in blast)
qed

text \<open>Overlapping occurrences are not ambiguous: the pattern occurs twice and the first place is changed.\<close>

theorem overlapping_match_is_accepted:
  "apply_edit (Replace (S ''aa'') (S ''b'') False) (S ''aaa'') = Inr (S ''ba'')"
  by (simp add: match_count.simps S_def replacen_one_def)


section \<open>Sealing never fails\<close>

lemma str_trim_trim: "str_trim (str_trim s) = str_trim s"
proof -
  have last: "dropWhile P (rev (dropWhile P (rev t))) = rev (dropWhile P (rev t))" if "dropWhile P t = t" for P :: "rchar \<Rightarrow> bool" and t
  proof (cases "rev (dropWhile P (rev t))")
    case Nil
    show ?thesis unfolding Nil by simp
  next
    case (Cons c u)
    have "prefix (c # u) t"
      using Cons suffix_dropWhile [of P "rev t"] by (metis rev_rev_ident suffix_to_prefix)
    then obtain v where "t = c # v" by (auto simp: prefix_def)
    with that have "\<not> P c" by (auto split: if_splits dest: arg_cong [of _ _ length]) (metis length_dropWhile_le length_Cons not_less_eq_eq order_refl)
    with Cons show ?thesis by simp
  qed
  show ?thesis unfolding str_trim_def
    by (subst last) (simp_all add: dropWhile_idem)
qed


lemma decided_change:
  assumes "decide_change env request = Inr (base_state, base_content, target)"
  shows "str_trim (rq_file_path request) \<noteq> []"
    and "content_matches_state env base_state base_content"
    and "operation_states_match (rq_operation request) base_state
      (case target of Some content \<Rightarrow> state_for_content env content | None \<Rightarrow> Missing)"
    and "is_some_and target (\<lambda>content. has_nul content \<or> MAX_PLANNED_CONTENT_BYTES < byte_len content) = False"
    and "\<not> (rq_operation request = Update \<and> base_content = target)"
    and "base_content = (case rq_base request of BaseMissing \<Rightarrow> None | BaseExisting content _ \<Rightarrow> Some content)"
proof -
  from assms obtain base: "validate_base env (rq_operation request) (rq_base request) = Inr (base_state, base_content)"
    and target: "target_content (rq_operation request) base_content (rq_mutation request) = Inr target"
    and path: "str_trim (rq_file_path request) \<noteq> []"
    and large: "\<not> is_some_and target (\<lambda>content. MAX_PLANNED_CONTENT_BYTES < byte_len content)"
    and change: "\<not> (rq_operation request = Update \<and> target = base_content)"
    by (auto simp: decide_change_def split: if_splits sum.splits)
  show "str_trim (rq_file_path request) \<noteq> []" by (rule path)
  show "\<not> (rq_operation request = Update \<and> base_content = target)" using change by auto
  show "content_matches_state env base_state base_content"
    "base_content = (case rq_base request of BaseMissing \<Rightarrow> None | BaseExisting content _ \<Rightarrow> Some content)"
    using base
    by (auto simp: validate_base_def content_matches_state_def state_for_content_def
        split: file_change_operation.splits file_change_base.splits if_splits)
  show "operation_states_match (rq_operation request) base_state
      (case target of Some content \<Rightarrow> state_for_content env content | None \<Rightarrow> Missing)"
    using base target
    by (auto simp: validate_base_def target_content_def operation_states_match_def state_for_content_def
        split: file_change_operation.splits file_change_base.splits file_change_mutation.splits if_splits sum.splits option.splits)
  show "is_some_and target (\<lambda>content. has_nul content \<or> MAX_PLANNED_CONTENT_BYTES < byte_len content) = False"
    using target large
    by (auto simp: target_content_def reject_nul_def is_some_and_def
        split: file_change_mutation.splits if_splits sum.splits option.splits)
qed

lemma planned:
  assumes "\<And>material. \<exists>bytes. pe_encode env material = Inr bytes"
    and "case rq_base request of BaseMissing \<Rightarrow> True | BaseExisting content _ \<Rightarrow> \<not> has_nul content"
  shows "case decide_change env request of
      Inl e \<Rightarrow> make_plan env request = Inl e
    | Inr (base_state, base_content, target) \<Rightarrow>
        \<exists>p. make_plan env request = Inr p \<and> plan_validate env p = Inr ()
          \<and> fp_operation p = rq_operation request \<and> fp_file_path p = str_trim (rq_file_path request)
          \<and> fp_base_content p = base_content \<and> fp_target_content p = target"
proof (cases "decide_change env request")
  case (Inl e)
  then show ?thesis by (simp add: make_plan_def)
next
  case (Inr change)
  obtain base_state base_content target where change: "change = (base_state, base_content, target)" by (metis prod_cases3)
  note decided = decided_change [OF Inr [unfolded change]]
  have nul: "\<not> is_some_and base_content has_nul"
    using assms(2) decided(6) by (auto simp: is_some_and_def split: file_change_base.splits option.splits)
  have matches: "content_matches_state env
      (case target of Some content \<Rightarrow> state_for_content env content | None \<Rightarrow> Missing) target"
    by (simp add: content_matches_state_def state_for_content_def split: option.split)
  obtain additions deletions where counts: "diff_counts env (text_or_empty base_content) (text_or_empty target) = (additions, deletions)"
    by (metis prod.exhaust)
  define p where "p = \<lparr>fp_operation = rq_operation request, fp_file_path = str_trim (rq_file_path request),
     fp_base = base_state,
     fp_target = (case target of Some content \<Rightarrow> state_for_content env content | None \<Rightarrow> Missing),
     fp_base_content = base_content, fp_target_content = target,
     fp_diff = build_diff env (str_trim (rq_file_path request)) (rq_operation request) (text_or_empty base_content) (text_or_empty target),
     fp_diff_digest = diff_digest (pe_sha256 env)
       (build_diff env (str_trim (rq_file_path request)) (rq_operation request) (text_or_empty base_content) (text_or_empty target)),
     fp_proposal_digest = [], fp_additions = additions, fp_deletions = deletions\<rparr>"
  obtain digest where digest: "proposal_digest env (material_of p) = Inr digest"
    using assms(1) [of "material_of p"] by (auto simp: proposal_digest_def)
  have material: "material_of (p\<lparr>fp_proposal_digest := digest\<rparr>) = material_of p" by (simp add: material_of_def)
  have valid: "plan_validate env (p\<lparr>fp_proposal_digest := digest\<rparr>) = Inr ()"
    unfolding plan_validate_def material digest
    using decided(1-5) nul matches counts str_trim_trim by (simp add: p_def Let_def)
  have "make_plan env request = Inr (p\<lparr>fp_proposal_digest := digest\<rparr>)"
    using digest valid by (simp add: make_plan_def Inr change seal_plan_def counts Let_def p_def [symmetric])
  with valid show ?thesis unfolding Inr change by (auto simp: p_def)
qed

section \<open>Which requests are planned\<close>

text \<open>What the edits mean, without the searching: the place that is changed is the leftmost occurrence.\<close>

definition leftmost :: "rstring \<Rightarrow> rstring \<Rightarrow> rstring \<Rightarrow> rstring \<Rightarrow> bool" where
  "leftmost pat a b s \<longleftrightarrow> s = a @ pat @ b \<and> (\<forall>a' b'. s = a' @ pat @ b' \<longrightarrow> length a \<le> length a')"

inductive replaced_all :: "rstring \<Rightarrow> rstring \<Rightarrow> rstring \<Rightarrow> rstring \<Rightarrow> bool" for pat new where
  none: "\<not> (\<exists>a b. s = a @ pat @ b) \<Longrightarrow> replaced_all pat new s s"
| more: "leftmost pat a b s \<Longrightarrow> replaced_all pat new b t \<Longrightarrow> replaced_all pat new s (a @ new @ t)"

definition placed_gives :: "rstring \<Rightarrow> rstring \<Rightarrow> rstring \<Rightarrow> rstring \<Rightarrow> bool" where
  "placed_gives pat new s t \<longleftrightarrow>
     pat \<noteq> [] \<and> \<not> (\<exists>a m b. s = a @ pat @ m @ pat @ b) \<and> (\<exists>a b. leftmost pat a b s \<and> t = a @ new @ b)"

fun edit_gives :: "file_change_edit \<Rightarrow> rstring \<Rightarrow> rstring \<Rightarrow> bool" where
  "edit_gives (Replace old_text new_text replace_all) s t =
     (if replace_all then old_text \<noteq> [] \<and> (\<exists>a b. s = a @ old_text @ b) \<and> replaced_all old_text new_text s t
      else placed_gives old_text new_text s t)"
| "edit_gives (InsertBefore anchor inserted) s t = placed_gives anchor (inserted @ anchor) s t"
| "edit_gives (InsertAfter anchor inserted) s t = placed_gives anchor (anchor @ inserted) s t"
| "edit_gives (Append inserted) s t = (t = s @ inserted)"
| "edit_gives (Prepend inserted) s t = (t = inserted @ s)"

fun edits_give :: "rstring \<Rightarrow> file_change_edit list \<Rightarrow> rstring \<Rightarrow> bool" where
  "edits_give s [] t = (t = s)"
| "edits_give s (e # es) t = (\<exists>u. edit_gives e s u \<and> edits_give u es t)"

lemma split_first_Some: "split_first pat s = Some (a, b) \<longleftrightarrow> leftmost pat a b s"
proof
  assume "split_first pat s = Some (a, b)"
  then show "leftmost pat a b s" unfolding leftmost_def using split_first_append split_first_leftmost by blast
next
  assume left: "leftmost pat a b s"
  then obtain f r where split: "split_first pat s = Some (f, r)"
    using split_first_None [of pat s] by (cases "split_first pat s") (auto simp: leftmost_def)
  have "length a \<le> length f" using left split_first_append [OF split] unfolding leftmost_def by blast
  moreover have "length f \<le> length a" using left split_first_leftmost [OF split] by (simp add: leftmost_def)
  ultimately have "length a = length f" by simp
  with left split_first_append [OF split] split show "split_first pat s = Some (a, b)" by (auto simp: leftmost_def)
qed

lemma replace_str_gives: "pat \<noteq> [] \<Longrightarrow> replaced_all pat new s t \<longleftrightarrow> t = replace_str pat new s"
proof (induction pat new s arbitrary: t rule: replace_str.induct)
  case (1 pat new s)
  show ?case
  proof (cases "split_first pat s")
    case None
    with 1(2) have "replace_str pat new s = s" by (simp add: replace_str.simps)
    moreover have "\<not> (\<exists>a b. s = a @ pat @ b)" using None split_first_None by blast
    ultimately show ?thesis by (subst replaced_all.simps) (auto simp: leftmost_def)
  next
    case (Some x)
    then obtain a b where split: "split_first pat s = Some (a, b)" by (cases x) auto
    have left: "leftmost pat c d s \<longleftrightarrow> c = a \<and> d = b" for c d using split split_first_Some [of pat s c d] by auto
    have "\<exists>a b. s = a @ pat @ b" using split_first_append [OF split] by blast
    then have "replaced_all pat new s t \<longleftrightarrow> (\<exists>u. t = a @ new @ u \<and> replaced_all pat new b u)"
      by (subst replaced_all.simps) (simp add: left, blast)
    also have "\<dots> \<longleftrightarrow> t = replace_str pat new s"
      using 1(1) [OF 1(2) split refl 1(2)] 1(2) split by (simp add: replace_str.simps [of pat new s])
    finally show ?thesis .
  qed
qed

lemma replacen_one_gives:
  assumes "pat \<noteq> []"
  shows "placed_gives pat new s t \<longleftrightarrow> match_count pat s \<noteq> 0 \<and> \<not> 2 \<le> match_count pat s \<and> t = replacen_one pat new s"
proof (cases "split_first pat s")
  case None
  then show ?thesis
    using assms match_count_zero [OF assms, of s] split_first_None [of pat s] by (auto simp: placed_gives_def leftmost_def)
next
  case (Some x)
  then obtain a b where split: "split_first pat s = Some (a, b)" by (cases x) auto
  then have "match_count pat s \<noteq> 0" using match_count_zero [OF assms, of s] split_first_append by blast
  moreover have "leftmost pat c d s \<longleftrightarrow> c = a \<and> d = b" for c d using split split_first_Some [of pat s c d] by auto
  ultimately show ?thesis
    using assms match_count_many [OF assms, of s] split by (auto simp: placed_gives_def replacen_one_def)
qed

lemma placed_empty [simp]: "\<not> placed_gives [] new s t"
  by (simp add: placed_gives_def)

lemma apply_edit_gives: "apply_edit e s = Inr t \<longleftrightarrow> edit_gives e s t"
proof (cases e)
  case (Replace old_text new_text replace_all)
  then show ?thesis
    using replacen_one_gives [of old_text new_text s t] replace_str_gives [of old_text new_text s t] match_count_zero [of old_text s]
    by (cases "old_text = []") (auto simp: Let_def split: if_splits)
next
  case (InsertBefore anchor inserted)
  then show ?thesis
    using replacen_one_gives [of anchor "inserted @ anchor" s t] by (cases "anchor = []") (auto simp: Let_def split: if_splits)
next
  case (InsertAfter anchor inserted)
  then show ?thesis
    using replacen_one_gives [of anchor "anchor @ inserted" s t] by (cases "anchor = []") (auto simp: Let_def split: if_splits)
qed auto

lemma apply_edits_give: "apply_edits s es = Inr t \<longleftrightarrow> edits_give s es t"
  by (induction es arbitrary: s) (auto simp: apply_edit_gives [symmetric] split: sum.splits)

text \<open>A request, the content before, and the content after that it asks for.\<close>

definition requests :: "plan_request \<Rightarrow> rstring option \<Rightarrow> rstring option \<Rightarrow> bool" where
  "requests request base target \<longleftrightarrow>
     (case (rq_operation request, rq_base request, rq_mutation request) of
        (Create, BaseMissing, Complete c) \<Rightarrow> base = None \<and> target = Some c
      | (Update, BaseExisting b _, Complete c) \<Rightarrow> base = Some b \<and> target = Some c \<and> c \<noteq> b
      | (Update, BaseExisting b _, Edits es) \<Rightarrow>
          base = Some b \<and> 0 < length es \<and> length es \<le> MAX_EDITS \<and> (\<exists>c. target = Some c \<and> edits_give b es c \<and> c \<noteq> b)
      | (Delete, BaseExisting b _, DeleteFile) \<Rightarrow> base = Some b \<and> target = None
      | _ \<Rightarrow> False)"

definition acceptable :: "plan_request \<Rightarrow> rstring option \<Rightarrow> bool" where
  "acceptable request target \<longleftrightarrow>
     str_trim (rq_file_path request) \<noteq> []
     \<and> (case rq_base request of
          BaseMissing \<Rightarrow> True
        | BaseExisting b revision \<Rightarrow> content_revision (utf8_bytes b) = revision \<and> \<not> has_nul b)
     \<and> (case target of None \<Rightarrow> True | Some c \<Rightarrow> \<not> has_nul c \<and> byte_len c \<le> MAX_PLANNED_CONTENT_BYTES)"

lemma decide_change_requests:
  assumes "case rq_base request of BaseMissing \<Rightarrow> True | BaseExisting b _ \<Rightarrow> \<not> has_nul b"
  shows "(\<exists>state. decide_change env request = Inr (state, base, target)) \<longleftrightarrow> requests request base target \<and> acceptable request target"
  using assms
  by (cases "rq_operation request"; cases "rq_base request"; cases "rq_mutation request"; cases base; cases target)
    (auto simp: decide_change_def validate_base_def target_content_def requests_def acceptable_def reject_nul_def
      apply_edits_give [symmetric] is_some_and_def not_less split: if_splits sum.splits)

lemma sealed_plan:
  assumes "make_plan env request = Inr p"
  shows "plan_validate env p = Inr ()" and "fp_operation p = rq_operation request" and "fp_file_path p = str_trim (rq_file_path request)"
    and "\<exists>state. decide_change env request = Inr (state, fp_base_content p, fp_target_content p)"
  using assms by (auto simp: make_plan_def seal_plan_def Let_def split: sum.splits prod.splits)

lemma sealed_base: "make_plan env request = Inr p \<Longrightarrow> case rq_base request of BaseMissing \<Rightarrow> True | BaseExisting b _ \<Rightarrow> \<not> has_nul b"
  using sealed_plan [of env request p] decided_change(6) [of env request _ "fp_base_content p" "fp_target_content p"]
  by (auto simp: plan_validate_def is_some_and_def split: if_splits file_change_base.splits)


text \<open>
  The messages that are hashed when a plan is validated, its diff apart: the two contents and the
  proposal. Collision resistance is only needed on these.
\<close>

definition hashed_messages :: "plan_env \<Rightarrow> file_change_plan \<Rightarrow> byte list list" where
  "hashed_messages env p =
     map (\<lambda>content. digest_message CONTENT_DOMAIN (utf8_bytes (text_or_empty content))) [fp_base_content p, fp_target_content p]
     @ (case pe_encode env (material_of p) of Inl _ \<Rightarrow> [] | Inr bytes \<Rightarrow> [digest_message PROPOSAL_DOMAIN bytes])"

lemma digest_message_inj: "digest_message domain a = digest_message domain b \<Longrightarrow> a = b"
  by (simp add: digest_message_def to_be_bytes_def append_eq_append_conv)

lemma digest_bytes_inj:
  assumes "inj_on sha256 M" and "digest_message domain a \<in> M" and "digest_message domain b \<in> M"
    and "digest_bytes sha256 domain a = digest_bytes sha256 domain b"
  shows "a = b"
proof -
  from assms(4) have "sha256 (digest_message domain a) = sha256 (digest_message domain b)"
    using lower_hex_inj by (simp add: digest_bytes_def digest_message_def)
  with assms(1-3) show ?thesis by (auto dest: inj_onD digest_message_inj)
qed

definition unicode :: "rstring option \<Rightarrow> bool" where
  "unicode content = (case content of None \<Rightarrow> True | Some t \<Rightarrow> list_all is_scalar_value t)"

lemma matching_content_unique:
  assumes "inj_on (pe_sha256 env) M" and "content_matches_state env state a" and "content_matches_state env state b"
    and "unicode a" and "unicode b"
    and "digest_message CONTENT_DOMAIN (utf8_bytes (text_or_empty a)) \<in> M"
    and "digest_message CONTENT_DOMAIN (utf8_bytes (text_or_empty b)) \<in> M"
  shows "a = b"
proof (cases state)
  case (Present revision digest bytes)
  with assms(2,3) obtain s t where st: "a = Some s" "b = Some t"
    "state = state_for_content env s" "state = state_for_content env t"
    by (auto simp: content_matches_state_def split: option.splits)
  then have "content_digest (pe_sha256 env) (utf8_bytes s) = content_digest (pe_sha256 env) (utf8_bytes t)"
    by (simp add: state_for_content_def)
  then have "utf8_bytes s = utf8_bytes t"
    unfolding content_digest_def using digest_bytes_inj [OF assms(1)] assms(6,7) st(1,2) by (simp add: text_or_empty_def)
  with utf8_bytes_inj assms(4,5) st(1,2) show ?thesis by (simp add: unicode_def)
qed (use assms(2,3) in \<open>auto simp: content_matches_state_def split: option.splits\<close>)

lemma plan_validate_cases:
  assumes "plan_validate env p = Inr ()"
  shows "content_matches_state env (fp_base p) (fp_base_content p)"
    and "content_matches_state env (fp_target p) (fp_target_content p)"
    and "fp_diff p = build_diff env (fp_file_path p) (fp_operation p) (text_or_empty (fp_base_content p)) (text_or_empty (fp_target_content p))"
    and "proposal_digest env (material_of p) = Inr (fp_proposal_digest p)"
  using assms by (auto simp: plan_validate_def Let_def split: if_splits sum.splits)

text \<open>
  C32: if the hash has no collision among the messages that the two plans hash, and
  the encoding tells the two proposals apart, two valid plans with the same proposal digest are the same
  plan: the digest that was approved fixes the operation, the path, the exact contents before and after,
  the diff and its counts.
\<close>

theorem proposal_binds_change:
  assumes "plan_validate env p = Inr ()" and "plan_validate env q = Inr ()" and "fp_proposal_digest p = fp_proposal_digest q"
    and "inj_on (pe_sha256 env) (set (hashed_messages env p @ hashed_messages env q))"
    and "\<And>bytes. pe_encode env (material_of p) = Inr bytes \<Longrightarrow> pe_encode env (material_of q) = Inr bytes \<Longrightarrow>
      material_of p = material_of q"
    and "unicode (fp_base_content p)" and "unicode (fp_target_content p)"
    and "unicode (fp_base_content q)" and "unicode (fp_target_content q)"
  shows "p = q"
proof -
  note vp = plan_validate_cases [OF assms(1)] and vq = plan_validate_cases [OF assms(2)]
  from vp(4) vq(4) assms(3) obtain a b where ab: "pe_encode env (material_of p) = Inr a" "pe_encode env (material_of q) = Inr b"
    "digest_bytes (pe_sha256 env) PROPOSAL_DOMAIN a = digest_bytes (pe_sha256 env) PROPOSAL_DOMAIN b"
    by (auto simp: proposal_digest_def split: sum.splits)
  have "a = b" by (rule digest_bytes_inj [OF assms(4) _ _ ab(3)]) (simp_all add: hashed_messages_def ab(1,2))
  with ab(1,2) assms(5) have "material_of p = material_of q" by blast
  then have m: "fp_operation p = fp_operation q" "fp_file_path p = fp_file_path q" "fp_base p = fp_base q"
    "fp_target p = fp_target q" "fp_diff_digest p = fp_diff_digest q" "fp_additions p = fp_additions q"
    "fp_deletions p = fp_deletions q"
    by (simp_all add: material_of_def)
  have "fp_base_content p = fp_base_content q"
    by (rule matching_content_unique [OF assms(4) vp(1) vq(1) [folded m(3)] assms(6,8)]) (simp_all add: hashed_messages_def)
  moreover have "fp_target_content p = fp_target_content q"
    by (rule matching_content_unique [OF assms(4) vp(2) vq(2) [folded m(4)] assms(7,9)]) (simp_all add: hashed_messages_def)
  ultimately show ?thesis using m assms(3) vp(3) vq(3) by (cases p; cases q) simp
qed


section \<open>Witnesses\<close>

definition example_env :: plan_env where
  "example_env =
     \<lparr>pe_sha256 = (\<lambda>b. b), pe_encode = (\<lambda>m. Inr (utf8_bytes (pm_file_path m))),
      pe_unified_diff = (\<lambda>old new old_header new_header. old_header @ new_header @ new),
      pe_changes = (\<lambda>old new. [TagInsert])\<rparr>"

definition example_request :: "string \<Rightarrow> plan_request" where
  "example_request path =
     \<lparr>rq_operation = Create, rq_file_path = S path, rq_base = BaseMissing, rq_mutation = Complete (S ''hi'')\<rparr>"

theorem placed_edit_decides_witness:
  "\<exists>a b. S ''xay'' = a @ S ''a'' @ b \<and> apply_edit (Replace (S ''a'') (S ''b'') False) (S ''xay'') = Inr (a @ S ''b'' @ b)"
proof -
  have "S ''xay'' = S ''x'' @ S ''a'' @ S ''y''" by (simp add: S_def)
  moreover have "\<not> (\<exists>a m b. S ''xay'' = a @ S ''a'' @ m @ S ''a'' @ b)"
  proof -
    have "\<not> 2 \<le> match_count (S ''a'') (S ''xay'')"
      by (simp add: match_count.simps S_def)
    then show ?thesis using match_count_many [of "S ''a''" "S ''xay''"] by simp
  qed
  ultimately show ?thesis
    using placed_edit_decides [of "Replace (S ''a'') (S ''b'') False" "S ''a''" "S ''b''" "S ''xay''"] by (simp only: placed_edit.simps if_False) auto
qed

lemma example_decision:
  "decide_change example_env (example_request ''a.txt'') = Inr (Missing, None, Some (S ''hi''))"
  "decide_change example_env (example_request '' a.txt'') = Inr (Missing, None, Some (S ''hi''))"
  by (simp_all add: decide_change_def example_request_def validate_base_def target_content_def reject_nul_def has_nul_def
      str_trim_def S_def MAX_PLANNED_CONTENT_BYTES_def is_some_and_def)

lemma example_env_total: "\<exists>bytes. pe_encode example_env material = Inr bytes"
  by (simp add: example_env_def)

lemma example_same_plan: "make_plan example_env (example_request '' a.txt'') = make_plan example_env (example_request ''a.txt'')"
proof -
  have path: "str_trim (rq_file_path (example_request '' a.txt'')) = str_trim (rq_file_path (example_request ''a.txt''))"
    by (simp add: example_request_def str_trim_def S_def)
  have operation: "rq_operation (example_request s) = Create" for s by (simp add: example_request_def)
  show ?thesis unfolding make_plan_def example_decision by (simp only: sum.case seal_plan_def path operation)
qed


theorem proposal_binds_change_witness:
  "\<exists>p q. make_plan example_env (example_request ''a.txt'') = Inr p \<and> make_plan example_env (example_request '' a.txt'') = Inr q
     \<and> p = q"
proof -
  have ex: "case rq_base (example_request s) of BaseMissing \<Rightarrow> True | BaseExisting content _ \<Rightarrow> \<not> has_nul content" for s
    by (simp add: example_request_def)
  obtain p where p: "make_plan example_env (example_request ''a.txt'') = Inr p" "plan_validate example_env p = Inr ()"
    "fp_target_content p = Some (S ''hi'')" "fp_base_content p = None"
    using planned [OF example_env_total ex, of "''a.txt''"] unfolding example_decision by auto
  from p(1) example_same_plan obtain q where q: "make_plan example_env (example_request '' a.txt'') = Inr q" "q = p" by simp
  have hi: "unicode (Some (S ''hi''))" "unicode None" by (simp_all add: unicode_def S_def is_scalar_value_def code_point_def)
  have sha: "inj_on (pe_sha256 example_env) M" for M by (simp add: example_env_def)
  have "p = q"
    by (rule proposal_binds_change [OF _ _ _ sha]) (simp_all add: p q(2) hi)
  with p(1) q(1) show ?thesis by blast
qed

end
