(* ===== verification/File_Change_Model.thy ===== *)
theory File_Change_Model
  imports File_Change_Plan Unix_Path Contracts
begin

text \<open>
  The durable records of a file change, \<open>src/crates/core/src/file_change/model.rs\<close>, with the delete journal of
  \<open>committer.rs\<close> and the observation checkpoint of \<open>observation.rs\<close>: their validation, and the life of the
  execution binding from the approved proposal over the commit to the finalized delete.
\<close>

section \<open>Data\<close>

datatype file_change_status =
    StDrafting | StReady | StWaitingApproval | StApplying | StApplied | StAlreadyApplied | StRejected
  | StConflict | StFailed | StOutcomeUnknown | StAborted | StExpired

datatype file_change_outcome = DefinitelyNotExecuted | OutcomeApplied | OutcomeUnknown

datatype delete_journal_state = Prepared | Tombstoned | Finalized | RolledBack

definition FILE_CHANGE_SCHEMA_VERSION :: nat where "FILE_CHANGE_SCHEMA_VERSION = 1"
definition FILE_CHANGE_DIRECT_BINDING_SCHEMA_VERSION :: nat where "FILE_CHANGE_DIRECT_BINDING_SCHEMA_VERSION = 2"
definition FILE_OBSERVATION_CHECKPOINT_SCHEMA_VERSION :: nat where "FILE_OBSERVATION_CHECKPOINT_SCHEMA_VERSION = 2"
definition FILE_OBSERVATION_DIRECTORY_IDENTITY_SCHEMA_VERSION :: nat where
  "FILE_OBSERVATION_DIRECTORY_IDENTITY_SCHEMA_VERSION = 1"
definition FILE_OBSERVATION_TTL_MS :: nat where "FILE_OBSERVATION_TTL_MS = 10 * 60 * 1000"

record change_transaction =
  tx_schema_version :: nat
  tx_id :: rstring
  tx_operation :: file_change_operation
  tx_file_path :: rstring
  tx_status :: file_change_status
  tx_outcome :: file_change_outcome
  tx_base :: file_change_content_state
  tx_target :: file_change_content_state
  tx_proposal_digest :: rstring
  tx_created_at :: nat
  tx_updated_at :: nat

record change_proposal =
  pp_schema_version :: nat
  pp_id :: rstring
  pp_transaction_id :: rstring
  pp_operation :: file_change_operation
  pp_file_path :: rstring
  pp_base :: file_change_content_state
  pp_target :: file_change_content_state
  pp_diff_digest :: rstring
  pp_proposal_digest :: rstring
  pp_additions :: nat
  pp_deletions :: nat

record change_receipt =
  rc_schema_version :: nat
  rc_transaction_id :: rstring
  rc_operation :: file_change_operation
  rc_file_path :: rstring
  rc_outcome :: file_change_outcome
  rc_base :: file_change_content_state
  rc_target :: file_change_content_state
  rc_proposal_digest :: rstring
  rc_committed_at :: nat

record delete_journal =
  jn_schema_version :: nat
  jn_journal_id :: rstring
  jn_transaction_id :: rstring
  jn_target_path :: rstring
  jn_tombstone_path :: rstring
  jn_base_digest :: rstring
  jn_proposal_digest :: rstring
  jn_state :: delete_journal_state
  jn_created_at :: nat
  jn_updated_at :: nat

record file_change_commit =
  fc_status :: file_change_status
  fc_receipt :: change_receipt
  fc_delete_journal :: "delete_journal option"

record observation_identity =
  oi_byte_count :: nat
  oi_modified_ns :: "nat option"
  oi_device :: "nat option"
  oi_inode :: "nat option"

datatype directory_identity = UnixDirectory nat nat nat | WindowsDirectory nat nat rstring

datatype observation_state = ObservedMissing | ObservedExisting rstring observation_identity

record observation_checkpoint =
  oc_schema_version :: nat
  oc_observation_id :: rstring
  oc_source_tool_call_id :: rstring
  oc_conversation_id :: rstring
  oc_run_id :: rstring
  oc_canonical_target :: rstring
  oc_state :: observation_state
  oc_parent_directory_identity :: directory_identity
  oc_created_at_ms :: nat
  oc_expires_at_ms :: nat

record direct_binding =
  bd_schema_version :: nat
  bd_transaction :: change_transaction
  bd_proposal :: change_proposal
  bd_observation_id :: rstring
  bd_observation :: observation_checkpoint
  bd_source_tool_name :: rstring
  bd_source_call_id :: rstring
  bd_source_args_digest :: rstring
  bd_trace_args_digest :: rstring
  bd_staged_transaction_id :: "rstring option"
  bd_conversation_id :: rstring
  bd_project_id :: "rstring option"
  bd_run_id :: rstring
  bd_staged_transaction_revision :: "nat option"
  bd_canonical_target :: rstring
  bd_base_content :: "rstring option"
  bd_target_content :: "rstring option"
  bd_delete_journal :: "delete_journal option"
  bd_receipt :: "change_receipt option"
  bd_permission_revision :: rstring
  bd_tool_set_revision :: rstring
  bd_provider_wire_revision :: rstring

section \<open>Validation of the parts\<close>

text \<open>A validation with no value: the first error, or none. \<open>require\<close> is \<open>if !(..) { return Err(..) }\<close>.\<close>

type_synonym validation = "file_change_error_code + unit"

definition require :: "bool \<Rightarrow> file_change_error_code \<Rightarrow> validation" where
  "require ok code = (if ok then Inr () else Inl code)"

fun first_error :: "validation list \<Rightarrow> validation" where
  "first_error [] = Inr ()"
| "first_error (v # vs) = (case v of Inl e \<Rightarrow> Inl e | Inr _ \<Rightarrow> first_error vs)"

definition blank :: "rstring \<Rightarrow> bool" where
  "blank s \<longleftrightarrow> str_trim s = []"

fun content_state_validate :: "file_change_content_state \<Rightarrow> validation" where
  "content_state_validate Missing = Inr ()"
| "content_state_validate (Present revision digest _) =
     require (\<not> blank revision \<and> valid_digest digest) InvalidArguments"

fun state_digest :: "file_change_content_state \<Rightarrow> rstring option" where
  "state_digest Missing = None"
| "state_digest (Present _ digest _) = Some digest"

fun state_revision :: "file_change_content_state \<Rightarrow> rstring option" where
  "state_revision Missing = None"
| "state_revision (Present revision _ _) = Some revision"

definition validate_operation_states ::
  "file_change_operation \<Rightarrow> file_change_content_state \<Rightarrow> file_change_content_state \<Rightarrow> validation" where
  "validate_operation_states operation base target =
     require (operation_states_match operation base target) IllegalFieldCombination"

definition validate_status_outcome :: "file_change_status \<Rightarrow> file_change_outcome \<Rightarrow> validation" where
  "validate_status_outcome status outcome =
     require
       (if status \<in> {StApplied, StAlreadyApplied} then outcome = OutcomeApplied
        else if status \<in> {StApplying, StOutcomeUnknown} then outcome = OutcomeUnknown
        else outcome = DefinitelyNotExecuted)
       IllegalFieldCombination"

text \<open>The macro \<open>impl_validate\<close>.\<close>

definition validate_common ::
  "nat \<Rightarrow> rstring \<Rightarrow> rstring \<Rightarrow> file_change_content_state \<Rightarrow> file_change_content_state \<Rightarrow> validation list" where
  "validate_common schema_version file_path digest base target =
     [require (schema_version = FILE_CHANGE_SCHEMA_VERSION) InvalidArguments,
      require (\<not> blank file_path \<and> valid_digest digest) InvalidArguments,
      content_state_validate base, content_state_validate target]"

definition transaction_validate :: "change_transaction \<Rightarrow> validation" where
  "transaction_validate t =
     first_error
       (validate_common (tx_schema_version t) (tx_file_path t) (tx_proposal_digest t) (tx_base t) (tx_target t)
        @ [require (\<not> blank (tx_id t) \<and> tx_created_at t \<le> tx_updated_at t) InvalidArguments,
           validate_operation_states (tx_operation t) (tx_base t) (tx_target t),
           validate_status_outcome (tx_status t) (tx_outcome t)])"

definition proposal_validate :: "change_proposal \<Rightarrow> validation" where
  "proposal_validate p =
     first_error
       (validate_common (pp_schema_version p) (pp_file_path p) (pp_proposal_digest p) (pp_base p) (pp_target p)
        @ [require (\<not> blank (pp_id p) \<and> \<not> blank (pp_transaction_id p) \<and> valid_digest (pp_diff_digest p)) InvalidArguments,
           validate_operation_states (pp_operation p) (pp_base p) (pp_target p)])"

definition receipt_validate :: "change_receipt \<Rightarrow> validation" where
  "receipt_validate r =
     first_error
       (validate_common (rc_schema_version r) (rc_file_path r) (rc_proposal_digest r) (rc_base r) (rc_target r)
        @ [require (\<not> blank (rc_transaction_id r)) InvalidArguments,
           validate_operation_states (rc_operation r) (rc_base r) (rc_target r),
           require (rc_outcome r \<noteq> DefinitelyNotExecuted) InvalidArguments])"

section \<open>The delete journal\<close>

text \<open>\<open>Path::parent\<close> and \<open>Path::join\<close> on components, by which paths are compared.\<close>

definition path_parent :: "path_buf \<Rightarrow> path_buf option" where
  "path_parent cs = (if cs = [] \<or> cs = [RootDir] then None else Some (butlast cs))"

fun rsplit_once :: "rchar \<Rightarrow> rstring \<Rightarrow> (rstring \<times> rstring) option" where
  "rsplit_once c [] = None"
| "rsplit_once c (x # xs) =
     (case rsplit_once c xs of
        Some (a, b) \<Rightarrow> Some (x # a, b)
      | None \<Rightarrow> if x = c then Some ([], xs) else None)"

definition delete_journal_suffix ::
  "(byte list \<Rightarrow> byte list) \<Rightarrow> rstring \<Rightarrow> rstring \<Rightarrow> rstring \<Rightarrow> rstring \<Rightarrow> rstring" where
  "delete_journal_suffix sha256 transaction_id target_path base_digest approved_digest =
     (let NUL = Ch (CHR 0x00);
          material = transaction_id @ [NUL] @ target_path @ [NUL] @ base_digest @ [NUL] @ approved_digest in
      case rsplit_once (Ch CHR '':'') (content_digest sha256 (utf8_bytes material)) of
        Some (_, digest) \<Rightarrow> digest
      | None \<Rightarrow> S ''invalid'')"

definition delete_journal_id :: "rstring \<Rightarrow> rstring" where
  "delete_journal_id sfx = S ''file-change-delete-'' @ sfx"

definition tombstone_name :: "rstring \<Rightarrow> rstring" where
  "tombstone_name journal_id = S ''.'' @ journal_id @ S ''.tombstone''"

definition journal_validate :: "(byte list \<Rightarrow> byte list) \<Rightarrow> delete_journal \<Rightarrow> validation" where
  "journal_validate sha256 j =
     (let target = path_components (jn_target_path j);
          tombstone = path_components (jn_tombstone_path j);
          expected_id = delete_journal_id (delete_journal_suffix sha256 (jn_transaction_id j) (jn_target_path j)
            (jn_base_digest j) (jn_proposal_digest j));
          expected_tombstone = map_option (\<lambda>parent. parent @ path_components (tombstone_name expected_id)) (path_parent target) in
      first_error
        [require (jn_schema_version j = FILE_CHANGE_SCHEMA_VERSION \<and> \<not> blank (jn_journal_id j)
             \<and> \<not> blank (jn_transaction_id j) \<and> \<not> blank (jn_target_path j) \<and> \<not> blank (jn_tombstone_path j)
             \<and> valid_digest (jn_base_digest j) \<and> valid_digest (jn_proposal_digest j)
             \<and> jn_created_at j \<le> jn_updated_at j) InvalidArguments,
         require (path_is_absolute (jn_target_path j) \<and> path_is_absolute (jn_tombstone_path j)
             \<and> path_parent target = path_parent tombstone \<and> target \<noteq> tombstone
             \<and> jn_journal_id j = expected_id \<and> expected_tombstone = Some tombstone) IllegalFieldCombination])"

section \<open>The observation\<close>

definition is_control :: "rchar \<Rightarrow> bool" where
  "is_control c \<longleftrightarrow> code_point c < 0x20 \<or> 0x7F \<le> code_point c \<and> code_point c < 0xA0"

definition lower_hex_text :: "rstring \<Rightarrow> bool" where
  "lower_hex_text s = list_all (\<lambda>c. among c ''0123456789abcdef'') s"

definition valid_observation_id :: "rstring \<Rightarrow> bool" where
  "valid_observation_id value \<longleftrightarrow>
     byte_len value = 37 \<and> starts_with value (S ''fobs_'')
     \<and> list_all (\<lambda>c. among c ''0123456789abcdefABCDEF'') (drop 5 value)"

definition valid_owned_id :: "rstring \<Rightarrow> bool" where
  "valid_owned_id value \<longleftrightarrow>
     value \<noteq> [] \<and> byte_len value \<le> 2048 \<and> str_trim value = value \<and> \<not> list_ex is_control value"

fun directory_identity_validate :: "directory_identity \<Rightarrow> bool" where
  "directory_identity_validate (UnixDirectory version _ _) =
     (version = FILE_OBSERVATION_DIRECTORY_IDENTITY_SCHEMA_VERSION)"
| "directory_identity_validate (WindowsDirectory version _ file_id) =
     (version = FILE_OBSERVATION_DIRECTORY_IDENTITY_SCHEMA_VERSION \<and> byte_len file_id = 32 \<and> lower_hex_text file_id)"

definition observation_identity_validate :: "observation_identity \<Rightarrow> validation" where
  "observation_identity_validate i =
     require ((oi_device i = None) = (oi_inode i = None)) InvalidArguments"

definition validate_frozen_binding ::
  "nat \<Rightarrow> observation_checkpoint \<Rightarrow> rstring \<Rightarrow> rstring \<Rightarrow> rstring \<Rightarrow> validation" where
  "validate_frozen_binding now o1 expected_conversation_id expected_run_id expected_target =
     first_error
       [require (oc_schema_version o1 = FILE_OBSERVATION_CHECKPOINT_SCHEMA_VERSION
            \<and> valid_observation_id (oc_observation_id o1) \<and> valid_owned_id (oc_source_tool_call_id o1)
            \<and> valid_owned_id (oc_conversation_id o1) \<and> valid_owned_id (oc_run_id o1)
            \<and> oc_conversation_id o1 = expected_conversation_id \<and> oc_run_id o1 = expected_run_id
            \<and> oc_created_at_ms o1 \<le> now
            \<and> oc_created_at_ms o1 \<le> oc_expires_at_ms o1
            \<and> oc_expires_at_ms o1 - oc_created_at_ms o1 = FILE_OBSERVATION_TTL_MS) InvalidArguments,
        require (directory_identity_validate (oc_parent_directory_identity o1)) InvalidArguments,
        (case oc_state o1 of
           ObservedMissing \<Rightarrow> Inr ()
         | ObservedExisting revision identity \<Rightarrow>
             first_error [require (valid_owned_id revision) InvalidArguments, observation_identity_validate identity]),
        require (path_is_absolute (oc_canonical_target o1)
            \<and> path_components (oc_canonical_target o1) = path_components expected_target
            \<and> str_trim (oc_canonical_target o1) = oc_canonical_target o1
            \<and> \<not> list_ex is_control (oc_canonical_target o1)) InvalidArguments]"

section \<open>The binding\<close>

definition observation_matches_base :: "direct_binding \<Rightarrow> bool" where
  "observation_matches_base b \<longleftrightarrow>
     bd_observation_id b = oc_observation_id (bd_observation b)
     \<and> (case (tx_operation (bd_transaction b), oc_state (bd_observation b)) of
          (Create, ObservedMissing) \<Rightarrow> tx_base (bd_transaction b) = Missing
        | (Create, ObservedExisting _ _) \<Rightarrow> False
        | (_, ObservedExisting revision _) \<Rightarrow> state_revision (tx_base (bd_transaction b)) = Some revision
        | (_, ObservedMissing) \<Rightarrow> False)"

definition delete_journal_is_valid :: "(byte list \<Rightarrow> byte list) \<Rightarrow> direct_binding \<Rightarrow> bool" where
  "delete_journal_is_valid sha256 b =
     (case (tx_operation (bd_transaction b), bd_delete_journal b) of
        (Delete, Some j) \<Rightarrow>
          journal_validate sha256 j = Inr () \<and> jn_transaction_id j = tx_id (bd_transaction b)
          \<and> jn_target_path j = bd_canonical_target b
          \<and> jn_proposal_digest j = pp_proposal_digest (bd_proposal b)
          \<and> Some (jn_base_digest j) = state_digest (tx_base (bd_transaction b))
      | (Delete, None) \<Rightarrow> False
      | (_, None) \<Rightarrow> True
      | (_, Some _) \<Rightarrow> False)"

definition staged_reference_is_valid :: "direct_binding \<Rightarrow> bool" where
  "staged_reference_is_valid b =
     (case (bd_staged_transaction_id b, bd_staged_transaction_revision b) of
        (None, None) \<Rightarrow> bd_source_tool_name b = S ''apply_patch''
      | (Some transaction_id, Some _) \<Rightarrow>
          tx_operation (bd_transaction b) \<noteq> Delete \<and> transaction_id = tx_id (bd_transaction b)
      | _ \<Rightarrow> False)"

text \<open>\<open>content_matches_binding_state\<close> compares the three fields one by one.\<close>

definition content_matches_binding_state ::
  "(byte list \<Rightarrow> byte list) \<Rightarrow> file_change_content_state \<Rightarrow> rstring option \<Rightarrow> bool" where
  "content_matches_binding_state sha256 state content =
     (case (state, content) of
        (Missing, None) \<Rightarrow> True
      | (Present revision digest byte_count, Some content) \<Rightarrow>
          content_revision (utf8_bytes content) = revision \<and> content_digest sha256 (utf8_bytes content) = digest
          \<and> byte_len content = byte_count
      | _ \<Rightarrow> False)"

definition binding_parts_agree :: "(byte list \<Rightarrow> byte list) \<Rightarrow> direct_binding \<Rightarrow> bool" where
  "binding_parts_agree sha256 b \<longleftrightarrow>
     (let t = bd_transaction b; p = bd_proposal b in
      tx_id t = pp_transaction_id p \<and> pp_id p = bd_source_call_id b \<and> tx_operation t = pp_operation p
      \<and> tx_file_path t = pp_file_path p \<and> tx_base t = pp_base p \<and> tx_target t = pp_target p
      \<and> tx_proposal_digest t = pp_proposal_digest p
      \<and> content_matches_binding_state sha256 (tx_base t) (bd_base_content b)
      \<and> content_matches_binding_state sha256 (tx_target t) (bd_target_content b)
      \<and> observation_matches_base b \<and> delete_journal_is_valid sha256 b \<and> staged_reference_is_valid b)"

definition binding_prepared :: "direct_binding \<Rightarrow> bool" where
  "binding_prepared b \<longleftrightarrow>
     tx_status (bd_transaction b) = StWaitingApproval \<and> tx_outcome (bd_transaction b) = DefinitelyNotExecuted
     \<and> bd_receipt b = None \<and> is_none_or (bd_delete_journal b) (\<lambda>j. jn_state j = Prepared)"

definition receipt_matches :: "change_transaction \<Rightarrow> change_receipt \<Rightarrow> bool" where
  "receipt_matches t r \<longleftrightarrow>
     rc_transaction_id r = tx_id t \<and> rc_operation r = tx_operation t \<and> rc_file_path r = tx_file_path t
     \<and> rc_base r = tx_base t \<and> rc_target r = tx_target t \<and> rc_proposal_digest r = tx_proposal_digest t"

definition binding_committed :: "direct_binding \<Rightarrow> bool" where
  "binding_committed b \<longleftrightarrow>
     (let t = bd_transaction b in
      tx_status t \<in> {StApplied, StAlreadyApplied} \<and> tx_outcome t = OutcomeApplied
      \<and> is_some_and (bd_receipt b) (\<lambda>r.
          receipt_validate r = Inr () \<and> rc_schema_version r = FILE_CHANGE_SCHEMA_VERSION \<and> receipt_matches t r
          \<and> rc_outcome r = tx_outcome t \<and> rc_committed_at r = tx_updated_at t)
      \<and> is_none_or (bd_delete_journal b) (\<lambda>j.
          jn_state j \<in> {Tombstoned, Finalized} \<and> tx_updated_at t \<le> jn_updated_at j))"

definition binding_validate :: "(byte list \<Rightarrow> byte list) \<Rightarrow> nat \<Rightarrow> direct_binding \<Rightarrow> validation" where
  "binding_validate sha256 now b =
     first_error
       [require (bd_schema_version b = FILE_CHANGE_DIRECT_BINDING_SCHEMA_VERSION
            \<and> \<not> blank (bd_observation_id b) \<and> bd_source_tool_name b = S ''apply_patch''
            \<and> \<not> blank (bd_source_call_id b) \<and> valid_digest (bd_source_args_digest b)
            \<and> valid_digest (bd_trace_args_digest b) \<and> \<not> blank (bd_conversation_id b)
            \<and> \<not> is_some_and (bd_project_id b) blank \<and> \<not> blank (bd_run_id b)
            \<and> \<not> blank (bd_permission_revision b) \<and> \<not> blank (bd_tool_set_revision b)
            \<and> \<not> blank (bd_provider_wire_revision b) \<and> path_is_absolute (bd_canonical_target b)) InvalidArguments,
        transaction_validate (bd_transaction b),
        proposal_validate (bd_proposal b),
        validate_frozen_binding now (bd_observation b) (bd_conversation_id b) (bd_run_id b) (bd_canonical_target b),
        require (binding_parts_agree sha256 b) IllegalFieldCombination,
        require (binding_prepared b \<or> binding_committed b) IllegalFieldCombination]"

definition is_prepared :: "(byte list \<Rightarrow> byte list) \<Rightarrow> nat \<Rightarrow> direct_binding \<Rightarrow> bool" where
  "is_prepared sha256 now b \<longleftrightarrow>
     binding_validate sha256 now b = Inr () \<and> tx_status (bd_transaction b) = StWaitingApproval \<and> bd_receipt b = None"

text \<open>\<open>validate\<close> reads the clock each time it is called; the readings are arguments in the order of the calls.\<close>

definition with_commit ::
  "(byte list \<Rightarrow> byte list) \<Rightarrow> nat \<times> nat \<times> nat \<Rightarrow> file_change_commit \<Rightarrow> direct_binding
   \<Rightarrow> file_change_error_code + direct_binding" where
  "with_commit sha256 clock commit b =
     (case clock of (now1, now2, now3) \<Rightarrow>
        rbind (binding_validate sha256 now1 b) (\<lambda>_.
          if \<not> is_prepared sha256 now2 b \<or> \<not> receipt_matches (bd_transaction b) (fc_receipt commit)
             \<or> rc_outcome (fc_receipt commit) \<noteq> OutcomeApplied \<or> fc_status commit \<notin> {StApplied, StAlreadyApplied}
          then Inl IllegalFieldCombination
          else
            let committed =
                  b\<lparr>bd_transaction := (bd_transaction b)
                      \<lparr>tx_status := fc_status commit, tx_outcome := OutcomeApplied,
                       tx_updated_at := rc_committed_at (fc_receipt commit)\<rparr>,
                    bd_delete_journal := fc_delete_journal commit,
                    bd_receipt := Some (fc_receipt commit)\<rparr> in
            rbind (binding_validate sha256 now3 committed) (\<lambda>_. Inr committed)))"

definition is_commit_successor_of ::
  "(byte list \<Rightarrow> byte list) \<Rightarrow> nat \<times> nat \<Rightarrow> direct_binding \<Rightarrow> direct_binding \<Rightarrow> bool" where
  "is_commit_successor_of sha256 clock b prepared \<longleftrightarrow>
     is_prepared sha256 (fst clock) prepared \<and> binding_validate sha256 (snd clock) b = Inr () \<and> bd_receipt b \<noteq> None
     \<and> b = prepared\<lparr>bd_transaction := (bd_transaction prepared)
              \<lparr>tx_status := tx_status (bd_transaction b), tx_outcome := tx_outcome (bd_transaction b),
               tx_updated_at := tx_updated_at (bd_transaction b)\<rparr>,
            bd_delete_journal := bd_delete_journal b, bd_receipt := bd_receipt b\<rparr>"

definition with_finalized_delete_journal ::
  "(byte list \<Rightarrow> byte list) \<Rightarrow> nat \<times> nat \<Rightarrow> delete_journal \<Rightarrow> direct_binding
   \<Rightarrow> file_change_error_code + direct_binding" where
  "with_finalized_delete_journal sha256 clock finalized_journal b =
     rbind (binding_validate sha256 (fst clock) b) (\<lambda>_.
       case bd_delete_journal b of
         None \<Rightarrow> Inl IllegalFieldCombination
       | Some current_journal \<Rightarrow>
           if tx_operation (bd_transaction b) \<noteq> Delete \<or> bd_receipt b = None \<or> jn_state current_journal \<noteq> Tombstoned
              \<or> jn_state finalized_journal \<noteq> Finalized \<or> jn_updated_at finalized_journal < jn_updated_at current_journal
              \<or> finalized_journal \<noteq> current_journal\<lparr>jn_state := Finalized, jn_updated_at := jn_updated_at finalized_journal\<rparr>
           then Inl IllegalFieldCombination
           else
             let finalized = b\<lparr>bd_delete_journal := Some finalized_journal\<rparr> in
             rbind (binding_validate sha256 (snd clock) finalized) (\<lambda>_. Inr finalized))"

definition is_delete_finalization_successor_of ::
  "(byte list \<Rightarrow> byte list) \<Rightarrow> nat \<times> nat \<Rightarrow> direct_binding \<Rightarrow> direct_binding \<Rightarrow> bool" where
  "is_delete_finalization_successor_of sha256 clock b committed =
     (case bd_delete_journal b of
        None \<Rightarrow> False
      | Some finalized_journal \<Rightarrow> with_finalized_delete_journal sha256 clock finalized_journal committed = Inr b)"

text \<open>\<open>FileChangePlan::from_binding\<close> and \<open>from_direct_binding\<close> (\<open>planner.rs\<close>).\<close>

definition plan_of_binding :: "plan_env \<Rightarrow> direct_binding \<Rightarrow> file_change_plan" where
  "plan_of_binding env b =
     (let t = bd_transaction b; p = bd_proposal b in
      \<lparr>fp_operation = tx_operation t, fp_file_path = tx_file_path t, fp_base = tx_base t, fp_target = tx_target t,
       fp_base_content = bd_base_content b, fp_target_content = bd_target_content b,
       fp_diff = build_diff env (tx_file_path t) (tx_operation t) (text_or_empty (bd_base_content b)) (text_or_empty (bd_target_content b)),
       fp_diff_digest = pp_diff_digest p, fp_proposal_digest = pp_proposal_digest p,
       fp_additions = pp_additions p, fp_deletions = pp_deletions p\<rparr>)"

definition from_binding :: "plan_env \<Rightarrow> nat \<Rightarrow> direct_binding \<Rightarrow> file_change_error_code + file_change_plan" where
  "from_binding env now b =
     rbind (binding_validate (pe_sha256 env) now b) (\<lambda>_.
       rbind (plan_validate env (plan_of_binding env b)) (\<lambda>_. Inr (plan_of_binding env b)))"

definition from_direct_binding ::
  "plan_env \<Rightarrow> nat \<Rightarrow> direct_binding \<Rightarrow> rstring \<Rightarrow> file_change_error_code + file_change_plan" where
  "from_direct_binding env now b diff =
     rbind (from_binding env now b) (\<lambda>plan. if fp_diff plan \<noteq> diff then Inl InvalidArguments else Inr plan)"

section \<open>Validations\<close>

lemma require_iff [simp]: "require ok code = Inr () \<longleftrightarrow> ok"
  by (simp add: require_def)

lemma first_error_iff: "first_error vs = Inr () \<longleftrightarrow> list_all (\<lambda>v. v = Inr ()) vs"
  by (induction vs) (auto split: sum.split)

lemma unit_sum_cases: "(v :: 'e + unit) = Inr () \<or> (\<exists>e. v = Inl e)"
  by (cases v) auto

end
