(* ===== verification/File_Change_Disk.thy ===== *)
theory File_Change_Disk
  imports File_Change_Model
begin

text \<open>
  The directory a file change works in, as \<open>src/crates/core/src/file_change/bound_io.rs\<close> uses it on Unix: a held
  directory, its regular files, and the calls on them. Other programs share the directory. Before every
  call they may change it in any way, the call may fail, and the process may be killed: a \<open>turn\<close> says which
  of these happens, and a run is given one turn for each call. Calls after the last turn are undisturbed. A
  failed call changes nothing; \<open>write_all\<close>, \<open>flush\<close> and \<open>sync_all\<close> of the staged file are one call, since its private
  name is discarded when any of them fails.
\<close>

section \<open>Files and turns\<close>

record dir_file =
  df_inode :: nat
  df_bytes :: "byte list"
  df_mode :: nat

type_synonym directory = "rstring \<Rightarrow> dir_file option"

datatype io_kind = KindAlreadyExists | KindNotFound | KindPermissionDenied | KindOther

record turn =
  tn_others :: "directory \<Rightarrow> directory"
  tn_killed :: bool
  tn_error :: "file_change_error_code option"
  tn_io :: "io_kind option"

definition quiet :: turn where
  "quiet = \<lparr>tn_others = (\<lambda>d. d), tn_killed = False, tn_error = None, tn_io = None\<rparr>"

text \<open>\<open>fw_removed\<close> logs every file the program itself unlinks.\<close>

record disk_world =
  fw_dir :: directory
  fw_turns :: "turn list"
  fw_removed :: "dir_file list"

datatype 'a answer = Killed | Failure file_change_error_code | Success 'a

type_synonym 'a disk = "disk_world \<Rightarrow> 'a answer \<times> disk_world"

section \<open>Composition\<close>

definition give :: "'a \<Rightarrow> 'a disk" where
  "give x w = (Success x, w)"

definition fail :: "file_change_error_code \<Rightarrow> 'a disk" where
  "fail code w = (Failure code, w)"

definition dbind :: "'a disk \<Rightarrow> ('a \<Rightarrow> 'b disk) \<Rightarrow> 'b disk" where
  "dbind m f w =
     (case m w of (Killed, w) \<Rightarrow> (Killed, w) | (Failure code, w) \<Rightarrow> (Failure code, w) | (Success x, w) \<Rightarrow> f x w)"

text \<open>A call that may fail in itself: \<open>Result\<close> as a value, for \<open>map_err\<close> and for errors that are handled.\<close>

definition attempt :: "'a disk \<Rightarrow> (file_change_error_code + 'a) disk" where
  "attempt m w =
     (case m w of (Killed, w) \<Rightarrow> (Killed, w) | (Failure code, w) \<Rightarrow> (Success (Inl code), w) | (Success x, w) \<Rightarrow> (Success (Inr x), w))"

definition lift_result :: "file_change_error_code + 'a \<Rightarrow> 'a disk" where
  "lift_result r = (case r of Inl code \<Rightarrow> fail code | Inr x \<Rightarrow> give x)"

definition check :: "bool \<Rightarrow> file_change_error_code \<Rightarrow> unit disk" where
  "check ok code = (if ok then give () else fail code)"

text \<open>One system call: the others move, then the call runs unless the process is killed before it.\<close>

definition call :: "(turn \<Rightarrow> 'a disk) \<Rightarrow> 'a disk" where
  "call body w =
     (let (t, rest) = (case fw_turns w of [] \<Rightarrow> (quiet, []) | t # rest \<Rightarrow> (t, rest));
          w = w\<lparr>fw_dir := tn_others t (fw_dir w), fw_turns := rest\<rparr> in
      if tn_killed t then (Killed, w) else body t w)"

definition or_error :: "turn \<Rightarrow> 'a disk \<Rightarrow> 'a disk" where
  "or_error t m = (case tn_error t of Some code \<Rightarrow> fail code | None \<Rightarrow> m)"

definition or_io :: "turn \<Rightarrow> (io_kind + 'a) disk \<Rightarrow> (io_kind + 'a) disk" where
  "or_io t m = (case tn_io t of Some kind \<Rightarrow> give (Inl kind) | None \<Rightarrow> m)"

section \<open>Calls\<close>

text \<open>\<open>BoundParent::open\<close> and \<open>revalidate\<close>: the frozen path still names the frozen directory, or an error.\<close>

definition revalidate :: "unit disk" where
  "revalidate = call (\<lambda>t. or_error t (give ()))"

definition read_optional :: "rstring \<Rightarrow> dir_file option disk" where
  "read_optional path = call (\<lambda>t. or_error t (\<lambda>w. give (fw_dir w path) w))"

definition read_required :: "rstring \<Rightarrow> dir_file disk" where
  "read_required path =
     dbind (read_optional path) (\<lambda>current. case current of None \<Rightarrow> fail FileMissing | Some f \<Rightarrow> give f)"

definition set_dir :: "directory \<Rightarrow> disk_world \<Rightarrow> disk_world" where
  "set_dir d w = w\<lparr>fw_dir := d\<rparr>"

definition rename_noreplace :: "rstring \<Rightarrow> rstring \<Rightarrow> (io_kind + unit) disk" where
  "rename_noreplace source target = call (\<lambda>t. or_io t (\<lambda>w.
     case fw_dir w source of
       None \<Rightarrow> give (Inl KindNotFound) w
     | Some f \<Rightarrow>
         if fw_dir w target \<noteq> None then give (Inl KindAlreadyExists) w
         else give (Inr ()) (set_dir ((fw_dir w)(source := None, target \<mapsto> f)) w)))"

definition exchange :: "rstring \<Rightarrow> rstring \<Rightarrow> (io_kind + unit) disk" where
  "exchange source target = call (\<lambda>t. or_io t (\<lambda>w.
     case (fw_dir w source, fw_dir w target) of
       (Some f, Some g) \<Rightarrow> give (Inr ()) (set_dir ((fw_dir w)(source \<mapsto> g, target \<mapsto> f)) w)
     | _ \<Rightarrow> give (Inl KindNotFound) w))"

definition remove :: "rstring \<Rightarrow> (io_kind + unit) disk" where
  "remove path = call (\<lambda>t. or_io t (\<lambda>w.
     case fw_dir w path of
       None \<Rightarrow> give (Inl KindNotFound) w
     | Some f \<Rightarrow> give (Inr ()) (w\<lparr>fw_dir := (fw_dir w)(path := None), fw_removed := fw_removed w @ [f]\<rparr>)))"

text \<open>Calls without an effect on the names of the directory: \<open>sync_all\<close>, \<open>try_clone\<close>, \<open>metadata\<close> of an open file.\<close>

definition plain_call :: "(io_kind + unit) disk" where
  "plain_call = call (\<lambda>t. or_io t (give (Inr ())))"

text \<open>
  \<open>openat\<close> with \<open>O_CREAT | O_EXCL\<close>, and the writes to the file it opened. They go to the open inode: what the
  directory shows under the private name follows unless someone replaced it there.
\<close>

definition create_private :: "rstring \<Rightarrow> nat \<Rightarrow> (io_kind + unit) disk" where
  "create_private name inode = call (\<lambda>t. or_io t (\<lambda>w.
     if fw_dir w name \<noteq> None then give (Inl KindAlreadyExists) w
     else give (Inr ()) (set_dir ((fw_dir w)(name \<mapsto> \<lparr>df_inode = inode, df_bytes = [], df_mode = 384\<rparr>)) w)))"

definition change_inode :: "nat \<Rightarrow> (dir_file \<Rightarrow> dir_file) \<Rightarrow> directory \<Rightarrow> directory" where
  "change_inode inode f d = (\<lambda>name. map_option (\<lambda>file. if df_inode file = inode then f file else file) (d name))"

definition write_inode :: "nat \<Rightarrow> (dir_file \<Rightarrow> dir_file) \<Rightarrow> (io_kind + unit) disk" where
  "write_inode inode f = call (\<lambda>t. or_io t (\<lambda>w. give (Inr ()) (set_dir (change_inode inode f (fw_dir w)) w)))"

record staged_file =
  sf_name :: rstring
  sf_inode :: nat

definition staging_error :: "io_kind \<Rightarrow> file_change_error_code" where
  "staging_error kind = (case kind of KindPermissionDenied \<Rightarrow> PermissionDenied | _ \<Rightarrow> ErrFailed)"

text \<open>
  \<open>stage\<close>: at most sixteen names are tried. The random names and the inode the system assigns are inputs.
  A failed write removes the file again, and a failure of that removal is ignored.
\<close>

definition discard :: "rstring \<Rightarrow> 'a disk \<Rightarrow> 'a disk" where
  "discard name m = dbind (remove name) (\<lambda>_. m)"

definition staged_or_discard :: "rstring \<Rightarrow> (io_kind + unit) disk \<Rightarrow> 'a disk \<Rightarrow> 'a disk" where
  "staged_or_discard name m next_step =
     dbind m (\<lambda>r. case r of Inl kind \<Rightarrow> discard name (fail (staging_error kind)) | Inr _ \<Rightarrow> next_step)"

definition fill_staged :: "rstring \<Rightarrow> nat \<Rightarrow> byte list \<Rightarrow> nat option \<Rightarrow> staged_file disk" where
  "fill_staged name inode content mode =
     staged_or_discard name (write_inode inode (\<lambda>f. f\<lparr>df_bytes := content\<rparr>))
       ((case mode of
           None \<Rightarrow> (\<lambda>m. m)
         | Some bits \<Rightarrow> staged_or_discard name (write_inode inode (\<lambda>f. f\<lparr>df_mode := bits\<rparr>)))
        (staged_or_discard name plain_call (give \<lparr>sf_name = name, sf_inode = inode\<rparr>)))"

fun stage_file ::
  "nat \<Rightarrow> byte list \<Rightarrow> nat option \<Rightarrow> rstring list \<Rightarrow> staged_file disk" where
  "stage_file inode content mode [] = fail ErrConflict"
| "stage_file inode content mode (name # names) =
     dbind (create_private name inode) (\<lambda>created.
       case created of
         Inl kind \<Rightarrow>
           if kind = KindAlreadyExists then stage_file inode content mode names else fail (staging_error kind)
       | Inr _ \<Rightarrow> fill_staged name inode content mode)"

record staging =
  sg_names :: "rstring list"
  sg_inode :: nat

definition stage :: "staging \<Rightarrow> byte list \<Rightarrow> nat option \<Rightarrow> staged_file disk" where
  "stage s content mode = stage_file (sg_inode s) content mode (take 16 (sg_names s))"

text \<open>
  Dropping a \<open>BoundStagedFile\<close> that was not published removes its name and ignores the result. \<open>guarded\<close>
  runs code that owns such a file: an early return drops it, a killed process does not.
\<close>

definition guarded :: "staged_file \<Rightarrow> 'a disk \<Rightarrow> 'a disk" where
  "guarded s m =
     dbind (attempt m) (\<lambda>r. case r of Inl code \<Rightarrow> discard (sf_name s) (fail code) | Inr x \<Rightarrow> give x)"

end
