(* ===== verification/File_Change_Commit.thy ===== *)
theory File_Change_Commit
  imports File_Change_Disk
begin

text \<open>
  The committer of file changes, \<open>src/crates/core/src/file_change/committer.rs\<close>: reconciliation of the disk with
  a plan, creating, updating and deleting the target, and finishing or undoing a delete.
\<close>

section \<open>Reconciliation\<close>

datatype reconciliation = RcDefinitelyNotExecuted | RcAlreadyApplied | RcOutcomeUnknown

record resolved_target =
  rt_absolute_path :: rstring
  rt_parent :: rstring
  rt_display_path :: rstring

definition state_matches :: "(byte list \<Rightarrow> byte list) \<Rightarrow> file_change_content_state \<Rightarrow> byte list \<Rightarrow> bool" where
  "state_matches sha256 expected bytes =
     (case expected of
        Missing \<Rightarrow> False
      | Present revision digest byte_count \<Rightarrow>
          byte_count = length bytes \<and> revision = content_revision bytes \<and> digest = content_digest sha256 bytes)"

definition ensure_state_matches ::
  "(byte list \<Rightarrow> byte list) \<Rightarrow> file_change_content_state \<Rightarrow> byte list \<Rightarrow> unit disk" where
  "ensure_state_matches sha256 expected bytes = check (state_matches sha256 expected bytes) RevisionConflict"

definition state_digest_matches :: "(byte list \<Rightarrow> byte list) \<Rightarrow> rstring \<Rightarrow> byte list \<Rightarrow> bool" where
  "state_digest_matches sha256 expected bytes \<longleftrightarrow> content_digest sha256 bytes = expected"

definition ensure_path_digest :: "(byte list \<Rightarrow> byte list) \<Rightarrow> rstring \<Rightarrow> rstring \<Rightarrow> unit disk" where
  "ensure_path_digest sha256 path expected =
     dbind (read_required path) (\<lambda>current. check (state_digest_matches sha256 expected (df_bytes current)) RevisionConflict)"

definition sync_after_publication :: "unit disk" where
  "sync_after_publication = dbind plain_call (\<lambda>r. case r of Inl _ \<Rightarrow> fail ErrOutcomeUnknown | Inr _ \<Rightarrow> give ())"

definition io_error :: "bool \<Rightarrow> io_kind \<Rightarrow> file_change_error_code" where
  "io_error no_replace kind =
     (case kind of
        KindAlreadyExists \<Rightarrow> if no_replace then FileExists else ErrFailed
      | KindNotFound \<Rightarrow> FileMissing
      | KindPermissionDenied \<Rightarrow> PermissionDenied
      | KindOther \<Rightarrow> ErrFailed)"

definition rename_conflict_error :: "io_kind \<Rightarrow> file_change_error_code" where
  "rename_conflict_error kind =
     (case kind of
        KindAlreadyExists \<Rightarrow> ErrConflict
      | KindNotFound \<Rightarrow> FileMissing
      | KindPermissionDenied \<Rightarrow> PermissionDenied
      | KindOther \<Rightarrow> ErrFailed)"

definition outcome_unknown_io :: "io_kind \<Rightarrow> file_change_error_code" where
  "outcome_unknown_io kind = ErrOutcomeUnknown"

definition map_err :: "(io_kind \<Rightarrow> file_change_error_code) \<Rightarrow> (io_kind + 'a) disk \<Rightarrow> 'a disk" where
  "map_err f m = dbind m (\<lambda>r. case r of Inl kind \<Rightarrow> fail (f kind) | Inr x \<Rightarrow> give x)"

definition fresh_conflict_code :: "file_change_operation \<Rightarrow> file_change_error_code" where
  "fresh_conflict_code operation =
     (case operation of Create \<Rightarrow> FileExists | Update \<Rightarrow> RevisionConflict | Delete \<Rightarrow> ErrOutcomeUnknown)"

definition reconcile_deleted ::
  "(byte list \<Rightarrow> byte list) \<Rightarrow> resolved_target \<Rightarrow> file_change_plan \<Rightarrow> delete_journal option \<Rightarrow> reconciliation disk" where
  "reconcile_deleted sha256 target plan journal =
     (case journal of
        None \<Rightarrow> give RcOutcomeUnknown
      | Some j \<Rightarrow>
          dbind (lift_result (journal_validate sha256 j)) (\<lambda>_.
          dbind (check (jn_target_path j = rt_absolute_path target) IllegalFieldCombination) (\<lambda>_.
          if jn_proposal_digest j \<noteq> fp_proposal_digest plan then give RcOutcomeUnknown
          else
            (case jn_state j of
               RolledBack \<Rightarrow> give RcOutcomeUnknown
             | Finalized \<Rightarrow>
                 dbind (read_optional (jn_tombstone_path j)) (\<lambda>tombstone.
                   give (if tombstone = None then RcAlreadyApplied else RcOutcomeUnknown))
             | _ \<Rightarrow>
                 dbind (read_optional (jn_tombstone_path j)) (\<lambda>tombstone.
                   give (if is_some_and tombstone (\<lambda>f. content_digest sha256 (df_bytes f) = jn_base_digest j)
                         then RcAlreadyApplied else RcOutcomeUnknown))))))"

definition reconcile_bound ::
  "(byte list \<Rightarrow> byte list) \<Rightarrow> resolved_target \<Rightarrow> file_change_plan \<Rightarrow> delete_journal option \<Rightarrow> reconciliation disk" where
  "reconcile_bound sha256 target plan journal =
     dbind (read_optional (rt_absolute_path target)) (\<lambda>current.
       case (fp_operation plan, current) of
         (Create, None) \<Rightarrow> give RcDefinitelyNotExecuted
       | (Create, Some f) \<Rightarrow>
           give (if state_matches sha256 (fp_target plan) (df_bytes f) then RcAlreadyApplied else RcOutcomeUnknown)
       | (Update, Some f) \<Rightarrow>
           give (if state_matches sha256 (fp_base plan) (df_bytes f) then RcDefinitelyNotExecuted
                 else if state_matches sha256 (fp_target plan) (df_bytes f) then RcAlreadyApplied else RcOutcomeUnknown)
       | (Update, None) \<Rightarrow> give RcOutcomeUnknown
       | (Delete, Some f) \<Rightarrow>
           give (if state_matches sha256 (fp_base plan) (df_bytes f) then RcDefinitelyNotExecuted else RcOutcomeUnknown)
       | (Delete, None) \<Rightarrow> reconcile_deleted sha256 target plan journal)"

definition reconcile ::
  "(byte list \<Rightarrow> byte list) \<Rightarrow> resolved_target \<Rightarrow> file_change_plan \<Rightarrow> delete_journal option \<Rightarrow> reconciliation disk" where
  "reconcile sha256 target plan journal = dbind revalidate (\<lambda>_. reconcile_bound sha256 target plan journal)"

section \<open>Checks before a commit\<close>

definition validate_transaction_and_plan ::
  "plan_env \<Rightarrow> rstring \<Rightarrow> resolved_target \<Rightarrow> file_change_plan \<Rightarrow> validation" where
  "validate_transaction_and_plan env transaction_id target plan =
     first_error
       [plan_validate env plan,
        require (\<not> blank transaction_id \<and> fp_file_path plan = rt_display_path target) InvalidArguments,
        require (operation_states_match (fp_operation plan) (fp_base plan) (fp_target plan)) IllegalFieldCombination,
        require (valid_digest (fp_proposal_digest plan) \<and> valid_digest (fp_diff_digest plan)) InvalidArguments]"

definition validate_delete_journal ::
  "(byte list \<Rightarrow> byte list) \<Rightarrow> rstring \<Rightarrow> resolved_target \<Rightarrow> file_change_plan \<Rightarrow> delete_journal \<Rightarrow> validation" where
  "validate_delete_journal sha256 transaction_id target plan j =
     first_error
       [journal_validate sha256 j,
        require (jn_transaction_id j = transaction_id \<and> jn_target_path j = rt_absolute_path target
            \<and> jn_proposal_digest j = fp_proposal_digest plan
            \<and> Some (jn_base_digest j) = state_digest (fp_base plan)) IllegalFieldCombination]"

definition validate_delete_target :: "resolved_target \<Rightarrow> delete_journal \<Rightarrow> validation" where
  "validate_delete_target target j = require (jn_target_path j = rt_absolute_path target) IllegalFieldCombination"

definition required_target_content :: "file_change_plan \<Rightarrow> file_change_error_code + rstring" where
  "required_target_content plan =
     (case fp_target_content plan of Some content \<Rightarrow> Inr content | None \<Rightarrow> Inl IllegalFieldCombination)"

definition required_digest :: "file_change_content_state \<Rightarrow> file_change_error_code + rstring" where
  "required_digest state = (case state_digest state of Some digest \<Rightarrow> Inr digest | None \<Rightarrow> Inl IllegalFieldCombination)"

definition applied_commit ::
  "rstring \<Rightarrow> resolved_target \<Rightarrow> file_change_plan \<Rightarrow> nat \<Rightarrow> file_change_status \<Rightarrow> delete_journal option \<Rightarrow> file_change_commit" where
  "applied_commit transaction_id target plan committed_at status journal =
     \<lparr>fc_status = status,
      fc_receipt =
        \<lparr>rc_schema_version = FILE_CHANGE_SCHEMA_VERSION, rc_transaction_id = transaction_id,
         rc_operation = fp_operation plan, rc_file_path = rt_display_path target, rc_outcome = OutcomeApplied,
         rc_base = fp_base plan, rc_target = fp_target plan, rc_proposal_digest = fp_proposal_digest plan,
         rc_committed_at = committed_at\<rparr>,
      fc_delete_journal = journal\<rparr>"

section \<open>Create\<close>

definition publish_noreplace :: "staged_file \<Rightarrow> rstring \<Rightarrow> unit disk" where
  "publish_noreplace staged target = map_err (io_error True) (rename_noreplace (sf_name staged) target)"

definition commit_create ::
  "(byte list \<Rightarrow> byte list) \<Rightarrow> staging \<Rightarrow> rstring \<Rightarrow> resolved_target \<Rightarrow> file_change_plan \<Rightarrow> nat \<Rightarrow> file_change_commit disk" where
  "commit_create sha256 staging transaction_id target plan committed_at =
     (let applied = (\<lambda>status. give (applied_commit transaction_id target plan committed_at status None)) in
      dbind revalidate (\<lambda>_.
      dbind (reconcile_bound sha256 target plan None) (\<lambda>reconciliation.
      case reconciliation of
        RcAlreadyApplied \<Rightarrow> dbind sync_after_publication (\<lambda>_. applied StAlreadyApplied)
      | RcOutcomeUnknown \<Rightarrow> fail FileExists
      | RcDefinitelyNotExecuted \<Rightarrow>
          dbind (read_optional (rt_absolute_path target)) (\<lambda>current.
          dbind (check (current = None) FileExists) (\<lambda>_.
          dbind (lift_result (required_target_content plan)) (\<lambda>content.
          dbind (stage staging (utf8_bytes content) None) (\<lambda>staged.
          dbind (guarded staged (dbind revalidate (\<lambda>_. publish_noreplace staged (rt_absolute_path target)))) (\<lambda>_.
          dbind sync_after_publication (\<lambda>_. applied StApplied)))))))))"

section \<open>Update\<close>

definition read_exchanged :: "staged_file \<Rightarrow> dir_file disk" where
  "read_exchanged exchanged =
     dbind (read_optional (sf_name exchanged)) (\<lambda>current.
       case current of None \<Rightarrow> fail ErrOutcomeUnknown | Some f \<Rightarrow> give f)"

definition remove_exchanged :: "staged_file \<Rightarrow> unit disk" where
  "remove_exchanged exchanged = map_err outcome_unknown_io (remove (sf_name exchanged))"

definition rollback_update_exchange ::
  "(byte list \<Rightarrow> byte list) \<Rightarrow> rstring \<Rightarrow> file_change_plan \<Rightarrow> nat \<Rightarrow> staged_file \<Rightarrow> unit disk" where
  "rollback_update_exchange sha256 target plan staged_mode exchanged =
     dbind (map_err outcome_unknown_io (exchange (sf_name exchanged) target)) (\<lambda>_.
     dbind (attempt (read_exchanged exchanged)) (\<lambda>answer.
     case answer of
       Inl _ \<Rightarrow> fail ErrOutcomeUnknown
     | Inr restored_staged \<Rightarrow>
         dbind (map_err outcome_unknown_io plain_call) (\<lambda>_.
         dbind (check (df_inode restored_staged = sf_inode exchanged
             \<and> state_matches sha256 (fp_target plan) (df_bytes restored_staged)
             \<and> df_mode restored_staged = staged_mode) ErrOutcomeUnknown) (\<lambda>_.
         dbind (remove_exchanged exchanged) (\<lambda>_. sync_after_publication)))))"

definition exchange_target ::
  "(byte list \<Rightarrow> byte list) \<Rightarrow> rstring \<Rightarrow> file_change_plan \<Rightarrow> dir_file \<Rightarrow> staged_file \<Rightarrow> dir_file disk" where
  "exchange_target sha256 target plan first_read staged =
     dbind revalidate (\<lambda>_.
     dbind (read_required target) (\<lambda>second_read.
     dbind (ensure_state_matches sha256 (fp_base plan) (df_bytes second_read)) (\<lambda>_.
     dbind (check (df_mode first_read = df_mode second_read) ErrConflict) (\<lambda>_.
     dbind revalidate (\<lambda>_.
     dbind (map_err (io_error False) (exchange (sf_name staged) target)) (\<lambda>_. give second_read))))))"

definition displaced_validation ::
  "(byte list \<Rightarrow> byte list) \<Rightarrow> file_change_plan \<Rightarrow> dir_file \<Rightarrow> staged_file \<Rightarrow> unit disk" where
  "displaced_validation sha256 plan second_read exchanged =
     dbind (read_exchanged exchanged) (\<lambda>displaced.
     dbind (check (df_inode second_read = df_inode displaced) RevisionConflict) (\<lambda>_.
     dbind (ensure_state_matches sha256 (fp_base plan) (df_bytes displaced)) (\<lambda>_.
     check (df_mode second_read = df_mode displaced) ErrConflict)))"

definition commit_update ::
  "(byte list \<Rightarrow> byte list) \<Rightarrow> staging \<Rightarrow> rstring \<Rightarrow> resolved_target \<Rightarrow> file_change_plan \<Rightarrow> nat \<Rightarrow> file_change_commit disk" where
  "commit_update sha256 staging transaction_id target plan committed_at =
     (let applied = (\<lambda>status. give (applied_commit transaction_id target plan committed_at status None));
          path = rt_absolute_path target in
      dbind revalidate (\<lambda>_.
      dbind (reconcile_bound sha256 target plan None) (\<lambda>reconciliation.
      case reconciliation of
        RcAlreadyApplied \<Rightarrow> dbind sync_after_publication (\<lambda>_. applied StAlreadyApplied)
      | RcOutcomeUnknown \<Rightarrow> fail RevisionConflict
      | RcDefinitelyNotExecuted \<Rightarrow>
          dbind (read_required path) (\<lambda>first_read.
          dbind (ensure_state_matches sha256 (fp_base plan) (df_bytes first_read)) (\<lambda>_.
          dbind (lift_result (required_target_content plan)) (\<lambda>content.
          dbind (stage staging (utf8_bytes content) (Some (df_mode first_read))) (\<lambda>staged.
          dbind (guarded staged (exchange_target sha256 path plan first_read staged)) (\<lambda>second_read.
          dbind (attempt (displaced_validation sha256 plan second_read staged)) (\<lambda>validation.
          case validation of
            Inl validation_error \<Rightarrow>
              dbind (rollback_update_exchange sha256 path plan (df_mode second_read) staged) (\<lambda>_. fail validation_error)
          | Inr _ \<Rightarrow>
              dbind (remove_exchanged staged) (\<lambda>_.
              dbind sync_after_publication (\<lambda>_. applied StApplied)))))))))))"

section \<open>Delete\<close>

definition prepare_delete ::
  "plan_env \<Rightarrow> rstring \<Rightarrow> resolved_target \<Rightarrow> file_change_plan \<Rightarrow> nat \<Rightarrow> delete_journal disk" where
  "prepare_delete env transaction_id target plan now =
     dbind (lift_result (validate_transaction_and_plan env transaction_id target plan)) (\<lambda>_.
     dbind (check (fp_operation plan = Delete) IllegalFieldCombination) (\<lambda>_.
     dbind revalidate (\<lambda>_.
     dbind (lift_result (required_digest (fp_base plan))) (\<lambda>base_digest.
     let journal_id = delete_journal_id (delete_journal_suffix (pe_sha256 env) transaction_id
           (rt_absolute_path target) base_digest (fp_proposal_digest plan));
         tombstone = path_join (rt_parent target) (tombstone_name journal_id) in
     dbind (read_optional tombstone) (\<lambda>existing.
     dbind (check (existing = None) ErrConflict) (\<lambda>_.
     let journal =
           \<lparr>jn_schema_version = FILE_CHANGE_SCHEMA_VERSION,
            jn_journal_id = journal_id,
            jn_transaction_id = transaction_id, jn_target_path = rt_absolute_path target,
            jn_tombstone_path = tombstone, jn_base_digest = base_digest,
            jn_proposal_digest = fp_proposal_digest plan, jn_state = Prepared, jn_created_at = now,
            jn_updated_at = now\<rparr> in
     dbind (lift_result (journal_validate (pe_sha256 env) journal)) (\<lambda>_. give journal)))))))"

definition move_to_tombstone ::
  "(byte list \<Rightarrow> byte list) \<Rightarrow> rstring \<Rightarrow> file_change_plan \<Rightarrow> delete_journal \<Rightarrow> unit disk" where
  "move_to_tombstone sha256 path plan j =
     dbind revalidate (\<lambda>_.
     dbind (read_required path) (\<lambda>current.
     dbind (ensure_state_matches sha256 (fp_base plan) (df_bytes current)) (\<lambda>_.
     dbind revalidate (\<lambda>_.
     dbind (map_err rename_conflict_error (rename_noreplace path (jn_tombstone_path j))) (\<lambda>_.
     dbind (attempt (ensure_path_digest sha256 (jn_tombstone_path j) (jn_base_digest j))) (\<lambda>answer.
     case answer of
       Inl _ \<Rightarrow>
         dbind (rename_noreplace (jn_tombstone_path j) path) (\<lambda>restored.
         dbind plain_call (\<lambda>_.
         fail (case restored of Inr _ \<Rightarrow> ErrConflict | Inl _ \<Rightarrow> ErrOutcomeUnknown)))
     | Inr _ \<Rightarrow> sync_after_publication))))))"

definition commit_delete ::
  "(byte list \<Rightarrow> byte list) \<Rightarrow> rstring \<Rightarrow> resolved_target \<Rightarrow> file_change_plan \<Rightarrow> nat \<Rightarrow> delete_journal
   \<Rightarrow> (file_change_commit \<times> delete_journal) disk" where
  "commit_delete sha256 transaction_id target plan committed_at j =
     (let applied = (\<lambda>status j. give (applied_commit transaction_id target plan committed_at status (Some j), j));
          tombstoned = j\<lparr>jn_state := Tombstoned, jn_updated_at := committed_at\<rparr>;
          path = rt_absolute_path target in
      dbind (lift_result (validate_delete_journal sha256 transaction_id target plan j)) (\<lambda>_.
      dbind revalidate (\<lambda>_.
      case jn_state j of
        RolledBack \<Rightarrow> fail ErrConflict
      | Prepared \<Rightarrow>
          dbind (reconcile_bound sha256 target plan (Some j)) (\<lambda>reconciliation.
          case reconciliation of
            RcAlreadyApplied \<Rightarrow> applied StAlreadyApplied tombstoned
          | RcOutcomeUnknown \<Rightarrow>
              dbind (read_optional path) (\<lambda>current. fail (if current \<noteq> None then RevisionConflict else ErrOutcomeUnknown))
          | RcDefinitelyNotExecuted \<Rightarrow>
              dbind (move_to_tombstone sha256 path plan j) (\<lambda>_. applied StApplied tombstoned))
      | _ \<Rightarrow>
          dbind (reconcile_bound sha256 target plan (Some j)) (\<lambda>reconciliation.
          dbind (check (reconciliation = RcAlreadyApplied) ErrOutcomeUnknown) (\<lambda>_. applied StAlreadyApplied j)))))"

definition finalize_delete ::
  "(byte list \<Rightarrow> byte list) \<Rightarrow> resolved_target \<Rightarrow> delete_journal \<Rightarrow> nat \<Rightarrow> delete_journal disk" where
  "finalize_delete sha256 target j now =
     (let finalized = j\<lparr>jn_state := Finalized, jn_updated_at := now\<rparr> in
      dbind (lift_result (journal_validate sha256 j)) (\<lambda>_.
      dbind (lift_result (validate_delete_target target j)) (\<lambda>_.
      if jn_state j = Finalized then give j
      else
        dbind (check (jn_state j = Tombstoned) IllegalFieldCombination) (\<lambda>_.
        dbind revalidate (\<lambda>_.
        dbind (read_optional (jn_tombstone_path j)) (\<lambda>tombstone.
        if tombstone = None then dbind sync_after_publication (\<lambda>_. give finalized)
        else
          dbind (ensure_path_digest sha256 (jn_tombstone_path j) (jn_base_digest j)) (\<lambda>_.
          dbind revalidate (\<lambda>_.
          dbind (map_err (io_error False) (remove (jn_tombstone_path j))) (\<lambda>_.
          dbind sync_after_publication (\<lambda>_. give finalized))))))))))"

definition rollback_delete ::
  "(byte list \<Rightarrow> byte list) \<Rightarrow> resolved_target \<Rightarrow> delete_journal \<Rightarrow> nat \<Rightarrow> delete_journal disk" where
  "rollback_delete sha256 target j now =
     (let rolled_back = j\<lparr>jn_state := RolledBack, jn_updated_at := now\<rparr> in
      dbind (lift_result (journal_validate sha256 j)) (\<lambda>_.
      dbind (lift_result (validate_delete_target target j)) (\<lambda>_.
      if jn_state j = RolledBack then give j
      else
        dbind (check (jn_state j = Tombstoned) IllegalFieldCombination) (\<lambda>_.
        dbind revalidate (\<lambda>_.
        dbind (read_optional (rt_absolute_path target)) (\<lambda>current.
        case current of
          Some f \<Rightarrow>
            if state_digest_matches sha256 (jn_base_digest j) (df_bytes f)
            then dbind (read_optional (jn_tombstone_path j)) (\<lambda>tombstone.
                   if tombstone = None then give rolled_back else fail ErrConflict)
            else fail ErrConflict
        | None \<Rightarrow>
            dbind (ensure_path_digest sha256 (jn_tombstone_path j) (jn_base_digest j)) (\<lambda>_.
            dbind revalidate (\<lambda>_.
            dbind (map_err rename_conflict_error (rename_noreplace (jn_tombstone_path j) (rt_absolute_path target))) (\<lambda>_.
            dbind sync_after_publication (\<lambda>_. give rolled_back))))))))))"

section \<open>Commit\<close>

definition commit ::
  "plan_env \<Rightarrow> staging \<Rightarrow> rstring \<Rightarrow> resolved_target \<Rightarrow> file_change_plan \<Rightarrow> nat \<Rightarrow> delete_journal option
   \<Rightarrow> (file_change_commit \<times> delete_journal option) disk" where
  "commit env staging transaction_id target plan committed_at journal =
     (let sha256 = pe_sha256 env in
      dbind (lift_result (validate_transaction_and_plan env transaction_id target plan)) (\<lambda>_.
      case (fp_operation plan, journal) of
        (Create, None) \<Rightarrow> dbind (commit_create sha256 staging transaction_id target plan committed_at) (\<lambda>c. give (c, None))
      | (Update, None) \<Rightarrow> dbind (commit_update sha256 staging transaction_id target plan committed_at) (\<lambda>c. give (c, None))
      | (Delete, Some j) \<Rightarrow>
          dbind (commit_delete sha256 transaction_id target plan committed_at j) (\<lambda>(c, j). give (c, Some j))
      | _ \<Rightarrow> fail IllegalFieldCombination))"

definition reconcile_attempted_outcome_unknown ::
  "plan_env \<Rightarrow> staging \<Rightarrow> rstring \<Rightarrow> resolved_target \<Rightarrow> file_change_plan \<Rightarrow> nat \<Rightarrow> delete_journal option
   \<Rightarrow> file_change_error_code \<Rightarrow> (file_change_commit \<times> delete_journal option) disk" where
  "reconcile_attempted_outcome_unknown env staging transaction_id target plan committed_at journal original_error =
     dbind (attempt (reconcile (pe_sha256 env) target plan journal)) (\<lambda>answer.
     case answer of
       Inl _ \<Rightarrow> fail ErrOutcomeUnknown
     | Inr RcAlreadyApplied \<Rightarrow>
         dbind (attempt (commit env staging transaction_id target plan committed_at journal)) (\<lambda>answer.
         case answer of Inl _ \<Rightarrow> fail ErrOutcomeUnknown | Inr c \<Rightarrow> give c)
     | Inr RcDefinitelyNotExecuted \<Rightarrow> fail ErrFailed
     | Inr RcOutcomeUnknown \<Rightarrow> fail original_error)"

definition commit_fresh ::
  "plan_env \<Rightarrow> staging \<Rightarrow> staging \<Rightarrow> rstring \<Rightarrow> resolved_target \<Rightarrow> file_change_plan \<Rightarrow> nat \<Rightarrow> delete_journal option
   \<Rightarrow> (file_change_commit \<times> delete_journal option) disk" where
  "commit_fresh env staging again transaction_id target plan committed_at journal =
     dbind (lift_result (validate_transaction_and_plan env transaction_id target plan)) (\<lambda>_.
     dbind (reconcile (pe_sha256 env) target plan journal) (\<lambda>reconciliation.
     dbind (check (reconciliation = RcDefinitelyNotExecuted) (fresh_conflict_code (fp_operation plan))) (\<lambda>_.
     dbind (attempt (commit env staging transaction_id target plan committed_at journal)) (\<lambda>first_attempt.
     case first_attempt of
       Inr (c, j) \<Rightarrow>
         if fc_status c = StAlreadyApplied then fail (fresh_conflict_code (fp_operation plan)) else give (c, j)
     | Inl code \<Rightarrow>
         if code = ErrOutcomeUnknown
         then reconcile_attempted_outcome_unknown env again transaction_id target plan committed_at journal code
         else fail code))))"

end
