(* ===== verification/File_Change_Wp.thy ===== *)
theory File_Change_Wp
  imports File_Change_Commit
begin

section \<open>Reasoning about runs\<close>

text \<open>
  \<open>ok\<close> says which turns are considered. \<open>wp m Q d rm\<close>: started in the directory \<open>d\<close>, every such run of \<open>m\<close> ends
  with an answer, a directory and a list of removed files that satisfy \<open>Q\<close>.
\<close>

definition wp ::
  "(turn \<Rightarrow> bool) \<Rightarrow> 'a disk \<Rightarrow> ('a answer \<Rightarrow> directory \<Rightarrow> dir_file list \<Rightarrow> bool) \<Rightarrow> directory \<Rightarrow> dir_file list \<Rightarrow> bool" where
  "wp ok m Q d rm \<longleftrightarrow>
     (\<forall>w. fw_dir w = d \<and> fw_removed w = rm \<and> list_all ok (fw_turns w) \<longrightarrow>
        (case m w of (r, w') \<Rightarrow> list_all ok (fw_turns w') \<and> Q r (fw_dir w') (fw_removed w')))"

lemma wp_run:
  "wp ok m Q (fw_dir w) (fw_removed w) \<Longrightarrow> list_all ok (fw_turns w) \<Longrightarrow> m w = (r, w') \<Longrightarrow> Q r (fw_dir w') (fw_removed w')"
  by (auto simp: wp_def)

lemma wp_mono:
  "wp ok m Q d rm \<Longrightarrow> (\<And>r d rm. Q r d rm \<Longrightarrow> R r d rm) \<Longrightarrow> wp ok m R d rm"
  by (fastforce simp: wp_def)

lemma wp_bind:
  "wp ok m (\<lambda>r d rm. case r of Killed \<Rightarrow> Q Killed d rm | Failure c \<Rightarrow> Q (Failure c) d rm | Success x \<Rightarrow> wp ok (f x) Q d rm) d rm
   \<Longrightarrow> wp ok (dbind m f) Q d rm"
  unfolding wp_def [of ok "dbind m f"] wp_def [of ok m]
proof (intro allI impI)
  fix w :: disk_world
  assume m: "\<forall>w. fw_dir w = d \<and> fw_removed w = rm \<and> list_all ok (fw_turns w) \<longrightarrow>
    (case m w of (r, w') \<Rightarrow> list_all ok (fw_turns w')
      \<and> (case r of Killed \<Rightarrow> Q Killed (fw_dir w') (fw_removed w') | Failure c \<Rightarrow> Q (Failure c) (fw_dir w') (fw_removed w')
         | Success x \<Rightarrow> wp ok (f x) Q (fw_dir w') (fw_removed w')))"
    and w: "fw_dir w = d \<and> fw_removed w = rm \<and> list_all ok (fw_turns w)"
  obtain r w' where run: "m w = (r, w')" by (cases "m w")
  show "case dbind m f w of (r, w') \<Rightarrow> list_all ok (fw_turns w') \<and> Q r (fw_dir w') (fw_removed w')"
    using m [rule_format, OF w] run by (cases r) (auto simp: dbind_def wp_def)
qed

lemma wp_give: "Q (Success x) d rm \<Longrightarrow> wp ok (give x) Q d rm"
  by (simp add: wp_def give_def)

lemma wp_fail: "Q (Failure c) d rm \<Longrightarrow> wp ok (fail c) Q d rm"
  by (simp add: wp_def fail_def)

lemma wp_check: "(b \<Longrightarrow> Q (Success ()) d rm) \<Longrightarrow> (\<not> b \<Longrightarrow> Q (Failure c) d rm) \<Longrightarrow> wp ok (check b c) Q d rm"
  by (simp add: check_def wp_give wp_fail)

lemma wp_lift:
  "(\<And>x. v = Inr x \<Longrightarrow> Q (Success x) d rm) \<Longrightarrow> (\<And>c. v = Inl c \<Longrightarrow> Q (Failure c) d rm) \<Longrightarrow> wp ok (lift_result v) Q d rm"
  by (cases v) (simp_all add: lift_result_def wp_give wp_fail)

lemma wp_attempt:
  "wp ok m (\<lambda>r d rm. case r of Killed \<Rightarrow> Q Killed d rm | Failure c \<Rightarrow> Q (Success (Inl c)) d rm | Success x \<Rightarrow> Q (Success (Inr x)) d rm) d rm
   \<Longrightarrow> wp ok (attempt m) Q d rm"
  unfolding wp_def
proof (intro allI impI)
  fix w :: disk_world
  assume m: "\<forall>w. fw_dir w = d \<and> fw_removed w = rm \<and> list_all ok (fw_turns w) \<longrightarrow>
    (case m w of (r, w') \<Rightarrow> list_all ok (fw_turns w')
      \<and> (case r of Killed \<Rightarrow> Q Killed (fw_dir w') (fw_removed w') | Failure c \<Rightarrow> Q (Success (Inl c)) (fw_dir w') (fw_removed w')
         | Success x \<Rightarrow> Q (Success (Inr x)) (fw_dir w') (fw_removed w')))"
    and w: "fw_dir w = d \<and> fw_removed w = rm \<and> list_all ok (fw_turns w)"
  obtain r w' where run: "m w = (r, w')" by (cases "m w")
  show "case attempt m w of (r, w') \<Rightarrow> list_all ok (fw_turns w') \<and> Q r (fw_dir w') (fw_removed w')"
    using m [rule_format, OF w] run by (cases r) (auto simp: attempt_def)
qed

lemma wp_map_err:
  "wp ok m (\<lambda>r d rm. case r of Killed \<Rightarrow> Q Killed d rm | Failure c \<Rightarrow> Q (Failure c) d rm
      | Success (Inl k) \<Rightarrow> Q (Failure (f k)) d rm | Success (Inr x) \<Rightarrow> Q (Success x) d rm) d rm
   \<Longrightarrow> wp ok (map_err f m) Q d rm"
  unfolding map_err_def
  by (rule wp_bind, erule wp_mono) (auto simp: wp_give wp_fail split: answer.splits sum.splits)

lemma wp_if: "(b \<Longrightarrow> wp ok m Q d rm) \<Longrightarrow> (\<not> b \<Longrightarrow> wp ok n Q d rm) \<Longrightarrow> wp ok (if b then m else n) Q d rm"
  by simp

lemma wp_case_option:
  "(x = None \<Longrightarrow> wp ok m Q d rm) \<Longrightarrow> (\<And>y. x = Some y \<Longrightarrow> wp ok (f y) Q d rm)
   \<Longrightarrow> wp ok (case x of None \<Rightarrow> m | Some y \<Rightarrow> f y) Q d rm"
  by (cases x) simp_all

lemma wp_case_sum:
  "(\<And>y. x = Inl y \<Longrightarrow> wp ok (f y) Q d rm) \<Longrightarrow> (\<And>y. x = Inr y \<Longrightarrow> wp ok (g y) Q d rm)
   \<Longrightarrow> wp ok (case x of Inl y \<Rightarrow> f y | Inr y \<Rightarrow> g y) Q d rm"
  by (cases x) simp_all

lemmas wp_control = wp_bind wp_give wp_fail wp_check wp_lift wp_attempt wp_map_err wp_if wp_case_option wp_case_sum

text \<open>
  \<open>moves d d'\<close>: the other programs may turn the directory \<open>d\<close> into \<open>d'\<close> before a call. The rules give the weakest
  precondition of each call under such turns.
\<close>

locale disk_turns =
  fixes ok :: "turn \<Rightarrow> bool" and moves :: "directory \<Rightarrow> directory \<Rightarrow> bool"
  assumes ok_quiet: "ok quiet" and ok_moves: "ok t \<Longrightarrow> moves d (tn_others t d)"
begin

lemma wp_call:
  assumes "\<And>d'. moves d d' \<Longrightarrow> Q Killed d' rm" and "\<And>t d'. moves d d' \<Longrightarrow> wp ok (body t) Q d' rm"
  shows "wp ok (call body) Q d rm"
  unfolding wp_def
proof (intro allI impI)
  fix w :: disk_world assume w: "fw_dir w = d \<and> fw_removed w = rm \<and> list_all ok (fw_turns w)"
  obtain t rest where turn: "(t, rest) = (case fw_turns w of [] \<Rightarrow> (quiet, []) | t # rest \<Rightarrow> (t, rest))" by (metis surj_pair)
  with w ok_quiet have t: "ok t" "list_all ok rest" by (auto split: list.splits)
  note moved = ok_moves [OF t(1), of d]
  let ?w = "w\<lparr>fw_dir := tn_others t (fw_dir w), fw_turns := rest\<rparr>"
  have "call body w = (if tn_killed t then (Killed, ?w) else body t ?w)"
    unfolding call_def turn [symmetric] by simp
  moreover have "case body t ?w of (r, w') \<Rightarrow> list_all ok (fw_turns w') \<and> Q r (fw_dir w') (fw_removed w')"
    using assms(2) [OF moved, of t] w t(2) unfolding wp_def by simp
  ultimately show "case call body w of (r, w') \<Rightarrow> list_all ok (fw_turns w') \<and> Q r (fw_dir w') (fw_removed w')"
    using assms(1) [OF moved] w t(2) by simp
qed

lemma wp_or_error:
  "(\<And>c. Q (Failure c) d rm) \<Longrightarrow> wp ok m Q d rm \<Longrightarrow> wp ok (or_error t m) Q d rm"
  by (auto simp: or_error_def wp_fail split: option.split)

lemma wp_or_io:
  "(\<And>k. Q (Success (Inl k)) d rm) \<Longrightarrow> wp ok m Q d rm \<Longrightarrow> wp ok (or_io t m) Q d rm"
  by (auto simp: or_io_def wp_give split: option.split)

lemma wp_revalidate:
  assumes "\<And>d'. moves d d' \<Longrightarrow> Q Killed d' rm" and "\<And>d' c. moves d d' \<Longrightarrow> Q (Failure c) d' rm"
    and "\<And>d'. moves d d' \<Longrightarrow> Q (Success ()) d' rm"
  shows "wp ok revalidate Q d rm"
  unfolding revalidate_def using assms by (intro wp_call wp_or_error wp_give) auto

lemma wp_read_optional:
  assumes "\<And>d'. moves d d' \<Longrightarrow> Q Killed d' rm" and "\<And>d' c. moves d d' \<Longrightarrow> Q (Failure c) d' rm"
    and "\<And>d'. moves d d' \<Longrightarrow> Q (Success (d' path)) d' rm"
  shows "wp ok (read_optional path) Q d rm"
  unfolding read_optional_def using assms
  by (intro wp_call wp_or_error) (auto simp: wp_def give_def)

lemma wp_plain_call:
  assumes "\<And>d'. moves d d' \<Longrightarrow> Q Killed d' rm" and "\<And>d' k. moves d d' \<Longrightarrow> Q (Success (Inl k)) d' rm"
    and "\<And>d'. moves d d' \<Longrightarrow> Q (Success (Inr ())) d' rm"
  shows "wp ok plain_call Q d rm"
  unfolding plain_call_def using assms by (intro wp_call wp_or_io wp_give) auto

lemma wp_rename_noreplace:
  assumes "\<And>d'. moves d d' \<Longrightarrow> Q Killed d' rm" and "\<And>d' k. moves d d' \<Longrightarrow> Q (Success (Inl k)) d' rm"
    and "\<And>d' f. moves d d' \<Longrightarrow> d' source = Some f \<Longrightarrow> d' target = None \<Longrightarrow>
      Q (Success (Inr ())) (d'(source := None, target \<mapsto> f)) rm"
  shows "wp ok (rename_noreplace source target) Q d rm"
  unfolding rename_noreplace_def using assms
  by (intro wp_call wp_or_io) (auto simp: wp_def give_def set_dir_def split: option.split)

lemma wp_exchange:
  assumes "\<And>d'. moves d d' \<Longrightarrow> Q Killed d' rm" and "\<And>d' k. moves d d' \<Longrightarrow> Q (Success (Inl k)) d' rm"
    and "\<And>d' f g. moves d d' \<Longrightarrow> d' source = Some f \<Longrightarrow> d' target = Some g \<Longrightarrow>
      Q (Success (Inr ())) (d'(source \<mapsto> g, target \<mapsto> f)) rm"
  shows "wp ok (exchange source target) Q d rm"
  unfolding exchange_def using assms
  by (intro wp_call wp_or_io) (auto simp: wp_def give_def set_dir_def split: option.split)

lemma wp_remove:
  assumes "\<And>d'. moves d d' \<Longrightarrow> Q Killed d' rm" and "\<And>d' k. moves d d' \<Longrightarrow> Q (Success (Inl k)) d' rm"
    and "\<And>d' f. moves d d' \<Longrightarrow> d' path = Some f \<Longrightarrow> Q (Success (Inr ())) (d'(path := None)) (rm @ [f])"
  shows "wp ok (remove path) Q d rm"
  unfolding remove_def using assms
  by (intro wp_call wp_or_io) (auto simp: wp_def give_def split: option.split)

lemma wp_create_private:
  assumes "\<And>d'. moves d d' \<Longrightarrow> Q Killed d' rm" and "\<And>d' k. moves d d' \<Longrightarrow> Q (Success (Inl k)) d' rm"
    and "\<And>d'. moves d d' \<Longrightarrow> d' name = None \<Longrightarrow>
      Q (Success (Inr ())) (d'(name \<mapsto> \<lparr>df_inode = inode, df_bytes = [], df_mode = 384\<rparr>)) rm"
  shows "wp ok (create_private name inode) Q d rm"
  unfolding create_private_def using assms
  by (intro wp_call wp_or_io) (auto simp: wp_def give_def set_dir_def split: if_split)

lemma wp_write_inode:
  assumes "\<And>d'. moves d d' \<Longrightarrow> Q Killed d' rm" and "\<And>d' k. moves d d' \<Longrightarrow> Q (Success (Inl k)) d' rm"
    and "\<And>d'. moves d d' \<Longrightarrow> Q (Success (Inr ())) (change_inode inode f d') rm"
  shows "wp ok (write_inode inode f) Q d rm"
  unfolding write_inode_def using assms
  by (intro wp_call wp_or_io) (auto simp: wp_def give_def set_dir_def)

lemma wp_read_required:
  assumes "\<And>d'. moves d d' \<Longrightarrow> Q Killed d' rm" and "\<And>d' c. moves d d' \<Longrightarrow> Q (Failure c) d' rm"
    and "\<And>d' f. moves d d' \<Longrightarrow> d' path = Some f \<Longrightarrow> Q (Success f) d' rm"
  shows "wp ok (read_required path) Q d rm"
  unfolding read_required_def
  by (rule wp_bind, rule wp_read_optional) (use assms in \<open>auto intro!: wp_give wp_fail split: option.split\<close>)

lemma wp_sync:
  assumes "\<And>d'. moves d d' \<Longrightarrow> Q Killed d' rm" and "\<And>d'. moves d d' \<Longrightarrow> Q (Failure ErrOutcomeUnknown) d' rm"
    and "\<And>d'. moves d d' \<Longrightarrow> Q (Success ()) d' rm"
  shows "wp ok sync_after_publication Q d rm"
  unfolding sync_after_publication_def
  by (rule wp_bind, rule wp_plain_call) (use assms in \<open>auto intro!: wp_give wp_fail split: sum.split\<close>)

lemmas wp_calls =
  wp_revalidate wp_read_optional wp_read_required wp_plain_call wp_sync wp_rename_noreplace wp_exchange wp_remove
  wp_create_private wp_write_inode

end

end
