(* ===== verification/File_Change_Binding.thy ===== *)
theory File_Change_Binding
  imports File_Change_Model
begin

text \<open>
  The life of an execution binding: what a step keeps, how often it can advance, and that the approved
  plan can be rebuilt from it at every stage.
\<close>

section \<open>Validations\<close>

definition binding_header :: "direct_binding \<Rightarrow> bool" where
  "binding_header b \<longleftrightarrow>
     bd_schema_version b = FILE_CHANGE_DIRECT_BINDING_SCHEMA_VERSION
     \<and> \<not> blank (bd_observation_id b) \<and> bd_source_tool_name b = S ''apply_patch''
     \<and> \<not> blank (bd_source_call_id b) \<and> valid_digest (bd_source_args_digest b)
     \<and> valid_digest (bd_trace_args_digest b) \<and> \<not> blank (bd_conversation_id b)
     \<and> \<not> is_some_and (bd_project_id b) blank \<and> \<not> blank (bd_run_id b)
     \<and> \<not> blank (bd_permission_revision b) \<and> \<not> blank (bd_tool_set_revision b)
     \<and> \<not> blank (bd_provider_wire_revision b) \<and> path_is_absolute (bd_canonical_target b)"

lemma binding_validate_iff:
  "binding_validate sha256 now b = Inr () \<longleftrightarrow>
     binding_header b \<and> transaction_validate (bd_transaction b) = Inr () \<and> proposal_validate (bd_proposal b) = Inr ()
     \<and> validate_frozen_binding now (bd_observation b) (bd_conversation_id b) (bd_run_id b) (bd_canonical_target b) = Inr ()
     \<and> binding_parts_agree sha256 b \<and> (binding_prepared b \<or> binding_committed b)"
  unfolding binding_validate_def binding_header_def first_error_iff by simp

text \<open>A binding that is valid now stays valid: a clock that runs on never invalidates it.\<close>

lemma frozen_binding_later:
  "validate_frozen_binding now o1 c r t = Inr () \<Longrightarrow> now \<le> now' \<Longrightarrow> validate_frozen_binding now' o1 c r t = Inr ()"
  unfolding validate_frozen_binding_def first_error_iff by auto

lemma binding_validate_later:
  "binding_validate sha256 now b = Inr () \<Longrightarrow> now \<le> now' \<Longrightarrow> binding_validate sha256 now' b = Inr ()"
  unfolding binding_validate_iff using frozen_binding_later by blast

lemma prepared_not_committed: "binding_prepared b \<Longrightarrow> \<not> binding_committed b"
  by (auto simp: binding_prepared_def binding_committed_def Let_def)

lemma is_prepared_iff:
  "is_prepared sha256 now b \<longleftrightarrow> binding_validate sha256 now b = Inr () \<and> binding_prepared b"
  unfolding is_prepared_def binding_validate_iff
  by (auto simp: binding_prepared_def binding_committed_def Let_def)

section \<open>Steps\<close>

text \<open>Everything but the fields a commit or a finalization may change.\<close>

definition frozen :: "direct_binding \<Rightarrow> direct_binding" where
  "frozen b =
     b\<lparr>bd_transaction := (bd_transaction b)
         \<lparr>tx_status := StWaitingApproval, tx_outcome := DefinitelyNotExecuted, tx_updated_at := 0\<rparr>,
       bd_delete_journal := None, bd_receipt := None\<rparr>"

definition binding_rank :: "direct_binding \<Rightarrow> nat" where
  "binding_rank b =
     (if bd_receipt b = None then 0 else if is_some_and (bd_delete_journal b) (\<lambda>j. jn_state j = Finalized) then 2 else 1)"

inductive binding_step :: "(byte list \<Rightarrow> byte list) \<Rightarrow> direct_binding \<Rightarrow> direct_binding \<Rightarrow> bool" for sha256 where
  commit: "with_commit sha256 clock commit b = Inr b' \<Longrightarrow> binding_step sha256 b b'"
| finalize: "with_finalized_delete_journal sha256 clock journal b = Inr b' \<Longrightarrow> binding_step sha256 b b'"

lemma with_commit_cases:
  assumes "with_commit sha256 (now1, now2, now3) commit b = Inr b'"
  shows "binding_prepared b" and "binding_validate sha256 now3 b' = Inr ()"
    and "b' = b\<lparr>bd_transaction := (bd_transaction b)
        \<lparr>tx_status := fc_status commit, tx_outcome := OutcomeApplied, tx_updated_at := rc_committed_at (fc_receipt commit)\<rparr>,
      bd_delete_journal := fc_delete_journal commit, bd_receipt := Some (fc_receipt commit)\<rparr>"
  using assms
  by (auto simp: with_commit_def is_prepared_iff Let_def rbind_eq_Inr_iff split: if_splits)

lemma with_finalized_cases:
  assumes "with_finalized_delete_journal sha256 (now1, now2) journal b = Inr b'"
  shows "binding_validate sha256 now2 b' = Inr ()" and "b' = b\<lparr>bd_delete_journal := Some journal\<rparr>"
    and "tx_operation (bd_transaction b) = Delete" and "bd_receipt b \<noteq> None"
    and "\<exists>current. bd_delete_journal b = Some current \<and> jn_state current = Tombstoned
       \<and> journal = current\<lparr>jn_state := Finalized, jn_updated_at := jn_updated_at journal\<rparr>"
    and "jn_state journal = Finalized"
  using assms
  by (auto simp: with_finalized_delete_journal_def Let_def rbind_eq_Inr_iff split: if_splits option.splits)

lemma step_effect:
  assumes "binding_step sha256 b b'"
  shows "frozen b' = frozen b" and "binding_rank b < binding_rank b'" and "binding_rank b' \<le> 2"
    and "\<exists>now. binding_validate sha256 now b' = Inr ()"
    and "tx_operation (bd_transaction b') \<noteq> Delete \<Longrightarrow> binding_rank b' \<le> 1"
proof -
  show le: "binding_rank b' \<le> 2" by (simp add: binding_rank_def)
  have "frozen b' = frozen b \<and> binding_rank b < binding_rank b' \<and> (\<exists>now. binding_validate sha256 now b' = Inr ())"
    using assms
  proof cases
    case (commit clock c)
    obtain now1 now2 now3 where clock: "clock = (now1, now2, now3)" by (metis prod_cases3)
    from with_commit_cases [OF commit [unfolded clock]] show ?thesis
      by (auto simp: frozen_def binding_rank_def binding_prepared_def)
  next
    case (finalize clock journal)
    obtain now1 now2 where clock: "clock = (now1, now2)" by fastforce
    from with_finalized_cases [OF finalize [unfolded clock]] show ?thesis
      by (auto simp: frozen_def binding_rank_def)
  qed
  then show "frozen b' = frozen b" "binding_rank b < binding_rank b'" and valid: "\<exists>now. binding_validate sha256 now b' = Inr ()"
    by auto
  show "binding_rank b' \<le> 1" if "tx_operation (bd_transaction b') \<noteq> Delete"
  proof -
    from valid have "delete_journal_is_valid sha256 b'" by (auto simp: binding_validate_iff binding_parts_agree_def Let_def)
    with that have "bd_delete_journal b' = None"
      by (auto simp: delete_journal_is_valid_def split: file_change_operation.splits option.splits)
    then show ?thesis by (simp add: binding_rank_def)
  qed
qed

lemma frozen_operation: "frozen b' = frozen b \<Longrightarrow> tx_operation (bd_transaction b') = tx_operation (bd_transaction b)"
  by (drule arg_cong [of _ _ "\<lambda>b. tx_operation (bd_transaction b)"]) (simp add: frozen_def)

lemma plan_of_frozen: "plan_of_binding env (frozen b) = plan_of_binding env b"
  by (simp add: plan_of_binding_def frozen_def Let_def)

lemma steps_effect:
  "(binding_step sha256 ^^ n) b b' \<Longrightarrow> frozen b' = frozen b \<and> binding_rank b + n \<le> binding_rank b'"
proof (induction n arbitrary: b')
  case (Suc n)
  then obtain c where c: "(binding_step sha256 ^^ n) b c" and step: "binding_step sha256 c b'" by auto
  from Suc.IH [OF c] step_effect(1,2) [OF step] show ?case by simp
qed simp

lemma last_step:
  assumes "(binding_step sha256 ^^ n) b b'" and "n \<noteq> 0"
  shows "(\<exists>now. binding_validate sha256 now b' = Inr ()) \<and> binding_rank b' \<le> 2
    \<and> (tx_operation (bd_transaction b) \<noteq> Delete \<longrightarrow> binding_rank b' \<le> 1)"
proof -
  obtain m where "n = Suc m" using assms(2) by (cases n) auto
  with assms(1) obtain c where "binding_step sha256 c b'" by auto
  from step_effect(3-5) [OF this] frozen_operation [of b' b] steps_effect [OF assms(1)] show ?thesis by simp
qed

section \<open>Recording a commit\<close>

text \<open>The journal a commit returns for the journal of the binding.\<close>

definition journal_after_commit :: "nat \<Rightarrow> delete_journal option \<Rightarrow> delete_journal option" where
  "journal_after_commit at journal = map_option (\<lambda>j. j\<lparr>jn_state := Tombstoned, jn_updated_at := at\<rparr>) journal"

definition commit_of_binding :: "direct_binding \<Rightarrow> file_change_commit \<Rightarrow> bool" where
  "commit_of_binding b c \<longleftrightarrow>
     receipt_matches (bd_transaction b) (fc_receipt c) \<and> rc_outcome (fc_receipt c) = OutcomeApplied
     \<and> rc_schema_version (fc_receipt c) = FILE_CHANGE_SCHEMA_VERSION \<and> fc_status c \<in> {StApplied, StAlreadyApplied}
     \<and> fc_delete_journal c = journal_after_commit (rc_committed_at (fc_receipt c)) (bd_delete_journal b)"

text \<open>The commit is not dated before the transaction and its journal were created.\<close>

definition dated_after :: "direct_binding \<Rightarrow> nat \<Rightarrow> bool" where
  "dated_after b at \<longleftrightarrow>
     tx_created_at (bd_transaction b) \<le> at \<and> is_none_or (bd_delete_journal b) (\<lambda>j. jn_created_at j \<le> at)"

lemma transaction_committed:
  assumes "transaction_validate t = Inr ()" and "tx_created_at t \<le> at" and "status \<in> {StApplied, StAlreadyApplied}"
  shows "transaction_validate (t\<lparr>tx_status := status, tx_outcome := OutcomeApplied, tx_updated_at := at\<rparr>) = Inr ()"
  using assms unfolding transaction_validate_def first_error_iff
  by (auto simp: validate_common_def validate_status_outcome_def validate_operation_states_def)

lemma receipt_committed:
  assumes "transaction_validate t = Inr ()" and "receipt_matches t r" and "rc_outcome r = OutcomeApplied"
    and "rc_schema_version r = FILE_CHANGE_SCHEMA_VERSION"
  shows "receipt_validate r = Inr ()"
  using assms unfolding transaction_validate_def receipt_validate_def first_error_iff
  by (auto simp: validate_common_def receipt_matches_def validate_operation_states_def)

lemma journal_committed:
  assumes "journal_validate sha256 j = Inr ()" and "jn_created_at j \<le> at"
  shows "journal_validate sha256 (j\<lparr>jn_state := state, jn_updated_at := at\<rparr>) = Inr ()"
  using assms unfolding journal_validate_def Let_def first_error_iff by (auto; metis)

definition committed_binding :: "file_change_commit \<Rightarrow> direct_binding \<Rightarrow> direct_binding" where
  "committed_binding c b =
     b\<lparr>bd_transaction := (bd_transaction b)
         \<lparr>tx_status := fc_status c, tx_outcome := OutcomeApplied, tx_updated_at := rc_committed_at (fc_receipt c)\<rparr>,
       bd_delete_journal := fc_delete_journal c, bd_receipt := Some (fc_receipt c)\<rparr>"

lemma parts_committed:
  assumes "binding_parts_agree sha256 b" and "commit_of_binding b c" and "dated_after b (rc_committed_at (fc_receipt c))"
  shows "binding_parts_agree sha256 (committed_binding c b)"
proof -
  have "delete_journal_is_valid sha256 (committed_binding c b)"
    using assms journal_committed
    by (auto simp: binding_parts_agree_def delete_journal_is_valid_def committed_binding_def commit_of_binding_def dated_after_def
        journal_after_commit_def Let_def split: file_change_operation.splits option.splits)
  moreover have "observation_matches_base (committed_binding c b) = observation_matches_base b"
    "staged_reference_is_valid (committed_binding c b) = staged_reference_is_valid b"
    by (auto simp: committed_binding_def observation_matches_base_def staged_reference_is_valid_def
        split: file_change_operation.splits observation_state.splits option.splits)
  ultimately show ?thesis
    using assms(1) unfolding binding_parts_agree_def Let_def by (auto simp: committed_binding_def)
qed

lemma committed_is_valid:
  assumes "binding_validate sha256 now b = Inr ()" and "binding_prepared b" and "commit_of_binding b c"
    and "dated_after b (rc_committed_at (fc_receipt c))"
  shows "binding_validate sha256 now (committed_binding c b) = Inr ()"
proof -
  note v = assms(1) [unfolded binding_validate_iff]
  have "binding_committed (committed_binding c b)"
    using assms(3,4) v receipt_committed [of "bd_transaction b" "fc_receipt c"]
    by (auto simp: binding_committed_def committed_binding_def commit_of_binding_def journal_after_commit_def Let_def
        receipt_matches_def is_none_or_def split: option.splits)
  moreover have "transaction_validate (bd_transaction (committed_binding c b)) = Inr ()"
    using transaction_committed [of "bd_transaction b"] v assms(3,4)
    by (simp add: committed_binding_def commit_of_binding_def dated_after_def)
  ultimately show ?thesis
    unfolding binding_validate_iff using v parts_committed [OF _ assms(3,4), of sha256]
    by (simp add: committed_binding_def binding_header_def)
qed

lemma commit_recorded:
  assumes "is_prepared sha256 now b" and "commit_of_binding b c" and "dated_after b (rc_committed_at (fc_receipt c))"
    and "now \<le> now1" and "now \<le> now2" and "now \<le> now3"
  shows "with_commit sha256 (now1, now2, now3) c b = Inr (committed_binding c b)"
proof -
  have b: "binding_validate sha256 now b = Inr ()" "binding_prepared b" using assms(1) by (simp_all add: is_prepared_iff)
  note later = binding_validate_later [OF b(1)]
  have "binding_validate sha256 now3 (committed_binding c b) = Inr ()"
    by (rule committed_is_valid [OF later [OF assms(6)] b(2) assms(2,3)])
  then show ?thesis
    using later [OF assms(4)] later [OF assms(5)] b(2) assms(2)
    by (auto simp: with_commit_def is_prepared_iff commit_of_binding_def Let_def committed_binding_def)
qed

section \<open>Properties\<close>

text \<open>
  C13: a binding advances at most twice, once by the commit and once more only for a
  delete when its tombstone is removed. No step touches the approved material, and after any number of
  steps and restarts the binding is still valid and the plan rebuilt from it is the approved one.
\<close>

theorem binding_lifecycle:
  assumes "from_binding env now b = Inr p" and "(binding_step (pe_sha256 env) ^^ n) b b'"
  shows "n \<le> 2 \<and> (tx_operation (bd_transaction b) \<noteq> Delete \<longrightarrow> n \<le> 1) \<and> frozen b' = frozen b
    \<and> (\<exists>start. \<forall>later \<ge> start. from_binding env later b' = Inr p)"
proof -
  note steps = steps_effect [OF assms(2)] and last = last_step [OF assms(2)]
  have p: "plan_validate env p = Inr ()" "p = plan_of_binding env b" "binding_validate (pe_sha256 env) now b = Inr ()"
    using assms(1) by (auto simp: from_binding_def rbind_eq_Inr_iff)
  have "plan_of_binding env b' = plan_of_binding env (frozen b')" by (rule plan_of_frozen [symmetric])
  also have "\<dots> = p" using steps by (simp add: plan_of_frozen p(2))
  finally have plan: "plan_of_binding env b' = p" .
  obtain start where start: "binding_validate (pe_sha256 env) start b' = Inr ()"
    using last p(3) assms(2) by (cases "n = 0") auto
  have "from_binding env later b' = Inr p" if "start \<le> later" for later
    using binding_validate_later [OF start that] plan p(1) by (simp add: from_binding_def)
  then have rebuilt: "\<exists>start. \<forall>later \<ge> start. from_binding env later b' = Inr p" by blast
  have "n \<le> 2 \<and> (tx_operation (bd_transaction b) \<noteq> Delete \<longrightarrow> n \<le> 1)"
    using last steps by (cases "n = 0") auto
  with steps rebuilt show ?thesis by blast
qed

section \<open>Witnesses\<close>

lemma byte_len_utf8: "byte_len s = length (utf8_bytes s)"
proof -
  have "utf8_len c = length (encode_utf8 c)" for c
  proof (cases c)
    case (Ch x)
    have "of_char x < (256 :: nat)" by (simp add: nat_of_char_less_256)
    then have "of_char x < (2048 :: nat)" "of_char x < (65536 :: nat)" by linarith+
    with Ch show ?thesis by (simp add: encode_utf8_def Let_def code_point_def)
  qed (auto simp: encode_utf8_def Let_def code_point_def)
  then show ?thesis by (induction s) (simp_all add: utf8_bytes_def)
qed

definition zero_env :: plan_env where
  "zero_env = example_env\<lparr>pe_sha256 := (\<lambda>_. replicate 32 0)\<rparr>"

lemma hex_digit_ok: "n < 16 \<Longrightarrow> utf8_len (lower_hex_digit n) = 1 \<and> among (lower_hex_digit n) ''0123456789abcdef''"
proof -
  assume "n < 16"
  then have "''0123456789abcdef'' ! n \<in> set ''0123456789abcdef''" by (intro nth_mem) simp
  then show ?thesis
    unfolding lower_hex_digit_def among_def S_def set_map by auto
qed

lemma hex_ok: "byte_len (lower_hex bs) = 2 * length bs \<and> list_all (\<lambda>c. among c ''0123456789abcdef'') (lower_hex bs)"
proof (induction bs)
  case (Cons b bs)
  have "unat b < 256" using unsigned_less [of b] by simp
  then have "unat b div 16 < 16" "unat b mod 16 < 16" by simp_all
  with Cons hex_digit_ok show ?case by (simp add: lower_hex_def byte_len_def)
qed (simp add: lower_hex_def byte_len_def)

lemma strip_own_prefix: "strip_prefix (p @ s) p = Some s"
  by (induction p) simp_all

lemma digest_valid:
  "length (sha256 (digest_message domain bytes)) = 32 \<Longrightarrow> valid_digest (digest_bytes sha256 domain bytes)"
  by (simp add: valid_digest_def digest_bytes_def strip_own_prefix hex_ok)

lemma zero_digest: "valid_digest (digest_bytes (pe_sha256 zero_env) domain bytes)"
  by (rule digest_valid) (simp add: zero_env_def)

definition hi_planned :: "file_change_plan \<Rightarrow> bool" where
  "hi_planned p \<longleftrightarrow>
     make_plan zero_env (example_request ''a.txt'') = Inr p \<and> plan_validate zero_env p = Inr ()
     \<and> fp_operation p = Create \<and> fp_file_path p = S ''a.txt'' \<and> fp_base p = Missing \<and> fp_base_content p = None
     \<and> fp_target_content p = Some (S ''hi'') \<and> fp_target p = state_for_content zero_env (S ''hi'')
     \<and> valid_digest (fp_proposal_digest p) \<and> valid_digest (fp_diff_digest p)"

lemma zero_plan: "\<exists>p. hi_planned p"
proof -
  have decision: "decide_change zero_env (example_request ''a.txt'') = Inr (Missing, None, Some (S ''hi''))"
    by (simp add: decide_change_def example_request_def validate_base_def target_content_def reject_nul_def has_nul_def
      str_trim_def S_def MAX_PLANNED_CONTENT_BYTES_def is_some_and_def)
  have total: "\<exists>bytes. pe_encode zero_env material = Inr bytes" for material
    by (simp add: zero_env_def example_env_def)
  obtain p where p: "make_plan zero_env (example_request ''a.txt'') = Inr p" "plan_validate zero_env p = Inr ()"
      "fp_operation p = Create" "fp_file_path p = S ''a.txt''" "fp_base_content p = None" "fp_target_content p = Some (S ''hi'')"
    using planned [OF total, of "example_request ''a.txt''"]
    unfolding decision by (auto simp: example_request_def str_trim_def S_def)
  have "valid_digest (fp_proposal_digest p)"
    using plan_validate_cases(4) [OF p(2)] zero_digest
    by (auto simp: proposal_digest_def split: sum.splits dest!: sym [of "digest_bytes _ _ _"])
  moreover have "valid_digest (fp_diff_digest p)"
    using p(2) zero_digest by (auto simp: plan_validate_def diff_digest_def Let_def split: if_splits)
  moreover have "fp_base p = Missing" "fp_target p = state_for_content zero_env (S ''hi'')"
    using plan_validate_cases(1,2) [OF p(2)] p(5,6)
    by (auto simp: content_matches_state_def split: file_change_content_state.splits)
  ultimately show ?thesis using p by (auto simp: hi_planned_def)
qed

definition hi_binding :: "file_change_plan \<Rightarrow> direct_binding" where
  "hi_binding p =
     \<lparr>bd_schema_version = FILE_CHANGE_DIRECT_BINDING_SCHEMA_VERSION,
      bd_transaction =
        \<lparr>tx_schema_version = FILE_CHANGE_SCHEMA_VERSION, tx_id = S ''t'', tx_operation = fp_operation p,
         tx_file_path = fp_file_path p, tx_status = StWaitingApproval, tx_outcome = DefinitelyNotExecuted,
         tx_base = fp_base p, tx_target = fp_target p, tx_proposal_digest = fp_proposal_digest p,
         tx_created_at = 0, tx_updated_at = 0\<rparr>,
      bd_proposal =
        \<lparr>pp_schema_version = FILE_CHANGE_SCHEMA_VERSION, pp_id = S ''c'', pp_transaction_id = S ''t'',
         pp_operation = fp_operation p, pp_file_path = fp_file_path p, pp_base = fp_base p, pp_target = fp_target p,
         pp_diff_digest = fp_diff_digest p, pp_proposal_digest = fp_proposal_digest p,
         pp_additions = fp_additions p, pp_deletions = fp_deletions p\<rparr>,
      bd_observation_id = S ''fobs_'' @ replicate 32 (Ch CHR ''0''),
      bd_observation =
        \<lparr>oc_schema_version = FILE_OBSERVATION_CHECKPOINT_SCHEMA_VERSION,
         oc_observation_id = S ''fobs_'' @ replicate 32 (Ch CHR ''0''), oc_source_tool_call_id = S ''o'',
         oc_conversation_id = S ''v'', oc_run_id = S ''r'', oc_canonical_target = S ''/a.txt'',
         oc_state = ObservedMissing,
         oc_parent_directory_identity = UnixDirectory FILE_OBSERVATION_DIRECTORY_IDENTITY_SCHEMA_VERSION 1 2,
         oc_created_at_ms = 0, oc_expires_at_ms = FILE_OBSERVATION_TTL_MS\<rparr>,
      bd_source_tool_name = S ''apply_patch'', bd_source_call_id = S ''c'',
      bd_source_args_digest = fp_diff_digest p, bd_trace_args_digest = fp_diff_digest p,
      bd_staged_transaction_id = None, bd_conversation_id = S ''v'', bd_project_id = None, bd_run_id = S ''r'',
      bd_staged_transaction_revision = None, bd_canonical_target = S ''/a.txt'',
      bd_base_content = fp_base_content p, bd_target_content = fp_target_content p, bd_delete_journal = None,
      bd_receipt = None, bd_permission_revision = S ''p'', bd_tool_set_revision = S ''s'', bd_provider_wire_revision = S ''w''\<rparr>"

definition hi_commit :: "file_change_plan \<Rightarrow> file_change_commit" where
  "hi_commit p =
     \<lparr>fc_status = StApplied,
      fc_receipt =
        \<lparr>rc_schema_version = FILE_CHANGE_SCHEMA_VERSION, rc_transaction_id = S ''t'', rc_operation = fp_operation p,
         rc_file_path = fp_file_path p, rc_outcome = OutcomeApplied, rc_base = fp_base p, rc_target = fp_target p,
         rc_proposal_digest = fp_proposal_digest p, rc_committed_at = 5\<rparr>,
      fc_delete_journal = None\<rparr>"

lemma hi_revision: "\<not> blank (content_revision bytes)"
  by (simp add: blank_def content_revision_def compose_content_revision_def str_trim_def S_def)

lemma hi_state:
  "content_state_validate (state_for_content zero_env content) = Inr ()"
  "operation_states_match Create Missing (state_for_content zero_env content)"
  by (simp_all add: state_for_content_def hi_revision content_digest_def zero_digest operation_states_match_def)

lemma hi_texts:
  "list_all (\<lambda>s. \<not> blank (S s)) [''t'', ''c'', ''v'', ''r'', ''p'', ''s'', ''w'', ''a.txt'']"
  "path_is_absolute (S ''/a.txt'')" "\<not> blank (S ''fobs_'' @ s)"
  by (simp_all add: blank_def str_trim_def S_def path_is_absolute_def)

lemma hi_transaction: "hi_planned p \<Longrightarrow> transaction_validate (bd_transaction (hi_binding p)) = Inr ()"
  using hi_texts
  by (auto simp: transaction_validate_def first_error_iff validate_common_def validate_operation_states_def
      validate_status_outcome_def hi_binding_def hi_planned_def hi_state simp del: first_error.simps)

lemma hi_proposal: "hi_planned p \<Longrightarrow> proposal_validate (bd_proposal (hi_binding p)) = Inr ()"
  using hi_texts
  by (auto simp: proposal_validate_def first_error_iff validate_common_def validate_operation_states_def
      hi_binding_def hi_planned_def hi_state simp del: first_error.simps)

lemma hi_header: "hi_planned p \<Longrightarrow> binding_header (hi_binding p)"
  using hi_texts by (auto simp: binding_header_def hi_binding_def hi_planned_def)

lemma hi_observation:
  "validate_frozen_binding now (bd_observation (hi_binding p)) (bd_conversation_id (hi_binding p)) (bd_run_id (hi_binding p))
     (bd_canonical_target (hi_binding p)) = Inr ()"
proof -
  have "valid_observation_id (S ''fobs_'' @ replicate 32 (Ch CHR ''0''))"
    by (simp add: valid_observation_id_def S_def among_def byte_len_def sum_list_replicate list_all_iff)
  moreover have "valid_owned_id (S ''o'')" "valid_owned_id (S ''v'')" "valid_owned_id (S ''r'')"
    by (simp_all add: valid_owned_id_def S_def str_trim_def is_control_def code_point_def)
  moreover have "str_trim (S ''/a.txt'') = S ''/a.txt''" "\<not> list_ex is_control (S ''/a.txt'')"
    by (simp_all add: S_def str_trim_def is_control_def code_point_def)
  ultimately show ?thesis
    using hi_texts(2)
    by (auto simp: validate_frozen_binding_def first_error_iff hi_binding_def simp del: first_error.simps)
qed

lemma hi_parts: "hi_planned p \<Longrightarrow> binding_parts_agree (pe_sha256 zero_env) (hi_binding p)"
  by (auto simp: binding_parts_agree_def hi_binding_def hi_planned_def content_matches_binding_state_def state_for_content_def
      observation_matches_base_def delete_journal_is_valid_def staged_reference_is_valid_def Let_def)

lemma hi_binding_valid: "hi_planned p \<Longrightarrow> binding_validate (pe_sha256 zero_env) now (hi_binding p) = Inr ()"
  unfolding binding_validate_iff
  by (simp add: hi_header hi_transaction hi_proposal hi_observation hi_parts) (simp add: hi_binding_def binding_prepared_def)

lemma hi_plan_rebuilt: "hi_planned p \<Longrightarrow> from_binding zero_env now (hi_binding p) = Inr p"
proof -
  assume p: "hi_planned p"
  then have "plan_of_binding zero_env (hi_binding p) = p"
    using plan_validate_cases(3) [of zero_env p] by (cases p) (auto simp: plan_of_binding_def hi_binding_def hi_planned_def Let_def)
  then show ?thesis using p by (simp add: from_binding_def hi_binding_valid hi_planned_def)
qed

theorem binding_lifecycle_witness:
  "\<exists>p. make_plan zero_env (example_request ''a.txt'') = Inr p
     \<and> (binding_step (pe_sha256 zero_env) ^^ 1) (hi_binding p) (committed_binding (hi_commit p) (hi_binding p))
     \<and> frozen (committed_binding (hi_commit p) (hi_binding p)) = frozen (hi_binding p)
     \<and> (\<exists>start. \<forall>later \<ge> start. from_binding zero_env later (committed_binding (hi_commit p) (hi_binding p)) = Inr p)"
proof -
  obtain p where p: "hi_planned p" using zero_plan by blast
  have "with_commit (pe_sha256 zero_env) (9, 9, 9) (hi_commit p) (hi_binding p) = Inr (committed_binding (hi_commit p) (hi_binding p))"
    by (rule commit_recorded [of _ 9])
      (use hi_binding_valid [OF p] in \<open>simp_all add: is_prepared_iff binding_prepared_def commit_of_binding_def dated_after_def
        journal_after_commit_def receipt_matches_def hi_commit_def hi_binding_def\<close>)
  then have step: "(binding_step (pe_sha256 zero_env) ^^ 1) (hi_binding p) (committed_binding (hi_commit p) (hi_binding p))"
    by (auto intro: binding_step.commit)
  from binding_lifecycle [OF hi_plan_rebuilt [OF p, of 0] step] step p show ?thesis
    by (auto simp: hi_planned_def)
qed

end
