(* ===== verification/File_Change_Atomic.thy ===== *)
theory File_Change_Atomic
  imports File_Change_Wp File_Change_Binding
begin

text \<open>
  What a commit does to a directory nobody else touches, whatever calls fail and whenever the process is
  killed.
\<close>

definition undisturbed :: "turn \<Rightarrow> bool" where
  "undisturbed t \<longleftrightarrow> tn_others t = (\<lambda>d. d)"

interpretation alone: disk_turns undisturbed "(=)"
  by unfold_locales (simp_all add: undisturbed_def quiet_def)

text \<open>\<open>d'\<close> is \<open>d\<close> up to new files under the private names \<open>N\<close>.\<close>

definition scratch :: "rstring set \<Rightarrow> directory \<Rightarrow> directory \<Rightarrow> bool" where
  "scratch N d d' \<longleftrightarrow> (\<forall>name. d' name \<noteq> d name \<longrightarrow> name \<in> N \<and> d name = None)"

lemma scratch_refl [simp]: "scratch N d d"
  by (simp add: scratch_def)

lemma scratch_trans: "scratch N d d' \<Longrightarrow> scratch N d' d'' \<Longrightarrow> scratch N d d''"
  unfolding scratch_def by metis

lemma scratch_new: "scratch N d d' \<Longrightarrow> name \<in> N \<Longrightarrow> d name = None \<Longrightarrow> scratch N d (d'(name := x))"
  by (auto simp: scratch_def)

lemma scratch_one [simp]: "name \<in> N \<Longrightarrow> d name = None \<Longrightarrow> scratch N d (d(name := x))"
  by (simp add: scratch_new)

lemma scratch_restored [simp]:
  "name \<in> N \<Longrightarrow> d name = None \<Longrightarrow> path \<noteq> name \<Longrightarrow> d path = x \<Longrightarrow> scratch N d (d(name := y, path := x))"
  "name \<in> N \<Longrightarrow> d name = None \<Longrightarrow> path \<noteq> name \<Longrightarrow> d path = x \<Longrightarrow> scratch N d (d(path := x, name := y))"
  by (auto simp: scratch_def)

lemma scratch_outside: "scratch N d d' \<Longrightarrow> name \<notin> N \<Longrightarrow> d' name = d name"
  by (auto simp: scratch_def)

lemma scratch_upd: "scratch N d d' \<Longrightarrow> name \<notin> N \<Longrightarrow> scratch N (d(name := x)) (d'(name := x))"
  by (auto simp: scratch_def)

definition fresh_inode :: "nat \<Rightarrow> directory \<Rightarrow> bool" where
  "fresh_inode inode d \<longleftrightarrow> (\<forall>name file. d name = Some file \<longrightarrow> df_inode file \<noteq> inode)"

lemma change_fresh_inode:
  assumes "fresh_inode inode d" and "df_inode file = inode"
  shows "change_inode inode f (d(name \<mapsto> file)) = d(name \<mapsto> f file)"
proof (rule ext)
  fix other
  show "change_inode inode f (d(name \<mapsto> file)) other = (d(name \<mapsto> f file)) other"
    using assms by (cases "d other") (auto simp: change_inode_def fresh_inode_def)
qed

section \<open>Staging\<close>

lemma wp_discard:
  assumes "Q Killed d rm" and "wp undisturbed m Q d rm" and "\<And>f. wp undisturbed m Q (d(name := None)) (rm @ [f])"
  shows "wp undisturbed (discard name m) Q d rm"
  unfolding discard_def using assms by (auto intro!: wp_control alone.wp_calls)

definition private_file :: "nat \<Rightarrow> byte list \<Rightarrow> nat option \<Rightarrow> dir_file" where
  "private_file inode content mode =
     \<lparr>df_inode = inode, df_bytes = content, df_mode = (case mode of None \<Rightarrow> 384 | Some bits \<Rightarrow> bits)\<rparr>"

lemma wp_fill_staged:
  assumes "d name = None" and "fresh_inode inode d"
    and stop: "\<And>x rm. Q Killed (d(name := x)) rm" "\<And>x rm c. Q (Failure c) (d(name := x)) rm"
    and staged: "Q (Success \<lparr>sf_name = name, sf_inode = inode\<rparr>) (d(name \<mapsto> private_file inode content mode)) rm"
  shows "wp undisturbed (fill_staged name inode content mode) Q
    (d(name \<mapsto> \<lparr>df_inode = inode, df_bytes = [], df_mode = 384\<rparr>)) rm"
  unfolding fill_staged_def staged_or_discard_def
  using staged
  by (cases mode)
    (auto intro!: wp_control alone.wp_calls wp_discard stop simp: change_fresh_inode assms(2) private_file_def)

lemma wp_stage_file:
  assumes "set names \<subseteq> N" and "fresh_inode inode d"
    and "\<And>d' rm. scratch N d d' \<Longrightarrow> Q Killed d' rm" and "\<And>d' rm c. scratch N d d' \<Longrightarrow> Q (Failure c) d' rm"
    and "\<And>name. name \<in> N \<Longrightarrow> d name = None \<Longrightarrow>
      Q (Success \<lparr>sf_name = name, sf_inode = inode\<rparr>) (d(name \<mapsto> private_file inode content mode)) rm"
  shows "wp undisturbed (stage_file inode content mode names) Q d rm"
  using assms
proof (induction names)
  case Nil
  then show ?case by (auto intro!: wp_control)
next
  case (Cons name names)
  have N: "name \<in> N" using Cons.prems(1) by simp
  have rest: "wp undisturbed (stage_file inode content mode names) Q d rm"
    using Cons.prems by (intro Cons.IH) auto
  have stop: "Q Killed (d(name := x)) rm" "Q (Failure c) (d(name := x)) rm" if "d name = None" for x rm c
  proof -
    have "scratch N d (d(name := x))" by (rule scratch_one [OF N], rule that)
    then show "Q Killed (d(name := x)) rm" "Q (Failure c) (d(name := x)) rm" by (fact Cons.prems(3), fact Cons.prems(4))
  qed
  show ?case
    using Cons.prems(3,4) rest
    by (auto intro!: wp_control alone.wp_calls wp_fill_staged stop Cons.prems(2,5) N)
qed

lemma wp_stage:
  assumes "set (sg_names s) \<subseteq> N" and "fresh_inode (sg_inode s) d" and "path \<notin> N"
    and "\<And>d' rm. scratch N d d' \<Longrightarrow> Q Killed d' rm" and "\<And>d' rm c. scratch N d d' \<Longrightarrow> Q (Failure c) d' rm"
    and "\<And>name. name \<in> N \<Longrightarrow> name \<noteq> path \<Longrightarrow> path \<noteq> name \<Longrightarrow> d name = None \<Longrightarrow>
      Q (Success \<lparr>sf_name = name, sf_inode = sg_inode s\<rparr>) (d(name \<mapsto> private_file (sg_inode s) content mode)) rm"
  shows "wp undisturbed (stage s content mode) Q d rm"
  unfolding stage_def
proof (rule wp_stage_file [of _ N])
  show "set (take 16 (sg_names s)) \<subseteq> N" using assms(1) by (auto dest: in_set_takeD)
qed (use assms in blast)+

lemma wp_guarded:
  assumes "wp undisturbed m (\<lambda>r d rm. case r of
      Killed \<Rightarrow> Q Killed d rm
    | Failure c \<Rightarrow> Q Killed d rm \<and> Q (Failure c) d rm \<and> (\<forall>f. Q (Failure c) (d(sf_name s := None)) (rm @ [f]))
    | Success x \<Rightarrow> Q (Success x) d rm) d rm"
  shows "wp undisturbed (guarded s m) Q d rm"
  unfolding guarded_def
  by (rule wp_bind, rule wp_attempt, rule wp_mono [OF assms])
    (auto intro!: wp_control wp_discard split: answer.splits)

section \<open>The standing of a plan\<close>

definition standing ::
  "(byte list \<Rightarrow> byte list) \<Rightarrow> rstring \<Rightarrow> file_change_plan \<Rightarrow> delete_journal option \<Rightarrow> directory \<Rightarrow> reconciliation" where
  "standing sha256 path plan journal d =
     (case (fp_operation plan, d path) of
        (Create, None) \<Rightarrow> RcDefinitelyNotExecuted
      | (Create, Some f) \<Rightarrow> if state_matches sha256 (fp_target plan) (df_bytes f) then RcAlreadyApplied else RcOutcomeUnknown
      | (Update, Some f) \<Rightarrow>
          if state_matches sha256 (fp_base plan) (df_bytes f) then RcDefinitelyNotExecuted
          else if state_matches sha256 (fp_target plan) (df_bytes f) then RcAlreadyApplied else RcOutcomeUnknown
      | (Update, None) \<Rightarrow> RcOutcomeUnknown
      | (Delete, Some f) \<Rightarrow> if state_matches sha256 (fp_base plan) (df_bytes f) then RcDefinitelyNotExecuted else RcOutcomeUnknown
      | (Delete, None) \<Rightarrow>
          (case journal of
             None \<Rightarrow> RcOutcomeUnknown
           | Some j \<Rightarrow>
               if jn_proposal_digest j \<noteq> fp_proposal_digest plan \<or> jn_state j = RolledBack then RcOutcomeUnknown
               else if jn_state j = Finalized
               then if d (jn_tombstone_path j) = None then RcAlreadyApplied else RcOutcomeUnknown
               else if is_some_and (d (jn_tombstone_path j)) (\<lambda>f. content_digest sha256 (df_bytes f) = jn_base_digest j)
               then RcAlreadyApplied else RcOutcomeUnknown))"

lemma wp_reconcile_deleted:
  assumes "Q Killed d rm" and "\<And>c. Q (Failure c) d rm"
    and "d (rt_absolute_path target) = None \<Longrightarrow> fp_operation plan = Delete \<Longrightarrow>
      Q (Success (standing sha256 (rt_absolute_path target) plan journal d)) d rm"
    and "d (rt_absolute_path target) = None" and "fp_operation plan = Delete"
  shows "wp undisturbed (reconcile_deleted sha256 target plan journal) Q d rm"
  unfolding reconcile_deleted_def using assms
  by (cases "case journal of Some j \<Rightarrow> jn_state j | None \<Rightarrow> Prepared")
    (auto intro!: wp_control alone.wp_calls simp: standing_def split: option.splits delete_journal_state.splits)

lemma wp_reconcile_bound:
  assumes "Q Killed d rm" and "\<And>c. Q (Failure c) d rm"
    and "Q (Success (standing sha256 (rt_absolute_path target) plan journal d)) d rm"
  shows "wp undisturbed (reconcile_bound sha256 target plan journal) Q d rm"
  unfolding reconcile_bound_def using assms
  by (cases "fp_operation plan"; cases "d (rt_absolute_path target)")
    (auto intro!: wp_control alone.wp_calls wp_reconcile_deleted simp: standing_def)

lemma wp_reconcile:
  assumes "Q Killed d rm" and "\<And>c. Q (Failure c) d rm"
    and "Q (Success (standing sha256 (rt_absolute_path target) plan journal d)) d rm"
  shows "wp undisturbed (reconcile sha256 target plan journal) Q d rm"
  unfolding reconcile_def using assms by (auto intro!: wp_control alone.wp_calls wp_reconcile_bound)


section \<open>What a commit may leave behind\<close>

definition applied_change ::
  "rstring set \<Rightarrow> rstring \<Rightarrow> file_change_plan \<Rightarrow> delete_journal option \<Rightarrow> directory \<Rightarrow> directory \<Rightarrow> bool" where
  "applied_change N path plan journal d d' =
     (if fp_operation plan = Delete
      then scratch N (d(path := None)) d' \<and> is_some_and journal (\<lambda>j. d' (jn_tombstone_path j) = d path)
      else \<exists>f. scratch N (d(path \<mapsto> f)) d'
        \<and> is_some_and (fp_target_content plan) (\<lambda>content. df_bytes f = utf8_bytes content)
        \<and> (fp_operation plan = Update \<longrightarrow> is_some_and (d path) (\<lambda>old. df_mode f = df_mode old)))"

definition commit_outcome ::
  "('a \<Rightarrow> file_change_status) \<Rightarrow> rstring set \<Rightarrow> rstring \<Rightarrow> file_change_plan \<Rightarrow> delete_journal option \<Rightarrow> reconciliation \<Rightarrow> directory
   \<Rightarrow> 'a answer \<Rightarrow> directory \<Rightarrow> bool" where
  "commit_outcome status N path plan journal before d r d' =
     (let applied = (before = RcDefinitelyNotExecuted \<and> applied_change N path plan journal d d') in
      case r of
        Killed \<Rightarrow> scratch N d d' \<or> applied
      | Failure c \<Rightarrow> scratch N d d' \<or> c = ErrOutcomeUnknown \<and> applied
      | Success c \<Rightarrow>
          status c = StApplied \<and> applied \<or> status c = StAlreadyApplied \<and> before = RcAlreadyApplied \<and> scratch N d d')"

lemma commit_outcome_stops [simp]:
  "commit_outcome status N path plan journal before d Killed d' \<longleftrightarrow>
     scratch N d d' \<or> before = RcDefinitelyNotExecuted \<and> applied_change N path plan journal d d'"
  "commit_outcome status N path plan journal before d (Failure c) d' \<longleftrightarrow>
     scratch N d d' \<or> c = ErrOutcomeUnknown \<and> before = RcDefinitelyNotExecuted \<and> applied_change N path plan journal d d'"
  "commit_outcome status N path plan journal before d (Success c') d' \<longleftrightarrow>
     status c' = StApplied \<and> before = RcDefinitelyNotExecuted \<and> applied_change N path plan journal d d'
     \<or> status c' = StAlreadyApplied \<and> before = RcAlreadyApplied \<and> scratch N d d'"
  by (auto simp: commit_outcome_def)

lemma applied_status [simp]: "fc_status (applied_commit transaction_id target plan committed_at status journal) = status"
  by (simp add: applied_commit_def)

lemma applied_published [simp]:
  assumes "fp_operation plan \<noteq> Delete" and "required_target_content plan = Inr content" and "name \<in> N" and "d name = None"
    and "path \<notin> N" and "fp_operation plan = Update \<longrightarrow> is_some_and (d path) (\<lambda>old. mode = Some (df_mode old))"
  shows "applied_change N path plan journal d (d(name := x, path \<mapsto> private_file inode (utf8_bytes content) mode))" (is ?A)
    and "applied_change N path plan journal d (d(path \<mapsto> private_file inode (utf8_bytes content) mode, name := x))" (is ?B)
proof -
  let ?f = "private_file inode (utf8_bytes content) mode"
  have "scratch N (d(path \<mapsto> ?f)) (d(name := x, path \<mapsto> ?f))"
    using assms(3-5) by (auto simp: scratch_def)
  moreover have "fp_operation plan = Update \<longrightarrow> is_some_and (d path) (\<lambda>old. df_mode ?f = df_mode old)"
    using assms(6) by (auto simp: private_file_def is_some_and_def split: option.splits)
  ultimately show ?A
    using assms(1,2) unfolding applied_change_def
    by (auto simp: required_target_content_def private_file_def is_some_and_def split: option.splits intro!: exI [of _ ?f])
  moreover have "name \<noteq> path" using assms(3,5) by auto
  ultimately show ?B by (simp add: fun_upd_twist)
qed

lemma wp_commit_create:
  assumes "set (sg_names staging) \<subseteq> N"
    and "standing sha256 (rt_absolute_path target) plan None d = RcDefinitelyNotExecuted \<Longrightarrow> fresh_inode (sg_inode staging) d"
    and "rt_absolute_path target \<notin> N"
    and "fp_operation plan = Create"
  shows "wp undisturbed (commit_create sha256 staging transaction_id target plan committed_at)
    (\<lambda>r d' rm. commit_outcome fc_status N (rt_absolute_path target) plan None (standing sha256 (rt_absolute_path target) plan None d) d r d') d rm"
  using assms(2-4) unfolding commit_create_def Let_def publish_noreplace_def
  by (auto intro!: wp_control alone.wp_calls wp_reconcile_bound wp_stage [OF assms(1) _ assms(3)] wp_guarded split: reconciliation.split)

lemma wp_commit_update:
  assumes "set (sg_names staging) \<subseteq> N"
    and "standing sha256 (rt_absolute_path target) plan None d = RcDefinitelyNotExecuted \<Longrightarrow> fresh_inode (sg_inode staging) d"
    and "rt_absolute_path target \<notin> N"
    and "fp_operation plan = Update"
  shows "wp undisturbed (commit_update sha256 staging transaction_id target plan committed_at)
    (\<lambda>r d' rm. commit_outcome fc_status N (rt_absolute_path target) plan None (standing sha256 (rt_absolute_path target) plan None d) d r d') d rm"
  using assms(2-4) unfolding commit_update_def Let_def exchange_target_def displaced_validation_def rollback_update_exchange_def
    read_exchanged_def remove_exchanged_def ensure_state_matches_def
  by (auto intro!: wp_control alone.wp_calls wp_reconcile_bound wp_stage [OF assms(1) _ assms(3)] wp_guarded
      simp: outcome_unknown_io_def split: reconciliation.split)

lemma applied_tombstoned [simp]:
  assumes "fp_operation plan = Delete" and "tomb \<in> N" and "d tomb = None" and "path \<notin> N" and "jn_tombstone_path j = tomb"
    and "d path = Some f"
  shows "applied_change N path plan (Some j) d (d(path := None, tomb \<mapsto> f))"
  using assms by (auto simp: applied_change_def scratch_def is_some_and_def)

lemma wp_commit_delete:
  assumes "jn_tombstone_path j \<in> N" and "rt_absolute_path target \<notin> N" and "fp_operation plan = Delete"
  shows "wp undisturbed (commit_delete sha256 transaction_id target plan committed_at j)
    (\<lambda>r d' rm. commit_outcome (fc_status \<circ> fst) N (rt_absolute_path target) plan (Some j)
       (standing sha256 (rt_absolute_path target) plan (Some j) d) d r d') d rm"
proof -
  have "rt_absolute_path target \<noteq> jn_tombstone_path j" using assms by auto
  then show ?thesis
    using assms unfolding commit_delete_def Let_def move_to_tombstone_def ensure_state_matches_def ensure_path_digest_def
    by (auto intro!: wp_control alone.wp_calls wp_reconcile_bound split: reconciliation.split delete_journal_state.split)
qed

lemma wp_outcome_map:
  assumes "wp undisturbed m (\<lambda>r d' rm. commit_outcome status N path plan journal before d r d') d rm"
    and "\<And>x. status' (g x) = status x"
  shows "wp undisturbed (dbind m (\<lambda>x. give (g x))) (\<lambda>r d' rm. commit_outcome status' N path plan journal before d r d') d rm"
  by (rule wp_bind, rule wp_mono [OF assms(1)]) (auto intro!: wp_give simp: assms(2) split: answer.split)

lemma wp_commit:
  assumes "set (sg_names staging) \<subseteq> N"
    and "standing (pe_sha256 env) (rt_absolute_path target) plan journal d = RcDefinitelyNotExecuted \<Longrightarrow>
      fresh_inode (sg_inode staging) d"
    and "rt_absolute_path target \<notin> N" and "\<And>j. journal = Some j \<Longrightarrow> jn_tombstone_path j \<in> N"
  shows "wp undisturbed (commit env staging transaction_id target plan committed_at journal)
    (\<lambda>r d' rm. commit_outcome (fc_status \<circ> fst) N (rt_absolute_path target) plan journal
       (standing (pe_sha256 env) (rt_absolute_path target) plan journal d) d r d') d rm" (is "wp _ _ ?Q d rm")
proof -
  let ?body = "case (fp_operation plan, journal) of
      (Create, None) \<Rightarrow> dbind (commit_create (pe_sha256 env) staging transaction_id target plan committed_at) (\<lambda>c. give (c, None))
    | (Update, None) \<Rightarrow> dbind (commit_update (pe_sha256 env) staging transaction_id target plan committed_at) (\<lambda>c. give (c, None))
    | (Delete, Some j) \<Rightarrow>
        dbind (commit_delete (pe_sha256 env) transaction_id target plan committed_at j) (\<lambda>(c, j). give (c, Some j))
    | _ \<Rightarrow> fail IllegalFieldCombination"
  have pair: "(\<lambda>(c, j). give (c, Some j)) = (\<lambda>x. give (fst x, Some (snd x)))" by auto
  have "wp undisturbed ?body ?Q d rm"
    unfolding pair using assms
    by (cases "fp_operation plan"; cases journal)
      (auto intro!: wp_outcome_map wp_commit_create wp_commit_update wp_commit_delete wp_fail)
  then show ?thesis
    unfolding commit_def Let_def by (auto intro!: wp_bind wp_lift)
qed

section \<open>Fresh commits\<close>

lemma standing_kept:
  assumes "standing sha256 path plan journal d = RcDefinitelyNotExecuted" and "d' path = d path"
  shows "standing sha256 path plan journal d' = RcDefinitelyNotExecuted"
  using assms by (auto simp: standing_def split: file_change_operation.splits option.splits if_splits)

lemma standing_base:
  assumes "standing sha256 path plan journal d = RcDefinitelyNotExecuted"
  shows "case fp_operation plan of
      Create \<Rightarrow> d path = None
    | _ \<Rightarrow> is_some_and (d path) (\<lambda>f. state_matches sha256 (fp_base plan) (df_bytes f))"
  using assms by (auto simp: standing_def is_some_and_def split: file_change_operation.splits option.splits if_splits)

lemma applied_scratch:
  assumes "applied_change N path plan journal d d'" and "scratch N d' d''" and "fp_operation plan = Delete \<longrightarrow> d path \<noteq> None"
  shows "applied_change N path plan journal d d''"
proof (cases "fp_operation plan = Delete")
  case True
  then obtain j where j: "journal = Some j" "scratch N (d(path := None)) d'" "d' (jn_tombstone_path j) = d path" "d path \<noteq> None"
    using assms(1,3) by (auto simp: applied_change_def is_some_and_def split: option.splits)
  moreover have "d'' (jn_tombstone_path j) = d path"
    using assms(2) j(3,4) unfolding scratch_def by metis
  ultimately show ?thesis
    using True scratch_trans [OF j(2) assms(2)] by (simp add: applied_change_def is_some_and_def)
next
  case False
  then show ?thesis
    using assms(1) scratch_trans [OF _ assms(2)] by (auto simp: applied_change_def)
qed

lemma state_matches_unique:
  "state_matches sha256 a bytes \<Longrightarrow> state_matches sha256 b bytes \<Longrightarrow> a = b"
  by (auto simp: state_matches_def split: file_change_content_state.splits)

lemma validated_target:
  assumes "validate_transaction_and_plan env transaction_id target plan = Inr ()" and "fp_target_content plan = Some content"
  shows "state_matches (pe_sha256 env) (fp_target plan) (utf8_bytes content)"
proof -
  have "content_matches_state env (fp_target plan) (fp_target_content plan)"
    using assms(1) by (auto simp: validate_transaction_and_plan_def split: sum.splits dest!: plan_validate_cases(2))
  then show ?thesis
    using assms(2) by (auto simp: content_matches_state_def state_for_content_def state_matches_def byte_len_utf8
        split: file_change_content_state.splits)
qed

lemma standing_applied:
  assumes "applied_change N path plan journal d d'" and "path \<notin> N"
    and "validate_transaction_and_plan env transaction_id target plan = Inr ()"
    and "fp_operation plan = Update \<longrightarrow> fp_base plan \<noteq> fp_target plan"
  shows "standing (pe_sha256 env) path plan journal d' \<noteq> RcDefinitelyNotExecuted"
proof (cases "fp_operation plan = Delete")
  case True
  then have "scratch N (d(path := None)) d'" using assms(1) by (simp add: applied_change_def)
  then have "d' path = None" using scratch_outside [OF _ assms(2), of "d(path := None)" d'] by simp
  with True show ?thesis by (simp add: standing_def split: option.split)
next
  case False
  then obtain f content where f: "scratch N (d(path \<mapsto> f)) d'" "fp_target_content plan = Some content" "df_bytes f = utf8_bytes content"
    using assms(1) by (auto simp: applied_change_def is_some_and_def split: option.splits)
  then have "d' path = Some f" using scratch_outside [OF f(1) assms(2)] by simp
  moreover have "state_matches (pe_sha256 env) (fp_target plan) (df_bytes f)"
    using validated_target [OF assms(3) f(2)] f(3) by simp
  ultimately show ?thesis
    using False assms(4) state_matches_unique by (auto simp: standing_def split: file_change_operation.splits)
qed


definition fresh_outcome ::
  "rstring set \<Rightarrow> rstring \<Rightarrow> file_change_plan \<Rightarrow> delete_journal option \<Rightarrow> directory \<Rightarrow> 'a answer \<Rightarrow> directory \<Rightarrow> bool" where
  "fresh_outcome N path plan journal d r d' =
     (case r of
        Killed \<Rightarrow> scratch N d d' \<or> applied_change N path plan journal d d'
      | Failure c \<Rightarrow> scratch N d d' \<or> c = ErrOutcomeUnknown \<and> applied_change N path plan journal d d'
      | Success _ \<Rightarrow> applied_change N path plan journal d d')"

lemma fresh_outcome_simps [simp]:
  "fresh_outcome N path plan journal d Killed d' \<longleftrightarrow> scratch N d d' \<or> applied_change N path plan journal d d'"
  "fresh_outcome N path plan journal d (Failure c) d' \<longleftrightarrow>
     scratch N d d' \<or> c = ErrOutcomeUnknown \<and> applied_change N path plan journal d d'"
  "fresh_outcome N path plan journal d (Success x) d' \<longleftrightarrow> applied_change N path plan journal d d'"
  by (simp_all add: fresh_outcome_def)

lemma wp_reconcile_attempted:
  assumes "set (sg_names again) \<subseteq> N" and path: "rt_absolute_path target \<notin> N"
    and "\<And>j. journal = Some j \<Longrightarrow> jn_tombstone_path j \<in> N"
    and before: "standing (pe_sha256 env) (rt_absolute_path target) plan journal d = RcDefinitelyNotExecuted"
    and valid: "validate_transaction_and_plan env transaction_id target plan = Inr ()"
      "fp_operation plan = Update \<longrightarrow> fp_base plan \<noteq> fp_target plan"
    and d': "scratch N d d' \<or> applied_change N (rt_absolute_path target) plan journal d d'"
  shows "wp undisturbed
    (reconcile_attempted_outcome_unknown env again transaction_id target plan committed_at journal ErrOutcomeUnknown)
    (\<lambda>r d' rm. fresh_outcome N (rt_absolute_path target) plan journal d r d') d' rm"
proof -
  let ?standing = "standing (pe_sha256 env) (rt_absolute_path target) plan journal"
  have unchanged: "?standing d' = RcDefinitelyNotExecuted" if "scratch N d d'"
    using standing_kept [OF before] scratch_outside [OF that path] by simp
  have changed: "?standing d' \<noteq> RcDefinitelyNotExecuted" if "applied_change N (rt_absolute_path target) plan journal d d'"
    using standing_applied [OF that path valid] .
  have later: "applied_change N (rt_absolute_path target) plan journal d d''"
    if "applied_change N (rt_absolute_path target) plan journal d d'" and "scratch N d' d''" for d''
    using that standing_base [OF before] by (intro applied_scratch [OF that]) (auto simp: is_some_and_def split: option.splits)
  have retry: "wp undisturbed (commit env again transaction_id target plan committed_at journal)
      (\<lambda>r d'' rm. commit_outcome (fc_status \<circ> fst) N (rt_absolute_path target) plan journal RcAlreadyApplied d' r d'') d' rm"
    if "?standing d' = RcAlreadyApplied" for rm
    using wp_commit [OF assms(1) _ path assms(3), of env plan journal d'] that by simp
  show ?thesis
    unfolding reconcile_attempted_outcome_unknown_def using d' unchanged changed later
    by (cases "?standing d'")
      (auto intro!: wp_bind wp_attempt wp_fail wp_give wp_reconcile retry [THEN wp_mono] split: answer.splits sum.splits)
qed

lemma wp_commit_fresh:
  assumes "set (sg_names staging) \<subseteq> N" and "set (sg_names again) \<subseteq> N" and "fresh_inode (sg_inode staging) d"
    and path: "rt_absolute_path target \<notin> N" and tomb: "\<And>j. journal = Some j \<Longrightarrow> jn_tombstone_path j \<in> N"
    and "fp_operation plan = Update \<longrightarrow> fp_base plan \<noteq> fp_target plan"
  shows "wp undisturbed (commit_fresh env staging again transaction_id target plan committed_at journal)
    (\<lambda>r d' rm. fresh_outcome N (rt_absolute_path target) plan journal d r d') d rm"
proof -
  let ?standing = "standing (pe_sha256 env) (rt_absolute_path target) plan journal"
  have first: "wp undisturbed (commit env staging transaction_id target plan committed_at journal)
      (\<lambda>r d' rm. commit_outcome (fc_status \<circ> fst) N (rt_absolute_path target) plan journal RcDefinitelyNotExecuted d r d') d rm"
    if "?standing d = RcDefinitelyNotExecuted" for rm
    unfolding that [symmetric] by (rule wp_commit [OF assms(1,3) path tomb])
  show ?thesis
    unfolding commit_fresh_def
    by (auto intro!: wp_bind wp_lift wp_check wp_attempt wp_fail wp_give wp_if wp_reconcile first [THEN wp_mono]
        wp_reconcile_attempted [OF assms(2) path tomb _ _ assms(6)] split: answer.splits sum.splits)
qed


text \<open>
  C11: in a directory nobody else touches, whatever system calls fail and whenever the process is
  killed, a fresh commit changes nothing but its target and new private names. The target is as before or
  holds exactly the planned change: the new content with the old mode, or nothing, with the old file kept as
  the tombstone. Success means that the change is there, and an error other than the one that says the
  outcome is unknown means that the target is untouched.
\<close>

theorem fresh_commit_is_atomic:
  assumes "list_all undisturbed (fw_turns w)" and "fresh_inode (sg_inode staging) (fw_dir w)"
    and "set (sg_names staging) \<subseteq> N" and "set (sg_names again) \<subseteq> N" and "\<And>j. journal = Some j \<Longrightarrow> jn_tombstone_path j \<in> N"
    and "rt_absolute_path target \<notin> N" and "fp_operation plan = Update \<longrightarrow> fp_base plan \<noteq> fp_target plan"
    and "commit_fresh env staging again transaction_id target plan committed_at journal w = (r, w')"
  shows "case r of
      Killed \<Rightarrow> scratch N (fw_dir w) (fw_dir w') \<or> applied_change N (rt_absolute_path target) plan journal (fw_dir w) (fw_dir w')
    | Failure c \<Rightarrow> scratch N (fw_dir w) (fw_dir w')
        \<or> c = ErrOutcomeUnknown \<and> applied_change N (rt_absolute_path target) plan journal (fw_dir w) (fw_dir w')
    | Success _ \<Rightarrow> applied_change N (rt_absolute_path target) plan journal (fw_dir w) (fw_dir w')"
  using wp_run [OF wp_commit_fresh [OF assms(3,4,2,6,5,7)] assms(1,8)] by (simp add: fresh_outcome_def)

section \<open>Recovery\<close>

lemma quiet_calls:
  assumes "fw_turns w = []"
  shows "revalidate w = (Success (), w)" and "read_optional path w = (Success (fw_dir w path), w)"
proof -
  have w: "w\<lparr>fw_dir := fw_dir w, fw_turns := []\<rparr> = w" using assms by (cases w) simp
  show "revalidate w = (Success (), w)" "read_optional path w = (Success (fw_dir w path), w)"
    using assms by (simp_all add: revalidate_def read_optional_def call_def or_error_def give_def quiet_def w)
qed

lemma valid_journal:
  "validate_delete_journal sha256 transaction_id target plan j = Inr () \<longleftrightarrow>
     journal_validate sha256 j = Inr () \<and> jn_transaction_id j = transaction_id \<and> jn_target_path j = rt_absolute_path target
     \<and> jn_proposal_digest j = fp_proposal_digest plan \<and> state_digest (fp_base plan) = Some (jn_base_digest j)"
  by (auto simp: validate_delete_journal_def first_error_iff simp del: first_error.simps)

definition journal_of_plan ::
  "(byte list \<Rightarrow> byte list) \<Rightarrow> rstring \<Rightarrow> resolved_target \<Rightarrow> file_change_plan \<Rightarrow> delete_journal option \<Rightarrow> bool" where
  "journal_of_plan sha256 transaction_id target plan journal \<longleftrightarrow>
     (fp_operation plan = Delete \<longrightarrow>
        is_some_and journal (\<lambda>j. validate_delete_journal sha256 transaction_id target plan j = Inr () \<and> jn_state j = Prepared))"

lemma reconcile_quiet:
  assumes "fw_turns w = []" and "journal_of_plan sha256 transaction_id target plan journal"
  shows "reconcile sha256 target plan journal w = (Success (standing sha256 (rt_absolute_path target) plan journal (fw_dir w)), w)"
proof -
  have deleted: "reconcile_deleted sha256 target plan journal w =
      (Success (standing sha256 (rt_absolute_path target) plan journal (fw_dir w)), w)"
    if "fp_operation plan = Delete" and "fw_dir w (rt_absolute_path target) = None"
    using that assms
    by (auto simp: journal_of_plan_def is_some_and_def valid_journal reconcile_deleted_def lift_result_def check_def dbind_def
        give_def standing_def quiet_calls split: option.splits)
  show ?thesis
    using assms(1) deleted
    by (cases "fp_operation plan"; cases "fw_dir w (rt_absolute_path target)")
      (auto simp: reconcile_def reconcile_bound_def dbind_def quiet_calls give_def standing_def)
qed

lemma standing_after_change:
  assumes "applied_change N path plan journal d d'" and "path \<notin> N" and "path = rt_absolute_path target"
    and "standing (pe_sha256 env) path plan journal d = RcDefinitelyNotExecuted"
    and "validate_transaction_and_plan env transaction_id target plan = Inr ()"
    and "fp_operation plan = Update \<longrightarrow> fp_base plan \<noteq> fp_target plan"
    and "journal_of_plan (pe_sha256 env) transaction_id target plan journal"
  shows "standing (pe_sha256 env) path plan journal d' = RcAlreadyApplied"
proof (cases "fp_operation plan = Delete")
  case True
  then have "scratch N (d(path := None)) d'" using assms(1) by (simp add: applied_change_def)
  then have "d' path = None" using scratch_outside [OF _ assms(2), of "d(path := None)" d'] by simp
  moreover obtain j where j: "journal = Some j" "d' (jn_tombstone_path j) = d path"
    using assms(1) True by (auto simp: applied_change_def is_some_and_def split: option.splits)
  moreover obtain f where "d path = Some f" "state_matches (pe_sha256 env) (fp_base plan) (df_bytes f)"
    using standing_base [OF assms(4)] True by (auto simp: is_some_and_def split: option.splits)
  ultimately show ?thesis
    using True assms(7)
    by (auto simp: standing_def journal_of_plan_def is_some_and_def valid_journal state_matches_def
        split: file_change_content_state.splits)
next
  case False
  then obtain f content where f: "scratch N (d(path \<mapsto> f)) d'" "fp_target_content plan = Some content" "df_bytes f = utf8_bytes content"
    using assms(1) by (auto simp: applied_change_def is_some_and_def split: option.splits)
  moreover have "d' path = Some f" using scratch_outside [OF f(1) assms(2)] by simp
  ultimately show ?thesis
    using False assms(6) validated_target [OF assms(5) f(2)] state_matches_unique
    by (auto simp: standing_def split: file_change_operation.splits)
qed

text \<open>
  C12: when a valid plan was still to be executed, its fresh commit ended in any way, by a kill in the middle included, nobody
  else touched the directory, and the process that recovers it looks there, the reconciliation decides. It says \<open>not executed\<close>
  exactly when the target is untouched and \<open>already applied\<close> exactly when the change is there, never \<open>unknown\<close>.
\<close>

theorem recovery_decides:
  assumes "list_all undisturbed (fw_turns w)" and "fresh_inode (sg_inode staging) (fw_dir w)"
    and "set (sg_names staging) \<subseteq> N" and "set (sg_names again) \<subseteq> N" and "\<And>j. journal = Some j \<Longrightarrow> jn_tombstone_path j \<in> N"
    and "rt_absolute_path target \<notin> N" and "fp_operation plan = Update \<longrightarrow> fp_base plan \<noteq> fp_target plan"
    and "validate_transaction_and_plan env transaction_id target plan = Inr ()"
    and "journal_of_plan (pe_sha256 env) transaction_id target plan journal"
    and "standing (pe_sha256 env) (rt_absolute_path target) plan journal (fw_dir w) = RcDefinitelyNotExecuted"
    and "commit_fresh env staging again transaction_id target plan committed_at journal w = (r, w')"
  shows "\<exists>s. reconcile (pe_sha256 env) target plan journal (w'\<lparr>fw_turns := []\<rparr>) = (Success s, w'\<lparr>fw_turns := []\<rparr>)
    \<and> (s = RcDefinitelyNotExecuted \<and> scratch N (fw_dir w) (fw_dir w')
       \<or> s = RcAlreadyApplied \<and> applied_change N (rt_absolute_path target) plan journal (fw_dir w) (fw_dir w'))"
proof -
  have "fresh_outcome N (rt_absolute_path target) plan journal (fw_dir w) r (fw_dir w')"
    by (rule wp_run [OF wp_commit_fresh [OF assms(3,4,2,6,5,7)] assms(1,11)])
  then consider "scratch N (fw_dir w) (fw_dir w')" | "applied_change N (rt_absolute_path target) plan journal (fw_dir w) (fw_dir w')"
    by (cases r) auto
  then have "standing (pe_sha256 env) (rt_absolute_path target) plan journal (fw_dir w') = RcDefinitelyNotExecuted
      \<and> scratch N (fw_dir w) (fw_dir w')
    \<or> standing (pe_sha256 env) (rt_absolute_path target) plan journal (fw_dir w') = RcAlreadyApplied
      \<and> applied_change N (rt_absolute_path target) plan journal (fw_dir w) (fw_dir w')"
  proof cases
    case 1
    from standing_kept [OF assms(10)] scratch_outside [OF 1 assms(6)] 1 show ?thesis by blast
  next
    case 2
    from standing_after_change [OF 2 assms(6) refl assms(10,8,7,9)] 2 show ?thesis by blast
  qed
  then show ?thesis by (simp add: reconcile_quiet [OF _ assms(9)])
qed

section \<open>Witnesses\<close>

definition hi_target :: resolved_target where
  "hi_target = \<lparr>rt_absolute_path = S ''/a.txt'', rt_parent = S ''/'', rt_display_path = S ''a.txt''\<rparr>"

definition hi_staging :: staging where
  "hi_staging = \<lparr>sg_names = [S ''/.private''], sg_inode = 7\<rparr>"

definition killed_world :: "nat \<Rightarrow> disk_world" where
  "killed_world n =
     \<lparr>fw_dir = (\<lambda>_. None), fw_turns = replicate n quiet @ [quiet\<lparr>tn_killed := True\<rparr>], fw_removed = []\<rparr>"

lemma hi_planned_valid: "hi_planned p \<Longrightarrow> validate_transaction_and_plan zero_env (S ''t'') hi_target p = Inr ()"
  by (auto simp: hi_planned_def validate_transaction_and_plan_def require_def hi_target_def blank_def str_trim_def S_def
      operation_states_match_def state_for_content_def)

lemma hi_plan:
  "\<exists>p. make_plan zero_env (example_request ''a.txt'') = Inr p \<and> fp_operation p = Create
     \<and> validate_transaction_and_plan zero_env (S ''t'') hi_target p = Inr ()"
  using zero_plan hi_planned_valid unfolding hi_planned_def by blast

lemma killed_world_facts:
  "list_all undisturbed (fw_turns (killed_world n))" "fw_dir (killed_world n) = (\<lambda>_. None)"
  "fresh_inode (sg_inode hi_staging) (fw_dir (killed_world n))" "set (sg_names hi_staging) = {S ''/.private''}"
  "rt_absolute_path hi_target \<notin> {S ''/.private''}"
  by (simp_all add: killed_world_def undisturbed_def quiet_def list_all_iff fresh_inode_def hi_staging_def hi_target_def S_def)

theorem fresh_commit_is_atomic_witness:
  "\<exists>p r w'. make_plan zero_env (example_request ''a.txt'') = Inr p
     \<and> commit_fresh zero_env hi_staging hi_staging (S ''t'') hi_target p 1 None (killed_world 12) = (r, w')
     \<and> (\<forall>c. r = Failure c \<and> c \<noteq> ErrOutcomeUnknown \<longrightarrow> fw_dir w' (S ''/a.txt'') = None)"
proof -
  obtain p where p: "make_plan zero_env (example_request ''a.txt'') = Inr p" "fp_operation p = Create" using hi_plan by blast
  obtain r w' where run: "commit_fresh zero_env hi_staging hi_staging (S ''t'') hi_target p 1 None (killed_world 12) = (r, w')"
    by (metis surj_pair)
  have "scratch {S ''/.private''} (\<lambda>_. None) (fw_dir w')" if "r = Failure c" "c \<noteq> ErrOutcomeUnknown" for c
    using fresh_commit_is_atomic [OF killed_world_facts(1,3) _ _ _ killed_world_facts(5) _ run] p(2) that
    by (simp add: killed_world_facts)
  then have "\<forall>c. r = Failure c \<and> c \<noteq> ErrOutcomeUnknown \<longrightarrow> fw_dir w' (S ''/a.txt'') = None"
    using scratch_outside [of "{S ''/.private''}" "\<lambda>_. None" "fw_dir w'" "S ''/a.txt''"] by (auto simp: S_def)
  with p(1) run show ?thesis by blast
qed

theorem recovery_decides_witness:
  "\<exists>p r w' s. make_plan zero_env (example_request ''a.txt'') = Inr p
     \<and> commit_fresh zero_env hi_staging hi_staging (S ''t'') hi_target p 1 None (killed_world 8) = (r, w')
     \<and> reconcile (pe_sha256 zero_env) hi_target p None (w'\<lparr>fw_turns := []\<rparr>) = (Success s, w'\<lparr>fw_turns := []\<rparr>)
     \<and> s \<noteq> RcOutcomeUnknown"
proof -
  obtain p where p: "make_plan zero_env (example_request ''a.txt'') = Inr p" "fp_operation p = Create"
      "validate_transaction_and_plan zero_env (S ''t'') hi_target p = Inr ()" using hi_plan by blast
  obtain r w' where run: "commit_fresh zero_env hi_staging hi_staging (S ''t'') hi_target p 1 None (killed_world 8) = (r, w')"
    by (metis surj_pair)
  have "\<exists>s. reconcile (pe_sha256 zero_env) hi_target p None (w'\<lparr>fw_turns := []\<rparr>) = (Success s, w'\<lparr>fw_turns := []\<rparr>) \<and> s \<noteq> RcOutcomeUnknown"
    using recovery_decides [OF killed_world_facts(1,3) _ _ _ killed_world_facts(5) _ p(3) _ _ run] p(2)
    by (auto simp: killed_world_facts(2,4) standing_def journal_of_plan_def)
  with p(1) run show ?thesis by blast
qed

end
