(* ===== verification/File_Change_Safety.thy ===== *)
theory File_Change_Safety
  imports File_Change_Atomic
begin

text \<open>
  What a commit may unlink while other programs work in the same directory. They may do anything, except
  to the private names of the commit.
\<close>

definition leaves_alone :: "rstring set \<Rightarrow> turn \<Rightarrow> bool" where
  "leaves_alone N t \<longleftrightarrow> (\<forall>d. \<forall>name\<in>N. tn_others t d name = d name)"

interpretation shared: disk_turns "leaves_alone N" "\<lambda>d d'. \<forall>name\<in>N. d' name = d name" for N
  by unfold_locales (simp_all add: leaves_alone_def quiet_def)

text \<open>Files that may be unlinked: the staged files of the commit, by inode, and files with the content of the base.\<close>

definition disposable :: "(byte list \<Rightarrow> byte list) \<Rightarrow> file_change_plan \<Rightarrow> nat set \<Rightarrow> dir_file \<Rightarrow> bool" where
  "disposable sha256 plan I f \<longleftrightarrow> df_inode f \<in> I \<or> state_digest (fp_base plan) = Some (content_digest sha256 (df_bytes f))"

lemma disposable_base: "state_matches sha256 (fp_base plan) (df_bytes f) \<Longrightarrow> disposable sha256 plan I f"
  by (auto simp: disposable_def state_matches_def split: file_change_content_state.splits)

definition own :: "nat set \<Rightarrow> rstring \<Rightarrow> directory \<Rightarrow> bool" where
  "own I name d \<longleftrightarrow> is_some_and (d name) (\<lambda>f. df_inode f \<in> I)"

lemma own_change [simp]: "(\<And>f. df_inode (g f) = df_inode f) \<Longrightarrow> own I name (change_inode inode g d) = own I name d"
  by (cases "d name") (auto simp: own_def change_inode_def is_some_and_def)

lemma own_moved: "\<forall>name\<in>N. d' name = d name \<Longrightarrow> name \<in> N \<Longrightarrow> own I name d' = own I name d"
  by (simp add: own_def)

lemma wp_discard_own:
  assumes "name \<in> N" and "own I name d" and "list_all (disposable sha256 plan I) rm"
    and "\<And>d' rm. list_all (disposable sha256 plan I) rm \<Longrightarrow> wp (leaves_alone N) m Q d' rm"
    and "\<And>d' rm. list_all (disposable sha256 plan I) rm \<Longrightarrow> Q Killed d' rm"
  shows "wp (leaves_alone N) (discard name m) Q d rm"
  unfolding discard_def using assms
  by (auto intro!: wp_bind shared.wp_remove simp: own_def is_some_and_def disposable_def)

lemma wp_fill_staged_own:
  assumes "name \<in> N" and "own I name d" and "list_all (disposable sha256 plan I) rm" and "inode \<in> I"
    and "\<And>d' rm. list_all (disposable sha256 plan I) rm \<Longrightarrow> Q Killed d' rm"
    and "\<And>d' rm c. list_all (disposable sha256 plan I) rm \<Longrightarrow> Q (Failure c) d' rm"
    and "\<And>d' rm. list_all (disposable sha256 plan I) rm \<Longrightarrow> own I name d' \<Longrightarrow>
      Q (Success \<lparr>sf_name = name, sf_inode = inode\<rparr>) d' rm"
  shows "wp (leaves_alone N) (fill_staged name inode content mode) Q d rm"
  unfolding fill_staged_def staged_or_discard_def using assms
  by (cases mode)
    (auto intro!: wp_control shared.wp_calls wp_discard_own [of _ _ I _ sha256 plan] simp: own_moved)

lemma wp_stage_own:
  assumes "set (sg_names s) \<subseteq> N" and "sg_inode s \<in> I" and "list_all (disposable sha256 plan I) rm"
    and "\<And>d' rm. list_all (disposable sha256 plan I) rm \<Longrightarrow> Q Killed d' rm"
    and "\<And>d' rm c. list_all (disposable sha256 plan I) rm \<Longrightarrow> Q (Failure c) d' rm"
    and "\<And>d' rm name. list_all (disposable sha256 plan I) rm \<Longrightarrow> name \<in> N \<Longrightarrow> own I name d' \<Longrightarrow>
      Q (Success \<lparr>sf_name = name, sf_inode = sg_inode s\<rparr>) d' rm"
  shows "wp (leaves_alone N) (stage s content mode) Q d rm"
proof -
  have "wp (leaves_alone N) (stage_file (sg_inode s) content mode names) Q d rm" if "set names \<subseteq> N" for names
    using that
  proof (induction names arbitrary: d)
    case Nil
    then show ?case using assms(3,5) by (auto intro!: wp_fail)
  next
    case (Cons name names)
    then show ?case
      using assms(2-6)
      by (auto intro!: wp_control shared.wp_calls wp_fill_staged_own [of _ _ I _ sha256 plan] simp: own_def is_some_and_def)
  qed
  moreover have "set (take 16 (sg_names s)) \<subseteq> N" using assms(1) by (auto dest: in_set_takeD)
  ultimately show ?thesis by (simp add: stage_def)
qed

lemma wp_reconcile_bound_any:
  assumes "\<And>d'. \<forall>name\<in>N. d' name = d name \<Longrightarrow> Q Killed d' rm" and "\<And>c d'. \<forall>name\<in>N. d' name = d name \<Longrightarrow> Q (Failure c) d' rm"
    and "\<And>r d'. \<forall>name\<in>N. d' name = d name \<Longrightarrow> Q (Success r) d' rm"
  shows "wp (leaves_alone N) (reconcile_bound sha256 target plan journal) Q d rm"
  using assms unfolding reconcile_bound_def reconcile_deleted_def
  by (cases "fp_operation plan")
    (auto intro!: wp_control shared.wp_calls split: option.split delete_journal_state.split)

lemma wp_guarded_own:
  assumes "wp (leaves_alone N) m (\<lambda>r d rm. case r of
      Killed \<Rightarrow> list_all (disposable sha256 plan I) rm
    | Failure c \<Rightarrow> list_all (disposable sha256 plan I) rm \<and> own I (sf_name s) d
    | Success x \<Rightarrow> Q (Success x) d rm) d rm" and "sf_name s \<in> N"
    and "\<And>d' rm. list_all (disposable sha256 plan I) rm \<Longrightarrow> Q Killed d' rm"
    and "\<And>d' rm c. list_all (disposable sha256 plan I) rm \<Longrightarrow> Q (Failure c) d' rm"
  shows "wp (leaves_alone N) (guarded s m) Q d rm"
  unfolding guarded_def
  by (rule wp_bind, rule wp_attempt, rule wp_mono [OF assms(1)])
    (auto intro!: wp_control wp_discard_own [of _ _ I _ sha256 plan] assms(2-4) split: answer.splits)

lemma wp_commit_create_own:
  assumes "set (sg_names staging) \<subseteq> N" and "sg_inode staging \<in> I" and "list_all (disposable sha256 plan I) rm"
  shows "wp (leaves_alone N) (commit_create sha256 staging transaction_id target plan committed_at)
    (\<lambda>r d' rm. list_all (disposable sha256 plan I) rm) d rm"
  using assms(3) unfolding commit_create_def Let_def publish_noreplace_def
  by (auto intro!: wp_control shared.wp_calls wp_reconcile_bound_any wp_stage_own [OF assms(1,2), of sha256 plan]
      wp_guarded_own [of _ _ sha256 plan I] simp: own_moved split: reconciliation.split)

lemma wp_rollback_own:
  assumes "sf_name s \<in> N" and "sf_inode s \<in> I" and "list_all (disposable sha256 plan I) rm"
    and "\<And>x d' rm. list_all (disposable sha256 plan I) rm \<Longrightarrow> Q (Success x) d' rm"
    and "\<And>d' rm. list_all (disposable sha256 plan I) rm \<Longrightarrow> Q Killed d' rm"
    and "\<And>c d' rm. list_all (disposable sha256 plan I) rm \<Longrightarrow> Q (Failure c) d' rm"
  shows "wp (leaves_alone N) (rollback_update_exchange sha256 target plan mode s) Q d rm"
  unfolding rollback_update_exchange_def read_exchanged_def remove_exchanged_def using assms
  by (auto intro!: wp_control shared.wp_calls simp: disposable_def)

lemma wp_exchange_target_own:
  assumes "sf_name s \<in> N" and "own I (sf_name s) d" and "list_all (disposable sha256 plan I) rm"
    and "\<And>x d' rm. list_all (disposable sha256 plan I) rm \<Longrightarrow> Q (Success x) d' rm"
    and "\<And>d' rm. list_all (disposable sha256 plan I) rm \<Longrightarrow> Q Killed d' rm"
    and "\<And>c d' rm. list_all (disposable sha256 plan I) rm \<Longrightarrow> Q (Failure c) d' rm"
  shows "wp (leaves_alone N) (guarded s (exchange_target sha256 target plan first_read s)) Q d rm"
  unfolding exchange_target_def ensure_state_matches_def using assms
  by (auto intro!: wp_control shared.wp_calls wp_guarded_own [of _ _ sha256 plan I] simp: own_moved)

lemma wp_displaced:
  assumes "sf_name s \<in> N" and "\<And>d'. Q Killed d' rm" and "\<And>c d'. Q (Failure c) d' rm"
    and "\<And>d' f. d' (sf_name s) = Some f \<Longrightarrow> state_matches sha256 (fp_base plan) (df_bytes f) \<Longrightarrow> Q (Success ()) d' rm"
  shows "wp (leaves_alone N) (displaced_validation sha256 plan second_read s) Q d rm"
  unfolding displaced_validation_def read_exchanged_def ensure_state_matches_def using assms
  by (auto intro!: wp_control shared.wp_calls)

lemma wp_commit_update_own:
  assumes "set (sg_names staging) \<subseteq> N" and "sg_inode staging \<in> I" and "list_all (disposable sha256 plan I) rm"
  shows "wp (leaves_alone N) (commit_update sha256 staging transaction_id target plan committed_at)
    (\<lambda>r d' rm. list_all (disposable sha256 plan I) rm) d rm"
  using assms(2,3) unfolding commit_update_def Let_def ensure_state_matches_def remove_exchanged_def
  by (auto intro!: wp_control shared.wp_calls wp_reconcile_bound_any wp_stage_own [OF assms(1,2), of sha256 plan]
      wp_exchange_target_own [of _ _ I _ sha256 plan] wp_displaced wp_rollback_own [of _ _ I sha256 plan]
      simp: disposable_base split: reconciliation.split)

lemma wp_commit_delete_own:
  "list_all (disposable sha256 plan I) rm \<Longrightarrow>
   wp (leaves_alone N) (commit_delete sha256 transaction_id target plan committed_at j)
    (\<lambda>r d' rm. list_all (disposable sha256 plan I) rm) d rm"
  unfolding commit_delete_def Let_def move_to_tombstone_def ensure_state_matches_def ensure_path_digest_def
  by (auto intro!: wp_control shared.wp_calls wp_reconcile_bound_any split: reconciliation.split delete_journal_state.split)

lemma wp_commit_own:
  assumes "set (sg_names staging) \<subseteq> N" and "sg_inode staging \<in> I" and "list_all (disposable (pe_sha256 env) plan I) rm"
  shows "wp (leaves_alone N) (commit env staging transaction_id target plan committed_at journal)
    (\<lambda>r d' rm. list_all (disposable (pe_sha256 env) plan I) rm) d rm"
proof -
  have keep: "wp (leaves_alone N) (dbind m (\<lambda>x. give (g x))) (\<lambda>r d' rm. list_all (disposable (pe_sha256 env) plan I) rm) d rm"
    if "wp (leaves_alone N) m (\<lambda>r d' rm. list_all (disposable (pe_sha256 env) plan I) rm) d rm" for m and g :: "'a \<Rightarrow> 'b"
    by (rule wp_bind, rule wp_mono [OF that]) (auto intro!: wp_give split: answer.split)
  have pair: "(\<lambda>(c, j). give (c, Some j)) = (\<lambda>x. give (fst x, Some (snd x)))" by auto
  show ?thesis
    unfolding commit_def Let_def pair using assms
    by (cases "fp_operation plan"; cases journal)
      (auto intro!: wp_bind [of _ "lift_result _"] wp_lift wp_fail keep wp_commit_create_own wp_commit_update_own wp_commit_delete_own)
qed

lemma wp_finalize_own:
  assumes "jn_tombstone_path j \<in> N" and "state_digest (fp_base plan) = Some (jn_base_digest j)"
    and "list_all (disposable sha256 plan I) rm"
  shows "wp (leaves_alone N) (finalize_delete sha256 target j now) (\<lambda>r d' rm. list_all (disposable sha256 plan I) rm) d rm"
  unfolding finalize_delete_def Let_def ensure_path_digest_def state_digest_matches_def using assms
  by (auto intro!: wp_control shared.wp_calls simp: disposable_def)

lemma wp_rollback_delete_own:
  "list_all (disposable sha256 plan I) rm \<Longrightarrow>
   wp (leaves_alone N) (rollback_delete sha256 target j now) (\<lambda>r d' rm. list_all (disposable sha256 plan I) rm) d rm"
  unfolding rollback_delete_def Let_def ensure_path_digest_def
  by (auto intro!: wp_control shared.wp_calls)


lemma wp_reconcile_any:
  assumes "\<And>d'. Q Killed d' rm" and "\<And>c d'. Q (Failure c) d' rm" and "\<And>r d'. Q (Success r) d' rm"
  shows "wp (leaves_alone N) (reconcile sha256 target plan journal) Q d rm"
  unfolding reconcile_def using assms by (auto intro!: wp_control shared.wp_calls wp_reconcile_bound_any)

lemma wp_reconcile_attempted_own:
  assumes "set (sg_names again) \<subseteq> N" and "sg_inode again \<in> I" and "list_all (disposable (pe_sha256 env) plan I) rm"
  shows "wp (leaves_alone N)
    (reconcile_attempted_outcome_unknown env again transaction_id target plan committed_at journal code)
    (\<lambda>r d' rm. list_all (disposable (pe_sha256 env) plan I) rm) d rm"
proof -
  have retry: "wp (leaves_alone N) (attempt (commit env again transaction_id target plan committed_at journal))
      (\<lambda>r d' rm. list_all (disposable (pe_sha256 env) plan I) rm) d rm" for d
    by (rule wp_attempt, rule wp_mono [OF wp_commit_own [OF assms]]) (auto split: answer.split)
  show ?thesis
    unfolding reconcile_attempted_outcome_unknown_def using assms(3)
    by (auto intro!: wp_bind wp_attempt [of _ "reconcile _ _ _ _"] wp_fail wp_give wp_reconcile_any wp_mono [OF retry]
        split: answer.split reconciliation.split sum.split)
qed

lemma wp_commit_fresh_own:
  assumes "set (sg_names staging) \<subseteq> N" and "sg_inode staging \<in> I" and "set (sg_names again) \<subseteq> N" and "sg_inode again \<in> I"
    and "list_all (disposable (pe_sha256 env) plan I) rm"
  shows "wp (leaves_alone N) (commit_fresh env staging again transaction_id target plan committed_at journal)
    (\<lambda>r d' rm. list_all (disposable (pe_sha256 env) plan I) rm) d rm"
proof -
  have first: "wp (leaves_alone N) (attempt (commit env staging transaction_id target plan committed_at journal))
      (\<lambda>r d' rm. list_all (disposable (pe_sha256 env) plan I) rm) d rm" for d
    by (rule wp_attempt, rule wp_mono [OF wp_commit_own [OF assms(1,2,5)]]) (auto split: answer.split)
  show ?thesis
    unfolding commit_fresh_def using assms(3-5)
    by (auto intro!: wp_bind wp_lift wp_check wp_fail wp_give wp_if wp_reconcile_any wp_mono [OF first] wp_reconcile_attempted_own
        split: answer.split sum.split)
qed

section \<open>Any history of calls\<close>

text \<open>
  The calls the committer offers for a transaction. A history goes on after an error and after the process
  was killed: the next call is then made by the process that recovers the transaction.
\<close>

datatype committer_call =
    CallPrepare nat
  | CallReconcile "delete_journal option"
  | CallCommit staging nat "delete_journal option"
  | CallCommitFresh staging staging nat "delete_journal option"
  | CallFinalize delete_journal nat
  | CallRollback delete_journal nat

definition ignoring :: "'a disk \<Rightarrow> disk_world \<Rightarrow> disk_world" where
  "ignoring m w = snd (m w)"

fun run_call :: "plan_env \<Rightarrow> rstring \<Rightarrow> resolved_target \<Rightarrow> file_change_plan \<Rightarrow> committer_call \<Rightarrow> disk_world \<Rightarrow> disk_world" where
  "run_call env transaction_id target plan (CallPrepare now) =
     ignoring (prepare_delete env transaction_id target plan now)"
| "run_call env transaction_id target plan (CallReconcile journal) =
     ignoring (reconcile (pe_sha256 env) target plan journal)"
| "run_call env transaction_id target plan (CallCommit staging at journal) =
     ignoring (commit env staging transaction_id target plan at journal)"
| "run_call env transaction_id target plan (CallCommitFresh staging again at journal) =
     ignoring (commit_fresh env staging again transaction_id target plan at journal)"
| "run_call env transaction_id target plan (CallFinalize j now) = ignoring (finalize_delete (pe_sha256 env) target j now)"
| "run_call env transaction_id target plan (CallRollback j now) = ignoring (rollback_delete (pe_sha256 env) target j now)"

definition run_calls ::
  "plan_env \<Rightarrow> rstring \<Rightarrow> resolved_target \<Rightarrow> file_change_plan \<Rightarrow> committer_call list \<Rightarrow> disk_world \<Rightarrow> disk_world" where
  "run_calls env transaction_id target plan calls w = fold (run_call env transaction_id target plan) calls w"

text \<open>The private names and inodes of a call are in \<open>N\<close> and \<open>I\<close>; a journal to finalize is one of the plan.\<close>

fun call_within :: "rstring set \<Rightarrow> nat set \<Rightarrow> file_change_plan \<Rightarrow> committer_call \<Rightarrow> bool" where
  "call_within N I plan (CallCommit staging at journal) = (set (sg_names staging) \<subseteq> N \<and> sg_inode staging \<in> I)"
| "call_within N I plan (CallCommitFresh staging again at journal) =
     (set (sg_names staging) \<subseteq> N \<and> sg_inode staging \<in> I \<and> set (sg_names again) \<subseteq> N \<and> sg_inode again \<in> I)"
| "call_within N I plan (CallFinalize j now) =
     (jn_tombstone_path j \<in> N \<and> state_digest (fp_base plan) = Some (jn_base_digest j))"
| "call_within N I plan c = True"

definition unlinked_safely :: "rstring set \<Rightarrow> (dir_file \<Rightarrow> bool) \<Rightarrow> disk_world \<Rightarrow> bool" where
  "unlinked_safely N P w \<longleftrightarrow> list_all (leaves_alone N) (fw_turns w) \<and> list_all P (fw_removed w)"

lemma ignoring_keeps:
  assumes "wp (leaves_alone N) m (\<lambda>r d' rm. list_all P rm) (fw_dir w) (fw_removed w)" and "unlinked_safely N P w"
  shows "unlinked_safely N P (ignoring m w)"
  using assms by (cases "m w") (auto simp: wp_def ignoring_def unlinked_safely_def)

lemma wp_prepare_any:
  "P rm \<Longrightarrow> wp (leaves_alone N) (prepare_delete env transaction_id target plan now) (\<lambda>r d' rm. P rm) d rm"
  unfolding prepare_delete_def Let_def by (auto intro!: wp_control shared.wp_calls)

lemma run_call_keeps:
  assumes "unlinked_safely N (disposable (pe_sha256 env) plan I) w" and "call_within N I plan c"
  shows "unlinked_safely N (disposable (pe_sha256 env) plan I) (run_call env transaction_id target plan c w)"
proof -
  have rm: "list_all (disposable (pe_sha256 env) plan I) (fw_removed w)" using assms(1) by (simp add: unlinked_safely_def)
  show ?thesis
    using assms(2) rm
    by (cases c)
      (auto intro!: ignoring_keeps [OF _ assms(1)] wp_commit_own wp_commit_fresh_own wp_finalize_own wp_rollback_delete_own
        wp_reconcile_any wp_prepare_any)
qed


interpretation unlinking: step_invariant
  "\<lambda>w w'. \<exists>c. call_within N I plan c \<and> w' = run_call env transaction_id target plan c w"
  "unlinked_safely N (disposable (pe_sha256 env) plan I)" for N I plan env transaction_id target
  by unfold_locales (auto intro: run_call_keeps)

lemma history_steps:
  assumes "list_all (call_within N I plan) calls"
  shows "(\<lambda>w w'. \<exists>c. call_within N I plan c \<and> w' = run_call env transaction_id target plan c w)\<^sup>*\<^sup>* w
    (run_calls env transaction_id target plan calls w)"
  using assms
proof (induction calls arbitrary: w)
  case (Cons c calls)
  then show ?case
    by (auto simp: run_calls_def intro: converse_rtranclp_into_rtranclp)
qed (simp add: run_calls_def)


text \<open>Another program puts its own file at the target before every call of the commit.\<close>

definition rival_turn :: turn where
  "rival_turn = quiet\<lparr>tn_others := (\<lambda>d. d(S ''/a.txt'' \<mapsto> \<lparr>df_inode = 3, df_bytes = [104], df_mode = 420\<rparr>))\<rparr>"

definition rival_world :: disk_world where
  "rival_world = \<lparr>fw_dir = (\<lambda>_. None), fw_turns = replicate 3 quiet @ replicate 9 rival_turn, fw_removed = []\<rparr>"


end
