(* ===== verification/File_Change_Errors.thy ===== *)
theory File_Change_Errors
  imports File_Change_Model Session_Watcher
begin

text \<open>
  The codes of file change errors, \<open>src/crates/core/src/file_change/error.rs\<close>: the category and the recovery the model is told, the name
  on the wire and the message for the user.
\<close>

section \<open>Codes\<close>

datatype error_category = CategoryWire | CategorySemantic | CategoryPath | CategoryAuthorization | CategoryPrecondition | CategoryExecution

datatype error_recovery =
    CorrectArguments | UseStagedChange | UseAbsolutePath | CreateParent | RequestPermission
  | ChooseRegularFile | UseDedicatedTool | RereadFile | UseUpdateOrChooseAnotherPath
  | SkipOrReviseEdit | InspectAuthoritativeState | DoNotRetry

fun error_code_category :: "file_change_error_code \<Rightarrow> error_category" where
  "error_code_category InvalidArguments = CategoryWire"
| "error_code_category UnknownField = CategoryWire"
| "error_code_category IllegalFieldCombination = CategorySemantic"
| "error_code_category ContentTooLarge = CategorySemantic"
| "error_code_category WorkspaceRequired = CategoryPath"
| "error_code_category PermissionDenied = CategoryAuthorization"
| "error_code_category ParentMissing = CategoryPath"
| "error_code_category SymlinkForbidden = CategoryPath"
| "error_code_category UnsupportedFileType = CategoryPath"
| "error_code_category NotRegularFile = CategoryPath"
| "error_code_category HardLinkForbidden = CategoryPath"
| "error_code_category FileExists = CategoryPrecondition"
| "error_code_category FileMissing = CategoryPrecondition"
| "error_code_category RevisionConflict = CategoryPrecondition"
| "error_code_category MatchNotFound = CategoryPrecondition"
| "error_code_category AmbiguousMatch = CategoryPrecondition"
| "error_code_category NoChange = CategoryPrecondition"
| "error_code_category ObservationRequired = CategoryPrecondition"
| "error_code_category ObservationExpired = CategoryPrecondition"
| "error_code_category ObservationOwnerMismatch = CategoryPrecondition"
| "error_code_category ObservationPathMismatch = CategoryPrecondition"
| "error_code_category ObservationStale = CategoryPrecondition"
| "error_code_category TransactionNotFound = CategoryPrecondition"
| "error_code_category TransactionOwnerMismatch = CategoryPrecondition"
| "error_code_category TransactionExpired = CategoryPrecondition"
| "error_code_category TransactionSettled = CategoryPrecondition"
| "error_code_category DraftRevisionConflict = CategoryPrecondition"
| "error_code_category MutationOutOfOrder = CategoryPrecondition"
| "error_code_category ReplayMismatch = CategoryPrecondition"
| "error_code_category ErrFailed = CategoryExecution"
| "error_code_category ErrConflict = CategoryExecution"
| "error_code_category ErrOutcomeUnknown = CategoryExecution"

fun error_code_recovery :: "file_change_error_code \<Rightarrow> error_recovery" where
  "error_code_recovery InvalidArguments = CorrectArguments"
| "error_code_recovery UnknownField = CorrectArguments"
| "error_code_recovery IllegalFieldCombination = CorrectArguments"
| "error_code_recovery ContentTooLarge = UseStagedChange"
| "error_code_recovery WorkspaceRequired = UseAbsolutePath"
| "error_code_recovery PermissionDenied = RequestPermission"
| "error_code_recovery ParentMissing = CreateParent"
| "error_code_recovery SymlinkForbidden = ChooseRegularFile"
| "error_code_recovery UnsupportedFileType = UseDedicatedTool"
| "error_code_recovery NotRegularFile = ChooseRegularFile"
| "error_code_recovery HardLinkForbidden = ChooseRegularFile"
| "error_code_recovery FileExists = UseUpdateOrChooseAnotherPath"
| "error_code_recovery FileMissing = RereadFile"
| "error_code_recovery RevisionConflict = RereadFile"
| "error_code_recovery MatchNotFound = RereadFile"
| "error_code_recovery AmbiguousMatch = RereadFile"
| "error_code_recovery NoChange = SkipOrReviseEdit"
| "error_code_recovery ObservationRequired = RereadFile"
| "error_code_recovery ObservationExpired = RereadFile"
| "error_code_recovery ObservationOwnerMismatch = RereadFile"
| "error_code_recovery ObservationPathMismatch = RereadFile"
| "error_code_recovery ObservationStale = RereadFile"
| "error_code_recovery TransactionNotFound = DoNotRetry"
| "error_code_recovery TransactionOwnerMismatch = DoNotRetry"
| "error_code_recovery TransactionExpired = DoNotRetry"
| "error_code_recovery TransactionSettled = DoNotRetry"
| "error_code_recovery DraftRevisionConflict = InspectAuthoritativeState"
| "error_code_recovery MutationOutOfOrder = InspectAuthoritativeState"
| "error_code_recovery ReplayMismatch = DoNotRetry"
| "error_code_recovery ErrFailed = InspectAuthoritativeState"
| "error_code_recovery ErrConflict = InspectAuthoritativeState"
| "error_code_recovery ErrOutcomeUnknown = DoNotRetry"

fun error_code_name :: "file_change_error_code \<Rightarrow> string" where
  "error_code_name InvalidArguments = ''invalid_arguments''"
| "error_code_name UnknownField = ''unknown_field''"
| "error_code_name IllegalFieldCombination = ''illegal_field_combination''"
| "error_code_name ContentTooLarge = ''content_too_large''"
| "error_code_name WorkspaceRequired = ''workspace_required''"
| "error_code_name PermissionDenied = ''permission_denied''"
| "error_code_name ParentMissing = ''parent_missing''"
| "error_code_name SymlinkForbidden = ''symlink_forbidden''"
| "error_code_name UnsupportedFileType = ''unsupported_file_type''"
| "error_code_name NotRegularFile = ''not_regular_file''"
| "error_code_name HardLinkForbidden = ''hard_link_forbidden''"
| "error_code_name FileExists = ''file_exists''"
| "error_code_name FileMissing = ''file_missing''"
| "error_code_name RevisionConflict = ''revision_conflict''"
| "error_code_name MatchNotFound = ''match_not_found''"
| "error_code_name AmbiguousMatch = ''ambiguous_match''"
| "error_code_name NoChange = ''no_change''"
| "error_code_name ObservationRequired = ''observation_required''"
| "error_code_name ObservationExpired = ''observation_expired''"
| "error_code_name ObservationOwnerMismatch = ''observation_owner_mismatch''"
| "error_code_name ObservationPathMismatch = ''observation_path_mismatch''"
| "error_code_name ObservationStale = ''observation_stale''"
| "error_code_name TransactionNotFound = ''transaction_not_found''"
| "error_code_name TransactionOwnerMismatch = ''transaction_owner_mismatch''"
| "error_code_name TransactionExpired = ''transaction_expired''"
| "error_code_name TransactionSettled = ''transaction_settled''"
| "error_code_name DraftRevisionConflict = ''draft_revision_conflict''"
| "error_code_name MutationOutOfOrder = ''mutation_out_of_order''"
| "error_code_name ReplayMismatch = ''replay_mismatch''"
| "error_code_name ErrFailed = ''failed''"
| "error_code_name ErrConflict = ''conflict''"
| "error_code_name ErrOutcomeUnknown = ''outcome_unknown''"

fun safe_message :: "file_change_error_code \<Rightarrow> rstring" where
  "safe_message InvalidArguments = from_code_points [25991, 20214, 20462, 25913, 21442, 25968, 26080, 25928, 12290]"
| "safe_message UnknownField = from_code_points [25991, 20214, 20462, 25913, 21442, 25968, 26080, 25928, 12290]"
| "safe_message IllegalFieldCombination = from_code_points [25991, 20214, 20462, 25913, 21442, 25968, 26080, 25928, 12290]"
| "safe_message ContentTooLarge = from_code_points [25991, 20214, 20869, 23481, 36807, 22823, 12290]"
| "safe_message WorkspaceRequired = from_code_points [24403, 21069, 27809, 26377, 32, 119, 111, 114, 107, 115, 112, 97, 99, 101, 65307, 35831, 20351, 29992, 32477, 23545, 36335, 24452, 25110, 31995, 32479, 36335, 24452, 21035, 21517, 12290]"
| "safe_message PermissionDenied = from_code_points [24403, 21069, 26435, 38480, 19981, 20801, 35768, 20462, 25913, 27492, 25991, 20214, 12290]"
| "safe_message ParentMissing = from_code_points [30446, 26631, 25991, 20214, 30340, 29238, 30446, 24405, 19981, 23384, 22312, 12290]"
| "safe_message SymlinkForbidden = from_code_points [19981, 20801, 35768, 36890, 36807, 31526, 21495, 38142, 25509, 20462, 25913, 25991, 20214, 12290]"
| "safe_message UnsupportedFileType = from_code_points [27492, 25991, 20214, 31867, 22411, 38656, 35201, 20351, 29992, 19987, 29992, 24037, 20855, 12290]"
| "safe_message NotRegularFile = from_code_points [30446, 26631, 24517, 39035, 26159, 23433, 20840, 30340, 26222, 36890, 25991, 20214, 12290]"
| "safe_message HardLinkForbidden = from_code_points [30446, 26631, 24517, 39035, 26159, 23433, 20840, 30340, 26222, 36890, 25991, 20214, 12290]"
| "safe_message FileExists = from_code_points [25991, 20214, 24050, 23384, 22312, 12290]"
| "safe_message FileMissing = from_code_points [25991, 20214, 19981, 23384, 22312, 12290]"
| "safe_message RevisionConflict = from_code_points [25991, 20214, 24050, 21457, 29983, 21464, 21270, 65292, 35831, 37325, 26032, 35835, 21462, 21518, 20877, 20462, 25913, 12290]"
| "safe_message MatchNotFound = from_code_points [26410, 25214, 21040, 35201, 20462, 25913, 30340, 20934, 30830, 20869, 23481, 12290]"
| "safe_message AmbiguousMatch = from_code_points [35201, 20462, 25913, 30340, 20869, 23481, 19981, 21807, 19968, 65292, 35831, 25552, 20379, 26356, 31934, 30830, 30340, 19978, 19979, 25991, 12290]"
| "safe_message NoChange = from_code_points [20462, 25913, 21518, 30340, 20869, 23481, 19982, 24403, 21069, 25991, 20214, 30456, 21516, 12290]"
| "safe_message ObservationRequired = from_code_points [20462, 25913, 21069, 24517, 39035, 37325, 26032, 35835, 21462, 20934, 30830, 30340, 30446, 26631, 25991, 20214, 12290]"
| "safe_message ObservationExpired = from_code_points [25991, 20214, 35835, 21462, 20973, 25454, 24050, 36807, 26399, 65292, 35831, 37325, 26032, 35835, 21462, 21518, 20877, 20462, 25913, 12290]"
| "safe_message ObservationOwnerMismatch = from_code_points [35813, 25991, 20214, 35835, 21462, 20973, 25454, 19981, 23646, 20110, 24403, 21069, 20219, 21153, 65292, 35831, 37325, 26032, 35835, 21462, 12290]"
| "safe_message ObservationPathMismatch = from_code_points [25991, 20214, 35835, 21462, 36335, 24452, 19982, 20462, 25913, 30446, 26631, 19981, 19968, 33268, 65292, 35831, 37325, 26032, 35835, 21462, 20934, 30830, 36335, 24452, 12290]"
| "safe_message ObservationStale = from_code_points [25991, 20214, 22312, 35835, 21462, 21518, 24050, 21457, 29983, 21464, 21270, 65292, 35831, 37325, 26032, 35835, 21462, 21518, 20877, 20462, 25913, 12290]"
| "safe_message TransactionNotFound = from_code_points [26410, 25214, 21040, 25991, 20214, 20462, 25913, 20107, 21153, 12290]"
| "safe_message TransactionOwnerMismatch = from_code_points [35813, 25991, 20214, 20462, 25913, 20107, 21153, 19981, 23646, 20110, 24403, 21069, 20219, 21153, 12290]"
| "safe_message TransactionExpired = from_code_points [25991, 20214, 20462, 25913, 20107, 21153, 24050, 36807, 26399, 12290]"
| "safe_message TransactionSettled = from_code_points [25991, 20214, 20462, 25913, 20107, 21153, 24050, 32467, 31639, 65292, 21518, 32493, 20462, 25913, 35831, 24320, 22987, 26032, 20107, 21153, 12290]"
| "safe_message DraftRevisionConflict = from_code_points [25991, 20214, 33609, 31295, 24050, 21457, 29983, 21464, 21270, 65292, 35831, 20808, 26597, 35810, 24403, 21069, 29366, 24577, 12290]"
| "safe_message MutationOutOfOrder = from_code_points [25991, 20214, 33609, 31295, 20462, 25913, 39034, 24207, 19981, 27491, 30830, 65292, 35831, 20351, 29992, 36820, 22238, 30340, 32, 110, 101, 120, 116, 73, 110, 100, 101, 120, 12290]"
| "safe_message ReplayMismatch = from_code_points [37325, 35797, 30340, 33609, 31295, 20462, 25913, 19982, 21407, 35831, 27714, 19981, 19968, 33268, 12290]"
| "safe_message ErrFailed = from_code_points [25991, 20214, 20462, 25913, 22833, 36133, 12290]"
| "safe_message ErrConflict = from_code_points [25991, 20214, 20462, 25913, 21457, 29983, 20914, 31361, 12290]"
| "safe_message ErrOutcomeUnknown = from_code_points [26080, 27861, 30830, 35748, 25991, 20214, 20462, 25913, 32467, 26524, 65292, 35831, 20808, 26816, 26597, 25991, 20214, 24403, 21069, 29366, 24577, 12290]"

end
