(* ===== verification/File_Change_Live.thy ===== *)
theory File_Change_Live
  imports File_Change_Atomic
begin

text \<open>
  A commit that nothing disturbs and whose system calls succeed goes through.
\<close>

section \<open>Quiet runs\<close>

abbreviation all_quiet :: "turn \<Rightarrow> bool" where
  "all_quiet \<equiv> (\<lambda>t. t = quiet)"

lemma wp_quiet_call: "wp all_quiet (body quiet) Q d rm \<Longrightarrow> wp all_quiet (call body) Q d rm"
  unfolding wp_def
proof (intro allI impI)
  fix w :: disk_world
  assume body: "\<forall>w. fw_dir w = d \<and> fw_removed w = rm \<and> list_all all_quiet (fw_turns w) \<longrightarrow>
      (case body quiet w of (r, w') \<Rightarrow> list_all all_quiet (fw_turns w') \<and> Q r (fw_dir w') (fw_removed w'))"
    and w: "fw_dir w = d \<and> fw_removed w = rm \<and> list_all all_quiet (fw_turns w)"
  obtain rest where turn: "(case fw_turns w of [] \<Rightarrow> (quiet, []) | t # rest \<Rightarrow> (t, rest)) = (quiet, rest)" "list_all all_quiet rest"
    using w by (cases "fw_turns w") auto
  have "call body w = body quiet (w\<lparr>fw_dir := d, fw_turns := rest\<rparr>)"
    unfolding call_def turn using w by (simp add: quiet_def)
  with body [rule_format, of "w\<lparr>fw_dir := d, fw_turns := rest\<rparr>"] w turn(2)
  show "case call body w of (r, w') \<Rightarrow> list_all all_quiet (fw_turns w') \<and> Q r (fw_dir w') (fw_removed w')" by simp
qed

lemma quiet_turn [simp]: "or_error quiet m = m" "or_io quiet n = n"
  by (simp_all add: or_error_def or_io_def quiet_def)

lemma wp_quiet_revalidate: "Q (Success ()) d rm \<Longrightarrow> wp all_quiet revalidate Q d rm"
  unfolding revalidate_def by (rule wp_quiet_call) (simp add: wp_give)

lemma wp_quiet_read: "Q (Success (d path)) d rm \<Longrightarrow> wp all_quiet (read_optional path) Q d rm"
  unfolding read_optional_def by (rule wp_quiet_call) (simp add: wp_def give_def)

lemma wp_quiet_plain: "Q (Success (Inr ())) d rm \<Longrightarrow> wp all_quiet plain_call Q d rm"
  unfolding plain_call_def by (rule wp_quiet_call) (simp add: wp_give)

lemma wp_quiet_sync: "Q (Success ()) d rm \<Longrightarrow> wp all_quiet sync_after_publication Q d rm"
  unfolding sync_after_publication_def by (auto intro!: wp_bind wp_quiet_plain wp_give)

lemma wp_quiet_rename:
  "d source \<noteq> None \<Longrightarrow> d target = None \<Longrightarrow> Q (Success (Inr ())) (d(source := None, target := d source)) rm
   \<Longrightarrow> wp all_quiet (rename_noreplace source target) Q d rm"
  unfolding rename_noreplace_def by (rule wp_quiet_call) (auto simp: wp_def give_def set_dir_def)

lemma wp_quiet_exchange:
  "d source \<noteq> None \<Longrightarrow> d target \<noteq> None \<Longrightarrow> Q (Success (Inr ())) (d(source := d target, target := d source)) rm
   \<Longrightarrow> wp all_quiet (exchange source target) Q d rm"
  unfolding exchange_def by (rule wp_quiet_call) (auto simp: wp_def give_def set_dir_def)

lemma wp_quiet_remove:
  "d path \<noteq> None \<Longrightarrow> Q (Success (Inr ())) (d(path := None)) (rm @ [the (d path)]) \<Longrightarrow> wp all_quiet (remove path) Q d rm"
  unfolding remove_def by (rule wp_quiet_call) (auto simp: wp_def give_def)

lemma wp_quiet_create:
  "(d name \<noteq> None \<Longrightarrow> Q (Success (Inl KindAlreadyExists)) d rm) \<Longrightarrow>
   (d name = None \<Longrightarrow> Q (Success (Inr ())) (d(name \<mapsto> \<lparr>df_inode = inode, df_bytes = [], df_mode = 384\<rparr>)) rm)
   \<Longrightarrow> wp all_quiet (create_private name inode) Q d rm"
  unfolding create_private_def by (rule wp_quiet_call) (simp add: wp_def give_def set_dir_def)

lemma wp_quiet_write:
  "Q (Success (Inr ())) (change_inode inode f d) rm \<Longrightarrow> wp all_quiet (write_inode inode f) Q d rm"
  unfolding write_inode_def by (rule wp_quiet_call) (simp add: wp_def give_def set_dir_def)

lemma wp_quiet_required: "d path \<noteq> None \<Longrightarrow> Q (Success (the (d path))) d rm \<Longrightarrow> wp all_quiet (read_required path) Q d rm"
  unfolding read_required_def by (auto intro!: wp_bind wp_quiet_read wp_give)

lemmas wp_quiet =
  wp_quiet_revalidate wp_quiet_read wp_quiet_plain wp_quiet_sync wp_quiet_rename wp_quiet_exchange wp_quiet_remove
  wp_quiet_write wp_quiet_required

definition free_name :: "staging \<Rightarrow> directory \<Rightarrow> bool" where
  "free_name staging d \<longleftrightarrow> (\<exists>name \<in> set (take 16 (sg_names staging)). d name = None)"

lemma wp_quiet_stage:
  assumes "free_name s d" and "fresh_inode (sg_inode s) d"
    and "path \<notin> set (sg_names s)"
    and "\<And>name. d name = None \<Longrightarrow> name \<noteq> path \<Longrightarrow> path \<noteq> name \<Longrightarrow>
      Q (Success \<lparr>sf_name = name, sf_inode = sg_inode s\<rparr>) (d(name \<mapsto> private_file (sg_inode s) content mode)) rm"
  shows "wp all_quiet (stage s content mode) Q d rm"
proof -
  have fill: "wp all_quiet (fill_staged name (sg_inode s) content mode) Q
      (d(name \<mapsto> \<lparr>df_inode = sg_inode s, df_bytes = [], df_mode = 384\<rparr>)) rm" if "d name = None" "name \<noteq> path" for name
    unfolding fill_staged_def staged_or_discard_def using assms(2) assms(4) [of name] that
    by (cases mode) (auto intro!: wp_bind wp_quiet wp_give simp: change_fresh_inode private_file_def)
  have "wp all_quiet (stage_file (sg_inode s) content mode names) Q d rm"
    if "\<exists>name \<in> set names. d name = None" and "set names \<subseteq> set (sg_names s)" for names
    using that
  proof (induction names)
    case (Cons name names)
    then have "name \<noteq> path" using assms(3) by auto
    moreover have "wp all_quiet (stage_file (sg_inode s) content mode names) Q d rm" if "d name \<noteq> None"
      using Cons that by auto
    ultimately show ?case by (auto intro!: wp_bind wp_quiet_create fill)
  qed simp
  from this [OF assms(1) [unfolded free_name_def]] show ?thesis by (auto simp: stage_def dest: in_set_takeD)
qed

lemma wp_quiet_reconcile_bound:
  assumes "journal_of_plan sha256 transaction_id target plan journal"
    and "Q (Success (standing sha256 (rt_absolute_path target) plan journal d)) d rm"
  shows "wp all_quiet (reconcile_bound sha256 target plan journal) Q d rm"
proof -
  have deleted: "wp all_quiet (reconcile_deleted sha256 target plan journal) Q d rm"
    if op: "fp_operation plan = Delete" and none: "d (rt_absolute_path target) = None"
  proof -
    obtain j where j: "journal = Some j" "validate_delete_journal sha256 transaction_id target plan j = Inr ()" "jn_state j = Prepared"
      using assms(1) op by (auto simp: journal_of_plan_def is_some_and_def split: option.splits)
    show ?thesis
      using op none assms(2) j(2,3) unfolding reconcile_deleted_def j(1)
      by (auto intro!: wp_bind wp_lift wp_check wp_quiet wp_give simp: valid_journal standing_def)
  qed
  show ?thesis
    unfolding reconcile_bound_def using assms(2) deleted
    by (cases "fp_operation plan"; cases "d (rt_absolute_path target)")
      (auto intro!: wp_bind wp_quiet wp_give simp: standing_def)
qed

section \<open>Commits that go through\<close>

definition succeeds :: "'a answer \<Rightarrow> directory \<Rightarrow> dir_file list \<Rightarrow> bool" where
  "succeeds r d rm \<longleftrightarrow> (\<exists>x. r = Success x)"

lemma succeeds_simps [simp]: "succeeds (Success x) d rm"
  by (simp add: succeeds_def)

text \<open>A plan that may be committed: its private names and the tombstone are free.\<close>

definition ready :: "plan_env \<Rightarrow> staging \<Rightarrow> rstring \<Rightarrow> resolved_target \<Rightarrow> file_change_plan \<Rightarrow> delete_journal option \<Rightarrow> directory \<Rightarrow> bool" where
  "ready env staging transaction_id target plan journal d \<longleftrightarrow>
     validate_transaction_and_plan env transaction_id target plan = Inr ()
     \<and> journal_of_plan (pe_sha256 env) transaction_id target plan journal \<and> (fp_operation plan \<noteq> Delete \<longrightarrow> journal = None)
     \<and> standing (pe_sha256 env) (rt_absolute_path target) plan journal d = RcDefinitelyNotExecuted
     \<and> (fp_operation plan \<noteq> Delete \<longrightarrow> free_name staging d) \<and> rt_absolute_path target \<notin> set (sg_names staging)
     \<and> fresh_inode (sg_inode staging) d \<and> is_none_or journal (\<lambda>j. d (jn_tombstone_path j) = None)"

lemma planned_content:
  assumes "validate_transaction_and_plan env transaction_id target plan = Inr ()" and "fp_operation plan \<noteq> Delete"
  shows "\<exists>content. required_target_content plan = Inr content"
proof -
  have "plan_validate env plan = Inr ()" "operation_states_match (fp_operation plan) (fp_base plan) (fp_target plan)"
    using assms(1) by (auto simp: validate_transaction_and_plan_def first_error_iff simp del: first_error.simps)
  with plan_validate_cases(2) [of env plan] assms(2) show ?thesis
    by (cases "fp_operation plan"; cases "fp_base plan"; cases "fp_target plan"; cases "fp_target_content plan")
      (auto simp: content_matches_state_def operation_states_match_def required_target_content_def)
qed

lemma live_create:
  assumes "ready env staging transaction_id target plan None d" and "fp_operation plan = Create"
  shows "wp all_quiet (commit_create (pe_sha256 env) staging transaction_id target plan at) succeeds d rm"
proof -
  note r = assms(1) [unfolded ready_def]
  have None: "d (rt_absolute_path target) = None" using standing_base [of _ _ plan] r assms(2) by fastforce
  obtain content where "required_target_content plan = Inr content" using planned_content [of env transaction_id target plan] r assms(2) by auto
  then show ?thesis
    using r None assms(2) unfolding commit_create_def Let_def publish_noreplace_def guarded_def
    by (auto intro!: wp_bind wp_lift wp_check wp_attempt wp_map_err wp_quiet wp_give wp_quiet_reconcile_bound [where transaction_id = transaction_id]
        wp_quiet_stage [where path = "rt_absolute_path target"])
qed

lemma live_update:
  assumes "ready env staging transaction_id target plan None d" and "fp_operation plan = Update"
  shows "wp all_quiet (commit_update (pe_sha256 env) staging transaction_id target plan at) succeeds d rm"
proof -
  note r = assms(1) [unfolded ready_def]
  obtain f where f: "d (rt_absolute_path target) = Some f" "state_matches (pe_sha256 env) (fp_base plan) (df_bytes f)"
    using standing_base [of "pe_sha256 env" "rt_absolute_path target" plan None d] r assms(2)
    by (auto simp: is_some_and_def split: option.splits)
  obtain content where "required_target_content plan = Inr content"
    using planned_content [of env transaction_id target plan] r assms(2) by auto
  then show ?thesis
    using r f assms(2) unfolding commit_update_def Let_def exchange_target_def displaced_validation_def read_exchanged_def remove_exchanged_def
      ensure_state_matches_def guarded_def
    by (auto intro!: wp_bind wp_lift wp_check wp_attempt wp_map_err wp_quiet wp_give
        wp_quiet_reconcile_bound [where transaction_id = transaction_id] wp_quiet_stage [where path = "rt_absolute_path target"])
qed

lemma live_delete:
  assumes "ready env staging transaction_id target plan (Some j) d" and "fp_operation plan = Delete"
  shows "wp all_quiet (commit_delete (pe_sha256 env) transaction_id target plan at j) succeeds d rm"
proof -
  note r = assms(1) [unfolded ready_def]
  obtain f where f: "d (rt_absolute_path target) = Some f" "state_matches (pe_sha256 env) (fp_base plan) (df_bytes f)"
    using standing_base [of "pe_sha256 env" "rt_absolute_path target" plan "Some j" d] r assms(2)
    by (auto simp: is_some_and_def split: option.splits)
  have j: "validate_delete_journal (pe_sha256 env) transaction_id target plan j = Inr ()" "jn_state j = Prepared"
    using r assms(2) by (simp_all add: journal_of_plan_def)
  have "jn_tombstone_path j \<noteq> rt_absolute_path target" using f(1) r by auto
  moreover have "state_digest_matches (pe_sha256 env) (jn_base_digest j) (df_bytes f)"
    using f(2) j(1) by (auto simp: valid_journal state_digest_matches_def state_matches_def split: file_change_content_state.splits)
  ultimately show ?thesis
    using r f j unfolding commit_delete_def Let_def move_to_tombstone_def ensure_state_matches_def ensure_path_digest_def
    by (auto intro!: wp_bind wp_lift wp_check wp_attempt wp_map_err wp_quiet wp_give
        wp_quiet_reconcile_bound [where transaction_id = transaction_id])
qed

lemma live_commit:
  assumes "ready env staging transaction_id target plan journal d"
  shows "wp all_quiet (commit env staging transaction_id target plan at journal) succeeds d rm"
proof -
  have keep: "wp all_quiet (dbind m (\<lambda>x. give (g x))) succeeds d rm" if "wp all_quiet m succeeds d rm" for m and g :: "'a \<Rightarrow> 'b"
    by (rule wp_bind, rule wp_mono [OF that]) (auto simp: succeeds_def intro!: wp_give)
  have pair: "(\<lambda>(c, j). give (c, Some j)) = (\<lambda>x. give (fst x, Some (snd x)))" by auto
  have "fp_operation plan = Delete \<longrightarrow> journal \<noteq> None"
    using assms by (auto simp: ready_def journal_of_plan_def)
  then show ?thesis
    unfolding commit_def Let_def pair using assms
    by (cases "fp_operation plan"; cases journal)
      (auto intro!: wp_bind [of _ "lift_result _"] wp_lift keep live_create live_update live_delete
        simp: ready_def [of _ _ _ _ _ "Some _"] ready_def)
qed

lemma wp_conj:
  assumes "wp ok m Q d rm" and "wp ok' m R d rm" and "\<And>t. ok t \<Longrightarrow> ok' t"
  shows "wp ok m (\<lambda>r d rm. Q r d rm \<and> R r d rm) d rm"
  unfolding wp_def
proof (intro allI impI)
  fix w :: disk_world
  assume w: "fw_dir w = d \<and> fw_removed w = rm \<and> list_all ok (fw_turns w)"
  then have "list_all ok' (fw_turns w)" using assms(3) by (auto simp: list_all_iff)
  with w assms(1,2)
  show "case m w of (r, w') \<Rightarrow> list_all ok (fw_turns w') \<and> Q r (fw_dir w') (fw_removed w') \<and> R r (fw_dir w') (fw_removed w')"
    unfolding wp_def by (auto split: prod.splits)
qed

text \<open>The names a commit uses: the candidates for its staged file, and the tombstone.\<close>

definition private_names :: "staging \<Rightarrow> delete_journal option \<Rightarrow> rstring set" where
  "private_names staging journal = set (sg_names staging) \<union> jn_tombstone_path ` set_option journal"

lemma ready_names:
  assumes "ready env staging transaction_id target plan journal d"
  shows "rt_absolute_path target \<notin> private_names staging journal"
proof -
  have "jn_tombstone_path j \<noteq> rt_absolute_path target" if "journal = Some j" for j
  proof -
    have "fp_operation plan = Delete" using assms that by (auto simp: ready_def)
    then have "d (rt_absolute_path target) \<noteq> None"
      using assms standing_base [of "pe_sha256 env" "rt_absolute_path target" plan journal d]
      by (auto simp: ready_def is_some_and_def split: option.splits)
    then show ?thesis using assms that by (auto simp: ready_def)
  qed
  then show ?thesis using assms by (auto simp: private_names_def ready_def)
qed

lemma live_commit_fresh:
  assumes "ready env staging transaction_id target plan journal d"
  shows "wp all_quiet (commit_fresh env staging again transaction_id target plan at journal)
    (\<lambda>r d' rm. succeeds r d' rm \<and> applied_change (private_names staging journal) (rt_absolute_path target) plan journal d d') d rm"
proof -
  note r = assms [unfolded ready_def]
  let ?N = "private_names staging journal"
  have honest: "wp undisturbed (commit env staging transaction_id target plan at journal)
      (\<lambda>r d' rm. commit_outcome (fc_status \<circ> fst) ?N (rt_absolute_path target) plan journal RcDefinitelyNotExecuted d r d') d rm"
    using wp_commit [of staging ?N env target plan journal d transaction_id at rm] r ready_names [OF assms]
    by (auto simp: private_names_def)
  have both: "wp all_quiet (commit env staging transaction_id target plan at journal)
      (\<lambda>r d' rm. succeeds r d' rm \<and> commit_outcome (fc_status \<circ> fst) ?N (rt_absolute_path target) plan journal RcDefinitelyNotExecuted d r d') d rm"
    by (rule wp_conj [OF live_commit [OF assms] honest]) (simp add: undisturbed_def quiet_def)
  have facts: "validate_transaction_and_plan env transaction_id target plan = Inr ()"
      "journal_of_plan (pe_sha256 env) transaction_id target plan journal"
      "standing (pe_sha256 env) (rt_absolute_path target) plan journal d = RcDefinitelyNotExecuted" using r by simp_all
  show ?thesis
    unfolding commit_fresh_def using facts
    by (auto intro!: wp_bind wp_lift wp_check wp_attempt wp_quiet wp_give wp_fail wp_quiet_reconcile_bound [where transaction_id = transaction_id]
        wp_mono [OF both] simp: reconcile_def succeeds_def split: answer.splits)
qed

lemma live_run:
  assumes "fw_turns w = []" and "ready env staging transaction_id target plan journal (fw_dir w)"
  shows "\<exists>c w'. commit_fresh env staging again transaction_id target plan at journal w = (Success c, w')
    \<and> applied_change (private_names staging journal) (rt_absolute_path target) plan journal (fw_dir w) (fw_dir w')"
proof -
  obtain r w' where run: "commit_fresh env staging again transaction_id target plan at journal w = (r, w')" by (metis surj_pair)
  from wp_run [OF live_commit_fresh [OF assms(2)] _ run] assms(1) run show ?thesis by (auto simp: succeeds_def)
qed

text \<open>
  C28: when nothing disturbs it and no call fails, a fresh commit of a valid plan that has not been executed
  yet succeeds, and the target then holds exactly the planned change. One of the first sixteen names for the staged
  file has to be free, and the tombstone of a delete must not exist yet.
\<close>

theorem fresh_commit_goes_through:
  assumes "fw_turns w = []" and "ready env staging transaction_id target plan journal (fw_dir w)"
  shows "\<exists>c w'. commit_fresh env staging again transaction_id target plan at journal w = (Success c, w')
    \<and> applied_change (private_names staging journal) (rt_absolute_path target) plan journal (fw_dir w) (fw_dir w')"
  by (rule live_run [OF assms])

lemma hi_planned_ready: "hi_planned p \<Longrightarrow> ready zero_env hi_staging (S ''t'') hi_target p None (\<lambda>_. None)"
  using hi_planned_valid [of p] killed_world_facts(3,5)
  by (simp add: ready_def journal_of_plan_def standing_def free_name_def killed_world_facts hi_planned_def) (simp add: hi_staging_def)

theorem fresh_commit_goes_through_witness:
  "\<exists>p c w'. make_plan zero_env (example_request ''a.txt'') = Inr p
     \<and> commit_fresh zero_env hi_staging hi_staging (S ''t'') hi_target p 1 None \<lparr>fw_dir = (\<lambda>_. None), fw_turns = [], fw_removed = []\<rparr>
       = (Success c, w') \<and> applied_change {S ''/.private''} (S ''/a.txt'') p None (\<lambda>_. None) (fw_dir w')"
proof -
  obtain p where p: "hi_planned p" using zero_plan by blast
  let ?w = "\<lparr>fw_dir = (\<lambda>_. None), fw_turns = [], fw_removed = []\<rparr>"
  have "ready zero_env hi_staging (S ''t'') hi_target p None (fw_dir ?w)" using hi_planned_ready [OF p] by simp
  from fresh_commit_goes_through [OF _ this] p show ?thesis
    by (fastforce simp: private_names_def killed_world_facts hi_target_def hi_planned_def)
qed

end
