(* ===== verification/File_Change_Execute.thy ===== *)
theory File_Change_Execute
  imports File_Change_Errors File_Change_Live
begin

text \<open>
  Executing an approved file change,
  \<open>src/crates/core-server/src/application/agent_support/actions.rs\<close>: the checks that the approval still fits the
  conversation, the commit, the record of it, and the result that is reported. The shapes of proposal and
  result are those of \<open>src/crates/core/src/protocol/image_file_change.rs\<close>; its operation type has the constructors of
  \<open>FileChangeOperation\<close> and is not repeated.
\<close>

section \<open>Proposal and result\<close>

datatype update_strategy = StrategyModify | StrategyRewrite

datatype approval_status = ApprovalNotRequired | ApprovalRequired | ApprovalApproved | ApprovalRejected

record git_diff_snapshot =
  gd_patch :: rstring
  gd_truncated :: bool

record agent_proposal =
  ap_schema_version :: nat
  ap_id :: rstring
  ap_transaction_id :: rstring
  ap_operation :: file_change_operation
  ap_update_strategy :: "update_strategy option"
  ap_file_path :: rstring
  ap_inline_diff :: "git_diff_snapshot option"
  ap_base_revision :: "rstring option"
  ap_summary :: "rstring option"
  ap_additions :: nat
  ap_deletions :: nat
  ap_line_count :: nat
  ap_byte_count :: nat
  ap_approval_status :: approval_status
  ap_execution :: direct_binding

definition AGENT_FILE_CHANGE_PROTOCOL_SCHEMA_VERSION :: nat where "AGENT_FILE_CHANGE_PROTOCOL_SCHEMA_VERSION = 1"

definition observed_revision :: "observation_state \<Rightarrow> rstring option" where
  "observed_revision state = (case state of ObservedMissing \<Rightarrow> None | ObservedExisting revision _ \<Rightarrow> Some revision)"

definition expected_line_count :: "rstring \<Rightarrow> nat" where
  "expected_line_count content =
     (if content = [] then 0
      else length (filter (\<lambda>c. c = NL) content) + (if last content = NL then 0 else 1))"

definition agent_proposal_validate :: "(byte list \<Rightarrow> byte list) \<Rightarrow> nat \<Rightarrow> agent_proposal \<Rightarrow> bool" where
  "agent_proposal_validate sha256 now p \<longleftrightarrow>
     (let b = ap_execution p;
          staged = (bd_staged_transaction_id b \<noteq> None);
          strategy_valid = (if ap_operation p = Update \<and> staged then ap_update_strategy p \<noteq> None else ap_update_strategy p = None);
          base_revision_valid =
            (if ap_operation p = Create then ap_base_revision p = None else is_some_and (ap_base_revision p) (\<lambda>v. v \<noteq> []));
          diff_valid =
            (case ap_inline_diff p of
               Some diff \<Rightarrow> \<not> staged \<and> \<not> gd_truncated diff \<and> diff_digest sha256 (gd_patch diff) = pp_diff_digest (bd_proposal b)
             | None \<Rightarrow> staged \<and> ap_operation p \<noteq> Delete);
          target_content = text_or_empty (bd_target_content b) in
      ap_schema_version p = AGENT_FILE_CHANGE_PROTOCOL_SCHEMA_VERSION
      \<and> \<not> blank (ap_id p) \<and> \<not> blank (ap_transaction_id p) \<and> \<not> blank (ap_file_path p)
      \<and> ap_approval_status p \<in> {ApprovalRequired, ApprovalApproved}
      \<and> strategy_valid \<and> base_revision_valid \<and> diff_valid
      \<and> binding_validate sha256 now b = Inr ()
      \<and> bd_source_call_id b = ap_id p \<and> tx_id (bd_transaction b) = ap_transaction_id p
      \<and> tx_operation (bd_transaction b) = ap_operation p \<and> tx_file_path (bd_transaction b) = ap_file_path p
      \<and> pp_additions (bd_proposal b) = ap_additions p \<and> pp_deletions (bd_proposal b) = ap_deletions p
      \<and> ap_byte_count p = byte_len target_content \<and> ap_line_count p = expected_line_count target_content
      \<and> observed_revision (oc_state (bd_observation b)) = ap_base_revision p)"

datatype result_status = RsApplied | RsAlreadyApplied | RsFailed | RsConflict | RsRejected | RsOutcomeUnknown | RsAborted | RsExpired

record agent_result =
  ar_schema_version :: nat
  ar_status :: result_status
  ar_outcome :: file_change_outcome
  ar_transaction_id :: rstring
  ar_operation :: file_change_operation
  ar_update_strategy :: "update_strategy option"
  ar_file_path :: rstring
  ar_additions :: nat
  ar_deletions :: nat
  ar_line_count :: nat
  ar_byte_count :: nat
  ar_revision :: "rstring option"
  ar_error_code :: "rstring option"
  ar_error :: "rstring option"
  ar_message :: "rstring option"

definition is_safe_file_change_error_code :: "rstring \<Rightarrow> bool" where
  "is_safe_file_change_error_code value \<longleftrightarrow>
     value \<noteq> [] \<and> byte_len value \<le> 128
     \<and> list_all (\<lambda>c. among c ''abcdefghijklmnopqrstuvwxyz0123456789_-.'') value"

definition agent_result_validate :: "agent_result \<Rightarrow> bool" where
  "agent_result_validate r \<longleftrightarrow>
     (let success = (ar_status r \<in> {RsApplied, RsAlreadyApplied});
          strategy_valid = (ar_operation r = Update \<or> ar_update_strategy r = None);
          revision_valid =
            (if success \<and> ar_operation r \<noteq> Delete then is_some_and (ar_revision r) (\<lambda>v. v \<noteq> []) else ar_revision r = None);
          safe_code = is_some_and (ar_error_code r) is_safe_file_change_error_code;
          state_valid =
            (if success then ar_outcome r = OutcomeApplied \<and> ar_error_code r = None \<and> ar_error r = None
             else if ar_status r = RsOutcomeUnknown then ar_outcome r = OutcomeUnknown \<and> safe_code
             else ar_outcome r = DefinitelyNotExecuted
               \<and> (safe_code \<or> is_some_and (ar_error r) (\<lambda>v. \<not> blank v) \<or> is_some_and (ar_message r) (\<lambda>v. \<not> blank v))) in
      ar_schema_version r = AGENT_FILE_CHANGE_PROTOCOL_SCHEMA_VERSION
      \<and> \<not> blank (ar_transaction_id r) \<and> \<not> blank (ar_file_path r) \<and> strategy_valid \<and> revision_valid \<and> state_valid
      \<and> is_none_or (ar_error_code r) is_safe_file_change_error_code
      \<and> (ar_operation r = Delete \<longrightarrow> ar_line_count r = 0 \<and> ar_byte_count r = 0))"

text \<open>\<open>file_change_result\<close>; an invalid result is a panic, \<open>None\<close>.\<close>

definition file_change_result ::
  "agent_proposal \<Rightarrow> result_status \<Rightarrow> file_change_outcome \<Rightarrow> rstring option \<Rightarrow> rstring option \<Rightarrow> rstring option \<Rightarrow> rstring option
   \<Rightarrow> agent_result option" where
  "file_change_result p status outcome revision error_code error message =
     (let result =
            \<lparr>ar_schema_version = AGENT_FILE_CHANGE_PROTOCOL_SCHEMA_VERSION, ar_status = status, ar_outcome = outcome,
             ar_transaction_id = ap_transaction_id p, ar_operation = ap_operation p, ar_update_strategy = ap_update_strategy p,
             ar_file_path = ap_file_path p, ar_additions = ap_additions p, ar_deletions = ap_deletions p,
             ar_line_count = ap_line_count p, ar_byte_count = ap_byte_count p, ar_revision = revision,
             ar_error_code = error_code, ar_error = error, ar_message = message\<rparr> in
      if agent_result_validate result then Some result else None)"

section \<open>Executing a binding\<close>

record execution_context =
  xc_conversation_id :: "rstring option"
  xc_project_id :: "rstring option"

record run_checkpoint =
  ck_run_id :: rstring
  ck_pending_tool_call_id :: rstring
  ck_effective_revision :: rstring

text \<open>
  What the execution reads: the input of the run, with the digests of its permissions and of its protocol key,
  the path the path policy resolves, the clock at each reading, and the random names of staged files.
\<close>

record execution_input =
  xi_context :: "execution_context option"
  xi_permission_revision :: "file_change_error_code + rstring"
  xi_provider_configuration_revision :: "rstring option"
  xi_protocol_revision :: "rstring option"
  xi_checkpoint :: "run_checkpoint option"
  xi_resolved :: "file_change_error_code + resolved_target"
  xi_now :: nat
  xi_plan_now :: nat
  xi_committed_at :: nat
  xi_clock :: "nat \<times> nat \<times> nat"
  xi_staging :: staging
  xi_again :: staging

record execution_request =
  xr_run_id :: rstring
  xr_action_id :: rstring
  xr_file_path :: rstring
  xr_operation :: file_change_operation
  xr_base_revision :: "rstring option"
  xr_presentation_patch :: "rstring option"

record delete_finalization =
  fz_target :: resolved_target
  fz_journal :: delete_journal
  fz_finalized_at :: nat

record turn_file_change =
  tf_path :: rstring
  tf_before :: "rstring option"
  tf_after :: "rstring option"

record binding_execution =
  bx_file_change :: turn_file_change
  bx_committed_binding :: direct_binding
  bx_finalization :: "delete_finalization option"

definition authorize_execution ::
  "(byte list \<Rightarrow> byte list) \<Rightarrow> execution_input \<Rightarrow> direct_binding \<Rightarrow> execution_request \<Rightarrow> file_change_error_code + resolved_target" where
  "authorize_execution sha256 input b request =
     rbind (binding_validate sha256 (xi_now input) b) (\<lambda>_.
     rbind (ok_or (xi_context input) PermissionDenied) (\<lambda>context.
     rbind (ok_or (xc_conversation_id context) PermissionDenied) (\<lambda>conversation_id.
     rbind (case xi_permission_revision input of Inl _ \<Rightarrow> Inl ErrFailed | Inr r \<Rightarrow> Inr r) (\<lambda>permission_revision.
     rbind (ok_or (case xi_provider_configuration_revision input of Some r \<Rightarrow> Some r | None \<Rightarrow> xi_protocol_revision input)
         IllegalFieldCombination) (\<lambda>provider_wire_revision.
     rbind (require (bd_source_call_id b = xr_action_id request \<and> bd_run_id b = xr_run_id request
         \<and> bd_conversation_id b = conversation_id \<and> bd_project_id b = xc_project_id context
         \<and> bd_permission_revision b = permission_revision \<and> bd_provider_wire_revision b = provider_wire_revision
         \<and> tx_operation (bd_transaction b) = xr_operation request \<and> tx_file_path (bd_transaction b) = xr_file_path request
         \<and> state_revision (tx_base (bd_transaction b)) = xr_base_revision request) IllegalFieldCombination) (\<lambda>_.
     rbind (ok_or (xi_checkpoint input) IllegalFieldCombination) (\<lambda>checkpoint.
     rbind (require (ck_run_id checkpoint = xr_run_id request \<and> ck_pending_tool_call_id checkpoint = bd_source_call_id b
         \<and> ck_effective_revision checkpoint = bd_tool_set_revision b) IllegalFieldCombination) (\<lambda>_.
     rbind (xi_resolved input) (\<lambda>target.
     rbind (require (rt_absolute_path target = bd_canonical_target b) ObservationPathMismatch) (\<lambda>_.
     Inr target))))))))))"

definition replan ::
  "plan_env \<Rightarrow> direct_binding \<Rightarrow> execution_request \<Rightarrow> file_change_error_code + file_change_plan" where
  "replan env b request =
     rbind (case (tx_base (bd_transaction b), bd_base_content b) of
         (Missing, None) \<Rightarrow> Inr BaseMissing
       | (Present revision _ _, Some content) \<Rightarrow> Inr (BaseExisting content revision)
       | _ \<Rightarrow> Inl InvalidArguments) (\<lambda>base.
     rbind (ok_or (bd_target_content b) IllegalFieldCombination) (\<lambda>target.
     rbind (make_plan env \<lparr>rq_operation = tx_operation (bd_transaction b), rq_file_path = xr_file_path request,
         rq_base = base, rq_mutation = Complete target\<rparr>) (\<lambda>plan.
     rbind (require (fp_base plan = tx_base (bd_transaction b) \<and> fp_target plan = tx_target (bd_transaction b)
         \<and> fp_diff_digest plan = pp_diff_digest (bd_proposal b) \<and> fp_proposal_digest plan = pp_proposal_digest (bd_proposal b)
         \<and> fp_additions plan = pp_additions (bd_proposal b) \<and> fp_deletions plan = pp_deletions (bd_proposal b))
         IllegalFieldCombination) (\<lambda>_.
     Inr plan))))"

definition execution_plan ::
  "plan_env \<Rightarrow> execution_input \<Rightarrow> direct_binding \<Rightarrow> execution_request \<Rightarrow> file_change_error_code + file_change_plan" where
  "execution_plan env input b request =
     (case xr_presentation_patch request of
        Some patch \<Rightarrow> from_direct_binding env (xi_plan_now input) b patch
      | None \<Rightarrow> replan env b request)"

text \<open>\<open>revalidate_current_identity\<close> reads the metadata of the target.\<close>

definition revalidate_identity :: "unit disk" where
  "revalidate_identity = call (\<lambda>t. or_error t (give ()))"

definition execute_file_change_binding ::
  "plan_env \<Rightarrow> execution_input \<Rightarrow> direct_binding \<Rightarrow> execution_request \<Rightarrow> binding_execution disk" where
  "execute_file_change_binding env input b request =
     (let sha256 = pe_sha256 env; at = xi_committed_at input in
      dbind (lift_result (authorize_execution sha256 input b request)) (\<lambda>target.
      dbind (lift_result (execution_plan env input b request)) (\<lambda>plan.
      dbind revalidate_identity (\<lambda>_.
      dbind (lift_result (if fp_operation plan = Delete then rbind (ok_or (bd_delete_journal b) IllegalFieldCombination) (\<lambda>j. Inr (Some j))
          else Inr None)) (\<lambda>journal.
      dbind (commit_fresh env (xi_staging input) (xi_again input) (tx_id (bd_transaction b)) target plan at journal) (\<lambda>(c, _).
      dbind (check (rc_proposal_digest (fc_receipt c) = pp_proposal_digest (bd_proposal b)) ErrOutcomeUnknown) (\<lambda>_.
      dbind (lift_result (case with_commit sha256 (xi_clock input) c b of Inl _ \<Rightarrow> Inl ErrOutcomeUnknown | Inr b' \<Rightarrow> Inr b')) (\<lambda>committed.
      give \<lparr>bx_file_change =
              \<lparr>tf_path = xr_file_path request, tf_before = bd_base_content b, tf_after = bd_target_content b\<rparr>,
            bx_committed_binding = committed,
            bx_finalization =
              map_option (\<lambda>j. \<lparr>fz_target = target, fz_journal = j, fz_finalized_at = at\<rparr>) (fc_delete_journal c)\<rparr>))))))))"

definition execute_direct_file_change ::
  "plan_env \<Rightarrow> execution_input \<Rightarrow> rstring \<Rightarrow> rstring \<Rightarrow> agent_proposal \<Rightarrow> (binding_execution \<times> agent_proposal) disk" where
  "execute_direct_file_change env input run_id action_id p =
     dbind (lift_result (ok_or (ap_inline_diff p) IllegalFieldCombination)) (\<lambda>diff.
     dbind (check (\<not> gd_truncated diff) IllegalFieldCombination) (\<lambda>_.
     dbind (execute_file_change_binding env input (ap_execution p)
         \<lparr>xr_run_id = run_id, xr_action_id = action_id, xr_file_path = ap_file_path p,
          xr_operation = tx_operation (bd_transaction (ap_execution p)), xr_base_revision = ap_base_revision p,
          xr_presentation_patch = Some (gd_patch diff)\<rparr>) (\<lambda>x.
     give (x, p\<lparr>ap_execution := bx_committed_binding x\<rparr>))))"

section \<open>The decision\<close>

datatype pending_status =
    PendingPending | PendingApproved | PendingExecuting | PendingRejected | PendingCancelled | PendingCompleted | PendingFailed

record execution_decision =
  ed_status :: string
  ed_final_pending_status :: pending_status
  ed_result :: agent_result
  ed_file_change :: "turn_file_change option"
  ed_committed_action :: "agent_proposal option"
  ed_finalization :: "delete_finalization option"
  ed_tool_ok :: bool

definition file_change_error_is_conflict :: "file_change_error_code \<Rightarrow> bool" where
  "file_change_error_is_conflict code \<longleftrightarrow>
     code \<in> {FileExists, FileMissing, RevisionConflict, ErrConflict, ObservationStale}"

definition wire_error_code :: "file_change_error_code \<Rightarrow> rstring" where
  "wire_error_code code = S ''agent.apply_patch.'' @ S (error_code_name code)"

definition failed_file_change_decision :: "agent_proposal \<Rightarrow> file_change_error_code \<Rightarrow> execution_decision option" where
  "failed_file_change_decision p code =
     (let conflict = file_change_error_is_conflict code; outcome_unknown = (code = ErrOutcomeUnknown) in
      map_option (\<lambda>result.
        \<lparr>ed_status = (if outcome_unknown then ''outcome_unknown'' else if conflict then ''conflict'' else ''failed''),
         ed_final_pending_status = PendingFailed, ed_result = result, ed_file_change = None, ed_committed_action = None,
         ed_finalization = None, ed_tool_ok = False\<rparr>)
        (file_change_result p (if outcome_unknown then RsOutcomeUnknown else if conflict then RsConflict else RsFailed)
          (if outcome_unknown then OutcomeUnknown else DefinitelyNotExecuted) None (Some (wire_error_code code))
          (Some (safe_message code)) None))"

definition applied_file_change_decision :: "agent_proposal \<Rightarrow> binding_execution \<times> agent_proposal \<Rightarrow> execution_decision option" where
  "applied_file_change_decision p execution =
     (case execution of (x, committed_proposal) \<Rightarrow>
        map_option (\<lambda>result.
          \<lparr>ed_status = ''applied'', ed_final_pending_status = PendingCompleted, ed_result = result,
           ed_file_change = Some (bx_file_change x), ed_committed_action = Some committed_proposal,
           ed_finalization = bx_finalization x, ed_tool_ok = True\<rparr>)
          (file_change_result p RsApplied OutcomeApplied
            (state_revision (tx_target (bd_transaction (ap_execution committed_proposal)))) None None (ap_summary p)))"

definition prepare_approved_direct_file_change_execution ::
  "plan_env \<Rightarrow> execution_input \<Rightarrow> rstring \<Rightarrow> rstring \<Rightarrow> agent_proposal \<Rightarrow> execution_decision option disk" where
  "prepare_approved_direct_file_change_execution env input run_id action_id p =
     dbind (attempt (execute_direct_file_change env input run_id action_id p)) (\<lambda>r.
     give (case r of Inl code \<Rightarrow> failed_file_change_decision p code | Inr execution \<Rightarrow> applied_file_change_decision p execution))"

text \<open>\<open>finalize_direct_file_change_action\<close>: the tombstone goes and the binding is advanced once more.\<close>

definition finalize_direct_file_change_action ::
  "plan_env \<Rightarrow> nat \<times> nat \<Rightarrow> agent_proposal \<Rightarrow> delete_finalization \<Rightarrow> agent_proposal disk" where
  "finalize_direct_file_change_action env clock p f =
     dbind (finalize_delete (pe_sha256 env) (fz_target f) (fz_journal f) (fz_finalized_at f)) (\<lambda>finalized_journal.
     dbind (lift_result (with_finalized_delete_journal (pe_sha256 env) clock finalized_journal (ap_execution p))) (\<lambda>b.
     give (p\<lparr>ap_execution := b\<rparr>)))"


section \<open>The plan that is executed\<close>

lemma made_plan:
  assumes "make_plan env request = Inr p" and "rq_mutation request = Complete content"
  shows "fp_operation p = rq_operation request" and "fp_target_content p = Some content"
proof -
  obtain base_state base_content target where d: "decide_change env request = Inr (base_state, base_content, target)"
    using assms(1) by (auto simp: make_plan_def split: sum.splits)
  have "target = Some content"
    using d assms(2)
    by (auto simp: decide_change_def target_content_def reject_nul_def split: if_splits sum.splits prod.splits option.splits
        file_change_operation.splits)
  then show "fp_operation p = rq_operation request" "fp_target_content p = Some content"
    using assms(1) d by (auto simp: make_plan_def seal_plan_def Let_def split: sum.splits prod.splits)
qed

lemma executed_plan:
  assumes "execution_plan env input b request = Inr p"
  shows "fp_operation p = tx_operation (bd_transaction b)" and "fp_target_content p = bd_target_content b"
    and "fp_base p = tx_base (bd_transaction b)" and "fp_target p = tx_target (bd_transaction b)"
proof -
  have "fp_operation p = tx_operation (bd_transaction b) \<and> fp_target_content p = bd_target_content b
    \<and> fp_base p = tx_base (bd_transaction b) \<and> fp_target p = tx_target (bd_transaction b)"
  proof (cases "xr_presentation_patch request")
    case None
    then show ?thesis
      using assms
      by (auto simp: execution_plan_def replan_def rbind_eq_Inr_iff ok_or_def dest: made_plan split: option.splits)
  next
    case (Some patch)
    then show ?thesis
      using assms
      by (auto simp: execution_plan_def from_direct_binding_def from_binding_def rbind_eq_Inr_iff plan_of_binding_def Let_def
          split: if_splits)
  qed
  then show "fp_operation p = tx_operation (bd_transaction b)" "fp_target_content p = bd_target_content b"
    "fp_base p = tx_base (bd_transaction b)" "fp_target p = tx_target (bd_transaction b)" by simp_all
qed

lemma authorized_target:
  "authorize_execution sha256 input b request = Inr target \<Longrightarrow> rt_absolute_path target = bd_canonical_target b"
  by (auto simp: authorize_execution_def rbind_eq_Inr_iff)


section \<open>What an execution leaves behind\<close>

lemma applied_change_cong:
  assumes "fp_operation p = fp_operation q" and "fp_target_content p = fp_target_content q"
    and "fp_operation q = Delete \<longrightarrow> journal = journal'"
  shows "applied_change N path p journal d d' = applied_change N path q journal' d d'"
  using assms by (simp add: applied_change_def)

text \<open>The private names, the inode and the target of an execution of \<open>b\<close>.\<close>

definition execution_scratch :: "rstring set \<Rightarrow> execution_input \<Rightarrow> direct_binding \<Rightarrow> directory \<Rightarrow> bool" where
  "execution_scratch N input b d \<longleftrightarrow>
     set (sg_names (xi_staging input)) \<subseteq> N \<and> set (sg_names (xi_again input)) \<subseteq> N \<and> fresh_inode (sg_inode (xi_staging input)) d
     \<and> is_none_or (bd_delete_journal b) (\<lambda>j. jn_tombstone_path j \<in> N) \<and> bd_canonical_target b \<notin> N"

definition changes_content :: "direct_binding \<Rightarrow> bool" where
  "changes_content b \<longleftrightarrow>
     (tx_operation (bd_transaction b) = Update \<longrightarrow> tx_base (bd_transaction b) \<noteq> tx_target (bd_transaction b))"

definition applied_binding :: "rstring set \<Rightarrow> direct_binding \<Rightarrow> directory \<Rightarrow> directory \<Rightarrow> bool" where
  "applied_binding N b d d' =
     (if tx_operation (bd_transaction b) = Delete
      then scratch N (d(bd_canonical_target b := None)) d'
        \<and> is_some_and (bd_delete_journal b) (\<lambda>j. d' (jn_tombstone_path j) = d (bd_canonical_target b))
      else \<exists>f. scratch N (d(bd_canonical_target b \<mapsto> f)) d'
        \<and> is_some_and (bd_target_content b) (\<lambda>content. df_bytes f = utf8_bytes content)
        \<and> (tx_operation (bd_transaction b) = Update \<longrightarrow> is_some_and (d (bd_canonical_target b)) (\<lambda>old. df_mode f = df_mode old)))"

lemma wp_execute_binding:
  assumes "execution_scratch N input b d" and "changes_content b"
  shows "wp undisturbed (execute_file_change_binding env input b request)
    (\<lambda>r d' rm. case r of
        Killed \<Rightarrow> scratch N d d' \<or> applied_binding N b d d'
      | Failure c \<Rightarrow> scratch N d d' \<or> c = ErrOutcomeUnknown \<and> applied_binding N b d d'
      | Success _ \<Rightarrow> applied_binding N b d d') d rm"
proof -
  have commit: "wp undisturbed (commit_fresh env (xi_staging input) (xi_again input) transaction_id target plan at journal)
      (\<lambda>r d' rm. case r of
        Killed \<Rightarrow> scratch N d d' \<or> applied_binding N b d d'
      | Failure c \<Rightarrow> scratch N d d' \<or> c = ErrOutcomeUnknown \<and> applied_binding N b d d'
      | Success _ \<Rightarrow> applied_binding N b d d') d rm"
    if "authorize_execution sha256 input b request = Inr target" and "execution_plan env input b request = Inr plan"
      and journal: "(if fp_operation plan = Delete then rbind (ok_or (bd_delete_journal b) IllegalFieldCombination) (\<lambda>j. Inr (Some j))
          else Inr None) = Inr journal"
    for sha256 target plan transaction_id at journal
  proof (rule wp_mono [OF wp_commit_fresh])
    note plan = executed_plan [OF that(2)] and path = authorized_target [OF that(1)]
    show "set (sg_names (xi_staging input)) \<subseteq> N" "set (sg_names (xi_again input)) \<subseteq> N" "fresh_inode (sg_inode (xi_staging input)) d"
      "rt_absolute_path target \<notin> N" "fp_operation plan = Update \<longrightarrow> fp_base plan \<noteq> fp_target plan"
      using assms plan path by (auto simp: execution_scratch_def changes_content_def)
    show "jn_tombstone_path j \<in> N" if "journal = Some j" for j
      using assms(1) journal that by (auto simp: execution_scratch_def ok_or_def rbind_eq_Inr_iff split: if_splits option.splits)
    have j: "fp_operation plan = Delete \<longrightarrow> journal = bd_delete_journal b"
      using journal by (auto simp: ok_or_def rbind_eq_Inr_iff split: if_splits option.splits)
    have same: "applied_change N (rt_absolute_path target) plan journal d d' = applied_binding N b d d'" for d'
      using j plan by (simp add: applied_change_def applied_binding_def path)
    show "case r of
        Killed \<Rightarrow> scratch N d d' \<or> applied_binding N b d d'
      | Failure c \<Rightarrow> scratch N d d' \<or> c = ErrOutcomeUnknown \<and> applied_binding N b d d'
      | Success _ \<Rightarrow> applied_binding N b d d'"
      if "fresh_outcome N (rt_absolute_path target) plan journal d r d'" for r :: "(file_change_commit \<times> delete_journal option) answer" and d'
      using that by (cases r) (simp_all add: same)
  qed
  show ?thesis
    unfolding execute_file_change_binding_def Let_def revalidate_identity_def
    by (auto intro!: wp_bind wp_lift wp_check wp_give alone.wp_call alone.wp_or_error wp_mono [OF commit]
        split: answer.splits sum.splits)
qed


section \<open>Values of an execution\<close>

lemma wp_any: "(\<And>r d' rm'. Q r d' rm') \<Longrightarrow> wp (\<lambda>_. True) m Q d rm"
  by (auto simp: wp_def list_all_iff split: prod.split)

lemma wp_any_call:
  "(\<And>r d' rm'. Q r d' rm') \<Longrightarrow> wp (\<lambda>_. True) (commit_fresh env staging again transaction_id target plan at journal) Q d rm"
  "(\<And>r d' rm'. R r d' rm') \<Longrightarrow> wp (\<lambda>_. True) revalidate_identity R d rm"
  by (simp_all add: wp_any)

lemma execute_direct_value:
  assumes "execute_direct_file_change env input run_id action_id p w = (Success (x, cp), w')"
  shows "\<exists>c. with_commit (pe_sha256 env) (xi_clock input) c (ap_execution p) = Inr (ap_execution cp)"
proof -
  have "wp (\<lambda>_. True) (execute_direct_file_change env input run_id action_id p)
      (\<lambda>r d' rm. \<forall>x cp. r = Success (x, cp) \<longrightarrow>
         (\<exists>c. with_commit (pe_sha256 env) (xi_clock input) c (ap_execution p) = Inr (ap_execution cp))) d rm" for d rm
    unfolding execute_direct_file_change_def execute_file_change_binding_def Let_def
    by (auto intro!: wp_bind wp_lift wp_check wp_give wp_any_call split: answer.splits sum.splits; blast)
  from wp_run [OF this _ assms] show ?thesis by (simp add: list_all_iff)
qed

lemma safe_error_code: "is_safe_file_change_error_code (wire_error_code code)"
  by (cases code) (simp_all add: is_safe_file_change_error_code_def wire_error_code_def S_def among_def)

lemma valid_proposal:
  assumes "agent_proposal_validate sha256 now p"
  shows "ap_operation p = Delete \<longrightarrow> ap_line_count p = 0 \<and> ap_byte_count p = 0"
    and "ap_operation p \<noteq> Update \<longrightarrow> ap_update_strategy p = None" and "\<not> blank (ap_transaction_id p)" and "\<not> blank (ap_file_path p)"
    and "ap_operation p = tx_operation (bd_transaction (ap_execution p))" and "binding_validate sha256 now (ap_execution p) = Inr ()"
proof -
  show v: "binding_validate sha256 now (ap_execution p) = Inr ()"
    and op: "ap_operation p = tx_operation (bd_transaction (ap_execution p))"
    and "ap_operation p \<noteq> Update \<longrightarrow> ap_update_strategy p = None" "\<not> blank (ap_transaction_id p)" "\<not> blank (ap_file_path p)"
    using assms by (auto simp: agent_proposal_validate_def Let_def)
  have "bd_target_content (ap_execution p) = None" if "ap_operation p = Delete"
    using v that op unfolding binding_validate_iff
    by (auto simp: binding_parts_agree_def Let_def transaction_validate_def first_error_iff validate_operation_states_def
        operation_states_match_def content_matches_binding_state_def simp del: first_error.simps
        split: file_change_content_state.splits option.splits)
  then show "ap_operation p = Delete \<longrightarrow> ap_line_count p = 0 \<and> ap_byte_count p = 0"
    using assms by (auto simp: agent_proposal_validate_def Let_def text_or_empty_def expected_line_count_def)
qed

lemma failed_decision:
  assumes "agent_proposal_validate sha256 now p"
  shows "\<exists>decision. failed_file_change_decision p code = Some decision
    \<and> ar_outcome (ed_result decision) = (if code = ErrOutcomeUnknown then OutcomeUnknown else DefinitelyNotExecuted)"
  using valid_proposal [OF assms] safe_error_code [of code]
  by (auto simp: failed_file_change_decision_def file_change_result_def agent_result_validate_def Let_def)

lemma applied_decision:
  assumes "agent_proposal_validate sha256 now p" and "with_commit sha256 clock c (ap_execution p) = Inr (ap_execution cp)"
  shows "\<exists>decision. applied_file_change_decision p (x, cp) = Some decision \<and> ar_outcome (ed_result decision) = OutcomeApplied"
proof -
  note v = valid_proposal [OF assms(1)]
  obtain now1 now2 now3 where clock: "clock = (now1, now2, now3)" by (metis prod_cases3)
  from with_commit_cases(3) [OF assms(2) [unfolded clock]]
  have target: "tx_target (bd_transaction (ap_execution cp)) = tx_target (bd_transaction (ap_execution p))" by simp
  have "if ap_operation p = Delete then state_revision (tx_target (bd_transaction (ap_execution p))) = None
      else is_some_and (state_revision (tx_target (bd_transaction (ap_execution p)))) (\<lambda>v. v \<noteq> [])"
    using v(5,6) unfolding binding_validate_iff
    by (cases "tx_target (bd_transaction (ap_execution p))"; cases "ap_operation p")
      (auto simp: transaction_validate_def first_error_iff validate_operation_states_def validate_common_def
        operation_states_match_def blank_def str_trim_def simp del: first_error.simps split: file_change_content_state.splits)
  then show ?thesis
    using v(1-5) target
    by (auto simp: applied_file_change_decision_def file_change_result_def agent_result_validate_def Let_def split: if_splits)
qed


section \<open>Properties\<close>

lemma wp_execute_direct:
  assumes "execution_scratch N input (ap_execution p) d" and "changes_content (ap_execution p)"
  shows "wp undisturbed (execute_direct_file_change env input run_id action_id p)
    (\<lambda>r d' rm. case r of
        Killed \<Rightarrow> scratch N d d' \<or> applied_binding N (ap_execution p) d d'
      | Failure c \<Rightarrow> scratch N d d' \<or> c = ErrOutcomeUnknown \<and> applied_binding N (ap_execution p) d d'
      | Success _ \<Rightarrow> applied_binding N (ap_execution p) d d') d rm"
  unfolding execute_direct_file_change_def
  by (auto intro!: wp_bind wp_lift wp_check wp_give wp_mono [OF wp_execute_binding [OF assms]] split: answer.splits)

text \<open>
  C3: the result that is reported for an approved change is true of the disk. With nobody else in the
  directory, whatever system calls fail and whenever the process is killed, \<open>applied\<close> is reported only when the
  target holds exactly the approved change, and \<open>definitely not executed\<close> only when the target and every other
  file are untouched. No result is malformed: the check in \<open>file_change_result\<close> never panics.
\<close>

theorem reported_outcome_is_true:
  assumes "list_all undisturbed (fw_turns w)" and "execution_scratch N input (ap_execution p) (fw_dir w)"
    and "changes_content (ap_execution p)" and "agent_proposal_validate (pe_sha256 env) now p"
    and "prepare_approved_direct_file_change_execution env input run_id action_id p w = (r, w')"
  shows "case r of
      Killed \<Rightarrow> scratch N (fw_dir w) (fw_dir w') \<or> applied_binding N (ap_execution p) (fw_dir w) (fw_dir w')
    | Failure _ \<Rightarrow> False
    | Success None \<Rightarrow> False
    | Success (Some decision) \<Rightarrow>
        (case ar_outcome (ed_result decision) of
           OutcomeApplied \<Rightarrow> applied_binding N (ap_execution p) (fw_dir w) (fw_dir w')
         | DefinitelyNotExecuted \<Rightarrow> scratch N (fw_dir w) (fw_dir w')
         | OutcomeUnknown \<Rightarrow> scratch N (fw_dir w) (fw_dir w') \<or> applied_binding N (ap_execution p) (fw_dir w) (fw_dir w'))"
proof -
  obtain x v where run: "execute_direct_file_change env input run_id action_id p w = (x, v)" by (metis surj_pair)
  note disk = wp_run [OF wp_execute_direct [OF assms(2,3)] assms(1) run]
  show ?thesis
  proof (cases x)
    case Killed
    then show ?thesis using disk assms(5) run by (simp add: prepare_approved_direct_file_change_execution_def dbind_def attempt_def)
  next
    case (Failure code)
    obtain decision where "failed_file_change_decision p code = Some decision"
        "ar_outcome (ed_result decision) = (if code = ErrOutcomeUnknown then OutcomeUnknown else DefinitelyNotExecuted)"
      using failed_decision [OF assms(4)] by blast
    then show ?thesis
      using Failure disk assms(5) run
      by (auto simp: prepare_approved_direct_file_change_execution_def dbind_def attempt_def give_def)
  next
    case (Success execution)
    obtain y cp where pair: "execution = (y, cp)" by fastforce
    obtain decision where "applied_file_change_decision p (y, cp) = Some decision" "ar_outcome (ed_result decision) = OutcomeApplied"
      using applied_decision [OF assms(4)] execute_direct_value [OF run [unfolded Success pair]] by blast
    then show ?thesis
      using Success pair disk assms(5) run
      by (auto simp: prepare_approved_direct_file_change_execution_def dbind_def attempt_def give_def)
  qed
qed


section \<open>A commit is recorded\<close>

definition returns :: "('a \<Rightarrow> bool) \<Rightarrow> 'a disk \<Rightarrow> bool" where
  "returns P m \<longleftrightarrow> (\<forall>w x w'. m w = (Success x, w') \<longrightarrow> P x)"

lemma returns_bind: "(\<And>x. returns P (f x)) \<Longrightarrow> returns P (dbind m f)"
  by (fastforce simp: returns_def dbind_def split: prod.splits answer.splits)

lemma returns_bind_value: "returns R m \<Longrightarrow> (\<And>x. R x \<Longrightarrow> returns P (f x)) \<Longrightarrow> returns P (dbind m f)"
  by (fastforce simp: returns_def dbind_def split: prod.splits answer.splits)

lemma returns_lift: "(\<And>x. v = Inr x \<Longrightarrow> P x) \<Longrightarrow> returns P (lift_result v)"
  by (cases v) (simp_all add: returns_def lift_result_def give_def fail_def)

lemma returns_check: "(ok \<Longrightarrow> P ()) \<Longrightarrow> returns P (check ok c)"
  by (simp add: returns_def check_def give_def fail_def)

lemma returns_give [simp]: "returns P (give x) = P x"
  by (auto simp: returns_def give_def)

lemma returns_fail [simp]: "returns P (fail c)"
  by (simp add: returns_def fail_def)

lemma returns_attempt: "returns P m \<Longrightarrow> returns (\<lambda>v. case v of Inl _ \<Rightarrow> True | Inr x \<Rightarrow> P x) (attempt m)"
  by (fastforce simp: returns_def attempt_def split: prod.splits answer.splits)

text \<open>The commit a run may return for \<open>plan\<close>.\<close>

definition commit_for ::
  "rstring \<Rightarrow> resolved_target \<Rightarrow> file_change_plan \<Rightarrow> nat \<Rightarrow> delete_journal option \<Rightarrow> file_change_commit \<Rightarrow> bool" where
  "commit_for transaction_id target plan at journal c \<longleftrightarrow>
     fp_file_path plan = rt_display_path target
     \<and> (\<exists>status \<in> {StApplied, StAlreadyApplied}. c = applied_commit transaction_id target plan at status (journal_after_commit at journal))"

lemma returns_commit:
  assumes "is_none_or journal (\<lambda>j. jn_state j = Prepared)" and "fp_operation plan \<noteq> Delete \<longrightarrow> journal = None"
  shows "returns (\<lambda>(c, _). commit_for transaction_id target plan at journal c)
    (commit env staging transaction_id target plan at journal)"
proof -
  have path: "validate_transaction_and_plan env transaction_id target plan = Inr () \<Longrightarrow> fp_file_path plan = rt_display_path target"
    by (auto simp: validate_transaction_and_plan_def first_error_iff simp del: first_error.simps)
  have create: "returns (commit_for transaction_id target plan at None) (commit_create sha256 staging transaction_id target plan at)"
    and update: "returns (commit_for transaction_id target plan at None) (commit_update sha256 staging transaction_id target plan at)"
    if "fp_file_path plan = rt_display_path target" for sha256
    unfolding commit_create_def commit_update_def Let_def using that
    by (auto intro!: returns_bind simp: commit_for_def journal_after_commit_def split: reconciliation.split sum.split)
  have delete: "returns (\<lambda>(c, _). commit_for transaction_id target plan at (Some j) c)
      (commit_delete sha256 transaction_id target plan at j)"
    if "fp_file_path plan = rt_display_path target" and "jn_state j = Prepared" for sha256 j
    unfolding commit_delete_def Let_def using that
    by (auto intro!: returns_bind simp: commit_for_def journal_after_commit_def split: reconciliation.split)
  show ?thesis
    unfolding commit_def Let_def using assms
    by (cases "fp_operation plan"; cases journal)
      (auto intro!: returns_bind_value [OF returns_lift [of _ "\<lambda>_. validate_transaction_and_plan env transaction_id target plan = Inr ()"]]
        returns_bind_value [OF create] returns_bind_value [OF update] returns_bind_value [OF delete] dest: path)
qed

lemma returns_commit_fresh:
  assumes "is_none_or journal (\<lambda>j. jn_state j = Prepared)" and "fp_operation plan \<noteq> Delete \<longrightarrow> journal = None"
  shows "returns (\<lambda>(c, _). commit_for transaction_id target plan at journal c)
    (commit_fresh env staging again transaction_id target plan at journal)"
proof -
  note once = returns_attempt [OF returns_commit [OF assms]]
  have retry: "returns (\<lambda>(c, _). commit_for transaction_id target plan at journal c)
      (reconcile_attempted_outcome_unknown env again transaction_id target plan at journal code)" for code
    unfolding reconcile_attempted_outcome_unknown_def
    by (auto intro!: returns_bind [of _ _ "attempt (reconcile _ _ _ _)"] returns_bind_value [OF once]
        split: sum.splits reconciliation.split)
  show ?thesis
    unfolding commit_fresh_def
    by (auto intro!: returns_bind [of _ _ "lift_result _"] returns_bind [of _ _ "reconcile _ _ _ _"] returns_bind [of _ _ "check _ _"]
        returns_bind_value [OF once] retry split: sum.splits)
qed

text \<open>
  Whatever other programs do meanwhile, the commit of a prepared binding is always recorded. When the
  committer returns success, its receipt is accepted by the binding, which advances to the committed state,
  provided the clock did not go back behind the creation of the transaction.
\<close>

theorem commit_is_recorded:
  assumes "is_prepared (pe_sha256 env) now b" and "from_binding env now b = Inr plan"
    and "commit_fresh env staging again (tx_id (bd_transaction b)) target plan at (bd_delete_journal b) w = (Success (c, j), w')"
    and "dated_after b at" and "now \<le> now1" and "now \<le> now2" and "now \<le> now3"
  shows "with_commit (pe_sha256 env) (now1, now2, now3) c b = Inr (committed_binding c b)"
proof -
  have plan: "plan = plan_of_binding env b" using assms(2) by (auto simp: from_binding_def rbind_eq_Inr_iff)
  have v: "binding_prepared b" "binding_parts_agree (pe_sha256 env) b"
    using assms(1) by (simp_all add: is_prepared_iff binding_validate_iff)
  have "fp_operation plan \<noteq> Delete \<longrightarrow> bd_delete_journal b = None"
    using v(2)
    by (auto simp: plan plan_of_binding_def binding_parts_agree_def delete_journal_is_valid_def Let_def
        split: file_change_operation.splits option.splits)
  moreover have "is_none_or (bd_delete_journal b) (\<lambda>j. jn_state j = Prepared)" using v(1) by (simp add: binding_prepared_def)
  ultimately have "commit_for (tx_id (bd_transaction b)) target plan at (bd_delete_journal b) c"
    using returns_commit_fresh [of "bd_delete_journal b" plan] assms(3) unfolding returns_def by fast
  then have c: "commit_of_binding b c" "rc_committed_at (fc_receipt c) = at"
    using v(2)
    by (auto simp: commit_for_def commit_of_binding_def applied_commit_def receipt_matches_def plan plan_of_binding_def Let_def
        binding_parts_agree_def)
  from commit_recorded [OF assms(1) c(1) _ assms(5-7)] assms(4) c(2) show ?thesis by simp
qed

section \<open>Witnesses\<close>

definition hi_proposal :: "file_change_plan \<Rightarrow> agent_proposal" where
  "hi_proposal p =
     \<lparr>ap_schema_version = AGENT_FILE_CHANGE_PROTOCOL_SCHEMA_VERSION, ap_id = S ''c'', ap_transaction_id = S ''t'',
      ap_operation = Create, ap_update_strategy = None, ap_file_path = S ''a.txt'',
      ap_inline_diff = Some \<lparr>gd_patch = fp_diff p, gd_truncated = False\<rparr>, ap_base_revision = None, ap_summary = None,
      ap_additions = fp_additions p, ap_deletions = fp_deletions p, ap_line_count = 1, ap_byte_count = 2,
      ap_approval_status = ApprovalApproved, ap_execution = hi_binding p\<rparr>"

definition hi_input :: execution_input where
  "hi_input =
     \<lparr>xi_context = Some \<lparr>xc_conversation_id = Some (S ''v''), xc_project_id = None\<rparr>,
      xi_permission_revision = Inr (S ''p''), xi_provider_configuration_revision = Some (S ''w''), xi_protocol_revision = None,
      xi_checkpoint = Some \<lparr>ck_run_id = S ''r'', ck_pending_tool_call_id = S ''c'', ck_effective_revision = S ''s''\<rparr>,
      xi_resolved = Inr hi_target, xi_now = 9, xi_plan_now = 9, xi_committed_at = 9, xi_clock = (9, 9, 9),
      xi_staging = hi_staging, xi_again = hi_staging\<rparr>"

lemma hi_proposal_valid: "hi_planned p \<Longrightarrow> agent_proposal_validate (pe_sha256 zero_env) 9 (hi_proposal p)"
proof -
  assume p: "hi_planned p"
  have "diff_digest (pe_sha256 zero_env) (fp_diff p) = fp_diff_digest p"
    using p by (auto simp: hi_planned_def plan_validate_def Let_def split: if_splits)
  then show ?thesis
    using p hi_binding_valid [OF p, of 9] hi_texts
    by (auto simp: agent_proposal_validate_def hi_proposal_def Let_def hi_planned_def text_or_empty_def expected_line_count_def
        observed_revision_def) (auto simp: hi_binding_def S_def)
qed

theorem reported_outcome_is_true_witness:
  "\<exists>p r w'. make_plan zero_env (example_request ''a.txt'') = Inr p
     \<and> prepare_approved_direct_file_change_execution zero_env hi_input (S ''r'') (S ''c'') (hi_proposal p) (killed_world 20) = (r, w')
     \<and> (\<forall>decision. r = Success (Some decision) \<and> ar_outcome (ed_result decision) = OutcomeApplied
          \<longrightarrow> applied_binding {S ''/.private''} (hi_binding p) (\<lambda>_. None) (fw_dir w'))"
proof -
  obtain p where p: "hi_planned p" using zero_plan by blast
  obtain r w' where run: "prepare_approved_direct_file_change_execution zero_env hi_input (S ''r'') (S ''c'') (hi_proposal p) (killed_world 20) = (r, w')"
    by (metis surj_pair)
  have "execution_scratch {S ''/.private''} hi_input (ap_execution (hi_proposal p)) (fw_dir (killed_world 20))"
      "changes_content (ap_execution (hi_proposal p))"
    using killed_world_facts(3,5) p
    by (auto simp: execution_scratch_def changes_content_def hi_input_def hi_proposal_def hi_binding_def hi_planned_def
        killed_world_facts hi_target_def)
  from reported_outcome_is_true [OF killed_world_facts(1) this hi_proposal_valid [OF p] run] p run show ?thesis
    by (fastforce simp: hi_planned_def killed_world_facts hi_proposal_def)
qed

theorem commit_is_recorded_witness:
  "\<exists>p c j w'. make_plan zero_env (example_request ''a.txt'') = Inr p
     \<and> commit_fresh zero_env hi_staging hi_staging (S ''t'') hi_target p 9 None \<lparr>fw_dir = (\<lambda>_. None), fw_turns = [], fw_removed = []\<rparr>
       = (Success (c, j), w')
     \<and> with_commit (pe_sha256 zero_env) (9, 9, 9) c (hi_binding p) = Inr (committed_binding c (hi_binding p))"
proof -
  obtain p where p: "hi_planned p" using zero_plan by blast
  let ?w = "\<lparr>fw_dir = (\<lambda>_. None), fw_turns = [], fw_removed = []\<rparr>"
  have "ready zero_env hi_staging (S ''t'') hi_target p None (fw_dir ?w)"
    using hi_planned_ready [OF p] by simp
  then obtain c j w' where run: "commit_fresh zero_env hi_staging hi_staging (S ''t'') hi_target p 9 None ?w = (Success (c, j), w')"
    using live_run [of ?w] by fastforce
  have b: "is_prepared (pe_sha256 zero_env) 9 (hi_binding p)" "tx_id (bd_transaction (hi_binding p)) = S ''t''"
      "bd_delete_journal (hi_binding p) = None" "dated_after (hi_binding p) 9"
    using hi_binding_valid [OF p] by (simp_all add: is_prepared_def dated_after_def) (simp_all add: hi_binding_def)
  from commit_is_recorded [OF b(1) hi_plan_rebuilt [OF p] _ b(4), unfolded b(2,3), OF run] run p show ?thesis
    by (auto simp: hi_planned_def)
qed

end
