(* ===== verification/Directory_Identity.thy ===== *)
theory Directory_Identity
  imports File_Change_Model
begin

text \<open>
  What the file tools read of the file system, and the identity of a directory that grants, observations and the
  frozen workspace carry (\<open>FileChangeDirectoryIdentity\<close> of \<open>src/crates/core/src/file_change/run_grant.rs\<close>), in the Unix
  configuration. The file system is a snapshot, an argument of the definitions that read it.
\<close>

section \<open>The file system\<close>

text \<open>What the code reads of \<open>std::fs::Metadata\<close>; the time is in nanoseconds since the epoch, if it is available.\<close>

record file_metadata =
  md_is_dir :: bool
  md_is_file :: bool
  md_is_symlink :: bool
  md_len :: nat
  md_modified :: "nat option"
  md_dev :: nat
  md_ino :: nat
  md_nlink :: nat

datatype fs_error = IoNotFound | IoPermissionDenied | IoOther

record file_system =
  fs_symlink_metadata :: "path_buf \<Rightarrow> fs_error + file_metadata"
  fs_canonicalize :: "path_buf \<Rightarrow> fs_error + path_buf"

section \<open>Directory identities\<close>

definition FILE_CHANGE_RUN_GRANT_SCHEMA_VERSION :: nat where "FILE_CHANGE_RUN_GRANT_SCHEMA_VERSION = 1"

datatype change_directory_identity =
    UnixChangeDirectory nat nat nat
  | WindowsChangeDirectory nat nat rstring

fun change_identity_validate :: "change_directory_identity \<Rightarrow> bool" where
  "change_identity_validate (UnixChangeDirectory version _ _) = (version = FILE_CHANGE_RUN_GRANT_SCHEMA_VERSION)"
| "change_identity_validate (WindowsChangeDirectory version _ file_id) =
     (version = FILE_CHANGE_RUN_GRANT_SCHEMA_VERSION \<and> byte_len file_id = 32 \<and> lower_hex_text file_id)"

definition from_bound_metadata :: "file_metadata \<Rightarrow> change_directory_identity option" where
  "from_bound_metadata m =
     (if \<not> md_is_dir m then None
      else Some (UnixChangeDirectory FILE_CHANGE_RUN_GRANT_SCHEMA_VERSION (md_dev m) (md_ino m)))"

definition change_identity_read :: "file_system \<Rightarrow> path_buf \<Rightarrow> change_directory_identity option" where
  "change_identity_read fs path =
     (case fs_symlink_metadata fs path of
        Inl _ \<Rightarrow> None
      | Inr m \<Rightarrow> if md_is_symlink m \<or> \<not> md_is_dir m then None else from_bound_metadata m)"

lemma change_identity_read_Some:
  "change_identity_read fs path = Some i \<longleftrightarrow>
     (\<exists>m. fs_symlink_metadata fs path = Inr m \<and> \<not> md_is_symlink m \<and> md_is_dir m
        \<and> i = UnixChangeDirectory FILE_CHANGE_RUN_GRANT_SCHEMA_VERSION (md_dev m) (md_ino m))"
  by (auto simp: change_identity_read_def from_bound_metadata_def split: sum.split)

end
