(* ===== verification/File_Observations.thy ===== *)
theory File_Observations
  imports Directory_Identity "HOL-Library.AList" "HOL-Library.Multiset"
begin

text \<open>
  The registry of file observations, \<open>src/crates/core/src/file_change/observation.rs\<close>, in its Unix
  configuration. Reading a file issues an observation: a token for one call, one run and one path that can be
  claimed once, within ten minutes, by another call that changes the file. A successful change reissues the token
  it consumed. The registry is a \<open>HashMap\<close> behind a lock, so each operation is one atomic step; the order in
  which a \<open>HashMap\<close> enumerates its entries is not specified, and an operation that enumerates them takes that
  order as an argument. A fresh id is \<open>fobs_\<close> and the 32 hexadecimal digits of a random UUID, also an argument.
\<close>

section \<open>Data\<close>

definition MAX_OBSERVATIONS_PER_RUN :: nat where "MAX_OBSERVATIONS_PER_RUN = 1024"

record observation_owner =
  ow_source_tool_call_id :: rstring
  ow_conversation_id :: rstring
  ow_run_id :: rstring

record file_observation =
  ob_id :: rstring
  ob_source_tool_call_id :: rstring
  ob_conversation_id :: rstring
  ob_run_id :: rstring
  ob_canonical_target :: rstring
  ob_seen :: observation_state
  ob_parent_directory_identity :: directory_identity
  ob_created_at :: nat
  ob_expires_at :: nat

type_synonym observations = "(rstring \<times> file_observation) list"
type_synonym enumeration = "observations \<Rightarrow> observations"

section \<open>Identities\<close>

definition identity_from_metadata :: "file_metadata \<Rightarrow> observation_identity" where
  "identity_from_metadata m =
     \<lparr>oi_byte_count = md_len m, oi_modified_ns = map_option (min u64_max) (md_modified m),
      oi_device = Some (md_dev m), oi_inode = Some (md_ino m)\<rparr>"

definition from_file_change_identity :: "change_directory_identity \<Rightarrow> directory_identity option" where
  "from_file_change_identity i =
     (if \<not> change_identity_validate i then None
      else Some (case i of
          UnixChangeDirectory _ device inode \<Rightarrow> UnixDirectory FILE_OBSERVATION_DIRECTORY_IDENTITY_SCHEMA_VERSION device inode
        | WindowsChangeDirectory _ volume file_id \<Rightarrow>
            WindowsDirectory FILE_OBSERVATION_DIRECTORY_IDENTITY_SCHEMA_VERSION volume file_id))"

definition parent_directory_identity :: "rstring \<Rightarrow> file_metadata \<Rightarrow> file_change_error_code + directory_identity" where
  "parent_directory_identity canonical_target parent_metadata =
     (case path_parent (path_components canonical_target) of
        None \<Rightarrow> Inl ParentMissing
      | Some _ \<Rightarrow>
          (case Option.bind (from_bound_metadata parent_metadata) from_file_change_identity of
             None \<Rightarrow> Inl ObservationStale
           | Some i \<Rightarrow> Inr i))"

section \<open>Issuing\<close>

text \<open>\<open>Iterator::min_by_key\<close>: the first of the elements with the least key.\<close>

fun min_by_key :: "('a \<Rightarrow> nat) \<Rightarrow> 'a list \<Rightarrow> 'a option" where
  "min_by_key key [] = None"
| "min_by_key key (x # xs) =
     (case min_by_key key xs of
        None \<Rightarrow> Some x
      | Some y \<Rightarrow> Some (if key x \<le> key y then x else y))"

definition owner_is_valid :: "observation_owner \<Rightarrow> rstring \<Rightarrow> bool" where
  "owner_is_valid owner canonical_target \<longleftrightarrow>
     valid_owned_id (ow_source_tool_call_id owner) \<and> valid_owned_id (ow_conversation_id owner)
     \<and> valid_owned_id (ow_run_id owner) \<and> path_is_absolute canonical_target"

definition expires_from :: "nat \<Rightarrow> nat" where
  "expires_from now = min u64_max (now + FILE_OBSERVATION_TTL_MS)"

definition new_observation ::
  "rstring \<Rightarrow> observation_owner \<Rightarrow> rstring \<Rightarrow> observation_state \<Rightarrow> directory_identity \<Rightarrow> nat \<Rightarrow> file_observation" where
  "new_observation oid owner canonical_target state parent now =
     \<lparr>ob_id = oid, ob_source_tool_call_id = ow_source_tool_call_id owner,
      ob_conversation_id = ow_conversation_id owner, ob_run_id = ow_run_id owner,
      ob_canonical_target = canonical_target, ob_seen = state, ob_parent_directory_identity = parent,
      ob_created_at = now, ob_expires_at = expires_from now\<rparr>"

definition same_issuance ::
  "observation_owner \<Rightarrow> rstring \<Rightarrow> observation_state \<Rightarrow> directory_identity \<Rightarrow> file_observation \<Rightarrow> bool" where
  "same_issuance owner canonical_target state parent existing \<longleftrightarrow>
     ob_conversation_id existing = ow_conversation_id owner \<and> ob_run_id existing = ow_run_id owner
     \<and> path_components (ob_canonical_target existing) = path_components canonical_target
     \<and> ob_seen existing = state \<and> ob_parent_directory_identity existing = parent"

definition retain_unexpired :: "nat \<Rightarrow> observations \<Rightarrow> observations" where
  "retain_unexpired now obs = filter (\<lambda>(_, o1). ob_expires_at o1 > now) obs"

definition evict_oldest :: "enumeration \<Rightarrow> observations \<Rightarrow> observations" where
  "evict_oldest order obs =
     (if length obs \<ge> MAX_OBSERVATIONS_PER_RUN then
        (case min_by_key ob_created_at (map snd (order obs)) of
           None \<Rightarrow> obs
         | Some oldest \<Rightarrow> AList.delete (ob_id oldest) obs)
      else obs)"

definition fresh_id :: "rstring \<Rightarrow> rstring" where
  "fresh_id uuid = S ''fobs_'' @ uuid"

definition issue ::
  "enumeration \<Rightarrow> rstring \<Rightarrow> observation_owner \<Rightarrow> rstring \<Rightarrow> observation_state \<Rightarrow> file_metadata \<Rightarrow> nat
     \<Rightarrow> observations \<Rightarrow> (file_change_error_code + file_observation) \<times> observations" where
  "issue order uuid owner canonical_target state parent_metadata now obs =
     (if \<not> owner_is_valid owner canonical_target then (Inl InvalidArguments, obs)
      else case parent_directory_identity canonical_target parent_metadata of
        Inl e \<Rightarrow> (Inl e, obs)
      | Inr parent \<Rightarrow>
          let live = retain_unexpired now obs in
          (case find (\<lambda>o1. ob_source_tool_call_id o1 = ow_source_tool_call_id owner) (map snd (order live)) of
             Some existing \<Rightarrow>
               (if same_issuance owner canonical_target state parent existing then (Inr existing, live)
                else (Inl InvalidArguments, live))
           | None \<Rightarrow>
               let o1 = new_observation (fresh_id uuid) owner canonical_target state parent now in
               (Inr o1, AList.update (ob_id o1) o1 (evict_oldest order live))))"

definition issue_existing ::
  "enumeration \<Rightarrow> rstring \<Rightarrow> observation_owner \<Rightarrow> rstring \<Rightarrow> rstring \<Rightarrow> file_metadata \<Rightarrow> file_metadata \<Rightarrow> nat
     \<Rightarrow> observations \<Rightarrow> (file_change_error_code + file_observation) \<times> observations" where
  "issue_existing order uuid owner canonical_target revision metadata parent_metadata now obs =
     issue order uuid owner canonical_target (ObservedExisting revision (identity_from_metadata metadata))
       parent_metadata now obs"

definition issue_missing ::
  "enumeration \<Rightarrow> rstring \<Rightarrow> observation_owner \<Rightarrow> rstring \<Rightarrow> file_metadata \<Rightarrow> nat
     \<Rightarrow> observations \<Rightarrow> (file_change_error_code + file_observation) \<times> observations" where
  "issue_missing order uuid owner canonical_target parent_metadata now obs =
     issue order uuid owner canonical_target ObservedMissing parent_metadata now obs"

text \<open>A missing file is captured for a create proposal without entering the registry.\<close>

definition capture_missing_at ::
  "rstring \<Rightarrow> observation_owner \<Rightarrow> rstring \<Rightarrow> file_metadata \<Rightarrow> nat \<Rightarrow> file_change_error_code + file_observation" where
  "capture_missing_at uuid owner canonical_target parent_metadata now =
     (if \<not> owner_is_valid owner canonical_target then Inl InvalidArguments
      else case parent_directory_identity canonical_target parent_metadata of
        Inl e \<Rightarrow> Inl e
      | Inr parent \<Rightarrow> Inr (new_observation (fresh_id uuid) owner canonical_target ObservedMissing parent now))"

definition state_is_valid :: "observation_state \<Rightarrow> validation" where
  "state_is_valid state =
     (case state of
        ObservedMissing \<Rightarrow> Inr ()
      | ObservedExisting revision identity \<Rightarrow>
          first_error [require (valid_owned_id revision) InvalidArguments, observation_identity_validate identity])"

definition reissue ::
  "enumeration \<Rightarrow> rstring \<Rightarrow> observation_owner \<Rightarrow> rstring \<Rightarrow> observation_state \<Rightarrow> file_metadata \<Rightarrow> nat
     \<Rightarrow> observations \<Rightarrow> (file_change_error_code + file_observation) \<times> observations" where
  "reissue order predecessor_observation_id owner canonical_target state parent_metadata now obs =
     (if \<not> valid_observation_id predecessor_observation_id \<or> \<not> owner_is_valid owner canonical_target then
        (Inl InvalidArguments, obs)
      else case state_is_valid state of
        Inl e \<Rightarrow> (Inl e, obs)
      | Inr _ \<Rightarrow>
        (case parent_directory_identity canonical_target parent_metadata of
           Inl e \<Rightarrow> (Inl e, obs)
         | Inr parent \<Rightarrow>
             let live = retain_unexpired now obs in
             (case map_of live predecessor_observation_id of
                Some existing \<Rightarrow>
                  (if ob_source_tool_call_id existing = ow_source_tool_call_id owner
                      \<and> same_issuance owner canonical_target state parent existing
                   then (Inr existing, live) else (Inl InvalidArguments, live))
              | None \<Rightarrow>
                  if list_ex (\<lambda>o1. ob_source_tool_call_id o1 = ow_source_tool_call_id owner) (map snd (order live))
                  then (Inl InvalidArguments, live)
                  else
                    let o1 = new_observation predecessor_observation_id owner canonical_target state parent now in
                    (Inr o1, AList.update (ob_id o1) o1 (evict_oldest order live)))))"

definition reissue_existing ::
  "enumeration \<Rightarrow> rstring \<Rightarrow> observation_owner \<Rightarrow> rstring \<Rightarrow> rstring \<Rightarrow> file_metadata \<Rightarrow> file_metadata \<Rightarrow> nat
     \<Rightarrow> observations \<Rightarrow> (file_change_error_code + file_observation) \<times> observations" where
  "reissue_existing order predecessor_observation_id owner canonical_target revision metadata parent_metadata now obs =
     reissue order predecessor_observation_id owner canonical_target
       (ObservedExisting revision (identity_from_metadata metadata)) parent_metadata now obs"

definition reissue_missing ::
  "enumeration \<Rightarrow> rstring \<Rightarrow> observation_owner \<Rightarrow> rstring \<Rightarrow> file_metadata \<Rightarrow> nat
     \<Rightarrow> observations \<Rightarrow> (file_change_error_code + file_observation) \<times> observations" where
  "reissue_missing order predecessor_observation_id owner canonical_target parent_metadata now obs =
     reissue order predecessor_observation_id owner canonical_target ObservedMissing parent_metadata now obs"

section \<open>Using\<close>

definition validate_observation_binding ::
  "file_observation \<Rightarrow> rstring \<Rightarrow> rstring \<Rightarrow> rstring \<Rightarrow> nat \<Rightarrow> validation" where
  "validate_observation_binding o1 conversation_id run_id canonical_target now =
     first_error
       [require (now < ob_expires_at o1) ObservationExpired,
        require (ob_conversation_id o1 = conversation_id \<and> ob_run_id o1 = run_id) ObservationOwnerMismatch,
        require (path_components (ob_canonical_target o1) = path_components canonical_target) ObservationPathMismatch]"

definition validate_at ::
  "rstring \<Rightarrow> rstring \<Rightarrow> rstring \<Rightarrow> rstring \<Rightarrow> nat \<Rightarrow> observations \<Rightarrow> file_change_error_code + file_observation" where
  "validate_at observation_id conversation_id run_id canonical_target now obs =
     (if blank observation_id then Inl ObservationRequired
      else case map_of obs observation_id of
        None \<Rightarrow> Inl ObservationRequired
      | Some o1 \<Rightarrow>
          if ob_expires_at o1 \<le> now then Inl ObservationExpired
          else if ob_conversation_id o1 \<noteq> conversation_id \<or> ob_run_id o1 \<noteq> run_id then Inl ObservationOwnerMismatch
          else if path_components (ob_canonical_target o1) \<noteq> path_components canonical_target then Inl ObservationPathMismatch
          else Inr o1)"

definition claim_at ::
  "rstring \<Rightarrow> rstring \<Rightarrow> rstring \<Rightarrow> rstring \<Rightarrow> rstring \<Rightarrow> nat
     \<Rightarrow> observations \<Rightarrow> (file_change_error_code + file_observation) \<times> observations" where
  "claim_at observation_id conversation_id run_id canonical_target consumer_tool_call_id now obs =
     (case map_of obs observation_id of
        None \<Rightarrow> (Inl ObservationRequired, obs)
      | Some o1 \<Rightarrow>
          (case validate_observation_binding o1 conversation_id run_id canonical_target now of
             Inl e \<Rightarrow> (Inl e, obs)
           | Inr _ \<Rightarrow>
               if ob_source_tool_call_id o1 = consumer_tool_call_id then (Inl InvalidArguments, obs)
               else (Inr o1, AList.delete observation_id obs)))"

definition claim_observation ::
  "rstring \<Rightarrow> rstring \<Rightarrow> rstring \<Rightarrow> rstring \<Rightarrow> rstring \<Rightarrow> nat
     \<Rightarrow> observations \<Rightarrow> (file_change_error_code + file_observation) \<times> observations" where
  "claim_observation observation_id conversation_id run_id canonical_target consumer_tool_call_id now obs =
     (if \<not> valid_owned_id consumer_tool_call_id then (Inl InvalidArguments, obs)
      else claim_at observation_id conversation_id run_id canonical_target consumer_tool_call_id now obs)"

section \<open>Checkpoints\<close>

definition observation_to_checkpoint :: "file_observation \<Rightarrow> observation_checkpoint" where
  "observation_to_checkpoint o1 =
     \<lparr>oc_schema_version = FILE_OBSERVATION_CHECKPOINT_SCHEMA_VERSION, oc_observation_id = ob_id o1,
      oc_source_tool_call_id = ob_source_tool_call_id o1, oc_conversation_id = ob_conversation_id o1,
      oc_run_id = ob_run_id o1, oc_canonical_target = ob_canonical_target o1, oc_state = ob_seen o1,
      oc_parent_directory_identity = ob_parent_directory_identity o1, oc_created_at_ms = ob_created_at o1,
      oc_expires_at_ms = ob_expires_at o1\<rparr>"

definition checkpoint_exact ::
  "rstring \<Rightarrow> rstring \<Rightarrow> rstring \<Rightarrow> rstring \<Rightarrow> nat \<Rightarrow> observations \<Rightarrow> file_change_error_code + observation_checkpoint" where
  "checkpoint_exact observation_id conversation_id run_id canonical_target now obs =
     map_sum id observation_to_checkpoint (validate_at observation_id conversation_id run_id canonical_target now obs)"

text \<open>The validation of a checkpoint reads the clock itself: \<open>clock\<close> is that reading.\<close>

definition from_checkpoint ::
  "nat \<Rightarrow> observation_checkpoint \<Rightarrow> rstring \<Rightarrow> rstring \<Rightarrow> nat \<Rightarrow> file_change_error_code + file_observation" where
  "from_checkpoint clock c expected_conversation_id expected_run_id now =
     (case validate_frozen_binding clock c expected_conversation_id expected_run_id (oc_canonical_target c) of
        Inl e \<Rightarrow> Inl e
      | Inr _ \<Rightarrow>
          if oc_created_at_ms c > now \<or> oc_expires_at_ms c \<le> now then Inl InvalidArguments
          else Inr
            \<lparr>ob_id = oc_observation_id c, ob_source_tool_call_id = oc_source_tool_call_id c,
             ob_conversation_id = oc_conversation_id c, ob_run_id = oc_run_id c,
             ob_canonical_target = oc_canonical_target c, ob_seen = oc_state c,
             ob_parent_directory_identity = oc_parent_directory_identity c,
             ob_created_at = oc_created_at_ms c, ob_expires_at = oc_expires_at_ms c\<rparr>)"

fun restore_each ::
  "(nat \<times> observation_checkpoint) list \<Rightarrow> rstring \<Rightarrow> rstring \<Rightarrow> nat \<Rightarrow> rstring list \<Rightarrow> observations
     \<Rightarrow> file_change_error_code + observations" where
  "restore_each [] conversation_id run_id now source_call_ids obs = Inr obs"
| "restore_each ((clock, c) # cs) conversation_id run_id now source_call_ids obs =
     (case from_checkpoint clock c conversation_id run_id now of
        Inl e \<Rightarrow> Inl e
      | Inr o1 \<Rightarrow>
          if ob_source_tool_call_id o1 \<in> set source_call_ids \<or> map_of obs (ob_id o1) \<noteq> None then Inl InvalidArguments
          else restore_each cs conversation_id run_id now (ob_source_tool_call_id o1 # source_call_ids)
                 (AList.update (ob_id o1) o1 obs))"

definition from_checkpoints_at ::
  "(nat \<times> observation_checkpoint) list \<Rightarrow> rstring \<Rightarrow> rstring \<Rightarrow> nat \<Rightarrow> file_change_error_code + observations" where
  "from_checkpoints_at checkpoints conversation_id run_id now =
     (if length checkpoints > MAX_OBSERVATIONS_PER_RUN \<or> \<not> valid_owned_id conversation_id \<or> \<not> valid_owned_id run_id
      then Inl InvalidArguments
      else restore_each checkpoints conversation_id run_id now [] [])"

text \<open>
  Before a change executes, the parent directory and the file are looked at once more. \<open>bound\<close> is what the
  operating system answers: an error of binding the parent, or the metadata of the bound parent and what
  \<open>inspect_optional_leaf\<close> finds under the name of the file.
\<close>

datatype bind_error = BindLoop | BindPermissionDenied | BindOtherError

fun bind_error_code :: "bind_error \<Rightarrow> file_change_error_code" where
  "bind_error_code BindLoop = SymlinkForbidden"
| "bind_error_code BindPermissionDenied = PermissionDenied"
| "bind_error_code BindOtherError = ObservationStale"

definition revalidate_current_identity ::
  "nat \<Rightarrow> observation_checkpoint \<Rightarrow> rstring
     \<Rightarrow> bind_error + file_metadata option \<times> (file_change_error_code + file_metadata option) \<Rightarrow> validation" where
  "revalidate_current_identity clock c expected_target bound =
     (case validate_frozen_binding clock c (oc_conversation_id c) (oc_run_id c) expected_target of
        Inl e \<Rightarrow> Inl e
      | Inr _ \<Rightarrow>
        (case bound of
           Inl e \<Rightarrow> Inl (bind_error_code e)
         | Inr (None, _) \<Rightarrow> Inl ObservationStale
         | Inr (Some parent_metadata, leaf) \<Rightarrow>
           (case parent_directory_identity expected_target parent_metadata of
              Inl e \<Rightarrow> Inl e
            | Inr parent \<Rightarrow>
                if oc_parent_directory_identity c \<noteq> parent then Inl ObservationStale
                else case leaf of
                  Inl e \<Rightarrow> Inl e
                | Inr current \<Rightarrow>
                   (case (oc_state c, current) of
                      (ObservedMissing, None) \<Rightarrow> Inr ()
                    | (ObservedMissing, Some _) \<Rightarrow> Inl FileExists
                    | (ObservedExisting _ _, None) \<Rightarrow> Inl FileMissing
                    | (ObservedExisting _ identity, Some metadata) \<Rightarrow>
                        if identity = identity_from_metadata metadata then Inr () else Inl ObservationStale))))"

section \<open>The registry stays well formed\<close>

definition uuid_text :: "rstring \<Rightarrow> bool" where
  "uuid_text uuid \<longleftrightarrow> length uuid = 32 \<and> lower_hex_text uuid"

definition enumerates :: "enumeration \<Rightarrow> bool" where
  "enumerates order \<longleftrightarrow> (\<forall>obs. mset (order obs) = mset obs)"

definition entry_ok :: "rstring \<Rightarrow> file_observation \<Rightarrow> bool" where
  "entry_ok k o1 \<longleftrightarrow>
     k = ob_id o1 \<and> valid_observation_id k
     \<and> valid_owned_id (ob_source_tool_call_id o1) \<and> valid_owned_id (ob_conversation_id o1) \<and> valid_owned_id (ob_run_id o1)
     \<and> path_is_absolute (ob_canonical_target o1) \<and> directory_identity_validate (ob_parent_directory_identity o1)
     \<and> ob_expires_at o1 = expires_from (ob_created_at o1)"

definition sources_unique :: "(rstring \<rightharpoonup> file_observation) \<Rightarrow> bool" where
  "sources_unique m \<longleftrightarrow>
     (\<forall>k k' o1 o2. m k = Some o1 \<and> m k' = Some o2 \<and> ob_source_tool_call_id o1 = ob_source_tool_call_id o2 \<longrightarrow> k = k')"

definition registry_ok :: "observations \<Rightarrow> bool" where
  "registry_ok obs \<longleftrightarrow>
     distinct (map fst obs) \<and> length obs \<le> MAX_OBSERVATIONS_PER_RUN
     \<and> (\<forall>k o1. map_of obs k = Some o1 \<longrightarrow> entry_ok k o1) \<and> sources_unique (map_of obs)"

lemma min_by_key_None [simp]: "min_by_key key xs = None \<longleftrightarrow> xs = []"
  by (cases xs) (auto split: option.split)

lemma min_by_key_mem: "min_by_key key xs = Some x \<Longrightarrow> x \<in> set xs"
  by (induction xs arbitrary: x) (auto split: option.splits if_splits)

lemma min_by_key_least: "min_by_key key xs = Some x \<Longrightarrow> y \<in> set xs \<Longrightarrow> key x \<le> key y"
  by (induction xs arbitrary: x) (auto split: option.splits if_splits intro: le_trans)

lemma map_of_filter_le: "distinct (map fst obs) \<Longrightarrow> map_of (filter P obs) \<subseteq>\<^sub>m map_of obs"
  by (auto simp: map_le_def distinct_map_filter dest!: map_of_SomeD intro!: map_of_is_SomeI)

lemma AList_delete_filter: "AList.delete k obs = filter (\<lambda>e. fst e \<noteq> k) obs"
  by (induction obs) auto

lemma length_AList_update: "length (AList.update k v obs) \<le> Suc (length obs)"
  by (induction obs) auto

lemma registry_ok_sub:
  assumes "registry_ok obs"
  shows "registry_ok (filter P obs)" and "map_of (filter P obs) \<subseteq>\<^sub>m map_of obs"
proof -
  show le: "map_of (filter P obs) \<subseteq>\<^sub>m map_of obs"
    using assms by (simp add: registry_ok_def map_of_filter_le)
  then have "map_of obs k = Some o1" if "map_of (filter P obs) k = Some o1" for k o1
    using that by (metis domI map_le_def)
  with assms show "registry_ok (filter P obs)"
    unfolding registry_ok_def sources_unique_def
    by (meson distinct_map_filter le_trans length_filter_le)
qed

lemma enumerated_values:
  assumes "registry_ok obs" and "enumerates order"
  shows "o1 \<in> set (map snd (order obs)) \<longleftrightarrow> map_of obs (ob_id o1) = Some o1"
proof -
  have "set (order obs) = set obs" using assms(2) by (metis enumerates_def mset_eq_setD)
  then have "o1 \<in> set (map snd (order obs)) \<longleftrightarrow> (\<exists>k. map_of obs k = Some o1)"
    using assms(1) by (force simp: registry_ok_def dest: map_of_SomeD intro: map_of_is_SomeI)
  then show ?thesis using assms(1) by (auto simp: registry_ok_def entry_ok_def)
qed

lemma evict_oldest_ok:
  assumes ok: "registry_ok obs" and order: "enumerates order"
  shows "registry_ok (evict_oldest order obs)" and "map_of (evict_oldest order obs) \<subseteq>\<^sub>m map_of obs"
    and "length (evict_oldest order obs) < MAX_OBSERVATIONS_PER_RUN"
proof -
  show "registry_ok (evict_oldest order obs)" "map_of (evict_oldest order obs) \<subseteq>\<^sub>m map_of obs"
    using registry_ok_sub [OF ok] ok by (auto simp: evict_oldest_def AList_delete_filter split: option.split)
  show "length (evict_oldest order obs) < MAX_OBSERVATIONS_PER_RUN"
  proof (cases "length obs \<ge> MAX_OBSERVATIONS_PER_RUN")
    case True
    then have full: "length obs = MAX_OBSERVATIONS_PER_RUN" using ok by (simp add: registry_ok_def)
    have "length (order obs) = length obs" using order by (metis enumerates_def size_mset)
    then obtain oldest where oldest: "min_by_key ob_created_at (map snd (order obs)) = Some oldest"
      using full by (cases "min_by_key ob_created_at (map snd (order obs))") (auto simp: MAX_OBSERVATIONS_PER_RUN_def)
    then have "map_of obs (ob_id oldest) = Some oldest"
      using enumerated_values [OF ok order] min_by_key_mem by metis
    then have "(ob_id oldest, oldest) \<in> set obs" by (rule map_of_SomeD)
    then have "length (AList.delete (ob_id oldest) obs) < length obs"
      unfolding AList_delete_filter by (intro length_filter_less) auto
    with True oldest full show ?thesis by (simp add: evict_oldest_def)
  qed (simp add: evict_oldest_def)
qed

lemma register_ok:
  assumes ok: "registry_ok obs" and room: "length obs < MAX_OBSERVATIONS_PER_RUN" and entry: "entry_ok (ob_id o1) o1"
    and new: "\<And>k o2. map_of obs k = Some o2 \<Longrightarrow> ob_source_tool_call_id o2 \<noteq> ob_source_tool_call_id o1"
  shows "registry_ok (AList.update (ob_id o1) o1 obs)"
proof -
  have "distinct (map fst (AList.update (ob_id o1) o1 obs))"
    using ok by (simp add: registry_ok_def distinct_update)
  moreover have "length (AList.update (ob_id o1) o1 obs) \<le> MAX_OBSERVATIONS_PER_RUN"
    using room length_AList_update [of "ob_id o1" o1 obs] by simp
  moreover have "sources_unique ((map_of obs)(ob_id o1 \<mapsto> o1))"
    using ok new unfolding sources_unique_def registry_ok_def by (metis fun_upd_apply option.inject)
  ultimately show ?thesis
    using ok entry by (auto simp: registry_ok_def update_conv')
qed

text \<open>What issuing and reissuing do to the registry: nothing but forget, and enter the observation they return.\<close>

definition enters :: "observations \<Rightarrow> file_change_error_code + file_observation \<Rightarrow> observations \<Rightarrow> bool" where
  "enters obs r obs' \<longleftrightarrow>
     registry_ok obs'
     \<and> map_of obs' \<subseteq>\<^sub>m (case r of Inl _ \<Rightarrow> map_of obs | Inr o1 \<Rightarrow> (map_of obs)(ob_id o1 \<mapsto> o1))"

lemma retain_ok: "registry_ok obs \<Longrightarrow> registry_ok (retain_unexpired now obs)"
  "registry_ok obs \<Longrightarrow> map_of (retain_unexpired now obs) \<subseteq>\<^sub>m map_of obs"
  by (simp_all add: retain_unexpired_def registry_ok_sub)

lemma enters_error: "registry_ok obs \<Longrightarrow> enters obs (Inl e) obs"
  by (simp add: enters_def)

lemma enters_retained: "registry_ok obs \<Longrightarrow> enters obs (Inl e) (retain_unexpired now obs)"
  by (simp add: enters_def retain_ok)

lemma enters_existing:
  assumes "registry_ok obs" and "map_of (retain_unexpired now obs) (ob_id o1) = Some o1"
  shows "enters obs (Inr o1) (retain_unexpired now obs)"
proof -
  have "map_of obs (ob_id o1) = Some o1"
    using assms retain_ok(2) [OF assms(1), of now] by (metis domI map_le_def)
  then have "(map_of obs)(ob_id o1 \<mapsto> o1) = map_of obs" by (simp add: fun_upd_idem)
  then show ?thesis using assms(1) by (simp add: enters_def retain_ok)
qed

lemma enters_new:
  assumes ok: "registry_ok obs" and order: "enumerates order" and entry: "entry_ok (ob_id o1) o1"
    and new: "\<And>k o2. map_of (retain_unexpired now obs) k = Some o2
                \<Longrightarrow> ob_source_tool_call_id o2 \<noteq> ob_source_tool_call_id o1"
  shows "enters obs (Inr o1) (AList.update (ob_id o1) o1 (evict_oldest order (retain_unexpired now obs)))"
proof -
  let ?live = "retain_unexpired now obs"
  note evicted = evict_oldest_ok [OF retain_ok(1) [OF ok] order, of now]
  have le: "map_of (evict_oldest order ?live) \<subseteq>\<^sub>m map_of obs"
    using evicted(2) retain_ok(2) [OF ok] by (rule map_le_trans)
  have "ob_source_tool_call_id o2 \<noteq> ob_source_tool_call_id o1" if "map_of (evict_oldest order ?live) k = Some o2" for k o2
    using new that evicted(2) by (metis domI map_le_def)
  with evicted entry have "registry_ok (AList.update (ob_id o1) o1 (evict_oldest order ?live))"
    by (blast intro: register_ok)
  with le show ?thesis by (simp add: enters_def update_conv' map_le_upd)
qed

lemma unused_source:
  assumes "registry_ok obs" and "enumerates order" and "\<forall>o1 \<in> set (map snd (order obs)). ob_source_tool_call_id o1 \<noteq> c"
    and "map_of obs k = Some o2"
  shows "ob_source_tool_call_id o2 \<noteq> c"
proof -
  have "k = ob_id o2" using assms(1,4) by (auto simp: registry_ok_def entry_ok_def)
  with assms enumerated_values [OF assms(1,2), of o2] show ?thesis by blast
qed

lemma parent_identity_valid: "parent_directory_identity target m = Inr parent \<Longrightarrow> directory_identity_validate parent"
  by (auto simp: parent_directory_identity_def from_bound_metadata_def from_file_change_identity_def
      split: option.splits if_splits)

lemma lower_hex_char: "among c ''0123456789abcdef'' \<Longrightarrow> utf8_len c = 1 \<and> among c ''0123456789abcdefABCDEF''"
  by (cases c) (auto simp: among_def S_def)

lemma fresh_id_valid:
  assumes "uuid_text uuid"
  shows "valid_observation_id (fresh_id uuid)"
proof -
  have "byte_len uuid = length uuid" if "lower_hex_text uuid"
    using that by (induction uuid) (auto simp: lower_hex_text_def lower_hex_char)
  moreover have "list_all (\<lambda>c. among c ''0123456789abcdefABCDEF'') uuid" if "lower_hex_text uuid"
    using that by (auto simp: lower_hex_text_def list_all_iff lower_hex_char)
  ultimately show ?thesis
    using assms by (simp add: valid_observation_id_def fresh_id_def uuid_text_def S_def)
qed

lemma new_observation_entry:
  assumes "owner_is_valid owner target" and "parent_directory_identity target m = Inr parent" and "valid_observation_id oid"
  shows "entry_ok oid (new_observation oid owner target state parent now)"
  using assms parent_identity_valid by (auto simp: entry_ok_def new_observation_def owner_is_valid_def)

lemma issue_enters:
  assumes ok: "registry_ok obs" and order: "enumerates order" and uuid: "uuid_text uuid"
    and issue: "issue order uuid owner target state m now obs = (r, obs')"
  shows "enters obs r obs'"
proof (cases "owner_is_valid owner target \<and> (\<exists>parent. parent_directory_identity target m = Inr parent)")
  case False
  with issue ok show ?thesis
    by (auto simp: issue_def enters_error split: if_splits sum.splits)
next
  case True
  then obtain parent where owner: "owner_is_valid owner target" and parent: "parent_directory_identity target m = Inr parent"
    by blast
  let ?live = "retain_unexpired now obs"
  note live = retain_ok(1) [OF ok, of now]
  let ?used = "\<lambda>o1. ob_source_tool_call_id o1 = ow_source_tool_call_id owner"
  show ?thesis
  proof (cases "find ?used (map snd (order ?live))")
    case None
    let ?o = "new_observation (fresh_id uuid) owner target state parent now"
    have r: "r = Inr ?o" and obs': "obs' = AList.update (ob_id ?o) ?o (evict_oldest order ?live)"
      using issue owner parent None by (auto simp: issue_def Let_def)
    have "entry_ok (ob_id ?o) ?o"
      using new_observation_entry [OF owner parent fresh_id_valid [OF uuid]] by (simp add: new_observation_def)
    moreover have "ob_source_tool_call_id o2 \<noteq> ob_source_tool_call_id ?o" if "map_of ?live k = Some o2" for k o2
      using unused_source [OF live order _ that] None by (simp add: find_None_iff new_observation_def)
    ultimately show ?thesis unfolding r obs' using ok order by (blast intro: enters_new)
  next
    case (Some existing)
    then have "existing \<in> set (map snd (order ?live))" by (metis find_Some_iff nth_mem)
    then have "map_of ?live (ob_id existing) = Some existing"
      using enumerated_values [OF live order] by blast
    with Some issue owner parent show ?thesis
      by (auto simp: issue_def Let_def enters_existing [OF ok] enters_retained [OF ok] split: if_splits)
  qed
qed

lemma reissue_enters:
  assumes ok: "registry_ok obs" and order: "enumerates order"
    and reissue: "reissue order predecessor owner target state m now obs = (r, obs')"
  shows "enters obs r obs'"
proof (cases "valid_observation_id predecessor \<and> owner_is_valid owner target \<and> state_is_valid state = Inr ()
    \<and> (\<exists>parent. parent_directory_identity target m = Inr parent)")
  case False
  with reissue ok show ?thesis
    by (auto simp: reissue_def enters_error split: if_splits sum.splits)
next
  case True
  then obtain parent where pre: "valid_observation_id predecessor" "owner_is_valid owner target" "state_is_valid state = Inr ()"
    and parent: "parent_directory_identity target m = Inr parent" by blast
  let ?live = "retain_unexpired now obs"
  note live = retain_ok(1) [OF ok, of now]
  show ?thesis
  proof (cases "map_of ?live predecessor")
    case None
    let ?o = "new_observation predecessor owner target state parent now"
    have id: "ob_id ?o = predecessor" by (simp add: new_observation_def)
    show ?thesis
    proof (cases "list_ex (\<lambda>o1. ob_source_tool_call_id o1 = ow_source_tool_call_id owner) (map snd (order ?live))")
      case True
      with reissue pre parent None show ?thesis by (auto simp: reissue_def Let_def enters_retained [OF ok])
    next
      case False
      then have r: "r = Inr ?o" and obs': "obs' = AList.update (ob_id ?o) ?o (evict_oldest order ?live)"
        using reissue pre parent None by (auto simp: reissue_def Let_def id)
      have "entry_ok (ob_id ?o) ?o" using new_observation_entry [OF pre(2) parent pre(1)] by (simp add: id)
      moreover have "ob_source_tool_call_id o2 \<noteq> ob_source_tool_call_id ?o" if "map_of ?live k = Some o2" for k o2
        using unused_source [OF live order _ that] False by (simp add: list_ex_iff new_observation_def)
      ultimately show ?thesis unfolding r obs' using ok order by (blast intro: enters_new)
    qed
  next
    case (Some existing)
    moreover have "ob_id existing = predecessor" using Some live by (auto simp: registry_ok_def entry_ok_def)
    ultimately show ?thesis
      using reissue pre parent
      by (auto simp: reissue_def Let_def enters_existing [OF ok] enters_retained [OF ok] split: if_splits)
  qed
qed

definition claim_matches ::
  "file_observation \<Rightarrow> rstring \<Rightarrow> rstring \<Rightarrow> rstring \<Rightarrow> rstring \<Rightarrow> nat \<Rightarrow> bool" where
  "claim_matches o1 conversation_id run_id canonical_target consumer_tool_call_id now \<longleftrightarrow>
     now < ob_expires_at o1 \<and> ob_conversation_id o1 = conversation_id \<and> ob_run_id o1 = run_id
     \<and> path_components (ob_canonical_target o1) = path_components canonical_target
     \<and> ob_source_tool_call_id o1 \<noteq> consumer_tool_call_id"

lemma binding_valid_iff:
  "validate_observation_binding o1 conversation run target now = Inr () \<longleftrightarrow>
     now < ob_expires_at o1 \<and> ob_conversation_id o1 = conversation \<and> ob_run_id o1 = run
     \<and> path_components (ob_canonical_target o1) = path_components target"
  by (auto simp: validate_observation_binding_def require_def)

lemma claim_Inr:
  "claim_observation k conversation run target consumer now obs = (Inr o1, obs') \<longleftrightarrow>
     valid_owned_id consumer \<and> map_of obs k = Some o1 \<and> claim_matches o1 conversation run target consumer now
     \<and> obs' = AList.delete k obs"
proof (cases "map_of obs k")
  case (Some o2)
  show ?thesis
  proof (cases "validate_observation_binding o2 conversation run target now")
    case (Inl e)
    with Some binding_valid_iff [of o2 conversation run target now] show ?thesis
      by (auto simp: claim_observation_def claim_at_def claim_matches_def)
  next
    case (Inr u)
    with Some binding_valid_iff [of o2 conversation run target now] show ?thesis
      by (auto simp: claim_observation_def claim_at_def claim_matches_def)
  qed
qed (simp add: claim_observation_def claim_at_def)

lemma claim_Inl: "claim_observation k conversation run target consumer now obs = (Inl e, obs') \<Longrightarrow> obs' = obs"
  by (auto simp: claim_observation_def claim_at_def split: if_splits option.splits sum.splits)

section \<open>Histories\<close>

text \<open>
  A history of one registry: each grant of an observation, that is, each time the registry starts to hold it,
  and each successful claim, with the request that made it.
\<close>

record claim_request =
  cr_conversation_id :: rstring
  cr_run_id :: rstring
  cr_canonical_target :: rstring
  cr_consumer_tool_call_id :: rstring
  cr_now :: nat

datatype observation_event = Granted file_observation | Claimed file_observation claim_request

record observation_world =
  wd_registry :: observations
  wd_history :: "observation_event list"

definition grants :: "observations \<Rightarrow> file_change_error_code + file_observation \<Rightarrow> observation_event list" where
  "grants obs r =
     (case r of
        Inl _ \<Rightarrow> []
      | Inr o1 \<Rightarrow> if map_of obs (ob_id o1) = Some o1 then [] else [Granted o1])"

definition claims :: "claim_request \<Rightarrow> file_change_error_code + file_observation \<Rightarrow> observation_event list" where
  "claims rq r = (case r of Inl _ \<Rightarrow> [] | Inr o1 \<Rightarrow> [Claimed o1 rq])"

inductive observation_step :: "observation_world \<Rightarrow> observation_world \<Rightarrow> bool" where
  issued: "enumerates order \<Longrightarrow> uuid_text uuid
     \<Longrightarrow> issue order uuid owner target state m now (wd_registry w) = (r, obs')
     \<Longrightarrow> observation_step w \<lparr>wd_registry = obs', wd_history = wd_history w @ grants (wd_registry w) r\<rparr>"
| reissued: "enumerates order
     \<Longrightarrow> reissue order predecessor owner target state m now (wd_registry w) = (r, obs')
     \<Longrightarrow> observation_step w \<lparr>wd_registry = obs', wd_history = wd_history w @ grants (wd_registry w) r\<rparr>"
| claimed: "claim_observation k (cr_conversation_id rq) (cr_run_id rq) (cr_canonical_target rq)
       (cr_consumer_tool_call_id rq) (cr_now rq) (wd_registry w) = (r, obs')
     \<Longrightarrow> observation_step w \<lparr>wd_registry = obs', wd_history = wd_history w @ claims rq r\<rparr>"

text \<open>A registry starts empty or restored from checkpoints, whose times are 64 bit numbers.\<close>

definition registry_starts :: "observation_world \<Rightarrow> bool" where
  "registry_starts w \<longleftrightarrow>
     (wd_registry w = [] \<or> (\<exists>cs conversation_id run_id now.
        list_all (\<lambda>(_, c). oc_expires_at_ms c \<le> u64_max) cs
        \<and> from_checkpoints_at cs conversation_id run_id now = Inr (wd_registry w)))
     \<and> wd_history w = map (Granted \<circ> snd) (wd_registry w)"

text \<open>The observations a history leaves to claim: granted, and not claimed since.\<close>

fun record_event :: "observation_event \<Rightarrow> (rstring \<rightharpoonup> file_observation) \<Rightarrow> (rstring \<rightharpoonup> file_observation)" where
  "record_event (Granted o1) m = m(ob_id o1 \<mapsto> o1)"
| "record_event (Claimed o1 _) m = m(ob_id o1 := None)"

definition unclaimed :: "observation_event list \<Rightarrow> (rstring \<rightharpoonup> file_observation)" where
  "unclaimed events = fold record_event events Map.empty"

lemma unclaimed_simps [simp]:
  "unclaimed [] = Map.empty"
  "unclaimed (events @ [e]) = record_event e (unclaimed events)"
  by (simp_all add: unclaimed_def)

fun event_claims :: "rstring \<Rightarrow> observation_event \<Rightarrow> bool" where
  "event_claims k (Granted _) = False"
| "event_claims k (Claimed o1 _) = (ob_id o1 = k)"

lemma unclaimed_granted:
  "unclaimed events k = Some o1 \<Longrightarrow>
     ob_id o1 = k \<and> (\<exists>before since. events = before @ Granted o1 # since \<and> list_all (Not \<circ> event_claims k) since)"
proof (induction events rule: rev_induct)
  case (snoc e events)
  show ?case
  proof (cases "e = Granted o1 \<and> ob_id o1 = k")
    case True
    then have "events @ [e] = events @ Granted o1 # []" "list_all (Not \<circ> event_claims k) []" by simp_all
    with True show ?thesis by blast
  next
    case False
    with snoc.prems have "unclaimed events k = Some o1" and unaffected: "\<not> event_claims k e"
      by (cases e; auto split: if_splits)+
    with snoc.IH obtain before since where "ob_id o1 = k" "events = before @ Granted o1 # since"
      "list_all (Not \<circ> event_claims k) since" by blast
    then have "events @ [e] = before @ Granted o1 # (since @ [e])" "list_all (Not \<circ> event_claims k) (since @ [e])"
      using unaffected by simp_all
    with \<open>ob_id o1 = k\<close> show ?thesis by blast
  qed
qed simp

definition claim_justified :: "observation_event list \<Rightarrow> file_observation \<Rightarrow> claim_request \<Rightarrow> bool" where
  "claim_justified before o1 rq \<longleftrightarrow>
     unclaimed before (ob_id o1) = Some o1 \<and> entry_ok (ob_id o1) o1
     \<and> claim_matches o1 (cr_conversation_id rq) (cr_run_id rq) (cr_canonical_target rq) (cr_consumer_tool_call_id rq) (cr_now rq)"

definition history_ok :: "observation_event list \<Rightarrow> bool" where
  "history_ok events \<longleftrightarrow>
     (\<forall>before o1 rq after. events = before @ Claimed o1 rq # after \<longrightarrow> claim_justified before o1 rq)"

lemma history_ok_Nil [simp]: "history_ok []"
  by (simp add: history_ok_def)

lemma history_ok_snoc:
  "history_ok (events @ [e]) \<longleftrightarrow> history_ok events \<and> (\<forall>o1 rq. e = Claimed o1 rq \<longrightarrow> claim_justified events o1 rq)"
proof (intro iffI conjI)
  assume ok: "history_ok (events @ [e])"
  show "history_ok events" unfolding history_ok_def
  proof (intro allI impI)
    fix before o1 rq after assume "events = before @ Claimed o1 rq # after"
    then have "events @ [e] = before @ Claimed o1 rq # (after @ [e])" by simp
    with ok show "claim_justified before o1 rq" unfolding history_ok_def by blast
  qed
  show "\<forall>o1 rq. e = Claimed o1 rq \<longrightarrow> claim_justified events o1 rq"
    using ok unfolding history_ok_def by blast
next
  assume ok: "history_ok events \<and> (\<forall>o1 rq. e = Claimed o1 rq \<longrightarrow> claim_justified events o1 rq)"
  show "history_ok (events @ [e])" unfolding history_ok_def
  proof (intro allI impI)
    fix before o1 rq after assume eq: "events @ [e] = before @ Claimed o1 rq # after"
    with ok show "claim_justified before o1 rq"
      unfolding history_ok_def by (cases after rule: rev_cases) auto
  qed
qed

lemma history_ok_grants: "history_ok events \<Longrightarrow> history_ok (events @ grants obs r)"
  by (auto simp: grants_def history_ok_snoc split: sum.split)

definition world_ok :: "observation_world \<Rightarrow> bool" where
  "world_ok w \<longleftrightarrow> registry_ok (wd_registry w) \<and> map_of (wd_registry w) \<subseteq>\<^sub>m unclaimed (wd_history w) \<and> history_ok (wd_history w)"

lemma world_ok_enters:
  assumes "world_ok w" and "enters (wd_registry w) r obs'"
  shows "world_ok \<lparr>wd_registry = obs', wd_history = wd_history w @ grants (wd_registry w) r\<rparr>"
proof -
  have "map_of obs' \<subseteq>\<^sub>m unclaimed (wd_history w @ grants (wd_registry w) r)"
  proof (cases r)
    case (Inl e)
    with assms show ?thesis by (auto simp: world_ok_def enters_def grants_def intro: map_le_trans)
  next
    case (Inr o1)
    then have le: "map_of obs' \<subseteq>\<^sub>m (map_of (wd_registry w))(ob_id o1 \<mapsto> o1)" using assms(2) by (simp add: enters_def)
    show ?thesis
    proof (cases "map_of (wd_registry w) (ob_id o1) = Some o1")
      case True
      then have "(map_of (wd_registry w))(ob_id o1 \<mapsto> o1) = map_of (wd_registry w)" by (simp add: fun_upd_idem)
      with True Inr le assms(1) show ?thesis by (auto simp: world_ok_def grants_def intro: map_le_trans)
    next
      case False
      have "(map_of (wd_registry w))(ob_id o1 \<mapsto> o1) \<subseteq>\<^sub>m (unclaimed (wd_history w))(ob_id o1 \<mapsto> o1)"
        using assms(1) by (simp add: world_ok_def map_le_upd)
      with le have "map_of obs' \<subseteq>\<^sub>m (unclaimed (wd_history w))(ob_id o1 \<mapsto> o1)" by (rule map_le_trans)
      with False Inr show ?thesis by (simp add: grants_def)
    qed
  qed
  with assms show ?thesis by (simp add: world_ok_def enters_def history_ok_grants)
qed

lemma world_ok_claim:
  assumes w: "world_ok w"
    and claim: "claim_observation k (cr_conversation_id rq) (cr_run_id rq) (cr_canonical_target rq)
      (cr_consumer_tool_call_id rq) (cr_now rq) (wd_registry w) = (r, obs')"
  shows "world_ok \<lparr>wd_registry = obs', wd_history = wd_history w @ claims rq r\<rparr>"
proof (cases r)
  case (Inl e)
  with w claim claim_Inl show ?thesis by (fastforce simp: world_ok_def claims_def)
next
  case (Inr o1)
  with claim have o1: "map_of (wd_registry w) k = Some o1"
    and matches: "claim_matches o1 (cr_conversation_id rq) (cr_run_id rq) (cr_canonical_target rq)
        (cr_consumer_tool_call_id rq) (cr_now rq)"
    and obs': "obs' = AList.delete k (wd_registry w)"
    by (simp_all add: claim_Inr)
  have entry: "entry_ok (ob_id o1) o1" and id: "k = ob_id o1"
    using w o1 by (auto simp: world_ok_def registry_ok_def entry_ok_def)
  have un: "unclaimed (wd_history w) (ob_id o1) = Some o1"
    using w o1 id by (metis domI map_le_def world_ok_def)
  have "map_of obs' \<subseteq>\<^sub>m (unclaimed (wd_history w))(ob_id o1 := None)"
    using w unfolding obs' id by (auto simp: world_ok_def map_le_def delete_conv')
  moreover have "registry_ok obs'" unfolding obs' AList_delete_filter using w by (simp add: world_ok_def registry_ok_sub)
  ultimately show ?thesis
    using Inr w entry un matches by (simp add: world_ok_def claims_def history_ok_snoc claim_justified_def)
qed

lemma observation_step_ok: "observation_step w w' \<Longrightarrow> world_ok w \<Longrightarrow> world_ok w'"
proof (induction rule: observation_step.induct)
  case (issued order uuid owner target state m now w r obs')
  then have "enters (wd_registry w) r obs'" using issue_enters by (simp add: world_ok_def)
  with issued show ?case by (blast intro: world_ok_enters)
next
  case (reissued order predecessor owner target state m now w r obs')
  then have "enters (wd_registry w) r obs'" using reissue_enters by (simp add: world_ok_def)
  with reissued show ?case by (blast intro: world_ok_enters)
next
  case claimed
  then show ?case by (blast intro: world_ok_claim)
qed

section \<open>Starting from checkpoints\<close>

lemma validate_frozen_binding_Inr:
  "validate_frozen_binding clock c conversation run target = Inr () \<longleftrightarrow>
     oc_schema_version c = FILE_OBSERVATION_CHECKPOINT_SCHEMA_VERSION \<and> valid_observation_id (oc_observation_id c)
     \<and> valid_owned_id (oc_source_tool_call_id c) \<and> valid_owned_id (oc_conversation_id c) \<and> valid_owned_id (oc_run_id c)
     \<and> oc_conversation_id c = conversation \<and> oc_run_id c = run \<and> oc_created_at_ms c \<le> clock
     \<and> oc_expires_at_ms c = oc_created_at_ms c + FILE_OBSERVATION_TTL_MS
     \<and> directory_identity_validate (oc_parent_directory_identity c) \<and> state_is_valid (oc_state c) = Inr ()
     \<and> path_is_absolute (oc_canonical_target c) \<and> path_components (oc_canonical_target c) = path_components target
     \<and> str_trim (oc_canonical_target c) = oc_canonical_target c \<and> \<not> list_ex is_control (oc_canonical_target c)"
proof -
  have "oc_created_at_ms c \<le> oc_expires_at_ms c \<and> oc_expires_at_ms c - oc_created_at_ms c = FILE_OBSERVATION_TTL_MS \<longleftrightarrow>
      oc_expires_at_ms c = oc_created_at_ms c + FILE_OBSERVATION_TTL_MS" by auto
  then show ?thesis
    by (auto simp: validate_frozen_binding_def first_error_iff state_is_valid_def simp del: first_error.simps)
qed

lemma from_checkpoint_Inr:
  "from_checkpoint clock c conversation run now = Inr o1 \<longleftrightarrow>
     validate_frozen_binding clock c conversation run (oc_canonical_target c) = Inr ()
     \<and> oc_created_at_ms c \<le> now \<and> now < oc_expires_at_ms c \<and> c = observation_to_checkpoint o1"
proof (cases "validate_frozen_binding clock c conversation run (oc_canonical_target c)")
  case (Inr u)
  then have "oc_schema_version c = FILE_OBSERVATION_CHECKPOINT_SCHEMA_VERSION" by (simp add: validate_frozen_binding_Inr)
  with Inr show ?thesis
    by (cases c, cases o1) (auto simp: from_checkpoint_def observation_to_checkpoint_def)
qed (simp add: from_checkpoint_def)

lemma restored_entry:
  assumes "from_checkpoint clock c conversation run now = Inr o1" and "oc_expires_at_ms c \<le> u64_max"
  shows "entry_ok (ob_id o1) o1"
  using assms
  by (auto simp: from_checkpoint_Inr validate_frozen_binding_Inr entry_ok_def observation_to_checkpoint_def expires_from_def)

lemma restore_each_ok:
  assumes "restore_each cs conversation run now sources obs = Inr obs'" and "registry_ok obs"
    and "length obs + length cs \<le> MAX_OBSERVATIONS_PER_RUN"
    and "\<forall>k o1. map_of obs k = Some o1 \<longrightarrow> ob_source_tool_call_id o1 \<in> set sources"
    and "list_all (\<lambda>(_, c). oc_expires_at_ms c \<le> u64_max) cs"
  shows "registry_ok obs'"
  using assms
proof (induction cs conversation run now sources obs rule: restore_each.induct)
  case (2 clock c cs conversation run now sources obs)
  then obtain o1 where o1: "from_checkpoint clock c conversation run now = Inr o1"
    and new: "ob_source_tool_call_id o1 \<notin> set sources" "map_of obs (ob_id o1) = None"
    and rest: "restore_each cs conversation run now (ob_source_tool_call_id o1 # sources) (AList.update (ob_id o1) o1 obs) = Inr obs'"
    by (auto split: sum.splits if_splits)
  have "registry_ok (AList.update (ob_id o1) o1 obs)"
  proof (rule register_ok)
    show "entry_ok (ob_id o1) o1" using o1 "2.prems"(5) by (auto intro: restored_entry)
    show "ob_source_tool_call_id o2 \<noteq> ob_source_tool_call_id o1" if "map_of obs k = Some o2" for k o2
      using that new(1) "2.prems"(4) by metis
  qed (use "2.prems" in simp_all)
  moreover have "length (AList.update (ob_id o1) o1 obs) + length cs \<le> MAX_OBSERVATIONS_PER_RUN"
    using "2.prems"(3) length_AList_update [of "ob_id o1" o1 obs] by simp
  moreover have "\<forall>k o2. map_of (AList.update (ob_id o1) o1 obs) k = Some o2 \<longrightarrow>
      ob_source_tool_call_id o2 \<in> set (ob_source_tool_call_id o1 # sources)"
    using "2.prems"(4) by (auto simp: update_conv')
  ultimately show ?case
    using "2.IH" [OF o1 _ rest] new "2.prems"(5) by simp
qed simp

lemma from_checkpoints_ok:
  assumes "from_checkpoints_at cs conversation run now = Inr obs" and "list_all (\<lambda>(_, c). oc_expires_at_ms c \<le> u64_max) cs"
  shows "registry_ok obs"
  using assms restore_each_ok [of cs conversation run now "[]" "[]" obs]
  by (auto simp: from_checkpoints_at_def registry_ok_def sources_unique_def split: if_splits)

lemma unclaimed_at_start:
  "distinct (map fst obs) \<Longrightarrow> \<forall>e \<in> set obs. fst e = ob_id (snd e) \<Longrightarrow> unclaimed (map (Granted \<circ> snd) obs) = map_of obs"
proof (induction obs rule: rev_induct)
  case (snoc e obs)
  then have IH: "unclaimed (map (Granted \<circ> snd) obs) = map_of obs" and e: "fst e = ob_id (snd e)"
    by (simp_all add: comp_def)
  have "map_of obs (fst e) = None" using snoc.prems(1) by (auto simp: map_of_eq_None_iff)
  then have "map_of (obs @ [e]) = (map_of obs)(fst e \<mapsto> snd e)"
    by (auto simp: map_of_append fun_eq_iff map_add_def split: option.split)
  with IH e show ?case by (simp add: comp_def)
qed simp

lemma registry_starts_ok:
  assumes "registry_starts w"
  shows "world_ok w"
proof -
  have ok: "registry_ok (wd_registry w)"
    using assms from_checkpoints_ok by (auto simp: registry_starts_def registry_ok_def [of "[]"] sources_unique_def)
  then have "\<forall>e \<in> set (wd_registry w). fst e = ob_id (snd e)"
    by (metis entry_ok_def map_of_is_SomeI prod.collapse registry_ok_def)
  with ok have "unclaimed (wd_history w) = map_of (wd_registry w)"
    using assms unclaimed_at_start by (auto simp: registry_starts_def registry_ok_def)
  moreover have "history_ok (map (Granted \<circ> snd) obs)" for obs :: observations
    by (induction obs rule: rev_induct) (auto simp: history_ok_snoc)
  ultimately show ?thesis using ok assms by (simp add: world_ok_def registry_starts_def)
qed

interpretation observing: step_invariant observation_step world_ok
  by unfold_locales (rule observation_step_ok)

lemma observations_reachable_ok: "registry_starts w0 \<Longrightarrow> observation_step\<^sup>*\<^sup>* w0 w \<Longrightarrow> world_ok w"
  using observing.inv_steps registry_starts_ok by blast

lemma registry_ok_entries:
  assumes "registry_ok obs"
  shows "distinct (map fst obs)" and "distinct (map (ob_source_tool_call_id \<circ> snd) obs)"
    and "e \<in> set obs \<Longrightarrow> entry_ok (fst e) (snd e)" and "length obs \<le> 1024"
proof -
  show keys: "distinct (map fst obs)" and "length obs \<le> 1024"
    using assms by (simp_all add: registry_ok_def MAX_OBSERVATIONS_PER_RUN_def)
  have look: "map_of obs (fst e) = Some (snd e)" if "e \<in> set obs" for e
    using that keys by simp
  then show "e \<in> set obs \<Longrightarrow> entry_ok (fst e) (snd e)" using assms by (simp add: registry_ok_def)
  have "inj_on (ob_source_tool_call_id \<circ> snd) (set obs)"
  proof (rule inj_onI)
    fix e e' assume e: "e \<in> set obs" "e' \<in> set obs"
      and same: "(ob_source_tool_call_id \<circ> snd) e = (ob_source_tool_call_id \<circ> snd) e'"
    then have "fst e = fst e'" using look assms unfolding registry_ok_def sources_unique_def by (metis comp_apply)
    with look e show "e = e'" by (metis option.inject prod.expand)
  qed
  then show "distinct (map (ob_source_tool_call_id \<circ> snd) obs)"
    using keys by (simp add: distinct_map)
qed

section \<open>The view of a tool call\<close>

text \<open>
  Tools reach the registry through \<open>FileObservationRegistryView\<close> of \<open>src/crates/core/src/tools/context.rs\<close>, which takes the
  issuing or claiming call from the dispatch context and refuses another conversation or run.
\<close>

record tool_context =
  tc_conversation_id :: "rstring option"
  tc_run_id :: "rstring option"
  tc_tool_call_id :: "rstring option"

definition validate_owner :: "tool_context \<Rightarrow> rstring \<Rightarrow> rstring \<Rightarrow> validation" where
  "validate_owner ctx conversation_id run_id =
     require (tc_conversation_id ctx = Some conversation_id \<and> tc_run_id ctx = Some run_id) ObservationOwnerMismatch"

definition with_call ::
  "tool_context \<Rightarrow> rstring \<Rightarrow> rstring \<Rightarrow> (rstring \<Rightarrow> (file_change_error_code + 'a) \<times> observations) \<Rightarrow> observations
     \<Rightarrow> (file_change_error_code + 'a) \<times> observations" where
  "with_call ctx conversation_id run_id f obs =
     (case validate_owner ctx conversation_id run_id of
        Inl e \<Rightarrow> (Inl e, obs)
      | Inr _ \<Rightarrow> (case tc_tool_call_id ctx of None \<Rightarrow> (Inl InvalidArguments, obs) | Some call \<Rightarrow> f call))"

definition call_owner :: "rstring \<Rightarrow> rstring \<Rightarrow> rstring \<Rightarrow> observation_owner" where
  "call_owner call conversation_id run_id =
     \<lparr>ow_source_tool_call_id = call, ow_conversation_id = conversation_id, ow_run_id = run_id\<rparr>"

definition view_issue_existing where
  "view_issue_existing ctx order uuid conversation_id run_id canonical_target revision metadata parent_metadata now obs =
     with_call ctx conversation_id run_id (\<lambda>call.
       issue_existing order uuid (call_owner call conversation_id run_id) canonical_target revision metadata parent_metadata now obs) obs"

definition view_issue_missing where
  "view_issue_missing ctx order uuid conversation_id run_id canonical_target parent_metadata now obs =
     with_call ctx conversation_id run_id (\<lambda>call.
       issue_missing order uuid (call_owner call conversation_id run_id) canonical_target parent_metadata now obs) obs"

definition view_capture_missing where
  "view_capture_missing ctx uuid conversation_id run_id canonical_target parent_metadata now obs =
     with_call ctx conversation_id run_id (\<lambda>call.
       (capture_missing_at uuid (call_owner call conversation_id run_id) canonical_target parent_metadata now, obs)) obs"

definition view_reissue_existing where
  "view_reissue_existing ctx order predecessor conversation_id run_id canonical_target revision metadata parent_metadata now obs =
     with_call ctx conversation_id run_id (\<lambda>call.
       reissue_existing order predecessor (call_owner call conversation_id run_id) canonical_target revision metadata parent_metadata now obs) obs"

definition view_reissue_missing where
  "view_reissue_missing ctx order predecessor conversation_id run_id canonical_target parent_metadata now obs =
     with_call ctx conversation_id run_id (\<lambda>call.
       reissue_missing order predecessor (call_owner call conversation_id run_id) canonical_target parent_metadata now obs) obs"

definition view_validate where
  "view_validate ctx observation_id conversation_id run_id canonical_target now obs =
     (case validate_owner ctx conversation_id run_id of
        Inl e \<Rightarrow> Inl e
      | Inr _ \<Rightarrow> validate_at observation_id conversation_id run_id canonical_target now obs)"

definition view_claim where
  "view_claim ctx observation_id conversation_id run_id canonical_target now obs =
     with_call ctx conversation_id run_id (\<lambda>call.
       claim_observation observation_id conversation_id run_id canonical_target call now obs) obs"

text \<open>A call that validates an observation issued by another call can also claim it at that time, and gets the same.\<close>

lemma view_claim_iff_validate:
  assumes "tc_tool_call_id ctx = Some call" and "valid_owned_id call" and "\<not> blank observation_id"
  shows "fst (view_claim ctx observation_id conversation_id run_id canonical_target now obs) = Inr o1 \<longleftrightarrow>
     view_validate ctx observation_id conversation_id run_id canonical_target now obs = Inr o1 \<and> ob_source_tool_call_id o1 \<noteq> call"
  using assms
  by (auto simp: view_claim_def view_validate_def with_call_def claim_observation_def claim_at_def validate_at_def
      validate_observation_binding_def require_def split: sum.splits option.splits if_splits)

section \<open>Properties\<close>

text \<open>
  C7: over any sequence of issues, reissues and claims of one registry, which started
  empty or from checkpoints, every successful claim uses up a grant of exactly the observation it returns: there
  was such a grant, and no claim of the same id since. The claim came from the conversation and the run the
  observation belongs to, for the path it was issued for, from another tool call than the one that issued it, and
  less than ten minutes after it was issued.
\<close>

theorem observation_single_use:
  assumes "registry_starts w0" and "observation_step\<^sup>*\<^sup>* w0 w" and "wd_history w = before @ Claimed o1 rq # after"
  shows "(\<exists>earlier since. before = earlier @ Granted o1 # since \<and> list_all (Not \<circ> event_claims (ob_id o1)) since)
    \<and> ob_conversation_id o1 = cr_conversation_id rq \<and> ob_run_id o1 = cr_run_id rq
    \<and> path_components (ob_canonical_target o1) = path_components (cr_canonical_target rq)
    \<and> ob_source_tool_call_id o1 \<noteq> cr_consumer_tool_call_id rq
    \<and> cr_now rq < ob_created_at o1 + FILE_OBSERVATION_TTL_MS"
proof -
  have "history_ok (wd_history w)" using observations_reachable_ok [OF assms(1,2)] by (simp add: world_ok_def)
  then have justified: "claim_justified before o1 rq" using assms(3) by (simp add: history_ok_def)
  then have "unclaimed before (ob_id o1) = Some o1" by (simp add: claim_justified_def)
  from unclaimed_granted [OF this] justified show ?thesis
    by (auto simp: claim_justified_def claim_matches_def entry_ok_def expires_from_def)
qed

text \<open>
  C20: whatever is issued, reissued and claimed, a registry never holds more than 1024
  observations, holds each under its own id, at most one per id and at most one per issuing tool call, and lets
  none live longer than ten minutes.
\<close>

theorem observation_registry_bounded:
  assumes "registry_starts w0" and "observation_step\<^sup>*\<^sup>* w0 w"
  shows "length (wd_registry w) \<le> 1024 \<and> distinct (map fst (wd_registry w))
    \<and> distinct (map (ob_source_tool_call_id \<circ> snd) (wd_registry w))
    \<and> list_all (\<lambda>(k, o1). k = ob_id o1 \<and> valid_observation_id k
        \<and> ob_expires_at o1 \<le> ob_created_at o1 + FILE_OBSERVATION_TTL_MS) (wd_registry w)"
proof -
  have ok: "registry_ok (wd_registry w)" using observations_reachable_ok [OF assms] by (simp add: world_ok_def)
  then have "list_all (\<lambda>(k, o1). k = ob_id o1 \<and> valid_observation_id k
      \<and> ob_expires_at o1 \<le> ob_created_at o1 + FILE_OBSERVATION_TTL_MS) (wd_registry w)"
    by (force simp: list_all_iff entry_ok_def expires_from_def dest: registry_ok_entries(3))
  with registry_ok_entries [OF ok] show ?thesis by simp
qed

text \<open>What an observation has to satisfy beyond the invariant for its checkpoint to be accepted.\<close>

definition restorable :: "rstring \<Rightarrow> rstring \<Rightarrow> nat \<Rightarrow> file_observation \<Rightarrow> bool" where
  "restorable conversation_id run_id now o1 \<longleftrightarrow>
     ob_conversation_id o1 = conversation_id \<and> ob_run_id o1 = run_id
     \<and> ob_created_at o1 \<le> now \<and> now < ob_expires_at o1 \<and> ob_created_at o1 + FILE_OBSERVATION_TTL_MS \<le> u64_max
     \<and> state_is_valid (ob_seen o1) = Inr ()
     \<and> str_trim (ob_canonical_target o1) = ob_canonical_target o1 \<and> \<not> list_ex is_control (ob_canonical_target o1)"

lemma restorable_checkpoint:
  assumes "entry_ok (ob_id o1) o1" and "restorable conversation run now o1" and "now \<le> clock"
  shows "from_checkpoint clock (observation_to_checkpoint o1) conversation run now = Inr o1"
  using assms
  by (simp add: from_checkpoint_Inr validate_frozen_binding_Inr restorable_def entry_ok_def expires_from_def observation_to_checkpoint_def)

lemma AList_update_new: "k \<notin> fst ` set obs \<Longrightarrow> AList.update k v obs = obs @ [(k, v)]"
  by (induction obs) auto

lemma restore_each_roundtrip:
  assumes "\<forall>e \<in> set obs. fst e = ob_id (snd e) \<and> from_checkpoint (clock (fst e)) (observation_to_checkpoint (snd e)) conversation run now = Inr (snd e)"
    and "distinct (map fst (acc @ obs))" and "distinct (map (ob_source_tool_call_id \<circ> snd) obs)"
    and "set sources \<inter> (ob_source_tool_call_id \<circ> snd) ` set obs = {}"
  shows "restore_each (map (\<lambda>e. (clock (fst e), observation_to_checkpoint (snd e))) obs) conversation run now sources acc = Inr (acc @ obs)"
  using assms
proof (induction obs arbitrary: acc sources)
  case (Cons e obs)
  have new: "fst e \<notin> fst ` set acc" using Cons.prems(2) by auto
  then have "map_of acc (fst e) = None" "AList.update (fst e) (snd e) acc = acc @ [e]"
    using AList_update_new [OF new, of "snd e"] by (simp_all add: map_of_eq_None_iff)
  moreover have "restore_each (map (\<lambda>e. (clock (fst e), observation_to_checkpoint (snd e))) obs) conversation run now
      (ob_source_tool_call_id (snd e) # sources) (acc @ [e]) = Inr ((acc @ [e]) @ obs)"
    using Cons.prems by (intro Cons.IH) auto
  moreover have "from_checkpoint (clock (fst e)) (observation_to_checkpoint (snd e)) conversation run now = Inr (snd e)"
    "ob_id (snd e) = fst e" "ob_source_tool_call_id (snd e) \<notin> set sources"
    using Cons.prems by auto
  ultimately show ?case by simp
qed simp

text \<open>
  C17: the checkpoints of a reachable registry rebuild exactly that registry, provided
  the observations belong to the restored run and are alive at the time of restoring, their state is valid and
  their paths have no control characters and no white space at either end.
\<close>

theorem checkpoints_restore_registry:
  assumes "registry_starts w0" and "observation_step\<^sup>*\<^sup>* w0 w" and "valid_owned_id conversation" and "valid_owned_id run"
    and "\<forall>e \<in> set (wd_registry w). restorable conversation run now (snd e)" and "\<forall>k. now \<le> clock k"
  shows "from_checkpoints_at (map (\<lambda>e. (clock (fst e), observation_to_checkpoint (snd e))) (wd_registry w)) conversation run now
    = Inr (wd_registry w)"
proof -
  have ok: "registry_ok (wd_registry w)" using observations_reachable_ok [OF assms(1,2)] by (simp add: world_ok_def)
  note entries = registry_ok_entries [OF ok]
  have "restore_each (map (\<lambda>e. (clock (fst e), observation_to_checkpoint (snd e))) (wd_registry w)) conversation run now [] []
      = Inr ([] @ wd_registry w)"
    using entries assms(5,6) by (intro restore_each_roundtrip) (auto simp: entry_ok_def intro!: restorable_checkpoint)
  with entries(4) assms(3,4) show ?thesis by (simp add: from_checkpoints_at_def MAX_OBSERVATIONS_PER_RUN_def)
qed

text \<open>
  The look at the file before the change executes accepts exactly the file that was observed: the parent is the
  same directory, and the name still denotes the same file with the same size and time of modification.
\<close>

theorem revalidation_accepts_same_file:
  assumes "issue_existing order uuid owner target revision m parent now obs = (Inr o1, obs')"
    and "validate_frozen_binding clock (observation_to_checkpoint o1) (ob_conversation_id o1) (ob_run_id o1) target = Inr ()"
    and "find (\<lambda>o2. ob_source_tool_call_id o2 = ow_source_tool_call_id owner) (map snd (order (retain_unexpired now obs))) = None"
  shows "revalidate_current_identity clock (observation_to_checkpoint o1) target (Inr (Some parent', Inr leaf)) = Inr () \<longleftrightarrow>
     md_is_dir parent' \<and> md_dev parent' = md_dev parent \<and> md_ino parent' = md_ino parent
     \<and> (\<exists>m'. leaf = Some m' \<and> identity_from_metadata m' = identity_from_metadata m)"
  using assms
  by (auto simp: issue_existing_def issue_def Let_def revalidate_current_identity_def new_observation_def observation_to_checkpoint_def
      parent_directory_identity_def from_bound_metadata_def from_file_change_identity_def
      split: if_splits sum.splits option.splits)

text \<open>An observation is also issued for a path that no checkpoint may hold: with a tab, for instance.\<close>

definition tab_target :: rstring where
  "tab_target = S ''/a'' @ [Ch (CHR 0x09)] @ S ''.txt''"

definition example_owner :: observation_owner where
  "example_owner = \<lparr>ow_source_tool_call_id = S ''o'', ow_conversation_id = S ''v'', ow_run_id = S ''r''\<rparr>"

definition example_directory :: file_metadata where
  "example_directory = \<lparr>md_is_dir = True, md_is_file = False, md_is_symlink = False, md_len = 0, md_modified = None, md_dev = 1, md_ino = 2, md_nlink = 2\<rparr>"

definition example_observation :: "rstring \<Rightarrow> file_observation" where
  "example_observation target =
     new_observation (fresh_id (replicate 32 (Ch CHR ''0''))) example_owner target ObservedMissing (UnixDirectory 1 1 2) 0"

lemma example_ids [simp]: "valid_owned_id (S ''o'')" "valid_owned_id (S ''v'')" "valid_owned_id (S ''r'')" "valid_owned_id (S ''p'')"
  by (simp_all add: valid_owned_id_def S_def str_trim_def is_control_def code_point_def)

lemma example_uuid: "uuid_text (replicate 32 (Ch CHR ''0''))"
  by (simp add: uuid_text_def lower_hex_text_def list_all_iff)

lemma example_issue:
  assumes "path_is_absolute target" and "path_parent (path_components target) = Some parent"
  shows "issue id (replicate 32 (Ch CHR ''0'')) example_owner target ObservedMissing example_directory 0 []
    = (Inr (example_observation target), [(ob_id (example_observation target), example_observation target)])"
  using assms
  by (simp add: issue_def owner_is_valid_def example_owner_def parent_directory_identity_def from_bound_metadata_def
      from_file_change_identity_def example_directory_def FILE_CHANGE_RUN_GRANT_SCHEMA_VERSION_def
      FILE_OBSERVATION_DIRECTORY_IDENTITY_SCHEMA_VERSION_def retain_unexpired_def evict_oldest_def Let_def
      MAX_OBSERVATIONS_PER_RUN_def example_observation_def)

theorem unusable_observation_issued:
  "fst (issue id (replicate 32 (Ch CHR ''0'')) example_owner tab_target ObservedMissing example_directory 0 [])
     = Inr (example_observation tab_target)
   \<and> validate_frozen_binding clock (observation_to_checkpoint (example_observation tab_target)) conversation run target \<noteq> Inr ()"
proof -
  have "path_is_absolute tab_target" "path_parent (path_components tab_target) = Some [RootDir]"
    by code_simp+
  moreover have "list_ex is_control tab_target" by code_simp
  ultimately show ?thesis
    by (simp add: example_issue validate_frozen_binding_Inr observation_to_checkpoint_def example_observation_def new_observation_def)
qed

section \<open>Witnesses\<close>

definition example_claim :: claim_request where
  "example_claim = \<lparr>cr_conversation_id = S ''v'', cr_run_id = S ''r'', cr_canonical_target = S ''/a.txt'',
     cr_consumer_tool_call_id = S ''p'', cr_now = 5\<rparr>"

definition example_granted :: observation_world where
  "example_granted =
     \<lparr>wd_registry = [(ob_id (example_observation (S ''/a.txt'')), example_observation (S ''/a.txt''))],
      wd_history = [Granted (example_observation (S ''/a.txt''))]\<rparr>"

definition example_claimed :: observation_world where
  "example_claimed =
     \<lparr>wd_registry = [],
      wd_history = [Granted (example_observation (S ''/a.txt'')), Claimed (example_observation (S ''/a.txt'')) example_claim]\<rparr>"

definition example_start :: observation_world where
  "example_start = \<lparr>wd_registry = [], wd_history = []\<rparr>"

lemma example_starts: "registry_starts example_start"
  by (simp add: registry_starts_def example_start_def)

lemma example_path: "path_is_absolute (S ''/a.txt'')" "path_parent (path_components (S ''/a.txt'')) = Some [RootDir]"
  by code_simp+

lemma example_steps:
  "observation_step example_start example_granted" "observation_step example_granted example_claimed"
proof -
  have "enumerates id" by (simp add: enumerates_def)
  moreover have "issue id (replicate 32 (Ch CHR ''0'')) example_owner (S ''/a.txt'') ObservedMissing example_directory 0
      (wd_registry example_start) = (Inr (example_observation (S ''/a.txt'')), wd_registry example_granted)"
    by (simp add: example_start_def example_granted_def example_issue [OF example_path])
  ultimately have "observation_step example_start
      \<lparr>wd_registry = wd_registry example_granted,
       wd_history = wd_history example_start @ grants (wd_registry example_start) (Inr (example_observation (S ''/a.txt'')))\<rparr>"
    by (rule observation_step.issued [OF _ example_uuid])
  then show "observation_step example_start example_granted"
    by (simp add: example_start_def example_granted_def grants_def)
  have "claim_observation (ob_id (example_observation (S ''/a.txt''))) (cr_conversation_id example_claim) (cr_run_id example_claim)
      (cr_canonical_target example_claim) (cr_consumer_tool_call_id example_claim) (cr_now example_claim) (wd_registry example_granted)
      = (Inr (example_observation (S ''/a.txt'')), wd_registry example_claimed)"
    by (simp add: claim_Inr claim_matches_def example_claim_def example_granted_def example_claimed_def example_observation_def
        new_observation_def example_owner_def expires_from_def FILE_OBSERVATION_TTL_MS_def u64_max_def)
  then have "observation_step example_granted
      \<lparr>wd_registry = wd_registry example_claimed,
       wd_history = wd_history example_granted @ claims example_claim (Inr (example_observation (S ''/a.txt'')))\<rparr>"
    by (rule observation_step.claimed)
  then show "observation_step example_granted example_claimed"
    by (simp add: example_granted_def example_claimed_def claims_def)
qed

lemma example_observation_run: "observation_step\<^sup>*\<^sup>* example_start example_granted" "observation_step\<^sup>*\<^sup>* example_start example_claimed"
  using example_steps by (meson rtranclp.rtrancl_into_rtrancl rtranclp.rtrancl_refl)+

theorem observation_single_use_witness:
  "registry_starts example_start \<and> observation_step\<^sup>*\<^sup>* example_start example_claimed
   \<and> wd_history example_claimed = [Granted (example_observation (S ''/a.txt''))] @ Claimed (example_observation (S ''/a.txt'')) example_claim # []
   \<and> cr_now example_claim < ob_created_at (example_observation (S ''/a.txt'')) + FILE_OBSERVATION_TTL_MS"
proof -
  have history: "wd_history example_claimed =
      [Granted (example_observation (S ''/a.txt''))] @ Claimed (example_observation (S ''/a.txt'')) example_claim # []"
    by (simp add: example_claimed_def)
  with observation_single_use [OF example_starts example_observation_run(2) history] show ?thesis
    using example_starts example_observation_run(2) by simp
qed

theorem observation_registry_bounded_witness:
  "registry_starts example_start \<and> observation_step\<^sup>*\<^sup>* example_start example_granted \<and> length (wd_registry example_granted) \<le> 1024
   \<and> wd_registry example_granted \<noteq> []"
  using observation_registry_bounded [OF example_starts example_observation_run(1)] example_starts example_observation_run(1)
  by (simp add: example_granted_def)

theorem checkpoints_restore_registry_witness:
  "registry_starts example_start \<and> observation_step\<^sup>*\<^sup>* example_start example_granted \<and> wd_registry example_granted \<noteq> []
   \<and> from_checkpoints_at (map (\<lambda>e. (7, observation_to_checkpoint (snd e))) (wd_registry example_granted)) (S ''v'') (S ''r'') 7
     = Inr (wd_registry example_granted)"
proof -
  have "str_trim (S ''/a.txt'') = S ''/a.txt''" "\<not> list_ex is_control (S ''/a.txt'')" by code_simp+
  then have "\<forall>e \<in> set (wd_registry example_granted). restorable (S ''v'') (S ''r'') 7 (snd e)"
    by (simp add: restorable_def example_granted_def example_observation_def new_observation_def example_owner_def
        expires_from_def FILE_OBSERVATION_TTL_MS_def u64_max_def state_is_valid_def)
  from checkpoints_restore_registry [OF example_starts example_observation_run(1) _ _ this, of "\<lambda>_. 7"] show ?thesis
    using example_starts example_observation_run(1) by (simp add: example_granted_def)
qed

end
