(* ===== verification/Workspace.thy ===== *)
theory Workspace
  imports Directory_Identity
begin

text \<open>
  The addresses a model uses for files: the classification of locators
  (\<open>src/crates/core/src/resource_locator.rs\<close>), the system aliases (\<open>system_paths.rs\<close>) and the frozen workspace with its
  folders (\<open>workspace.rs\<close>), in their Unix configuration. A \<open>Path\<close> is the list of its components, by which Rust
  compares paths; a text that is a path keeps its string. The error texts are the constructors of
  \<open>workspace_error\<close>. Unicode's alphanumeric characters, the \<open>uuid\<close> and \<open>dirs\<close> crates and the environment variables
  are fields of \<open>path_env\<close>.
\<close>

section \<open>Data\<close>

datatype workspace_error =
    LocatorInvalid | BrowserDownloadInvalid | UnsupportedPrefix | AliasMissing | WorkspacePathInvalid
  | PathLeavesFolder | HomeUnknown | KnownDirectoryUnknown | AliasPathLeaves | TooManyFolders
  | PrimaryFolderInvalid | FolderIdentityInvalid | DirectoryIdentityInvalid | FolderPathInvalid | FoldersOverlap
  | FolderNotCaptured | FolderUnavailable | FolderIdentityChanged | DirectoryUnreadable | NeedsWorkspace
  | PrimaryUnavailable | UnknownAlias | NotFilesystem

record path_env =
  pv_is_alphanumeric :: "rchar \<Rightarrow> bool"
  pv_uuid_parse :: "rstring \<Rightarrow> (nat \<times> rstring) option"
  pv_home_dir :: "rstring option"
  pv_HOME :: "rstring option"
  pv_USERPROFILE :: "rstring option"
  pv_HOMEDRIVE :: "rstring option"
  pv_HOMEPATH :: "rstring option"
  pv_desktop_dir :: "rstring option"
  pv_document_dir :: "rstring option"
  pv_download_dir :: "rstring option"

datatype project_folder_role = Primary | Auxiliary

record workspace_folder =
  wf_id :: rstring
  wf_alias :: rstring
  wf_role :: project_folder_role
  wf_path :: rstring
  wf_canonical_path :: "rstring option"
  wf_directory_identity :: "change_directory_identity option"

record workspace_context =
  wc_project_id :: "rstring option"
  wc_display_name :: "rstring option"
  wc_root_path :: "rstring option"
  wc_folders :: "workspace_folder list"

type_synonym workspace_resolver = "workspace_context option"

datatype resource_locator =
    Attachment rstring | GeneratedArtifact rstring | SkillResource rstring | BrowserDownload rstring
  | OpaqueBrowserArtifact rstring | SystemAlias rstring | Filesystem rstring

section \<open>Workspace addresses\<close>

definition ensure :: "bool \<Rightarrow> 'e \<Rightarrow> 'e + unit" where
  "ensure ok e = (if ok then Inr () else Inl e)"

lemma ensure_simps [simp]: "ensure ok e = Inr u \<longleftrightarrow> ok" "ensure ok e = Inl e' \<longleftrightarrow> \<not> ok \<and> e' = e"
  by (auto simp: ensure_def)

definition valid_alias :: "path_env \<Rightarrow> rstring \<Rightarrow> bool" where
  "valid_alias env alias \<longleftrightarrow>
     alias \<noteq> [] \<and> alias \<noteq> S ''.'' \<and> alias \<noteq> S ''..'' \<and> str_trim alias = alias
     \<and> list_all (\<lambda>c. pv_is_alphanumeric env c \<or> among c ''.-_'') alias"

fun is_normal :: "path_component \<Rightarrow> bool" where
  "is_normal (Normal _) = True"
| "is_normal _ = False"

definition clean_relative :: "path_buf \<Rightarrow> workspace_error + path_buf" where
  "clean_relative path =
     (if list_all (\<lambda>c. is_normal c \<or> c = CurDir) path then Inr (filter is_normal path) else Inl PathLeavesFolder)"

definition parse_workspace_path :: "path_env \<Rightarrow> rstring \<Rightarrow> workspace_error + (rstring \<times> path_buf) option" where
  "parse_workspace_path env input =
     (if input = S ''@workspace'' then Inl AliasMissing
      else case strip_prefix input (S ''@workspace/'') of
        None \<Rightarrow> Inr None
      | Some tail \<Rightarrow>
          let (alias, relative) = (case split_once SLASH tail of Some p \<Rightarrow> p | None \<Rightarrow> (tail, [])) in
          if \<not> valid_alias env alias \<or> BSL \<in> set relative \<or> Ch (CHR 0x00) \<in> set relative
             \<or> NL \<in> set relative \<or> CR \<in> set relative
          then Inl WorkspacePathInvalid
          else rbind (clean_relative (path_components relative)) (\<lambda>path. Inr (Some (alias, path))))"

section \<open>Resource locators\<close>

definition BROWSER_DOWNLOAD_PREFIX :: rstring where "BROWSER_DOWNLOAD_PREFIX = S ''browser-download:''"
definition BROWSER_ARTIFACT_PREFIX :: rstring where "BROWSER_ARTIFACT_PREFIX = S ''browser-artifact:''"

definition validate_browser_download_id :: "path_env \<Rightarrow> rstring \<Rightarrow> workspace_error + unit" where
  "validate_browser_download_id env value =
     (case strip_prefix value BROWSER_DOWNLOAD_PREFIX of
        None \<Rightarrow> Inl BrowserDownloadInvalid
      | Some raw \<Rightarrow>
          (case pv_uuid_parse env raw of
             None \<Rightarrow> Inl BrowserDownloadInvalid
           | Some (version, text) \<Rightarrow>
               ensure (version = 4 \<and> BROWSER_DOWNLOAD_PREFIX @ text = value) BrowserDownloadInvalid))"

definition is_system_alias :: "rstring \<Rightarrow> bool" where
  "is_system_alias value \<longleftrightarrow>
     list_ex (\<lambda>alias. value = S alias
         \<or> (case strip_prefix value (S alias) of
              None \<Rightarrow> False
            | Some rest \<Rightarrow> starts_with rest [SLASH] \<or> starts_with rest [BSL]))
       [''~'', ''@home'', ''@desktop'', ''@documents'', ''@downloads'']"

definition has_unrecognized_scheme_prefix :: "rstring \<Rightarrow> bool" where
  "has_unrecognized_scheme_prefix value \<longleftrightarrow>
     \<not> path_is_absolute value
     \<and> (case split_once (Ch CHR '':'') value of
          None \<Rightarrow> False
        | Some (scheme, _) \<Rightarrow>
            (case scheme of
               [] \<Rightarrow> False
             | c # cs \<Rightarrow> is_ascii_alphabetic c \<and> list_all (\<lambda>c. is_ascii_alphanumeric c \<or> among c ''+.-'') cs))"

definition has_unrecognized_at_namespace :: "rstring \<Rightarrow> bool" where
  "has_unrecognized_at_namespace value \<longleftrightarrow> starts_with value (S ''@'')"

definition locator_parse :: "path_env \<Rightarrow> rstring \<Rightarrow> workspace_error + resource_locator" where
  "locator_parse env text =
     (let value = str_trim text in
      if value = [] \<or> Ch (CHR 0x00) \<in> set value \<or> NL \<in> set value \<or> CR \<in> set value \<or> int (length value) > 32 * 1024
      then Inl LocatorInvalid
      else if starts_with value (S ''@attachments/'') then Inr (Attachment value)
      else if starts_with value (S ''image-artifact://sha256/'') \<or> starts_with value (S ''artifact://sha256/'')
      then Inr (GeneratedArtifact value)
      else if starts_with value (S ''skill://'') then Inr (SkillResource value)
      else if starts_with value BROWSER_DOWNLOAD_PREFIX
      then rbind (validate_browser_download_id env value) (\<lambda>_. Inr (BrowserDownload value))
      else if starts_with value BROWSER_ARTIFACT_PREFIX then Inr (OpaqueBrowserArtifact value)
      else if is_system_alias value then Inr (SystemAlias value)
      else rbind (parse_workspace_path env value) (\<lambda>parsed.
        if parsed \<noteq> None then Inr (Filesystem value)
        else if has_unrecognized_scheme_prefix value \<or> has_unrecognized_at_namespace value then Inl UnsupportedPrefix
        else Inr (Filesystem value)))"

fun is_virtual :: "resource_locator \<Rightarrow> bool" where
  "is_virtual (SystemAlias _) = False"
| "is_virtual (Filesystem _) = False"
| "is_virtual _ = True"

section \<open>System aliases\<close>

definition or_else :: "'a option \<Rightarrow> 'a option \<Rightarrow> 'a option" where
  "or_else a b = (case a of Some x \<Rightarrow> Some x | None \<Rightarrow> b)"

definition keep :: "('a \<Rightarrow> bool) \<Rightarrow> 'a option \<Rightarrow> 'a option" where
  "keep p m = Option.bind m (\<lambda>x. if p x then Some x else None)"

lemma keep_Some [simp]: "keep p m = Some x \<longleftrightarrow> m = Some x \<and> p x"
  by (cases m) (auto simp: keep_def)

definition home_dir :: "path_env \<Rightarrow> workspace_error + rstring" where
  "home_dir env =
     ok_or (keep path_is_absolute
       (or_else (pv_home_dir env)
         (or_else (keep (\<lambda>v. v \<noteq> []) (pv_HOME env))
           (or_else (keep (\<lambda>v. v \<noteq> []) (pv_USERPROFILE env))
             (case (pv_HOMEDRIVE env, pv_HOMEPATH env) of
                (Some drive, Some path) \<Rightarrow> Some (path_join drive path)
              | _ \<Rightarrow> None))))) HomeUnknown"

definition known_dir :: "path_env \<Rightarrow> rstring option \<Rightarrow> string \<Rightarrow> workspace_error + rstring" where
  "known_dir env resolved fallback_name =
     ok_or (keep path_is_absolute
       (or_else (keep path_is_absolute resolved)
         (case home_dir env of Inr home \<Rightarrow> Some (path_join home (S fallback_name)) | Inl _ \<Rightarrow> None))) KnownDirectoryUnknown"

definition desktop_dir :: "path_env \<Rightarrow> workspace_error + rstring" where
  "desktop_dir env = known_dir env (pv_desktop_dir env) ''Desktop''"

definition documents_dir :: "path_env \<Rightarrow> workspace_error + rstring" where
  "documents_dir env = known_dir env (pv_document_dir env) ''Documents''"

definition downloads_dir :: "path_env \<Rightarrow> workspace_error + rstring" where
  "downloads_dir env = known_dir env (pv_download_dir env) ''Downloads''"

definition strip_alias_prefix :: "rstring \<Rightarrow> string \<Rightarrow> rstring option" where
  "strip_alias_prefix input alias =
     Option.bind (strip_prefix input (S alias)) (\<lambda>remainder.
       or_else (strip_prefix remainder [SLASH]) (strip_prefix remainder [BSL]))"

definition clean_alias_remainder :: "rstring \<Rightarrow> workspace_error + path_buf" where
  "clean_alias_remainder remainder =
     (let cs = path_components remainder in
      if list_all (\<lambda>c. is_normal c \<or> c = CurDir) cs then Inr (filter is_normal cs) else Inl AliasPathLeaves)"

definition alias_base :: "path_env \<Rightarrow> rstring \<Rightarrow> workspace_error + (rstring \<times> rstring) option" where
  "alias_base env input =
     (let with_base = (\<lambda>base remainder. rbind base (\<lambda>dir. Inr (Some (dir, remainder)))) in
      if input = S ''~'' then with_base (home_dir env) []
      else case strip_alias_prefix input ''~'' of Some rest \<Rightarrow> with_base (home_dir env) rest | None \<Rightarrow>
      if input = S ''@home'' then with_base (home_dir env) []
      else case strip_alias_prefix input ''@home'' of Some rest \<Rightarrow> with_base (home_dir env) rest | None \<Rightarrow>
      if input = S ''@desktop'' then with_base (desktop_dir env) []
      else case strip_alias_prefix input ''@desktop'' of Some rest \<Rightarrow> with_base (desktop_dir env) rest | None \<Rightarrow>
      if input = S ''@documents'' then with_base (documents_dir env) []
      else case strip_alias_prefix input ''@documents'' of Some rest \<Rightarrow> with_base (documents_dir env) rest | None \<Rightarrow>
      if input = S ''@downloads'' then with_base (downloads_dir env) []
      else case strip_alias_prefix input ''@downloads'' of Some rest \<Rightarrow> with_base (downloads_dir env) rest | None \<Rightarrow>
      Inr None)"

definition expand_system_path :: "path_env \<Rightarrow> rstring \<Rightarrow> workspace_error + path_buf option" where
  "expand_system_path env text =
     (let input = str_trim text in
      if input = [] then Inr None
      else rbind (alias_base env input) (\<lambda>found.
        case found of
          None \<Rightarrow> Inr None
        | Some (base, remainder) \<Rightarrow>
            rbind (clean_alias_remainder remainder) (\<lambda>rest. Inr (Some (path_components base @ rest)))))"

section \<open>The frozen workspace\<close>

definition from_primary :: "rstring option \<Rightarrow> workspace_resolver" where
  "from_primary root =
     map_option (\<lambda>path. \<lparr>wc_project_id = None, wc_display_name = None, wc_root_path = Some path, wc_folders = []\<rparr>) root"

definition primary_root :: "workspace_resolver \<Rightarrow> rstring option" where
  "primary_root r = Option.bind r wc_root_path"

definition resolver_folders :: "workspace_resolver \<Rightarrow> workspace_folder list" where
  "resolver_folders r = (case r of None \<Rightarrow> [] | Some w \<Rightarrow> wc_folders w)"

fun check_folders :: "path_env \<Rightarrow> rstring list \<Rightarrow> rstring list \<Rightarrow> workspace_folder list \<Rightarrow> workspace_error + unit" where
  "check_folders env ids aliases [] = Inr ()"
| "check_folders env ids aliases (f # fs) =
     (if blank (wf_id f) \<or> \<not> valid_alias env (wf_alias f) \<or> wf_id f \<in> set ids \<or> wf_alias f \<in> set aliases
         \<or> \<not> path_is_absolute (wf_path f) \<or> (wf_canonical_path f \<noteq> None) \<noteq> (wf_directory_identity f \<noteq> None)
      then Inl FolderIdentityInvalid
      else rbind (case wf_directory_identity f of
                    None \<Rightarrow> Inr ()
                  | Some i \<Rightarrow> ensure (change_identity_validate i) DirectoryIdentityInvalid) (\<lambda>_.
        case wf_canonical_path f of
          Some p \<Rightarrow> if \<not> path_is_absolute p then Inl FolderPathInvalid
                    else check_folders env (wf_id f # ids) (wf_alias f # aliases) fs
        | None \<Rightarrow> check_folders env (wf_id f # ids) (wf_alias f # aliases) fs))"

definition roots_overlap :: "workspace_folder \<Rightarrow> workspace_folder \<Rightarrow> bool" where
  "roots_overlap f g =
     (case (wf_canonical_path f, wf_canonical_path g) of
        (Some root, Some path) \<Rightarrow> path_starts_with root path \<or> path_starts_with path root
      | _ \<Rightarrow> False)"

fun check_overlap :: "workspace_folder list \<Rightarrow> workspace_folder list \<Rightarrow> workspace_error + unit" where
  "check_overlap earlier [] = Inr ()"
| "check_overlap earlier (f # fs) =
     (if list_ex (roots_overlap f) earlier then Inl FoldersOverlap else check_overlap (earlier @ [f]) fs)"

definition validate_shape :: "path_env \<Rightarrow> workspace_resolver \<Rightarrow> workspace_error + unit" where
  "validate_shape env r =
     (let folders = resolver_folders r; primaries = filter (\<lambda>f. wf_role f = Primary) folders in
      if length folders > 32 then Inl TooManyFolders
      else if folders = [] then Inr ()
      else if length primaries \<noteq> 1 \<or> map_option path_components (primary_root r) \<noteq> Some (path_components (wf_path (hd primaries)))
      then Inl PrimaryFolderInvalid
      else rbind (check_folders env [] [] folders) (\<lambda>_. check_overlap [] folders))"

definition validated_root :: "path_env \<Rightarrow> file_system \<Rightarrow> workspace_resolver \<Rightarrow> workspace_folder \<Rightarrow> workspace_error + path_buf" where
  "validated_root env fs r folder =
     rbind (validate_shape env r) (\<lambda>_.
     rbind (ok_or (wf_canonical_path folder) FolderNotCaptured) (\<lambda>expected.
     case fs_canonicalize fs (path_components (wf_path folder)) of
       Inl _ \<Rightarrow> Inl FolderUnavailable
     | Inr current \<Rightarrow>
         if current \<noteq> path_components expected then Inl FolderIdentityChanged
         else rbind (ok_or (change_identity_read fs current) DirectoryUnreadable) (\<lambda>i.
           if Some i \<noteq> wf_directory_identity folder then Inl FolderIdentityChanged else Inr current)))"

definition primary_folder :: "workspace_resolver \<Rightarrow> workspace_folder option" where
  "primary_folder r = find (\<lambda>f. wf_role f = Primary) (resolver_folders r)"

definition canonical_primary :: "path_env \<Rightarrow> file_system \<Rightarrow> workspace_resolver \<Rightarrow> workspace_error + path_buf" where
  "canonical_primary env fs r =
     rbind (validate_shape env r) (\<lambda>_.
     case primary_folder r of
       Some primary \<Rightarrow> validated_root env fs r primary
     | None \<Rightarrow>
         rbind (ok_or (primary_root r) NeedsWorkspace) (\<lambda>root.
           case fs_canonicalize fs (path_components root) of
             Inl _ \<Rightarrow> Inl PrimaryUnavailable
           | Inr path \<Rightarrow> Inr path))"

definition canonical_or_none :: "file_system \<Rightarrow> rstring \<Rightarrow> path_buf option" where
  "canonical_or_none fs root = (case fs_canonicalize fs (path_components root) of Inl _ \<Rightarrow> None | Inr path \<Rightarrow> Some path)"

definition available_primary :: "path_env \<Rightarrow> file_system \<Rightarrow> workspace_resolver \<Rightarrow> workspace_error + path_buf option" where
  "available_primary env fs r =
     rbind (validate_shape env r) (\<lambda>_.
     case primary_folder r of
       Some primary \<Rightarrow>
         (if wf_canonical_path primary = None then Inr None
          else rbind (validated_root env fs r primary) (\<lambda>root. Inr (Some root)))
     | None \<Rightarrow> Inr (Option.bind (primary_root r) (canonical_or_none fs)))"

text \<open>The loop over the folders of \<open>validate_declared_absolute\<close>: each folder the target lies in has to be valid.\<close>

fun validate_containing :: "path_env \<Rightarrow> file_system \<Rightarrow> workspace_resolver \<Rightarrow> path_buf \<Rightarrow> workspace_folder list \<Rightarrow> workspace_error + unit" where
  "validate_containing env fs r target [] = Inr ()"
| "validate_containing env fs r target (f # folders) =
     (if starts_with target (path_components (wf_path f))
         \<or> (case wf_canonical_path f of None \<Rightarrow> False | Some root \<Rightarrow> starts_with target (path_components root))
      then rbind (validated_root env fs r f) (\<lambda>_. validate_containing env fs r target folders)
      else validate_containing env fs r target folders)"

definition validate_declared_absolute :: "path_env \<Rightarrow> file_system \<Rightarrow> workspace_resolver \<Rightarrow> path_buf \<Rightarrow> workspace_error + unit" where
  "validate_declared_absolute env fs r target =
     (if ParentDir \<in> set target then Inl PathLeavesFolder
      else validate_containing env fs r target (resolver_folders r))"

definition resolve_input :: "path_env \<Rightarrow> file_system \<Rightarrow> workspace_resolver \<Rightarrow> rstring \<Rightarrow> workspace_error + path_buf" where
  "resolve_input env fs r text =
     rbind (validate_shape env r) (\<lambda>_.
     let input = str_trim text in
     rbind (locator_parse env input) (\<lambda>locator.
     rbind (parse_workspace_path env input) (\<lambda>parsed.
     case parsed of
       Some (alias, relative) \<Rightarrow>
         rbind (ok_or (find (\<lambda>f. wf_alias f = alias) (resolver_folders r)) UnknownAlias) (\<lambda>folder.
         rbind (validated_root env fs r folder) (\<lambda>root. Inr (root @ relative)))
     | None \<Rightarrow>
         if is_virtual locator then Inl NotFilesystem
         else rbind (expand_system_path env input) (\<lambda>expanded.
           case expanded of
             Some path \<Rightarrow> rbind (validate_declared_absolute env fs r path) (\<lambda>_. Inr path)
           | None \<Rightarrow>
               if path_is_absolute input
               then rbind (validate_declared_absolute env fs r (path_components input)) (\<lambda>_. Inr (path_components input))
               else rbind (canonical_primary env fs r) (\<lambda>root.
                 rbind (clean_relative (path_components input)) (\<lambda>relative. Inr (root @ relative)))))))"

fun containing_folder :: "path_env \<Rightarrow> file_system \<Rightarrow> workspace_resolver \<Rightarrow> path_buf \<Rightarrow> workspace_folder list \<Rightarrow> workspace_error + path_buf option" where
  "containing_folder env fs r target [] = Inr None"
| "containing_folder env fs r target (f # folders) =
     (if (case wf_canonical_path f of None \<Rightarrow> False | Some p \<Rightarrow> starts_with target (path_components p))
      then rbind (validated_root env fs r f) (\<lambda>root. Inr (Some root))
      else if starts_with target (path_components (wf_path f))
      then rbind (validated_root env fs r f) (\<lambda>_. containing_folder env fs r target folders)
      else containing_folder env fs r target folders)"

definition containing_root :: "path_env \<Rightarrow> file_system \<Rightarrow> workspace_resolver \<Rightarrow> path_buf \<Rightarrow> workspace_error + path_buf option" where
  "containing_root env fs r target =
     rbind (validate_shape env r) (\<lambda>_.
     if resolver_folders r = [] then
       Inr (keep (starts_with target) (Option.bind (primary_root r) (canonical_or_none fs)))
     else containing_folder env fs r target (resolver_folders r))"

definition resolver_contains :: "path_env \<Rightarrow> file_system \<Rightarrow> workspace_resolver \<Rightarrow> path_buf \<Rightarrow> bool" where
  "resolver_contains env fs r target = (case containing_root env fs r target of Inr (Some _) \<Rightarrow> True | _ \<Rightarrow> False)"

fun overlapping_folder :: "path_env \<Rightarrow> file_system \<Rightarrow> workspace_resolver \<Rightarrow> path_buf \<Rightarrow> workspace_folder list \<Rightarrow> workspace_error + bool" where
  "overlapping_folder env fs r target [] = Inr False"
| "overlapping_folder env fs r target (f # folders) =
     (let root = path_components (case wf_canonical_path f of None \<Rightarrow> wf_path f | Some p \<Rightarrow> p) in
      if starts_with root target \<or> starts_with target root
      then rbind (validated_root env fs r f) (\<lambda>_. Inr True)
      else overlapping_folder env fs r target folders)"

definition overlaps_root :: "path_env \<Rightarrow> file_system \<Rightarrow> workspace_resolver \<Rightarrow> path_buf \<Rightarrow> workspace_error + bool" where
  "overlaps_root env fs r target =
     rbind (validate_shape env r) (\<lambda>_.
     if resolver_folders r = [] then
       Inr (case primary_root r of
              None \<Rightarrow> False
            | Some root \<Rightarrow>
                let path = (case canonical_or_none fs root of None \<Rightarrow> path_components root | Some p \<Rightarrow> p) in
                starts_with path target \<or> starts_with target path)
     else overlapping_folder env fs r target (resolver_folders r))"

section \<open>Display\<close>

fun join_slash :: "rstring list \<Rightarrow> rstring" where
  "join_slash [] = []"
| "join_slash [w] = w"
| "join_slash (w # ws) = w @ SLASH # join_slash ws"

definition path_text :: "path_buf \<Rightarrow> rstring" where
  "path_text path = join_slash (normal_names path)"

definition escape_relative :: "path_env \<Rightarrow> rstring \<Rightarrow> rstring" where
  "escape_relative env path =
     (if path = [] then S ''.''
      else if starts_with path (S ''@'') \<or> (case locator_parse env path of Inr (Filesystem _) \<Rightarrow> False | _ \<Rightarrow> True)
      then S ''./'' @ path
      else path)"

fun strip_components :: "path_buf \<Rightarrow> path_buf \<Rightarrow> path_buf option" where
  "strip_components p [] = Some p"
| "strip_components [] (q # qs) = None"
| "strip_components (c # p) (q # qs) = (if c = q then strip_components p qs else None)"

fun display_in_folders :: "path_env \<Rightarrow> path_buf \<Rightarrow> workspace_folder list \<Rightarrow> rstring option" where
  "display_in_folders env target [] = None"
| "display_in_folders env target (f # folders) =
     (case Option.bind (wf_canonical_path f) (\<lambda>root. strip_components target (path_components root)) of
        None \<Rightarrow> display_in_folders env target folders
      | Some rest \<Rightarrow>
          let relative = path_text rest in
          Some (if wf_role f = Primary then escape_relative env relative
                else if relative = [] then S ''@workspace/'' @ wf_alias f
                else S ''@workspace/'' @ wf_alias f @ SLASH # relative))"

definition display_path :: "path_env \<Rightarrow> file_system \<Rightarrow> workspace_resolver \<Rightarrow> path_buf \<Rightarrow> rstring" where
  "display_path env fs r target =
     (case display_in_folders env target (resolver_folders r) of
        Some text \<Rightarrow> text
      | None \<Rightarrow>
          (case (if resolver_folders r = []
                 then Option.bind (Option.bind (primary_root r) (canonical_or_none fs)) (strip_components target)
                 else None) of
             Some relative \<Rightarrow> escape_relative env (path_text relative)
           | None \<Rightarrow> path_string target))"

section \<open>Freezing a project\<close>

record project_folder =
  pf_id :: rstring
  pf_path :: rstring
  pf_alias :: rstring
  pf_role :: project_folder_role

record project_record =
  pj_id :: rstring
  pj_name :: rstring
  pj_folders :: "project_folder list"

definition primary_path :: "project_record \<Rightarrow> rstring option" where
  "primary_path p = map_option pf_path (find (\<lambda>f. pf_role f = Primary) (pj_folders p))"

definition capture_folder :: "file_system \<Rightarrow> project_folder \<Rightarrow> workspace_folder" where
  "capture_folder fs f =
     (let captured = Option.bind (canonical_or_none fs (pf_path f)) (\<lambda>path.
            map_option (\<lambda>i. (path_string path, i)) (change_identity_read fs path)) in
      \<lparr>wf_id = pf_id f, wf_alias = pf_alias f, wf_role = pf_role f, wf_path = pf_path f,
       wf_canonical_path = map_option fst captured, wf_directory_identity = map_option snd captured\<rparr>)"

definition capture_project_workspace :: "path_env \<Rightarrow> file_system \<Rightarrow> project_record \<Rightarrow> workspace_error + workspace_context" where
  "capture_project_workspace env fs p =
     (let context = \<lparr>wc_project_id = Some (pj_id p), wc_display_name = Some (pj_name p), wc_root_path = primary_path p,
                     wc_folders = map (capture_folder fs) (pj_folders p)\<rparr> in
      rbind (validate_shape env (Some context)) (\<lambda>_. Inr context))"

definition freeze_project_workspace :: "path_env \<Rightarrow> file_system \<Rightarrow> project_record \<Rightarrow> workspace_error + workspace_context" where
  "freeze_project_workspace env fs p =
     rbind (capture_project_workspace env fs p) (\<lambda>context.
     rbind (if wc_root_path context \<noteq> None then rbind (canonical_primary env fs (Some context)) (\<lambda>_. Inr ()) else Inr ())
       (\<lambda>_. Inr context))"

end
