(* ===== verification/Workspace_Props.thy ===== *)
theory Workspace_Props
  imports Workspace
begin

text \<open>
  Where an address leads: a resolved path has no \<open>..\<close> and, inside a frozen folder, that folder is still the captured
  directory; and the name under which a file is shown resolves back to that file.
\<close>

section \<open>Paths\<close>

definition normal_path :: "path_buf \<Rightarrow> bool" where
  "normal_path p \<longleftrightarrow> (\<exists>names. p = RootDir # map Normal names)"

text \<open>What \<open>canonicalize\<close> documents: an absolute path with no \<open>.\<close> and no \<open>..\<close>.\<close>

definition canonicalizes :: "file_system \<Rightarrow> bool" where
  "canonicalizes fs \<longleftrightarrow> (\<forall>p q. fs_canonicalize fs p = Inr q \<longrightarrow> normal_path q)"

lemma is_normal_iff: "is_normal c \<longleftrightarrow> (\<exists>w. c = Normal w)"
  by (cases c) auto

lemma all_normal_map: "list_all is_normal cs \<longleftrightarrow> (\<exists>names. cs = map Normal names)"
  by (induction cs) (auto simp: is_normal_iff Cons_eq_map_conv)

lemma normal_path_iff: "normal_path p \<longleftrightarrow> (\<exists>cs. p = RootDir # cs \<and> list_all is_normal cs)"
  by (auto simp: normal_path_def all_normal_map)

lemma normal_path_append: "normal_path p \<Longrightarrow> list_all is_normal cs \<Longrightarrow> normal_path (p @ cs)"
  by (auto simp: normal_path_iff)

lemma piece_component_cases: "c \<in> set (piece_component w) \<Longrightarrow> c = ParentDir \<or> is_normal c"
  by (auto simp: piece_component_def split: if_splits)

lemma absolute_components:
  assumes "path_is_absolute s"
  shows "\<exists>cs. path_components s = RootDir # cs \<and> list_all (\<lambda>c. c = ParentDir \<or> is_normal c) cs"
  using assms piece_component_cases by (auto simp: path_components_def list_all_iff)

lemma absolute_normal:
  assumes "path_is_absolute s" and "ParentDir \<notin> set (path_components s @ cs)" and "list_all is_normal cs"
  shows "normal_path (path_components s @ cs)"
  using absolute_components [OF assms(1)] assms(2,3) by (auto simp: normal_path_iff list_all_iff)

lemma clean_relative_normal: "clean_relative p = Inr q \<Longrightarrow> list_all is_normal q"
  by (auto simp: clean_relative_def list_all_iff split: if_splits)

lemma clean_alias_normal: "clean_alias_remainder s = Inr q \<Longrightarrow> list_all is_normal q"
  by (auto simp: clean_alias_remainder_def Let_def list_all_iff split: if_splits)

lemma strip_components_Some [simp]: "strip_components p q = Some rest \<longleftrightarrow> p = q @ rest"
  by (induction p q rule: strip_components.induct) auto

lemma strip_components_own [simp]: "strip_components (q @ rest) q = Some rest"
  by simp

section \<open>A well-formed workspace\<close>

lemma roots_overlap_sym: "roots_overlap f g = roots_overlap g f"
  by (auto simp: roots_overlap_def split: option.split)

lemma check_overlap_disjoint:
  assumes "check_overlap earlier fs = Inr ()" and "f \<in> set fs" and "g \<in> set (earlier @ fs)" and "roots_overlap f g"
  shows "f = g"
  using assms
proof (induction earlier fs arbitrary: f g rule: check_overlap.induct)
  case (2 earlier h fs)
  then have apart: "\<forall>e \<in> set earlier. \<not> roots_overlap h e" and rest: "check_overlap (earlier @ [h]) fs = Inr ()"
    by (auto simp: list_ex_iff split: if_splits)
  have IH: "f' = g'" if "f' \<in> set fs" "g' \<in> set (earlier @ [h] @ fs)" "roots_overlap f' g'" for f' g'
    using "2.IH" [of f' g'] that apart rest by (simp add: list_ex_iff)
  from "2.prems"(2,3) consider "f \<in> set fs" | "f = h" "g \<in> set fs" | "f = h" "g \<in> set earlier" | "f = h" "g = h" by auto
  then show ?case
  proof cases
    case 2
    with "2.prems"(4) IH [of g h] show ?thesis by (simp add: roots_overlap_sym)
  qed (use "2.prems"(3,4) apart IH [of f g] in auto)
qed simp

lemma shape_disjoint:
  assumes "validate_shape env r = Inr ()" and "f \<in> set (resolver_folders r)" and "g \<in> set (resolver_folders r)"
    and "roots_overlap f g"
  shows "f = g"
  using assms check_overlap_disjoint [of "[]" "resolver_folders r" f g]
  by (auto simp: validate_shape_def Let_def split: if_splits)

lemma validated_root_Inr:
  "validated_root env fs r f = Inr root \<longleftrightarrow>
     validate_shape env r = Inr () \<and> fs_canonicalize fs (path_components (wf_path f)) = Inr root
     \<and> (\<exists>c i. wf_canonical_path f = Some c \<and> root = path_components c
          \<and> wf_directory_identity f = Some i \<and> change_identity_read fs root = Some i)"
  by (cases "fs_canonicalize fs (path_components (wf_path f))"; cases "wf_directory_identity f")
    (auto simp: validated_root_def split: if_splits)

lemma prefixes_overlap:
  assumes "wf_canonical_path f = Some c" and "wf_canonical_path g = Some d"
    and "starts_with p (path_components c)" and "starts_with p (path_components d)"
  shows "roots_overlap f g"
  using assms prefix_same_cases [of "path_components c" p "path_components d"]
  by (auto simp: roots_overlap_def path_starts_with_def starts_with_iff_prefix)

text \<open>A path in a validated folder lies in no other captured folder.\<close>

lemma validated_root_unique:
  assumes "validated_root env fs r g = Inr root" and "g \<in> set (resolver_folders r)" and "starts_with p root"
    and "f \<in> set (resolver_folders r)" and "wf_canonical_path f = Some c" and "starts_with p (path_components c)"
  shows "f = g"
  using assms shape_disjoint [of env r f g] prefixes_overlap [of f c g _ p] by (auto simp: validated_root_Inr)

lemma validate_containing_Inr:
  "validate_containing env fs r target folders = Inr () \<longleftrightarrow>
     (\<forall>f \<in> set folders. starts_with target (path_components (wf_path f))
        \<or> (\<exists>c. wf_canonical_path f = Some c \<and> starts_with target (path_components c))
        \<longrightarrow> (\<exists>root. validated_root env fs r f = Inr root))"
  by (induction folders) (auto split: option.splits)

definition folders_valid :: "path_env \<Rightarrow> file_system \<Rightarrow> workspace_resolver \<Rightarrow> path_buf \<Rightarrow> bool" where
  "folders_valid env fs r p \<longleftrightarrow>
     (\<forall>f \<in> set (resolver_folders r). \<forall>c. wf_canonical_path f = Some c \<and> starts_with p (path_components c)
        \<longrightarrow> validated_root env fs r f = Inr (path_components c))"

lemma declared_absolute_valid:
  assumes "validate_declared_absolute env fs r p = Inr ()"
  shows "ParentDir \<notin> set p" and "folders_valid env fs r p"
proof -
  show "ParentDir \<notin> set p" using assms by (auto simp: validate_declared_absolute_def split: if_splits)
  have "validate_containing env fs r p (resolver_folders r) = Inr ()"
    using assms by (auto simp: validate_declared_absolute_def split: if_splits)
  then have "\<exists>root. validated_root env fs r f = Inr root"
    if "f \<in> set (resolver_folders r)" "wf_canonical_path f = Some c" "starts_with p (path_components c)" for f c
    using that unfolding validate_containing_Inr by blast
  then show "folders_valid env fs r p" by (fastforce simp: folders_valid_def validated_root_Inr)
qed

lemma validated_folder_valid:
  assumes "validated_root env fs r g = Inr root" and "g \<in> set (resolver_folders r)"
  shows "folders_valid env fs r (root @ cs)"
  unfolding folders_valid_def
proof (intro ballI allI impI)
  fix f c assume f: "f \<in> set (resolver_folders r)" and c: "wf_canonical_path f = Some c \<and> starts_with (root @ cs) (path_components c)"
  have "starts_with (root @ cs) root" by (simp add: starts_with_iff_prefix)
  with validated_root_unique [OF assms] f c have "f = g" by blast
  with assms c show "validated_root env fs r f = Inr (path_components c)" by (auto simp: validated_root_Inr)
qed

lemma canonical_primary_valid:
  assumes "canonical_primary env fs r = Inr root"
  shows "folders_valid env fs r (root @ cs)" and "\<exists>p. fs_canonicalize fs p = Inr root"
proof -
  have "folders_valid env fs r (root @ cs) \<and> (\<exists>p. fs_canonicalize fs p = Inr root)"
  proof (cases "primary_folder r")
    case None
    then have no_primary: "filter (\<lambda>f. wf_role f = Primary) (resolver_folders r) = []"
      by (auto simp: primary_folder_def find_None_iff filter_empty_conv)
    then have "resolver_folders r = []"
      using assms by (auto simp: canonical_primary_def validate_shape_def Let_def split: if_splits)
    moreover obtain x where "(case fs_canonicalize fs (path_components x) of Inl _ \<Rightarrow> Inl PrimaryUnavailable | Inr path \<Rightarrow> Inr path) = Inr root"
      using None assms by (auto simp: canonical_primary_def)
    then have "fs_canonicalize fs (path_components x) = Inr root" by (cases "fs_canonicalize fs (path_components x)") auto
    ultimately show ?thesis by (auto simp: folders_valid_def)
  next
    case (Some g)
    then have "g \<in> set (resolver_folders r)" by (metis find_Some_iff nth_mem primary_folder_def)
    with Some assms show ?thesis
      by (auto simp: canonical_primary_def intro: validated_folder_valid) (auto simp: validated_root_Inr)
  qed
  then show "folders_valid env fs r (root @ cs)" "\<exists>p. fs_canonicalize fs p = Inr root" by blast+
qed

lemma expanded_absolute:
  assumes "expand_system_path env text = Inr (Some p)"
  obtains base rest where "p = path_components base @ rest" and "path_is_absolute base" and "list_all is_normal rest"
proof -
  have absolute: "home_dir env = Inr d \<Longrightarrow> path_is_absolute d" "desktop_dir env = Inr d \<Longrightarrow> path_is_absolute d"
    "documents_dir env = Inr d \<Longrightarrow> path_is_absolute d" "downloads_dir env = Inr d \<Longrightarrow> path_is_absolute d" for d
    by (simp_all add: home_dir_def desktop_dir_def documents_dir_def downloads_dir_def known_dir_def)
  obtain base remainder rest where base: "alias_base env (str_trim text) = Inr (Some (base, remainder))"
    and rest: "clean_alias_remainder remainder = Inr rest" and p: "p = path_components base @ rest"
    using assms by (auto simp: expand_system_path_def Let_def split: if_splits option.splits)
  have "path_is_absolute base"
    using base absolute by (auto simp: alias_base_def Let_def split: if_splits option.splits)
  with p rest show ?thesis by (intro that [of base rest]) (auto intro: clean_alias_normal)
qed

text \<open>
  C16: whatever address is resolved, and whatever the file system holds: the resulting path
  is absolute and has no \<open>.\<close> or \<open>..\<close>, and if it lies in a captured folder of the workspace, then the path of that folder
  still leads to the directory that was captured, with the same device and inode.
\<close>

theorem resolved_path_confined:
  assumes fs: "canonicalizes fs" and resolve: "resolve_input env fs r text = Inr p"
  shows "normal_path p \<and> (\<forall>f \<in> set (resolver_folders r). \<forall>c.
     wf_canonical_path f = Some c \<and> starts_with p (path_components c) \<longrightarrow>
       fs_canonicalize fs (path_components (wf_path f)) = Inr (path_components c)
       \<and> wf_directory_identity f \<noteq> None \<and> change_identity_read fs (path_components c) = wf_directory_identity f)"
proof -
  obtain parsed where parsed: "parse_workspace_path env (str_trim text) = Inr parsed"
    using resolve by (auto simp: resolve_input_def Let_def)
  have "normal_path p \<and> folders_valid env fs r p"
  proof (cases parsed)
    case (Some a)
    then obtain folder root where folder: "find (\<lambda>f. wf_alias f = fst a) (resolver_folders r) = Some folder"
      and root: "validated_root env fs r folder = Inr root" and p: "p = root @ snd a"
      using resolve parsed by (auto simp: resolve_input_def Let_def split: prod.splits)
    from folder have mem: "folder \<in> set (resolver_folders r)" by (metis find_Some_iff nth_mem)
    have "list_all is_normal (snd a)"
      using parsed Some by (auto simp: parse_workspace_path_def Let_def clean_relative_normal split: if_splits option.splits prod.splits)
    moreover have "normal_path root" using fs root by (auto simp: canonicalizes_def validated_root_Inr)
    ultimately show ?thesis using mem root p by (simp add: normal_path_append validated_folder_valid)
  next
    case None
    show ?thesis
    proof (cases "\<exists>q. expand_system_path env (str_trim text) = Inr (Some q)")
      case True
      then obtain q where q: "expand_system_path env (str_trim text) = Inr (Some q)" by blast
      with None parsed resolve have "p = q" and valid: "validate_declared_absolute env fs r p = Inr ()"
        by (auto simp: resolve_input_def Let_def split: if_splits)
      obtain base rest where "q = path_components base @ rest" "path_is_absolute base" "list_all is_normal rest"
        using q by (rule expanded_absolute)
      with \<open>p = q\<close> declared_absolute_valid [OF valid] show ?thesis by (auto intro: absolute_normal)
    next
      case no_alias: False
      show ?thesis
      proof (cases "path_is_absolute (str_trim text)")
        case True
        with no_alias None parsed resolve have "p = path_components (str_trim text)"
          and valid: "validate_declared_absolute env fs r p = Inr ()"
          by (auto simp: resolve_input_def Let_def split: if_splits option.splits)
        with True declared_absolute_valid [OF valid] absolute_normal [of "str_trim text" "[]"] show ?thesis by simp
      next
        case False
        with no_alias None parsed resolve obtain root relative where root: "canonical_primary env fs r = Inr root"
          and "clean_relative (path_components (str_trim text)) = Inr relative" and p: "p = root @ relative"
          by (auto simp: resolve_input_def Let_def split: if_splits option.splits)
        then have "list_all is_normal relative" by (blast intro: clean_relative_normal)
        moreover have "normal_path root" using fs canonical_primary_valid(2) [OF root] by (auto simp: canonicalizes_def)
        ultimately show ?thesis using root p by (simp add: normal_path_append canonical_primary_valid)
      qed
    qed
  qed
  then show ?thesis by (fastforce simp: folders_valid_def validated_root_Inr)
qed

lemma containing_folder_Some:
  assumes "containing_folder env fs r target folders = Inr (Some root)"
  shows "\<exists>f \<in> set folders. validated_root env fs r f = Inr root \<and> starts_with target root"
  using assms by (induction folders) (auto simp: validated_root_Inr split: if_splits option.splits)

lemma containing_root_Some:
  assumes "containing_root env fs r target = Inr (Some root)"
  shows "starts_with target root"
    and "resolver_folders r = [] \<or> (\<exists>f \<in> set (resolver_folders r). validated_root env fs r f = Inr root)"
proof -
  have "starts_with target root \<and> (resolver_folders r = [] \<or> (\<exists>f \<in> set (resolver_folders r). validated_root env fs r f = Inr root))"
    using assms containing_folder_Some [of env fs r target "resolver_folders r" root]
    by (auto simp: containing_root_def split: if_splits)
  then show "starts_with target root"
    "resolver_folders r = [] \<or> (\<exists>f \<in> set (resolver_folders r). validated_root env fs r f = Inr root)" by blast+
qed

lemma containing_root_canonical:
  assumes "containing_root env fs r target = Inr (Some root)"
  shows "\<exists>p. fs_canonicalize fs p = Inr root"
proof (cases "resolver_folders r = []")
  case True
  with assms obtain y where "canonical_or_none fs y = Some root"
    by (auto simp: containing_root_def Option.bind_eq_Some_conv)
  then have "fs_canonicalize fs (path_components y) = Inr root"
    by (cases "fs_canonicalize fs (path_components y)") (auto simp: canonical_or_none_def)
  then show ?thesis by blast
next
  case False
  with containing_root_Some(2) [OF assms] show ?thesis by (auto simp: validated_root_Inr)
qed

section \<open>Display and back\<close>

lemma str_trim_id_iff: "str_trim s = s \<longleftrightarrow> s = [] \<or> \<not> is_whitespace (hd s) \<and> \<not> is_whitespace (last s)"
proof (cases s)
  case (Cons c cs)
  show ?thesis
  proof
    assume trim: "str_trim s = s"
    then have "length (dropWhile is_whitespace s) \<ge> length s"
      using length_dropWhile_le [of is_whitespace "rev (dropWhile is_whitespace s)"]
      by (metis length_rev str_trim_def)
    then have hd: "dropWhile is_whitespace s = s"
      using Cons length_dropWhile_le [of is_whitespace cs] by (cases "is_whitespace c") auto
    with trim have "dropWhile is_whitespace (rev s) = rev s" by (metis rev_rev_ident str_trim_def)
    with hd Cons show "s = [] \<or> \<not> is_whitespace (hd s) \<and> \<not> is_whitespace (last s)"
      by (metis dropWhile_eq_self_iff hd_rev list.distinct(1) rev_is_Nil_conv)
  next
    assume "s = [] \<or> \<not> is_whitespace (hd s) \<and> \<not> is_whitespace (last s)"
    with Cons have "dropWhile is_whitespace s = s" "dropWhile is_whitespace (rev s) = rev s"
      unfolding dropWhile_eq_self_iff by (auto simp: hd_rev simp del: rev.simps)
    then show "str_trim s = s" by (simp add: str_trim_def)
  qed
qed (simp add: str_trim_def)

lemma split_on_one: "list_all (Not \<circ> p) w \<Longrightarrow> split_on p w = [w]"
  by (induction w) auto

lemma split_on_at: "list_all (Not \<circ> p) w \<Longrightarrow> p d \<Longrightarrow> split_on p (w @ d # s) = w # split_on p s"
  by (induction w) auto

definition file_name_ok :: "rstring \<Rightarrow> bool" where
  "file_name_ok w \<longleftrightarrow> w \<noteq> [] \<and> w \<noteq> S ''.'' \<and> w \<noteq> S ''..'' \<and> SLASH \<notin> set w"

lemma file_name_pieces: "file_name_ok w \<Longrightarrow> list_all (Not \<circ> (\<lambda>c. c = SLASH)) w" "file_name_ok w \<Longrightarrow> piece_component w = [Normal w]"
  by (auto simp: file_name_ok_def list_all_iff piece_component_def)

lemma pieces_of_names:
  assumes "list_all file_name_ok names" and "names \<noteq> []"
  shows "path_pieces (join_slash names) = names"
  using assms unfolding path_pieces_def
  by (induction names rule: join_slash.induct) (auto simp: split_on_one split_on_at file_name_pieces)

lemma components_of_names_map: "list_all file_name_ok names \<Longrightarrow> concat (map piece_component names) = map Normal names"
  by (induction names) (auto simp: file_name_pieces)

lemma join_slash_relative:
  assumes "list_all file_name_ok names"
  shows "\<not> path_is_absolute (join_slash names)"
  using assms by (cases names rule: join_slash.cases) (auto simp: path_is_absolute_def file_name_ok_def neq_Nil_conv)

lemma components_of_names:
  assumes "list_all file_name_ok names"
  shows "path_components (join_slash names) = map Normal names"
proof (cases "names = []")
  case True
  then show ?thesis by (simp add: path_components_def path_is_absolute_def path_pieces_def piece_component_def)
next
  case False
  then have "hd names \<noteq> S ''.''" using assms by (cases names) (auto simp: file_name_ok_def)
  with False assms show ?thesis
    by (simp add: path_components_def join_slash_relative pieces_of_names components_of_names_map)
qed

lemma components_after_dot:
  assumes "list_all file_name_ok names" and "names \<noteq> []"
  shows "path_components (S ''./'' @ join_slash names) = CurDir # map Normal names"
proof -
  have "path_pieces (S ''./'' @ join_slash names) = S ''.'' # names"
    using pieces_of_names [OF assms] split_on_at [of "\<lambda>c. c = SLASH" "S ''.''" SLASH "join_slash names"]
    by (simp add: path_pieces_def S_def)
  with assms(1) show ?thesis
    by (simp add: path_components_def path_is_absolute_def S_def [of "''./''"] components_of_names_map)
      (simp add: piece_component_def)
qed

text \<open>A canonical path as a text and back.\<close>

definition proper_path :: "path_buf \<Rightarrow> bool" where
  "proper_path p \<longleftrightarrow> (\<exists>names. p = RootDir # map Normal names \<and> list_all file_name_ok names)"

lemma components_of_path_string:
  assumes "proper_path p"
  shows "path_components (path_string p) = p"
proof -
  obtain names where p: "p = RootDir # map Normal names" and names: "list_all file_name_ok names"
    using assms by (auto simp: proper_path_def)
  have "join_names (map Normal names) = join_slash names" by (induction names rule: join_slash.induct) auto
  then have string: "path_string p = SLASH # join_slash names" by (simp add: p path_string_def)
  have "path_pieces (SLASH # join_slash names) = [] # path_pieces (join_slash names)" by (simp add: path_pieces_def)
  moreover have "concat (map piece_component (path_pieces (join_slash names))) = map Normal names"
    using pieces_of_names [OF names] components_of_names_map [OF names]
    by (cases "names = []") (auto simp: path_pieces_def piece_component_def)
  ultimately have "path_components (SLASH # join_slash names) = p"
    by (simp add: path_components_def path_is_absolute_def p) (simp add: piece_component_def)
  then show ?thesis by (simp only: string)
qed

text \<open>Alphanumeric characters are no separators of a locator.\<close>

definition alphanumeric_separates :: "path_env \<Rightarrow> bool" where
  "alphanumeric_separates env \<longleftrightarrow>
     (\<forall>c. pv_is_alphanumeric env c \<longrightarrow> c \<noteq> SLASH \<and> c \<noteq> Ch (CHR 0x00) \<and> c \<noteq> NL \<and> c \<noteq> CR)"

text \<open>The names whose text survives the parsing of an address, for a file in the folder \<open>f\<close>.\<close>

definition addressable :: "workspace_folder \<Rightarrow> rstring list \<Rightarrow> bool" where
  "addressable f names \<longleftrightarrow>
     list_all file_name_ok names \<and> str_trim (join_slash names) = join_slash names
     \<and> Ch (CHR 0x00) \<notin> set (join_slash names) \<and> NL \<notin> set (join_slash names) \<and> CR \<notin> set (join_slash names)
     \<and> (wf_role f = Auxiliary \<longrightarrow> BSL \<notin> set (join_slash names))
     \<and> length (wf_alias f) + length (join_slash names) + 12 \<le> 32 * 1024"

lemma normal_names_map [simp]: "normal_names (map Normal names) = names"
  by (induction names) auto

lemma displayed_in_folder:
  assumes "check_overlap earlier folders = Inr ()" and "f \<in> set folders" and "wf_canonical_path f = Some c"
  shows "display_in_folders env (path_components c @ map Normal names) folders =
    Some (if wf_role f = Primary then escape_relative env (join_slash names)
          else if join_slash names = [] then S ''@workspace/'' @ wf_alias f
          else S ''@workspace/'' @ wf_alias f @ SLASH # join_slash names)"
  using assms
proof (induction earlier folders rule: check_overlap.induct)
  case (2 earlier g folders)
  let ?target = "path_components c @ map Normal names"
  show ?case
  proof (cases "g = f")
    case True
    with "2.prems"(3) show ?thesis by (simp add: path_text_def Let_def)
  next
    case False
    have "\<not> roots_overlap f g" using check_overlap_disjoint [OF "2.prems"(1), of f g] "2.prems"(2) False by auto
    then have apart: "strip_components ?target (path_components d) = None" if "wf_canonical_path g = Some d" for d
      using that "2.prems"(3) prefixes_overlap [of f c g d ?target]
      by (cases "strip_components ?target (path_components d)") (auto simp: starts_with_iff_prefix)
    have "display_in_folders env ?target (g # folders) = display_in_folders env ?target folders"
      using apart by (cases "wf_canonical_path g") auto
    with 2 False show ?thesis by (auto split: if_splits)
  qed
qed simp

lemma check_folders_alias:
  assumes "check_folders env ids aliases folders = Inr ()" and "f \<in> set folders"
  shows "valid_alias env (wf_alias f) \<and> wf_alias f \<notin> set aliases
    \<and> find (\<lambda>g. wf_alias g = wf_alias f) folders = Some f"
  using assms
proof (induction env ids aliases folders rule: check_folders.induct)
  case (2 env ids aliases g folders)
  then have g: "valid_alias env (wf_alias g)" "wf_alias g \<notin> set aliases"
    and rest: "check_folders env (wf_id g # ids) (wf_alias g # aliases) folders = Inr ()"
    by (auto split: if_splits option.splits)
  show ?case
  proof (cases "f = g")
    case False
    then have f: "f \<in> set folders" using "2.prems"(2) by simp
    have "valid_alias env (wf_alias f) \<and> wf_alias f \<notin> set (wf_alias g # aliases)
        \<and> find (\<lambda>g. wf_alias g = wf_alias f) folders = Some f"
      using "2.prems"(1) rest f "2.IH" by (auto split: if_splits option.splits)
    then show ?thesis by auto
  qed (use g in simp)
qed simp

lemma shape_folder:
  assumes "validate_shape env r = Inr ()" and "f \<in> set (resolver_folders r)"
  shows "valid_alias env (wf_alias f)" and "find (\<lambda>g. wf_alias g = wf_alias f) (resolver_folders r) = Some f"
    and "check_overlap [] (resolver_folders r) = Inr ()"
    and "wf_role f = Primary \<Longrightarrow> primary_folder r = Some f"
proof -
  have checks: "check_folders env [] [] (resolver_folders r) = Inr ()" "check_overlap [] (resolver_folders r) = Inr ()"
    "length (filter (\<lambda>g. wf_role g = Primary) (resolver_folders r)) = 1"
    using assms by (auto simp: validate_shape_def Let_def split: if_splits)
  show "valid_alias env (wf_alias f)" "find (\<lambda>g. wf_alias g = wf_alias f) (resolver_folders r) = Some f"
    "check_overlap [] (resolver_folders r) = Inr ()"
    using check_folders_alias [OF checks(1) assms(2)] checks(2) by simp_all
  assume "wf_role f = Primary"
  then have "f \<in> set (filter (\<lambda>g. wf_role g = Primary) (resolver_folders r))" using assms(2) by simp
  then have only: "filter (\<lambda>g. wf_role g = Primary) (resolver_folders r) = [f]"
    using checks(3) by (cases "filter (\<lambda>g. wf_role g = Primary) (resolver_folders r)") auto
  have "find P xs = Some y" if "filter P xs = [y]" for P y and xs :: "workspace_folder list"
    using that by (induction xs) (auto split: if_splits)
  with only show "primary_folder r = Some f" unfolding primary_folder_def by blast
qed

lemma auxiliary_address:
  assumes env: "alphanumeric_separates env" and al: "valid_alias env nick" and names: "list_all file_name_ok names"
    and chars: "\<forall>c \<in> {Ch (CHR 0x00), NL, CR, BSL}. c \<notin> set (join_slash names)"
    and is_text: "text = S ''@workspace/'' @ nick @ (if names = [] then [] else SLASH # join_slash names)"
    and long: "length text \<le> 32 * 1024" and trim: "str_trim (join_slash names) = join_slash names"
  shows "str_trim text = text" and "parse_workspace_path env text = Inr (Some (nick, map Normal names))"
    and "locator_parse env text = Inr (Filesystem text)"
proof -
  have alias_chars: "SLASH \<notin> set nick" "Ch (CHR 0x00) \<notin> set nick" "NL \<notin> set nick" "CR \<notin> set nick" and "nick \<noteq> []"
    using al env by (auto simp: valid_alias_def alphanumeric_separates_def list_all_iff)
  have some: "join_slash names \<noteq> []" if "names \<noteq> []"
    using that names by (cases names rule: join_slash.cases) (auto simp: file_name_ok_def)
  have "\<not> is_whitespace (last nick)" using al by (auto simp add: valid_alias_def str_trim_id_iff)
  moreover have "\<not> is_whitespace (last (join_slash names))" if "names \<noteq> []" using that trim some by (simp add: str_trim_id_iff)
  ultimately have "\<not> is_whitespace (last text)" using \<open>nick \<noteq> []\<close> some by (simp add: is_text)
  moreover have "\<not> is_whitespace (hd text)" by (simp add: is_text S_def)
  ultimately show trimmed: "str_trim text = text" by (simp add: str_trim_id_iff)
  have strip: "strip_prefix text (S ''@workspace/'') = Some (nick @ (if names = [] then [] else SLASH # join_slash names))"
    by (simp add: strip_prefix_Some_iff is_text)
  have split: "split_once SLASH (nick @ SLASH # rest) = Some (nick, rest)" "split_once SLASH nick = None" for rest
    using alias_chars(1) by (induction nick) auto
  have "text \<noteq> S ''@workspace''" using is_text \<open>nick \<noteq> []\<close> by (auto simp: S_def)
  with strip split al chars show parsed: "parse_workspace_path env text = Inr (Some (nick, map Normal names))"
    using components_of_names [OF names]
    by (auto simp: parse_workspace_path_def clean_relative_def path_components_def path_is_absolute_def path_pieces_def
        piece_component_def all_normal_map list_all_iff filter_id_conv)
  have "set text = set (S ''@workspace/'') \<union> set nick \<union> (if names = [] then {} else insert SLASH (set (join_slash names)))"
    by (auto simp: is_text)
  then have "Ch (CHR 0x00) \<notin> set text" "NL \<notin> set text" "CR \<notin> set text"
    using alias_chars chars by (auto simp: S_def split: if_splits)
  then show "locator_parse env text = Inr (Filesystem text)"
    using trimmed parsed long
    by (simp add: locator_parse_def Let_def) (simp add: is_text S_def BROWSER_DOWNLOAD_PREFIX_def BROWSER_ARTIFACT_PREFIX_def is_system_alias_def)
qed

lemma strip_alias_prefix_None:
  assumes "case strip_prefix input (S nick) of None \<Rightarrow> False | Some rest \<Rightarrow> starts_with rest [SLASH] \<or> starts_with rest [BSL] \<Longrightarrow> False"
  shows "strip_alias_prefix input nick = None"
proof (cases "strip_prefix input (S nick)")
  case (Some rest)
  then have "\<not> starts_with rest [SLASH]" "\<not> starts_with rest [BSL]" using assms by auto
  then have "strip_prefix rest [SLASH] = None" "strip_prefix rest [BSL] = None" by (cases rest; simp)+
  with Some show ?thesis by (simp add: strip_alias_prefix_def or_else_def)
qed (simp add: strip_alias_prefix_def)

lemma no_alias_base:
  assumes "\<not> is_system_alias input"
  shows "alias_base env input = Inr None"
proof -
  have "input \<noteq> S nick \<and> strip_alias_prefix input nick = None"
    if "nick \<in> set [''~'', ''@home'', ''@desktop'', ''@documents'', ''@downloads'']" for nick
    using assms that unfolding is_system_alias_def list_ex_iff by (blast intro: strip_alias_prefix_None)
  then have "input \<noteq> S ''~''" "strip_alias_prefix input ''~'' = None" "input \<noteq> S ''@home''" "strip_alias_prefix input ''@home'' = None"
    "input \<noteq> S ''@desktop''" "strip_alias_prefix input ''@desktop'' = None" "input \<noteq> S ''@documents''"
    "strip_alias_prefix input ''@documents'' = None" "input \<noteq> S ''@downloads''" "strip_alias_prefix input ''@downloads'' = None"
    by simp_all
  then show ?thesis by (simp add: alias_base_def Let_def)
qed

lemma no_workspace_address: "\<not> starts_with input (S ''@'') \<Longrightarrow> parse_workspace_path env input = Inr None"
  by (cases input) (auto simp: parse_workspace_path_def S_def split: option.split)

lemma relative_address:
  assumes shape: "validate_shape env r = Inr ()" and root: "canonical_primary env fs r = Inr root"
    and trim: "str_trim input = input" and locator: "locator_parse env input = Inr (Filesystem v)"
    and "\<not> starts_with input (S ''@'')" and "\<not> path_is_absolute input"
    and "clean_relative (path_components input) = Inr relative"
  shows "resolve_input env fs r input = Inr (root @ relative)"
proof -
  note none = no_workspace_address [OF assms(5), of env]
  have "input \<noteq> []" and "\<not> is_system_alias input"
    using locator by (auto simp: locator_parse_def Let_def trim split: if_splits)
  then have "expand_system_path env input = Inr None"
    by (simp add: expand_system_path_def Let_def trim no_alias_base)
  with assms none show ?thesis by (simp add: resolve_input_def Let_def)
qed

lemma dotted_locator:
  assumes "str_trim (S ''./'' @ x) = S ''./'' @ x" and "Ch (CHR 0x00) \<notin> set x" and "NL \<notin> set x" and "CR \<notin> set x"
    and "length x + 2 \<le> 32 * 1024"
  shows "locator_parse env (S ''./'' @ x) = Inr (Filesystem (S ''./'' @ x))"
proof -
  have "parse_workspace_path env (S ''./'' @ x) = Inr None" by (rule no_workspace_address) (simp add: S_def)
  moreover have "\<not> has_unrecognized_scheme_prefix (S ''./'' @ x)"
    by (auto simp: has_unrecognized_scheme_prefix_def S_def rust_defs split: option.split)
  ultimately show ?thesis using assms
    by (simp add: locator_parse_def Let_def)
      (simp add: S_def BROWSER_DOWNLOAD_PREFIX_def BROWSER_ARTIFACT_PREFIX_def is_system_alias_def has_unrecognized_at_namespace_def)
qed

lemma clean_names: "clean_relative (map Normal names) = Inr (map Normal names)" "clean_relative (CurDir # map Normal names) = Inr (map Normal names)"
  by (auto simp: clean_relative_def list_all_iff filter_id_conv)

lemma escaped_address:
  assumes shape: "validate_shape env r = Inr ()" and root: "canonical_primary env fs r = Inr root"
    and names: "list_all file_name_ok names" and trim: "str_trim (join_slash names) = join_slash names"
    and chars: "Ch (CHR 0x00) \<notin> set (join_slash names)" "NL \<notin> set (join_slash names)" "CR \<notin> set (join_slash names)"
    and long: "length (join_slash names) + 2 \<le> 32 * 1024"
  shows "resolve_input env fs r (escape_relative env (join_slash names)) = Inr (root @ map Normal names)"
proof (cases "names = []")
  case True
  have "str_trim (S ''.'') = S ''.''" "locator_parse env (S ''.'') = Inr (Filesystem (S ''.''))"
    "path_components (S ''.'') = [CurDir]"
    by (simp_all add: str_trim_def S_def locator_parse_def BROWSER_DOWNLOAD_PREFIX_def BROWSER_ARTIFACT_PREFIX_def
        is_system_alias_def parse_workspace_path_def has_unrecognized_scheme_prefix_def has_unrecognized_at_namespace_def
        path_components_def path_is_absolute_def path_pieces_def piece_component_def)
  moreover have "clean_relative [CurDir] = Inr []" by (simp add: clean_relative_def)
  ultimately show ?thesis
    using True relative_address [OF shape root, of "S ''.''"] by (simp add: escape_relative_def path_is_absolute_def S_def)
next
  case False
  have some: "join_slash names \<noteq> []"
    using False names by (cases names rule: join_slash.cases) (auto simp: file_name_ok_def)
  let ?dotted = "S ''./'' @ join_slash names"
  show ?thesis
  proof (cases "escape_relative env (join_slash names) = ?dotted")
    case True
    have "str_trim ?dotted = ?dotted" using trim some by (simp add: str_trim_id_iff) (simp add: S_def)
    with chars long have "locator_parse env ?dotted = Inr (Filesystem ?dotted)" by (intro dotted_locator) auto
    with \<open>str_trim ?dotted = ?dotted\<close> True show ?thesis
      using relative_address [OF shape root, of ?dotted] components_after_dot [OF names False]
      by (simp add: clean_names path_is_absolute_def S_def)
  next
    case plain: False
    then have "escape_relative env (join_slash names) = join_slash names" "\<not> starts_with (join_slash names) (S ''@'')"
      "\<exists>v. locator_parse env (join_slash names) = Inr (Filesystem v)"
      using some by (auto simp: escape_relative_def split: if_splits sum.splits resource_locator.splits)
    with trim names show ?thesis
      using relative_address [OF shape root, of "join_slash names"]
      by (auto simp: components_of_names clean_names join_slash_relative)
  qed
qed

text \<open>
  C21: the name under which a file of a workspace folder is shown leads back to that file,
  whichever folder it is in, provided its relative path does not begin or end with white space, has no line break,
  null character or (in an auxiliary folder) backslash, and is not overlong.
\<close>

theorem displayed_path_resolves_back:
  assumes env: "alphanumeric_separates env" and folder: "f \<in> set (resolver_folders r)"
    and root: "validated_root env fs r f = Inr root" and names: "addressable f names"
  shows "resolve_input env fs r (display_path env fs r (root @ map Normal names)) = Inr (root @ map Normal names)"
proof -
  obtain c where c: "wf_canonical_path f = Some c" "root = path_components c" and shape: "validate_shape env r = Inr ()"
    using root by (auto simp: validated_root_Inr)
  note shaped = shape_folder [OF shape folder]
  have some: "join_slash names \<noteq> [] \<longleftrightarrow> names \<noteq> []"
    using names by (cases names rule: join_slash.cases) (auto simp: addressable_def file_name_ok_def)
  show ?thesis
  proof (cases "wf_role f")
    case Primary
    then have "canonical_primary env fs r = Inr root" using shape shaped(4) root by (simp add: canonical_primary_def)
    with Primary names show ?thesis
      using escaped_address [OF shape, of fs root names] displayed_in_folder [OF shaped(3) folder c(1), of env names]
      by (simp add: display_path_def c(2) addressable_def)
  next
    case Auxiliary
    let ?text = "S ''@workspace/'' @ wf_alias f @ (if names = [] then [] else SLASH # join_slash names)"
    have display: "display_path env fs r (root @ map Normal names) = ?text"
      using displayed_in_folder [OF shaped(3) folder c(1), of env names] Auxiliary some by (simp add: display_path_def c(2))
    have "str_trim ?text = ?text \<and> parse_workspace_path env ?text = Inr (Some (wf_alias f, map Normal names))
        \<and> locator_parse env ?text = Inr (Filesystem ?text)"
      using auxiliary_address [OF env shaped(1), of names ?text] names Auxiliary by (simp add: addressable_def)
    then show ?thesis
      unfolding display using shape shaped(2) root by (simp add: resolve_input_def Let_def)
  qed
qed

section \<open>An example\<close>

definition example_path_env :: path_env where
  "example_path_env =
     \<lparr>pv_is_alphanumeric = is_ascii_alphanumeric, pv_uuid_parse = (\<lambda>_. None), pv_home_dir = Some (S ''/h''), pv_HOME = None,
      pv_USERPROFILE = None, pv_HOMEDRIVE = None, pv_HOMEPATH = None, pv_desktop_dir = None, pv_document_dir = None,
      pv_download_dir = None\<rparr>"

definition example_fs :: file_system where
  "example_fs =
     (let dir = (\<lambda>n. \<lparr>md_is_dir = True, md_is_file = False, md_is_symlink = False, md_len = 0, md_modified = None,
                       md_dev = 1, md_ino = n, md_nlink = 2\<rparr>) in
      \<lparr>fs_symlink_metadata = (\<lambda>p. if p = [RootDir, Normal (S ''w'')] then Inr (dir 7)
                              else if p = [RootDir, Normal (S ''d'')] then Inr (dir 8)
                              else if p = [RootDir] then Inr (dir 2) else Inl IoNotFound),
       fs_canonicalize = (\<lambda>p. if p \<in> set [[RootDir], [RootDir, Normal (S ''w'')], [RootDir, Normal (S ''d'')]]
                              then Inr p else Inl IoNotFound)\<rparr>)"

definition example_folder :: "rstring \<Rightarrow> rstring \<Rightarrow> project_folder_role \<Rightarrow> rstring \<Rightarrow> nat \<Rightarrow> workspace_folder" where
  "example_folder i a role path inode =
     \<lparr>wf_id = i, wf_alias = a, wf_role = role, wf_path = path, wf_canonical_path = Some path,
      wf_directory_identity = Some (UnixChangeDirectory 1 1 inode)\<rparr>"

definition example_resolver :: workspace_resolver where
  "example_resolver =
     Some \<lparr>wc_project_id = None, wc_display_name = None, wc_root_path = Some (S ''/w''),
           wc_folders = [example_folder (S ''1'') (S ''app'') Primary (S ''/w'') 7,
                         example_folder (S ''2'') (S ''docs'') Auxiliary (S ''/d'') 8]\<rparr>"

lemma example_fs_canonicalizes: "canonicalizes example_fs"
  unfolding canonicalizes_def normal_path_def
  by (auto simp: example_fs_def Let_def split: if_splits intro: exI [of _ "[]"] exI [of _ "[S ''w'']"] exI [of _ "[S ''d'']"])

lemma example_docs:
  "resolve_input example_path_env example_fs example_resolver (S ''@workspace/docs/a.txt'') = Inr [RootDir, Normal (S ''d''), Normal (S ''a.txt'')]"
  by code_simp

theorem resolved_path_confined_witness:
  "canonicalizes example_fs
   \<and> resolve_input example_path_env example_fs example_resolver (S ''@workspace/docs/a.txt'') = Inr [RootDir, Normal (S ''d''), Normal (S ''a.txt'')]
   \<and> change_identity_read example_fs [RootDir, Normal (S ''d'')] = Some (UnixChangeDirectory 1 1 8)"
proof -
  let ?f = "example_folder (S ''2'') (S ''docs'') Auxiliary (S ''/d'') 8"
  have "?f \<in> set (resolver_folders example_resolver)" by (simp add: example_resolver_def resolver_folders_def)
  moreover have "wf_canonical_path ?f = Some (S ''/d'')" "wf_directory_identity ?f = Some (UnixChangeDirectory 1 1 8)"
    by (simp_all add: example_folder_def)
  moreover have d: "path_components (S ''/d'') = [RootDir, Normal (S ''d'')]" by code_simp
  moreover have "starts_with [RootDir, Normal (S ''d''), Normal (S ''a.txt'')] (path_components (S ''/d''))" by (simp add: d)
  ultimately have "change_identity_read example_fs (path_components (S ''/d'')) = Some (UnixChangeDirectory 1 1 8)"
    using resolved_path_confined [OF example_fs_canonicalizes example_docs] by (metis (no_types))
  then show ?thesis using example_fs_canonicalizes example_docs by (simp add: d)
qed

theorem displayed_path_resolves_back_witness:
  "alphanumeric_separates example_path_env
   \<and> display_path example_path_env example_fs example_resolver [RootDir, Normal (S ''d''), Normal (S ''a.txt'')] = S ''@workspace/docs/a.txt''
   \<and> resolve_input example_path_env example_fs example_resolver
       (display_path example_path_env example_fs example_resolver [RootDir, Normal (S ''d''), Normal (S ''a.txt'')])
     = Inr [RootDir, Normal (S ''d''), Normal (S ''a.txt'')]"
proof -
  let ?f = "example_folder (S ''2'') (S ''docs'') Auxiliary (S ''/d'') 8"
  have env: "alphanumeric_separates example_path_env"
    by (auto simp: alphanumeric_separates_def example_path_env_def is_ascii_alphanumeric_def is_ascii_alphabetic_def is_ascii_digit_def
        ascii_lower_chars_def ascii_upper_chars_def ascii_digit_chars_def)
  have "?f \<in> set (resolver_folders example_resolver)" by (simp add: example_resolver_def resolver_folders_def)
  moreover have "validated_root example_path_env example_fs example_resolver ?f = Inr [RootDir, Normal (S ''d'')]" by code_simp
  moreover have "addressable ?f [S ''a.txt'']" by code_simp
  moreover have "display_path example_path_env example_fs example_resolver [RootDir, Normal (S ''d''), Normal (S ''a.txt'')]
      = S ''@workspace/docs/a.txt''" by code_simp
  ultimately show ?thesis
    using env displayed_path_resolves_back [OF env, of ?f example_resolver example_fs "[RootDir, Normal (S ''d'')]" "[S ''a.txt'']"]
    by simp
qed

text \<open>Without the condition on white space the way back leads elsewhere: the name shown for \<open>a.txt \<close> is an address of \<open>a.txt\<close>.\<close>

lemma shown_name_with_space:
  "display_path example_path_env example_fs example_resolver [RootDir, Normal (S ''w''), Normal (S ''a.txt '')] = S ''a.txt ''"
  by code_simp

lemma relative_example:
  "resolve_input example_path_env example_fs example_resolver (S ''a.txt '') = Inr [RootDir, Normal (S ''w''), Normal (S ''a.txt'')]"
  by code_simp

theorem shown_name_addresses_other_file:
  "resolve_input example_path_env example_fs example_resolver
     (display_path example_path_env example_fs example_resolver [RootDir, Normal (S ''w''), Normal (S ''a.txt '')])
   = Inr [RootDir, Normal (S ''w''), Normal (S ''a.txt'')]"
  unfolding shown_name_with_space by (rule relative_example)

end
