(* ===== verification/File_Change_Policy.thy ===== *)
theory File_Change_Policy
  imports Workspace_Props
begin

text \<open>
  The path policy of file changes, \<open>src/crates/core/src/file_change/policy.rs\<close>, in its Unix configuration: how the file a
  model names becomes the target of a change, and how that target is looked at again later.
\<close>

section \<open>Data\<close>

definition UNSUPPORTED_EXTENSIONS :: "string list" where
  "UNSUPPORTED_EXTENSIONS = [''pdf'', ''doc'', ''docx'', ''ppt'', ''pptx'', ''xls'', ''xlsx'']"

definition VCS_COMPONENTS :: "string list" where
  "VCS_COMPONENTS = [''.git'', ''.hg'', ''.svn'']"

record path_policy =
  fp_workspace_root :: "rstring option"
  fp_workspace :: "workspace_context option"
  fp_allow_outside_workspace :: bool

record unix_directory_identity =
  di_device :: nat
  di_inode :: nat

record policy_target =
  pt_absolute_path :: path_buf
  pt_canonical_parent :: path_buf
  pt_display_path :: rstring
  pt_parent_identity :: unix_directory_identity
  pt_workspace_root_identity :: "(path_buf \<times> change_directory_identity) option"

definition policy_new :: "rstring option \<Rightarrow> bool \<Rightarrow> path_policy" where
  "policy_new root allow = \<lparr>fp_workspace_root = root, fp_workspace = None, fp_allow_outside_workspace = allow\<rparr>"

definition policy_from_workspace :: "workspace_context option \<Rightarrow> bool \<Rightarrow> path_policy" where
  "policy_from_workspace workspace allow =
     \<lparr>fp_workspace_root = Option.bind workspace wc_root_path, fp_workspace = workspace, fp_allow_outside_workspace = allow\<rparr>"

section \<open>Checks of one path\<close>

definition path_io_error :: "fs_error \<Rightarrow> file_change_error_code \<Rightarrow> file_change_error_code" where
  "path_io_error error missing =
     (case error of IoNotFound \<Rightarrow> missing | IoPermissionDenied \<Rightarrow> PermissionDenied | IoOther \<Rightarrow> ErrFailed)"

definition io_or :: "fs_error + 'a \<Rightarrow> file_change_error_code \<Rightarrow> file_change_error_code + 'a" where
  "io_or r missing = (case r of Inl e \<Rightarrow> Inl (path_io_error e missing) | Inr x \<Rightarrow> Inr x)"

definition workspace_or :: "workspace_error + 'a \<Rightarrow> file_change_error_code + 'a" where
  "workspace_or r = (case r of Inl _ \<Rightarrow> Inl PermissionDenied | Inr x \<Rightarrow> Inr x)"

lemma io_workspace_or_Inr [simp]: "io_or r missing = Inr x \<longleftrightarrow> r = Inr x" "workspace_or w = Inr y \<longleftrightarrow> w = Inr y"
  by (auto simp: io_or_def workspace_or_def split: sum.split)

definition directory_identity_read :: "file_system \<Rightarrow> path_buf \<Rightarrow> file_change_error_code + unix_directory_identity" where
  "directory_identity_read fs path =
     rbind (io_or (fs_symlink_metadata fs path) ParentMissing) (\<lambda>m.
     if \<not> md_is_dir m \<or> md_is_symlink m then Inl SymlinkForbidden
     else Inr \<lparr>di_device = md_dev m, di_inode = md_ino m\<rparr>)"

definition canonical_directory :: "file_system \<Rightarrow> path_buf \<Rightarrow> file_change_error_code + path_buf" where
  "canonical_directory fs path =
     rbind (io_or (fs_symlink_metadata fs path) ParentMissing) (\<lambda>m.
     if md_is_symlink m then Inl SymlinkForbidden
     else if \<not> md_is_dir m then Inl ParentMissing
     else io_or (fs_canonicalize fs path) ParentMissing)"

fun normalize_path_components :: "path_buf \<Rightarrow> path_buf \<Rightarrow> file_change_error_code + path_buf" where
  "normalize_path_components normalized [] = Inr normalized"
| "normalize_path_components normalized (CurDir # cs) = normalize_path_components normalized cs"
| "normalize_path_components normalized (ParentDir # cs) = Inl PermissionDenied"
| "normalize_path_components normalized (c # cs) = normalize_path_components (path_push normalized c) cs"

definition normalize_absolute :: "path_buf \<Rightarrow> file_change_error_code + path_buf" where
  "normalize_absolute path =
     rbind (normalize_path_components [] path) (\<lambda>normalized.
     if starts_with normalized [RootDir] then Inr normalized else Inl InvalidArguments)"

fun no_symlink_from :: "file_system \<Rightarrow> path_buf \<Rightarrow> path_buf \<Rightarrow> file_change_error_code + unit" where
  "no_symlink_from fs current [] = Inr ()"
| "no_symlink_from fs current (c # cs) =
     (let here = current @ [c] in
      case fs_symlink_metadata fs here of
        Inl IoNotFound \<Rightarrow> no_symlink_from fs here cs
      | Inl e \<Rightarrow> Inl (path_io_error e ParentMissing)
      | Inr m \<Rightarrow>
          if md_is_symlink m then Inl SymlinkForbidden
          else if cs \<noteq> [] \<and> \<not> md_is_dir m then Inl ParentMissing
          else no_symlink_from fs here cs)"

definition validate_existing_components_no_symlink :: "file_system \<Rightarrow> path_buf \<Rightarrow> file_change_error_code + unit" where
  "validate_existing_components_no_symlink fs path = no_symlink_from fs [] path"

definition reject_hard_link :: "file_metadata \<Rightarrow> file_change_error_code + unit" where
  "reject_hard_link m = (if md_nlink m = 1 then Inr () else Inl HardLinkForbidden)"

definition validate_leaf :: "file_system \<Rightarrow> path_buf \<Rightarrow> file_change_error_code + unit" where
  "validate_leaf fs path =
     (case fs_symlink_metadata fs path of
        Inl IoNotFound \<Rightarrow> Inr ()
      | Inl e \<Rightarrow> Inl (path_io_error e FileMissing)
      | Inr m \<Rightarrow>
          if md_is_symlink m then Inl SymlinkForbidden
          else if \<not> md_is_file m then Inl NotRegularFile
          else reject_hard_link m)"

definition reject_vcs_component :: "path_buf \<Rightarrow> file_change_error_code + unit" where
  "reject_vcs_component path =
     (if list_ex (\<lambda>part. one_of part VCS_COMPONENTS) (normal_names path) then Inl PermissionDenied else Inr ())"

definition file_name_of :: "path_buf \<Rightarrow> rstring option" where
  "file_name_of path = (if path = [] then None else case last path of Normal w \<Rightarrow> Some w | _ \<Rightarrow> None)"

text \<open>\<open>Path::extension\<close>: what follows the last dot of the file name, unless that dot begins it.\<close>

definition path_extension :: "path_buf \<Rightarrow> rstring option" where
  "path_extension path =
     Option.bind (file_name_of path) (\<lambda>name.
       case rsplit_once (Ch CHR ''.'') name of
         None \<Rightarrow> None
       | Some (before, after) \<Rightarrow> if before = [] then None else Some after)"

definition reject_unsupported_extension :: "path_buf \<Rightarrow> file_change_error_code + unit" where
  "reject_unsupported_extension path =
     (let extension = (case path_extension path of None \<Rightarrow> [] | Some e \<Rightarrow> to_ascii_lowercase e) in
      if one_of extension UNSUPPORTED_EXTENSIONS then Inl UnsupportedFileType else Inr ())"

section \<open>Resolving and looking again\<close>

definition policy_resolver :: "file_system \<Rightarrow> path_policy \<Rightarrow> file_change_error_code + workspace_resolver" where
  "policy_resolver fs policy =
     (case fp_workspace policy of
        Some workspace \<Rightarrow> Inr (Some workspace)
      | None \<Rightarrow>
          (case fp_workspace_root policy of
             None \<Rightarrow> Inr (from_primary None)
           | Some root \<Rightarrow>
               rbind (canonical_directory fs (path_components root)) (\<lambda>path. Inr (from_primary (Some (path_string path))))))"

definition frozen_identity :: "workspace_resolver \<Rightarrow> path_buf \<Rightarrow> change_directory_identity option" where
  "frozen_identity r root =
     Option.bind (find (\<lambda>f. map_option path_components (wf_canonical_path f) = Some root) (resolver_folders r)) wf_directory_identity"

definition root_identity :: "file_system \<Rightarrow> workspace_resolver \<Rightarrow> path_buf \<Rightarrow> file_change_error_code + change_directory_identity" where
  "root_identity fs r root =
     (case frozen_identity r root of
        Some i \<Rightarrow> Inr i
      | None \<Rightarrow> ok_or (change_identity_read fs root) PermissionDenied)"

definition policy_resolve :: "path_env \<Rightarrow> file_system \<Rightarrow> path_policy \<Rightarrow> rstring \<Rightarrow> file_change_error_code + policy_target" where
  "policy_resolve env fs policy text =
     (let input = str_trim text in
      if input = [] then Inl InvalidArguments
      else
        rbind (reject_vcs_component (path_components input)) (\<lambda>_.
        rbind (reject_unsupported_extension (path_components input)) (\<lambda>_.
        rbind (policy_resolver fs policy) (\<lambda>r.
        if \<not> path_is_absolute input \<and> \<not> starts_with input (S ''@'') \<and> \<not> starts_with input (S ''~'') \<and> primary_root r = None
        then Inl WorkspaceRequired
        else
        rbind (workspace_or (resolve_input env fs r input)) (\<lambda>supplied.
        rbind (normalize_absolute supplied) (\<lambda>unresolved.
        rbind (validate_existing_components_no_symlink fs unresolved) (\<lambda>_.
        rbind (ok_or (path_parent unresolved) ParentMissing) (\<lambda>parent.
        rbind (canonical_directory fs parent) (\<lambda>canonical_parent.
        rbind (directory_identity_read fs canonical_parent) (\<lambda>parent_identity.
        rbind (workspace_or (containing_root env fs r canonical_parent)) (\<lambda>workspace_root.
        if workspace_root = None \<and> \<not> fp_allow_outside_workspace policy then Inl PermissionDenied
        else
        rbind (ok_or (file_name_of unresolved) InvalidArguments) (\<lambda>file_name.
        let absolute_path = canonical_parent @ [Normal file_name] in
        rbind (reject_vcs_component absolute_path) (\<lambda>_.
        rbind (reject_unsupported_extension absolute_path) (\<lambda>_.
        rbind (validate_leaf fs absolute_path) (\<lambda>_.
        rbind (case workspace_root of
                 None \<Rightarrow> Inr None
               | Some root \<Rightarrow> rbind (root_identity fs r root) (\<lambda>i. Inr (Some (root, i)))) (\<lambda>workspace_root_identity.
        Inr \<lparr>pt_absolute_path = absolute_path, pt_canonical_parent = canonical_parent,
             pt_display_path = display_path env fs r absolute_path, pt_parent_identity = parent_identity,
             pt_workspace_root_identity = workspace_root_identity\<rparr>))))))))))))))))"

definition target_revalidate :: "file_system \<Rightarrow> policy_target \<Rightarrow> file_change_error_code + unit" where
  "target_revalidate fs t =
     rbind (case pt_workspace_root_identity t of
              None \<Rightarrow> Inr ()
            | Some (root, identity) \<Rightarrow>
                rbind (ok_or (change_identity_read fs root) PermissionDenied) (\<lambda>i.
                if i \<noteq> identity then Inl ErrConflict else Inr ())) (\<lambda>_.
     rbind (validate_existing_components_no_symlink fs (pt_absolute_path t)) (\<lambda>_.
     rbind (canonical_directory fs (pt_canonical_parent t)) (\<lambda>current_parent.
     if current_parent \<noteq> pt_canonical_parent t then Inl SymlinkForbidden
     else rbind (directory_identity_read fs current_parent) (\<lambda>identity.
       if identity \<noteq> pt_parent_identity t then Inl ErrConflict
       else validate_leaf fs (pt_absolute_path t)))))"

section \<open>What a resolved target guarantees\<close>

lemma reject_vcs_Inr: "reject_vcs_component p = Inr () \<longleftrightarrow> (\<forall>w \<in> set (normal_names p). \<not> one_of w VCS_COMPONENTS)"
  by (auto simp: reject_vcs_component_def list_ex_iff)

lemma reject_extension_Inr:
  "reject_unsupported_extension p = Inr () \<longleftrightarrow>
     (\<forall>e. path_extension p = Some e \<longrightarrow> \<not> one_of (to_ascii_lowercase e) UNSUPPORTED_EXTENSIONS)"
  by (auto simp: reject_unsupported_extension_def UNSUPPORTED_EXTENSIONS_def split: option.splits)

lemma validate_leaf_Inr:
  "validate_leaf fs p = Inr () \<longleftrightarrow>
     fs_symlink_metadata fs p = Inl IoNotFound
     \<or> (\<exists>m. fs_symlink_metadata fs p = Inr m \<and> \<not> md_is_symlink m \<and> md_is_file m \<and> md_nlink m = 1)"
  by (auto simp: validate_leaf_def reject_hard_link_def path_io_error_def split: sum.splits fs_error.splits)

lemma canonical_directory_Inr:
  "canonical_directory fs p = Inr q \<longleftrightarrow>
     (\<exists>m. fs_symlink_metadata fs p = Inr m \<and> \<not> md_is_symlink m \<and> md_is_dir m) \<and> fs_canonicalize fs p = Inr q"
  by (auto simp: canonical_directory_def)

lemma directory_identity_read_Inr:
  "directory_identity_read fs p = Inr i \<longleftrightarrow>
     (\<exists>m. fs_symlink_metadata fs p = Inr m \<and> \<not> md_is_symlink m \<and> md_is_dir m
        \<and> i = \<lparr>di_device = md_dev m, di_inode = md_ino m\<rparr>)"
  by (auto simp: directory_identity_read_def)

text \<open>A component of the path that exists is not a symbolic link, and a directory unless it is the last.\<close>

definition plain_at :: "file_system \<Rightarrow> path_buf \<Rightarrow> nat \<Rightarrow> bool" where
  "plain_at fs path k \<longleftrightarrow>
     fs_symlink_metadata fs (take k path) = Inl IoNotFound
     \<or> (\<exists>m. fs_symlink_metadata fs (take k path) = Inr m \<and> \<not> md_is_symlink m \<and> (k < length path \<longrightarrow> md_is_dir m))"

lemma no_symlink_from_Inr:
  "no_symlink_from fs current cs = Inr () \<longleftrightarrow>
     (\<forall>k. length current < k \<and> k \<le> length (current @ cs) \<longrightarrow> plain_at fs (current @ cs) k)"
proof (induction fs current cs rule: no_symlink_from.induct)
  case (2 fs current c cs)
  let ?path = "current @ c # cs"
  have first: "(\<forall>k. length current < k \<and> k \<le> length ?path \<longrightarrow> plain_at fs ?path k) \<longleftrightarrow>
      plain_at fs ?path (Suc (length current)) \<and> (\<forall>k. Suc (length current) < k \<and> k \<le> length ?path \<longrightarrow> plain_at fs ?path k)"
    by (auto simp: Suc_le_eq le_less dest: Suc_lessI)
  have here: "plain_at fs ?path (Suc (length current)) \<longleftrightarrow>
      fs_symlink_metadata fs (current @ [c]) = Inl IoNotFound
      \<or> (\<exists>m. fs_symlink_metadata fs (current @ [c]) = Inr m \<and> \<not> md_is_symlink m \<and> (cs \<noteq> [] \<longrightarrow> md_is_dir m))"
    by (auto simp: plain_at_def)
  show ?case
  proof (cases "fs_symlink_metadata fs (current @ [c])")
    case (Inl e)
    with 2 show ?thesis unfolding first here by (cases e) (auto simp: Let_def)
  next
    case (Inr m)
    with 2 show ?thesis unfolding first here by (auto simp: Let_def)
  qed
qed auto

lemma root_identity_current:
  assumes "containing_root env fs r target = Inr (Some root)" and "root_identity fs r root = Inr i"
  shows "change_identity_read fs root = Some i"
proof (cases "frozen_identity r root")
  case None
  with assms(2) show ?thesis by (simp add: root_identity_def)
next
  case (Some j)
  then obtain g c where g: "find (\<lambda>f. map_option path_components (wf_canonical_path f) = Some root) (resolver_folders r) = Some g"
    and j: "wf_directory_identity g = Some j"
    by (auto simp: frozen_identity_def Option.bind_eq_Some_conv)
  then have mem: "g \<in> set (resolver_folders r)" and "map_option path_components (wf_canonical_path g) = Some root"
    by (auto simp: find_Some_iff)
  then obtain c where c: "wf_canonical_path g = Some c" "path_components c = root" by auto
  from containing_root_Some(2) [OF assms(1)] mem obtain f where f: "f \<in> set (resolver_folders r)" "validated_root env fs r f = Inr root"
    by auto
  have "g = f" using validated_root_unique [OF f(2,1) _ mem c(1), of root] c(2) by simp
  with f(2) j Some assms(2) show ?thesis by (auto simp: validated_root_Inr root_identity_def)
qed

lemma policy_resolve_Inr:
  assumes "policy_resolve env fs policy text = Inr t"
  obtains r supplied unresolved parent name workspace_root where
    "policy_resolver fs policy = Inr r"
    and "resolve_input env fs r (str_trim text) = Inr supplied" and "normalize_absolute supplied = Inr unresolved"
    and "validate_existing_components_no_symlink fs unresolved = Inr ()"
    and "path_parent unresolved = Some parent" and "file_name_of unresolved = Some name"
    and "canonical_directory fs parent = Inr (pt_canonical_parent t)"
    and "directory_identity_read fs (pt_canonical_parent t) = Inr (pt_parent_identity t)"
    and "containing_root env fs r (pt_canonical_parent t) = Inr workspace_root"
    and "workspace_root = None \<longrightarrow> fp_allow_outside_workspace policy"
    and "pt_absolute_path t = pt_canonical_parent t @ [Normal name]"
    and "reject_vcs_component (pt_absolute_path t) = Inr ()"
    and "reject_unsupported_extension (pt_absolute_path t) = Inr ()"
    and "validate_leaf fs (pt_absolute_path t) = Inr ()"
    and "case workspace_root of None \<Rightarrow> pt_workspace_root_identity t = None
         | Some root \<Rightarrow> (\<exists>i. root_identity fs r root = Inr i \<and> pt_workspace_root_identity t = Some (root, i))"
  using assms by (auto simp: policy_resolve_def Let_def split: if_splits option.splits)

text \<open>
  The directory of the target lies in a root of the workspace, and the identity stored for the root is the one it has now.
  The root is the canonical path of a captured folder, and its identity the one captured, or it is the canonical form of
  the single root of a workspace without captured folders.
\<close>

definition in_workspace_root :: "file_system \<Rightarrow> workspace_resolver \<Rightarrow> policy_target \<Rightarrow> bool" where
  "in_workspace_root fs r t \<longleftrightarrow>
     (\<exists>root i. pt_workspace_root_identity t = Some (root, i) \<and> starts_with (pt_canonical_parent t) root
        \<and> change_identity_read fs root = Some i
        \<and> (if resolver_folders r = [] then Option.bind (primary_root r) (canonical_or_none fs) = Some root
           else \<exists>f \<in> set (resolver_folders r).
                  map_option path_components (wf_canonical_path f) = Some root \<and> wf_directory_identity f = Some i))"

lemma contained_in_workspace_root:
  assumes containing: "containing_root env fs r (pt_canonical_parent t) = Inr (Some root)"
    and root: "root_identity fs r root = Inr i" "pt_workspace_root_identity t = Some (root, i)"
  shows "in_workspace_root fs r t"
proof -
  note current = root_identity_current [OF containing root(1)] and inside = containing_root_Some(1) [OF containing]
  show ?thesis
  proof (cases "resolver_folders r = []")
    case True
    with containing have "Option.bind (primary_root r) (canonical_or_none fs) = Some root"
      by (auto simp: containing_root_def keep_def Option.bind_eq_Some_conv split: if_splits)
    with True current inside root(2) show ?thesis by (simp add: in_workspace_root_def)
  next
    case False
    then obtain f where f: "f \<in> set (resolver_folders r)" "validated_root env fs r f = Inr root"
      using containing_root_Some(2) [OF containing] by auto
    with False current inside root(2) show ?thesis by (auto simp: in_workspace_root_def validated_root_Inr)
  qed
qed

text \<open>
  C5: the target the policy makes of any path text. The text is resolved in the folders of the policy to a path on which
  no existing component is a symbolic link, and the target is the file name of that path in the canonical form of its
  directory. No component of the target is a version control directory, its extension is none of the refused document
  formats, and there is nothing at the target or a regular file with one link. Unless paths outside the workspace
  are allowed, the directory lies in a root of the workspace, the identity stored for that root is the one it has
  now, and for a captured folder it is the one it was captured with.
\<close>

theorem resolved_target_confined:
  assumes fs: "canonicalizes fs" and resolve: "policy_resolve env fs policy text = Inr t"
  shows "\<exists>r supplied unresolved parent name.
      policy_resolver fs policy = Inr r \<and> resolve_input env fs r (str_trim text) = Inr supplied
    \<and> normalize_absolute supplied = Inr unresolved
    \<and> (\<forall>k m. 0 < k \<and> k \<le> length unresolved \<and> fs_symlink_metadata fs (take k unresolved) = Inr m \<longrightarrow> \<not> md_is_symlink m)
    \<and> path_parent unresolved = Some parent \<and> file_name_of unresolved = Some name
    \<and> fs_canonicalize fs parent = Inr (pt_canonical_parent t)
    \<and> pt_absolute_path t = pt_canonical_parent t @ [Normal name] \<and> normal_path (pt_absolute_path t)
    \<and> (\<forall>w \<in> set (normal_names (pt_absolute_path t)). \<not> one_of w VCS_COMPONENTS)
    \<and> (\<forall>e. path_extension (pt_absolute_path t) = Some e \<longrightarrow> \<not> one_of (to_ascii_lowercase e) UNSUPPORTED_EXTENSIONS)
    \<and> (fs_symlink_metadata fs (pt_absolute_path t) = Inl IoNotFound
       \<or> (\<exists>m. fs_symlink_metadata fs (pt_absolute_path t) = Inr m \<and> \<not> md_is_symlink m \<and> md_is_file m \<and> md_nlink m = 1))
    \<and> (fp_allow_outside_workspace policy \<or> in_workspace_root fs r t)"
proof -
  obtain r supplied unresolved parent name workspace_root where
    input: "policy_resolver fs policy = Inr r" "resolve_input env fs r (str_trim text) = Inr supplied"
      "normalize_absolute supplied = Inr unresolved"
    and plain: "validate_existing_components_no_symlink fs unresolved = Inr ()"
    and parts: "path_parent unresolved = Some parent" "file_name_of unresolved = Some name"
    and parent: "canonical_directory fs parent = Inr (pt_canonical_parent t)"
    and containing: "containing_root env fs r (pt_canonical_parent t) = Inr workspace_root"
    and outside: "workspace_root = None \<longrightarrow> fp_allow_outside_workspace policy"
    and path: "pt_absolute_path t = pt_canonical_parent t @ [Normal name]"
    and vcs: "reject_vcs_component (pt_absolute_path t) = Inr ()"
    and ext: "reject_unsupported_extension (pt_absolute_path t) = Inr ()"
    and leaf: "validate_leaf fs (pt_absolute_path t) = Inr ()"
    and root: "case workspace_root of None \<Rightarrow> pt_workspace_root_identity t = None
      | Some root \<Rightarrow> (\<exists>i. root_identity fs r root = Inr i \<and> pt_workspace_root_identity t = Some (root, i))"
    using resolve by (rule policy_resolve_Inr)
  have canonical: "fs_canonicalize fs parent = Inr (pt_canonical_parent t)" using parent by (simp add: canonical_directory_Inr)
  then have "normal_path (pt_canonical_parent t)" using fs by (auto simp: canonicalizes_def)
  then have normal: "normal_path (pt_absolute_path t)" unfolding path by (rule normal_path_append) simp
  have links: "\<not> md_is_symlink m"
    if "0 < k" "k \<le> length unresolved" "fs_symlink_metadata fs (take k unresolved) = Inr m" for k m
    using that plain no_symlink_from_Inr [of fs "[]" unresolved]
    by (auto simp: validate_existing_components_no_symlink_def plain_at_def)
  have inside: "fp_allow_outside_workspace policy \<or> in_workspace_root fs r t"
    using outside root containing contained_in_workspace_root [of env fs r t] by (cases workspace_root) auto
  show ?thesis
    using input parts canonical links path normal inside vcs ext leaf
    unfolding reject_vcs_Inr reject_extension_Inr validate_leaf_Inr by blast
qed

lemma target_revalidate_Inr:
  "target_revalidate fs t = Inr () \<longleftrightarrow>
     (\<forall>root i. pt_workspace_root_identity t = Some (root, i) \<longrightarrow> change_identity_read fs root = Some i)
     \<and> (\<forall>k. 0 < k \<and> k \<le> length (pt_absolute_path t) \<longrightarrow> plain_at fs (pt_absolute_path t) k)
     \<and> canonical_directory fs (pt_canonical_parent t) = Inr (pt_canonical_parent t)
     \<and> directory_identity_read fs (pt_canonical_parent t) = Inr (pt_parent_identity t)
     \<and> validate_leaf fs (pt_absolute_path t) = Inr ()"
  using no_symlink_from_Inr [of fs "[]" "pt_absolute_path t"]
  by (auto simp: target_revalidate_def validate_existing_components_no_symlink_def split: option.splits if_splits)

text \<open>
  C10: when a target that was resolved in one state of the file system is looked at again
  in another and accepted, then its directory is the same directory in both states, by device and inode, and a real
  directory; the workspace folder it was found in is the same, too; no existing component of its path is a symbolic
  link; and there is nothing at the target or a regular file with one link.
\<close>

theorem revalidated_target_unchanged:
  assumes "policy_resolve env fs policy text = Inr t" and "target_revalidate fs' t = Inr ()"
  shows "(\<exists>m m'. fs_symlink_metadata fs (pt_canonical_parent t) = Inr m \<and> fs_symlink_metadata fs' (pt_canonical_parent t) = Inr m'
        \<and> md_dev m' = md_dev m \<and> md_ino m' = md_ino m \<and> md_is_dir m' \<and> \<not> md_is_symlink m')
    \<and> (\<forall>root i. pt_workspace_root_identity t = Some (root, i) \<longrightarrow>
         change_identity_read fs root = Some i \<and> change_identity_read fs' root = Some i)
    \<and> (\<forall>k m. 0 < k \<and> k \<le> length (pt_absolute_path t) \<and> fs_symlink_metadata fs' (take k (pt_absolute_path t)) = Inr m
         \<longrightarrow> \<not> md_is_symlink m)
    \<and> (\<forall>m. fs_symlink_metadata fs' (pt_absolute_path t) = Inr m \<longrightarrow> md_is_file m \<and> md_nlink m = 1)"
proof -
  obtain r supplied unresolved parent name workspace_root where
    identity: "directory_identity_read fs (pt_canonical_parent t) = Inr (pt_parent_identity t)"
    and containing: "containing_root env fs r (pt_canonical_parent t) = Inr workspace_root"
    and root: "case workspace_root of None \<Rightarrow> pt_workspace_root_identity t = None
      | Some root \<Rightarrow> (\<exists>i. root_identity fs r root = Inr i \<and> pt_workspace_root_identity t = Some (root, i))"
    using assms(1) by (rule policy_resolve_Inr)
  note again = assms(2) [unfolded target_revalidate_Inr]
  have "change_identity_read fs w = Some i" if "pt_workspace_root_identity t = Some (w, i)" for w i
    using that root containing root_identity_current [of env fs r "pt_canonical_parent t" w i] by (cases workspace_root) auto
  moreover have "\<exists>m m'. fs_symlink_metadata fs (pt_canonical_parent t) = Inr m \<and> fs_symlink_metadata fs' (pt_canonical_parent t) = Inr m'
      \<and> md_dev m' = md_dev m \<and> md_ino m' = md_ino m \<and> md_is_dir m' \<and> \<not> md_is_symlink m'"
    using identity again by (auto simp: directory_identity_read_Inr)
  moreover have "\<not> md_is_symlink m"
    if "0 < k" "k \<le> length (pt_absolute_path t)" "fs_symlink_metadata fs' (take k (pt_absolute_path t)) = Inr m" for k m
    using that again by (auto simp: plain_at_def)
  moreover have "md_is_file m \<and> md_nlink m = 1" if "fs_symlink_metadata fs' (pt_absolute_path t) = Inr m" for m
    using that again by (auto simp: validate_leaf_Inr)
  ultimately show ?thesis using again by blast
qed

text \<open>
  What \<open>canonicalize\<close> and \<open>symlink_metadata\<close> agree on while nothing changes: a canonical path is its own canonical path,
  and each of its ancestors is a directory and no link.
\<close>

definition canonical_paths_plain :: "file_system \<Rightarrow> bool" where
  "canonical_paths_plain fs \<longleftrightarrow>
     (\<forall>p q. fs_canonicalize fs p = Inr q \<longrightarrow> fs_canonicalize fs q = Inr q
        \<and> (\<forall>k. 0 < k \<and> k < length q \<longrightarrow>
             (\<exists>m. fs_symlink_metadata fs (take k q) = Inr m \<and> \<not> md_is_symlink m \<and> md_is_dir m)))"

text \<open>
  While the file system stays as it is, a target that was resolved passes the second look.
\<close>

theorem unchanged_target_revalidates:
  assumes fs: "canonical_paths_plain fs" and resolve: "policy_resolve env fs policy text = Inr t"
  shows "target_revalidate fs t = Inr ()"
proof -
  obtain r supplied unresolved parent name workspace_root where
    parent: "canonical_directory fs parent = Inr (pt_canonical_parent t)"
    and identity: "directory_identity_read fs (pt_canonical_parent t) = Inr (pt_parent_identity t)"
    and containing: "containing_root env fs r (pt_canonical_parent t) = Inr workspace_root"
    and path: "pt_absolute_path t = pt_canonical_parent t @ [Normal name]"
    and leaf: "validate_leaf fs (pt_absolute_path t) = Inr ()"
    and root: "case workspace_root of None \<Rightarrow> pt_workspace_root_identity t = None
      | Some root \<Rightarrow> (\<exists>i. root_identity fs r root = Inr i \<and> pt_workspace_root_identity t = Some (root, i))"
    using resolve by (rule policy_resolve_Inr)
  let ?q = "pt_canonical_parent t"
  obtain m where m: "fs_symlink_metadata fs ?q = Inr m" "\<not> md_is_symlink m" "md_is_dir m"
    using identity by (auto simp: directory_identity_read_Inr)
  have canonical: "fs_canonicalize fs ?q = Inr ?q"
    and ancestors: "\<forall>k. 0 < k \<and> k < length ?q \<longrightarrow>
      (\<exists>m. fs_symlink_metadata fs (take k ?q) = Inr m \<and> \<not> md_is_symlink m \<and> md_is_dir m)"
    using fs parent by (auto simp: canonical_paths_plain_def canonical_directory_Inr)
  have "plain_at fs (pt_absolute_path t) k" if k: "0 < k" "k \<le> length (pt_absolute_path t)" for k
  proof -
    consider "k < length ?q" | "k = length ?q" | "k = length (pt_absolute_path t)" using k(2) by (force simp: path le_Suc_eq)
    then show ?thesis
    proof cases
      case 1
      with ancestors k(1) show ?thesis by (simp add: plain_at_def path)
    next
      case 2
      with m show ?thesis by (simp add: plain_at_def path)
    next
      case 3
      with leaf show ?thesis by (auto simp: plain_at_def validate_leaf_Inr)
    qed
  qed
  moreover have "change_identity_read fs w = Some i" if "pt_workspace_root_identity t = Some (w, i)" for w i
    using that root containing root_identity_current [of env fs r ?q w i] by (cases workspace_root) auto
  ultimately show ?thesis
    using identity leaf canonical m by (auto simp: target_revalidate_Inr canonical_directory_Inr)
qed

section \<open>Witnesses\<close>

definition example_policy :: path_policy where
  "example_policy = policy_from_workspace example_resolver False"

definition example_target :: policy_target where
  "example_target =
     \<lparr>pt_absolute_path = [RootDir, Normal (S ''d''), Normal (S ''a.txt'')], pt_canonical_parent = [RootDir, Normal (S ''d'')],
      pt_display_path = S ''@workspace/docs/a.txt'', pt_parent_identity = \<lparr>di_device = 1, di_inode = 8\<rparr>,
      pt_workspace_root_identity = Some ([RootDir, Normal (S ''d'')], UnixChangeDirectory 1 1 8)\<rparr>"

definition example_fs_later :: file_system where
  "example_fs_later =
     example_fs\<lparr>fs_symlink_metadata := (fs_symlink_metadata example_fs)([RootDir, Normal (S ''d''), Normal (S ''a.txt'')] :=
       Inr \<lparr>md_is_dir = False, md_is_file = True, md_is_symlink = False, md_len = 3, md_modified = None, md_dev = 1, md_ino = 9,
            md_nlink = 1\<rparr>)\<rparr>"

lemma example_resolved: "policy_resolve example_path_env example_fs example_policy (S ''@workspace/docs/a.txt'') = Inr example_target"
  by code_simp

lemma example_looked_at_again: "target_revalidate example_fs_later example_target = Inr ()"
  by code_simp

lemma example_fs_plain: "canonical_paths_plain example_fs"
  by (auto simp: canonical_paths_plain_def example_fs_def Let_def less_Suc_eq split: if_splits)

theorem resolved_target_confined_witness:
  "canonicalizes example_fs \<and> policy_resolve example_path_env example_fs example_policy (S ''@workspace/docs/a.txt'') = Inr example_target
   \<and> \<not> fp_allow_outside_workspace example_policy
   \<and> (\<exists>r. policy_resolver example_fs example_policy = Inr r \<and> in_workspace_root example_fs r example_target)"
proof -
  have "\<not> fp_allow_outside_workspace example_policy" by (simp add: example_policy_def policy_from_workspace_def)
  then show ?thesis
    using resolved_target_confined [OF example_fs_canonicalizes example_resolved] example_fs_canonicalizes example_resolved by blast
qed

theorem revalidated_target_unchanged_witness:
  "policy_resolve example_path_env example_fs example_policy (S ''@workspace/docs/a.txt'') = Inr example_target
   \<and> target_revalidate example_fs_later example_target = Inr ()
   \<and> (\<exists>m. fs_symlink_metadata example_fs_later (pt_canonical_parent example_target) = Inr m \<and> md_is_dir m)"
  using revalidated_target_unchanged [OF example_resolved example_looked_at_again] example_resolved example_looked_at_again by blast

theorem unchanged_target_revalidates_witness:
  "canonical_paths_plain example_fs \<and> policy_resolve example_path_env example_fs example_policy (S ''@workspace/docs/a.txt'') = Inr example_target
   \<and> target_revalidate example_fs example_target = Inr ()"
  using unchanged_target_revalidates [OF example_fs_plain example_resolved] example_fs_plain example_resolved by blast

end
