(* ===== verification/Run_Grants.thy ===== *)
theory Run_Grants
  imports File_Change_Execute Workspace_Props Permissions Tool_Failure_Guard
begin

text \<open>
  Grants that let further file changes of one run proceed without asking again: their scope
  (\<open>src/crates/core/src/file_change/run_grant.rs\<close>), the table that holds them
  (\<open>storage/file_change_run_grant_repository.rs\<close>) and the check of a grant before an effect
  (\<open>storage/service/file_change_run_grants.rs\<close>). A table is the list of its rows; a statement \<open>UPDATE .. SET .. WHERE\<close> is
  a map over the rows, \<open>INSERT OR IGNORE\<close> leaves the table alone when a constraint of \<open>canonical_schema.sql\<close> forbids the
  row. The JSON text that is hashed to identify a workspace comes from \<open>serde_json\<close> and is a field of \<open>grant_env\<close>.
\<close>

section \<open>Data\<close>

definition APPLY_PATCH_RUN_GRANT_CONTRACT_REVISION :: rstring where
  "APPLY_PATCH_RUN_GRANT_CONTRACT_REVISION = S ''apply-patch-file-change-v1''"

datatype grant_scope_kind = ScopeWorkspace | ScopeExternalParent

datatype grant_status = GrantPending | GrantActive | GrantInactive | GrantRevoked

datatype grant_error =
    InvalidGrantReference | InvalidGrant | InvalidGrantIdentity | InvalidGrantScope | InvalidGrantDigest
  | InvalidGrantLifecycle | GrantNotActive | NotCreateOrUpdate | BindingInvalid | OwnerInvalid | WriteDeniedError
  | TargetInvalid | TargetHasNoParent | ParentUnavailable | WorkspaceUnavailable | OutsideWorkspace
  | DirectoryUnavailable | WorkspaceIdentityChanged | NotPending | IgnoredWithoutRow | ConflictsWithRow
  | OtherTerminalState | LostCompareAndSet | StorageFailed

record run_grant =
  rg_schema_version :: nat
  rg_grant_id :: rstring
  rg_revision :: nat
  rg_status :: grant_status
  rg_run_id :: rstring
  rg_conversation_id :: rstring
  rg_project_id :: "rstring option"
  rg_scope_kind :: grant_scope_kind
  rg_workspace_identity :: "rstring option"
  rg_canonical_scope_path :: rstring
  rg_scope_directory_identity :: change_directory_identity
  rg_granting_pending_action_id :: rstring
  rg_base_write_permission :: agent_write_permission
  rg_granting_permission_revision :: rstring
  rg_granting_tool_set_revision :: rstring
  rg_granting_provider_wire_revision :: rstring
  rg_apply_patch_contract_revision :: rstring
  rg_activation_result_digest :: "rstring option"
  rg_created_at :: int
  rg_activated_at :: "int option"
  rg_inactive_at :: "int option"
  rg_revoked_at :: "int option"

record grant_ref =
  gr_schema_version :: nat
  gr_grant_id :: rstring
  gr_revision :: nat
  gr_apply_patch_contract_revision :: rstring

record derived_scope =
  ds_scope_kind :: grant_scope_kind
  ds_workspace_identity :: "rstring option"
  ds_canonical_scope_path :: rstring
  ds_scope_directory_identity :: change_directory_identity
  ds_base_write_permission :: agent_write_permission
  ds_workspace_roots :: "(rstring \<times> change_directory_identity) list"

record run_context =
  rx_conversation_id :: "rstring option"
  rx_project_id :: "rstring option"
  rx_workspace :: "workspace_context option"
  rx_permissions :: agent_permissions

record grant_env =
  ge_paths :: path_env
  ge_sha256 :: "byte list \<Rightarrow> byte list"
  ge_root_json :: "rstring option \<Rightarrow> rstring option \<Rightarrow> rstring \<Rightarrow> byte list"
  ge_workspace_json :: "rstring option \<Rightarrow> workspace_context option \<Rightarrow> byte list"

section \<open>Validation\<close>

definition canonical_pending_action_id :: "rstring \<Rightarrow> rstring \<Rightarrow> rstring" where
  "canonical_pending_action_id run_id source_call_id =
     S ''v2:'' @ decimal (byte_len run_id) @ S '':'' @ run_id @ S '':'' @ source_call_id"

definition is_canonical_pending_action_id_for_run :: "rstring \<Rightarrow> rstring \<Rightarrow> bool" where
  "is_canonical_pending_action_id_for_run action_id run_id \<longleftrightarrow>
     is_some_and (strip_prefix action_id (S ''v2:'' @ decimal (byte_len run_id) @ S '':'' @ run_id @ S '':''))
       (\<lambda>source_call_id. source_call_id \<noteq> [] \<and> canonical_pending_action_id run_id source_call_id = action_id)"

definition valid_grant_owned_id :: "rstring \<Rightarrow> nat \<Rightarrow> bool" where
  "valid_grant_owned_id value max_bytes \<longleftrightarrow>
     value \<noteq> [] \<and> byte_len value \<le> max_bytes \<and> str_trim value = value \<and> \<not> list_ex is_control value"

definition grant_ref_validate :: "grant_ref \<Rightarrow> grant_error + unit" where
  "grant_ref_validate r =
     ensure (gr_schema_version r = FILE_CHANGE_RUN_GRANT_SCHEMA_VERSION \<and> valid_grant_owned_id (gr_grant_id r) 256
       \<and> gr_revision r \<noteq> 0 \<and> gr_apply_patch_contract_revision r = APPLY_PATCH_RUN_GRANT_CONTRACT_REVISION) InvalidGrantReference"

definition grant_header_valid :: "run_grant \<Rightarrow> bool" where
  "grant_header_valid g \<longleftrightarrow>
     rg_schema_version g = FILE_CHANGE_RUN_GRANT_SCHEMA_VERSION
     \<and> valid_grant_owned_id (rg_grant_id g) 256 \<and> valid_grant_owned_id (rg_run_id g) 256
     \<and> \<not> blank (rg_conversation_id g) \<and> \<not> blank (rg_canonical_scope_path g)
     \<and> str_trim (rg_canonical_scope_path g) = rg_canonical_scope_path g
     \<and> \<not> list_ex is_control (rg_canonical_scope_path g)
     \<and> is_canonical_pending_action_id_for_run (rg_granting_pending_action_id g) (rg_run_id g)
     \<and> rg_apply_patch_contract_revision g = APPLY_PATCH_RUN_GRANT_CONTRACT_REVISION
     \<and> valid_grant_owned_id (rg_granting_permission_revision g) 256
     \<and> valid_grant_owned_id (rg_granting_tool_set_revision g) 256
     \<and> valid_grant_owned_id (rg_granting_provider_wire_revision g) 256
     \<and> rg_base_write_permission g \<noteq> WriteDenied"

definition grant_lifecycle_validate :: "run_grant \<Rightarrow> grant_error + unit" where
  "grant_lifecycle_validate g =
     (case rg_status g of
        GrantPending \<Rightarrow>
          ensure (rg_revision g = 0 \<and> rg_activation_result_digest g = None \<and> rg_activated_at g = None
            \<and> rg_inactive_at g = None \<and> rg_revoked_at g = None) InvalidGrantLifecycle
      | GrantActive \<Rightarrow>
          ensure (rg_revision g > 0 \<and> is_some_and (rg_activation_result_digest g) valid_digest \<and> rg_activated_at g \<noteq> None
            \<and> rg_inactive_at g = None \<and> rg_revoked_at g = None) InvalidGrantLifecycle
      | GrantInactive \<Rightarrow>
          ensure (rg_revision g > 0 \<and> rg_activation_result_digest g = None \<and> rg_activated_at g = None
            \<and> rg_inactive_at g \<noteq> None \<and> rg_revoked_at g = None) InvalidGrantLifecycle
      | GrantRevoked \<Rightarrow>
          if rg_revision g > 0 \<and> rg_revoked_at g \<noteq> None
          then ensure (\<not> is_some_and (rg_activation_result_digest g) (\<lambda>d. \<not> valid_digest d)) InvalidGrantDigest
          else Inl InvalidGrantLifecycle)"

definition run_grant_validate :: "run_grant \<Rightarrow> grant_error + unit" where
  "run_grant_validate g =
     rbind (ensure (grant_header_valid g) InvalidGrant) (\<lambda>_.
     rbind (ensure (change_identity_validate (rg_scope_directory_identity g)) InvalidGrantIdentity) (\<lambda>_.
     rbind (case (rg_scope_kind g, rg_workspace_identity g) of
              (ScopeWorkspace, Some identity) \<Rightarrow> ensure (identity \<noteq> []) InvalidGrantScope
            | (ScopeExternalParent, None) \<Rightarrow> Inr ()
            | _ \<Rightarrow> Inl InvalidGrantScope) (\<lambda>_.
     grant_lifecycle_validate g)))"

definition grant_reference :: "run_grant \<Rightarrow> grant_error + grant_ref" where
  "grant_reference g =
     rbind (run_grant_validate g) (\<lambda>_.
     if rg_status g \<noteq> GrantActive then Inl GrantNotActive
     else Inr \<lparr>gr_schema_version = rg_schema_version g, gr_grant_id = rg_grant_id g, gr_revision = rg_revision g,
               gr_apply_patch_contract_revision = rg_apply_patch_contract_revision g\<rparr>)"

section \<open>Scope\<close>

definition matches_record :: "derived_scope \<Rightarrow> run_grant \<Rightarrow> bool" where
  "matches_record s g \<longleftrightarrow>
     ds_scope_kind s = rg_scope_kind g \<and> ds_workspace_identity s = rg_workspace_identity g
     \<and> ds_canonical_scope_path s = rg_canonical_scope_path g
     \<and> ds_scope_directory_identity s = rg_scope_directory_identity g
     \<and> ds_base_write_permission s = rg_base_write_permission g"

definition is_authorized_by :: "file_system \<Rightarrow> derived_scope \<Rightarrow> run_grant \<Rightarrow> bool" where
  "is_authorized_by fs s g \<longleftrightarrow>
     ds_scope_kind s = rg_scope_kind g \<and> ds_workspace_identity s = rg_workspace_identity g
     \<and> ds_base_write_permission s = rg_base_write_permission g
     \<and> (case ds_scope_kind s of
          ScopeWorkspace \<Rightarrow>
            list_ex (\<lambda>(root, identity). root = rg_canonical_scope_path g \<and> identity = rg_scope_directory_identity g
              \<and> change_identity_read fs (path_components root) = Some identity) (ds_workspace_roots s)
        | ScopeExternalParent \<Rightarrow>
            ds_canonical_scope_path s = rg_canonical_scope_path g
            \<and> ds_scope_directory_identity s = rg_scope_directory_identity g)"

definition file_change_workspace_identity :: "grant_env \<Rightarrow> rstring option \<Rightarrow> rstring option \<Rightarrow> path_buf \<Rightarrow> rstring" where
  "file_change_workspace_identity env project_id workspace_project_id canonical_root =
     digest_bytes (ge_sha256 env) PROPOSAL_DOMAIN (ge_root_json env project_id workspace_project_id (path_string canonical_root))"

definition captured_roots :: "workspace_resolver \<Rightarrow> (rstring \<times> change_directory_identity) list" where
  "captured_roots r =
     List.map_filter (\<lambda>f. case (wf_canonical_path f, wf_directory_identity f) of
         (Some path, Some i) \<Rightarrow> Some (path, i) | _ \<Rightarrow> None) (resolver_folders r)"

definition workspace_scope_identity :: "grant_env \<Rightarrow> run_context \<Rightarrow> path_buf \<Rightarrow> rstring" where
  "workspace_scope_identity env ctx root =
     (if resolver_folders (rx_workspace ctx) = []
      then file_change_workspace_identity env (rx_project_id ctx) (Option.bind (rx_workspace ctx) wc_project_id) root
      else digest_bytes (ge_sha256 env) PROPOSAL_DOMAIN (ge_workspace_json env (rx_project_id ctx) (rx_workspace ctx)))"

definition scope_of_target ::
  "grant_env \<Rightarrow> file_system \<Rightarrow> run_context \<Rightarrow> path_buf \<Rightarrow> path_buf \<Rightarrow> path_buf option
     \<Rightarrow> grant_error + (grant_scope_kind \<times> rstring option \<times> rstring \<times> (rstring \<times> change_directory_identity) list)" where
  "scope_of_target env fs ctx target canonical_parent workspace =
     (let r = rx_workspace ctx; roots = captured_roots r in
      case keep (starts_with target) workspace of
        Some root \<Rightarrow>
          if resolver_folders r = []
          then rbind (ok_or (change_identity_read fs root) DirectoryUnavailable) (\<lambda>i.
            Inr (ScopeWorkspace, Some (workspace_scope_identity env ctx root), path_string root, roots @ [(path_string root, i)]))
          else Inr (ScopeWorkspace, Some (workspace_scope_identity env ctx root), path_string root, roots)
      | None \<Rightarrow>
          if pm_write (rx_permissions ctx) = WriteAll then Inr (ScopeExternalParent, None, path_string canonical_parent, roots)
          else Inl OutsideWorkspace)"

definition derive_file_change_run_grant_scope ::
  "grant_env \<Rightarrow> file_system \<Rightarrow> nat \<Rightarrow> agent_proposal \<Rightarrow> run_context \<Rightarrow> grant_error + derived_scope" where
  "derive_file_change_run_grant_scope env fs now p ctx =
     (let b = ap_execution p; write = pm_write (rx_permissions ctx); target = path_components (bd_canonical_target b) in
      rbind (ensure (ap_operation p = Create \<or> ap_operation p = Update) NotCreateOrUpdate) (\<lambda>_.
      rbind (ensure (binding_validate (ge_sha256 env) now b = Inr ()) BindingInvalid) (\<lambda>_.
      rbind (ensure (bd_source_tool_name b = S ''apply_patch'' \<and> bd_source_call_id b = ap_id p
          \<and> rx_conversation_id ctx = Some (bd_conversation_id b) \<and> rx_project_id ctx = bd_project_id b) OwnerInvalid) (\<lambda>_.
      rbind (ensure (write \<noteq> WriteDenied) WriteDeniedError) (\<lambda>_.
      rbind (ensure (path_is_absolute (bd_canonical_target b)) TargetInvalid) (\<lambda>_.
      rbind (ok_or (path_parent target) TargetHasNoParent) (\<lambda>parent.
      rbind (case fs_canonicalize fs parent of Inl _ \<Rightarrow> Inl ParentUnavailable | Inr q \<Rightarrow> Inr q) (\<lambda>canonical_parent.
      rbind (case containing_root (ge_paths env) fs (rx_workspace ctx) target of
               Inl _ \<Rightarrow> Inl WorkspaceUnavailable | Inr w \<Rightarrow> Inr w) (\<lambda>workspace.
      rbind (scope_of_target env fs ctx target canonical_parent workspace) (\<lambda>(kind, identity, scope_path, roots).
      rbind (ok_or (change_identity_read fs (path_components scope_path)) DirectoryUnavailable) (\<lambda>scope_identity.
      if kind = ScopeWorkspace \<and> (scope_path, scope_identity) \<notin> set roots then Inl WorkspaceIdentityChanged
      else Inr \<lparr>ds_scope_kind = kind, ds_workspace_identity = identity, ds_canonical_scope_path = scope_path,
                ds_scope_directory_identity = scope_identity, ds_base_write_permission = write,
                ds_workspace_roots = roots\<rparr>)))))))))))"

section \<open>Authority\<close>

definition scope_authorizes ::
  "grant_env \<Rightarrow> file_system \<Rightarrow> nat \<Rightarrow> nat \<Rightarrow> run_grant \<Rightarrow> agent_proposal \<Rightarrow> run_context \<Rightarrow> grant_error + bool" where
  "scope_authorizes env fs now1 now2 g p ctx =
     (let b = ap_execution p in
      rbind (ensure (binding_validate (ge_sha256 env) now1 b = Inr ()) InvalidGrant) (\<lambda>_.
      if rg_apply_patch_contract_revision g \<noteq> APPLY_PATCH_RUN_GRANT_CONTRACT_REVISION
         \<or> \<not> (ap_operation p = Create \<or> ap_operation p = Update)
         \<or> bd_source_tool_name b \<noteq> S ''apply_patch'' \<or> bd_source_call_id b \<noteq> ap_id p
         \<or> rg_run_id g \<noteq> bd_run_id b \<or> rx_conversation_id ctx \<noteq> Some (rg_conversation_id g)
         \<or> bd_conversation_id b \<noteq> rg_conversation_id g \<or> rx_project_id ctx \<noteq> rg_project_id g
         \<or> bd_project_id b \<noteq> rg_project_id g
         \<or> bd_permission_revision b \<noteq> rg_granting_permission_revision g
         \<or> bd_tool_set_revision b \<noteq> rg_granting_tool_set_revision g
         \<or> bd_provider_wire_revision b \<noteq> rg_granting_provider_wire_revision g
         \<or> pm_write (rx_permissions ctx) = WriteDenied
      then Inr False
      else case derive_file_change_run_grant_scope env fs now2 p ctx of
        Inl _ \<Rightarrow> Inl InvalidGrant
      | Inr s \<Rightarrow> Inr (if rg_status g = GrantPending then matches_record s g else is_authorized_by fs s g)))"

definition run_grant_authorizes ::
  "grant_env \<Rightarrow> file_system \<Rightarrow> nat \<Rightarrow> nat \<Rightarrow> run_grant \<Rightarrow> grant_ref option \<Rightarrow> agent_proposal \<Rightarrow> run_context \<Rightarrow> grant_error + bool" where
  "run_grant_authorizes env fs now1 now2 g expected p ctx =
     rbind (case run_grant_validate g of Inl _ \<Rightarrow> Inl InvalidGrant | Inr _ \<Rightarrow> Inr ()) (\<lambda>_.
     if rg_status g \<noteq> GrantActive then Inr False
     else if is_some_and expected (\<lambda>e. gr_grant_id e \<noteq> rg_grant_id g \<or> gr_revision e \<noteq> rg_revision g
         \<or> gr_schema_version e \<noteq> rg_schema_version g \<or> gr_apply_patch_contract_revision e \<noteq> rg_apply_patch_contract_revision g)
     then Inr False
     else scope_authorizes env fs now1 now2 g p ctx)"

definition validate_pending_binding ::
  "grant_env \<Rightarrow> file_system \<Rightarrow> nat \<Rightarrow> nat \<Rightarrow> run_grant \<Rightarrow> agent_proposal \<Rightarrow> run_context \<Rightarrow> grant_error + bool" where
  "validate_pending_binding env fs now1 now2 g p ctx =
     rbind (case run_grant_validate g of Inl _ \<Rightarrow> Inl InvalidGrant | Inr _ \<Rightarrow> Inr ()) (\<lambda>_.
     if rg_status g \<noteq> GrantPending \<or> rg_granting_pending_action_id g \<noteq> canonical_pending_action_id (rg_run_id g) (ap_id p)
     then Inr False
     else scope_authorizes env fs now1 now2 g p ctx)"

section \<open>The table\<close>

definition update_where :: "('r \<Rightarrow> bool) \<Rightarrow> ('r \<Rightarrow> 'r) \<Rightarrow> 'r list \<Rightarrow> nat \<times> 'r list" where
  "update_where p f rows = (length (filter p rows), map (\<lambda>r. if p r then f r else r) rows)"

text \<open>The constraints of the table on one row that \<open>validate\<close> does not imply.\<close>

definition row_fits :: "run_grant \<Rightarrow> bool" where
  "row_fits g \<longleftrightarrow>
     byte_len (rg_canonical_scope_path g) \<le> 32768 \<and> byte_len (rg_granting_pending_action_id g) \<le> 2304
     \<and> \<not> is_some_and (rg_workspace_identity g) (\<lambda>i. byte_len i > 256)"

definition get_run_grant_for_pending_action :: "rstring \<Rightarrow> run_grant list \<Rightarrow> run_grant option" where
  "get_run_grant_for_pending_action action rows = find (\<lambda>g. rg_granting_pending_action_id g = action) rows"

definition get_active_run_grant_record :: "rstring \<Rightarrow> run_grant list \<Rightarrow> run_grant option" where
  "get_active_run_grant_record run rows = find (\<lambda>g. rg_run_id g = run \<and> rg_status g = GrantActive) rows"

definition same_intent :: "run_grant \<Rightarrow> run_grant \<Rightarrow> bool" where
  "same_intent existing g \<longleftrightarrow>
     rg_status existing = GrantPending \<and> rg_run_id existing = rg_run_id g \<and> rg_conversation_id existing = rg_conversation_id g
     \<and> rg_project_id existing = rg_project_id g \<and> rg_scope_kind existing = rg_scope_kind g
     \<and> rg_workspace_identity existing = rg_workspace_identity g
     \<and> rg_canonical_scope_path existing = rg_canonical_scope_path g
     \<and> rg_scope_directory_identity existing = rg_scope_directory_identity g
     \<and> rg_granting_pending_action_id existing = rg_granting_pending_action_id g
     \<and> rg_base_write_permission existing = rg_base_write_permission g
     \<and> rg_granting_permission_revision existing = rg_granting_permission_revision g
     \<and> rg_granting_tool_set_revision existing = rg_granting_tool_set_revision g
     \<and> rg_granting_provider_wire_revision existing = rg_granting_provider_wire_revision g
     \<and> rg_apply_patch_contract_revision existing = rg_apply_patch_contract_revision g
     \<and> rg_activation_result_digest existing = None"

text \<open>\<open>referenced\<close>: the conversation and the pending action of the row exist, which the foreign keys demand.\<close>

definition insert_pending_run_grant :: "bool \<Rightarrow> run_grant \<Rightarrow> run_grant list \<Rightarrow> grant_error + bool \<times> run_grant list" where
  "insert_pending_run_grant referenced g rows =
     rbind (run_grant_validate g) (\<lambda>_.
     if rg_status g \<noteq> GrantPending then Inl NotPending
     else if rg_grant_id g \<notin> set (map rg_grant_id rows)
       \<and> rg_granting_pending_action_id g \<notin> set (map rg_granting_pending_action_id rows) \<and> row_fits g
     then (if referenced then Inr (True, rows @ [g]) else Inl StorageFailed)
     else case get_run_grant_for_pending_action (rg_granting_pending_action_id g) rows of
       None \<Rightarrow> Inl IgnoredWithoutRow
     | Some existing \<Rightarrow> if same_intent existing g then Inr (False, rows) else Inl ConflictsWithRow)"

definition revoke :: "int \<Rightarrow> run_grant \<Rightarrow> run_grant" where
  "revoke at g = g\<lparr>rg_status := GrantRevoked, rg_revision := rg_revision g + 1, rg_revoked_at := Some at\<rparr>"

definition deactivate :: "int \<Rightarrow> run_grant \<Rightarrow> run_grant" where
  "deactivate at g = g\<lparr>rg_status := GrantInactive, rg_revision := 1, rg_inactive_at := Some at\<rparr>"

definition activate_grant :: "rstring option \<Rightarrow> int \<Rightarrow> run_grant \<Rightarrow> run_grant" where
  "activate_grant digest at g =
     g\<lparr>rg_status := GrantActive, rg_revision := 1, rg_activation_result_digest := digest, rg_activated_at := Some at\<rparr>"

definition is_pending_intent :: "rstring \<Rightarrow> run_grant \<Rightarrow> bool" where
  "is_pending_intent action g \<longleftrightarrow> rg_granting_pending_action_id g = action \<and> rg_status g = GrantPending \<and> rg_revision g = 0"

definition settle_pending_run_grant ::
  "rstring \<Rightarrow> bool \<Rightarrow> rstring option \<Rightarrow> int \<Rightarrow> run_grant list \<Rightarrow> grant_error + bool \<times> run_grant list" where
  "settle_pending_run_grant action activate digest at rows =
     (if activate \<noteq> is_some_and digest valid_digest then Inl InvalidGrantDigest
      else case get_run_grant_for_pending_action action rows of
        None \<Rightarrow> Inr (False, rows)
      | Some existing \<Rightarrow>
          if rg_status existing \<noteq> GrantPending then
            (let expected = (if activate then GrantActive else GrantInactive);
                 same_activation = (if activate then rg_activation_result_digest existing = digest
                                    else rg_activation_result_digest existing = None) in
             if rg_status existing = expected \<and> same_activation \<or> rg_status existing = GrantInactive then Inr (False, rows)
             else Inl OtherTerminalState)
          else
            (let rows = (if activate
                         then snd (update_where (\<lambda>g. rg_run_id g = rg_run_id existing \<and> rg_status g = GrantActive
                                \<and> rg_granting_pending_action_id g \<noteq> action) (revoke at) rows)
                         else rows);
                 (changed, rows) = update_where (is_pending_intent action)
                   (if activate then activate_grant digest at else deactivate at) rows in
             if changed = 1 then Inr (True, rows) else Inl LostCompareAndSet))"

definition revoke_active_run_grant :: "rstring \<Rightarrow> int \<Rightarrow> run_grant list \<Rightarrow> nat \<times> run_grant list" where
  "revoke_active_run_grant run at = update_where (\<lambda>g. rg_run_id g = run \<and> rg_status g = GrantActive) (revoke at)"

definition retire_pending_run_grant_for_action :: "rstring \<Rightarrow> int \<Rightarrow> run_grant list \<Rightarrow> bool \<times> run_grant list" where
  "retire_pending_run_grant_for_action action at rows =
     (case update_where (is_pending_intent action) (deactivate at) rows of (changed, rows) \<Rightarrow> (changed = 1, rows))"

definition revoke_nonterminal_run_grants :: "rstring \<Rightarrow> int \<Rightarrow> run_grant list \<Rightarrow> nat \<times> run_grant list" where
  "revoke_nonterminal_run_grants run at =
     update_where (\<lambda>g. rg_run_id g = run \<and> (rg_status g = GrantPending \<or> rg_status g = GrantActive)) (revoke at)"

text \<open>
  \<open>has_receipt\<close> is \<open>active_grant_has_authoritative_receipt\<close>, which reads the table of pending actions.
\<close>

definition get_active_run_grant :: "(run_grant \<Rightarrow> bool) \<Rightarrow> rstring \<Rightarrow> run_grant list \<Rightarrow> run_grant option" where
  "get_active_run_grant has_receipt run rows = keep has_receipt (get_active_run_grant_record run rows)"

definition active_run_grant_matches_ref :: "(run_grant \<Rightarrow> bool) \<Rightarrow> rstring \<Rightarrow> grant_ref \<Rightarrow> run_grant list \<Rightarrow> grant_error + bool" where
  "active_run_grant_matches_ref has_receipt run expected rows =
     rbind (grant_ref_validate expected) (\<lambda>_.
     Inr (is_some_and (get_active_run_grant has_receipt run rows) (\<lambda>g.
       rg_grant_id g = gr_grant_id expected \<and> rg_revision g = gr_revision expected
       \<and> rg_schema_version g = gr_schema_version expected
       \<and> rg_apply_patch_contract_revision g = gr_apply_patch_contract_revision expected)))"

definition resolve_active_run_grant ::
  "(run_grant \<Rightarrow> bool) \<Rightarrow> grant_env \<Rightarrow> file_system \<Rightarrow> nat \<Rightarrow> nat \<Rightarrow> agent_proposal \<Rightarrow> run_context \<Rightarrow> run_grant list
     \<Rightarrow> grant_error + grant_ref option" where
  "resolve_active_run_grant has_receipt env fs now1 now2 p ctx rows =
     (case get_active_run_grant has_receipt (bd_run_id (ap_execution p)) rows of
        None \<Rightarrow> Inr None
      | Some g \<Rightarrow>
          rbind (run_grant_authorizes env fs now1 now2 g None p ctx) (\<lambda>authorized.
          if \<not> authorized then Inr None
          else case grant_reference g of Inl _ \<Rightarrow> Inl InvalidGrant | Inr r \<Rightarrow> Inr (Some r)))"

definition validate_run_grant ::
  "(run_grant \<Rightarrow> bool) \<Rightarrow> grant_env \<Rightarrow> file_system \<Rightarrow> nat \<Rightarrow> nat \<Rightarrow> grant_ref \<Rightarrow> agent_proposal \<Rightarrow> run_context \<Rightarrow> run_grant list
     \<Rightarrow> grant_error + bool" where
  "validate_run_grant has_receipt env fs now1 now2 expected p ctx rows =
     rbind (case grant_ref_validate expected of Inl _ \<Rightarrow> Inl InvalidGrant | Inr _ \<Rightarrow> Inr ()) (\<lambda>_.
     case get_active_run_grant has_receipt (bd_run_id (ap_execution p)) rows of
       None \<Rightarrow> Inr False
     | Some g \<Rightarrow> run_grant_authorizes env fs now1 now2 g (Some expected) p ctx)"

text \<open>The operations on a table, in any order. Each is one statement or runs in one transaction.\<close>

inductive grant_step :: "run_grant list \<Rightarrow> run_grant list \<Rightarrow> bool" where
  intend: "insert_pending_run_grant referenced g rows = Inr (fresh, rows') \<Longrightarrow> grant_step rows rows'"
| settle: "settle_pending_run_grant action activate digest at rows = Inr (changed, rows') \<Longrightarrow> grant_step rows rows'"
| revoke_run: "grant_step rows (snd (revoke_active_run_grant run at rows))"
| retire: "grant_step rows (snd (retire_pending_run_grant_for_action action at rows))"
| end_run: "grant_step rows (snd (revoke_nonterminal_run_grants run at rows))"

text \<open>Deleting a conversation or a pending action deletes the grants that refer to it (\<open>ON DELETE CASCADE\<close>).\<close>

inductive table_step :: "run_grant list \<Rightarrow> run_grant list \<Rightarrow> bool" where
  operation: "grant_step rows rows' \<Longrightarrow> table_step rows rows'"
| cascade: "table_step rows (filter remains rows)"

section \<open>The life of a grant\<close>

definition terminal :: "run_grant \<Rightarrow> bool" where
  "terminal g \<longleftrightarrow> rg_status g = GrantInactive \<or> rg_status g = GrantRevoked"

text \<open>A row is valid and its revision counts the changes of its status, so the 64-bit column cannot overflow.\<close>

definition row_ok :: "run_grant \<Rightarrow> bool" where
  "row_ok g \<longleftrightarrow> run_grant_validate g = Inr () \<and> rg_revision g \<le> 2 \<and> (rg_status g = GrantActive \<longrightarrow> rg_revision g = 1)"

definition table_ok :: "run_grant list \<Rightarrow> bool" where
  "table_ok rows \<longleftrightarrow>
     distinct (map rg_grant_id rows) \<and> distinct (map rg_granting_pending_action_id rows)
     \<and> list_all row_ok rows
     \<and> (\<forall>g \<in> set rows. \<forall>h \<in> set rows. rg_status g = GrantActive \<and> rg_status h = GrantActive \<and> rg_run_id g = rg_run_id h
          \<longrightarrow> g = h)"

lemma snd_update_where: "snd (update_where p f rows) = map (\<lambda>r. if p r then f r else r) rows"
  by (simp add: update_where_def)

text \<open>What each change of a row keeps.\<close>

definition keeps_identity :: "(run_grant \<Rightarrow> run_grant) \<Rightarrow> bool" where
  "keeps_identity f \<longleftrightarrow>
     (\<forall>g. rg_grant_id (f g) = rg_grant_id g \<and> rg_granting_pending_action_id (f g) = rg_granting_pending_action_id g
        \<and> rg_run_id (f g) = rg_run_id g)"

lemma changes_keep_identity [simp]: "keeps_identity (revoke at)" "keeps_identity (deactivate at)" "keeps_identity (activate_grant digest at)"
  by (simp_all add: keeps_identity_def revoke_def deactivate_def activate_grant_def)

lemma header_changes [simp]:
  "grant_header_valid (revoke at g) = grant_header_valid g" "grant_header_valid (deactivate at g) = grant_header_valid g"
  "grant_header_valid (activate_grant digest at g) = grant_header_valid g"
  by (simp_all add: grant_header_valid_def revoke_def deactivate_def activate_grant_def)

lemma scope_changes [simp]:
  "rg_scope_kind (revoke at g) = rg_scope_kind g" "rg_workspace_identity (revoke at g) = rg_workspace_identity g"
  "rg_scope_directory_identity (revoke at g) = rg_scope_directory_identity g"
  "rg_scope_kind (deactivate at g) = rg_scope_kind g" "rg_workspace_identity (deactivate at g) = rg_workspace_identity g"
  "rg_scope_directory_identity (deactivate at g) = rg_scope_directory_identity g"
  "rg_scope_kind (activate_grant digest at g) = rg_scope_kind g"
  "rg_workspace_identity (activate_grant digest at g) = rg_workspace_identity g"
  "rg_scope_directory_identity (activate_grant digest at g) = rg_scope_directory_identity g"
  by (simp_all add: revoke_def deactivate_def activate_grant_def)

lemma status_changes [simp]: "rg_status (revoke at g) = GrantRevoked" "rg_status (deactivate at g) = GrantInactive"
  "rg_status (activate_grant digest at g) = GrantActive"
  by (simp_all add: revoke_def deactivate_def activate_grant_def)

lemma revoke_valid:
  "row_ok g \<Longrightarrow> rg_status g = GrantPending \<or> rg_status g = GrantActive \<Longrightarrow> row_ok (revoke at g)"
  by (auto simp: row_ok_def run_grant_validate_def grant_lifecycle_validate_def) (auto simp: revoke_def is_some_and_def split: option.splits)

lemma deactivate_valid:
  "row_ok g \<Longrightarrow> rg_status g = GrantPending \<Longrightarrow> row_ok (deactivate at g)"
  by (auto simp: row_ok_def run_grant_validate_def grant_lifecycle_validate_def) (auto simp: deactivate_def)

lemma activate_valid:
  "row_ok g \<Longrightarrow> rg_status g = GrantPending \<Longrightarrow> is_some_and digest valid_digest
     \<Longrightarrow> row_ok (activate_grant digest at g)"
  by (auto simp: row_ok_def run_grant_validate_def grant_lifecycle_validate_def) (auto simp: activate_grant_def)

text \<open>A change of some rows that keeps them valid and makes no second active grant of a run keeps the table well formed.\<close>

lemma table_ok_map:
  assumes ok: "table_ok rows" and f: "keeps_identity f"
    and valid: "\<And>g. g \<in> set rows \<Longrightarrow> row_ok (f g)"
    and active: "\<And>g h. g \<in> set rows \<Longrightarrow> h \<in> set rows \<Longrightarrow> rg_status (f g) = GrantActive \<Longrightarrow> rg_status (f h) = GrantActive
      \<Longrightarrow> rg_run_id g = rg_run_id h \<Longrightarrow> g = h"
  shows "table_ok (map f rows)"
proof -
  have "rg_grant_id \<circ> f = rg_grant_id" "rg_granting_pending_action_id \<circ> f = rg_granting_pending_action_id"
    using f by (auto simp: keeps_identity_def)
  then have "distinct (map rg_grant_id (map f rows))" "distinct (map rg_granting_pending_action_id (map f rows))"
    using ok by (simp_all add: table_ok_def)
  moreover have "list_all row_ok (map f rows)" using valid by (simp add: list_all_iff)
  moreover have "f g = f h" if "g \<in> set rows" "h \<in> set rows" "rg_status (f g) = GrantActive" "rg_status (f h) = GrantActive"
    "rg_run_id (f g) = rg_run_id (f h)" for g h
    using active [OF that(1-4)] that(5) f by (simp add: keeps_identity_def)
  ultimately show ?thesis unfolding table_ok_def by (simp only: set_map ball_simps) blast
qed

lemma table_ok_valid: "table_ok rows \<Longrightarrow> g \<in> set rows \<Longrightarrow> row_ok g"
  by (auto simp: table_ok_def list_all_iff)

lemma table_ok_active:
  "table_ok rows \<Longrightarrow> g \<in> set rows \<Longrightarrow> h \<in> set rows \<Longrightarrow> rg_status g = GrantActive \<Longrightarrow> rg_status h = GrantActive
     \<Longrightarrow> rg_run_id g = rg_run_id h \<Longrightarrow> g = h"
  unfolding table_ok_def by blast

lemma table_ok_action:
  assumes "table_ok rows" and "g \<in> set rows" and "h \<in> set rows"
    and "rg_granting_pending_action_id g = rg_granting_pending_action_id h"
  shows "g = h"
  using assms unfolding table_ok_def distinct_map inj_on_def by blast

lemma table_ok_update:
  assumes "table_ok rows" and "keeps_identity f"
    and "\<And>g. g \<in> set rows \<Longrightarrow> p g \<Longrightarrow> row_ok (f g) \<and> rg_status (f g) \<noteq> GrantActive"
  shows "table_ok (snd (update_where p f rows))"
  unfolding snd_update_where
proof (rule table_ok_map [OF assms(1)])
  show "keeps_identity (\<lambda>r. if p r then f r else r)" using assms(2) by (simp add: keeps_identity_def)
next
  fix g assume "g \<in> set rows"
  then show "row_ok (if p g then f g else g)" using assms(1,3) by (simp add: table_ok_valid)
next
  fix g h assume "g \<in> set rows" "h \<in> set rows" "rg_status (if p g then f g else g) = GrantActive"
    "rg_status (if p h then f h else h) = GrantActive" "rg_run_id g = rg_run_id h"
  then show "g = h" using assms(3) table_ok_active [OF assms(1)] by (auto split: if_splits)
qed

lemma inserted_rows:
  "insert_pending_run_grant referenced g rows = Inr (fresh, rows') \<Longrightarrow>
     rows' = rows \<or> rows' = rows @ [g] \<and> run_grant_validate g = Inr () \<and> rg_status g = GrantPending
      \<and> rg_grant_id g \<notin> set (map rg_grant_id rows)
      \<and> rg_granting_pending_action_id g \<notin> set (map rg_granting_pending_action_id rows)"
  by (auto simp: insert_pending_run_grant_def split: if_splits option.splits)

lemma table_ok_insert:
  assumes ok: "table_ok rows" and "insert_pending_run_grant referenced g rows = Inr (fresh, rows')"
  shows "table_ok rows'"
proof -
  have "row_ok g" if "run_grant_validate g = Inr ()" "rg_status g = GrantPending"
    using that by (auto simp: row_ok_def run_grant_validate_def grant_lifecycle_validate_def)
  then show ?thesis using inserted_rows [OF assms(2)] ok unfolding table_ok_def by auto
qed

lemma pending_row:
  assumes "table_ok rows" and "get_run_grant_for_pending_action action rows = Some e" and "rg_status e = GrantPending"
  shows "e \<in> set rows" and "is_pending_intent action e" and "g \<in> set rows \<Longrightarrow> is_pending_intent action g \<Longrightarrow> g = e"
proof -
  show e: "e \<in> set rows" and "is_pending_intent action e"
    using assms table_ok_valid [OF assms(1), of e]
    by (auto simp: get_run_grant_for_pending_action_def find_Some_iff is_pending_intent_def row_ok_def run_grant_validate_def grant_lifecycle_validate_def)
  then show "g \<in> set rows \<Longrightarrow> is_pending_intent action g \<Longrightarrow> g = e"
    using table_ok_action [OF assms(1)] by (simp add: is_pending_intent_def)
qed

text \<open>Activating the one chosen row is safe when its run has no active grant.\<close>

lemma table_ok_activate:
  assumes ok: "table_ok rows" and chosen: "\<And>g. g \<in> set rows \<Longrightarrow> p g \<Longrightarrow> g = e"
    and free: "\<And>g. g \<in> set rows \<Longrightarrow> rg_run_id g = rg_run_id e \<Longrightarrow> rg_status g \<noteq> GrantActive"
    and f: "keeps_identity f" and valid: "\<And>g. g \<in> set rows \<Longrightarrow> p g \<Longrightarrow> row_ok (f g)"
  shows "table_ok (snd (update_where p f rows))"
  unfolding snd_update_where
proof (rule table_ok_map [OF ok])
  show "keeps_identity (\<lambda>r. if p r then f r else r)" using f by (simp add: keeps_identity_def)
next
  fix g assume "g \<in> set rows"
  then show "row_ok (if p g then f g else g)" using ok valid by (simp add: table_ok_valid)
next
  fix g h assume gh: "g \<in> set rows" "h \<in> set rows" "rg_status (if p g then f g else g) = GrantActive"
    "rg_status (if p h then f h else h) = GrantActive" "rg_run_id g = rg_run_id h"
  show "g = h"
  proof (cases "p g \<or> p h")
    case False
    with gh show ?thesis by (auto intro: table_ok_active [OF ok])
  next
    case True
    then have "rg_run_id g = rg_run_id e" "rg_run_id h = rg_run_id e" using chosen gh(1,2,5) by auto
    then have "p g" "p h" using gh free by (auto split: if_splits)
    then show ?thesis using chosen [OF gh(1)] chosen [OF gh(2)] by simp
  qed
qed

lemma table_ok_settle:
  assumes ok: "table_ok rows" and settle: "settle_pending_run_grant action activate digest at rows = Inr (changed, rows')"
  shows "table_ok rows'"
proof (cases "\<exists>e. get_run_grant_for_pending_action action rows = Some e \<and> rg_status e = GrantPending")
  case False
  with settle have "rows' = rows"
    by (auto simp: settle_pending_run_grant_def Let_def split: if_splits option.splits)
  with ok show ?thesis by simp
next
  case True
  then obtain e where e: "get_run_grant_for_pending_action action rows = Some e" "rg_status e = GrantPending" by blast
  note row = pending_row [OF ok e]
  let ?others = "\<lambda>g. rg_run_id g = rg_run_id e \<and> rg_status g = GrantActive \<and> rg_granting_pending_action_id g \<noteq> action"
  show ?thesis
  proof (cases activate)
    case False
    with settle e have "rows' = snd (update_where (is_pending_intent action) (deactivate at) rows)"
      by (auto simp: settle_pending_run_grant_def Let_def split: if_splits prod.splits)
    then show ?thesis
      using ok by (auto intro!: table_ok_update deactivate_valid simp: is_pending_intent_def table_ok_valid)
  next
    case True
    let ?rows = "snd (update_where ?others (revoke at) rows)"
    have rows': "rows' = snd (update_where (is_pending_intent action) (activate_grant digest at) ?rows)"
      and digest: "is_some_and digest valid_digest"
      using settle e True by (auto simp: settle_pending_run_grant_def Let_def split: if_splits prod.splits)
    have ok': "table_ok ?rows"
      using ok by (intro table_ok_update) (auto intro: revoke_valid simp: table_ok_valid)
    have free: "rg_status g \<noteq> GrantActive" if g: "g \<in> set ?rows" and run: "rg_run_id g = rg_run_id e" for g
    proof -
      obtain h where h: "h \<in> set rows" and gh: "g = (if ?others h then revoke at h else h)"
        using g by (auto simp: snd_update_where)
      show ?thesis
      proof (cases "rg_granting_pending_action_id h = action")
        case True
        then have "h = e" using table_ok_action [OF ok h row(1)] row(2) by (simp add: is_pending_intent_def)
        with gh e(2) show ?thesis by simp
      next
        case False
        have "rg_run_id h = rg_run_id e" using run gh by (auto simp: revoke_def split: if_splits)
        with False gh show ?thesis by (cases "rg_status h = GrantActive") auto
      qed
    qed
    have intent: "g = e" if "g \<in> set ?rows" "is_pending_intent action g" for g
      using that row(3) by (auto simp: snd_update_where is_pending_intent_def split: if_splits)
    show ?thesis
      unfolding rows'
      by (rule table_ok_activate [OF ok' intent free])
        (use ok' digest in \<open>auto intro!: activate_valid simp: is_pending_intent_def table_ok_valid\<close>)
  qed
qed

lemma grant_step_ok: "grant_step rows rows' \<Longrightarrow> table_ok rows \<Longrightarrow> table_ok rows'"
proof (induction rule: grant_step.induct)
  case intend
  then show ?case by (blast intro: table_ok_insert)
next
  case settle
  then show ?case by (blast intro: table_ok_settle)
next
  case revoke_run
  then show ?case unfolding revoke_active_run_grant_def
    by (intro table_ok_update) (auto intro: revoke_valid simp: table_ok_valid)
next
  case (retire rows action at)
  then have "table_ok (snd (update_where (is_pending_intent action) (deactivate at) rows))"
    by (intro table_ok_update) (auto intro!: deactivate_valid simp: is_pending_intent_def table_ok_valid)
  then show ?case by (simp add: retire_pending_run_grant_for_action_def case_prod_beta)
next
  case end_run
  then show ?case unfolding revoke_nonterminal_run_grants_def
    by (intro table_ok_update) (auto intro!: revoke_valid simp: table_ok_valid)
qed

lemma table_step_ok: "table_step rows rows' \<Longrightarrow> table_ok rows \<Longrightarrow> table_ok rows'"
proof (induction rule: table_step.induct)
  case operation
  then show ?case by (rule grant_step_ok)
next
  case cascade
  then show ?case unfolding table_ok_def list_all_iff by (auto simp: distinct_map_filter)
qed

interpretation grants: step_invariant table_step table_ok
  by unfold_locales (rule table_step_ok)

text \<open>How one row may change: its scope never, a live row only forwards, a settled row not at all.\<close>

definition same_scope :: "run_grant \<Rightarrow> run_grant \<Rightarrow> bool" where
  "same_scope g h \<longleftrightarrow>
     h = g\<lparr>rg_status := rg_status h, rg_revision := rg_revision h, rg_activation_result_digest := rg_activation_result_digest h,
          rg_activated_at := rg_activated_at h, rg_inactive_at := rg_inactive_at h, rg_revoked_at := rg_revoked_at h\<rparr>"

definition evolves :: "run_grant \<Rightarrow> run_grant \<Rightarrow> bool" where
  "evolves g h \<longleftrightarrow> same_scope g h
     \<and> (case rg_status g of
          GrantPending \<Rightarrow> True
        | GrantActive \<Rightarrow> h = g \<or> (rg_status h = GrantRevoked \<and> rg_activation_result_digest h = rg_activation_result_digest g)
        | _ \<Rightarrow> h = g)"

lemma same_scope_refl [simp]: "same_scope g g"
  by (simp add: same_scope_def)

lemma same_scope_trans: "same_scope g h \<Longrightarrow> same_scope h i \<Longrightarrow> same_scope g i"
  by (cases g; cases h; cases i) (simp add: same_scope_def)

lemma evolves_refl [simp]: "evolves g g"
  by (simp add: evolves_def split: grant_status.split)

lemma evolves_trans: "evolves g h \<Longrightarrow> evolves h i \<Longrightarrow> evolves g i"
  by (auto simp: evolves_def intro: same_scope_trans split: grant_status.splits)

lemma changes_evolve:
  "rg_status g = GrantPending \<or> rg_status g = GrantActive \<Longrightarrow> evolves g (revoke at g)"
  "rg_status g = GrantPending \<Longrightarrow> evolves g (deactivate at g)"
  "rg_status g = GrantPending \<Longrightarrow> evolves g (activate_grant digest at g)"
  by (cases g; auto simp: evolves_def same_scope_def revoke_def deactivate_def activate_grant_def)+

definition table_evolves :: "run_grant list \<Rightarrow> run_grant list \<Rightarrow> bool" where
  "table_evolves rows rows' \<longleftrightarrow> (\<exists>fresh. \<exists>old. rows' = old @ fresh \<and> list_all2 evolves rows old)"

lemma table_evolves_map: "(\<And>g. p g \<Longrightarrow> evolves g (f g)) \<Longrightarrow> table_evolves rows (snd (update_where p f rows))"
  unfolding table_evolves_def snd_update_where
  by (intro exI [of _ "[]"] exI [of _ "map (\<lambda>r. if p r then f r else r) rows"]) (auto simp: list_all2_conv_all_nth)

lemma table_evolves_append [simp]: "table_evolves rows (rows @ fresh)"
  unfolding table_evolves_def by (intro exI [of _ fresh] exI [of _ rows]) (simp add: list_all2_refl)

lemma table_evolves_refl [simp]: "table_evolves rows rows"
  using table_evolves_append [of rows "[]"] by simp

lemma table_evolves_trans:
  assumes "table_evolves a b" and "table_evolves b c"
  shows "table_evolves a c"
proof -
  obtain old fresh where b: "b = old @ fresh" "list_all2 evolves a old" using assms(1) by (auto simp: table_evolves_def)
  obtain old' fresh' where c: "c = old' @ fresh'" "list_all2 evolves b old'" using assms(2) by (auto simp: table_evolves_def)
  obtain x y where split: "old' = x @ y" "list_all2 evolves old x" using b c by (auto simp: list_all2_append1)
  have "list_all2 evolves a x" by (rule list_all2_trans [OF _ b(2) split(2)]) (rule evolves_trans)
  with c split show ?thesis unfolding table_evolves_def by (intro exI [of _ "y @ fresh'"] exI [of _ x]) simp
qed

lemma settle_evolves:
  assumes "settle_pending_run_grant action activate digest at rows = Inr (changed, rows')"
  shows "table_evolves rows rows'"
proof -
  have settled: "table_evolves rs (snd (update_where (is_pending_intent action) f rs))"
    if "f = activate_grant digest at \<or> f = deactivate at" for f rs
    by (rule table_evolves_map) (use that changes_evolve in \<open>auto simp: is_pending_intent_def\<close>)
  have revoked: "table_evolves rows (snd (update_where (\<lambda>g. rg_run_id g = run \<and> rg_status g = GrantActive \<and> q g) (revoke at) rows))" for run q
    by (rule table_evolves_map) (simp add: changes_evolve)
  show ?thesis
    using assms settled table_evolves_trans [OF revoked settled]
    by (auto simp: settle_pending_run_grant_def Let_def case_prod_beta split: if_splits option.splits)
qed

lemma grant_step_evolves: "grant_step rows rows' \<Longrightarrow> table_evolves rows rows'"
proof (induction rule: grant_step.induct)
  case intend
  then show ?case using inserted_rows by fastforce
next
  case settle
  then show ?case by (rule settle_evolves)
next
  case revoke_run
  show ?case unfolding revoke_active_run_grant_def by (rule table_evolves_map) (simp add: changes_evolve)
next
  case (retire rows action at)
  have "table_evolves rows (snd (update_where (is_pending_intent action) (deactivate at) rows))"
    by (rule table_evolves_map) (simp add: is_pending_intent_def changes_evolve)
  then show ?case by (simp add: retire_pending_run_grant_for_action_def case_prod_beta)
next
  case end_run
  show ?case unfolding revoke_nonterminal_run_grants_def by (rule table_evolves_map) (auto intro: changes_evolve)
qed

lemma grant_steps_evolve: "grant_step\<^sup>*\<^sup>* rows rows' \<Longrightarrow> table_evolves rows rows'"
  by (induction rule: rtranclp_induct) (auto intro: table_evolves_trans grant_step_evolves)

end
