(* ===== verification/Run_Grants_Props.thy ===== *)
theory Run_Grants_Props
  imports Run_Grants Contracts
begin

text \<open>
  What the grants of a run promise: the table keeps at most one active grant of a run, a row only ever loses authority
  after it was activated, an authorized change stays within the scope that was approved, an approved intent becomes
  the authority for its own change, and the identity of a pending action names one run and one call.
\<close>

section \<open>The table\<close>

text \<open>
  C9: starting from the empty table, after any sequence of intents, settlements, revocations, retirements
  and cascading deletions, grants and the actions that granted them are unique, every row passes \<open>validate\<close> and has been
  changed at most twice, and a run has at most one active grant.
\<close>

theorem grant_table_invariant:
  assumes "table_step\<^sup>*\<^sup>* [] rows"
  shows "distinct (map rg_grant_id rows) \<and> distinct (map rg_granting_pending_action_id rows)
     \<and> list_all (\<lambda>g. run_grant_validate g = Inr () \<and> rg_revision g \<le> 2) rows
     \<and> length (filter (\<lambda>g. rg_run_id g = run \<and> rg_status g = GrantActive) rows) \<le> 1"
proof (intro conjI)
  have ok: "table_ok rows" using grants.inv_steps [OF assms] by (simp add: table_ok_def)
  then show "distinct (map rg_grant_id rows)" "distinct (map rg_granting_pending_action_id rows)" by (simp_all add: table_ok_def)
  show "list_all (\<lambda>g. run_grant_validate g = Inr () \<and> rg_revision g \<le> 2) rows"
    using table_ok_valid [OF ok] by (simp add: list_all_iff row_ok_def)
  let ?active = "filter (\<lambda>g. rg_run_id g = run \<and> rg_status g = GrantActive) rows"
  have "distinct ?active" using ok by (simp add: table_ok_def distinct_map)
  moreover have "\<forall>g \<in> set ?active. \<forall>h \<in> set ?active. g = h"
    using table_ok_active [OF ok] by simp
  ultimately show "length ?active \<le> 1"
    by (metis (no_types, lifting) card_le_Suc0_iff_eq distinct_card finite_set One_nat_def)
qed

text \<open>
  C15: no operation reorders or drops a row, and none changes the scope, the owner or the revisions a grant
  was given with. A settled row (inactive or revoked) never changes again, and an active one can only be revoked, with
  the digest of the result that activated it kept.
\<close>

theorem grants_only_narrow:
  assumes "grant_step\<^sup>*\<^sup>* rows rows'" and "i < length rows"
  shows "i < length rows' \<and> same_scope (rows ! i) (rows' ! i)
     \<and> (terminal (rows ! i) \<longrightarrow> rows' ! i = rows ! i)
     \<and> (rg_status (rows ! i) = GrantActive \<longrightarrow> rows' ! i = rows ! i
          \<or> rg_status (rows' ! i) = GrantRevoked
            \<and> rg_activation_result_digest (rows' ! i) = rg_activation_result_digest (rows ! i))"
proof -
  obtain old fresh where "rows' = old @ fresh" "list_all2 evolves rows old"
    using grant_steps_evolve [OF assms(1)] by (auto simp: table_evolves_def)
  then have "i < length rows'" "evolves (rows ! i) (rows' ! i)"
    using assms(2) by (auto simp: list_all2_conv_all_nth nth_append)
  then show ?thesis by (auto simp: evolves_def terminal_def split: grant_status.splits)
qed

section \<open>Authority\<close>

text \<open>The target of a proposal lies in the scope of a grant.\<close>

definition covers_target :: "grant_env \<Rightarrow> file_system \<Rightarrow> run_grant \<Rightarrow> agent_proposal \<Rightarrow> run_context \<Rightarrow> bool" where
  "covers_target env fs g p ctx \<longleftrightarrow>
     (let target = path_components (bd_canonical_target (ap_execution p)) in
      change_identity_read fs (path_components (rg_canonical_scope_path g)) = Some (rg_scope_directory_identity g)
      \<and> (case rg_scope_kind g of
           ScopeExternalParent \<Rightarrow>
             rg_base_write_permission g = WriteAll
             \<and> (\<exists>parent q. path_parent target = Some parent \<and> fs_canonicalize fs parent = Inr q
                  \<and> path_string q = rg_canonical_scope_path g)
         | ScopeWorkspace \<Rightarrow>
             (\<exists>root. containing_root (ge_paths env) fs (rx_workspace ctx) target = Inr (Some root) \<and> starts_with target root
                \<and> rg_workspace_identity g = Some (workspace_scope_identity env ctx root)
                \<and> (resolver_folders (rx_workspace ctx) = [] \<longrightarrow> rg_canonical_scope_path g = path_string root))))"

definition same_authority :: "run_grant \<Rightarrow> agent_proposal \<Rightarrow> run_context \<Rightarrow> bool" where
  "same_authority g p ctx \<longleftrightarrow>
     (let b = ap_execution p in
      (ap_operation p = Create \<or> ap_operation p = Update)
      \<and> bd_source_tool_name b = S ''apply_patch'' \<and> bd_source_call_id b = ap_id p
      \<and> bd_run_id b = rg_run_id g \<and> bd_conversation_id b = rg_conversation_id g
      \<and> rx_conversation_id ctx = Some (rg_conversation_id g)
      \<and> bd_project_id b = rg_project_id g \<and> rx_project_id ctx = rg_project_id g
      \<and> bd_permission_revision b = rg_granting_permission_revision g
      \<and> bd_tool_set_revision b = rg_granting_tool_set_revision g
      \<and> bd_provider_wire_revision b = rg_granting_provider_wire_revision g
      \<and> pm_write (rx_permissions ctx) = rg_base_write_permission g \<and> rg_base_write_permission g \<noteq> WriteDenied)"

lemma map_err_Inr [simp]: "(case m of Inl _ \<Rightarrow> Inl e | Inr q \<Rightarrow> Inr q) = Inr x \<longleftrightarrow> m = Inr x"
  by (cases m) simp_all

lemma derived_scope_facts:
  assumes "derive_file_change_run_grant_scope env fs now p ctx = Inr s"
  shows "ds_base_write_permission s = pm_write (rx_permissions ctx)"
    and "change_identity_read fs (path_components (ds_canonical_scope_path s)) = Some (ds_scope_directory_identity s)"
    and "ds_scope_kind s = ScopeWorkspace \<Longrightarrow> (ds_canonical_scope_path s, ds_scope_directory_identity s) \<in> set (ds_workspace_roots s)"
    and "\<exists>parent q w. path_parent (path_components (bd_canonical_target (ap_execution p))) = Some parent
      \<and> fs_canonicalize fs parent = Inr q
      \<and> containing_root (ge_paths env) fs (rx_workspace ctx) (path_components (bd_canonical_target (ap_execution p))) = Inr w
      \<and> scope_of_target env fs ctx (path_components (bd_canonical_target (ap_execution p))) q w
          = Inr (ds_scope_kind s, ds_workspace_identity s, ds_canonical_scope_path s, ds_workspace_roots s)"
  using assms
  by (auto simp: derive_file_change_run_grant_scope_def Let_def split: if_splits)

lemma scope_cases:
  assumes "scope_of_target env fs ctx target parent w = Inr (kind, identity, path, roots)"
  obtains root where "kind = ScopeWorkspace" "w = Some root" "starts_with target root" "path = path_string root"
      "identity = Some (workspace_scope_identity env ctx root)"
      "resolver_folders (rx_workspace ctx) = [] \<Longrightarrow> \<exists>i. roots = [(path, i)]"
  | "kind = ScopeExternalParent" "identity = None" "path = path_string parent" "pm_write (rx_permissions ctx) = WriteAll"
proof (cases "keep (starts_with target) w")
  case None
  then show ?thesis using assms that(2) by (auto simp: scope_of_target_def Let_def split: if_splits)
next
  case (Some root)
  then have w: "w = Some root" "starts_with target root" by simp_all
  note scope = assms [unfolded scope_of_target_def Let_def Some option.case]
  show ?thesis
  proof (rule that(1))
    show "resolver_folders (rx_workspace ctx) = [] \<Longrightarrow> \<exists>i. roots = [(path, i)]"
      using scope by (auto simp: captured_roots_def List.map_filter_def)
  qed (use scope w in \<open>auto split: if_splits\<close>)
qed

lemma authorized_covers:
  assumes s: "derive_file_change_run_grant_scope env fs now p ctx = Inr s" and g: "is_authorized_by fs s g"
  shows "covers_target env fs g p ctx"
proof -
  let ?target = "path_components (bd_canonical_target (ap_execution p))"
  obtain parent q w where parent: "path_parent ?target = Some parent" "fs_canonicalize fs parent = Inr q"
    and root: "containing_root (ge_paths env) fs (rx_workspace ctx) ?target = Inr w"
    and scope: "scope_of_target env fs ctx ?target q w
      = Inr (ds_scope_kind s, ds_workspace_identity s, ds_canonical_scope_path s, ds_workspace_roots s)"
    using derived_scope_facts(4) [OF s] by blast
  from scope show ?thesis
  proof (cases rule: scope_cases)
    case (1 r)
    with g root show ?thesis
      by (auto simp: covers_target_def is_authorized_by_def list_ex_iff Let_def split: grant_scope_kind.splits)
  next
    case 2
    with g parent derived_scope_facts(1,2) [OF s] show ?thesis
      by (auto simp: covers_target_def is_authorized_by_def Let_def split: grant_scope_kind.splits)
  qed
qed

lemma authorizes_cases:
  assumes "run_grant_authorizes env fs now1 now2 g expected p ctx = Inr True"
  shows "run_grant_validate g = Inr ()" and "rg_status g = GrantActive" and "same_authority g p ctx" and "covers_target env fs g p ctx"
    and "expected = Some r \<Longrightarrow> grant_reference g = Inr r"
proof -
  show valid: "run_grant_validate g = Inr ()" and active: "rg_status g = GrantActive"
    using assms by (auto simp: run_grant_authorizes_def split: sum.splits if_splits)
  have scope: "scope_authorizes env fs now1 now2 g p ctx = Inr True"
    using assms by (auto simp: run_grant_authorizes_def split: sum.splits if_splits)
  then obtain s where s: "derive_file_change_run_grant_scope env fs now2 p ctx = Inr s" "is_authorized_by fs s g"
    using active by (auto simp: scope_authorizes_def Let_def split: sum.splits if_splits)
  then show "covers_target env fs g p ctx" by (rule authorized_covers)
  have "rg_base_write_permission g = pm_write (rx_permissions ctx)"
    using s derived_scope_facts(1) [OF s(1)] by (simp add: is_authorized_by_def)
  with scope show "same_authority g p ctx"
    by (auto simp: scope_authorizes_def same_authority_def Let_def split: if_splits)
  show "grant_reference g = Inr r" if "expected = Some r"
    using assms that valid active
    by (cases r) (auto simp: run_grant_authorizes_def grant_reference_def is_some_and_def split: if_splits)
qed

text \<open>Looking up a row in a well-formed table.\<close>

lemma find_unique: "x \<in> set xs \<Longrightarrow> p x \<Longrightarrow> (\<And>y. y \<in> set xs \<Longrightarrow> p y \<Longrightarrow> y = x) \<Longrightarrow> find p xs = Some x"
  by (metis find_None_iff find_Some_iff nth_mem option.exhaust)

lemma found_by_action:
  assumes "table_ok rows" and "g \<in> set rows"
  shows "get_run_grant_for_pending_action (rg_granting_pending_action_id g) rows = Some g"
  unfolding get_run_grant_for_pending_action_def
  by (rule find_unique [OF assms(2) refl]) (rule table_ok_action [OF assms(1) _ assms(2)])

lemma found_active:
  assumes "table_ok rows" and "g \<in> set rows" and "rg_status g = GrantActive"
  shows "get_active_run_grant_record (rg_run_id g) rows = Some g"
  unfolding get_active_run_grant_record_def
proof (rule find_unique [OF assms(2)])
  fix h assume "h \<in> set rows" "rg_run_id h = rg_run_id g \<and> rg_status h = GrantActive"
  then show "h = g" using table_ok_active [OF assms(1) _ assms(2) _ assms(3)] by blast
qed (simp add: assms(3))

lemma one_pending_intent:
  assumes "table_ok rows" and "get_run_grant_for_pending_action action rows = Some g" and "rg_status g = GrantPending"
  shows "fst (update_where (is_pending_intent action) f (snd (update_where (\<lambda>h. q h \<and> rg_status h = GrantActive \<and> r h) (revoke at) rows))) = 1"
proof -
  note row = pending_row [OF assms]
  have "length (filter (is_pending_intent action) rows) = 1"
  proof -
    have "distinct (filter (is_pending_intent action) rows)" using assms(1) by (simp add: table_ok_def distinct_map)
    moreover have "set (filter (is_pending_intent action) rows) = {g}" using row(1,2) by (auto dest: row(3))
    ultimately show ?thesis using distinct_card by fastforce
  qed
  moreover have "is_pending_intent action (if q h \<and> rg_status h = GrantActive \<and> r h then revoke at h else h) = is_pending_intent action h" for h
    by (auto simp: is_pending_intent_def)
  ultimately show ?thesis by (simp add: update_where_def filter_map comp_def)
qed

text \<open>
  C6: when the check before an effect accepts a reference to a grant, the table holds an active grant
  of the run of the proposal with exactly that reference and an authoritative receipt; the proposal creates or updates a file
  through \<open>apply_patch\<close> for the run, conversation, project and revisions the grant was given to, under the same write
  permission; and its target lies in the granted scope, whose directory is still the one that was approved.
\<close>

theorem granted_change_confined:
  assumes "table_step\<^sup>*\<^sup>* [] rows" and "validate_run_grant has_receipt env fs now1 now2 expected p ctx rows = Inr True"
  shows "\<exists>g \<in> set rows. {h \<in> set rows. rg_run_id h = bd_run_id (ap_execution p) \<and> rg_status h = GrantActive} = {g}
     \<and> has_receipt g \<and> grant_reference g = Inr expected \<and> same_authority g p ctx \<and> covers_target env fs g p ctx"
proof -
  have ok: "table_ok rows" using grants.inv_steps [OF assms(1)] by (simp add: table_ok_def)
  obtain g where find: "get_active_run_grant_record (bd_run_id (ap_execution p)) rows = Some g" and "has_receipt g"
    and auth: "run_grant_authorizes env fs now1 now2 g (Some expected) p ctx = Inr True"
    using assms(2) by (auto simp: validate_run_grant_def get_active_run_grant_def split: sum.splits option.splits)
  moreover have g: "g \<in> set rows" "rg_run_id g = bd_run_id (ap_execution p)" "rg_status g = GrantActive"
    using find by (auto simp: get_active_run_grant_record_def find_Some_iff)
  moreover have "{h \<in> set rows. rg_run_id h = bd_run_id (ap_execution p) \<and> rg_status h = GrantActive} = {g}"
    using g(1,3) by (auto simp: g(2) dest: table_ok_active [OF ok _ g(1) _ g(3)])
  moreover have "same_authority g p ctx" "covers_target env fs g p ctx" "grant_reference g = Inr expected"
    using authorizes_cases(3,4) [OF auth] authorizes_cases(5) [OF auth refl] .
  ultimately show ?thesis by blast
qed

lemma derived_authorizes:
  "derive_file_change_run_grant_scope env fs now p ctx = Inr s \<Longrightarrow> matches_record s g \<Longrightarrow> is_authorized_by fs s g"
  using derived_scope_facts(2,3) [of env fs now p ctx s]
  by (auto simp: matches_record_def is_authorized_by_def list_ex_iff split: grant_scope_kind.split)

lemma authority_changes [simp]:
  "same_authority (activate_grant digest at g) p ctx = same_authority g p ctx"
  "matches_record s (activate_grant digest at g) = matches_record s g"
  by (simp_all add: same_authority_def matches_record_def activate_grant_def)

text \<open>
  C22: when a pending intent is still bound to its proposal, settling it with the digest of an applied result makes it the
  active grant of its run. The new grant authorizes the same proposal, and from then on the proposal is resolved to a
  reference to it exactly as long as the stored receipt of that result is found.
\<close>

theorem approved_intent_becomes_authority:
  assumes "table_step\<^sup>*\<^sup>* [] rows" and "g \<in> set rows" and "validate_pending_binding env fs now1 now2 g p ctx = Inr True"
    and "valid_digest digest"
  shows "\<exists>rows' r. settle_pending_run_grant (rg_granting_pending_action_id g) True (Some digest) at rows = Inr (True, rows')
     \<and> get_active_run_grant_record (bd_run_id (ap_execution p)) rows' = Some (activate_grant (Some digest) at g)
     \<and> run_grant_authorizes env fs now1 now2 (activate_grant (Some digest) at g) None p ctx = Inr True
     \<and> grant_reference (activate_grant (Some digest) at g) = Inr r
     \<and> (\<forall>has_receipt. resolve_active_run_grant has_receipt env fs now1 now2 p ctx rows'
          = Inr (if has_receipt (activate_grant (Some digest) at g) then Some r else None))"
proof -
  have ok: "table_ok rows" using grants.inv_steps [OF assms(1)] by (simp add: table_ok_def)
  let ?a = "rg_granting_pending_action_id g" and ?g = "activate_grant (Some digest) at g"
  have pending: "rg_status g = GrantPending" and scope: "scope_authorizes env fs now1 now2 g p ctx = Inr True"
    using assms(3) by (auto simp: validate_pending_binding_def split: sum.splits if_splits)
  have found: "get_run_grant_for_pending_action ?a rows = Some g" by (rule found_by_action [OF ok assms(2)])
  let ?others = "\<lambda>h. rg_run_id h = rg_run_id g \<and> rg_status h = GrantActive \<and> rg_granting_pending_action_id h \<noteq> ?a"
  let ?rows = "snd (update_where ?others (revoke at) rows)"
  let ?rows' = "snd (update_where (is_pending_intent ?a) (activate_grant (Some digest) at) ?rows)"
  have settle: "settle_pending_run_grant ?a True (Some digest) at rows = Inr (True, ?rows')"
    using found pending assms(4) one_pending_intent [OF ok found pending]
    by (simp add: settle_pending_run_grant_def is_some_and_def Let_def case_prod_beta)
  have ok': "table_ok ?rows'" by (rule table_ok_settle [OF ok settle])
  have g': "?g \<in> set ?rows'"
    using assms(2) pending pending_row(2) [OF ok found pending] by (force simp: snd_update_where)
  obtain s where s: "derive_file_change_run_grant_scope env fs now2 p ctx = Inr s" "matches_record s g"
    using scope pending by (auto simp: scope_authorizes_def Let_def split: sum.splits if_splits)
  have valid: "run_grant_validate ?g = Inr ()" using table_ok_valid [OF ok' g'] by (simp add: row_ok_def)
  have auth: "run_grant_authorizes env fs now1 now2 ?g None p ctx = Inr True"
    using scope s valid derived_authorizes [OF s(1), of ?g]
    by (auto simp: run_grant_authorizes_def scope_authorizes_def Let_def is_some_and_def split: if_splits) (auto simp: activate_grant_def)
  then have "rg_run_id ?g = bd_run_id (ap_execution p)" using authorizes_cases(3) [OF auth] by (simp add: same_authority_def Let_def)
  then have "get_active_run_grant_record (bd_run_id (ap_execution p)) ?rows' = Some ?g"
    using found_active [OF ok' g'] by simp
  then show ?thesis
    using settle valid auth
    by (auto simp: resolve_active_run_grant_def get_active_run_grant_def grant_reference_def keep_def)
qed

section \<open>Identities of pending actions\<close>

lemma digit_inj: "i < 10 \<Longrightarrow> j < 10 \<Longrightarrow> ''0123456789'' ! i = ''0123456789'' ! j \<longleftrightarrow> i = j"
  by (rule nth_eq_iff_index_eq) simp_all

lemma decimal_ne [simp]: "decimal n \<noteq> []" "[] \<noteq> decimal n"
  by (subst decimal.simps; simp)+

lemma decimal_inj: "decimal n = decimal m \<Longrightarrow> n = m"
proof (induction n arbitrary: m rule: less_induct)
  case (less n)
  show ?case
  proof (cases "n < 10 \<or> m < 10")
    case True
    then show ?thesis using less.prems by (auto simp: decimal.simps [of n] decimal.simps [of m] digit_inj split: if_splits)
  next
    case False
    then have "decimal (n div 10) = decimal (m div 10)" "n mod 10 = m mod 10"
      using less.prems by (simp_all add: decimal.simps [of n] decimal.simps [of m] digit_inj)
    then have "n div 10 = m div 10" using less.IH [of "n div 10"] False by simp
    with \<open>n mod 10 = m mod 10\<close> show ?thesis by (metis div_mult_mod_eq)
  qed
qed

lemma decimal_digits: "Ch CHR '':'' \<notin> set (decimal n)"
proof (induction n rule: less_induct)
  case (less n)
  have "''0123456789'' ! i \<noteq> CHR '':''" if "i < 10" for i
  proof -
    have "''0123456789'' ! i \<in> set ''0123456789''" using that by (intro nth_mem) simp
    then show ?thesis by auto
  qed
  then have "Ch (''0123456789'' ! i) \<noteq> Ch CHR '':''" if "i < 10" for i using that by simp
  from this [of n] this [of "n mod 10"] show ?case
    using less [of "n div 10"] by (subst decimal.simps) auto
qed

lemma prefix_split: "c \<notin> set a \<Longrightarrow> c \<notin> set b \<Longrightarrow> a @ c # x = b @ c # y \<longleftrightarrow> a = b \<and> x = y"
proof (induction a arbitrary: b)
  case Nil
  then show ?case by (cases b) auto
next
  case (Cons d a)
  then show ?case by (cases b) auto
qed

lemma byte_len_prefix: "a @ x = b @ y \<Longrightarrow> byte_len a = byte_len b \<Longrightarrow> a = b"
  by (auto simp: append_eq_append_conv2)

text \<open>
  C36: the identity of a pending action determines the run and the call it belongs to, whatever
  colons they contain, and the check of an identity against a run accepts exactly the identities of that run with a call.
\<close>

theorem pending_action_id_framed:
  "(canonical_pending_action_id run source = canonical_pending_action_id run' source' \<longleftrightarrow> run = run' \<and> source = source')
   \<and> (is_canonical_pending_action_id_for_run action run \<longleftrightarrow> (\<exists>c. c \<noteq> [] \<and> action = canonical_pending_action_id run c))"
proof
  have "run = run' \<and> source = source'" if "canonical_pending_action_id run source = canonical_pending_action_id run' source'"
  proof -
    have "decimal (byte_len run) @ Ch CHR '':'' # run @ S '':'' @ source = decimal (byte_len run') @ Ch CHR '':'' # run' @ S '':'' @ source'"
      using that by (simp add: canonical_pending_action_id_def S_def)
    then have "byte_len run = byte_len run'" "run @ S '':'' @ source = run' @ S '':'' @ source'"
      using prefix_split [OF decimal_digits decimal_digits] decimal_inj by blast+
    then show ?thesis using byte_len_prefix by auto
  qed
  then show "canonical_pending_action_id run source = canonical_pending_action_id run' source' \<longleftrightarrow> run = run' \<and> source = source'" by blast
  show "is_canonical_pending_action_id_for_run action run \<longleftrightarrow> (\<exists>c. c \<noteq> [] \<and> action = canonical_pending_action_id run c)"
    using strip_own_prefix [of "S ''v2:'' @ decimal (byte_len run) @ S '':'' @ run @ S '':''"]
    by (fastforce simp: is_canonical_pending_action_id_for_run_def is_some_and_def canonical_pending_action_id_def split: option.splits)
qed

section \<open>An example\<close>

text \<open>The creation of \<open>/a.txt\<close> outside every workspace is approved for the run \<open>r\<close>.\<close>

definition example_grant :: run_grant where
  "example_grant =
     \<lparr>rg_schema_version = 1, rg_grant_id = S ''g'', rg_revision = 0, rg_status = GrantPending, rg_run_id = S ''r'',
      rg_conversation_id = S ''v'', rg_project_id = None, rg_scope_kind = ScopeExternalParent, rg_workspace_identity = None,
      rg_canonical_scope_path = S ''/'', rg_scope_directory_identity = UnixChangeDirectory 1 1 2,
      rg_granting_pending_action_id = S ''v2:1:r:c'', rg_base_write_permission = WriteAll,
      rg_granting_permission_revision = S ''p'', rg_granting_tool_set_revision = S ''s'',
      rg_granting_provider_wire_revision = S ''w'', rg_apply_patch_contract_revision = S ''apply-patch-file-change-v1'',
      rg_activation_result_digest = None, rg_created_at = 1, rg_activated_at = None, rg_inactive_at = None, rg_revoked_at = None\<rparr>"

definition example_grant_env :: grant_env where
  "example_grant_env =
     \<lparr>ge_paths = example_path_env, ge_sha256 = pe_sha256 zero_env, ge_root_json = (\<lambda>_ _ _. []), ge_workspace_json = (\<lambda>_ _. [])\<rparr>"

definition example_grant_run :: run_context where
  "example_grant_run =
     \<lparr>rx_conversation_id = Some (S ''v''), rx_project_id = None, rx_workspace = None,
      rx_permissions = default_permissions\<lparr>pm_write := WriteAll\<rparr>\<rparr>"

definition example_digest :: rstring where
  "example_digest = S ''file-change-sha256-v1:'' @ replicate 64 (Ch CHR ''0'')"

lemma example_grant_valid: "run_grant_validate example_grant = Inr ()" "valid_digest example_digest"
  by code_simp+

lemma example_intent: "insert_pending_run_grant True example_grant [] = Inr (True, [example_grant])"
  by code_simp

lemma example_reachable: "table_step\<^sup>*\<^sup>* [] [example_grant]"
  by (rule r_into_rtranclp) (rule operation [OF intend [OF example_intent]])

lemma example_scope:
  assumes "hi_planned p"
  shows "derive_file_change_run_grant_scope example_grant_env example_fs 9 (hi_proposal p) example_grant_run
    = Inr \<lparr>ds_scope_kind = ScopeExternalParent, ds_workspace_identity = None, ds_canonical_scope_path = S ''/'',
           ds_scope_directory_identity = UnixChangeDirectory 1 1 2, ds_base_write_permission = WriteAll, ds_workspace_roots = []\<rparr>"
proof -
  have "containing_root (ge_paths example_grant_env) example_fs (rx_workspace example_grant_run) (path_components (S ''/a.txt'')) = Inr None"
    by code_simp
  moreover have "path_parent (path_components (S ''/a.txt'')) = Some [RootDir]" "path_string [RootDir] = S ''/''" by code_simp+
  moreover have "fs_canonicalize example_fs [RootDir] = Inr [RootDir]" by code_simp
  moreover have "change_identity_read example_fs (path_components (S ''/'')) = Some (UnixChangeDirectory 1 1 2)" by code_simp
  moreover have "captured_roots None = []" by (simp add: captured_roots_def resolver_folders_def List.map_filter_def)
  ultimately show ?thesis
    using hi_binding_valid [OF assms, of 9] hi_texts(2)
    by (simp add: derive_file_change_run_grant_scope_def hi_proposal_def Let_def example_grant_run_def scope_of_target_def
        example_grant_env_def keep_def ensure_def ok_or_def) (simp add: hi_binding_def)
qed

lemma example_scope_authorizes:
  assumes "hi_planned p" and "g = example_grant \<or> g = activate_grant (Some example_digest) 5 example_grant"
  shows "scope_authorizes example_grant_env example_fs 9 9 g (hi_proposal p) example_grant_run = Inr True"
proof -
  have "ge_sha256 example_grant_env = pe_sha256 zero_env" by (simp add: example_grant_env_def)
  moreover have "matches_record s example_grant \<and> is_authorized_by example_fs s (activate_grant (Some example_digest) 5 example_grant)"
    if "s = \<lparr>ds_scope_kind = ScopeExternalParent, ds_workspace_identity = None, ds_canonical_scope_path = S ''/'',
           ds_scope_directory_identity = UnixChangeDirectory 1 1 2, ds_base_write_permission = WriteAll, ds_workspace_roots = []\<rparr>" for s
    by (simp add: that matches_record_def is_authorized_by_def example_grant_def activate_grant_def)
  ultimately show ?thesis
    using example_scope [OF assms(1)] hi_binding_valid [OF assms(1), of 9] assms(2)
    by (auto simp: scope_authorizes_def Let_def hi_proposal_def ensure_def)
      (auto simp: hi_binding_def example_grant_def activate_grant_def example_grant_run_def APPLY_PATCH_RUN_GRANT_CONTRACT_REVISION_def)
qed

lemma example_bound:
  assumes "hi_planned p"
  shows "validate_pending_binding example_grant_env example_fs 9 9 example_grant (hi_proposal p) example_grant_run = Inr True"
proof -
  have "canonical_pending_action_id (S ''r'') (S ''c'') = S ''v2:1:r:c''" by code_simp
  then show ?thesis
    using example_scope_authorizes [OF assms, of example_grant] example_grant_valid(1)
    by (simp add: validate_pending_binding_def) (simp add: example_grant_def hi_proposal_def)
qed

definition example_active :: run_grant where
  "example_active = activate_grant (Some example_digest) 5 example_grant"

lemma example_settled: "settle_pending_run_grant (S ''v2:1:r:c'') True (Some example_digest) 5 [example_grant] = Inr (True, [example_active])"
  by code_simp

lemma example_revoked: "snd (revoke_active_run_grant (S ''r'') 6 [example_active]) = [revoke 6 example_active]"
  by code_simp

lemma example_active_reachable: "table_step\<^sup>*\<^sup>* [] [example_active]"
  using example_reachable by (rule rtranclp.rtrancl_into_rtrancl) (rule operation [OF settle [OF example_settled]])

theorem grant_table_invariant_witness:
  "table_step\<^sup>*\<^sup>* [] [example_active]
   \<and> length (filter (\<lambda>g. rg_run_id g = S ''r'' \<and> rg_status g = GrantActive) [example_active]) \<le> 1"
  using example_active_reachable grant_table_invariant [OF example_active_reachable, of "S ''r''"] by blast

theorem grants_only_narrow_witness:
  "grant_step\<^sup>*\<^sup>* [example_active] [revoke 6 example_active] \<and> rg_status example_active = GrantActive
   \<and> same_scope example_active (revoke 6 example_active)"
proof -
  have "grant_step [example_active] [revoke 6 example_active]" using revoke_run [of "[example_active]" "S ''r''" 6] by (simp add: example_revoked)
  then have step: "grant_step\<^sup>*\<^sup>* [example_active] [revoke 6 example_active]" by (rule r_into_rtranclp)
  then show ?thesis using grants_only_narrow [OF step, of 0] by (simp add: example_active_def)
qed

definition example_reference :: grant_ref where
  "example_reference =
     \<lparr>gr_schema_version = 1, gr_grant_id = S ''g'', gr_revision = 1,
      gr_apply_patch_contract_revision = S ''apply-patch-file-change-v1''\<rparr>"

lemma example_reference_valid: "grant_ref_validate example_reference = Inr ()" "grant_reference example_active = Inr example_reference"
  by code_simp+

theorem granted_change_confined_witness:
  "\<exists>p. hi_planned p \<and> table_step\<^sup>*\<^sup>* [] [example_active]
     \<and> validate_run_grant (\<lambda>_. True) example_grant_env example_fs 9 9 example_reference (hi_proposal p) example_grant_run [example_active] = Inr True
     \<and> covers_target example_grant_env example_fs example_active (hi_proposal p) example_grant_run"
proof -
  obtain p where p: "hi_planned p" using zero_plan by blast
  have "run_grant_validate example_active = Inr ()" using example_reference_valid(2) by (auto simp: grant_reference_def)
  then have "run_grant_authorizes example_grant_env example_fs 9 9 example_active (Some example_reference) (hi_proposal p) example_grant_run = Inr True"
    using example_scope_authorizes [OF p, of example_active]
    by (simp add: run_grant_authorizes_def example_active_def is_some_and_def)
      (simp add: example_reference_def activate_grant_def example_grant_def)
  then have valid: "validate_run_grant (\<lambda>_. True) example_grant_env example_fs 9 9 example_reference (hi_proposal p) example_grant_run [example_active] = Inr True"
    using example_reference_valid(1)
    by (simp add: validate_run_grant_def get_active_run_grant_def get_active_run_grant_record_def keep_def)
      (simp add: example_active_def hi_proposal_def hi_binding_def activate_grant_def example_grant_def)
  show ?thesis using p valid example_active_reachable granted_change_confined [OF example_active_reachable valid] by auto
qed

theorem approved_intent_becomes_authority_witness:
  "\<exists>p rows' r. hi_planned p
     \<and> settle_pending_run_grant (S ''v2:1:r:c'') True (Some example_digest) 5 [example_grant] = Inr (True, rows')
     \<and> resolve_active_run_grant (\<lambda>g. rg_revision g = 1) example_grant_env example_fs 9 9 (hi_proposal p) example_grant_run rows'
       = Inr (Some r)"
proof -
  obtain p where p: "hi_planned p" using zero_plan by blast
  have "example_grant \<in> set [example_grant]" by simp
  from approved_intent_becomes_authority [OF example_reachable this example_bound [OF p] example_grant_valid(2), of 5] p
  obtain rows' r where "settle_pending_run_grant (S ''v2:1:r:c'') True (Some example_digest) 5 [example_grant] = Inr (True, rows')"
    "resolve_active_run_grant (\<lambda>g. rg_revision g = 1) example_grant_env example_fs 9 9 (hi_proposal p) example_grant_run rows'
       = Inr (if rg_revision (activate_grant (Some example_digest) 5 example_grant) = 1 then Some r else None)"
    by (auto simp: example_grant_def)
  with p show ?thesis by (auto simp: example_grant_def activate_grant_def)
qed

end
