(* ===== verification/Keyed_Admission.thy ===== *)
theory Keyed_Admission
  imports Utf8_Stream Contracts "HOL-Library.List_Lexorder"
begin

text \<open>
  Admission to conversations, \<open>src/crates/core-server/src/application/agent/keyed_admission.rs\<close>: a request declares the whole
  set of conversations it needs, or everything, and waits in one queue until nothing it needs is held and nobody ahead of it
  needs any of it. What the code does under the mutex of the registry is one step; a wait on the condition variable
  returns in any later state. Threads are numbers, and the guards that are alive are part of the state of the system.
\<close>

section \<open>Keys\<close>

text \<open>Rust compares strings by their bytes, which is the order of their code points.\<close>

lemma code_point_eq [simp]: "code_point c = code_point d \<longleftrightarrow> c = d"
  by (metis scalar_code_point)

instantiation rchar :: linorder
begin

definition less_eq_rchar :: "rchar \<Rightarrow> rchar \<Rightarrow> bool" where "less_eq_rchar c d \<longleftrightarrow> code_point c \<le> code_point d"

definition less_rchar :: "rchar \<Rightarrow> rchar \<Rightarrow> bool" where "less_rchar c d \<longleftrightarrow> code_point c < code_point d"

instance
  by standard (auto simp: less_eq_rchar_def less_rchar_def)

end

text \<open>\<open>slice::binary_search(..).is_ok()\<close>.\<close>

function binary_search :: "'a :: linorder list \<Rightarrow> 'a \<Rightarrow> bool" where
  "binary_search xs x =
     (if xs = [] then False
      else let m = length xs div 2; y = xs ! m in
        if x = y then True else if x < y then binary_search (take m xs) x else binary_search (drop (Suc m) xs) x)"
  by pat_completeness auto
termination
  by (relation "measure (\<lambda>(xs, x). length xs)") auto

declare binary_search.simps [simp del]

lemma binary_search_sorted: "sorted xs \<Longrightarrow> binary_search xs x \<longleftrightarrow> x \<in> set xs"
proof (induction xs x rule: binary_search.induct)
  case (1 xs x)
  show ?case
  proof (cases "xs = []")
    case True
    then show ?thesis by (simp add: binary_search.simps)
  next
    case False
    let ?m = "length xs div 2"
    have m: "?m < length xs" using False by (simp add: Suc_le_eq)
    have xs: "xs = take ?m xs @ xs ! ?m # drop (Suc ?m) xs" using m by (rule id_take_nth_drop)
    have split: "x \<in> set xs \<longleftrightarrow> x \<in> set (take ?m xs) \<or> x = xs ! ?m \<or> x \<in> set (drop (Suc ?m) xs)"
      by (subst xs) (auto simp del: append_take_drop_id)
    have order: "\<forall>y \<in> set (take ?m xs). y \<le> xs ! ?m" "\<forall>y \<in> set (drop (Suc ?m) xs). xs ! ?m \<le> y"
      using 1(3) by (subst (asm) xs, simp add: sorted_append)+
    have "sorted (take ?m xs)" "sorted (drop (Suc ?m) xs)" using 1(3) by (simp_all add: sorted_wrt_take sorted_wrt_drop)
    with 1(1,2) False split order show ?thesis
      by (subst binary_search.simps) (auto simp: Let_def)
  qed
qed

section \<open>The registry\<close>

datatype admission_scope = Global | Conversations "rstring list"

fun conflicts :: "admission_scope \<Rightarrow> admission_scope \<Rightarrow> bool" where
  "conflicts Global _ = True"
| "conflicts (Conversations left) Global = True"
| "conflicts (Conversations left) (Conversations right) = list_ex (binary_search right) left"

record waiter =
  wt_ticket :: nat
  wt_thread :: nat
  wt_scope :: admission_scope

record admission_state =
  ad_generation :: nat
  ad_queue :: "waiter list"
  ad_global :: bool
  ad_active_keys :: "rstring set"
  ad_owners :: "nat set"

definition admission_default :: admission_state where
  "admission_default = \<lparr>ad_generation = 0, ad_queue = [], ad_global = False, ad_active_keys = {}, ad_owners = {}\<rparr>"

definition admission_ready :: "admission_state \<Rightarrow> nat \<Rightarrow> bool" where
  "admission_ready st index =
     (let scope = wt_scope (ad_queue st ! index) in
      \<not> ad_global st
      \<and> \<not> (case scope of
              Global \<Rightarrow> ad_active_keys st \<noteq> {}
            | Conversations keys \<Rightarrow> list_ex (\<lambda>key. key \<in> ad_active_keys st) keys)
      \<and> list_all (\<lambda>earlier. \<not> conflicts scope (wt_scope earlier)) (take index (ad_queue st)))"

datatype admission_panic = EmptyResourceSet | NestedAdmission | TicketExhausted

definition conversations_scope :: "rstring list \<Rightarrow> admission_panic + admission_scope" where
  "conversations_scope ids =
     (if ids \<noteq> [] \<and> list_all (\<lambda>i. i \<noteq> []) ids then Inr (Conversations (remdups_adj (sort ids))) else Inl EmptyResourceSet)"

text \<open>The first critical section of \<open>acquire\<close>: a ticket is a 64-bit number.\<close>

definition request :: "nat \<Rightarrow> admission_scope \<Rightarrow> admission_state \<Rightarrow> admission_panic + nat \<times> admission_state" where
  "request thread scope st =
     (if thread \<in> ad_owners st \<or> list_ex (\<lambda>w. wt_thread w = thread) (ad_queue st) then Inl NestedAdmission
      else if ad_generation st = 2 ^ 64 - 1 then Inl TicketExhausted
      else let ticket = ad_generation st + 1 in
        Inr (ticket, st\<lparr>ad_generation := ticket,
                        ad_queue := ad_queue st @ [\<lparr>wt_ticket = ticket, wt_thread = thread, wt_scope = scope\<rparr>]\<rparr>))"

fun position :: "('a \<Rightarrow> bool) \<Rightarrow> 'a list \<Rightarrow> nat option" where
  "position p [] = None"
| "position p (x # xs) = (if p x then Some 0 else map_option Suc (position p xs))"

definition remove_at :: "nat \<Rightarrow> 'a list \<Rightarrow> 'a list" where
  "remove_at i xs = take i xs @ drop (Suc i) xs"

definition activate_scope :: "admission_scope \<Rightarrow> admission_state \<Rightarrow> admission_state" where
  "activate_scope scope st =
     (case scope of
        Global \<Rightarrow> st\<lparr>ad_global := True\<rparr>
      | Conversations keys \<Rightarrow> st\<lparr>ad_active_keys := ad_active_keys st \<union> set keys\<rparr>)"

text \<open>One turn of the loop of \<open>acquire\<close>: \<open>None\<close> is the wait. The guard remembers its thread and its scope.\<close>

record admission_guard =
  gd_owner :: nat
  gd_scope :: admission_scope

definition admit :: "nat \<Rightarrow> nat \<Rightarrow> admission_state \<Rightarrow> (admission_guard \<times> admission_state) option" where
  "admit thread ticket st =
     Option.bind (position (\<lambda>w. wt_ticket w = ticket) (ad_queue st)) (\<lambda>index.
     if admission_ready st index then
       let w = ad_queue st ! index; st = activate_scope (wt_scope w) (st\<lparr>ad_queue := remove_at index (ad_queue st)\<rparr>) in
       Some (\<lparr>gd_owner = thread, gd_scope = wt_scope w\<rparr>, st\<lparr>ad_owners := insert thread (ad_owners st)\<rparr>)
     else None)"

definition release :: "admission_guard \<Rightarrow> admission_state \<Rightarrow> admission_state" where
  "release g st =
     (let st = (case gd_scope g of
                  Global \<Rightarrow> st\<lparr>ad_global := False\<rparr>
                | Conversations keys \<Rightarrow> st\<lparr>ad_active_keys := fold (\<lambda>key active. active - {key}) keys (ad_active_keys st)\<rparr>) in
      st\<lparr>ad_owners := ad_owners st - {gd_owner g}\<rparr>)"

section \<open>The system\<close>

text \<open>The scopes \<open>lock\<close>, \<open>lock_conversation\<close> and \<open>lock_conversations\<close> ask for.\<close>

definition declared :: "admission_scope \<Rightarrow> bool" where
  "declared scope \<longleftrightarrow> scope = Global \<or> (\<exists>ids. conversations_scope ids = Inr scope)"

record admission_world =
  aw_state :: admission_state
  aw_guards :: "admission_guard list"
  aw_admitted :: "waiter list"

definition admission_start :: admission_world where
  "admission_start = \<lparr>aw_state = admission_default, aw_guards = [], aw_admitted = []\<rparr>"

inductive admission_step :: "admission_world \<Rightarrow> admission_world \<Rightarrow> bool" where
  requested: "declared scope \<Longrightarrow> request thread scope (aw_state w) = Inr (ticket, st)
     \<Longrightarrow> admission_step w (w\<lparr>aw_state := st\<rparr>)"
| admitted: "x \<in> set (ad_queue (aw_state w)) \<Longrightarrow> admit (wt_thread x) (wt_ticket x) (aw_state w) = Some (g, st)
     \<Longrightarrow> admission_step w (w\<lparr>aw_state := st, aw_guards := g # aw_guards w, aw_admitted := aw_admitted w @ [x]\<rparr>)"
| released: "g \<in> set (aw_guards w)
     \<Longrightarrow> admission_step w (w\<lparr>aw_state := release g (aw_state w), aw_guards := remove1 g (aw_guards w)\<rparr>)"

section \<open>What a scope covers\<close>

fun scope_keys :: "admission_scope \<Rightarrow> rstring set" where
  "scope_keys Global = {}"
| "scope_keys (Conversations keys) = set keys"

definition scope_ok :: "admission_scope \<Rightarrow> bool" where
  "scope_ok scope \<longleftrightarrow> (case scope of Global \<Rightarrow> True | Conversations keys \<Rightarrow> keys \<noteq> [] \<and> sorted keys)"

definition overlap :: "admission_scope \<Rightarrow> admission_scope \<Rightarrow> bool" where
  "overlap a b \<longleftrightarrow> a = Global \<or> b = Global \<or> scope_keys a \<inter> scope_keys b \<noteq> {}"

lemma overlap_sym: "overlap a b = overlap b a"
  by (auto simp: overlap_def)

lemma conflicts_iff: "scope_ok b \<Longrightarrow> conflicts a b \<longleftrightarrow> overlap a b"
  by (cases a; cases b) (auto simp: overlap_def scope_ok_def list_ex_iff binary_search_sorted)

lemma sort_not_Nil: "ids \<noteq> [] \<Longrightarrow> sort ids \<noteq> []"
  by (cases "sort ids") (metis list.set(1) set_empty set_sort, simp)

lemma declared_ok:
  assumes "declared scope"
  shows "scope_ok scope"
proof (cases scope)
  case (Conversations keys)
  then obtain ids where "ids \<noteq> []" and keys: "keys = remdups_adj (sort ids)"
    using assms by (auto simp: declared_def conversations_scope_def split: if_splits)
  then have "keys \<noteq> []" using sort_not_Nil by (simp add: remdups_adj_Nil_iff)
  moreover have "sorted keys" unfolding keys by (rule sorted_remdups_adj) (rule sorted_sort)
  ultimately show ?thesis by (simp add: Conversations scope_ok_def)
qed (simp add: scope_ok_def)

definition held_keys :: "admission_guard list \<Rightarrow> rstring set" where
  "held_keys guards = (\<Union>g \<in> set guards. scope_keys (gd_scope g))"

definition bookkeeping_ok :: "admission_state \<Rightarrow> admission_guard list \<Rightarrow> bool" where
  "bookkeeping_ok st guards \<longleftrightarrow>
     ad_global st = (\<exists>g \<in> set guards. gd_scope g = Global) \<and> ad_active_keys st = held_keys guards
     \<and> ad_owners st = gd_owner ` set guards \<and> distinct (map gd_owner guards)
     \<and> sorted_wrt (\<lambda>g h. \<not> overlap (gd_scope g) (gd_scope h)) guards
     \<and> list_all (\<lambda>g. scope_ok (gd_scope g)) guards"

definition queue_ok :: "admission_state \<Rightarrow> bool" where
  "queue_ok st \<longleftrightarrow>
     sorted_wrt (<) (map wt_ticket (ad_queue st)) \<and> list_all (\<lambda>w. wt_ticket w \<le> ad_generation st) (ad_queue st)
     \<and> ad_generation st < 2 ^ 64 \<and> list_all (\<lambda>w. scope_ok (wt_scope w)) (ad_queue st)
     \<and> distinct (map wt_thread (ad_queue st)) \<and> wt_thread ` set (ad_queue st) \<inter> ad_owners st = {}"

lemma held_keys_simps [simp]: "held_keys [] = {}" "held_keys (g # gs) = scope_keys (gd_scope g) \<union> held_keys gs"
  by (auto simp: held_keys_def)

text \<open>The bookkeeping answers exactly whether a request overlaps a guard that is held or a request ahead of it.\<close>

lemma ready_iff:
  assumes "bookkeeping_ok st guards" and "queue_ok st" and "i < length (ad_queue st)"
  shows "admission_ready st i \<longleftrightarrow>
     (\<forall>g \<in> set guards. \<not> overlap (wt_scope (ad_queue st ! i)) (gd_scope g))
     \<and> (\<forall>w \<in> set (take i (ad_queue st)). \<not> overlap (wt_scope (ad_queue st ! i)) (wt_scope w))"
proof -
  have ok: "scope_ok (wt_scope w)" if "w \<in> set (take i (ad_queue st))" for w
    using assms(2) in_set_takeD [OF that] by (simp add: queue_ok_def list_all_iff)
  have "list_all (\<lambda>e. \<not> conflicts (wt_scope (ad_queue st ! i)) (wt_scope e)) (take i (ad_queue st))
      \<longleftrightarrow> (\<forall>w \<in> set (take i (ad_queue st)). \<not> overlap (wt_scope (ad_queue st ! i)) (wt_scope w))"
    unfolding list_all_iff by (rule ball_cong) (simp_all add: conflicts_iff ok)
  moreover have "(\<not> ad_global st \<and> \<not> (case wt_scope (ad_queue st ! i) of
              Global \<Rightarrow> ad_active_keys st \<noteq> {}
            | Conversations keys \<Rightarrow> list_ex (\<lambda>key. key \<in> ad_active_keys st) keys))
      \<longleftrightarrow> (\<forall>g \<in> set guards. \<not> overlap (wt_scope (ad_queue st ! i)) (gd_scope g))"
  proof (cases "wt_scope (ad_queue st ! i)")
    case Global
    have "scope_keys (gd_scope g) \<noteq> {} \<or> gd_scope g = Global" if "g \<in> set guards" for g
      using assms(1) that by (cases "gd_scope g") (auto simp: bookkeeping_ok_def list_all_iff scope_ok_def)
    then have "held_keys guards = {} \<longleftrightarrow> (\<forall>g \<in> set guards. gd_scope g = Global)"
      by (auto simp: held_keys_def)
    with Global assms(1) show ?thesis by (auto simp: bookkeeping_ok_def overlap_def)
  next
    case (Conversations keys)
    with assms(1) show ?thesis by (auto simp: bookkeeping_ok_def overlap_def held_keys_def list_ex_iff)
  qed
  ultimately show ?thesis unfolding admission_ready_def Let_def by blast
qed

section \<open>Every step keeps the bookkeeping\<close>

lemma position_Some: "position p xs = Some i \<Longrightarrow> i < length xs \<and> p (xs ! i)"
  by (induction xs arbitrary: i) (auto split: if_splits)

lemma admit_Some:
  assumes "admit thread ticket st = Some (g, st')"
  obtains ys x zs where "ad_queue st = ys @ x # zs" "wt_ticket x = ticket" "admission_ready st (length ys)"
    "g = \<lparr>gd_owner = thread, gd_scope = wt_scope x\<rparr>" "ad_queue st' = ys @ zs" "ad_generation st' = ad_generation st"
    "ad_owners st' = insert thread (ad_owners st)" "ad_global st' = (ad_global st \<or> wt_scope x = Global)"
    "ad_active_keys st' = ad_active_keys st \<union> scope_keys (wt_scope x)"
proof -
  obtain i where i: "position (\<lambda>w. wt_ticket w = ticket) (ad_queue st) = Some i" "admission_ready st i"
    using assms by (auto simp: admit_def Option.bind_eq_Some_conv split: if_splits)
  let ?q = "ad_queue st"
  have q: "?q = take i ?q @ ?q ! i # drop (Suc i) ?q" "length (take i ?q) = i" "wt_ticket (?q ! i) = ticket"
    using position_Some [OF i(1)] by (simp_all add: id_take_nth_drop [symmetric])
  show ?thesis
    by (rule that [OF q(1)])
      (use assms i q in \<open>auto simp: admit_def Let_def remove_at_def activate_scope_def split: admission_scope.splits if_splits\<close>)
qed

lemma request_Inr:
  assumes "request thread scope st = Inr (ticket, st')"
  shows "ticket = ad_generation st + 1" and "ad_generation st \<noteq> 2 ^ 64 - 1" and "thread \<notin> ad_owners st"
    and "\<forall>w \<in> set (ad_queue st). wt_thread w \<noteq> thread"
    and "st' = st\<lparr>ad_generation := ticket,
                  ad_queue := ad_queue st @ [\<lparr>wt_ticket = ticket, wt_thread = thread, wt_scope = scope\<rparr>]\<rparr>"
  using assms by (auto simp: request_def Let_def list_ex_iff split: if_splits)

lemma request_keeps:
  assumes "bookkeeping_ok st guards" and "queue_ok st" and "scope_ok scope" and "request thread scope st = Inr (ticket, st')"
  shows "bookkeeping_ok st' guards" and "queue_ok st'"
proof -
  note r = request_Inr [OF assms(4)]
  show "bookkeeping_ok st' guards" using assms(1) by (simp add: bookkeeping_ok_def r(5))
  have "\<forall>w \<in> set (ad_queue st). wt_ticket w < ticket" using assms(2) r(1) by (auto simp: queue_ok_def list_all_iff)
  then show "queue_ok st'"
    using assms(2,3) r(1-4) by (auto simp: queue_ok_def r(5) sorted_wrt_append list_all_iff)
qed

lemma same_waiter:
  assumes "queue_ok st" and "x \<in> set (ad_queue st)" and "y \<in> set (ad_queue st)" and "wt_ticket x = wt_ticket y"
  shows "x = y"
proof -
  have "distinct (map wt_ticket (ad_queue st))" using assms(1) by (simp add: queue_ok_def strict_sorted_iff)
  then show ?thesis using assms(2-4) by (simp add: distinct_map inj_on_def)
qed

lemma admit_keeps:
  assumes "bookkeeping_ok st guards" and "queue_ok st" and "x \<in> set (ad_queue st)"
    and "admit (wt_thread x) (wt_ticket x) st = Some (g, st')"
  shows "bookkeeping_ok st' (g # guards)" and "queue_ok st'"
    and "\<exists>ys zs. ad_queue st = ys @ x # zs \<and> ad_queue st' = ys @ zs \<and> ad_generation st' = ad_generation st
      \<and> (\<forall>w \<in> set ys. \<not> overlap (wt_scope x) (wt_scope w)) \<and> gd_scope g = wt_scope x"
proof -
  obtain ys y zs where q: "ad_queue st = ys @ y # zs" "wt_ticket y = wt_ticket x" "admission_ready st (length ys)"
    "g = \<lparr>gd_owner = wt_thread x, gd_scope = wt_scope y\<rparr>" "ad_queue st' = ys @ zs" "ad_generation st' = ad_generation st"
    "ad_owners st' = insert (wt_thread x) (ad_owners st)" "ad_global st' = (ad_global st \<or> wt_scope y = Global)"
    "ad_active_keys st' = ad_active_keys st \<union> scope_keys (wt_scope y)"
    using admit_Some [OF assms(4)] by blast
  have y: "y = x" using same_waiter [OF assms(2,3), of y] q(1,2) by simp
  have free: "\<forall>g \<in> set guards. \<not> overlap (wt_scope x) (gd_scope g)" "\<forall>w \<in> set ys. \<not> overlap (wt_scope x) (wt_scope w)"
    using q(3) ready_iff [OF assms(1,2), of "length ys"] by (simp_all add: q(1) y nth_append)
  show "bookkeeping_ok st' (g # guards)"
    using assms(1,2) free(1) q(1) by (auto simp: bookkeeping_ok_def q(4,7-9) y queue_ok_def)
  show "queue_ok st'"
    using assms(2) by (auto simp: queue_ok_def q y sorted_wrt_append)
  show "\<exists>ys zs. ad_queue st = ys @ x # zs \<and> ad_queue st' = ys @ zs \<and> ad_generation st' = ad_generation st
      \<and> (\<forall>w \<in> set ys. \<not> overlap (wt_scope x) (wt_scope w)) \<and> gd_scope g = wt_scope x"
    using q free(2) y by auto
qed

lemma removed_keys: "fold (\<lambda>key active. active - {key}) keys active = active - set keys"
  by (induction keys arbitrary: active) auto

lemma release_keeps:
  assumes "bookkeeping_ok st guards" and "queue_ok st" and "g \<in> set guards"
  shows "bookkeeping_ok (release g st) (remove1 g guards)" and "queue_ok (release g st)"
proof -
  obtain ys zs where guards: "guards = ys @ g # zs" "remove1 g guards = ys @ zs"
    using assms(3) by (metis split_list_first remove1_append remove1.simps(2))
  have apart: "\<forall>h \<in> set (ys @ zs). \<not> overlap (gd_scope g) (gd_scope h)"
    using assms(1) by (auto simp: bookkeeping_ok_def guards(1) sorted_wrt_append overlap_sym)
  have keys: "held_keys (ys @ zs) = ad_active_keys st - scope_keys (gd_scope g)"
    using assms(1) apart by (auto simp: bookkeeping_ok_def guards(1) held_keys_def overlap_def)
  have owned: "ad_owners st = insert (gd_owner g) (gd_owner ` set (ys @ zs))" "gd_owner g \<notin> gd_owner ` set (ys @ zs)"
    "distinct (map gd_owner (ys @ zs))"
    using assms(1) by (simp_all add: bookkeeping_ok_def guards(1) image_Un)
  have owners: "ad_owners st - {gd_owner g} = gd_owner ` set (ys @ zs)"
    unfolding owned(1) by (rule Diff_insert_absorb [OF owned(2)])
  have others: "sorted_wrt (\<lambda>g h. \<not> overlap (gd_scope g) (gd_scope h)) (ys @ zs)" "list_all (\<lambda>g. scope_ok (gd_scope g)) (ys @ zs)"
    using assms(1) by (auto simp: bookkeeping_ok_def guards(1) sorted_wrt_append)
  have global: "ad_global (release g st) = (\<exists>h \<in> set (ys @ zs). gd_scope h = Global)"
    using assms(1) apart by (cases "gd_scope g") (auto simp: release_def Let_def bookkeeping_ok_def guards(1) overlap_def)
  have "ad_active_keys (release g st) = held_keys (ys @ zs)"
    by (cases "gd_scope g") (simp_all add: release_def Let_def removed_keys keys)
  moreover have "ad_owners (release g st) = gd_owner ` set (ys @ zs)"
    unfolding owners [symmetric] by (simp add: release_def Let_def split: admission_scope.split)
  ultimately show "bookkeeping_ok (release g st) (remove1 g guards)"
    unfolding guards(2) bookkeeping_ok_def using owned(3) others global by blast
  show "queue_ok (release g st)"
    using assms(2) by (auto simp: queue_ok_def release_def Let_def split: admission_scope.split)
qed

text \<open>Overlapping requests are in the order of their tickets, the admitted ones before the ones that wait.\<close>

definition in_order :: "waiter list \<Rightarrow> bool" where
  "in_order xs \<longleftrightarrow> sorted_wrt (\<lambda>a b. overlap (wt_scope a) (wt_scope b) \<longrightarrow> wt_ticket a < wt_ticket b) xs"

definition admission_ok :: "admission_world \<Rightarrow> bool" where
  "admission_ok w \<longleftrightarrow>
     bookkeeping_ok (aw_state w) (aw_guards w) \<and> queue_ok (aw_state w)
     \<and> in_order (aw_admitted w @ ad_queue (aw_state w))
     \<and> list_all (\<lambda>x. wt_ticket x \<le> ad_generation (aw_state w) \<and> scope_ok (wt_scope x)) (aw_admitted w)"

lemma admission_start_ok: "admission_ok admission_start"
  by (simp add: admission_ok_def admission_start_def admission_default_def bookkeeping_ok_def queue_ok_def in_order_def)

lemma admission_step_ok: "admission_step w w' \<Longrightarrow> admission_ok w \<Longrightarrow> admission_ok w'"
proof (induction rule: admission_step.induct)
  case (requested scope thread w ticket st)
  have ok: "bookkeeping_ok (aw_state w) (aw_guards w)" "queue_ok (aw_state w)" using requested.prems by (simp_all add: admission_ok_def)
  note r = request_Inr [OF requested.hyps(2)]
  have "\<forall>x \<in> set (aw_admitted w @ ad_queue (aw_state w)). wt_ticket x < ticket"
    using requested.prems by (auto simp: admission_ok_def queue_ok_def list_all_iff r(1))
  then have "in_order ((aw_admitted w @ ad_queue (aw_state w)) @ [\<lparr>wt_ticket = ticket, wt_thread = thread, wt_scope = scope\<rparr>])"
    using requested.prems unfolding in_order_def sorted_wrt_append admission_ok_def by auto
  with requested.prems request_keeps [OF ok declared_ok [OF requested.hyps(1)] requested.hyps(2)] show ?case
    by (auto simp: admission_ok_def r(1,5) list_all_iff)
next
  case (admitted x w g st)
  have ok: "bookkeeping_ok (aw_state w) (aw_guards w)" "queue_ok (aw_state w)" using admitted.prems by (simp_all add: admission_ok_def)
  note keeps = admit_keeps [OF ok admitted.hyps]
  obtain ys zs where q: "ad_queue (aw_state w) = ys @ x # zs" "ad_queue st = ys @ zs" "ad_generation st = ad_generation (aw_state w)"
    "\<forall>w \<in> set ys. \<not> overlap (wt_scope x) (wt_scope w)" using keeps(3) by blast
  have "in_order ((aw_admitted w @ [x]) @ ys @ zs)"
    using admitted.prems q(4) unfolding in_order_def admission_ok_def q(1) by (auto simp: sorted_wrt_append)
  moreover have "wt_ticket x \<le> ad_generation st \<and> scope_ok (wt_scope x)"
    using ok(2) by (simp add: queue_ok_def q(1,3))
  ultimately show ?case using admitted.prems keeps(1,2) q(2,3) by (auto simp: admission_ok_def)
next
  case (released g w)
  have ok: "bookkeeping_ok (aw_state w) (aw_guards w)" "queue_ok (aw_state w)" using released.prems by (simp_all add: admission_ok_def)
  have "ad_queue (release g (aw_state w)) = ad_queue (aw_state w)" "ad_generation (release g (aw_state w)) = ad_generation (aw_state w)"
    by (simp_all add: release_def Let_def split: admission_scope.split)
  then show ?case using released.prems release_keeps [OF ok released.hyps] by (simp add: admission_ok_def)
qed

interpretation admission: step_invariant admission_step admission_ok
  by unfold_locales (rule admission_step_ok)

lemma admission_reachable: "admission_step\<^sup>*\<^sup>* admission_start w \<Longrightarrow> admission_ok w"
  using admission.inv_steps admission_start_ok by blast

lemma admission_bookkeeping: "admission_ok w \<Longrightarrow> bookkeeping_ok (aw_state w) (aw_guards w)" "admission_ok w \<Longrightarrow> queue_ok (aw_state w)"
  by (simp_all add: admission_ok_def)

section \<open>What the registry promises\<close>

lemma guard_scope_ok: "admission_ok w \<Longrightarrow> g \<in> set (aw_guards w) \<Longrightarrow> scope_ok (gd_scope g)"
  by (auto simp: admission_ok_def bookkeeping_ok_def list_all_iff)

lemma waiter_scope_ok: "admission_ok w \<Longrightarrow> x \<in> set (ad_queue (aw_state w)) \<Longrightarrow> scope_ok (wt_scope x)"
  by (auto simp: admission_ok_def queue_ok_def list_all_iff)

lemma admission_readiness:
  assumes ok: "admission_ok w" and "i < length (ad_queue (aw_state w))"
  shows "admission_ready (aw_state w) i \<longleftrightarrow>
     list_all (\<lambda>g. \<not> conflicts (wt_scope (ad_queue (aw_state w) ! i)) (gd_scope g)) (aw_guards w)
     \<and> list_all (\<lambda>x. \<not> conflicts (wt_scope (ad_queue (aw_state w) ! i)) (wt_scope x)) (take i (ad_queue (aw_state w)))"
proof -
  have "scope_ok (wt_scope x)" if "x \<in> set (take i (ad_queue (aw_state w)))" for x
    using waiter_scope_ok [OF ok in_set_takeD [OF that]] .
  then show ?thesis
    unfolding ready_iff [OF admission_bookkeeping [OF ok] assms(2)] list_all_iff
    by (auto simp: conflicts_iff guard_scope_ok [OF ok])
qed

text \<open>
  C33: two guards that are alive at the same time never conflict and belong to different threads: a
  global reservation is alone, and no conversation is reserved twice.
\<close>

theorem admission_exclusive:
  assumes "admission_step\<^sup>*\<^sup>* admission_start w" and "i < j" and "j < length (aw_guards w)"
  shows "\<not> conflicts (gd_scope (aw_guards w ! i)) (gd_scope (aw_guards w ! j))
     \<and> gd_owner (aw_guards w ! i) \<noteq> gd_owner (aw_guards w ! j)"
proof -
  have ok: "admission_ok w" using assms(1) by (rule admission_reachable)
  then have "sorted_wrt (\<lambda>g h. \<not> overlap (gd_scope g) (gd_scope h)) (aw_guards w)" "distinct (map gd_owner (aw_guards w))"
    by (simp_all add: admission_ok_def bookkeeping_ok_def)
  then have "\<not> overlap (gd_scope (aw_guards w ! i)) (gd_scope (aw_guards w ! j))"
      "gd_owner (aw_guards w ! i) \<noteq> gd_owner (aw_guards w ! j)"
    using assms(2,3) sorted_wrt_nth_less [of _ "aw_guards w" i j] by (auto simp: distinct_conv_nth)
  then show ?thesis using assms(2,3) by (simp add: conflicts_iff guard_scope_ok [OF ok])
qed

text \<open>
  Conflicting requests are admitted in the order in which they were made, whatever else is admitted in
  between.
\<close>

theorem admission_fifo:
  assumes "admission_step\<^sup>*\<^sup>* admission_start w" and "i < j" and "j < length (aw_admitted w)"
    and "conflicts (wt_scope (aw_admitted w ! i)) (wt_scope (aw_admitted w ! j))"
  shows "wt_ticket (aw_admitted w ! i) < wt_ticket (aw_admitted w ! j)"
proof -
  have ok: "admission_ok w" using assms(1) by (rule admission_reachable)
  then have "in_order (aw_admitted w)" "scope_ok (wt_scope (aw_admitted w ! j))"
    using assms(3) by (auto simp: admission_ok_def in_order_def sorted_wrt_append list_all_length)
  then show ?thesis
    using assms(2-4) sorted_wrt_nth_less [of _ "aw_admitted w" i j] by (auto simp: in_order_def conflicts_iff)
qed

text \<open>
  The flag, the set of active keys and the queue decide readiness exactly as the guards and
  requests themselves would: a request is ready when it conflicts with no guard that is alive and with no request ahead of it.
\<close>

theorem admission_ready_exact:
  assumes "admission_step\<^sup>*\<^sup>* admission_start w" and "i < length (ad_queue (aw_state w))"
  shows "admission_ready (aw_state w) i \<longleftrightarrow>
     list_all (\<lambda>g. \<not> conflicts (wt_scope (ad_queue (aw_state w) ! i)) (gd_scope g)) (aw_guards w)
     \<and> list_all (\<lambda>x. \<not> conflicts (wt_scope (ad_queue (aw_state w) ! i)) (wt_scope x)) (take i (ad_queue (aw_state w)))"
  by (rule admission_readiness [OF admission_reachable [OF assms(1)] assms(2)])

text \<open>The requests ahead of a waiting one.\<close>

definition ahead :: "waiter \<Rightarrow> admission_world \<Rightarrow> waiter list" where
  "ahead x w = takeWhile (\<lambda>y. y \<noteq> x) (ad_queue (aw_state w))"

lemma takeWhile_removed:
  assumes "distinct (ys @ y # zs)" and "x \<in> set (ys @ zs)"
  shows "set (takeWhile (\<lambda>z. z \<noteq> x) (ys @ zs)) \<subseteq> set (takeWhile (\<lambda>z. z \<noteq> x) (ys @ y # zs))"
proof (cases "x \<in> set ys")
  case True
  then show ?thesis by (simp add: takeWhile_append1)
next
  case False
  then have "takeWhile (\<lambda>z. z \<noteq> x) (ys @ ws) = ys @ takeWhile (\<lambda>z. z \<noteq> x) ws" for ws
    by (intro takeWhile_append2) auto
  moreover have "y \<noteq> x" using False assms by auto
  ultimately show ?thesis by auto
qed

lemma takeWhile_inserted: "v \<in> set (takeWhile p (ys @ x # zs)) \<Longrightarrow> v = x \<or> v \<in> set (takeWhile p (ys @ zs))"
proof (induction ys)
  case Nil
  then show ?case by (cases "p x") simp_all
next
  case (Cons a ys)
  then show ?case by (cases "p a") auto
qed

lemma step_ahead:
  assumes "admission_step w w'" and "admission_ok w" and "x \<in> set (ad_queue (aw_state w'))"
    and "x \<in> set (ad_queue (aw_state w))"
  shows "set (ahead x w') \<subseteq> set (ahead x w)"
  using assms
proof (induction rule: admission_step.induct)
  case (requested scope thread w ticket st)
  then show ?case by (auto simp: ahead_def request_Inr(5) [OF requested.hyps(2)] takeWhile_append1)
next
  case (admitted y w g st)
  obtain ys zs where q: "ad_queue (aw_state w) = ys @ y # zs" "ad_queue st = ys @ zs"
    using admit_keeps(3) [OF admission_bookkeeping [OF admitted.prems(1)] admitted.hyps] by blast
  have "distinct (ad_queue (aw_state w))"
    using admission_bookkeeping(2) [OF admitted.prems(1)] by (auto simp: queue_ok_def strict_sorted_iff distinct_map)
  then show ?case using admitted.prems(2) takeWhile_removed [of ys y zs x] by (simp add: ahead_def q)
next
  case (released g w)
  then show ?case by (simp add: ahead_def release_def Let_def split: admission_scope.split)
qed

lemma still_waiting:
  assumes "admission_step w w'" and "admission_ok w" and "x \<in> set (ad_queue (aw_state w'))"
    and "wt_ticket x \<le> ad_generation (aw_state w)"
  shows "x \<in> set (ad_queue (aw_state w))"
  using assms
proof (induction rule: admission_step.induct)
  case (requested scope thread w ticket st)
  note r = request_Inr [OF requested.hyps(2)]
  show ?case using requested.prems by (auto simp: r(1,5))
next
  case (admitted y w g st)
  then show ?case using admit_keeps(3) [OF admission_bookkeeping [OF admitted.prems(1)] admitted.hyps] by auto
next
  case (released g w)
  then show ?case by (simp add: release_def Let_def split: admission_scope.splits)
qed

lemma generation_grows: "admission_step w w' \<Longrightarrow> ad_generation (aw_state w) \<le> ad_generation (aw_state w')"
proof (induction rule: admission_step.induct)
  case (requested scope thread w ticket st)
  then show ?case using request_Inr [OF requested.hyps(2)] by simp
next
  case (admitted y w g st)
  obtain "ad_generation st = ad_generation (aw_state w)" using admit_Some [OF admitted.hyps(2)] by blast
  then show ?case by simp
next
  case (released g w)
  then show ?case by (simp add: release_def Let_def split: admission_scope.splits)
qed

lemma waiting_ticket:
  assumes "admission_step\<^sup>*\<^sup>* w u" and "admission_ok w" and "x \<in> set (ad_queue (aw_state w))"
  shows "wt_ticket x \<le> ad_generation (aw_state u)"
  using assms
proof (induction rule: rtranclp_induct)
  case base
  then show ?case by (auto simp: admission_ok_def queue_ok_def list_all_iff)
next
  case (step u v)
  then show ?case using generation_grows [OF step.hyps(2)] by simp
qed

lemma position_of:
  assumes "admission_ok w" and "ad_queue (aw_state w) = ys @ x # zs" and "x \<notin> set ys"
  shows "position (\<lambda>v. wt_ticket v = wt_ticket x) (ad_queue (aw_state w)) = Some (length ys)"
proof -
  have "\<forall>y \<in> set ys. wt_ticket y \<noteq> wt_ticket x"
    using admission_bookkeeping(2) [OF assms(1)] by (auto simp: queue_ok_def assms(2) sorted_wrt_append)
  then have "position (\<lambda>v. wt_ticket v = wt_ticket x) (ys @ x # zs) = Some (length ys)" by (induction ys) auto
  with assms(2) show ?thesis by simp
qed

lemma ahead_split: "x \<notin> set ys \<Longrightarrow> ad_queue (aw_state w) = ys @ x # zs \<Longrightarrow> ahead x w = ys"
proof -
  assume "x \<notin> set ys" and q: "ad_queue (aw_state w) = ys @ x # zs"
  then have "takeWhile (\<lambda>z. z \<noteq> x) (ys @ x # zs) = ys @ takeWhile (\<lambda>z. z \<noteq> x) (x # zs)"
    by (intro takeWhile_append2) auto
  then show "ahead x w = ys" by (simp add: ahead_def q)
qed

text \<open>When the loop of \<open>acquire\<close> returns for a waiting request.\<close>

lemma admit_free:
  assumes ok: "admission_ok w" and "x \<in> set (ad_queue (aw_state w))"
  shows "admit (wt_thread x) (wt_ticket x) (aw_state w) \<noteq> None \<longleftrightarrow>
     (\<forall>g \<in> set (aw_guards w). \<not> conflicts (wt_scope x) (gd_scope g)) \<and> (\<forall>y \<in> set (ahead x w). \<not> conflicts (wt_scope x) (wt_scope y))"
proof -
  obtain ys zs where q: "ad_queue (aw_state w) = ys @ x # zs" "x \<notin> set ys" using assms(2) by (metis split_list_first)
  have "admit (wt_thread x) (wt_ticket x) (aw_state w) \<noteq> None \<longleftrightarrow> admission_ready (aw_state w) (length ys)"
    by (simp add: admit_def Let_def position_of [OF ok q])
  then show ?thesis
    using admission_readiness [OF ok, of "length ys"] by (simp add: ahead_split [OF q(2,1)] q(1) list_all_iff)
qed

lemma steps_ahead:
  assumes "admission_step\<^sup>*\<^sup>* w w'" and "admission_ok w" and "x \<in> set (ad_queue (aw_state w))" and "x \<in> set (ad_queue (aw_state w'))"
  shows "set (ahead x w') \<subseteq> set (ahead x w)"
  using assms
proof (induction rule: rtranclp_induct)
  case (step u v)
  have ok: "admission_ok u" using admission.inv_steps [OF step.hyps(1) step.prems(1)] .
  have tickets: "wt_ticket x \<le> ad_generation (aw_state u)"
    using step.hyps(1) step.prems(1,2) by (rule waiting_ticket)
  have "x \<in> set (ad_queue (aw_state u))" by (rule still_waiting [OF step.hyps(2) ok step.prems(3) tickets])
  with step ok step_ahead [OF step.hyps(2) ok step.prems(3)] show ?case by blast
qed simp

text \<open>
  A request that waits is never overtaken by a later conflicting one: whatever happens
  meanwhile, it only waits for guards that are alive and for requests that were ahead of it before. When no guard is alive, the first
  request in the queue is ready, so somebody is always let in.
\<close>

theorem admission_no_starvation:
  assumes "admission_step\<^sup>*\<^sup>* admission_start w" and "x \<in> set (ad_queue (aw_state w))"
    and "admission_step\<^sup>*\<^sup>* w w'" and "x \<in> set (ad_queue (aw_state w'))"
  shows "(admit (wt_thread x) (wt_ticket x) (aw_state w') \<noteq> None
      \<or> (\<exists>g \<in> set (aw_guards w'). conflicts (wt_scope x) (gd_scope g))
      \<or> (\<exists>y \<in> set (ahead x w) \<inter> set (ahead x w'). conflicts (wt_scope x) (wt_scope y)))
     \<and> (aw_guards w' = [] \<longrightarrow> admission_ready (aw_state w') 0)"
proof -
  have ok: "admission_ok w" using assms(1) by (rule admission_reachable)
  have ok': "admission_ok w'" using admission.inv_steps [OF assms(3) ok] .
  have sub: "set (ahead x w') \<subseteq> set (ahead x w)" by (rule steps_ahead [OF assms(3) ok assms(2,4)])
  have "ad_queue (aw_state w') \<noteq> []" using assms(4) by auto
  then have "admission_ready (aw_state w') 0" if "aw_guards w' = []"
    using admission_readiness [OF ok', of 0] that by simp
  then show ?thesis using sub admit_free [OF ok' assms(4)] by blast
qed

text \<open>
  Letting a request in makes no other request ready, so the waiters need to be woken only when a
  guard is dropped or a request arrives, which is when the code notifies them.
\<close>

theorem admission_wakes_enough:
  assumes "admission_step\<^sup>*\<^sup>* admission_start w" and "x \<in> set (ad_queue (aw_state w))"
    and "admit (wt_thread x) (wt_ticket x) (aw_state w) = Some (g, st)"
    and "y \<in> set (ad_queue st)" and "admit (wt_thread y) (wt_ticket y) st \<noteq> None"
  shows "admit (wt_thread y) (wt_ticket y) (aw_state w) \<noteq> None"
proof -
  let ?w' = "w\<lparr>aw_state := st, aw_guards := g # aw_guards w, aw_admitted := aw_admitted w @ [x]\<rparr>"
  have ok: "admission_ok w" using assms(1) by (rule admission_reachable)
  have ok': "admission_ok ?w'" by (rule admission_step_ok [OF admitted [OF assms(2,3)] ok])
  obtain ys zs where q: "ad_queue (aw_state w) = ys @ x # zs" "ad_queue st = ys @ zs" "gd_scope g = wt_scope x"
    using admit_keeps(3) [OF admission_bookkeeping [OF ok] assms(2,3)] by blast
  have y: "y \<in> set (ad_queue (aw_state ?w'))" "y \<in> set (ad_queue (aw_state w))" using assms(4) q by simp_all
  have free: "\<forall>h \<in> set (g # aw_guards w). \<not> conflicts (wt_scope y) (gd_scope h)"
      "\<forall>v \<in> set (ahead y ?w'). \<not> conflicts (wt_scope y) (wt_scope v)"
    using admit_free [OF ok' y(1)] assms(5) by simp_all
  have "\<not> conflicts (wt_scope y) (wt_scope v)" if "v \<in> set (ahead y w)" for v
  proof -
    have "v = x \<or> v \<in> set (ahead y ?w')" using takeWhile_inserted that by (fastforce simp: ahead_def q)
    then show ?thesis using free q(3) by auto
  qed
  then show ?thesis using admit_free [OF ok y(2)] free(1) by simp
qed

section \<open>An example\<close>

text \<open>Two requests for the conversation \<open>a\<close>, one for \<open>b\<close>; the first holds \<open>a\<close> while the others arrive.\<close>

definition example_waiter :: "nat \<Rightarrow> string \<Rightarrow> waiter" where
  "example_waiter n key = \<lparr>wt_ticket = n, wt_thread = n, wt_scope = Conversations [S key]\<rparr>"

definition example_guard :: "nat \<Rightarrow> string \<Rightarrow> admission_guard" where
  "example_guard n key = \<lparr>gd_owner = n, gd_scope = Conversations [S key]\<rparr>"

definition example_admission ::
  "nat \<Rightarrow> waiter list \<Rightarrow> rstring set \<Rightarrow> nat set \<Rightarrow> admission_guard list \<Rightarrow> waiter list \<Rightarrow> admission_world" where
  "example_admission n queue keys owners guards log =
     \<lparr>aw_state = \<lparr>ad_generation = n, ad_queue = queue, ad_global = False, ad_active_keys = keys, ad_owners = owners\<rparr>,
      aw_guards = guards, aw_admitted = log\<rparr>"

lemmas example_admission_defs = example_admission_def example_waiter_def example_guard_def

lemma example_declared: "key \<noteq> [] \<Longrightarrow> declared (Conversations [S key])"
  unfolding declared_def conversations_scope_def by (intro disjI2 exI [of _ "[S key]"]) (simp add: S_def)

lemma example_requested:
  assumes "n < 9" and "key \<noteq> []" and "Suc n \<notin> owners" and "\<forall>w \<in> set queue. wt_thread w \<noteq> Suc n"
  shows "admission_step (example_admission n queue keys owners guards log)
    (example_admission (Suc n) (queue @ [example_waiter (Suc n) key]) keys owners guards log)"
proof -
  have "\<not> list_ex (\<lambda>w. wt_thread w = Suc n) queue" using assms(4) by (auto simp: list_ex_iff)
  then have "request (Suc n) (Conversations [S key]) (aw_state (example_admission n queue keys owners guards log))
      = Inr (Suc n, aw_state (example_admission (Suc n) (queue @ [example_waiter (Suc n) key]) keys owners guards log))"
    using assms(1,3) by (simp add: request_def example_admission_defs)
  from requested [OF example_declared [OF assms(2)] this] show ?thesis by (simp add: example_admission_def)
qed

lemma example_admit:
  assumes "S key \<notin> keys"
  shows "admission_step (example_admission n (example_waiter m key # queue) keys owners guards log)
    (example_admission n queue (keys \<union> {S key}) (insert m owners) (example_guard m key # guards) (log @ [example_waiter m key]))"
  using admitted [of "example_waiter m key" "example_admission n (example_waiter m key # queue) keys owners guards log"] assms
  by (auto simp: admit_def admission_ready_def remove_at_def activate_scope_def example_admission_defs)

lemma example_release:
  "admission_step (example_admission n queue keys owners (example_guard m key # guards) log)
    (example_admission n queue (keys - {S key}) (owners - {m}) guards log)"
  using released [of "example_guard m key" "example_admission n queue keys owners (example_guard m key # guards) log"]
  by (auto simp: release_def Let_def example_admission_defs)

abbreviation "first_waiting \<equiv> example_waiter 1 ''a''"
abbreviation "second_waiting \<equiv> example_waiter 2 ''a''"
abbreviation "third_waiting \<equiv> example_waiter 3 ''b''"

definition both_wait :: admission_world where
  "both_wait = example_admission 3 [second_waiting, third_waiting] {S ''a''} {1} [example_guard 1 ''a''] [first_waiting]"

definition both_may :: admission_world where
  "both_may = example_admission 3 [second_waiting, third_waiting] {} {} [] [first_waiting]"

definition both_hold :: admission_world where
  "both_hold = example_admission 3 [] {S ''a'', S ''b''} {2, 3} [example_guard 3 ''b'', example_guard 2 ''a'']
     [first_waiting, second_waiting, third_waiting]"

lemma both_wait_reachable: "admission_step\<^sup>*\<^sup>* admission_start both_wait"
proof -
  let ?w1 = "example_admission 1 [first_waiting] {} {} [] []"
  let ?w2 = "example_admission 1 [] {S ''a''} {1} [example_guard 1 ''a''] [first_waiting]"
  let ?w3 = "example_admission 2 [second_waiting] {S ''a''} {1} [example_guard 1 ''a''] [first_waiting]"
  have start: "admission_start = example_admission 0 [] {} {} [] []"
    by (simp add: admission_start_def admission_default_def example_admission_def)
  have "admission_step admission_start ?w1"
    unfolding start using example_requested [of 0 "''a''" "{}" "[]" "{}" "[]" "[]"] by simp
  then have "admission_step\<^sup>*\<^sup>* admission_start ?w1" by (rule r_into_rtranclp)
  moreover have "admission_step ?w1 ?w2" using example_admit [of "''a''" "{}" 1 1 "[]" "{}" "[]" "[]"] by simp
  ultimately have "admission_step\<^sup>*\<^sup>* admission_start ?w2" by (rule rtranclp.rtrancl_into_rtrancl)
  moreover have "admission_step ?w2 ?w3"
    using example_requested [of 1 "''a''" "{1}" "[]" "{S ''a''}" "[example_guard 1 ''a'']" "[first_waiting]"] by (simp add: numeral_2_eq_2)
  ultimately have "admission_step\<^sup>*\<^sup>* admission_start ?w3" by (rule rtranclp.rtrancl_into_rtrancl)
  moreover have "admission_step ?w3 both_wait"
    using example_requested [of 2 "''b''" "{1}" "[second_waiting]" "{S ''a''}" "[example_guard 1 ''a'']" "[first_waiting]"]
    by (simp add: both_wait_def example_waiter_def numeral_3_eq_3)
  ultimately show ?thesis by (rule rtranclp.rtrancl_into_rtrancl)
qed

lemma both_may_step: "admission_step both_wait both_may"
  using example_release [of 3 "[second_waiting, third_waiting]" "{S ''a''}" "{1}" 1 "''a''" "[]" "[first_waiting]"]
  by (simp add: both_wait_def both_may_def)

lemma both_may_reachable: "admission_step\<^sup>*\<^sup>* admission_start both_may"
  using both_wait_reachable both_may_step by (rule rtranclp.rtrancl_into_rtrancl)

lemma both_hold_reachable: "admission_step\<^sup>*\<^sup>* admission_start both_hold"
proof -
  let ?w = "example_admission 3 [third_waiting] {S ''a''} {2} [example_guard 2 ''a''] [first_waiting, second_waiting]"
  have "admission_step both_may ?w"
    using example_admit [of "''a''" "{}" 3 2 "[third_waiting]" "{}" "[]" "[first_waiting]"] by (simp add: both_may_def)
  with both_may_reachable have "admission_step\<^sup>*\<^sup>* admission_start ?w" by (rule rtranclp.rtrancl_into_rtrancl)
  moreover have "admission_step ?w both_hold"
    using example_admit [of "''b''" "{S ''a''}" 3 3 "[]" "{2}" "[example_guard 2 ''a'']" "[first_waiting, second_waiting]"]
    by (simp add: both_hold_def S_def insert_commute)
  ultimately show ?thesis by (rule rtranclp.rtrancl_into_rtrancl)
qed

theorem admission_exclusive_witness:
  "length (aw_guards both_hold) = 2 \<and> \<not> conflicts (Conversations [S ''b'']) (Conversations [S ''a''])"
  using admission_exclusive [OF both_hold_reachable, of 0 1] by (simp add: both_hold_def example_admission_defs)

theorem admission_fifo_witness:
  "conflicts (wt_scope first_waiting) (wt_scope second_waiting) \<and> wt_ticket first_waiting < wt_ticket second_waiting"
proof -
  have "conflicts (wt_scope first_waiting) (wt_scope second_waiting)"
    by (simp add: example_waiter_def binary_search_sorted)
  then show ?thesis
    using admission_fifo [OF both_hold_reachable, of 0 1] by (simp add: both_hold_def example_admission_def)
qed

theorem admission_ready_exact_witness: "\<not> admission_ready (aw_state both_wait) 0 \<and> admission_ready (aw_state both_wait) 1"
proof -
  have "length (ad_queue (aw_state both_wait)) = 2" by (simp add: both_wait_def example_admission_def)
  then show ?thesis
    using admission_ready_exact [OF both_wait_reachable, of 0] admission_ready_exact [OF both_wait_reachable, of 1]
    by (simp add: both_wait_def example_admission_defs binary_search_sorted S_def)
qed

theorem admission_no_starvation_witness:
  "second_waiting \<in> set (ad_queue (aw_state both_may)) \<and> admission_ready (aw_state both_may) 0"
proof -
  have "second_waiting \<in> set (ad_queue (aw_state both_wait))" "second_waiting \<in> set (ad_queue (aw_state both_may))"
    "aw_guards both_may = []"
    by (simp_all add: both_wait_def both_may_def example_admission_def)
  then show ?thesis
    using admission_no_starvation [OF both_wait_reachable, of second_waiting both_may] both_may_step by blast
qed

theorem admission_wakes_enough_witness:
  "admit 3 3 (aw_state both_may) \<noteq> None"
proof -
  let ?st = "aw_state (example_admission 3 [third_waiting] {S ''a''} {2} [] [])"
  have "second_waiting \<in> set (ad_queue (aw_state both_may))" by (simp add: both_may_def example_admission_def)
  moreover have "admit (wt_thread second_waiting) (wt_ticket second_waiting) (aw_state both_may) = Some (example_guard 2 ''a'', ?st)"
    by (simp add: both_may_def example_admission_defs admit_def admission_ready_def remove_at_def activate_scope_def)
  moreover have "third_waiting \<in> set (ad_queue ?st)" by (simp add: example_admission_def)
  moreover have "admit (wt_thread third_waiting) (wt_ticket third_waiting) ?st \<noteq> None"
    by (simp add: example_admission_defs admit_def admission_ready_def Let_def S_def)
  ultimately have "admit (wt_thread third_waiting) (wt_ticket third_waiting) (aw_state both_may) \<noteq> None"
    by (rule admission_wakes_enough [OF both_may_reachable])
  then show ?thesis by (simp add: example_waiter_def)
qed

end
