(* ===== verification/Rpc_Scheduling.thy ===== *)
theory Rpc_Scheduling
  imports Contracts Prelude "HOL-Library.Multiset"
begin

text \<open>
  How requests to the core share its workers, \<open>src/crates/core-server/src/transport/bounded_dispatch_resources.rs\<close>: which
  resource scopes overlap, and \<open>FairExecution\<close>, which hands a bounded number of permits to waiting requests, one root after
  the other. A waiter is the number of its channel; a permit is the pair of the waiter it was sent to and its root, and is alive
  until it is dropped, which for a cancelled receiver is at once. What the code does under the mutex is one step.
\<close>

section \<open>Resource scopes\<close>

datatype rpc_sequencing_policy =
  Ordered | OwnershipChange | TurnPreparation rstring | CancelPreparation rstring

datatype rpc_resource_scope =
  GlobalScope | GlobalTurnPreparation rstring | ExecutionAccess | Overview
  | Resources "rstring list" rstring rpc_sequencing_policy

fun is_turn_preparation :: "rpc_resource_scope \<Rightarrow> bool" where
  "is_turn_preparation (GlobalTurnPreparation _) = True"
| "is_turn_preparation (Resources _ _ (TurnPreparation _)) = True"
| "is_turn_preparation _ = False"

fun changes_ownership :: "rpc_resource_scope \<Rightarrow> bool" where
  "changes_ownership GlobalScope = True"
| "changes_ownership (GlobalTurnPreparation _) = True"
| "changes_ownership (Resources _ _ OwnershipChange) = True"
| "changes_ownership _ = False"

fun fairness_root :: "rpc_resource_scope \<Rightarrow> rstring" where
  "fairness_root (Resources _ root _) = S ''root:'' @ root"
| "fairness_root GlobalScope = S ''__global__''"
| "fairness_root (GlobalTurnPreparation _) = S ''__global_preparation__''"
| "fairness_root ExecutionAccess = S ''__execution_access__''"
| "fairness_root Overview = S ''__overview__''"

definition project_markers :: "rstring list \<Rightarrow> rstring list" where
  "project_markers keys = List.map_filter (\<lambda>key. strip_prefix key (S ''project-marker:'')) keys"

fun overlaps :: "rpc_resource_scope \<Rightarrow> rpc_resource_scope \<Rightarrow> bool" where
  "overlaps (Resources keys root _) (Resources other other_root _) \<longleftrightarrow>
     list_ex (\<lambda>key. \<not> starts_with key (S ''project-member:'') \<and> key \<in> set other) keys
     \<or> list_ex (\<lambda>project. S ''project-member:'' @ project \<in> set other) (project_markers keys)
     \<or> list_ex (\<lambda>project. S ''project-member:'' @ project \<in> set keys) (project_markers other)
     \<or> S ''tree:'' @ other_root \<in> set keys \<or> S ''tree:'' @ root \<in> set other"
| "overlaps GlobalScope _ = True"
| "overlaps _ GlobalScope = True"
| "overlaps (GlobalTurnPreparation _) _ = True"
| "overlaps _ (GlobalTurnPreparation _) = True"
| "overlaps ExecutionAccess _ = True"
| "overlaps _ ExecutionAccess = True"
| "overlaps Overview _ = False"
| "overlaps _ Overview = False"

datatype rpc_dispatch_class = ReadClass | WriteClass | ControlClass | ApprovalClass

definition permits_preparing_cancel ::
  "bool \<Rightarrow> rpc_dispatch_class \<Rightarrow> rpc_resource_scope \<Rightarrow> rpc_resource_scope \<Rightarrow> bool" where
  "permits_preparing_cancel started class scope previous =
     (if class \<noteq> ControlClass \<or> \<not> started then False
      else case scope of
        Resources _ _ (CancelPreparation conversation) \<Rightarrow>
          (case previous of
             Resources _ _ (TurnPreparation preparing) \<Rightarrow> conversation = preparing
           | GlobalTurnPreparation preparing \<Rightarrow> conversation = preparing
           | _ \<Rightarrow> False)
      | _ \<Rightarrow> False)"

text \<open>
  Whether a request waits for an earlier one, once the scope of the earlier one is resolved. \<open>preparing\<close> is what its
  preparation flag shows, \<open>False\<close> also when its sender is gone.
\<close>

definition predecessor_conflicts ::
  "rpc_dispatch_class \<Rightarrow> bool \<Rightarrow> bool \<Rightarrow> rpc_resource_scope \<Rightarrow> rpc_dispatch_class \<Rightarrow> rpc_resource_scope \<Rightarrow> bool" where
  "predecessor_conflicts earlier_class started preparing previous class scope =
     (if class = ReadClass \<and> earlier_class = ReadClass then False
      else if class = ControlClass \<and> scope = ExecutionAccess \<and> preparing then False
      else if earlier_class = ReadClass \<and> previous = Overview then False
      else if permits_preparing_cancel started class scope previous then False
      else overlaps scope previous)"

lemma overlaps_sym: "overlaps a b = overlaps b a"
  by (cases a; cases b) (auto simp: list_ex_iff)

section \<open>Fair execution\<close>

record fair_state =
  fa_active :: nat
  fa_active_roots :: "rstring \<rightharpoonup> nat"
  fa_queues :: "rstring \<rightharpoonup> nat list"
  fa_roots :: "rstring list"
  fa_last_root :: "rstring option"

definition fair_new :: fair_state where
  "fair_new = \<lparr>fa_active = 0, fa_active_roots = Map.empty, fa_queues = Map.empty, fa_roots = [], fa_last_root = None\<rparr>"

datatype fair_panic = RootWithoutQueue | EmptyQueue | ActiveUnderflow | RootNotTracked

definition fair_enqueue :: "rstring \<Rightarrow> nat \<Rightarrow> fair_state \<Rightarrow> fair_state" where
  "fair_enqueue root waiter st =
     (let st = (if fa_queues st root = None then st\<lparr>fa_roots := fa_roots st @ [root]\<rparr> else st) in
      st\<lparr>fa_queues := (fa_queues st)(root \<mapsto> (case fa_queues st root of None \<Rightarrow> [] | Some queue \<Rightarrow> queue) @ [waiter])\<rparr>)"

definition rotate_last :: "fair_state \<Rightarrow> fair_state" where
  "rotate_last st =
     (case fa_roots st of
        root # rest \<Rightarrow> if rest \<noteq> [] \<and> Some root = fa_last_root st then st\<lparr>fa_roots := rest @ [root]\<rparr> else st
      | [] \<Rightarrow> st)"

definition busy :: "fair_state \<Rightarrow> rstring \<Rightarrow> bool" where
  "busy st root \<longleftrightarrow> starts_with root (S ''root:'') \<and> fa_active_roots st root \<noteq> None"

definition grant :: "rstring \<Rightarrow> rstring list \<Rightarrow> nat list \<Rightarrow> fair_state \<Rightarrow> fair_state" where
  "grant root rest queue st =
     (let st = (if queue = [] then st\<lparr>fa_queues := (fa_queues st)(root := None), fa_roots := rest\<rparr>
                else st\<lparr>fa_queues := (fa_queues st)(root \<mapsto> queue), fa_roots := rest @ [root]\<rparr>) in
      st\<lparr>fa_active := fa_active st + 1,
         fa_active_roots := (fa_active_roots st)(root \<mapsto> (case fa_active_roots st root of None \<Rightarrow> 0 | Some n \<Rightarrow> n) + 1),
         fa_last_root := Some root\<rparr>)"

function drive_loop :: "nat \<Rightarrow> nat \<Rightarrow> fair_state \<Rightarrow> fair_panic + (nat \<times> rstring) list \<times> fair_state" where
  "drive_loop limit skipped st =
     (case fa_roots st of
        [] \<Rightarrow> Inr ([], st)
      | root # rest \<Rightarrow>
          if fa_active st < limit \<and> skipped < length (fa_roots st) then
            if busy st root then drive_loop limit (skipped + 1) (st\<lparr>fa_roots := rest @ [root]\<rparr>)
            else case fa_queues st root of
              None \<Rightarrow> Inl RootWithoutQueue
            | Some [] \<Rightarrow> Inl EmptyQueue
            | Some (waiter # queue) \<Rightarrow>
                rbind (drive_loop limit 0 (grant root rest queue st)) (\<lambda>(grants, st).
                Inr ((waiter, root) # grants, st))
          else Inr ([], st))"
  by pat_completeness auto
termination
  by (relation "measures [\<lambda>(limit, skipped, st). limit - fa_active st, \<lambda>(limit, skipped, st). length (fa_roots st) - skipped]")
    (auto simp: grant_def Let_def)

declare drive_loop.simps [simp del]

definition drive :: "nat \<Rightarrow> fair_state \<Rightarrow> fair_panic + (nat \<times> rstring) list \<times> fair_state" where
  "drive limit st = drive_loop limit 0 (rotate_last st)"

definition fair_release :: "rstring \<Rightarrow> fair_state \<Rightarrow> fair_panic + fair_state" where
  "fair_release root st =
     (if fa_active st = 0 then Inl ActiveUnderflow
      else case fa_active_roots st root of
        None \<Rightarrow> Inl RootNotTracked
      | Some n \<Rightarrow>
          if n = 0 then Inl ActiveUnderflow
          else Inr (st\<lparr>fa_active := fa_active st - 1,
                       fa_active_roots := (fa_active_roots st)(root := (if n = 1 then None else Some (n - 1)))\<rparr>))"

section \<open>What the scheduler keeps\<close>

definition of_root :: "rstring \<Rightarrow> (nat \<times> rstring) list \<Rightarrow> nat list" where
  "of_root root xs = map fst (filter (\<lambda>x. snd x = root) xs)"

definition waiting :: "fair_state \<Rightarrow> rstring \<Rightarrow> nat list" where
  "waiting st root = (case fa_queues st root of None \<Rightarrow> [] | Some queue \<Rightarrow> queue)"

definition tracked :: "nat list \<Rightarrow> nat option" where
  "tracked held = (if held = [] then None else Some (length held))"

definition fair_ok :: "nat \<Rightarrow> fair_state \<Rightarrow> (nat \<times> rstring) list \<Rightarrow> bool" where
  "fair_ok limit st permits \<longleftrightarrow>
     fa_active st = length permits \<and> length permits \<le> limit
     \<and> (\<forall>root. fa_active_roots st root = tracked (of_root root permits))
     \<and> (\<forall>root. starts_with root (S ''root:'') \<longrightarrow> length (of_root root permits) \<le> 1)
     \<and> distinct (fa_roots st) \<and> set (fa_roots st) = dom (fa_queues st) \<and> [] \<notin> ran (fa_queues st)"

lemma of_root_simps [simp]:
  "of_root root [] = []" "of_root root (xs @ ys) = of_root root xs @ of_root root ys"
  "of_root root (x # xs) = (if snd x = root then fst x # of_root root xs else of_root root xs)"
  by (simp_all add: of_root_def)

lemma fair_ok_queue:
  assumes "fair_ok limit st permits" and "root \<in> set (fa_roots st)"
  obtains waiter queue where "fa_queues st root = Some (waiter # queue)"
proof -
  obtain q where q: "fa_queues st root = Some q" using assms by (auto simp: fair_ok_def)
  moreover have "q \<noteq> []" using assms(1) q by (auto simp: fair_ok_def ran_def)
  ultimately show ?thesis using that by (cases q) auto
qed

lemma fair_ok_rotated: "fair_ok limit (st\<lparr>fa_roots := rest @ [root]\<rparr>) permits \<longleftrightarrow> fair_ok limit (st\<lparr>fa_roots := root # rest\<rparr>) permits"
  by (auto simp: fair_ok_def)

lemma ran_update: "[] \<notin> ran m \<Longrightarrow> q \<noteq> [] \<Longrightarrow> [] \<notin> ran (m(root \<mapsto> q))" "[] \<notin> ran m \<Longrightarrow> [] \<notin> ran (m(root := None))"
  by (auto simp: ran_def)

lemma grant_ok:
  assumes ok: "fair_ok limit st permits" and roots: "fa_roots st = root # rest" and "fa_active st < limit"
    and free: "\<not> busy st root" and queue: "fa_queues st root = Some (waiter # queue)"
  shows "fair_ok limit (grant root rest queue st) (permits @ [(waiter, root)])"
proof -
  have "starts_with root (S ''root:'') \<Longrightarrow> of_root root permits = []"
    using ok free by (auto simp: busy_def fair_ok_def tracked_def split: if_splits)
  moreover have "fa_active_roots (grant root rest queue st) r = tracked (of_root r (permits @ [(waiter, root)]))" for r
    using ok by (auto simp: grant_def Let_def fair_ok_def tracked_def)
  moreover have "distinct (fa_roots (grant root rest queue st))
      \<and> set (fa_roots (grant root rest queue st)) = dom (fa_queues (grant root rest queue st))"
    using ok roots by (auto simp: grant_def Let_def fair_ok_def)
  moreover have "[] \<notin> ran (fa_queues (grant root rest queue st))"
    using ok by (simp add: grant_def Let_def fair_ok_def ran_update)
  moreover have "fa_active (grant root rest queue st) = fa_active st + 1" by (simp add: grant_def Let_def)
  ultimately show ?thesis using ok assms(3) by (auto simp: fair_ok_def)
qed

lemma grant_waiting:
  "fa_queues st root = Some (waiter # queue) \<Longrightarrow>
     waiting st r = of_root r [(waiter, root)] @ waiting (grant root rest queue st) r"
  by (auto simp: waiting_def grant_def Let_def)

text \<open>The loop in one rule: what it does with the roots it finds at the front.\<close>

lemma drive_loop_cases:
  assumes "fair_ok limit st permits"
  obtains "drive_loop limit skipped st = Inr ([], st)" "fa_roots st = [] \<or> limit \<le> fa_active st \<or> length (fa_roots st) \<le> skipped"
  | root rest where "fa_roots st = root # rest" "fa_active st < limit" "skipped < length (fa_roots st)" "busy st root"
      "drive_loop limit skipped st = drive_loop limit (skipped + 1) (st\<lparr>fa_roots := rest @ [root]\<rparr>)"
  | root rest waiter queue where "fa_roots st = root # rest" "fa_active st < limit" "skipped < length (fa_roots st)" "\<not> busy st root"
      "fa_queues st root = Some (waiter # queue)"
      "drive_loop limit skipped st = rbind (drive_loop limit 0 (grant root rest queue st)) (\<lambda>(grants, st). Inr ((waiter, root) # grants, st))"
proof (cases "fa_roots st")
  case Nil
  then show ?thesis using that(1) by (simp add: drive_loop.simps)
next
  case (Cons root rest)
  obtain waiter queue where q: "fa_queues st root = Some (waiter # queue)" using fair_ok_queue [OF assms, of root] Cons by auto
  note unfold = drive_loop.simps [of limit skipped st, unfolded Cons list.case q option.case]
  show ?thesis
  proof (cases "fa_active st < limit \<and> skipped < length (fa_roots st)")
    case True
    show ?thesis
    proof (cases "busy st root")
      case busy: True
      show ?thesis by (rule that(2) [OF Cons]) (use True busy unfold Cons in simp_all)
    next
      case free: False
      show ?thesis by (rule that(3) [OF Cons _ _ free q]) (use True free unfold Cons in simp_all)
    qed
  next
    case False
    show ?thesis by (rule that(1)) (use False unfold Cons in auto)
  qed
qed

lemma busy_roots [simp]: "busy (st\<lparr>fa_roots := roots\<rparr>) = busy st"
  by (rule ext) (simp add: busy_def)

lemma waiting_roots [simp]: "waiting (st\<lparr>fa_roots := roots\<rparr>) = waiting st"
  by (rule ext) (simp add: waiting_def)

lemma takeWhile_before: "q \<in> set rest \<Longrightarrow> takeWhile (\<lambda>r. r \<noteq> q) (rest @ ys) = takeWhile (\<lambda>r. r \<noteq> q) rest"
  by (rule takeWhile_append1) auto

text \<open>The place of a root in the round.\<close>

definition place :: "rstring \<Rightarrow> fair_state \<Rightarrow> nat" where
  "place q st = length (takeWhile (\<lambda>r. r \<noteq> q) (fa_roots st))"

definition drives_to :: "nat \<Rightarrow> fair_state \<Rightarrow> (nat \<times> rstring) list \<Rightarrow> (nat \<times> rstring) list \<Rightarrow> fair_state \<Rightarrow> bool" where
  "drives_to limit st permits grants st' \<longleftrightarrow>
     fair_ok limit st' (permits @ grants)
     \<and> (fa_active st' = limit \<or> list_all (busy st') (fa_roots st'))
     \<and> (\<forall>r. waiting st r = of_root r grants @ waiting st' r)
     \<and> (\<forall>q. q \<in> set (fa_roots st) \<and> \<not> busy st q \<and> q \<notin> snd ` set grants \<longrightarrow> place q st' + length grants \<le> place q st)"

lemma drives_to_skip:
  assumes "drives_to limit (st\<lparr>fa_roots := rest @ [root]\<rparr>) permits grants st'" and "fa_roots st = root # rest" and "busy st root"
  shows "drives_to limit st permits grants st'"
proof -
  have moved: "place q (st\<lparr>fa_roots := rest @ [root]\<rparr>) \<le> place q st" if "q \<in> set (fa_roots st)" "\<not> busy st q" for q
    using that assms(2,3) by (auto simp: place_def takeWhile_before)
  have "place q st' + length grants \<le> place q st"
    if "q \<in> set (fa_roots st)" "\<not> busy st q" "q \<notin> snd ` set grants" for q
  proof -
    have "place q st' + length grants \<le> place q (st\<lparr>fa_roots := rest @ [root]\<rparr>)"
      using assms(1,2) that by (simp add: drives_to_def)
    also have "\<dots> \<le> place q st" using that(1,2) by (rule moved)
    finally show ?thesis .
  qed
  then show ?thesis using assms(1) by (simp add: drives_to_def)
qed

lemma drives_to_grant:
  assumes d: "drives_to limit (grant root rest queue st) (permits @ [(waiter, root)]) grants st'"
    and roots: "fa_roots st = root # rest" and queue: "fa_queues st root = Some (waiter # queue)"
  shows "drives_to limit st permits ((waiter, root) # grants) st'"
proof -
  have "place q st' + length grants < place q st" if q: "q \<in> set (fa_roots st)" "\<not> busy st q" "q \<notin> snd ` set grants" "q \<noteq> root" for q
  proof -
    have rest: "q \<in> set rest" using q roots by simp
    have "q \<in> set (fa_roots (grant root rest queue st))" "\<not> busy (grant root rest queue st) q"
      "Suc (place q (grant root rest queue st)) = place q st"
      using rest q roots by (auto simp: grant_def Let_def busy_def place_def takeWhile_before)
    then show ?thesis using d q(3) unfolding drives_to_def by fastforce
  qed
  then show ?thesis
    using d grant_waiting [OF queue, of _ rest] unfolding drives_to_def by (auto simp: Suc_le_eq)
qed

lemma drive_loop_drives:
  assumes "fair_ok limit st permits" and "skipped \<le> length (fa_roots st)"
    and "list_all (busy st) (drop (length (fa_roots st) - skipped) (fa_roots st))"
  shows "\<exists>grants st'. drive_loop limit skipped st = Inr (grants, st') \<and> drives_to limit st permits grants st'"
  using assms
proof (induction limit skipped st arbitrary: permits rule: drive_loop.induct)
  case (1 limit skipped st)
  note hyps = 1(3-5)
  show ?case
  proof (cases rule: drive_loop_cases [OF hyps(1), of skipped])
    case 1
    then have "fa_active st = limit \<or> list_all (busy st) (fa_roots st)" using hyps by (auto simp: fair_ok_def)
    with 1 hyps(1) show ?thesis by (auto simp: drives_to_def)
  next
    case (2 root rest)
    have "fair_ok limit (st\<lparr>fa_roots := rest @ [root]\<rparr>) permits" using hyps(1) 2(1) by (auto simp: fair_ok_def)
    moreover have "list_all (busy st) (drop (length rest - skipped) (rest @ [root]))"
      using hyps(3) 2 by (simp add: drop_Cons' split: if_splits)
    ultimately show ?thesis
      using 1(1) [OF 2(1) _ 2(4), of permits] 2 drives_to_skip [OF _ 2(1,4)] by fastforce
  next
    case (3 root rest waiter queue)
    have "fair_ok limit (grant root rest queue st) (permits @ [(waiter, root)])" by (rule grant_ok [OF hyps(1) 3(1,2,4,5)])
    then obtain grants st' where "drive_loop limit 0 (grant root rest queue st) = Inr (grants, st')"
        "drives_to limit (grant root rest queue st) (permits @ [(waiter, root)]) grants st'"
      using 1(2) [OF 3(1) _ 3(4,5) refl, of "permits @ [(waiter, root)]"] 3 by fastforce
    then show ?thesis using 3(6) drives_to_grant [OF _ 3(1,5)] by auto
  qed
qed

section \<open>The system\<close>

text \<open>
  \<open>acquire\<close> enters a waiter and then drives; dropping a permit returns its place and then drives. Other threads may come
  between the two critical sections, so they are separate steps, and driving is possible at any time.
\<close>

record fair_world =
  fw_state :: fair_state
  fw_permits :: "(nat \<times> rstring) list"
  fw_arrived :: "(nat \<times> rstring) list"
  fw_granted :: "(nat \<times> rstring) list"

definition fair_start :: fair_world where
  "fair_start = \<lparr>fw_state = fair_new, fw_permits = [], fw_arrived = [], fw_granted = []\<rparr>"

inductive fair_step :: "nat \<Rightarrow> fair_world \<Rightarrow> fair_world \<Rightarrow> bool" for limit where
  entered: "fair_step limit w
     (w\<lparr>fw_state := fair_enqueue root waiter (fw_state w), fw_arrived := fw_arrived w @ [(waiter, root)]\<rparr>)"
| driven: "drive limit (fw_state w) = Inr (grants, st) \<Longrightarrow> fair_step limit w
     (w\<lparr>fw_state := st, fw_permits := fw_permits w @ grants, fw_granted := fw_granted w @ grants\<rparr>)"
| dropped: "p \<in> set (fw_permits w) \<Longrightarrow> fair_release (snd p) (fw_state w) = Inr st \<Longrightarrow> fair_step limit w
     (w\<lparr>fw_state := st, fw_permits := remove1 p (fw_permits w)\<rparr>)"

definition fair_world_ok :: "nat \<Rightarrow> fair_world \<Rightarrow> bool" where
  "fair_world_ok limit w \<longleftrightarrow>
     fair_ok limit (fw_state w) (fw_permits w)
     \<and> (\<forall>root. of_root root (fw_arrived w) = of_root root (fw_granted w) @ waiting (fw_state w) root)"

lemma fair_start_ok: "fair_world_ok limit fair_start"
  by (simp add: fair_world_ok_def fair_start_def fair_new_def fair_ok_def waiting_def tracked_def)

lemma enqueue_ok: "fair_ok limit st permits \<Longrightarrow> fair_ok limit (fair_enqueue root waiter st) permits"
  by (auto simp: fair_ok_def fair_enqueue_def Let_def ran_def domIff)

lemma enqueue_waiting: "waiting (fair_enqueue root waiter st) r = waiting st r @ of_root r [(waiter, root)]"
  by (simp add: waiting_def fair_enqueue_def Let_def split: option.split)

lemma rotate_last_roots:
  assumes "fair_ok limit st permits"
  shows "fair_ok limit (rotate_last st) permits" and "waiting (rotate_last st) = waiting st" and "busy (rotate_last st) = busy st"
    and "set (fa_roots (rotate_last st)) = set (fa_roots st)"
  using assms by (auto simp: rotate_last_def fair_ok_def split: list.split)

lemma drive_drives:
  assumes "fair_ok limit st permits"
  shows "\<exists>grants st'. drive limit st = Inr (grants, st') \<and> drives_to limit (rotate_last st) permits grants st'"
  unfolding drive_def by (rule drive_loop_drives [OF rotate_last_roots(1) [OF assms]]) simp_all

lemma of_root_remove1:
  assumes "p \<in> set permits"
  shows "r \<noteq> snd p \<Longrightarrow> of_root r (remove1 p permits) = of_root r permits"
    and "Suc (length (of_root (snd p) (remove1 p permits))) = length (of_root (snd p) permits)"
proof -
  obtain ys zs where permits: "permits = ys @ p # zs" "p \<notin> set ys" using assms by (metis split_list_first)
  then have "remove1 p permits = ys @ zs" by (simp add: remove1_append)
  then show "r \<noteq> snd p \<Longrightarrow> of_root r (remove1 p permits) = of_root r permits"
    "Suc (length (of_root (snd p) (remove1 p permits))) = length (of_root (snd p) permits)"
    using permits(1) by auto
qed

lemma release_ok:
  assumes ok: "fair_ok limit st permits" and p: "p \<in> set permits"
  shows "\<exists>st'. fair_release (snd p) st = Inr st' \<and> fair_ok limit st' (remove1 p permits) \<and> waiting st' = waiting st"
proof -
  let ?n = "length (of_root (snd p) permits)"
  note removed = of_root_remove1 [OF p]
  have n: "fa_active_roots st (snd p) = Some ?n" "?n \<noteq> 0"
    using ok removed(2) by (auto simp: fair_ok_def tracked_def)
  have active: "fa_active st \<noteq> 0" using ok p by (auto simp: fair_ok_def)
  let ?st = "st\<lparr>fa_active := fa_active st - 1,
      fa_active_roots := (fa_active_roots st)(snd p := (if ?n = 1 then None else Some (?n - 1)))\<rparr>"
  have "fair_release (snd p) st = Inr ?st" using n active by (simp add: fair_release_def)
  moreover have "fa_active_roots ?st r = tracked (of_root r (remove1 p permits))" for r
  proof (cases "r = snd p")
    case True
    then show ?thesis using removed(2) by (auto simp: tracked_def)
  next
    case False
    then show ?thesis using ok removed(1) [OF False] by (simp add: fair_ok_def)
  qed
  moreover have "length (of_root r (remove1 p permits)) \<le> length (of_root r permits)" for r
    using removed(1) [of r] removed(2) by (cases "r = snd p") auto
  then have "\<forall>r. starts_with r (S ''root:'') \<longrightarrow> length (of_root r (remove1 p permits)) \<le> 1"
    using ok unfolding fair_ok_def by (meson order_trans)
  moreover have "length (remove1 p permits) = length permits - 1" using p by (simp add: length_remove1)
  ultimately show ?thesis
    using ok by (intro exI [of _ ?st]) (auto simp: fair_ok_def waiting_def fun_eq_iff)
qed

lemma fair_step_ok: "fair_step limit w w' \<Longrightarrow> fair_world_ok limit w \<Longrightarrow> fair_world_ok limit w'"
proof (induction rule: fair_step.induct)
  case (entered w root waiter)
  then show ?case by (simp add: fair_world_ok_def enqueue_ok enqueue_waiting)
next
  case (driven w grants st)
  then have "drives_to limit (rotate_last (fw_state w)) (fw_permits w) grants st" "waiting (rotate_last (fw_state w)) = waiting (fw_state w)"
    using drive_drives [of limit "fw_state w" "fw_permits w"] rotate_last_roots(2) by (auto simp: fair_world_ok_def)
  then show ?case using driven.prems by (simp add: fair_world_ok_def drives_to_def)
next
  case (dropped p w st)
  then show ?case using release_ok [of limit "fw_state w" "fw_permits w" p] by (auto simp: fair_world_ok_def)
qed

interpretation fair: step_invariant "fair_step limit" "fair_world_ok limit" for limit
  by unfold_locales (rule fair_step_ok)

lemma fair_reachable: "(fair_step limit)\<^sup>*\<^sup>* fair_start w \<Longrightarrow> fair_world_ok limit w"
  using fair.inv_steps fair_start_ok by blast

section \<open>What the scheduler promises\<close>

text \<open>
  At every moment the count of active permits is exact and within the limit, a root of a conversation
  tree holds at most one permit, and neither driving nor dropping a permit panics.
\<close>

theorem fair_capacity:
  assumes "(fair_step limit)\<^sup>*\<^sup>* fair_start w"
  shows "fa_active (fw_state w) = length (fw_permits w) \<and> length (fw_permits w) \<le> limit
     \<and> (starts_with root (S ''root:'') \<longrightarrow> length (of_root root (fw_permits w)) \<le> 1)
     \<and> isl (drive limit (fw_state w)) = False
     \<and> list_all (\<lambda>p. \<not> isl (fair_release (snd p) (fw_state w))) (fw_permits w)"
proof -
  have ok: "fair_ok limit (fw_state w) (fw_permits w)" using fair_reachable [OF assms] by (simp add: fair_world_ok_def)
  moreover have "isl (drive limit (fw_state w)) = False" using drive_drives [OF ok] by auto
  moreover have "\<not> isl (fair_release (snd p) (fw_state w))" if "p \<in> set (fw_permits w)" for p using release_ok [OF ok that] by auto
  ultimately show ?thesis by (auto simp: fair_ok_def list_all_iff)
qed

text \<open>
  Driving leaves no place unused: afterwards every permit is out, or each root that still has waiters
  already holds its permit.
\<close>

theorem fair_work_conserving:
  assumes "(fair_step limit)\<^sup>*\<^sup>* fair_start w" and "drive limit (fw_state w) = Inr (grants, st)"
  shows "fa_active st = limit \<or> list_all (busy st) (fa_roots st)"
  using drive_drives [of limit "fw_state w" "fw_permits w"] fair_reachable [OF assms(1)] assms(2)
  by (auto simp: fair_world_ok_def drives_to_def)

text \<open>
  The waiters of a root get their permits in the order of their arrival, and those that have none yet are
  the ones the root has queued: nobody is lost, served twice or out of turn.
\<close>

theorem fair_fifo:
  assumes "(fair_step limit)\<^sup>*\<^sup>* fair_start w"
  shows "of_root root (fw_arrived w) = of_root root (fw_granted w) @ waiting (fw_state w) root"
  using fair_reachable [OF assms] by (simp add: fair_world_ok_def)

text \<open>
  A root that waits, holds no permit and gets none from driving was passed over only because all
  permits are out, and each permit that was given has moved it forward by at least one place in the round.
\<close>

theorem fair_round_robin:
  assumes "(fair_step limit)\<^sup>*\<^sup>* fair_start w" and "drive limit (fw_state w) = Inr (grants, st)"
    and "root \<in> set (fa_roots (fw_state w))" and "\<not> busy (fw_state w) root" and "root \<notin> snd ` set grants"
  shows "fa_active st = limit \<and> place root st + length grants \<le> place root (rotate_last (fw_state w))"
proof -
  have ok: "fair_ok limit (fw_state w) (fw_permits w)" using fair_reachable [OF assms(1)] by (simp add: fair_world_ok_def)
  have d: "drives_to limit (rotate_last (fw_state w)) (fw_permits w) grants st" using drive_drives [OF ok] assms(2) by auto
  note rot = rotate_last_roots [OF ok]
  have place: "place root st + length grants \<le> place root (rotate_last (fw_state w))"
    using d assms(3-5) rot(3,4) by (simp add: drives_to_def)
  have none: "of_root root grants = []" using assms(5) by (force simp: of_root_def filter_empty_conv)
  have "waiting (fw_state w) root \<noteq> []" using ok assms(3) by (auto simp: fair_ok_def waiting_def ran_def split: option.split)
  then have "root \<in> set (fa_roots st)"
    using d none rot(2) by (auto simp: drives_to_def fair_ok_def waiting_def split: option.splits)
  moreover have "\<not> busy st root"
    using d none ok assms(4) by (auto simp: drives_to_def fair_ok_def busy_def tracked_def)
  ultimately show ?thesis using d place by (auto simp: drives_to_def list_all_iff)
qed

section \<open>An example\<close>

text \<open>Two requests of the root \<open>a\<close> and one of the root \<open>b\<close> wait for the only permit.\<close>

definition three_waiting :: fair_world where
  "three_waiting =
     (let st = fair_enqueue (S ''root:a'') 3 (fair_enqueue (S ''root:b'') 2 (fair_enqueue (S ''root:a'') 1 fair_new)) in
      \<lparr>fw_state = st, fw_permits = [], fw_arrived = [(1, S ''root:a''), (2, S ''root:b''), (3, S ''root:a'')], fw_granted = []\<rparr>)"

lemma three_waiting_reachable: "(fair_step limit)\<^sup>*\<^sup>* fair_start three_waiting"
proof -
  have "fair_step limit fair_start \<lparr>fw_state = fair_enqueue (S ''root:a'') 1 fair_new, fw_permits = [],
      fw_arrived = [(1, S ''root:a'')], fw_granted = []\<rparr>" (is "fair_step _ _ ?w1")
    using entered [where limit = limit and w = fair_start and root = "S ''root:a''" and waiter = 1] by (simp add: fair_start_def)
  then have "(fair_step limit)\<^sup>*\<^sup>* fair_start ?w1" by (rule r_into_rtranclp)
  moreover have "fair_step limit ?w1 \<lparr>fw_state = fair_enqueue (S ''root:b'') 2 (fair_enqueue (S ''root:a'') 1 fair_new), fw_permits = [],
      fw_arrived = [(1, S ''root:a''), (2, S ''root:b'')], fw_granted = []\<rparr>" (is "fair_step _ _ ?w2")
    using entered [where limit = limit and w = ?w1 and root = "S ''root:b''" and waiter = 2] by simp
  ultimately have "(fair_step limit)\<^sup>*\<^sup>* fair_start ?w2" by (rule rtranclp.rtrancl_into_rtrancl)
  moreover have "fair_step limit ?w2 three_waiting"
    using entered [where limit = limit and w = ?w2 and root = "S ''root:a''" and waiter = 3] by (simp add: three_waiting_def Let_def)
  ultimately show ?thesis by (rule rtranclp.rtrancl_into_rtrancl)
qed

definition first_driven :: fair_state where
  "first_driven = snd (projr (drive 1 (fw_state three_waiting)))"

lemma first_drive: "drive 1 (fw_state three_waiting) = Inr ([(1, S ''root:a'')], first_driven)"
proof -
  have "fst (projr (drive 1 (fw_state three_waiting))) = [(1, S ''root:a'')]" "\<not> isl (drive 1 (fw_state three_waiting))"
    by code_simp+
  then show ?thesis unfolding first_driven_def by (cases "drive 1 (fw_state three_waiting)") auto
qed

definition one_running :: fair_world where
  "one_running = three_waiting\<lparr>fw_state := first_driven, fw_permits := [(1, S ''root:a'')], fw_granted := [(1, S ''root:a'')]\<rparr>"

lemma one_running_reachable: "(fair_step 1)\<^sup>*\<^sup>* fair_start one_running"
proof -
  have "fair_step 1 three_waiting one_running"
    using driven [OF first_drive] by (simp add: one_running_def three_waiting_def Let_def)
  with three_waiting_reachable show ?thesis by (rule rtranclp.rtrancl_into_rtrancl)
qed

theorem fair_capacity_witness:
  "fa_active (fw_state one_running) = 1 \<and> length (of_root (S ''root:a'') (fw_permits one_running)) \<le> 1"
proof -
  have "starts_with (S ''root:a'') (S ''root:'')" by code_simp
  then show ?thesis using fair_capacity [OF one_running_reachable, of "S ''root:a''"] by (simp add: one_running_def)
qed

theorem fair_work_conserving_witness: "fa_active first_driven = 1 \<or> list_all (busy first_driven) (fa_roots first_driven)"
  using fair_work_conserving [OF three_waiting_reachable first_drive] .

theorem fair_fifo_witness: "waiting (fw_state one_running) (S ''root:a'') = [3]"
  using fair_fifo [OF one_running_reachable, of "S ''root:a''"]
  by (simp add: one_running_def three_waiting_def Let_def S_def)

theorem fair_round_robin_witness:
  "S ''root:b'' \<in> set (fa_roots (fw_state three_waiting)) \<and> \<not> busy (fw_state three_waiting) (S ''root:b'')
   \<and> place (S ''root:b'') first_driven + 1 \<le> place (S ''root:b'') (rotate_last (fw_state three_waiting))"
proof -
  have b: "S ''root:b'' \<in> set (fa_roots (fw_state three_waiting))" "\<not> busy (fw_state three_waiting) (S ''root:b'')"
    by code_simp+
  moreover have "S ''root:b'' \<notin> snd ` set [(1 :: nat, S ''root:a'')]" by (simp add: S_def)
  ultimately show ?thesis using fair_round_robin [OF three_waiting_reachable first_drive] by simp
qed

end
