(* ===== verification/Outbound_Queue.thy ===== *)
theory Outbound_Queue
  imports Call_Fingerprint Contracts
begin

text \<open>
  The queue between the producers of messages and the writer of a connection,
  \<open>src/crates/core-server/src/transport/outbound.rs\<close>. Producers never wait: a message is accepted, merged into the last queued
  one when both are pieces of one text, or the connection fails. The bytes of a message come from \<open>serde_json\<close> and are an
  argument, and so is the capacity the allocator reports for a request; what the code does under the mutex is one step. Times
  and diagnostic labels are left out. The frames the writer has taken and not yet dropped are part of the state of the system.
\<close>

section \<open>Limits and state\<close>

record outbound_limits =
  ol_data_bytes :: nat
  ol_control_bytes :: nat
  ol_frames :: nat
  ol_control_frames :: nat
  ol_merge_bytes :: nat

definition limits_default :: outbound_limits where
  "limits_default =
     \<lparr>ol_data_bytes = 8 * 1024 * 1024, ol_control_bytes = 1024 * 1024, ol_frames = 8192, ol_control_frames = 64,
      ol_merge_bytes = 64 * 1024\<rparr>"

record outbound_stats =
  os_peak_bytes :: nat
  os_peak_wire_bytes :: nat
  os_peak_oversize_bytes :: nat
  os_peak_frames :: nat
  os_merged_events :: nat
  os_accepted_events :: nat
  os_serialized_bytes :: nat

text \<open>A frame has the bytes of its vector and the capacity of the vector.\<close>

record outbound_frame =
  fr_wire :: "byte list"
  fr_capacity :: nat
  fr_delta :: "(nat \<times> nat) option"
  fr_data :: bool
  fr_oversize :: bool

record outbound_state =
  oq_queue :: "outbound_frame list"
  oq_bytes :: nat
  oq_wire_bytes :: nat
  oq_data_bytes :: nat
  oq_data_frames :: nat
  oq_senders :: nat
  oq_closed :: bool
  oq_failed :: bool
  oq_overloaded :: bool
  oq_oversize_in_use :: bool
  oq_stats :: outbound_stats

definition outbound_channel :: outbound_state where
  "outbound_channel =
     \<lparr>oq_queue = [], oq_bytes = 0, oq_wire_bytes = 0, oq_data_bytes = 0, oq_data_frames = 0, oq_senders = 1,
      oq_closed = False, oq_failed = False, oq_overloaded = False, oq_oversize_in_use = False,
      oq_stats = \<lparr>os_peak_bytes = 0, os_peak_wire_bytes = 0, os_peak_oversize_bytes = 0, os_peak_frames = 0,
                  os_merged_events = 0, os_accepted_events = 0, os_serialized_bytes = 0\<rparr>\<rparr>"

section \<open>Pieces of a text\<close>

definition get_str :: "json \<Rightarrow> string \<Rightarrow> rstring option" where
  "get_str value key = Option.bind (json_get value key) as_str"

definition is_body_delta :: "json \<Rightarrow> bool" where
  "is_body_delta value =
     (let event = (case get_str value ''method'' of
                     None \<Rightarrow> None
                   | Some name \<Rightarrow>
                       if name = S ''agent.event'' then json_get value ''params''
                       else if name = S ''agent.collaboration.observerEvent'' \<or> name = S ''agent.collaboration.childEvent''
                       then Option.bind (json_get value ''params'') (\<lambda>params. json_get params ''event'')
                       else None) in
      case Option.bind event (\<lambda>e. get_str e ''type'') of
        None \<Rightarrow> False
      | Some kind \<Rightarrow> kind \<in> set [S ''message_delta'', S ''command_output'', S ''tool_input_progress''])"

definition only_keys :: "json \<Rightarrow> string list \<Rightarrow> bool" where
  "only_keys value keys = (case as_object value of None \<Rightarrow> False | Some members \<Rightarrow> list_all (\<lambda>m. fst m \<in> set (map S keys)) members)"

definition ordinary_shape :: "json \<Rightarrow> bool" where
  "ordinary_shape value =
     (only_keys value [''jsonrpc'', ''method'', ''params'']
      \<and> get_str value ''jsonrpc'' = Some (S ''2.0'') \<and> get_str value ''method'' = Some (S ''agent.event'')
      \<and> (case json_get value ''params'' of
           None \<Rightarrow> False
         | Some params \<Rightarrow>
             get_str params ''type'' = Some (S ''message_delta'') \<and> get_str params ''runId'' \<noteq> None \<and> get_str params ''delta'' \<noteq> None
             \<and> only_keys params [''type'', ''runId'', ''streamId'', ''delta'']))"

fun find_bytes :: "byte list \<Rightarrow> byte list \<Rightarrow> nat option" where
  "find_bytes marker [] = (if marker = [] then Some 0 else None)"
| "find_bytes marker (b # bs) =
     (if take (length marker) (b # bs) = marker then Some 0 else map_option Suc (find_bytes marker bs))"

definition BACKSLASH_BYTE :: byte where "BACKSLASH_BYTE = 92"
definition QUOTE_BYTE :: byte where "QUOTE_BYTE = 34"

function closing_quote :: "byte list \<Rightarrow> nat \<Rightarrow> nat option" where
  "closing_quote wire end =
     (if end < length wire then
        if wire ! end = BACKSLASH_BYTE then closing_quote wire (end + 2)
        else if wire ! end = QUOTE_BYTE then Some end
        else closing_quote wire (end + 1)
      else None)"
  by pat_completeness auto
termination
  by (relation "measure (\<lambda>(wire, end). length wire - end)") auto

declare closing_quote.simps [simp del]

definition delta_marker :: "byte list" where
  "delta_marker = [QUOTE_BYTE] @ ascii ''delta'' @ [QUOTE_BYTE] @ ascii '':'' @ [QUOTE_BYTE]"

definition ordinary_delta_range :: "json \<Rightarrow> byte list \<Rightarrow> (nat \<times> nat) option" where
  "ordinary_delta_range value wire =
     (if \<not> ordinary_shape value then None
      else Option.bind (find_bytes delta_marker wire) (\<lambda>at.
        let start = at + length delta_marker in map_option (\<lambda>end. (start, end)) (closing_quote wire start)))"

text \<open>
  \<open>alloc c\<close> is \<open>Vec::with_capacity(c).capacity()\<close>. The result is the merged frame with the bytes and the capacity it gained.
\<close>

definition try_merge ::
  "(nat \<Rightarrow> nat) \<Rightarrow> outbound_frame \<Rightarrow> outbound_frame \<Rightarrow> nat \<Rightarrow> nat \<Rightarrow> (outbound_frame \<times> nat \<times> nat) option" where
  "try_merge alloc left right max_bytes spare =
     (case (fr_delta left, fr_delta right) of
        (Some (left_start, left_end), Some (right_start, right_end)) \<Rightarrow>
          if take left_start (fr_wire left) \<noteq> take right_start (fr_wire right)
             \<or> drop left_end (fr_wire left) \<noteq> drop right_end (fr_wire right) then None
          else
            let added = right_end - right_start; old_len = length (fr_wire left); old_capacity = fr_capacity left;
                new_len = old_len + added;
                wire = take left_end (fr_wire left) @ Prelude.slice (fr_wire right) right_start right_end @ drop left_end (fr_wire left) in
            if new_len > max_bytes \<or> new_len > old_capacity + spare then None
            else
              let capacity = (if new_len > old_capacity
                              then alloc (min (min (max (old_capacity * 2) new_len) max_bytes) (old_capacity + spare))
                              else old_capacity) in
              if new_len > old_capacity \<and> capacity > old_capacity + spare then None
              else Some (left\<lparr>fr_wire := wire, fr_capacity := capacity, fr_delta := Some (left_start, left_end + added)\<rparr>,
                         added, capacity - old_capacity)
      | _ \<Rightarrow> None)"

section \<open>Operations\<close>

definition frame_charge :: "outbound_frame \<Rightarrow> nat" where
  "frame_charge f = (if fr_oversize f then 0 else fr_capacity f)"

definition frame_wire_charge :: "outbound_frame \<Rightarrow> nat" where
  "frame_wire_charge f = (if fr_oversize f then 0 else length (fr_wire f))"

definition frame_of :: "json \<Rightarrow> byte list \<Rightarrow> outbound_frame" where
  "frame_of value wire =
     \<lparr>fr_wire = wire, fr_capacity = length wire, fr_delta = ordinary_delta_range value wire, fr_data = is_body_delta value,
      fr_oversize = False\<rparr>"

definition spare_bytes :: "outbound_limits \<Rightarrow> outbound_state \<Rightarrow> nat" where
  "spare_bytes limits st = min (ol_data_bytes limits + ol_control_bytes limits - oq_bytes st) (ol_data_bytes limits - oq_data_bytes st)"

definition merge_last :: "(nat \<Rightarrow> nat) \<Rightarrow> outbound_limits \<Rightarrow> outbound_frame \<Rightarrow> outbound_state \<Rightarrow> outbound_state option" where
  "merge_last alloc limits f st =
     (if oq_queue st = [] then None
      else case try_merge alloc (last (oq_queue st)) f (ol_merge_bytes limits) (spare_bytes limits st) of
        None \<Rightarrow> None
      | Some (merged, wire_added, capacity_added) \<Rightarrow>
          let bytes = oq_bytes st + capacity_added; wire_bytes = oq_wire_bytes st + wire_added; stats = oq_stats st in
          Some (st\<lparr>oq_queue := butlast (oq_queue st) @ [merged], oq_bytes := bytes, oq_wire_bytes := wire_bytes,
                   oq_data_bytes := oq_data_bytes st + capacity_added,
                   oq_stats := stats\<lparr>os_merged_events := os_merged_events stats + 1,
                                     os_accepted_events := os_accepted_events stats + 1,
                                     os_peak_bytes := max (os_peak_bytes stats) bytes,
                                     os_peak_wire_bytes := max (os_peak_wire_bytes stats) wire_bytes\<rparr>\<rparr>))"

definition oversized :: "outbound_limits \<Rightarrow> outbound_frame \<Rightarrow> bool" where
  "oversized limits f \<longleftrightarrow> \<not> fr_data f \<and> length (fr_wire f) > ol_data_bytes limits + ol_control_bytes limits"

definition fits :: "outbound_limits \<Rightarrow> outbound_frame \<Rightarrow> outbound_state \<Rightarrow> bool" where
  "fits limits f st =
     (let charge = (if oversized limits f then 0 else fr_capacity f) in
      length (oq_queue st) < ol_frames limits
      \<and> (\<not> fr_data f \<or> oq_data_frames st < ol_frames limits - ol_control_frames limits)
      \<and> oq_bytes st + charge \<le> ol_data_bytes limits + ol_control_bytes limits
      \<and> (\<not> fr_data f \<or> oq_data_bytes st + charge \<le> ol_data_bytes limits)
      \<and> (\<not> oversized limits f \<or> \<not> oq_oversize_in_use st))"

definition push_frame :: "outbound_limits \<Rightarrow> outbound_frame \<Rightarrow> outbound_state \<Rightarrow> outbound_state" where
  "push_frame limits f st =
     (let big = oversized limits f; size = length (fr_wire f); charge = (if big then 0 else fr_capacity f); stats = oq_stats st;
          bytes = oq_bytes st + charge; wire_bytes = oq_wire_bytes st + (if big then 0 else size);
          queue = oq_queue st @ [f\<lparr>fr_oversize := big\<rparr>] in
      st\<lparr>oq_oversize_in_use := (oq_oversize_in_use st \<or> big), oq_bytes := bytes, oq_wire_bytes := wire_bytes,
         oq_data_bytes := (if fr_data f then oq_data_bytes st + charge else oq_data_bytes st),
         oq_data_frames := (if fr_data f then oq_data_frames st + 1 else oq_data_frames st), oq_queue := queue,
         oq_stats := stats\<lparr>os_peak_oversize_bytes := (if big then max (os_peak_oversize_bytes stats) size else os_peak_oversize_bytes stats),
                           os_accepted_events := os_accepted_events stats + 1,
                           os_peak_bytes := max (os_peak_bytes stats) bytes,
                           os_peak_frames := max (os_peak_frames stats) (length queue),
                           os_peak_wire_bytes := max (os_peak_wire_bytes stats) wire_bytes\<rparr>\<rparr>)"

definition serialized :: "byte list \<Rightarrow> outbound_state \<Rightarrow> outbound_state" where
  "serialized wire st =
     (let stats = oq_stats st in st\<lparr>oq_stats := stats\<lparr>os_serialized_bytes := os_serialized_bytes stats + length wire\<rparr>\<rparr>)"

definition outbound_send :: "(nat \<Rightarrow> nat) \<Rightarrow> outbound_limits \<Rightarrow> json \<Rightarrow> byte list \<Rightarrow> outbound_state \<Rightarrow> bool \<times> outbound_state" where
  "outbound_send alloc limits value wire st =
     (if oq_closed st then (False, st)
      else
        let f = frame_of value wire; st = serialized wire st in
        case merge_last alloc limits f st of
          Some st \<Rightarrow> (True, st)
        | None \<Rightarrow>
            if fits limits f st then (True, push_frame limits f st)
            else (False, st\<lparr>oq_failed := True, oq_overloaded := True, oq_closed := True\<rparr>))"

datatype try_recv_error = TryRecvEmpty | TryRecvDisconnected

definition try_recv_frame :: "nat \<Rightarrow> outbound_state \<Rightarrow> (try_recv_error + outbound_frame) \<times> outbound_state" where
  "try_recv_frame max_bytes st =
     (case oq_queue st of
        [] \<Rightarrow> (Inl (if oq_closed st then TryRecvDisconnected else TryRecvEmpty), st)
      | f # rest \<Rightarrow>
          if length (fr_wire f) > max_bytes then (Inl TryRecvEmpty, st)
          else (Inr f, st\<lparr>oq_queue := rest, oq_bytes := oq_bytes st - frame_charge f,
                          oq_wire_bytes := oq_wire_bytes st - frame_wire_charge f,
                          oq_data_bytes := (if fr_data f then oq_data_bytes st - frame_charge f else oq_data_bytes st),
                          oq_data_frames := (if fr_data f then oq_data_frames st - 1 else oq_data_frames st)\<rparr>))"

definition drop_frame :: "outbound_frame \<Rightarrow> outbound_state \<Rightarrow> outbound_state" where
  "drop_frame f st = (if fr_oversize f then st\<lparr>oq_oversize_in_use := False\<rparr> else st)"

definition clone_sender :: "outbound_state \<Rightarrow> outbound_state" where
  "clone_sender st = st\<lparr>oq_senders := oq_senders st + 1\<rparr>"

definition drop_sender :: "outbound_state \<Rightarrow> outbound_state" where
  "drop_sender st = (let n = oq_senders st - 1 in st\<lparr>oq_senders := n, oq_closed := (oq_closed st \<or> n = 0)\<rparr>)"

definition outbound_close :: "outbound_state \<Rightarrow> outbound_state" where
  "outbound_close st = st\<lparr>oq_closed := True\<rparr>"

definition writer_failed :: "outbound_state \<Rightarrow> outbound_state" where
  "writer_failed st = st\<lparr>oq_failed := True, oq_closed := True\<rparr>"

definition drop_receiver :: "outbound_state \<Rightarrow> outbound_state" where
  "drop_receiver st =
     fold drop_frame (oq_queue st)
       (st\<lparr>oq_failed := (oq_failed st \<or> \<not> oq_closed st), oq_closed := True, oq_queue := []\<rparr>)"

section \<open>The system\<close>

text \<open>
  A message is what a producer hands over: its bytes and the range of its text. \<open>ow_accepted\<close> lists the accepted ones, and
  \<open>ow_received\<close> the frames the writer took.
\<close>

type_synonym outbound_message = "byte list \<times> (nat \<times> nat) option"

record outbound_world =
  ow_state :: outbound_state
  ow_open :: bool
  ow_taken :: "outbound_frame list"
  ow_received :: "outbound_frame list"
  ow_accepted :: "outbound_message list"

definition outbound_start :: outbound_world where
  "outbound_start = \<lparr>ow_state = outbound_channel, ow_open = True, ow_taken = [], ow_received = [], ow_accepted = []\<rparr>"

inductive outbound_step :: "(nat \<Rightarrow> nat) \<Rightarrow> outbound_limits \<Rightarrow> outbound_world \<Rightarrow> outbound_world \<Rightarrow> bool" for alloc limits where
  sent: "0 < oq_senders (ow_state w) \<Longrightarrow> outbound_send alloc limits value wire (ow_state w) = (ok, st) \<Longrightarrow>
     outbound_step alloc limits w
       (w\<lparr>ow_state := st, ow_accepted := ow_accepted w @ (if ok then [(wire, ordinary_delta_range value wire)] else [])\<rparr>)"
| received: "ow_open w \<Longrightarrow> try_recv_frame max_bytes (ow_state w) = (Inr f, st) \<Longrightarrow>
     outbound_step alloc limits w (w\<lparr>ow_state := st, ow_taken := ow_taken w @ [f], ow_received := ow_received w @ [f]\<rparr>)"
| written: "f \<in> set (ow_taken w) \<Longrightarrow>
     outbound_step alloc limits w (w\<lparr>ow_state := drop_frame f (ow_state w), ow_taken := remove1 f (ow_taken w)\<rparr>)"
| cloned: "0 < oq_senders (ow_state w) \<Longrightarrow> outbound_step alloc limits w (w\<lparr>ow_state := clone_sender (ow_state w)\<rparr>)"
| sender_dropped: "0 < oq_senders (ow_state w) \<Longrightarrow> outbound_step alloc limits w (w\<lparr>ow_state := drop_sender (ow_state w)\<rparr>)"
| closed: "outbound_step alloc limits w (w\<lparr>ow_state := outbound_close (ow_state w)\<rparr>)"
| write_failed: "outbound_step alloc limits w (w\<lparr>ow_state := writer_failed (ow_state w)\<rparr>)"
| receiver_dropped: "ow_open w \<Longrightarrow> outbound_step alloc limits w (w\<lparr>ow_state := drop_receiver (ow_state w), ow_open := False\<rparr>)"

section \<open>Accounting\<close>

text \<open>What \<open>Vec::with_capacity\<close> promises.\<close>

definition allocates :: "(nat \<Rightarrow> nat) \<Rightarrow> bool" where
  "allocates alloc \<longleftrightarrow> (\<forall>c. c \<le> alloc c)"

definition frame_ok :: "outbound_frame \<Rightarrow> bool" where
  "frame_ok f \<longleftrightarrow>
     length (fr_wire f) \<le> fr_capacity f \<and> (fr_data f \<longrightarrow> \<not> fr_oversize f)
     \<and> (case fr_delta f of None \<Rightarrow> True | Some (start, stop) \<Rightarrow> start \<le> stop \<and> stop \<le> length (fr_wire f) \<and> fr_data f)"

lemma closing_quote_Some: "closing_quote wire start = Some stop \<Longrightarrow> start \<le> stop \<and> stop < length wire"
proof (induction wire start rule: closing_quote.induct)
  case (1 wire start)
  show ?case
    using 1(3) 1(1,2) by (subst (asm) closing_quote.simps) (fastforce split: if_splits)
qed

lemma ordinary_delta_range_Some:
  assumes "ordinary_delta_range v wire = Some (start, stop)"
  shows "start \<le> stop" and "stop \<le> length wire" and "is_body_delta v"
proof -
  show "start \<le> stop" "stop \<le> length wire"
    using assms closing_quote_Some by (auto simp: ordinary_delta_range_def Let_def Option.bind_eq_Some_conv split: if_splits dest: less_imp_le)
  have "ordinary_shape v" using assms by (auto simp: ordinary_delta_range_def split: if_splits)
  then show "is_body_delta v"
    by (auto simp: ordinary_shape_def is_body_delta_def get_str_def split: option.splits)
qed

lemma frame_of_ok: "frame_ok (frame_of v wire)"
proof (cases "ordinary_delta_range v wire")
  case (Some r)
  then show ?thesis
    using ordinary_delta_range_Some [of v wire "fst r" "snd r"] by (cases r) (simp add: frame_ok_def frame_of_def)
qed (simp add: frame_ok_def frame_of_def)

definition queue_counts :: "outbound_state \<Rightarrow> bool" where
  "queue_counts st \<longleftrightarrow>
     oq_bytes st = sum_list (map frame_charge (oq_queue st)) \<and> oq_wire_bytes st = sum_list (map frame_wire_charge (oq_queue st))
     \<and> oq_data_bytes st = sum_list (map frame_charge (filter fr_data (oq_queue st)))
     \<and> oq_data_frames st = length (filter fr_data (oq_queue st))"

definition queue_within :: "outbound_limits \<Rightarrow> outbound_state \<Rightarrow> bool" where
  "queue_within limits st \<longleftrightarrow>
     oq_bytes st \<le> ol_data_bytes limits + ol_control_bytes limits \<and> oq_data_bytes st \<le> ol_data_bytes limits
     \<and> length (oq_queue st) \<le> ol_frames limits \<and> oq_data_frames st \<le> ol_frames limits - ol_control_frames limits"

definition one_lease :: "outbound_state \<Rightarrow> outbound_frame list \<Rightarrow> bool" where
  "one_lease st taken \<longleftrightarrow> length (filter fr_oversize (oq_queue st @ taken)) = (if oq_oversize_in_use st then 1 else 0)"

definition outbound_ok :: "outbound_limits \<Rightarrow> outbound_world \<Rightarrow> bool" where
  "outbound_ok limits w \<longleftrightarrow>
     queue_within limits (ow_state w) \<and> list_all frame_ok (oq_queue (ow_state w)) \<and> one_lease (ow_state w) (ow_taken w)
     \<and> (if ow_open w then queue_counts (ow_state w) else oq_closed (ow_state w) \<and> oq_queue (ow_state w) = [])"

subsection \<open>Merging\<close>

lemma if_None_SomeD:
  assumes "t = (if b then None else Some x)" and "t = Some y"
  shows "\<not> b" and "x = y"
  using assms by (auto split: if_splits)

lemma try_merge_Some:
  assumes "try_merge alloc left right max_bytes spare = Some (merged, added, gained)"
  obtains ls le rs re where "fr_delta left = Some (ls, le)" and "fr_delta right = Some (rs, re)"
    and "take ls (fr_wire left) = take rs (fr_wire right)" and "drop le (fr_wire left) = drop re (fr_wire right)"
    and "fr_wire merged = take le (fr_wire left) @ Prelude.slice (fr_wire right) rs re @ drop le (fr_wire left)"
    and "fr_delta merged = Some (ls, le + (re - rs))" and "added = re - rs"
    and "fr_data merged = fr_data left" and "fr_oversize merged = fr_oversize left"
    and "fr_capacity merged \<le> fr_capacity left + spare" and "gained = fr_capacity merged - fr_capacity left"
    and "length (fr_wire left) + added \<le> max_bytes"
    and "fr_capacity merged = fr_capacity left \<and> length (fr_wire left) + added \<le> fr_capacity left
      \<or> fr_capacity left < length (fr_wire left) + added
        \<and> (\<exists>c. fr_capacity merged = alloc c \<and> length (fr_wire left) + added \<le> c)"
proof -
  obtain ls le rs re where d: "fr_delta left = Some (ls, le)" "fr_delta right = Some (rs, re)"
    using assms by (cases "fr_delta left"; cases "fr_delta right") (auto simp: try_merge_def)
  let ?new = "length (fr_wire left) + (re - rs)" and ?room = "fr_capacity left + spare"
  let ?want = "min (min (max (fr_capacity left * 2) ?new) max_bytes) ?room"
  let ?grown = "fr_capacity left < ?new"
  let ?cap = "if ?grown then alloc ?want else fr_capacity left"
  let ?merged = "left\<lparr>fr_wire := take le (fr_wire left) @ Prelude.slice (fr_wire right) rs re @ drop le (fr_wire left),
    fr_capacity := ?cap, fr_delta := Some (ls, le + (re - rs))\<rparr>"
  let ?same = "take ls (fr_wire left) = take rs (fr_wire right) \<and> drop le (fr_wire left) = drop re (fr_wire right)"
  let ?bad = "\<not> ?same \<or> ?new > max_bytes \<or> ?new > ?room \<or> ?grown \<and> ?cap > ?room"
  have "try_merge alloc left right max_bytes spare = (if ?bad then None else Some (?merged, re - rs, ?cap - fr_capacity left))"
    by (simp add: try_merge_def d Let_def)
  note merge = if_None_SomeD [OF this assms]
  have same: ?same and fit: "?new \<le> max_bytes" "?new \<le> ?room" "\<not> (?grown \<and> ?cap > ?room)"
    using merge(1) by linarith+
  have m: "merged = ?merged" "added = re - rs" "gained = ?cap - fr_capacity left"
    using merge(2) by - (elim Pair_inject, rule sym, assumption)+
  have "?new \<le> ?want" using fit by simp
  then show thesis using same fit by (intro that [OF d]) (auto simp: m)
qed

lemma try_merge_ok:
  assumes merge: "try_merge alloc left right max_bytes spare = Some (merged, added, gained)"
    and "frame_ok left" and "frame_ok right" and "allocates alloc"
  shows "frame_ok merged" and "fr_data left" and "fr_data merged" and "\<not> fr_oversize left" and "\<not> fr_oversize merged"
    and "fr_capacity merged = fr_capacity left + gained" and "length (fr_wire merged) = length (fr_wire left) + added"
    and "gained \<le> spare"
proof -
  from merge obtain ls le rs re where d: "fr_delta left = Some (ls, le)" "fr_delta right = Some (rs, re)"
    and w: "fr_wire merged = take le (fr_wire left) @ Prelude.slice (fr_wire right) rs re @ drop le (fr_wire left)"
    and m: "fr_delta merged = Some (ls, le + (re - rs))" "added = re - rs"
      "fr_data merged = fr_data left" "fr_oversize merged = fr_oversize left"
    and c: "fr_capacity merged \<le> fr_capacity left + spare" "gained = fr_capacity merged - fr_capacity left"
      "fr_capacity merged = fr_capacity left \<and> length (fr_wire left) + added \<le> fr_capacity left
        \<or> fr_capacity left < length (fr_wire left) + added
          \<and> (\<exists>c. fr_capacity merged = alloc c \<and> length (fr_wire left) + added \<le> c)"
    by (rule try_merge_Some) blast
  have l: "ls \<le> le" "le \<le> length (fr_wire left)" "fr_data left" "\<not> fr_oversize left" and r: "rs \<le> re" "re \<le> length (fr_wire right)"
    using assms(2,3) d by (simp_all add: frame_ok_def)
  have cap1: "length (fr_wire left) + added \<le> fr_capacity merged"
    using c(3) \<open>allocates alloc\<close> unfolding allocates_def by (auto intro: order_trans)
  then have cap: "length (fr_wire left) + added \<le> fr_capacity merged" "fr_capacity left \<le> fr_capacity merged" using c(3) by auto
  show len: "length (fr_wire merged) = length (fr_wire left) + added" using l r by (simp add: w m(2) Prelude.slice_def)
  show "fr_data left" "fr_data merged" "\<not> fr_oversize left" "\<not> fr_oversize merged" using l m by simp_all
  show "fr_capacity merged = fr_capacity left + gained" "gained \<le> spare" using c cap by simp_all
  show "frame_ok merged" using l m cap len by (simp add: frame_ok_def)
qed

lemma merge_last_ok:
  assumes merge: "merge_last alloc limits f st = Some st'" and "frame_ok f" and "allocates alloc"
    and frames: "list_all frame_ok (oq_queue st)" and within: "queue_within limits st" and counts: "queue_counts st"
  shows "list_all frame_ok (oq_queue st')" and "queue_within limits st'" and "queue_counts st'"
    and "filter fr_oversize (oq_queue st') = filter fr_oversize (oq_queue st)" and "oq_oversize_in_use st' = oq_oversize_in_use st"
proof -
  from merge obtain init left where q: "oq_queue st = init @ [left]"
    by (cases "oq_queue st" rule: rev_cases) (simp_all add: merge_last_def)
  with merge obtain merged added gained
    where t: "try_merge alloc left f (ol_merge_bytes limits) (spare_bytes limits st) = Some (merged, added, gained)"
      and st': "oq_queue st' = init @ [merged]" "oq_bytes st' = oq_bytes st + gained" "oq_wire_bytes st' = oq_wire_bytes st + added"
        "oq_data_bytes st' = oq_data_bytes st + gained" "oq_data_frames st' = oq_data_frames st"
        "oq_oversize_in_use st' = oq_oversize_in_use st"
    by (auto simp: merge_last_def Let_def split: option.splits)
  have "frame_ok left" using frames q by simp
  note ok = try_merge_ok [OF t this \<open>frame_ok f\<close> \<open>allocates alloc\<close>]
  show "list_all frame_ok (oq_queue st')" using frames ok(1) by (simp add: q st')
  show "queue_within limits st'" using within ok(8) by (auto simp: queue_within_def st' q spare_bytes_def)
  show "queue_counts st'" using counts ok by (simp add: queue_counts_def st' q frame_charge_def frame_wire_charge_def)
  show "filter fr_oversize (oq_queue st') = filter fr_oversize (oq_queue st)" using ok by (simp add: st' q)
qed (use merge in \<open>auto simp: merge_last_def Let_def split: if_splits option.splits\<close>)

lemma push_frame_ok:
  assumes "fits limits f st" and f: "frame_ok f" "\<not> fr_oversize f" and "list_all frame_ok (oq_queue st)" and "queue_within limits st"
    and "queue_counts st" and "one_lease st taken"
  shows "list_all frame_ok (oq_queue (push_frame limits f st))" and "queue_within limits (push_frame limits f st)"
    and "queue_counts (push_frame limits f st)" and "one_lease (push_frame limits f st) taken"
proof -
  have q: "oq_queue (push_frame limits f st) = oq_queue st @ [f\<lparr>fr_oversize := oversized limits f\<rparr>]"
    by (simp add: push_frame_def Let_def)
  show "list_all frame_ok (oq_queue (push_frame limits f st))"
    using assms by (auto simp: q frame_ok_def oversized_def split: option.splits)
  show "queue_within limits (push_frame limits f st)"
    using assms by (cases "oversized limits f"; cases "fr_data f") (auto simp: queue_within_def fits_def push_frame_def Let_def)
  show "queue_counts (push_frame limits f st)"
    using assms by (simp add: queue_counts_def push_frame_def Let_def frame_charge_def frame_wire_charge_def)
  show "one_lease (push_frame limits f st) taken"
    using assms by (cases "oversized limits f") (auto simp: one_lease_def fits_def push_frame_def Let_def)
qed

lemma try_recv_frame_ok:
  assumes "try_recv_frame max_bytes st = (Inr f, st')" and "list_all frame_ok (oq_queue st)" and "queue_within limits st"
    and "queue_counts st" and "one_lease st taken"
  shows "list_all frame_ok (oq_queue st')" and "queue_within limits st'" and "queue_counts st'" and "one_lease st' (taken @ [f])"
    and "oq_queue st = f # oq_queue st'" and "oq_closed st' = oq_closed st"
proof -
  show q: "oq_queue st = f # oq_queue st'" and "oq_closed st' = oq_closed st"
    using assms(1) by (auto simp: try_recv_frame_def split: list.splits if_splits)
  obtain rest where "oq_queue st = f # rest" "try_recv_frame max_bytes st = (Inr f, st')"
    using assms(1) q by simp
  then have st': "oq_bytes st' = oq_bytes st - frame_charge f" "oq_wire_bytes st' = oq_wire_bytes st - frame_wire_charge f"
    "oq_data_bytes st' = (if fr_data f then oq_data_bytes st - frame_charge f else oq_data_bytes st)"
    "oq_data_frames st' = (if fr_data f then oq_data_frames st - 1 else oq_data_frames st)"
    "oq_oversize_in_use st' = oq_oversize_in_use st"
    unfolding try_recv_frame_def by (auto split: if_splits)
  show "list_all frame_ok (oq_queue st')" using assms(2) q by simp
  show "queue_within limits st'" using assms(3) q by (auto simp: queue_within_def st')
  show "queue_counts st'" using assms(4) q by (simp add: queue_counts_def st')
  show "one_lease st' (taken @ [f])" using assms(5) q by (auto simp: one_lease_def st' split: if_splits)
qed

lemma send_cases:
  assumes "outbound_send alloc limits v wire st = (ok, st')"
  obtains (closed) "oq_closed st" "\<not> ok" "st' = st"
  | (merged) "\<not> oq_closed st" ok "merge_last alloc limits (frame_of v wire) (serialized wire st) = Some st'"
  | (pushed) "\<not> oq_closed st" ok "merge_last alloc limits (frame_of v wire) (serialized wire st) = None"
      "fits limits (frame_of v wire) (serialized wire st)" "st' = push_frame limits (frame_of v wire) (serialized wire st)"
  | (failed) "\<not> oq_closed st" "\<not> ok" "st' = (serialized wire st)\<lparr>oq_failed := True, oq_overloaded := True, oq_closed := True\<rparr>"
proof (cases "oq_closed st")
  case True
  with assms show thesis by (intro that(1)) (simp_all add: outbound_send_def)
next
  case unclosed: False
  let ?m = "merge_last alloc limits (frame_of v wire) (serialized wire st)"
  show thesis
  proof (cases ?m)
    case (Some t)
    with unclosed assms show thesis by (intro that(2)) (simp_all add: outbound_send_def Let_def)
  next
    case None
    show thesis
    proof (cases "fits limits (frame_of v wire) (serialized wire st)")
      case True
      with None unclosed assms show thesis by (intro that(3)) (simp_all add: outbound_send_def Let_def)
    next
      case False
      with None unclosed assms show thesis by (intro that(4)) (simp_all add: outbound_send_def Let_def)
    qed
  qed
qed

lemma serialized_simps [simp]:
  "oq_queue (serialized wire st) = oq_queue st" "oq_closed (serialized wire st) = oq_closed st"
  "oq_oversize_in_use (serialized wire st) = oq_oversize_in_use st" "oq_bytes (serialized wire st) = oq_bytes st"
  "oq_data_bytes (serialized wire st) = oq_data_bytes st" "oq_data_frames (serialized wire st) = oq_data_frames st"
  "oq_wire_bytes (serialized wire st) = oq_wire_bytes st"
  by (simp_all add: serialized_def Let_def)

lemma send_ok:
  assumes send: "outbound_send alloc limits v wire st = (ok, st')" and "allocates alloc" and "list_all frame_ok (oq_queue st)"
    and "queue_within limits st" and "queue_counts st" and "one_lease st taken"
  shows "list_all frame_ok (oq_queue st') \<and> queue_within limits st' \<and> queue_counts st' \<and> one_lease st' taken"
proof -
  let ?f = "frame_of v wire" and ?st = "serialized wire st"
  have st1: "list_all frame_ok (oq_queue ?st)" "queue_within limits ?st" "queue_counts ?st" "one_lease ?st taken"
    using assms(3-6) by (simp_all add: queue_within_def queue_counts_def one_lease_def)
  have f: "frame_ok ?f" "\<not> fr_oversize ?f" by (simp_all add: frame_of_ok) (simp add: frame_of_def)
  from send show ?thesis
  proof (cases rule: send_cases)
    case closed
    with assms(3-6) show ?thesis by simp
  next
    case merged
    note merge_last_ok [OF merged(3) f(1) \<open>allocates alloc\<close> st1(1-3)]
    then show ?thesis using st1(4) by (simp add: one_lease_def)
  next
    case pushed
    with push_frame_ok [OF pushed(4) f st1] show ?thesis by simp
  next
    case failed
    with st1 show ?thesis by (simp add: queue_within_def queue_counts_def one_lease_def)
  qed
qed

lemma send_closed: "oq_closed st \<Longrightarrow> outbound_send alloc limits v wire st = (False, st)"
  by (simp add: outbound_send_def)

lemma fold_drop_frame:
  "fold drop_frame fs st = st\<lparr>oq_oversize_in_use := (oq_oversize_in_use st \<and> filter fr_oversize fs = [])\<rparr>"
  by (induction fs arbitrary: st) (simp_all add: drop_frame_def)

lemma outbound_start_ok: "outbound_ok limits outbound_start"
  by (simp add: outbound_ok_def outbound_start_def outbound_channel_def queue_within_def queue_counts_def one_lease_def)

lemmas outbound_ok_defs = outbound_ok_def queue_within_def queue_counts_def one_lease_def

lemma filter_remove1_oversize:
  "f \<in> set xs \<Longrightarrow> length (filter fr_oversize (remove1 f xs)) = length (filter fr_oversize xs) - (if fr_oversize f then 1 else 0)"
  by (simp add: filter_remove1 length_remove1)

lemma outbound_step_ok: "outbound_step alloc limits w w' \<Longrightarrow> allocates alloc \<Longrightarrow> outbound_ok limits w \<Longrightarrow> outbound_ok limits w'"
proof (induction rule: outbound_step.induct)
  case (sent w v wire ok st)
  show ?case
  proof (cases "ow_open w")
    case True
    with sent send_ok [OF sent(2,3), of "ow_taken w"] show ?thesis by (simp add: outbound_ok_def)
  next
    case False
    with sent have "st = ow_state w" by (simp add: outbound_ok_def send_closed)
    with sent show ?thesis by (simp add: outbound_ok_def)
  qed
next
  case (received w max_bytes f st)
  with try_recv_frame_ok [OF received(2)] show ?case by (auto simp: outbound_ok_def)
next
  case (written f w)
  then have "one_lease (drop_frame f (ow_state w)) (remove1 f (ow_taken w))"
    using length_pos_if_in_set [of f "filter fr_oversize (ow_taken w)"]
    by (auto simp: outbound_ok_def one_lease_def drop_frame_def filter_remove1_oversize split: if_splits)
      (cases "filter fr_oversize (ow_taken w)"; simp)
  with written show ?case by (cases "ow_open w") (simp_all add: outbound_ok_def queue_within_def queue_counts_def drop_frame_def)
next
  case (receiver_dropped w)
  then have "one_lease (drop_receiver (ow_state w)) (ow_taken w)"
    by (auto simp: outbound_ok_def one_lease_def drop_receiver_def fold_drop_frame split: if_splits)
      (cases "filter fr_oversize (oq_queue (ow_state w))"; simp)
  with receiver_dropped show ?case by (simp add: outbound_ok_def queue_within_def drop_receiver_def fold_drop_frame)
qed (auto simp: outbound_ok_defs clone_sender_def drop_sender_def outbound_close_def writer_failed_def Let_def)

interpretation outbound: step_invariant "outbound_step alloc limits" "\<lambda>w. allocates alloc \<longrightarrow> outbound_ok limits w" for alloc limits
  by unfold_locales (blast intro: outbound_step_ok)

lemma outbound_reachable: "(outbound_step alloc limits)\<^sup>*\<^sup>* outbound_start w \<Longrightarrow> allocates alloc \<Longrightarrow> outbound_ok limits w"
  using outbound.inv_steps outbound_start_ok by blast

section \<open>Order\<close>

text \<open>
  A frame carries a group of messages when it is the only one of the group, or when they are pieces of one text: all have
  the bytes around the text of the first, and the frame has these bytes around the concatenation of their texts.
\<close>

definition piece_text :: "outbound_message \<Rightarrow> byte list" where
  "piece_text m = (case snd m of None \<Rightarrow> [] | Some (start, stop) \<Rightarrow> Prelude.slice (fst m) start stop)"

definition same_around :: "byte list \<Rightarrow> byte list \<Rightarrow> outbound_message \<Rightarrow> bool" where
  "same_around before after m =
     (case snd m of None \<Rightarrow> False | Some (start, stop) \<Rightarrow> take start (fst m) = before \<and> drop stop (fst m) = after)"

definition carries :: "outbound_frame \<Rightarrow> outbound_message list \<Rightarrow> bool" where
  "carries f msgs =
     (case msgs of
        [] \<Rightarrow> False
      | (wire, None) # rest \<Rightarrow> rest = [] \<and> fr_wire f = wire \<and> fr_delta f = None
      | (wire, Some (start, stop)) # rest \<Rightarrow>
          start \<le> stop \<and> stop \<le> length wire \<and> list_all (same_around (take start wire) (drop stop wire)) msgs
          \<and> fr_wire f = take start wire @ concat (map piece_text msgs) @ drop stop wire
          \<and> fr_delta f = Some (start, start + length (concat (map piece_text msgs))))"

definition message_of :: "json \<Rightarrow> byte list \<Rightarrow> outbound_message" where
  "message_of v wire = (wire, ordinary_delta_range v wire)"

lemma take_slice_drop: "start \<le> stop \<Longrightarrow> stop \<le> length xs \<Longrightarrow> take start xs @ Prelude.slice xs start stop @ drop stop xs = xs"
  by (simp add: Prelude.slice_def) (metis append_take_drop_id drop_take take_add le_add_diff_inverse append_assoc)

lemma carries_frame_of: "carries (frame_of v wire) [message_of v wire]"
proof (cases "ordinary_delta_range v wire")
  case None
  then show ?thesis by (simp add: carries_def frame_of_def message_of_def)
next
  case (Some r)
  obtain start stop where r: "r = (start, stop)" by (cases r)
  note bounds = ordinary_delta_range_Some [OF Some [unfolded r]]
  then show ?thesis
    by (simp add: carries_def frame_of_def message_of_def Some r same_around_def piece_text_def take_slice_drop)
      (simp add: Prelude.slice_def)
qed

lemma carries_oversize [simp]: "carries (f\<lparr>fr_oversize := b\<rparr>) msgs = carries f msgs"
  by (simp add: carries_def split: list.split prod.split option.split)

lemma carries_merge:
  assumes "carries left msgs" and "try_merge alloc left (frame_of v wire) max_bytes spare = Some (merged, added, gained)"
  shows "carries merged (msgs @ [message_of v wire])"
proof -
  from assms(2) obtain ls le rs re where d: "fr_delta left = Some (ls, le)" "fr_delta (frame_of v wire) = Some (rs, re)"
    and around: "take ls (fr_wire left) = take rs (fr_wire (frame_of v wire))" "drop le (fr_wire left) = drop re (fr_wire (frame_of v wire))"
    and m: "fr_wire merged = take le (fr_wire left) @ Prelude.slice (fr_wire (frame_of v wire)) rs re @ drop le (fr_wire left)"
      "fr_delta merged = Some (ls, le + (re - rs))"
    by (rule try_merge_Some) blast
  have right: "ordinary_delta_range v wire = Some (rs, re)" using d by (simp add: frame_of_def)
  note bounds = ordinary_delta_range_Some [OF this]
  from assms(1) d obtain w1 s1 e1 rest where msgs: "msgs = (w1, Some (s1, e1)) # rest"
    by (auto simp: carries_def split: list.splits option.splits)
  let ?text = "concat (map piece_text msgs)"
  have c: "s1 \<le> e1" "e1 \<le> length w1" "list_all (same_around (take s1 w1) (drop e1 w1)) msgs"
      "fr_wire left = take s1 w1 @ ?text @ drop e1 w1" "ls = s1" "le = s1 + length ?text"
    using assms(1) d by (simp_all add: carries_def msgs)
  have parts: "take ls (fr_wire left) = take s1 w1" "drop le (fr_wire left) = drop e1 w1" "take le (fr_wire left) = take s1 w1 @ ?text"
    using c(1,2) by (simp_all add: c(4-6) min_absorb2)
  have new: "piece_text (message_of v wire) = Prelude.slice wire rs re" "length (Prelude.slice wire rs re) = re - rs"
      "same_around (take s1 w1) (drop e1 w1) (message_of v wire)"
    using around parts bounds by (simp_all add: piece_text_def message_of_def right same_around_def frame_of_def Prelude.slice_def)
  have "fr_wire merged = take s1 w1 @ concat (map piece_text (msgs @ [message_of v wire])) @ drop e1 w1"
    by (simp add: m(1) parts new(1)) (simp add: frame_of_def)
  moreover have "fr_delta merged = Some (s1, s1 + length (concat (map piece_text (msgs @ [message_of v wire]))))"
    using new by (simp add: m(2) c(5,6))
  ultimately show ?thesis using c(1-3) new(3) by (simp add: carries_def msgs)
qed

definition carried :: "outbound_world \<Rightarrow> bool" where
  "carried w \<longleftrightarrow>
     (\<exists>groups lost. list_all2 carries (ow_received w @ oq_queue (ow_state w)) groups \<and> ow_accepted w = concat groups @ lost
        \<and> (ow_open w \<longrightarrow> lost = []))"

lemma send_carried:
  assumes send: "outbound_send alloc limits v wire st = (ok, st')" and groups: "list_all2 carries (received @ oq_queue st) groups"
  shows "\<exists>groups'. list_all2 carries (received @ oq_queue st') groups'
    \<and> concat groups' = concat groups @ (if ok then [message_of v wire] else [])"
  using send
proof (cases rule: send_cases)
  case merged
  then obtain init left where q: "oq_queue st = init @ [left]"
    by (cases "oq_queue st" rule: rev_cases) (simp_all add: merge_last_def)
  with merged(3) obtain new added gained
    where t: "try_merge alloc left (frame_of v wire) (ol_merge_bytes limits) (spare_bytes limits (serialized wire st)) = Some (new, added, gained)"
      and st': "oq_queue st' = init @ [new]"
    by (auto simp: merge_last_def Let_def split: option.splits)
  have "list_all2 carries ((received @ init) @ [left]) groups" using groups q by simp
  then obtain gs last where "groups = gs @ last" "list_all2 carries (received @ init) gs" "list_all2 carries [left] last"
    unfolding list_all2_append1 [of carries "received @ init"] by blast
  then obtain g where gs: "groups = gs @ [g]" "list_all2 carries (received @ init) gs" "carries left g"
    by (auto simp: list_all2_Cons1)
  have "list_all2 carries (received @ oq_queue st') (gs @ [g @ [message_of v wire]])"
    using gs(2) carries_merge [OF gs(3) t] list_all2_appendI [OF gs(2), of "[new]" "[g @ [message_of v wire]]"] by (simp add: st')
  with merged gs(1) show ?thesis by (intro exI [of _ "gs @ [g @ [message_of v wire]]"]) simp
next
  case pushed
  then have "list_all2 carries (received @ oq_queue st') (groups @ [[message_of v wire]])"
    using list_all2_appendI [OF groups, of "[(frame_of v wire)\<lparr>fr_oversize := oversized limits (frame_of v wire)\<rparr>]" "[[message_of v wire]]"]
    by (simp add: push_frame_def Let_def carries_frame_of)
  with pushed show ?thesis by (intro exI [of _ "groups @ [[message_of v wire]]"]) simp
qed (use groups in auto)

lemma carried_step: "outbound_step alloc limits w w' \<Longrightarrow> outbound_ok limits w \<Longrightarrow> carried w \<Longrightarrow> carried w'"
proof (induction rule: outbound_step.induct)
  case (sent w v wire ok st)
  then obtain groups lost where g: "list_all2 carries (ow_received w @ oq_queue (ow_state w)) groups"
    "ow_accepted w = concat groups @ lost" "ow_open w \<longrightarrow> lost = []" by (auto simp: carried_def)
  show ?case
  proof (cases "ow_open w")
    case True
    with send_carried [OF sent(2) g(1)] g show ?thesis by (auto simp: carried_def message_of_def)
  next
    case False
    with sent have "st = ow_state w" "\<not> ok" by (simp_all add: outbound_ok_def send_closed)
    with g False show ?thesis by (auto simp: carried_def)
  qed
next
  case (received w max_bytes f st)
  then have "oq_queue (ow_state w) = f # oq_queue st"
    by (auto simp: try_recv_frame_def split: list.splits if_splits)
  with received show ?case by (simp add: carried_def)
next
  case (receiver_dropped w)
  then obtain groups where g: "list_all2 carries (ow_received w @ oq_queue (ow_state w)) groups" "ow_accepted w = concat groups"
    by (auto simp: carried_def)
  let ?n = "length (ow_received w)"
  have "list_all2 carries (ow_received w) (take ?n groups)" using list_all2_takeI [OF g(1), of ?n] by simp
  moreover have "ow_accepted w = concat (take ?n groups) @ concat (drop ?n groups)"
    by (simp add: g(2) flip: concat_append)
  ultimately show ?case by (auto simp: carried_def drop_receiver_def fold_drop_frame)
qed (auto simp: carried_def drop_frame_def clone_sender_def drop_sender_def outbound_close_def writer_failed_def Let_def)

interpretation deliveries: step_invariant "outbound_step alloc limits"
  "\<lambda>w. allocates alloc \<longrightarrow> outbound_ok limits w \<and> carried w" for alloc limits
  by unfold_locales (blast intro: outbound_step_ok carried_step)

lemma start_carried: "carried outbound_start"
  by (simp add: carried_def outbound_start_def outbound_channel_def)

section \<open>Properties\<close>

text \<open>
  C25: in every state the queue can reach, whatever the producers, the writer and the connection do, the
  frames the writer took, followed by the queued ones, carry the accepted messages in order and each once: a frame is one message,
  or the pieces of one text that were accepted one after the other, with all bytes around the text the same and their
  texts joined. Only when the receiver is dropped are the messages still queued lost.
\<close>

theorem outbound_order:
  assumes "(outbound_step alloc limits)\<^sup>*\<^sup>* outbound_start w" and "allocates alloc"
  shows "\<exists>groups lost. list_all2 carries (ow_received w @ oq_queue (ow_state w)) groups
     \<and> ow_accepted w = concat groups @ lost \<and> (ow_open w \<longrightarrow> lost = [])"
  using deliveries.inv_steps [OF assms(1)] assms(2) outbound_start_ok start_carried by (simp add: carried_def)

text \<open>
  In every reachable state with an open receiver the counters of the queue are exact: the capacity,
  the bytes and the data frames it holds are the ones counted, so no subtraction when a frame is taken underflows. The capacity of the queue, of
  the data in it, its length and the number of data frames keep to their limits, and at most one frame, queued or being written, is larger
  than the whole queue may be.
\<close>

theorem outbound_bounded:
  assumes "(outbound_step alloc limits)\<^sup>*\<^sup>* outbound_start w" and "allocates alloc" and "ow_open w"
  shows "oq_bytes (ow_state w) = sum_list (map frame_charge (oq_queue (ow_state w)))
    \<and> oq_wire_bytes (ow_state w) = sum_list (map frame_wire_charge (oq_queue (ow_state w)))
    \<and> oq_data_bytes (ow_state w) = sum_list (map frame_charge (filter fr_data (oq_queue (ow_state w))))
    \<and> oq_data_frames (ow_state w) = length (filter fr_data (oq_queue (ow_state w)))
    \<and> oq_bytes (ow_state w) \<le> ol_data_bytes limits + ol_control_bytes limits
    \<and> oq_data_bytes (ow_state w) \<le> ol_data_bytes limits
    \<and> length (oq_queue (ow_state w)) \<le> ol_frames limits
    \<and> oq_data_frames (ow_state w) \<le> ol_frames limits - ol_control_frames limits
    \<and> length (filter fr_oversize (oq_queue (ow_state w) @ ow_taken w)) \<le> 1"
  using outbound_reachable [OF assms(1,2)] assms(3)
  by (auto simp: outbound_ok_def queue_counts_def queue_within_def one_lease_def split: if_splits)

lemma sum_filter_split: "sum_list (map f xs) = sum_list (map f (filter P xs)) + sum_list (map f (filter (\<lambda>x. \<not> P x) xs))"
  for f :: "'a \<Rightarrow> nat"
  by (induction xs) simp_all

text \<open>
  Pieces of text cannot crowd out other messages. While the connection is open, a message that is no piece of
  text is accepted whenever the queued messages of its kind leave room for it in the reserve for control messages,
  however many pieces of text are queued.
\<close>

theorem outbound_control_reserve:
  assumes "(outbound_step alloc limits)\<^sup>*\<^sup>* outbound_start w" and "allocates alloc" and "ow_open w"
    and "\<not> oq_closed (ow_state w)" and "\<not> is_body_delta v" and "ol_control_frames limits \<le> ol_frames limits"
    and "length (filter (\<lambda>f. \<not> fr_data f) (oq_queue (ow_state w))) < ol_control_frames limits"
    and "sum_list (map frame_charge (filter (\<lambda>f. \<not> fr_data f) (oq_queue (ow_state w)))) + length wire \<le> ol_control_bytes limits"
  shows "fst (outbound_send alloc limits v wire (ow_state w))"
proof -
  let ?st = "ow_state w" and ?f = "frame_of v wire"
  have ok: "queue_counts ?st" "queue_within limits ?st"
    using outbound_reachable [OF assms(1,2)] assms(3) by (simp_all add: outbound_ok_def)
  have "length (oq_queue ?st) = oq_data_frames ?st + length (filter (\<lambda>f. \<not> fr_data f) (oq_queue ?st))"
    using ok(1) sum_length_filter_compl [of fr_data "oq_queue ?st"] by (simp add: queue_counts_def)
  then have "length (oq_queue ?st) < ol_frames limits" using ok(2) assms(6,7) unfolding queue_within_def by linarith
  moreover have "oq_bytes ?st + length wire \<le> ol_data_bytes limits + ol_control_bytes limits"
    using ok assms(8) sum_filter_split [of frame_charge "oq_queue ?st" fr_data] by (simp add: queue_counts_def queue_within_def)
  moreover have "\<not> oversized limits ?f" using assms(8) by (simp add: oversized_def frame_of_def)
  ultimately have "fits limits ?f (serialized wire ?st)" using assms(5) by (simp add: fits_def frame_of_def Let_def)
  then show ?thesis using assms(4) by (simp add: outbound_send_def Let_def split: option.split)
qed

section \<open>Witnesses\<close>

definition quoted :: "string \<Rightarrow> byte list" where
  "quoted text = [QUOTE_BYTE] @ ascii text @ [QUOTE_BYTE]"

definition example_delta :: "string \<Rightarrow> json" where
  "example_delta text =
     JObject [(S ''jsonrpc'', JString (S ''2.0'')), (S ''method'', JString (S ''agent.event'')),
       (S ''params'', JObject [(S ''delta'', JString (S text)), (S ''runId'', JString (S ''r'')), (S ''type'', JString (S ''message_delta''))])]"

definition example_wire :: "string \<Rightarrow> byte list" where
  "example_wire text =
     ascii ''{'' @ quoted ''jsonrpc'' @ ascii '':'' @ quoted ''2.0'' @ ascii '','' @ quoted ''method'' @ ascii '':'' @ quoted ''agent.event''
     @ ascii '','' @ quoted ''params'' @ ascii '':{'' @ quoted ''delta'' @ ascii '':'' @ quoted text @ ascii '','' @ quoted ''runId'' @ ascii '':''
     @ quoted ''r'' @ ascii '','' @ quoted ''type'' @ ascii '':'' @ quoted ''message_delta'' @ ascii ''}}'' @ [10]"

definition small_limits :: outbound_limits where
  "small_limits = \<lparr>ol_data_bytes = 300, ol_control_bytes = 100, ol_frames = 4, ol_control_frames = 2, ol_merge_bytes = 200\<rparr>"

definition sent_once :: outbound_state where
  "sent_once = snd (outbound_send id small_limits (example_delta ''ab'') (example_wire ''ab'') outbound_channel)"

definition sent_twice :: outbound_state where
  "sent_twice = snd (outbound_send id small_limits (example_delta ''cd'') (example_wire ''cd'') sent_once)"

definition twice_world :: outbound_world where
  "twice_world = outbound_start\<lparr>ow_state := sent_twice, ow_accepted :=
     [message_of (example_delta ''ab'') (example_wire ''ab''), message_of (example_delta ''cd'') (example_wire ''cd'')]\<rparr>"

lemma example_sends:
  "fst (outbound_send id small_limits (example_delta ''ab'') (example_wire ''ab'') outbound_channel)"
  "fst (outbound_send id small_limits (example_delta ''cd'') (example_wire ''cd'') sent_once)"
  "map fr_wire (oq_queue sent_twice) = [example_wire ''abcd'']"
  "oq_senders sent_once = 1" "\<not> oq_closed sent_twice"
  by code_simp+

lemma twice_reachable: "(outbound_step id small_limits)\<^sup>*\<^sup>* outbound_start twice_world"
proof -
  let ?w = "outbound_start\<lparr>ow_state := sent_once, ow_accepted := [message_of (example_delta ''ab'') (example_wire ''ab'')]\<rparr>"
  have "outbound_step id small_limits outbound_start ?w"
    using outbound_step.sent [of outbound_start id small_limits "example_delta ''ab''" "example_wire ''ab''" True sent_once] example_sends(1)
    by (simp add: sent_once_def outbound_start_def message_of_def prod_eq_iff) (simp add: outbound_channel_def)
  moreover have "outbound_step id small_limits ?w twice_world"
    using outbound_step.sent [of ?w id small_limits "example_delta ''cd''" "example_wire ''cd''" True sent_twice] example_sends(2,4)
    by (simp add: sent_twice_def twice_world_def outbound_start_def message_of_def prod_eq_iff)
  ultimately show ?thesis by (meson rtranclp.rtrancl_into_rtrancl rtranclp.rtrancl_refl)
qed

lemma allocates_id: "allocates id"
  by (simp add: allocates_def)

theorem outbound_order_witness:
  "map fr_wire (oq_queue (ow_state twice_world)) = [example_wire ''abcd''] \<and> length (ow_accepted twice_world) = 2
   \<and> (\<exists>groups. list_all2 carries (oq_queue (ow_state twice_world)) groups \<and> concat groups = ow_accepted twice_world)"
  using outbound_order [OF twice_reachable allocates_id] example_sends(3)
  by (auto simp: twice_world_def outbound_start_def)

theorem outbound_bounded_witness: "oq_data_frames sent_twice = length (filter fr_data (oq_queue sent_twice)) \<and> ow_open twice_world"
  using outbound_bounded [OF twice_reachable allocates_id] by (simp add: twice_world_def outbound_start_def)

theorem outbound_control_reserve_witness: "fst (outbound_send id small_limits JNull (ascii ''null'') sent_twice)"
proof -
  have "\<not> is_body_delta JNull" by code_simp
  moreover have "length (filter (\<lambda>f. \<not> fr_data f) (oq_queue sent_twice)) < ol_control_frames small_limits" by code_simp
  moreover have "sum_list (map frame_charge (filter (\<lambda>f. \<not> fr_data f) (oq_queue sent_twice))) + length (ascii ''null'')
      \<le> ol_control_bytes small_limits"
    by code_simp
  moreover have "ol_control_frames small_limits \<le> ol_frames small_limits" by (simp add: small_limits_def)
  ultimately show ?thesis
    using outbound_control_reserve [OF twice_reachable allocates_id, of JNull "ascii ''null''"] example_sends(5)
    by (simp add: twice_world_def outbound_start_def)
qed

end
