(* ===== verification/Spec2Isabelle.thy ===== *)
theory Spec2Isabelle
  imports Command_Nesting Command_Redirections Command_Evasions Command_Text Lexical_Paths
    Source_Replacements Shell_Quoting Command_Transcript_Props Command_Registry
    Output_Archive Session_Lifecycle Session_Manager Tool_Failure_Guard File_Change_Safety
    File_Change_Execute File_Observations File_Change_Policy Run_Grants_Props
    Keyed_Admission Rpc_Scheduling Outbound_Queue
begin

text \<open>
  A verification development for the command, guard and file-change core of Captain Who, a desktop
  agent workspace. A model proposes shell commands and file changes. Before a command runs,
  \<open>src/crates/core/src/command\<close> turns its exact text into a decision: allow it, ask a human, or deny it
  under every authority. When it runs, a session owns the process, captures, redacts and records its
  output and reports its life to the host. A guard stops calls that keep failing, and a planner turns
  a requested file change into a plan whose digest a human approves. An approved change is executed by
  a committer that shares the directory with other programs, and its outcome is recorded and reported.
  What a change may touch is decided by the frozen folders of the workspace, the path policy, the
  observations the model was given, and the grants a human gave to the run.
  The core server admits the requests of its clients by the conversations they touch, shares its workers fairly among the
  conversation trees, and sends its messages through one bounded queue.
  The development models the policy for the Unix build and these components around it.

  \<^bold>\<open>The program's parts and how they interact.\<close> \<open>normalize_command_text\<close> (\<open>policy.rs\<close>) fixes the
  canonical text. \<open>lex_command\<close> (\<open>lexer.rs\<close>) cuts it into segments with tokens, source ranges,
  redirections and here-document flags, and extracts command substitutions.
  \<open>validate_write_redirection_targets\<close> (\<open>policy.rs\<close>) scans the same text a second time for output
  redirections to devices. \<open>assess_segment\<close> (\<open>segment.rs\<close>) resolves the program behind wrappers
  (\<open>effective_program\<close>, \<open>env_split_command\<close>), collects provenance findings and either recurses into
  \<open>sh -c\<close> or \<open>env -S\<close> text or asks \<open>classify_segment\<close> (\<open>risk.rs\<close>), which uses the allow lists of
  \<open>allowlist.rs\<close>. \<open>analyze_command\<close> ties the recursion with a depth bound, and
  \<open>evaluate_command_policy_at\<close> decides from the findings, the permission snapshot
  (\<open>protocol/session.rs\<close>) and the authorization source.

  An allowed command is started by the manager (\<open>session_manager.rs\<close>), which reserves a slot within its
  quotas, creates the session (\<open>session.rs\<close>) and spawns two readers and a watcher. A reader
  (\<open>output_capture.rs\<close>) redacts private paths in the stream, decodes it, hands the text to the session's
  transcript (\<open>transcript.rs\<close>) and keeps a bounded exact copy. The watcher waits for the process, applies
  timeouts and control requests and settles the result, which the session publishes once and the
  manager uses to free the slot. Every tool call passes the failure guard
  (\<open>runtime/tool_failure_guard.rs\<close>), which knows a call by its fingerprint. A file change passes the planner
  (\<open>file_change/planner.rs\<close>), which identifies contents by the revision of \<open>revision.rs\<close> and the digests of
  \<open>file_change/digest.rs\<close>. The plan is frozen with its observation in a binding (\<open>file_change/model.rs\<close>). After the approval
  the core server (\<open>agent_support/actions.rs\<close>) checks that the binding still fits the run, rebuilds the plan from it, has
  the committer (\<open>file_change/committer.rs\<close>) publish it through the calls of \<open>file_change/bound_io.rs\<close>, advances the
  binding with the receipt and reports the result. After a crash the recovery reconciles the disk with the plan.

  Before a change is planned its address is read (\<open>resource_locator.rs\<close>, \<open>system_paths.rs\<close>), resolved in the frozen folders
  of the workspace (\<open>workspace.rs\<close>) and checked by the path policy (\<open>file_change/policy.rs\<close>), which remembers the identity
  of the directories it went through. Reading a file gives the model an observation (\<open>file_change/observation.rs\<close>), which
  one later call can claim through the view of \<open>tools/context.rs\<close>; the claimed observation is frozen in the binding. A human
  who approves a change can grant further changes of the run in the same scope (\<open>file_change/run_grant.rs\<close>); the grants live
  in a table (\<open>storage/file_change_run_grant_repository.rs\<close>) and are checked again before each effect
  (\<open>storage/service/file_change_run_grants.rs\<close>).

  In the core server a request reserves the conversations it will change, or all of them
  (\<open>application/agent/keyed_admission.rs\<close>). Before that the transport orders it after the earlier requests whose scope
  overlaps its own and gives it a worker in turn (\<open>transport/bounded_dispatch_resources.rs\<close>). What a run reports goes to the
  client through the outbound queue (\<open>transport/outbound.rs\<close>), which joins pieces of one text and never makes a producer wait.

  \<^bold>\<open>Theories, in import order.\<close>
  \<^item> \<open>Prelude\<close>: Rust strings, slices, \<open>Option\<close> and \<open>Result\<close>; shared lemmas and fact collections.
  \<^item> \<open>Permissions\<close>: the six permission enums, the snapshot, its default and its meet, with the
    library's \<open>semilattice_order\<close> interpreted on them.
  \<^item> \<open>Command_Types\<close>: enums and structs of \<open>types.rs\<close> and \<open>policy.rs\<close>, findings.
  \<^item> \<open>Command_Scanners\<close>: the character scanners, and the locales \<open>cursor_scanner\<close> and
    \<open>consuming_scanner\<close> that state what the lexer needs of them, interpreted on each scanner.
  \<^item> \<open>Command_Lexer\<close>, \<open>Command_Lexer_Props\<close>: the lexer as a state record and one definition per arm
    of its loop, its termination, and the invariant of its result.
  \<^item> \<open>Shell_Quoting\<close>, \<open>Source_Replacements\<close>: the quoting and the splicing of
    \<open>managed_pdf_shell.rs\<close>, with their round trips through the lexer.
  \<^item> \<open>Unix_Path\<close>, \<open>Command_Program\<close>, \<open>Command_Targets\<close>, \<open>Lexical_Paths\<close>: \<open>std::path\<close> as far as it is
    used, program resolution, path and argument predicates, and what path normalisation preserves.
  \<^item> \<open>Command_Allowlist\<close>, \<open>Command_Risk\<close>, \<open>Command_Risk_Props\<close>: the allow lists, the classifier, the
    closed option grammar as an inductive language, and what each class guarantees.
  \<^item> \<open>Command_Segment\<close>, \<open>Command_Policy\<close>: segment assessment, analysis and decision.
  \<^item> \<open>Command_Findings\<close>: the locale \<open>finding_appender\<close>, the contract of every function that pushes onto
    \<open>&mut findings\<close>, its interpretations on the two loops of the analysis, and the view of an analysis without
    indices, \<open>spec_command\<close>, with which the later theories argue.
  \<^item> \<open>Command_Decisions\<close>: the locale \<open>read_scope_projection\<close> (what the read permission changes), the
    monotonicity of decisions, and the exact set of commands that run without a human.
  \<^item> \<open>Command_Nesting\<close>: the locale \<open>analyzer_extension\<close> (what more nesting levels change), nested and
    denied commands, and what an evaluation reports.
  \<^item> \<open>Command_Text\<close>, \<open>Command_Redirections\<close>: canonical text, and the scan of write targets against
    the text it protects.
  \<^item> \<open>Command_Evasions\<close>: concrete texts on which the policy and a POSIX shell disagree.
  \<^item> \<open>Command_Transcript\<close>, \<open>Command_Transcript_Props\<close>: the bounded output history of
    \<open>transcript.rs\<close> as a state machine with an invariant over its runs.
  \<^item> \<open>Command_Registry\<close>: the registry of running commands of \<open>types.rs\<close>, with the cancel flags in an
    explicit store because the registry and the guards share them.
  \<^item> \<open>Contracts\<close>: the locales several components meet: \<open>step_invariant\<close> and \<open>step_settles\<close> (what every
    run of a step relation keeps, and what is final) and \<open>chunked_stream\<close> (a filter that works on a
    stream in pieces).
  \<^item> \<open>Output_Redaction\<close>, \<open>Utf8_Stream\<close>: the redaction and the decoding of a byte stream, both
    interpretations of \<open>chunked_stream\<close>: the cuts between reads do not matter.
  \<^item> \<open>Output_Capture\<close>, \<open>Output_Archive\<close>: the capture thread with its shared budget, and the JSON string
    written from a spool with the proof that it reads back.
  \<^item> \<open>Transcript_Cursor\<close>: the locale \<open>cursor_log\<close>, what a reader with a cursor relies on, interpreted on
    the transcript.
  \<^item> \<open>Command_Session\<close>, \<open>Session_Lifecycle\<close>: one session with every operation, the interleaving of its
    threads as a step relation, and the invariants of its runs: order of events, publication and
    finality of the end, interrupts, delivery of output.
  \<^item> \<open>Session_Watcher\<close>: the thread that owns the process, its deadlines and the settlement.
  \<^item> \<open>Session_Manager\<close>: the table of sessions, its quotas, pruning, shutdown and the start of a command.
  \<^item> \<open>Call_Fingerprint\<close>, \<open>Tool_Failure_Guard\<close>: the identity of a tool call and the guard, live and rebuilt
    from the items of a trace.
  \<^item> \<open>Content_Revision\<close>, \<open>File_Change_Plan\<close>: revisions and digests of contents, edits and the plan of a
    file change, with the exact set of requests that get a plan.
  \<^item> \<open>File_Change_Model\<close>, \<open>File_Change_Binding\<close>: transaction, proposal, receipt, journal, observation and binding with
    their validations; the life of a binding and when a commit can be recorded.
  \<^item> \<open>File_Change_Disk\<close>, \<open>File_Change_Commit\<close>: a directory shared with other programs, the calls on it, and the whole
    committer.
  \<^item> \<open>File_Change_Wp\<close>: weakest preconditions of runs, and the locale \<open>disk_turns\<close>: given which turns are considered,
    one rule for each call. It is interpreted on undisturbed turns (\<open>File_Change_Atomic\<close>: atomicity and recovery under
    failing calls and kills) and on turns that leave the private names alone (\<open>File_Change_Safety\<close>: what is unlinked
    while others interfere). \<open>File_Change_Live\<close>: a commit nothing disturbs goes through.
  \<^item> \<open>File_Change_Errors\<close>, \<open>File_Change_Execute\<close>: error codes, the execution of an approved change and the truth of the
    reported result.
  \<^item> \<open>Directory_Identity\<close>, \<open>File_Observations\<close>: the identity of a directory, the registry of observations and the view of a
    tool call; its steps and a history of issues and claims, from which single use follows; checkpoints and their restoration.
  \<^item> \<open>Workspace\<close>, \<open>Workspace_Props\<close>: locators, aliases, frozen folders and the resolver; what a resolved path guarantees,
    and that the shown name of a file leads back to it.
  \<^item> \<open>File_Change_Policy\<close>: resolution and revalidation of the target of a change, and what both guarantee.
  \<^item> \<open>Run_Grants\<close>, \<open>Run_Grants_Props\<close>: grants, their scope, their table as a step relation with its invariant, and what an
    authorized change guarantees.
  \<^item> \<open>Keyed_Admission\<close>: reservations of conversations as a step relation; exclusion, order of admission, and that nobody
    is overtaken.
  \<^item> \<open>Rpc_Scheduling\<close>: scopes of requests and the fair distribution of workers; its counts, its order, and that no worker
    is left idle and no tree passed over.
  \<^item> \<open>Outbound_Queue\<close>: the outgoing frames; order and completeness of what is sent, exact accounting, limits and the
    reserve for control messages.

  \<^bold>\<open>How the code is represented.\<close> A \<open>Result\<close> is a sum with the error on the left; an error is its
  stable code. A function that mutates its arguments returns the new value. Loops over an index
  recurse over the index or over the remaining characters. Recursion between \<open>assess_segment\<close> and
  \<open>analyze_command\<close> is broken by passing the nested analyzer to the segment; \<open>analyze_command\<close>
  terminates because the depth grows to \<open>MAX_POLICY_NESTING = 8\<close>, so nine levels of fuel are exact.
  Indices and byte counts are natural numbers: the text is bounded by 16000 characters, far from the
  width of \<open>usize\<close>; the transcript's sequence number is kept at 64 bits, where it saturates. Byte counts
  of a capture and the counters of the guard saturate at their widths; revisions are computed on
  64-bit words. Threads are interleavings of whole critical sections: what the code does under one lock
  is one step. A wait on a condition variable returns in any later state. The watcher's loop recurses
  over the list of what the operating system answers, one entry for each turn, so it needs no fuel; its
  liveness theorem says within which entry it ends. File system code is a function on a directory and a
  list of turns, one for each system call: a turn says what other programs do before the call, whether the
  call fails and whether the process is killed there. The path policy and the workspace only look at the file
  system; they are functions of a snapshot, which answers \<open>symlink_metadata\<close> and \<open>canonicalize\<close>. The table of grants is the
  list of its rows, and a statement that updates it is a map over them.

  \<^bold>\<open>Parameters.\<close> The home directory comes from the crate \<open>dirs\<close>; every definition that asks for it
  takes it as the argument \<open>home\<close>, and every theorem holds for all its values. SHA-256 (\<open>sha2\<close>), the JSON
  encoding (\<open>serde_json\<close>) and the line diff (\<open>similar\<close>) are arguments of the fingerprint and of the planner;
  where a theorem needs that a hash does not collide, it is assumed for the hashed messages in question
  only. Clock readings, random identifiers, answers of the operating system, the iteration order of hash maps and the host's
  completion hook are inputs, as are the bytes of an outgoing message and the capacity the allocator gives to a vector. The known directories (\<open>dirs\<close>), the Unicode class of letters and digits and the UUID parser are
  fields of \<open>path_env\<close>.

  \<^bold>\<open>Not modelled.\<close> The localised \<open>reason\<close> sentences, which no decision reads; the Windows build, which
  denies everything; \<open>evaluate_command_policy_in_workspace\<close>, whose scope comes from the file system;
  process creation, artifact observation and input or output errors of commands, which are operating-system
  interaction; staged drafts, which live in the data base; the check that a grant still has its stored receipt
  (\<open>active_grant_has_authoritative_receipt\<close>), which the theorems take as an arbitrary predicate \<open>has_receipt\<close>; the recorder of
  traces, which sanitizes what it stores; the asynchronous waits of the scheduler and how the scope of a request is found; the
  model providers, the runtime loop and the rest of the server, which are asynchronous code over the network. Next in the plan:
  the approval of staged changes, the output budget and schedules.
\<close>

section \<open>Quoting and the policy\<close>

text \<open>
  Quoting disguises nothing: when the guarded policy lets a command line of single-quoted
  words run without a human, it has judged exactly those words, the first of them as the program.
\<close>

theorem quoted_command_judged_by_its_words:
  assumes "ws \<noteq> []" and "[] \<notin> set ws"
    and "ev_decision (evaluate_command_policy_at home (quoted_words ws)
           (permissions\<lparr>pm_command_safety := Guarded\<rparr>) Automatic root cwd) = Allow"
    and "CR \<notin> set (quoted_words ws)"
  shows "\<exists>segment. seg_tokens segment = ws \<and>
    safe_segment home (auto_safe MAX_POLICY_NESTING home (pm_read permissions) cwd) (pm_read permissions) cwd segment"
proof -
  have "auto_safe (Suc MAX_POLICY_NESTING) home (pm_read permissions) cwd (quoted_words ws)"
    using assms(3) unfolding guarded_allow_iff by blast
  then obtain body lexed where body: "normalize_command_text (quoted_words ws) = Inr body"
    and lexed: "lex_command body = Inr lexed"
    and safe: "list_all (safe_segment home (auto_safe MAX_POLICY_NESTING home (pm_read permissions) cwd)
      (pm_read permissions) cwd) (lexed_segments lexed)"
    by (auto split: sum.split_asm)
  have "body = quoted_words ws"
    using body assms(4)
    by (auto simp: normalize_command_text_def Let_def replace_crlf_fixed replace_char_fixed split: if_split_asm)
  with lex_quoted_words [OF assms(1,2)] lexed have "map seg_tokens (lexed_segments lexed) = [ws]" by auto
  then obtain segment where "lexed_segments lexed = [segment]" "seg_tokens segment = ws" by auto
  with safe show ?thesis by auto
qed

lemma quoted_ls_body:
  "analyze_body None analyze ReadAll None (quoted_words [S ''ls'', S ''-l'']) =
     Inr [finding 0 (S ''ls'') ReadOnly ''command.risk.read_only'']"
  by code_simp

theorem quoted_command_judged_by_its_words_witness:
  "\<exists>segment. seg_tokens segment = [S ''ls'', S ''-l''] \<and>
    safe_segment None (auto_safe MAX_POLICY_NESTING None ReadAll None) ReadAll None segment"
proof -
  have "ev_decision (evaluate_command_policy_at None (quoted_words [S ''ls'', S ''-l''])
      (full_permissions\<lparr>pm_command_safety := Guarded\<rparr>) Automatic None None) = Allow"
    by (simp add: evaluate_command_policy_at_def analyze_command.simps [of _ _ _ _ 0] MAX_POLICY_NESTING_def
        full_permissions_def quoted_ls_body scope_findings_def ev_decision_decide verdict_def
        del: quoted_words.simps)
  moreover have "CR \<notin> set (quoted_words [S ''ls'', S ''-l''])" by code_simp
  ultimately show ?thesis
    using quoted_command_judged_by_its_words [of "[S ''ls'', S ''-l'']" None full_permissions None None]
    by (simp add: full_permissions_def del: quoted_words.simps)
qed

end
